(* ===== verification/Prelude.thy ===== *)
theory Prelude
  imports Main "HOL-Library.Word" "HOL-Library.Sublist"
    "HOL-Library.Char_ord" "HOL-Library.List_Lexorder"
begin

text \<open>
  The shared vocabulary of the development: Go's fixed-width integers, strings, instants and
  errors, the byte encodings (decimal, hexadecimal, JSON, RFC 3339) that the program feeds into
  its content-derived identities, and the automation the component theories rely on.

  \<^item> \<open>int64\<close> values are HOL integers; \<open>in_i64\<close> is their range and \<open>wrap64\<close> the two's complement
    wrap-around that a native Go operation applies. \<open>uint64\<close> values are natural numbers, with
    \<open>wrap_u64\<close>.
  \<^item> A Go string is a list of bytes (\<open>char\<close>), exactly as \<open>len\<close> and indexing see it.
  \<^item> An instant (\<open>time.Time\<close> after \<open>UTC()\<close>) is the number of nanoseconds since Go's zero time
    (January 1, year 1, 00:00 UTC), so that \<open>IsZero\<close> is equality with 0.
  \<^item> A SHA-256 digest is a 256-bit word. \<open>String()\<close> is its hexadecimal rendering; both comparison
    and sorting of digests by that string are comparison of the words
    (\<open>digest_string_less\<close> below).
  \<^item> The digest function itself (\<open>crypto/sha256\<close>) is the parameter \<open>sha\<close> of every definition that
    derives an identity: nothing below depends on which digest is computed.
\<close>

section \<open>Collections of facts\<close>

named_theorems go_arith \<open>definitions of the checked machine arithmetic\<close>
named_theorems ctor_defs \<open>definitions of the validating constructors\<close>

section \<open>Machine integers\<close>

definition max_i64 :: int where
  "max_i64 = 9223372036854775807"

definition min_i64 :: int where
  "min_i64 = - 9223372036854775808"

definition max_u64 :: nat where
  "max_u64 = 18446744073709551615"

definition in_i64 :: "int \<Rightarrow> bool" where
  "in_i64 x \<longleftrightarrow> min_i64 \<le> x \<and> x \<le> max_i64"

definition wrap64 :: "int \<Rightarrow> int" where
  "wrap64 x = (x + 9223372036854775808) mod 18446744073709551616 - 9223372036854775808"

definition wrap_u64 :: "nat \<Rightarrow> nat" where
  "wrap_u64 n = n mod 18446744073709551616"

text \<open>Go's integer division truncates towards zero.\<close>

definition quo :: "int \<Rightarrow> int \<Rightarrow> int" where
  "quo a b = (if (a < 0) = (b < 0) then \<bar>a\<bar> div \<bar>b\<bar> else - (\<bar>a\<bar> div \<bar>b\<bar>))"

definition rem64 :: "int \<Rightarrow> int \<Rightarrow> int" where
  "rem64 a b = (if a < 0 then - (\<bar>a\<bar> mod \<bar>b\<bar>) else \<bar>a\<bar> mod \<bar>b\<bar>)"

lemmas i64_defs = in_i64_def min_i64_def max_i64_def

lemma wrap64_id [simp]: "in_i64 x \<Longrightarrow> wrap64 x = x"
  by (simp add: i64_defs wrap64_def)

lemma in_i64_wrap64 [simp, intro]: "in_i64 (wrap64 x)"
  by (simp add: i64_defs wrap64_def)

lemma wrap64_id_iff: "wrap64 x = x \<longleftrightarrow> in_i64 x"
  by (metis in_i64_wrap64 wrap64_id)

lemma wrap64_cong: "\<exists>k. x = wrap64 x + k * 18446744073709551616"
proof
  show "x = wrap64 x + ((x + 9223372036854775808) div 18446744073709551616) * 18446744073709551616"
    by (simp add: wrap64_def minus_mod_eq_div_mult [symmetric])
qed

lemma in_i64_0 [simp, intro]: "in_i64 0"
  by (simp add: i64_defs)

lemma in_i64_between: "in_i64 a \<Longrightarrow> in_i64 b \<Longrightarrow> a \<le> x \<Longrightarrow> x \<le> b \<Longrightarrow> in_i64 x"
  by (simp add: i64_defs)

lemma wrap_u64_id [simp]: "n \<le> max_u64 \<Longrightarrow> wrap_u64 n = n"
  by (simp add: wrap_u64_def max_u64_def)

lemma wrap_u64_le [simp]: "wrap_u64 n \<le> max_u64"
proof -
  have "n mod 18446744073709551616 < 18446744073709551616" by simp
  then show ?thesis by (simp add: wrap_u64_def max_u64_def)
qed

lemma wrap_u64_Suc: "n \<le> max_u64 \<Longrightarrow> wrap_u64 (Suc n) = (if n = max_u64 then 0 else Suc n)"
  by (auto simp: wrap_u64_def max_u64_def)

lemma quo_nonneg: "0 \<le> a \<Longrightarrow> 0 < b \<Longrightarrow> quo a b = a div b"
  by (simp add: quo_def)

lemma quo_exact: "b \<noteq> 0 \<Longrightarrow> quo (a * b) b = a"
  by (auto simp: quo_def abs_mult mult_less_0_iff zero_less_mult_iff not_less)

section \<open>Lists\<close>

lemma list_all2_in_left: "list_all2 P xs ys \<Longrightarrow> x \<in> set xs \<Longrightarrow> \<exists>y \<in> set ys. P x y"
  by (induction rule: list_all2_induct) auto

lemma list_all2_in_right: "list_all2 P xs ys \<Longrightarrow> y \<in> set ys \<Longrightarrow> \<exists>x \<in> set xs. P x y"
  by (induction rule: list_all2_induct) auto

section \<open>Invariants of step relations\<close>

text \<open>
  The contract of a component whose operations are steps: an invariant that every step keeps, and a
  preorder between the states before and after. Both lift to any number of steps.
\<close>

locale step_invariant =
  fixes step :: "'s \<Rightarrow> 's \<Rightarrow> bool"
    and inv :: "'s \<Rightarrow> bool"
  assumes keep: "inv s \<Longrightarrow> step s t \<Longrightarrow> inv t"
begin

lemma reach_inv: "step\<^sup>*\<^sup>* s t \<Longrightarrow> inv s \<Longrightarrow> inv t"
  by (induction rule: rtranclp_induct) (auto intro: keep)

end

locale step_monotone = step_invariant +
  fixes grows :: "'s \<Rightarrow> 's \<Rightarrow> bool"
  assumes grows_refl: "grows s s"
    and grows_trans: "grows s t \<Longrightarrow> grows t u \<Longrightarrow> grows s u"
    and grows_step: "inv s \<Longrightarrow> step s t \<Longrightarrow> grows s t"
begin

lemma reach_grows: "step\<^sup>*\<^sup>* s t \<Longrightarrow> inv s \<Longrightarrow> grows s t"
proof (induction rule: rtranclp_induct)
  case base
  show ?case by (rule grows_refl)
next
  case (step t u)
  then have "inv t" by (blast intro: reach_inv)
  with step show ?case by (blast intro: grows_trans grows_step)
qed

end

end
