(* ===== verification/Encoding.thy ===== *)
theory Encoding
  imports Prelude
begin

text \<open>
  Byte encodings used by the program's canonical forms: trimming, decimal and hexadecimal
  rendering, \<open>encoding/json\<close> output for the wire structs, RFC 3339 instants, and the
  length-prefixed pre-image of every derived identity
  (\<open>derive\<close> and \<open>writePart\<close> of \<open>internal/execution/model/identity.go\<close> and of
  \<open>internal/accounting/model/identity.go\<close>).
\<close>

section \<open>Trimming and case\<close>

text \<open>
  The UTF-8 encodings of the runes for which \<open>unicode.IsSpace\<close> holds: \<open>strings.TrimSpace\<close> removes
  them from both ends.
\<close>

definition space_runes :: "string list" where
  "space_runes =
     [[CHR 0x09], [CHR 0x0A], [CHR 0x0B], [CHR 0x0C], [CHR 0x0D], [CHR 0x20],
      [CHR 0xC2, CHR 0x85], [CHR 0xC2, CHR 0xA0],
      [CHR 0xE1, CHR 0x9A, CHR 0x80],
      [CHR 0xE2, CHR 0x80, CHR 0x80], [CHR 0xE2, CHR 0x80, CHR 0x81], [CHR 0xE2, CHR 0x80, CHR 0x82],
      [CHR 0xE2, CHR 0x80, CHR 0x83], [CHR 0xE2, CHR 0x80, CHR 0x84], [CHR 0xE2, CHR 0x80, CHR 0x85],
      [CHR 0xE2, CHR 0x80, CHR 0x86], [CHR 0xE2, CHR 0x80, CHR 0x87], [CHR 0xE2, CHR 0x80, CHR 0x88],
      [CHR 0xE2, CHR 0x80, CHR 0x89], [CHR 0xE2, CHR 0x80, CHR 0x8A],
      [CHR 0xE2, CHR 0x80, CHR 0xA8], [CHR 0xE2, CHR 0x80, CHR 0xA9], [CHR 0xE2, CHR 0x80, CHR 0xAF],
      [CHR 0xE2, CHR 0x81, CHR 0x9F], [CHR 0xE3, CHR 0x80, CHR 0x80]]"

text \<open>Dropping every leading block of \<open>runes\<close>; blocks of length 0 are ignored.\<close>

function trim_left :: "string list \<Rightarrow> string \<Rightarrow> string" where
  "trim_left runes s =
     (case find (\<lambda>r. r \<noteq> [] \<and> prefix r s) runes of
        None \<Rightarrow> s
      | Some r \<Rightarrow> trim_left runes (drop (length r) s))"
  by pat_completeness auto
termination
proof (relation "measure (\<lambda>(runes, s). length s)")
  fix runes :: "string list" and s r :: string
  assume "find (\<lambda>r. r \<noteq> [] \<and> prefix r s) runes = Some r"
  then have "r \<noteq> []" "prefix r s" by (auto simp: find_Some_iff)
  then show "((runes, drop (length r) s), runes, s) \<in> measure (\<lambda>(runes, s). length s)"
    by (auto simp: prefix_def)
qed simp

declare trim_left.simps [simp del]

definition trim_space :: "string \<Rightarrow> string" where
  "trim_space s = rev (trim_left (map rev space_runes) (rev (trim_left space_runes s)))"

text \<open>
  \<open>strings.ToUpper\<close> on ASCII letters, and on the two non-ASCII runes whose upper case is ASCII
  (U+0131 and U+017F); every other byte is kept.
\<close>

fun to_upper :: "string \<Rightarrow> string" where
  "to_upper [] = []"
| "to_upper [c] = (if CHR ''a'' \<le> c \<and> c \<le> CHR ''z'' then [char_of (of_char c - 32 :: nat)] else [c])"
| "to_upper (c # d # s) =
     (if c = CHR 0xC4 \<and> d = CHR 0xB1 then CHR ''I'' # to_upper s
      else if c = CHR 0xC5 \<and> d = CHR 0xBF then CHR ''S'' # to_upper s
      else (if CHR ''a'' \<le> c \<and> c \<le> CHR ''z'' then char_of (of_char c - 32 :: nat) else c)
           # to_upper (d # s))"

lemma trim_left_Nil [simp]: "trim_left runes [] = []"
proof (subst trim_left.simps)
  have "find (\<lambda>r. r \<noteq> [] \<and> prefix r []) runes = None"
    by (auto simp: find_None_iff)
  then show "(case find (\<lambda>r. r \<noteq> [] \<and> prefix r []) runes of None \<Rightarrow> []
      | Some r \<Rightarrow> trim_left runes (drop (length r) [])) = []" by simp
qed

lemma trim_left_idem: "trim_left runes (trim_left runes s) = trim_left runes s"
proof (induction runes s rule: trim_left.induct)
  case (1 runes s)
  show ?case
  proof (cases "find (\<lambda>r. r \<noteq> [] \<and> prefix r s) runes")
    case None
    then have "trim_left runes s = s" by (subst trim_left.simps) simp
    then show ?thesis by simp
  next
    case (Some r)
    then have "trim_left runes s = trim_left runes (drop (length r) s)"
      by (subst trim_left.simps) simp
    with "1.IH" [OF Some] show ?thesis by simp
  qed
qed

text \<open>A string without any byte of a space rune is left alone.\<close>

lemma trim_left_id:
  assumes "set s \<inter> set (concat runes) = {}"
  shows "trim_left runes s = s"
proof (subst trim_left.simps)
  have "find (\<lambda>r. r \<noteq> [] \<and> prefix r s) runes = None"
    using assms by (fastforce simp: find_None_iff prefix_def neq_Nil_conv)
  then show "(case find (\<lambda>r. r \<noteq> [] \<and> prefix r s) runes of None \<Rightarrow> s
      | Some r \<Rightarrow> trim_left runes (drop (length r) s)) = s" by simp
qed

definition space_byte :: "char \<Rightarrow> bool" where
  "space_byte c \<longleftrightarrow> c \<in> set (concat space_runes)"

lemma trim_space_id: "\<forall>c \<in> set s. \<not> space_byte c \<Longrightarrow> trim_space s = s"
proof -
  assume "\<forall>c \<in> set s. \<not> space_byte c"
  then have "set s \<inter> set (concat space_runes) = {}" by (auto simp: space_byte_def)
  then show ?thesis by (simp add: trim_space_def trim_left_id)
qed

lemma trim_space_Nil [simp]: "trim_space [] = []"
  by (simp add: trim_space_def)

section \<open>Decimal and hexadecimal\<close>

definition digit_char :: "nat \<Rightarrow> char" where
  "digit_char n = ''0123456789abcdef'' ! n"

fun dec_nat :: "nat \<Rightarrow> string" where
  "dec_nat n = (if n < 10 then [digit_char n] else dec_nat (n div 10) @ [digit_char (n mod 10)])"

declare dec_nat.simps [simp del]

definition dec_int :: "int \<Rightarrow> string" where
  "dec_int i = (if i < 0 then CHR ''-'' # dec_nat (nat (- i)) else dec_nat (nat i))"

definition pad_dec :: "nat \<Rightarrow> nat \<Rightarrow> string" where
  "pad_dec w n = (let s = dec_nat n in replicate (w - length s) (CHR ''0'') @ s)"

text \<open>\<open>fmt\<close>'s \<open>%0wd\<close>: the sign counts towards the width.\<close>

definition pad_int :: "nat \<Rightarrow> int \<Rightarrow> string" where
  "pad_int w i = (if i < 0 then CHR ''-'' # pad_dec (w - 1) (nat (- i)) else pad_dec w (nat i))"

type_synonym digest = "256 word"

definition digest_string :: "digest \<Rightarrow> string" where
  "digest_string d = map (\<lambda>i. digit_char (unat d div 16 ^ i mod 16)) (rev [0..<64])"

lemma length_digest_string [simp]: "length (digest_string d) = 64"
  by (simp add: digest_string_def)

lemma digit_char_table:
  "list_all (\<lambda>m. list_all (\<lambda>n. (digit_char m < digit_char n) = (m < n)) [0..<16]) [0..<16]"
  by code_simp

lemma digit_char_less:
  "m < 16 \<Longrightarrow> n < 16 \<Longrightarrow> digit_char m < digit_char n \<longleftrightarrow> m < n"
  using digit_char_table by (auto simp: list_all_iff)

lemma digit_char_eq:
  "m < 16 \<Longrightarrow> n < 16 \<Longrightarrow> digit_char m = digit_char n \<longleftrightarrow> m = n"
  using digit_char_less [of m n] digit_char_less [of n m]
  by (metis linorder_neqE_nat order_less_irrefl)

text \<open>
  Big-endian base-16 digits compare lexicographically as the numbers do, so sorting and comparing
  identities by \<open>String()\<close>, as the code does everywhere, is sorting and comparing the words.
\<close>

definition hex_digits :: "nat \<Rightarrow> nat \<Rightarrow> string" where
  "hex_digits k n = map (\<lambda>i. digit_char (n div 16 ^ i mod 16)) (rev [0..<k])"

lemma hex_digits_less:
  "hex_digits k m < hex_digits k n \<longleftrightarrow> m mod 16 ^ k < n mod 16 ^ k"
proof (induction k)
  case 0
  show ?case by (simp add: hex_digits_def)
next
  case (Suc k)
  have split: "x mod 16 ^ Suc k = 16 ^ k * (x div 16 ^ k mod 16) + x mod 16 ^ k" for x :: nat
    by (metis mod_mult2_eq power_Suc2)
  have bound: "x mod 16 ^ k < 16 ^ k" for x :: nat by simp
  have lex: "b * p + r < b * q + s \<longleftrightarrow> p < q \<or> p = q \<and> r < s"
    if "r < b" "s < b" for b p q r s :: nat
  proof -
    have "p < q \<Longrightarrow> b * p + r < b * q + s"
      using that mult_le_mono2 [of "Suc p" q b] by simp
    moreover have "q < p \<Longrightarrow> b * q + s < b * p + r"
      using that mult_le_mono2 [of "Suc q" p b] by simp
    ultimately show ?thesis by (metis add_less_cancel_left linorder_neqE_nat not_less_iff_gr_or_eq)
  qed
  have dm: "x mod 16 < 16" for x :: nat by simp
  have "hex_digits (Suc k) m < hex_digits (Suc k) n \<longleftrightarrow>
      digit_char (m div 16 ^ k mod 16) < digit_char (n div 16 ^ k mod 16) \<or>
      digit_char (m div 16 ^ k mod 16) = digit_char (n div 16 ^ k mod 16) \<and>
      hex_digits k m < hex_digits k n"
    by (simp add: hex_digits_def)
  also have "\<dots> \<longleftrightarrow> m div 16 ^ k mod 16 < n div 16 ^ k mod 16 \<or>
      m div 16 ^ k mod 16 = n div 16 ^ k mod 16 \<and> m mod 16 ^ k < n mod 16 ^ k"
    by (simp add: digit_char_less digit_char_eq Suc.IH)
  also have "\<dots> \<longleftrightarrow> m mod 16 ^ Suc k < n mod 16 ^ Suc k"
    unfolding split by (subst lex) (simp_all add: bound)
  finally show ?case .
qed

lemma digest_string_hex: "digest_string d = hex_digits 64 (unat d)"
  by (simp add: digest_string_def hex_digits_def)

lemma digest_string_less: "digest_string a < digest_string b \<longleftrightarrow> a < b"
proof -
  have "unat x mod 16 ^ 64 = unat x" for x :: digest
    using unsigned_less [where ?'a = nat, of x] by simp
  then show ?thesis by (simp add: digest_string_hex hex_digits_less word_less_nat_alt)
qed

lemma digest_string_inject [simp]: "digest_string a = digest_string b \<longleftrightarrow> a = b"
  by (metis digest_string_less linorder_neqE order_less_irrefl)

section \<open>JSON\<close>

text \<open>
  The wire structs of the program as ordered field lists. \<open>JRaw\<close> is a \<open>json.RawMessage\<close>: bytes that
  are already compact JSON and are embedded as they are (\<open>null\<close> for a nil message).
\<close>

datatype json =
    JStr string
  | JInt int
  | JBool bool
  | JNull
  | JArr "json list"
  | JObj "(string \<times> json) list"
  | JRaw string

text \<open>
  \<open>encoding/json\<close> string escaping, HTML-safe as \<open>json.Marshal\<close> is. \<open>json_char\<close> is the escaping of an
  ASCII byte.
\<close>

definition json_char :: "char \<Rightarrow> string" where
  "json_char c =
     (let n = of_char c :: nat in
      if c = CHR 0x22 \<or> c = CHR 0x5C then [CHR 0x5C, c]
      else if n = 8 then [CHR 0x5C, CHR ''b'']
      else if n = 12 then [CHR 0x5C, CHR ''f'']
      else if n = 10 then [CHR 0x5C, CHR ''n'']
      else if n = 13 then [CHR 0x5C, CHR ''r'']
      else if n = 9 then [CHR 0x5C, CHR ''t'']
      else if n < 32 \<or> c = CHR ''<'' \<or> c = CHR ''>'' \<or> c = CHR ''&'' then
        [CHR 0x5C, CHR ''u'', CHR ''0'', CHR ''0'', digit_char (n div 16), digit_char (n mod 16)]
      else [c])"

text \<open>
  \<open>utf8.DecodeRuneInString\<close>: the length of the multi-byte rune a string starts with, 0 when its
  encoding is invalid.
\<close>

definition utf8_len :: "string \<Rightarrow> nat" where
  "utf8_len s =
     (let b = (\<lambda>i. if i < length s then of_char (s ! i) else 0 :: nat);
          cont = (\<lambda>i. 128 \<le> b i \<and> b i < 192) in
      if 194 \<le> b 0 \<and> b 0 \<le> 223 then (if cont 1 then 2 else 0)
      else if 224 \<le> b 0 \<and> b 0 \<le> 239 then
        (if cont 1 \<and> cont 2 \<and> (b 0 = 224 \<longrightarrow> 160 \<le> b 1) \<and> (b 0 = 237 \<longrightarrow> b 1 < 160) then 3 else 0)
      else if 240 \<le> b 0 \<and> b 0 \<le> 244 then
        (if cont 1 \<and> cont 2 \<and> cont 3 \<and> (b 0 = 240 \<longrightarrow> 144 \<le> b 1) \<and> (b 0 = 244 \<longrightarrow> b 1 < 144) then 4 else 0)
      else 0)"

text \<open>
  An invalid byte becomes U+FFFD; U+2028 and U+2029 are escaped; every other multi-byte rune is kept.
\<close>

function json_body :: "string \<Rightarrow> string" where
  "json_body [] = []"
| "json_body (c # s) =
     (if (of_char c :: nat) < 128 then json_char c @ json_body s
      else if utf8_len (c # s) = 0 then CHR 0x5C # ''ufffd'' @ json_body s
      else if take 3 (c # s) = [CHR 0xE2, CHR 0x80, CHR 0xA8] then CHR 0x5C # ''u2028'' @ json_body (drop 2 s)
      else if take 3 (c # s) = [CHR 0xE2, CHR 0x80, CHR 0xA9] then CHR 0x5C # ''u2029'' @ json_body (drop 2 s)
      else take (utf8_len (c # s)) (c # s) @ json_body (drop (utf8_len (c # s) - 1) s))"
  by pat_completeness auto
termination
  by (relation "measure length") auto

declare json_body.simps(2) [simp del]

definition json_string :: "string \<Rightarrow> string" where
  "json_string s = CHR 0x22 # json_body s @ [CHR 0x22]"

fun commas :: "string list \<Rightarrow> string" where
  "commas [] = []"
| "commas [x] = x"
| "commas (x # y # xs) = x @ CHR '','' # commas (y # xs)"

fun marshal :: "json \<Rightarrow> string" where
  "marshal (JStr s) = json_string s"
| "marshal (JInt i) = dec_int i"
| "marshal (JBool b) = (if b then ''true'' else ''false'')"
| "marshal JNull = ''null''"
| "marshal (JArr xs) = CHR ''['' # commas (map marshal xs) @ '']''"
| "marshal (JObj fs) =
     CHR ''{'' # commas (map (\<lambda>(k, v). json_string k @ CHR '':'' # marshal v) fs) @ ''}''"
| "marshal (JRaw s) = (if s = [] then ''null'' else s)"

lemma marshal_JObj_nonempty [simp]: "marshal (JObj fs) \<noteq> []"
  by simp

declare marshal.simps(6) [simp del]

section \<open>Instants\<close>

type_synonym instant = int

definition nanos_per_day :: int where
  "nanos_per_day = 86400000000000"

definition is_leap :: "int \<Rightarrow> bool" where
  "is_leap y \<longleftrightarrow> y mod 4 = 0 \<and> (y mod 100 \<noteq> 0 \<or> y mod 400 = 0)"

fun days_in_month :: "int \<Rightarrow> int \<Rightarrow> int" where
  "days_in_month y m =
     (if m = 2 then (if is_leap y then 29 else 28)
      else if m = 4 \<or> m = 6 \<or> m = 9 \<or> m = 11 then 30 else 31)"

text \<open>Year and day of the year (from 0) of a day number counted from January 1, year 1.\<close>

definition civil_year :: "int \<Rightarrow> int \<times> int" where
  "civil_year d =
     (let n400 = d div 146097; r = d mod 146097;
          n100 = min 3 (r div 36524); r = r - n100 * 36524;
          n4 = r div 1461; r = r mod 1461;
          n1 = min 3 (r div 365); r = r - n1 * 365
      in (1 + 400 * n400 + 100 * n100 + 4 * n4 + n1, r))"

fun civil_month :: "int \<Rightarrow> int list \<Rightarrow> int \<Rightarrow> int \<times> int" where
  "civil_month y [] r = (12, r + 1)"
| "civil_month y (m # ms) r =
     (if r < days_in_month y m then (m, r + 1) else civil_month y ms (r - days_in_month y m))"

fun trim_zeros :: "string \<Rightarrow> string" where
  "trim_zeros s = rev (dropWhile (\<lambda>c. c = CHR ''0'') (rev s))"

text \<open>\<open>Format(time.RFC3339Nano)\<close> of an instant in UTC.\<close>

definition rfc3339_nano :: "instant \<Rightarrow> string" where
  "rfc3339_nano t =
     (let d = t div nanos_per_day; ns = t mod nanos_per_day;
          (y, yd) = civil_year d; (m, md) = civil_month y [1..12] yd;
          sec = ns div 1000000000; frac = nat (ns mod 1000000000);
          p2 = (\<lambda>k. pad_dec 2 (nat k));
          f = trim_zeros (pad_dec 9 frac)
      in (if y < 0 then CHR ''-'' # pad_dec 4 (nat (- y)) else pad_dec 4 (nat y)) @ ''-'' @ p2 m @ ''-'' @ p2 md @ ''T'' @
         p2 (sec div 3600) @ '':'' @ p2 (sec div 60 mod 60) @ '':'' @ p2 (sec mod 60) @
         (if f = [] then [] else CHR ''.'' # f) @ ''Z'')"

section \<open>Derived identities\<close>

definition be64 :: "nat \<Rightarrow> string" where
  "be64 n = map (\<lambda>i. char_of (n div 256 ^ i mod 256)) (rev [0..<8])"

definition writePart :: "string \<Rightarrow> string" where
  "writePart s = be64 (length s) @ s"

definition preimage :: "string \<Rightarrow> string list \<Rightarrow> string" where
  "preimage namespace parts = writePart namespace @ concat (map writePart parts)"

definition derive :: "(string \<Rightarrow> digest) \<Rightarrow> string \<Rightarrow> string list \<Rightarrow> digest" where
  "derive sha namespace parts = sha (preimage namespace parts)"

definition validParts :: "string list \<Rightarrow> bool" where
  "validParts parts \<longleftrightarrow> parts \<noteq> [] \<and> length parts \<le> 64 \<and>
     (\<forall>part \<in> set parts. trim_space part \<noteq> [] \<and> length part \<le> 4096)"

end
