(* ===== verification/Errors.thy ===== *)
theory Errors
  imports Encoding
begin

text \<open>
  The sentinel and structured errors of the packages, one datatype per Go package with the names the
  source declares, and the type of fallible results. A context that is already cancelled and a run-time
  panic are errors of their own.
\<close>

datatype domain_error =
    ErrInvalidCurrency | ErrCurrencyMismatch | ErrMoneyOverflow | ErrInvalidQuantity
  | ErrInvalidPrice | ErrInvalidID | ErrInvalidInstrument | ErrInvalidInstrumentID
  | ErrInvalidCivilDate | ErrInvalidOrderRequest

datatype portfolio_error =
    ErrArithmeticOverflow | ErrInvalidRatio | ErrInvalidAllocationCandidate | ErrInvalidIdentity_port
  | ErrInvalidExposure | ErrInvalidControlState | ErrInvalidPortfolioSnapshot
  | ErrInvalidCapitalReservation | ErrAllocationFailed

datatype strategy_error =
    ErrInvalidCanonicalJSON | ErrInvalidStrategyIdentity | ErrInvalidTradeProposal | ErrInvalidObservation_strategy

datatype risk_error =
    ErrInvalidRiskIdentity | ErrInvalidRiskPolicy | ErrInvalidRiskEvidence | ErrInvalidRiskEvaluation
  | ErrInvalidPortfolioRiskDecision | ErrRuleNotRegistered | ErrInvalidProductionPolicy

datatype risk_storage_error =
    ErrNotFound_risk | IdentityCollisionError_risk string string | ErrCapacityExhausted_risk
  | PortfolioRevisionConflictError digest nat nat | ErrInternal_risk | ErrInvalidPortfolioPublication
  | ErrCorruptPortfolioCheckpoint

datatype risk_runner_error =
    ErrDuplicateInProgress_risk | ErrPortfolioBusy | ErrAllocation | ErrInvalidOutput | ErrTimeout
  | ErrPanic | ErrShutdown_risk | ErrCancelled

datatype execution_error =
    ErrInvalidIdentity | ErrInvalidExecutionIntent | ErrDecisionNotExecutable | ErrDecisionExpired
  | ErrDecisionStale | ErrAuthorityEscalation | ErrInvalidOrderPlan | ErrDependencyCycle
  | ErrUnsafeLegSequence | ErrInvalidOrder | ErrInvalidTransition | ErrOverfill
  | ErrNonMonotonicFill | ErrReportOrderMismatch

datatype oms_error =
    ErrNotFound | ErrIdentityCollision | IdentityCollisionError string string | ErrCapacityExhausted
  | RevisionConflictError digest nat nat | ErrInvalidPublication | ErrCorruptCheckpoint | ErrInternal

datatype accounting_error =
    ErrInvalidIdentity_acct | ErrInvalidAccountingFill | ErrUnorderableFill
  | ErrInvalidPosition | ErrInvalidFillApplication | ErrInvalidIngestion
  | ErrInvalidInput | ErrPositionMismatch | ErrOutOfOrderFill | ErrArithmeticOverflow_acct

datatype accounting_storage_error =
    ErrNotFound_acct | ErrIdentityCollision_acct | IdentityCollisionError_acct string string
  | RevisionConflictError_acct digest nat nat | ErrInvalidPublication_acct
  | ErrCorruptCheckpoint_acct | ErrCapacityExhausted_acct | ErrInternal_acct

datatype accounting_coordinator_error =
    ErrInvalidConfiguration | ErrDuplicateInProgress | ErrPositionBusy | ErrShutdown | ErrInvalidReplay

datatype ingestion_error =
    ErrInvalidRequest_ing | ErrInvalidLineage | ErrUnknownInstrument | ErrInvalidAccountScope
  | ErrDuplicateInProgress_ing | ErrShutdown_ing | ErrRebuildRequired | ErrInternal_ing

datatype reconciliation_error =
    ErrInvalidObservation | ErrInvalidRequest_rec | ErrIdentityCollision_rec | ErrDuplicateInProgress_rec
  | ErrPositionChanged | ErrShutdown_rec

datatype broker_error =
    ErrUnavailable | ErrOutcomeUnknown | ErrNotFound_broker | ErrIdentityConflict | ErrInvalidRequest_broker
  | BrokerMessage string

datatype coordinator_error =
    ErrInvalidCoordinator | ErrDuplicateInProgress_plan | ErrPlanBusy | ErrOrderBusy | ErrShutdown_plan
  | ErrUnknownOutcome

datatype order_reconciliation_error = ErrInvalidReconciler | ErrReconciliationInProgress

datatype error =
    Domain domain_error
  | Portfolio portfolio_error
  | Execution execution_error
  | Oms oms_error
  | Accounting accounting_error
  | AccountingStorage accounting_storage_error
  | AccountingCoordinator accounting_coordinator_error
  | Ingestion ingestion_error
  | Reconciliation reconciliation_error
  | Broker broker_error
  | Coordinator coordinator_error
  | OrderReconciliation order_reconciliation_error
  | CanonicalJSON
  | PaperBroker string
  | Strategy strategy_error
  | Risk risk_error
  | RiskStorage risk_storage_error
  | RiskRunner risk_runner_error
  | ContextDone
  | Panic

type_synonym 'a result = "error + 'a"

text \<open>Sequencing of fallible steps: the first error is returned.\<close>

definition bind_r :: "'a result \<Rightarrow> ('a \<Rightarrow> 'b result) \<Rightarrow> 'b result" where
  "bind_r m f = (case m of Inl e \<Rightarrow> Inl e | Inr x \<Rightarrow> f x)"

lemma bind_r_simps [simp]:
  "bind_r (Inl e) f = Inl e"
  "bind_r (Inr x) f = f x"
  by (simp_all add: bind_r_def)

lemma bind_r_Inr [simp]: "bind_r m f = Inr y \<longleftrightarrow> (\<exists>x. m = Inr x \<and> f x = Inr y)"
  by (cases m) simp_all

text \<open>A successful guarded result: the guard did not fire.\<close>

lemma guard_Inr [simp]:
  "(if b then Inl e else m) = Inr y \<longleftrightarrow> \<not> b \<and> m = Inr y"
  "Inr y = (if b then Inl e else m) \<longleftrightarrow> \<not> b \<and> Inr y = m"
  by auto

lemma map_r_simps [simp]:
  "map_sum id f m = Inr y \<longleftrightarrow> (\<exists>x. m = Inr x \<and> y = f x)"
  by (cases m) auto

section \<open>Checked arithmetic as an interface\<close>

text \<open>
  What the callers of a checked int64 operation rely on: it never returns a wrapped value, it refuses
  when the exact result does not fit, and it succeeds whenever the exact result fits and the operands
  are acceptable. The provider of each operation interprets the locale.
\<close>

locale checked_op =
  fixes op :: "int \<Rightarrow> int \<Rightarrow> int result"
    and exact :: "int \<Rightarrow> int \<Rightarrow> int"
    and acceptable :: "int \<Rightarrow> int \<Rightarrow> bool"
  assumes sound: "in_i64 a \<Longrightarrow> in_i64 b \<Longrightarrow> op a b = Inr c \<Longrightarrow> c = exact a b \<and> in_i64 c"
    and complete: "in_i64 a \<Longrightarrow> in_i64 b \<Longrightarrow> acceptable a b \<Longrightarrow> in_i64 (exact a b) \<Longrightarrow>
      op a b = Inr (exact a b)"
begin

lemma overflow_refused: "in_i64 a \<Longrightarrow> in_i64 b \<Longrightarrow> \<not> in_i64 (exact a b) \<Longrightarrow> \<exists>e. op a b = Inl e"
  using sound by (metis obj_sumE)

lemma result_iff:
  "in_i64 a \<Longrightarrow> in_i64 b \<Longrightarrow> acceptable a b \<Longrightarrow> op a b = Inr c \<longleftrightarrow> c = exact a b \<and> in_i64 c"
  by (metis sound complete)

text \<open>Chains of checked operations.\<close>

lemma chain_sound:
  "in_i64 a \<Longrightarrow> \<forall>x \<in> set xs. in_i64 x \<Longrightarrow>
     fold (\<lambda>x m. bind_r m (\<lambda>acc. op acc x)) xs (Inr a) = Inr c \<Longrightarrow>
     c = fold (\<lambda>x acc. exact acc x) xs a \<and> in_i64 c"
proof (induction xs arbitrary: a)
  case Nil
  then show ?case by simp
next
  case (Cons x xs)
  have stuck: "fold (\<lambda>x m. bind_r m (\<lambda>acc. op acc x)) ys (Inl e) = Inl e" for ys e
    by (induction ys) simp_all
  from Cons.prems stuck obtain b where b: "op a x = Inr b"
    by (cases "op a x") auto
  with Cons.prems have "b = exact a x \<and> in_i64 b"
    by (intro sound) simp_all
  moreover from b Cons.prems(3) have "fold (\<lambda>x m. bind_r m (\<lambda>acc. op acc x)) xs (Inr b) = Inr c"
    by simp
  ultimately have "c = fold (\<lambda>x acc. exact acc x) xs b \<and> in_i64 c"
    using Cons.prems(2) by (intro Cons.IH) auto
  with \<open>b = exact a x \<and> in_i64 b\<close> show ?case by auto
qed

end

end
