(* ===== verification/Identity.thy ===== *)
theory Identity
  imports Errors
begin

text \<open>
  Content-derived identities: \<open>internal/execution/model/identity.go\<close> and
  \<open>internal/accounting/model/identity.go\<close>. Every identity is the digest of a namespace and a list of
  parts, each preceded by its length as eight big-endian bytes. The lemmas show that this pre-image
  is uniquely decodable: two identities can only agree if the digest function collides or the
  namespace and the parts are the same.
\<close>

section \<open>Execution identities\<close>

definition newID :: "(string \<Rightarrow> digest) \<Rightarrow> string \<Rightarrow> string list \<Rightarrow> digest result" where
  "newID sha namespace parts =
     (if \<not> validParts parts then Inl (Execution ErrInvalidIdentity)
      else Inr (derive sha namespace parts))"

definition NewExecutionReportID :: "(string \<Rightarrow> digest) \<Rightarrow> string \<Rightarrow> string \<Rightarrow> digest result" where
  "NewExecutionReportID sha source eventID = newID sha ''execution-report-id/v1'' [source, eventID]"

definition NewFillID :: "(string \<Rightarrow> digest) \<Rightarrow> string \<Rightarrow> string \<Rightarrow> digest result" where
  "NewFillID sha source executionID = newID sha ''execution-fill-id/v1'' [source, executionID]"

definition NewPublicationID :: "(string \<Rightarrow> digest) \<Rightarrow> string list \<Rightarrow> digest result" where
  "NewPublicationID sha parts = newID sha ''oms-publication-id/v1'' parts"

definition NewSubmissionAttemptID :: "(string \<Rightarrow> digest) \<Rightarrow> string list \<Rightarrow> digest result" where
  "NewSubmissionAttemptID sha parts = newID sha ''submission-attempt-id/v1'' parts"

definition NewStateChecksum :: "(string \<Rightarrow> digest) \<Rightarrow> string \<Rightarrow> digest result" where
  "NewStateChecksum sha canonical =
     (if canonical = [] then Inl (Execution ErrInvalidIdentity)
      else Inr (derive sha ''execution-state-checksum/v1'' [canonical]))"

text \<open>
  Callers that discard the error of \<open>NewStateChecksum\<close> get the zero digest on failure.
\<close>

definition state_checksum :: "(string \<Rightarrow> digest) \<Rightarrow> string \<Rightarrow> digest" where
  "state_checksum sha canonical = (case NewStateChecksum sha canonical of Inl _ \<Rightarrow> 0 | Inr d \<Rightarrow> d)"

section \<open>Accounting identities\<close>

definition NewPositionID :: "(string \<Rightarrow> digest) \<Rightarrow> string \<Rightarrow> string \<Rightarrow> digest result" where
  "NewPositionID sha portfolioID instrumentID =
     (if \<not> validParts [portfolioID, instrumentID] then Inl (Accounting ErrInvalidIdentity_acct)
      else Inr (derive sha ''accounting-position-id/v1'' [portfolioID, instrumentID]))"

definition NewFillApplicationID :: "(string \<Rightarrow> digest) \<Rightarrow> digest \<Rightarrow> string \<Rightarrow> digest result" where
  "NewFillApplicationID sha positionID fillID =
     (if positionID = 0 \<or> \<not> validParts [fillID] then Inl (Accounting ErrInvalidIdentity_acct)
      else Inr (derive sha ''accounting-fill-application-id/v1'' [digest_string positionID, fillID]))"

definition NewPublicationID_acct :: "(string \<Rightarrow> digest) \<Rightarrow> digest \<Rightarrow> string \<Rightarrow> digest result" where
  "NewPublicationID_acct sha positionID fillID =
     (if positionID = 0 \<or> \<not> validParts [fillID] then Inl (Accounting ErrInvalidIdentity_acct)
      else Inr (derive sha ''accounting-publication-id/v1'' [digest_string positionID, fillID]))"

definition NewStateChecksum_acct :: "(string \<Rightarrow> digest) \<Rightarrow> string \<Rightarrow> string \<Rightarrow> digest result" where
  "NewStateChecksum_acct sha namespace canonical =
     (if trim_space namespace = [] \<or> canonical = [] then Inl (Accounting ErrInvalidIdentity_acct)
      else Inr (derive sha namespace [canonical]))"

definition state_checksum_acct :: "(string \<Rightarrow> digest) \<Rightarrow> string \<Rightarrow> string \<Rightarrow> digest" where
  "state_checksum_acct sha namespace canonical =
     (case NewStateChecksum_acct sha namespace canonical of Inl _ \<Rightarrow> 0 | Inr d \<Rightarrow> d)"

definition NewIngestionID :: "(string \<Rightarrow> digest) \<Rightarrow> string \<Rightarrow> string \<Rightarrow> string \<Rightarrow> digest result" where
  "NewIngestionID sha fillID sourceCheckpoint bindingChecksum =
     (if \<not> validParts [fillID, sourceCheckpoint, bindingChecksum]
      then Inl (Accounting ErrInvalidIdentity_acct)
      else Inr (derive sha ''accounting-ingestion-id/v1'' [fillID, sourceCheckpoint, bindingChecksum]))"

section \<open>The pre-image is uniquely decodable\<close>

lemma length_be64 [simp]: "length (be64 n) = 8"
  by (simp add: be64_def)

lemma digits_determine:
  assumes "\<forall>i < k. m div b ^ i mod b = n div b ^ i mod b"
  shows "m mod b ^ k = n mod (b ^ k :: nat)"
  using assms
proof (induction k)
  case 0
  then show ?case by simp
next
  case (Suc k)
  have "x mod b ^ Suc k = b ^ k * (x div b ^ k mod b) + x mod b ^ k" for x :: nat
    by (metis mod_mult2_eq power_Suc2)
  with Suc show ?case by simp
qed

lemma be64_inject:
  assumes "be64 m = be64 n" "m < 2 ^ 64" "n < 2 ^ 64"
  shows "m = n"
proof -
  have "char_of (m div 256 ^ i mod 256) = (char_of (n div 256 ^ i mod 256) :: char)" if "i < 8" for i
    using assms(1) that by (auto simp: be64_def map_eq_conv)
  then have "\<forall>i < 8. m div 256 ^ i mod 256 = n div 256 ^ i mod 256"
    by (metis mod_mod_trivial of_char_of)
  then have "m mod 256 ^ 8 = n mod 256 ^ 8"
    by (rule digits_determine)
  with assms(2,3) show ?thesis by simp
qed

lemma writePart_append_inject:
  assumes "writePart x @ xs = writePart y @ ys" "length x < 2 ^ 64" "length y < 2 ^ 64"
  shows "x = y \<and> xs = ys"
proof -
  from assms(1) have "be64 (length x) = be64 (length y)" and rest: "x @ xs = y @ ys"
    by (auto simp: writePart_def append_eq_append_conv)
  with assms(2,3) have "length x = length y" by (blast intro: be64_inject)
  with rest show ?thesis by (simp add: append_eq_append_conv)
qed

lemma writeParts_inject:
  assumes "concat (map writePart xs) = concat (map writePart ys)"
    and "\<forall>x \<in> set xs. length x < 2 ^ 64" "\<forall>y \<in> set ys. length y < 2 ^ 64"
  shows "xs = ys"
  using assms
proof (induction xs arbitrary: ys)
  case Nil
  then show ?case
    by (cases ys) (auto simp: writePart_def be64_def)
next
  case (Cons x xs)
  then obtain y ys' where ys: "ys = y # ys'"
    by (cases ys) (auto simp: writePart_def be64_def)
  with Cons.prems have "x = y \<and> concat (map writePart xs) = concat (map writePart ys')"
    by (intro writePart_append_inject) simp_all
  with Cons ys show ?case by simp
qed

lemma preimage_inject:
  assumes "preimage m ps = preimage n qs"
    and "length m < 2 ^ 64" "length n < 2 ^ 64"
    and "\<forall>p \<in> set ps. length p < 2 ^ 64" "\<forall>q \<in> set qs. length q < 2 ^ 64"
  shows "m = n \<and> ps = qs"
proof -
  from assms(1) have "concat (map writePart (m # ps)) = concat (map writePart (n # qs))"
    by (simp add: preimage_def)
  then have "m # ps = n # qs"
    using assms(2-5) by (intro writeParts_inject) auto
  then show ?thesis by simp
qed

lemma validParts_lengths: "validParts ps \<Longrightarrow> \<forall>p \<in> set ps. length p < 2 ^ 64"
  by (force simp: validParts_def)

end
