(* ===== verification/Domain.thy ===== *)
theory Domain
  imports Identity
begin

text \<open>
  \<open>internal/domain\<close>: currencies, integer money and prices, quantities, identifiers, sides, civil dates,
  instruments and provider references, each with its validating constructor. The lemmas say what a
  value that passed its constructor satisfies, and that \<open>Money.Add\<close> is exact or refuses.
\<close>

section \<open>Money, price, quantity\<close>

type_synonym currency = string

definition is_upper_ascii :: "char \<Rightarrow> bool" where
  "is_upper_ascii c \<longleftrightarrow> CHR ''A'' \<le> c \<and> c \<le> CHR ''Z''"

definition NewCurrency :: "string \<Rightarrow> currency result" where
  "NewCurrency value =
     (let value = to_upper (trim_space value) in
      if length value \<noteq> 3 then Inl (Domain ErrInvalidCurrency)
      else if \<not> list_all is_upper_ascii value then Inl (Domain ErrInvalidCurrency)
      else Inr value)"

record money =
  minor :: int
  money_currency :: currency

definition zero_money :: money where
  "zero_money = \<lparr>minor = 0, money_currency = []\<rparr>"

definition NewMoney :: "int \<Rightarrow> string \<Rightarrow> money result" where
  "NewMoney m currency = bind_r (NewCurrency currency) (\<lambda>parsed. Inr \<lparr>minor = m, money_currency = parsed\<rparr>)"

definition money_is_zero_value :: "money \<Rightarrow> bool" where
  "money_is_zero_value m \<longleftrightarrow> money_currency m = []"

definition Money_Add :: "money \<Rightarrow> money \<Rightarrow> money result" where
  "Money_Add m other =
     (if money_currency m = [] \<or> money_currency other = [] \<or> money_currency m \<noteq> money_currency other
      then Inl (Domain ErrCurrencyMismatch)
      else if (minor other > 0 \<and> minor m > max_i64 - minor other) \<or>
              (minor other < 0 \<and> minor m < min_i64 - minor other)
      then Inl (Domain ErrMoneyOverflow)
      else Inr \<lparr>minor = wrap64 (minor m + minor other), money_currency = money_currency m\<rparr>)"

type_synonym quantity = int

definition NewQuantity :: "int \<Rightarrow> quantity result" where
  "NewQuantity value = (if value \<le> 0 then Inl (Domain ErrInvalidQuantity) else Inr value)"

definition quantity_is_valid :: "quantity \<Rightarrow> bool" where
  "quantity_is_valid q \<longleftrightarrow> q > 0"

record price =
  price_minor :: int
  price_currency :: currency

definition zero_price :: price where
  "zero_price = \<lparr>price_minor = 0, price_currency = []\<rparr>"

definition NewPrice :: "int \<Rightarrow> string \<Rightarrow> price result" where
  "NewPrice m currency =
     (if m < 0 then Inl (Domain ErrInvalidPrice)
      else bind_r (NewCurrency currency) (\<lambda>parsed. Inr \<lparr>price_minor = m, price_currency = parsed\<rparr>))"

definition price_is_zero_value :: "price \<Rightarrow> bool" where
  "price_is_zero_value p \<longleftrightarrow> price_currency p = []"

section \<open>Identifiers\<close>

definition validateID :: "string \<Rightarrow> string result" where
  "validateID value =
     (let value = trim_space value in
      if value = [] then Inl (Domain ErrInvalidID) else Inr value)"

definition NewUnderlyingID :: "string \<Rightarrow> string result" where
  "NewUnderlyingID value =
     (let value = to_upper (trim_space value) in
      if value = [] then Inl (Domain ErrInvalidID) else Inr value)"

definition InstrumentIDFromCanonicalKey :: "(string \<Rightarrow> digest) \<Rightarrow> string \<Rightarrow> digest result" where
  "InstrumentIDFromCanonicalKey sha key =
     (let key = trim_space key in
      if key = [] then Inl (Domain ErrInvalidInstrumentID) else Inr (sha key))"

definition hex_value :: "char \<Rightarrow> nat option" where
  "hex_value c =
     (if CHR ''0'' \<le> c \<and> c \<le> CHR ''9'' then Some (of_char c - 48)
      else if CHR ''a'' \<le> c \<and> c \<le> CHR ''f'' then Some (of_char c - 87)
      else if CHR ''A'' \<le> c \<and> c \<le> CHR ''F'' then Some (of_char c - 55)
      else None)"

text \<open>\<open>hex.DecodeString\<close> into a number; the byte count is half the number of digits.\<close>

fun hex_decode :: "nat \<Rightarrow> string \<Rightarrow> nat option" where
  "hex_decode acc [] = Some acc"
| "hex_decode acc (c # cs) =
     (case hex_value c of None \<Rightarrow> None | Some v \<Rightarrow> hex_decode (16 * acc + v) cs)"

definition ParseInstrumentID :: "string \<Rightarrow> digest result" where
  "ParseInstrumentID value =
     (let value = trim_space value in
      if odd (length value) \<or> length value \<noteq> 64 then Inl (Domain ErrInvalidInstrumentID)
      else case hex_decode 0 value of
             None \<Rightarrow> Inl (Domain ErrInvalidInstrumentID)
           | Some n \<Rightarrow> Inr (word_of_nat n))"

section \<open>Sides and order requests\<close>

text \<open>A Go \<open>Side\<close> is any string; \<open>OtherSide\<close> stands for the values that are neither constant.\<close>

datatype side = SideBuy | SideSell | OtherSide string

definition side_string :: "side \<Rightarrow> string" where
  "side_string s = (case s of SideBuy \<Rightarrow> ''BUY'' | SideSell \<Rightarrow> ''SELL'' | OtherSide x \<Rightarrow> x)"

definition valid_side :: "side \<Rightarrow> bool" where
  "valid_side s \<longleftrightarrow> s = SideBuy \<or> s = SideSell"

section \<open>Civil dates\<close>

record civil_date =
  cd_year :: int
  cd_month :: int
  cd_day :: int

definition zero_date :: civil_date where
  "zero_date = \<lparr>cd_year = 0, cd_month = 0, cd_day = 0\<rparr>"

text \<open>
  \<open>time.Date\<close> normalises an out-of-range month or day into another date, so the comparison with the
  arguments succeeds exactly for the dates of the calendar.
\<close>

definition NewCivilDate :: "int \<Rightarrow> int \<Rightarrow> int \<Rightarrow> civil_date result" where
  "NewCivilDate year month day =
     (if \<not> (1 \<le> month \<and> month \<le> 12 \<and> 1 \<le> day \<and> day \<le> days_in_month year month)
      then Inl (Domain ErrInvalidCivilDate)
      else Inr \<lparr>cd_year = year, cd_month = month, cd_day = day\<rparr>)"

definition date_is_zero :: "civil_date \<Rightarrow> bool" where
  "date_is_zero d \<longleftrightarrow> cd_year d = 0"

definition civil_date_string :: "civil_date \<Rightarrow> string" where
  "civil_date_string d =
     (if date_is_zero d then []
      else pad_int 4 (cd_year d) @ ''-'' @ pad_int 2 (cd_month d) @ ''-'' @ pad_int 2 (cd_day d))"

section \<open>Instruments\<close>

datatype segment = SegmentCash | SegmentIndex | SegmentFutures | SegmentOptions | OtherSegment string
datatype instrument_type =
  InstrumentEquity | InstrumentIndex | InstrumentFuture | InstrumentOption | OtherInstrument string
datatype option_type = OptionNone | OptionCall | OptionPut | OtherOption string

definition segment_string :: "segment \<Rightarrow> string" where
  "segment_string s = (case s of SegmentCash \<Rightarrow> ''CASH'' | SegmentIndex \<Rightarrow> ''INDEX''
     | SegmentFutures \<Rightarrow> ''FUTURES'' | SegmentOptions \<Rightarrow> ''OPTIONS'' | OtherSegment x \<Rightarrow> x)"

definition instrument_type_string :: "instrument_type \<Rightarrow> string" where
  "instrument_type_string t = (case t of InstrumentEquity \<Rightarrow> ''EQUITY'' | InstrumentIndex \<Rightarrow> ''INDEX''
     | InstrumentFuture \<Rightarrow> ''FUTURE'' | InstrumentOption \<Rightarrow> ''OPTION'' | OtherInstrument x \<Rightarrow> x)"

definition option_type_string :: "option_type \<Rightarrow> string" where
  "option_type_string t = (case t of OptionNone \<Rightarrow> ''NONE'' | OptionCall \<Rightarrow> ''CALL''
     | OptionPut \<Rightarrow> ''PUT'' | OtherOption x \<Rightarrow> x)"

record derivative_spec =
  ds_expiry :: civil_date
  ds_strike :: price
  ds_option_type :: option_type

record instrument_spec =
  is_exchange :: string
  is_segment :: segment
  is_underlying :: string
  is_type :: instrument_type
  is_symbol :: string
  is_derivative :: "derivative_spec option"
  is_lot_size :: quantity
  is_tick_size :: price
  is_currency :: currency

record instrument =
  ins_id :: digest
  ins_exchange :: string
  ins_segment :: segment
  ins_underlying :: string
  ins_type :: instrument_type
  ins_symbol :: string
  ins_expiry :: civil_date
  ins_strike :: price
  ins_option_type :: option_type
  ins_lot_size :: quantity
  ins_tick_size :: price
  ins_currency :: currency

text \<open>The type switch of \<open>NewInstrument\<close>: expiry, strike and option type of the instrument.\<close>

definition instrument_terms ::
  "instrument_spec \<Rightarrow> (civil_date \<times> price \<times> option_type) result" where
  "instrument_terms spec =
     (case is_type spec of
        InstrumentEquity \<Rightarrow>
          if is_segment spec \<noteq> SegmentCash \<or> is_derivative spec \<noteq> None
          then Inl (Domain ErrInvalidInstrument) else Inr (zero_date, zero_price, OptionNone)
      | InstrumentIndex \<Rightarrow>
          if is_segment spec \<noteq> SegmentIndex \<or> is_derivative spec \<noteq> None
          then Inl (Domain ErrInvalidInstrument) else Inr (zero_date, zero_price, OptionNone)
      | InstrumentFuture \<Rightarrow>
          (case is_derivative spec of
             None \<Rightarrow> Inl (Domain ErrInvalidInstrument)
           | Some d \<Rightarrow>
               if is_segment spec \<noteq> SegmentFutures \<or> date_is_zero (ds_expiry d) \<or>
                  ds_option_type d \<noteq> OptionNone \<or> \<not> price_is_zero_value (ds_strike d)
               then Inl (Domain ErrInvalidInstrument)
               else Inr (ds_expiry d, zero_price, OptionNone))
      | InstrumentOption \<Rightarrow>
          (case is_derivative spec of
             None \<Rightarrow> Inl (Domain ErrInvalidInstrument)
           | Some d \<Rightarrow>
               if is_segment spec \<noteq> SegmentOptions \<or> date_is_zero (ds_expiry d) \<or>
                  price_is_zero_value (ds_strike d) \<or> price_currency (ds_strike d) \<noteq> is_currency spec \<or>
                  price_minor (ds_strike d) \<le> 0 \<or>
                  (ds_option_type d \<noteq> OptionCall \<and> ds_option_type d \<noteq> OptionPut)
               then Inl (Domain ErrInvalidInstrument)
               else Inr (ds_expiry d, ds_strike d, ds_option_type d))
      | OtherInstrument _ \<Rightarrow> Inl (Domain ErrInvalidInstrument))"

definition instrument_key ::
  "instrument_spec \<Rightarrow> civil_date \<Rightarrow> price \<Rightarrow> option_type \<Rightarrow> string" where
  "instrument_key spec expiry strike opt =
     ''v1|'' @ is_exchange spec @ ''|'' @ segment_string (is_segment spec) @ ''|'' @
     is_underlying spec @ ''|'' @ instrument_type_string (is_type spec) @ ''|'' @ is_symbol spec @
     ''|'' @ civil_date_string expiry @ ''|'' @ dec_int (price_minor strike) @ ''|'' @
     option_type_string opt @ ''|'' @ dec_int (is_lot_size spec) @ ''|'' @
     dec_int (price_minor (is_tick_size spec)) @ ''|'' @ is_currency spec"

definition NewInstrument :: "(string \<Rightarrow> digest) \<Rightarrow> instrument_spec \<Rightarrow> instrument result" where
  "NewInstrument sha spec0 =
     (let spec = spec0\<lparr>is_symbol := to_upper (trim_space (is_symbol spec0))\<rparr> in
      if is_exchange spec \<noteq> ''NSE'' \<or> is_underlying spec = [] \<or> is_symbol spec = [] \<or>
         price_is_zero_value (is_tick_size spec) \<or> is_currency spec = [] \<or>
         price_currency (is_tick_size spec) \<noteq> is_currency spec
      then Inl (Domain ErrInvalidInstrument)
      else
        let observationOnlyIndex = (is_type spec = InstrumentIndex \<and> is_lot_size spec = 0 \<and>
              price_minor (is_tick_size spec) = 0) in
        if \<not> observationOnlyIndex \<and>
           (\<not> quantity_is_valid (is_lot_size spec) \<or> price_minor (is_tick_size spec) \<le> 0)
        then Inl (Domain ErrInvalidInstrument)
        else bind_r (instrument_terms spec) (\<lambda>(expiry, strike, opt).
          let key = instrument_key spec expiry strike opt;
              id = (case InstrumentIDFromCanonicalKey sha key of Inl _ \<Rightarrow> 0 | Inr d \<Rightarrow> d)
          in Inr \<lparr>ins_id = id, ins_exchange = is_exchange spec, ins_segment = is_segment spec,
                  ins_underlying = is_underlying spec, ins_type = is_type spec,
                  ins_symbol = is_symbol spec, ins_expiry = expiry, ins_strike = strike,
                  ins_option_type = opt, ins_lot_size = is_lot_size spec,
                  ins_tick_size = is_tick_size spec, ins_currency = is_currency spec\<rparr>))"

definition IsObservationOnlyIndex :: "instrument \<Rightarrow> bool" where
  "IsObservationOnlyIndex i \<longleftrightarrow> ins_type i = InstrumentIndex \<and> ins_segment i = SegmentIndex \<and>
     ins_lot_size i = 0 \<and> price_minor (ins_tick_size i) = 0"

record order_request =
  or_client_request :: string
  or_account :: string
  or_strategy :: string
  or_instrument :: instrument
  or_side :: side
  or_quantity :: quantity
  or_limit_price :: price

definition OrderRequest_Validate :: "order_request \<Rightarrow> unit result" where
  "OrderRequest_Validate r =
     (if or_client_request r = [] \<or> or_account r = [] \<or> or_strategy r = [] \<or>
         ins_id (or_instrument r) = 0 \<or> \<not> quantity_is_valid (or_quantity r) \<or>
         price_is_zero_value (or_limit_price r) \<or>
         (or_side r \<noteq> SideBuy \<and> or_side r \<noteq> SideSell)
      then Inl (Domain ErrInvalidOrderRequest) else Inr ())"

record provider_ref =
  pr_provider :: string
  pr_token :: string
  pr_symbol :: string
  pr_instrument :: digest
  pr_valid_from :: instant
  pr_valid_until :: instant
  pr_master_version :: string

definition ProviderRef_Validate :: "provider_ref \<Rightarrow> unit result" where
  "ProviderRef_Validate r =
     (if trim_space (pr_provider r) = [] \<or> trim_space (pr_token r) = [] \<or> pr_instrument r = 0 \<or>
         pr_valid_from r = 0 \<or> \<not> pr_valid_until r > pr_valid_from r \<or> trim_space (pr_symbol r) = []
      then Inl (Domain ErrInvalidInstrument) else Inr ())"

definition ValidAt :: "provider_ref \<Rightarrow> instant \<Rightarrow> bool" where
  "ValidAt r at \<longleftrightarrow> \<not> at < pr_valid_from r \<and> at < pr_valid_until r"

section \<open>What the constructors guarantee\<close>

lemma NewCurrency_Inr:
  "NewCurrency v = Inr c \<Longrightarrow> length c = 3 \<and> c \<noteq> [] \<and> list_all is_upper_ascii c"
  by (auto simp: NewCurrency_def Let_def)

lemma upper_ascii_fixed:
  assumes "is_upper_ascii c"
  shows "\<not> (CHR ''a'' \<le> c \<and> c \<le> CHR ''z'')" and "c \<noteq> CHR 0xC4" and "c \<noteq> CHR 0xC5"
    and "\<not> space_byte c"
  using assms
  by (auto simp: is_upper_ascii_def less_eq_char_def space_byte_def space_runes_def)

lemma to_upper_upper: "list_all is_upper_ascii s \<Longrightarrow> to_upper s = s"
  by (induction s rule: to_upper.induct) (auto dest: upper_ascii_fixed)

lemma NewCurrency_idem:
  assumes "NewCurrency v = Inr c"
  shows "NewCurrency c = Inr c"
proof -
  from assms have c: "length c = 3" "list_all is_upper_ascii c"
    by (auto dest: NewCurrency_Inr)
  then have "\<forall>x \<in> set c. \<not> space_byte x"
    by (auto simp: list_all_iff dest: upper_ascii_fixed(4))
  then have "trim_space c = c" by (rule trim_space_id)
  with c show ?thesis by (simp add: NewCurrency_def to_upper_upper)
qed

text \<open>A well-formed amount: int64 minor units and a currency accepted by \<open>NewCurrency\<close>.\<close>

definition money_wf :: "money \<Rightarrow> bool" where
  "money_wf m \<longleftrightarrow> in_i64 (minor m) \<and> NewCurrency (money_currency m) = Inr (money_currency m)"

lemma money_wf_currency [simp]: "money_wf m \<Longrightarrow> money_currency m \<noteq> []"
  by (auto simp: money_wf_def dest: NewCurrency_Inr)

lemma NewMoney_wf: "in_i64 m \<Longrightarrow> NewMoney m c = Inr v \<Longrightarrow> money_wf v \<and> minor v = m"
  by (auto simp: NewMoney_def money_wf_def dest: NewCurrency_idem)

lemma NewMoney_same [simp]:
  "money_wf v \<Longrightarrow> NewMoney m (money_currency v) = Inr \<lparr>minor = m, money_currency = money_currency v\<rparr>"
  by (simp add: NewMoney_def money_wf_def)

lemma Money_Add_iff:
  assumes "in_i64 (minor a)" "in_i64 (minor b)"
  shows "Money_Add a b =
     (if money_currency a = [] \<or> money_currency a \<noteq> money_currency b
      then Inl (Domain ErrCurrencyMismatch)
      else if in_i64 (minor a + minor b)
      then Inr \<lparr>minor = minor a + minor b, money_currency = money_currency a\<rparr>
      else Inl (Domain ErrMoneyOverflow))"
  using assms by (auto simp: Money_Add_def i64_defs)

lemma Money_Add_wf:
  "money_wf a \<Longrightarrow> money_wf b \<Longrightarrow> Money_Add a b = Inr c \<Longrightarrow>
     money_wf c \<and> money_currency c = money_currency a \<and> minor c = minor a + minor b"
  by (auto simp: Money_Add_iff money_wf_def split: if_splits)

text \<open>Adding to an amount of one currency, as an operation on minor units.\<close>

definition add_minor :: "currency \<Rightarrow> int \<Rightarrow> int \<Rightarrow> int result" where
  "add_minor cur a b =
     map_sum id minor
       (Money_Add \<lparr>minor = a, money_currency = cur\<rparr> \<lparr>minor = b, money_currency = cur\<rparr>)"

interpretation money_add: checked_op "add_minor ''INR''" "(+)" "\<lambda>_ _. True"
  by unfold_locales (auto simp: add_minor_def Money_Add_iff split: if_splits)

section \<open>Printing and parsing instrument identities\<close>

lemma hex_value_digit: "n < 16 \<Longrightarrow> hex_value (digit_char n) = Some n"
proof -
  have "list_all (\<lambda>n. hex_value (digit_char n) = Some n) [0..<16]" by code_simp
  then show "n < 16 \<Longrightarrow> ?thesis" by (simp add: list_all_iff)
qed

lemma hex_decode_hex_digits:
  "hex_decode acc (hex_digits k n) = Some (acc * 16 ^ k + n mod 16 ^ k)"
proof (induction k arbitrary: acc)
  case 0
  show ?case by (simp add: hex_digits_def)
next
  case (Suc k)
  have "n mod 16 ^ Suc k = 16 ^ k * (n div 16 ^ k mod 16) + n mod 16 ^ k"
    by (metis mod_mult2_eq power_Suc2)
  moreover have "hex_digits (Suc k) n = digit_char (n div 16 ^ k mod 16) # hex_digits k n"
    by (simp add: hex_digits_def)
  ultimately show ?case
    by (simp add: hex_value_digit Suc.IH algebra_simps)
qed

lemma digit_not_space: "n < 16 \<Longrightarrow> \<not> space_byte (digit_char n)"
proof -
  have "list_all (\<lambda>n. \<not> space_byte (digit_char n)) [0..<16]" by code_simp
  then show "n < 16 \<Longrightarrow> ?thesis" by (simp add: list_all_iff)
qed

lemma trim_digest_string [simp]: "trim_space (digest_string d) = digest_string d"
  by (rule trim_space_id) (auto simp: digest_string_def digit_not_space)

lemma ParseInstrumentID_print: "ParseInstrumentID (digest_string d) = Inr d"
proof -
  have "unat d mod 16 ^ 64 = unat d"
    using unsigned_less [where ?'a = nat, of d] by simp
  then have "hex_decode 0 (digest_string d) = Some (unat d)"
    by (simp add: digest_string_hex hex_decode_hex_digits)
  then show ?thesis by (simp add: ParseInstrumentID_def)
qed

end
