(* ===== verification/Arithmetic.thy ===== *)
theory Arithmetic
  imports Domain
begin

text \<open>
  \<open>internal/portfolio/model/arithmetic.go\<close>: basis points, contract ratios, checked money arithmetic
  and normalised rationals. The multiplication check of the code multiplies with wrap-around and
  divides back; the lemmas show that this detects exactly the overflows.
\<close>

definition NewBasisPoints :: "int \<Rightarrow> int result" where
  "NewBasisPoints value =
     (if value < 0 \<or> value > 10000 then Inl (Portfolio ErrInvalidRatio) else Inr value)"

definition NewContractRatio :: "nat \<Rightarrow> nat result" where
  "NewContractRatio value = (if value = 0 then Inl (Portfolio ErrInvalidRatio) else Inr value)"

definition CheckedMoneyAdd :: "money \<Rightarrow> money \<Rightarrow> money result" where
  "CheckedMoneyAdd left right = Money_Add left right"

definition CheckedMoneySubtract :: "money \<Rightarrow> money \<Rightarrow> money result" where
  "CheckedMoneySubtract left right =
     (if minor right = min_i64 then Inl (Portfolio ErrArithmeticOverflow)
      else bind_r (NewMoney (wrap64 (- minor right)) (money_currency right)) (\<lambda>negated.
        case Money_Add left negated of
          Inl e \<Rightarrow> (if e = Domain ErrMoneyOverflow then Inl (Portfolio ErrArithmeticOverflow) else Inl e)
        | Inr v \<Rightarrow> Inr v))"

definition checkedMultiply :: "int \<Rightarrow> int \<Rightarrow> int \<times> bool" where
  "checkedMultiply left right =
     (if left = 0 \<or> right = 0 then (0, True)
      else if left = -1 \<and> right = min_i64 \<or> right = -1 \<and> left = min_i64 then (0, False)
      else let value = wrap64 (left * right) in (value, wrap64 (quo value right) = left))"

definition CheckedMoneyMultiply :: "money \<Rightarrow> int \<Rightarrow> money result" where
  "CheckedMoneyMultiply value factor =
     (if money_is_zero_value value then Inl (Domain ErrInvalidCurrency)
      else let (product, ok) = checkedMultiply (minor value) factor in
        if \<not> ok then Inl (Portfolio ErrArithmeticOverflow)
        else NewMoney product (money_currency value))"

fun gcd_loop :: "nat \<Rightarrow> nat \<Rightarrow> nat" where
  "gcd_loop left right = (if right \<noteq> 0 then gcd_loop right (left mod right) else left)"

declare gcd_loop.simps [simp del]

definition gcd_u64 :: "nat \<Rightarrow> nat \<Rightarrow> nat" where
  "gcd_u64 left right = (let g = gcd_loop left right in if g = 0 then 1 else g)"

record rational =
  rat_numerator :: nat
  rat_denominator :: nat

definition NewRational :: "nat \<Rightarrow> nat \<Rightarrow> rational result" where
  "NewRational numerator denominator =
     (if denominator = 0 then Inl (Portfolio ErrInvalidRatio)
      else let divisor = gcd_u64 numerator denominator in
        Inr \<lparr>rat_numerator = numerator div divisor, rat_denominator = denominator div divisor\<rparr>)"

section \<open>The multiplication check\<close>

lemma quo_rem_abs:
  assumes b: "b \<noteq> 0"
  shows "\<exists>r. a = quo a b * b + r \<and> \<bar>r\<bar> < \<bar>b\<bar>"
proof -
  define q where "q = (\<bar>a\<bar> div \<bar>b\<bar>) * \<bar>b\<bar>"
  define m where "m = \<bar>a\<bar> mod \<bar>b\<bar>"
  have abs: "\<bar>a\<bar> = q + m" by (simp add: q_def m_def)
  have small: "0 \<le> m" "m < \<bar>b\<bar>" using b by (simp_all add: m_def)
  have "quo a b * b = (if a < 0 then - q else q)"
    using b by (auto simp: quo_def q_def abs_if)
  with abs have "a = quo a b * b + (if a < 0 then - m else m)" by (auto split: if_splits)
  moreover have "\<bar>if a < 0 then - m else m\<bar> < \<bar>b\<bar>" using small by simp
  ultimately show ?thesis by blast
qed

lemma quo_in_i64:
  assumes "in_i64 v" "in_i64 r" "r \<noteq> 0" "\<not> (v = min_i64 \<and> r = -1)"
  shows "in_i64 (quo v r)"
proof (cases "\<bar>r\<bar> = 1")
  case True
  then have "r = 1 \<or> r = -1" by arith
  with assms show ?thesis by (auto simp: quo_def i64_defs split: if_splits)
next
  case False
  with assms(3) have "2 \<le> \<bar>r\<bar>" by arith
  then have "\<bar>v\<bar> div \<bar>r\<bar> \<le> \<bar>v\<bar> div 2" by (intro zdiv_mono2) simp_all
  moreover have "\<bar>v\<bar> div 2 \<le> 4611686018427387904" using assms(1) by (auto simp: i64_defs)
  moreover have "0 \<le> \<bar>v\<bar> div \<bar>r\<bar>" by (simp add: pos_imp_zdiv_nonneg_iff assms(3))
  ultimately show ?thesis by (auto simp: quo_def i64_defs)
qed

lemma checkedMultiply_correct:
  assumes l: "in_i64 l" and r: "in_i64 r"
  shows "checkedMultiply l r = (v, True) \<longleftrightarrow> in_i64 (l * r) \<and> v = l * r"
proof (cases "l = 0 \<or> r = 0 \<or> (l = -1 \<and> r = min_i64) \<or> (r = -1 \<and> l = min_i64)")
  case True
  then show ?thesis by (auto simp: checkedMultiply_def i64_defs)
next
  case False
  then have nz: "l \<noteq> 0" "r \<noteq> 0" by auto
  let ?v = "wrap64 (l * r)"
  obtain k where k: "l * r = ?v + k * 18446744073709551616" using wrap64_cong by blast
  have special: "\<not> (?v = min_i64 \<and> r = -1)"
  proof
    assume a: "?v = min_i64 \<and> r = -1"
    with l have "in_i64 (l * r) \<or> l = min_i64" by (auto simp: i64_defs)
    with a False have "l * r = min_i64" by auto
    with a l show False by (auto simp: i64_defs)
  qed
  then have q: "wrap64 (quo ?v r) = quo ?v r"
    using r nz by (simp add: quo_in_i64)
  have "quo ?v r = l \<longleftrightarrow> in_i64 (l * r)"
  proof
    assume "quo ?v r = l"
    moreover obtain e where e: "?v = quo ?v r * r + e" "\<bar>e\<bar> < \<bar>r\<bar>"
      using quo_rem_abs nz(2) by blast
    ultimately have "e = - (k * 18446744073709551616)" using k by simp
    with e(2) r have "\<bar>k\<bar> * 18446744073709551616 < 18446744073709551616"
      by (auto simp: i64_defs abs_mult)
    then have "k = 0" by auto
    with k show "in_i64 (l * r)" by (metis add.right_neutral in_i64_wrap64 mult_zero_left)
  next
    assume "in_i64 (l * r)"
    with nz show "quo ?v r = l" by (simp add: quo_exact)
  qed
  with False q show ?thesis by (auto simp: checkedMultiply_def Let_def)
qed

definition multiply_result :: "int \<Rightarrow> int \<Rightarrow> int result" where
  "multiply_result l r =
     (case checkedMultiply l r of (v, ok) \<Rightarrow>
        if ok then Inr v else Inl (Portfolio ErrArithmeticOverflow))"

interpretation portfolio_mult: checked_op multiply_result "(*)" "\<lambda>_ _. True"
proof unfold_locales
  fix a b c
  assume ab: "in_i64 a" "in_i64 b"
  show "multiply_result a b = Inr c \<Longrightarrow> c = a * b \<and> in_i64 c"
    using checkedMultiply_correct [OF ab] by (auto simp: multiply_result_def split: prod.splits if_splits)
  show "in_i64 (a * b) \<Longrightarrow> multiply_result a b = Inr (a * b)"
    using checkedMultiply_correct [OF ab, of "a * b"] by (simp add: multiply_result_def)
qed

lemma CheckedMoneyMultiply_iff:
  assumes "money_wf m" "in_i64 f"
  shows "CheckedMoneyMultiply m f =
     (if in_i64 (minor m * f) then Inr \<lparr>minor = minor m * f, money_currency = money_currency m\<rparr>
      else Inl (Portfolio ErrArithmeticOverflow))"
proof -
  from assms have i: "in_i64 (minor m)" by (simp add: money_wf_def)
  obtain v ok where v: "checkedMultiply (minor m) f = (v, ok)" by fastforce
  show ?thesis
  proof (cases ok)
    case True
    with v checkedMultiply_correct [OF i assms(2), of v] have "in_i64 (minor m * f)" "v = minor m * f"
      by simp_all
    with True v assms show ?thesis
      by (simp add: CheckedMoneyMultiply_def money_is_zero_value_def)
  next
    case False
    with v checkedMultiply_correct [OF i assms(2), of "minor m * f"] have "\<not> in_i64 (minor m * f)"
      by auto
    with False v assms show ?thesis
      by (simp add: CheckedMoneyMultiply_def money_is_zero_value_def)
  qed
qed

lemma CheckedMoneySubtract_iff:
  assumes "money_wf a" "money_wf b" "minor b \<noteq> min_i64"
  shows "CheckedMoneySubtract a b =
     (if money_currency a \<noteq> money_currency b then Inl (Domain ErrCurrencyMismatch)
      else if in_i64 (minor a - minor b)
      then Inr \<lparr>minor = minor a - minor b, money_currency = money_currency a\<rparr>
      else Inl (Portfolio ErrArithmeticOverflow))"
proof -
  have "in_i64 (- minor b)" using assms(2,3) by (auto simp: money_wf_def i64_defs)
  with assms show ?thesis
    by (auto simp: CheckedMoneySubtract_def Money_Add_iff money_wf_def NewMoney_def)
qed

section \<open>Rationals in lowest terms\<close>

lemma gcd_loop_gcd: "gcd_loop a b = gcd a b"
proof (induction a b rule: gcd_loop.induct)
  case (1 a b)
  show ?case
  proof (cases "b = 0")
    case True
    then show ?thesis by (simp add: gcd_loop.simps [of a 0])
  next
    case False
    with 1 have "gcd_loop b (a mod b) = gcd b (a mod b)" by simp
    with False show ?thesis by (simp add: gcd_loop.simps [of a b] gcd_red_nat [of a b])
  qed
qed

lemma gcd_u64_gcd: "b \<noteq> 0 \<Longrightarrow> gcd_u64 a b = gcd a b"
  by (simp add: gcd_u64_def gcd_loop_gcd)

lemma NewRational_lowest:
  assumes "NewRational n d = Inr q"
  shows "coprime (rat_numerator q) (rat_denominator q) \<and> 0 < rat_denominator q \<and>
     rat_numerator q * d = n * rat_denominator q"
proof -
  from assms have d: "d \<noteq> 0"
    and q: "q = \<lparr>rat_numerator = n div gcd n d, rat_denominator = d div gcd n d\<rparr>"
    by (auto simp: NewRational_def gcd_u64_gcd Let_def split: if_splits)
  have "n div gcd n d * d = n * (d div gcd n d)"
    by (metis div_mult_swap dvd_div_mult gcd_dvd1 gcd_dvd2)
  with d q show ?thesis
    by (auto simp: div_gcd_coprime dvd_imp_le div_greater_zero_iff)
qed

end
