(* ===== verification/Intent.thy ===== *)
theory Intent
  imports Arithmetic
begin

text \<open>
  \<open>internal/execution/model/intent.go\<close>: turning an approved portfolio-risk decision into an execution
  intent, with the leg bounds of \<open>internal/portfolio/model/allocation.go\<close> that carry the authority.
  The lemmas bound what an intent may ask for by what the decision approved.
\<close>

section \<open>Approved authority\<close>

datatype quantity_resolution =
  QuantityResolved | QuantityUnavailable | QuantityNotApplicable | OtherResolution string

record allocation_leg_bound =
  lb_instrument :: digest
  lb_side :: side
  lb_ratio :: nat
  lb_resolution :: quantity_resolution
  lb_maximum_units :: quantity
  lb_lot_size :: quantity

definition AllocationLegBound_Validate :: "allocation_leg_bound \<Rightarrow> unit result" where
  "AllocationLegBound_Validate value =
     (if lb_instrument value = 0 \<or> (lb_side value \<noteq> SideBuy \<and> lb_side value \<noteq> SideSell) \<or>
         lb_ratio value = 0
      then Inl (Portfolio ErrInvalidAllocationCandidate)
      else case lb_resolution value of
        QuantityResolved \<Rightarrow>
          if \<not> quantity_is_valid (lb_maximum_units value) \<or> \<not> quantity_is_valid (lb_lot_size value) \<or>
             rem64 (lb_maximum_units value) (lb_lot_size value) \<noteq> 0
          then Inl (Portfolio ErrInvalidAllocationCandidate) else Inr ()
      | QuantityUnavailable \<Rightarrow>
          if quantity_is_valid (lb_maximum_units value) \<or> quantity_is_valid (lb_lot_size value)
          then Inl (Portfolio ErrInvalidAllocationCandidate) else Inr ()
      | QuantityNotApplicable \<Rightarrow>
          if quantity_is_valid (lb_maximum_units value) \<or> quantity_is_valid (lb_lot_size value)
          then Inl (Portfolio ErrInvalidAllocationCandidate) else Inr ()
      | OtherResolution _ \<Rightarrow> Inl (Portfolio ErrInvalidAllocationCandidate))"

record allocation_constraint =
  ac_code :: string
  ac_before :: money
  ac_after :: money
  ac_explanation :: string

record approved_allocation_bounds =
  ab_candidate :: digest
  ab_maximum_capital :: money
  ab_leg_bounds :: "allocation_leg_bound list"
  ab_constraints :: "allocation_constraint list"
  ab_valid_until :: instant

datatype decision_outcome =
  DecisionApproved | DecisionRejected | DecisionModified | DecisionDeferred | OtherDecision string

text \<open>
  What execution reads of a \<open>riskmodel.PortfolioRiskDecision\<close> through its accessors: identity,
  checksum, and of its spec the outcome, the expected portfolio revision, the validity window and the
  approved bounds.
\<close>

record risk_decision =
  rd_id :: digest
  rd_checksum :: digest
  rd_portfolio :: digest
  rd_outcome :: decision_outcome
  rd_expected_revision :: nat
  rd_approved :: "approved_allocation_bounds option"
  rd_generated_at :: instant
  rd_expires_at :: instant

section \<open>Execution intents\<close>

record intent_leg =
  il_instrument :: digest
  il_side :: side
  il_ratio :: nat
  il_quantity :: quantity
  il_lot_size :: quantity
  il_reducing :: bool

record execution_intent_spec =
  eis_schema :: string
  eis_decision :: risk_decision
  eis_maximum_capital :: money
  eis_legs :: "intent_leg list"
  eis_portfolio_revision :: nat
  eis_created_at :: instant
  eis_expires_at :: instant

record execution_intent =
  ei_id :: digest
  ei_spec :: execution_intent_spec
  ei_raw :: string

text \<open>\<open>approvedByInstrument\<close>: a later bound for the same instrument replaces an earlier one.\<close>

definition bounds_by_instrument :: "allocation_leg_bound list \<Rightarrow> digest \<rightharpoonup> allocation_leg_bound" where
  "bounds_by_instrument bounds = map_of (rev (map (\<lambda>b. (lb_instrument b, b)) bounds))"

text \<open>The leg loop; \<open>seen\<close> is the set of instruments so far. A zero lot size panics in the modulo.\<close>

fun check_intent_legs ::
  "(digest \<rightharpoonup> allocation_leg_bound) \<Rightarrow> digest set \<Rightarrow> intent_leg list \<Rightarrow> unit result" where
  "check_intent_legs approved seen [] = Inr ()"
| "check_intent_legs approved seen (leg # legs) =
     (case approved (il_instrument leg) of
        None \<Rightarrow> Inl (Execution ErrAuthorityEscalation)
      | Some bound \<Rightarrow>
          if il_side leg \<noteq> lb_side bound \<or> il_ratio leg \<noteq> lb_ratio bound \<or>
             \<not> quantity_is_valid (il_quantity leg) \<or> il_quantity leg > lb_maximum_units bound \<or>
             il_lot_size leg \<noteq> lb_lot_size bound
          then Inl (Execution ErrAuthorityEscalation)
          else if il_lot_size leg = 0 then Inl Panic
          else if rem64 (il_quantity leg) (il_lot_size leg) \<noteq> 0 \<or>
                  (il_reducing leg \<and> il_side leg \<noteq> SideSell)
          then Inl (Execution ErrAuthorityEscalation)
          else if il_instrument leg \<in> seen then Inl (Execution ErrInvalidExecutionIntent)
          else check_intent_legs approved (insert (il_instrument leg) seen) legs)"

definition canonicalIntent :: "execution_intent_spec \<Rightarrow> string" where
  "canonicalIntent spec = marshal (JObj
     [(''SchemaVersion'', JStr (eis_schema spec)),
      (''DecisionID'', JStr (digest_string (rd_id (eis_decision spec)))),
      (''DecisionChecksum'', JStr (digest_string (rd_checksum (eis_decision spec)))),
      (''CapitalMinor'', JInt (minor (eis_maximum_capital spec))),
      (''PortfolioRevision'', JInt (int (eis_portfolio_revision spec))),
      (''Currency'', JStr (money_currency (eis_maximum_capital spec))),
      (''Legs'', JArr (map (\<lambda>leg. JObj
         [(''instrument_id'', JStr (digest_string (il_instrument leg))),
          (''side'', JStr (side_string (il_side leg))),
          (''ratio'', JInt (int (il_ratio leg))),
          (''quantity'', JInt (il_quantity leg)),
          (''lot_size'', JInt (il_lot_size leg)),
          (''reducing_exposure'', JBool (il_reducing leg))]) (eis_legs spec))),
      (''CreatedAt'', JStr (rfc3339_nano (eis_created_at spec))),
      (''ExpiresAt'', JStr (rfc3339_nano (eis_expires_at spec)))])"

definition NewExecutionIntent ::
  "(string \<Rightarrow> digest) \<Rightarrow> execution_intent_spec \<Rightarrow> execution_intent result" where
  "NewExecutionIntent sha spec0 =
     (let spec = spec0\<lparr>eis_schema := trim_space (eis_schema spec0)\<rparr>;
          decision = eis_decision spec;
          created = eis_created_at spec; expires = eis_expires_at spec in
      if eis_schema spec = [] \<or> rd_id decision = 0 \<or> eis_portfolio_revision spec = 0 \<or>
         created = 0 \<or> expires = 0 \<or> \<not> expires > created
      then Inl (Execution ErrInvalidExecutionIntent)
      else if rd_outcome decision \<noteq> DecisionApproved \<and> rd_outcome decision \<noteq> DecisionModified
      then Inl (Execution ErrDecisionNotExecutable)
      else if rd_expected_revision decision = max_u64 \<or>
              eis_portfolio_revision spec \<noteq> wrap_u64 (rd_expected_revision decision + 1)
      then Inl (Execution ErrDecisionStale)
      else case rd_approved decision of
        None \<Rightarrow> Inl (Execution ErrDecisionNotExecutable)
      | Some approved \<Rightarrow>
          if created < rd_generated_at decision \<or> \<not> created < rd_expires_at decision \<or>
             expires > rd_expires_at decision \<or> expires > ab_valid_until approved
          then Inl (Execution ErrDecisionExpired)
          else if money_is_zero_value (eis_maximum_capital spec) \<or> minor (eis_maximum_capital spec) < 0 \<or>
                  money_currency (eis_maximum_capital spec) \<noteq> money_currency (ab_maximum_capital approved) \<or>
                  minor (eis_maximum_capital spec) > minor (ab_maximum_capital approved) \<or>
                  eis_legs spec = [] \<or> length (eis_legs spec) > length (ab_leg_bounds approved)
          then Inl (Execution ErrAuthorityEscalation)
          else bind_r (check_intent_legs (bounds_by_instrument (ab_leg_bounds approved)) {} (eis_legs spec))
            (\<lambda>_. let spec = spec\<lparr>eis_legs := sort_key il_instrument (eis_legs spec)\<rparr>;
                      raw = canonicalIntent spec;
                      id = derive sha ''execution-intent-id/v1'' [digest_string (rd_id decision), raw]
                  in Inr \<lparr>ei_id = id, ei_spec = spec, ei_raw = raw\<rparr>))"

section \<open>Authority is never exceeded\<close>

text \<open>A leg stays within one of the approved bounds.\<close>

definition leg_within :: "allocation_leg_bound \<Rightarrow> intent_leg \<Rightarrow> bool" where
  "leg_within bound leg \<longleftrightarrow>
     lb_instrument bound = il_instrument leg \<and> il_side leg = lb_side bound \<and> il_ratio leg = lb_ratio bound \<and>
     0 < il_quantity leg \<and> il_quantity leg \<le> lb_maximum_units bound \<and>
     il_lot_size leg = lb_lot_size bound \<and> il_lot_size leg dvd il_quantity leg \<and>
     (il_reducing leg \<longrightarrow> il_side leg = SideSell)"

lemma bounds_by_instrument_Some:
  "bounds_by_instrument bounds i = Some b \<Longrightarrow> b \<in> set bounds \<and> lb_instrument b = i"
  by (auto simp: bounds_by_instrument_def dest!: map_of_SomeD)

lemma rem64_dvd: "0 < q \<Longrightarrow> rem64 q l = 0 \<longleftrightarrow> l dvd q"
  by (simp add: rem64_def dvd_eq_mod_eq_0 [symmetric])

lemma check_intent_legs_Inr:
  assumes "check_intent_legs (bounds_by_instrument bounds) seen legs = Inr ()"
  shows "distinct (map il_instrument legs) \<and> set (map il_instrument legs) \<inter> seen = {} \<and>
     (\<forall>leg \<in> set legs. il_lot_size leg \<noteq> 0 \<and> (\<exists>bound \<in> set bounds. leg_within bound leg))"
  using assms
proof (induction legs arbitrary: seen)
  case Nil
  then show ?case by simp
next
  case (Cons leg legs)
  then obtain bound where b: "bounds_by_instrument bounds (il_instrument leg) = Some bound"
    and rest: "check_intent_legs (bounds_by_instrument bounds) (insert (il_instrument leg) seen) legs = Inr ()"
    and new: "il_instrument leg \<notin> seen"
    and ok: "il_side leg = lb_side bound" "il_ratio leg = lb_ratio bound" "0 < il_quantity leg"
      "il_quantity leg \<le> lb_maximum_units bound" "il_lot_size leg = lb_lot_size bound"
      "il_lot_size leg \<noteq> 0" "rem64 (il_quantity leg) (il_lot_size leg) = 0"
      "il_reducing leg \<longrightarrow> il_side leg = SideSell"
    by (auto simp: quantity_is_valid_def split: option.splits if_splits)
  from ok b have "leg_within bound leg \<and> bound \<in> set bounds"
    by (auto simp: leg_within_def rem64_dvd dest: bounds_by_instrument_Some)
  with ok(6) new Cons.IH [OF rest] show ?case by auto
qed

lemma check_intent_legs_no_panic:
  assumes "\<forall>b \<in> set bounds. AllocationLegBound_Validate b = Inr ()"
  shows "check_intent_legs (bounds_by_instrument bounds) seen legs \<noteq> Inl Panic"
proof (induction legs arbitrary: seen)
  case Nil
  then show ?case by simp
next
  case (Cons leg legs)
  show ?case
  proof (cases "bounds_by_instrument bounds (il_instrument leg)")
    case None
    then show ?thesis by simp
  next
    case (Some b)
    with assms have "AllocationLegBound_Validate b = Inr ()"
      by (auto dest: bounds_by_instrument_Some)
    then have "lb_lot_size b \<noteq> 0 \<or> lb_maximum_units b \<le> 0"
      by (auto simp: AllocationLegBound_Validate_def quantity_is_valid_def split: quantity_resolution.splits if_splits)
    with Some Cons show ?thesis by (auto simp: quantity_is_valid_def)
  qed
qed

lemma NewExecutionIntent_no_panic:
  assumes "\<And>a b. rd_approved (eis_decision spec) = Some a \<Longrightarrow> b \<in> set (ab_leg_bounds a) \<Longrightarrow>
     AllocationLegBound_Validate b = Inr ()"
  shows "NewExecutionIntent sha spec \<noteq> Inl Panic"
proof -
  have "\<And>a. rd_approved (eis_decision spec) = Some a \<Longrightarrow>
      check_intent_legs (bounds_by_instrument (ab_leg_bounds a)) {} (eis_legs spec) \<noteq> Inl Panic"
    using assms by (intro check_intent_legs_no_panic) auto
  then show ?thesis
    by (auto simp: NewExecutionIntent_def Let_def bind_r_def split: option.splits sum.splits)
qed

lemma NewExecutionIntent_Inr:
  assumes "NewExecutionIntent sha spec = Inr intent"
  obtains approved where "rd_approved (eis_decision spec) = Some approved"
    and "rd_outcome (eis_decision spec) = DecisionApproved \<or> rd_outcome (eis_decision spec) = DecisionModified"
    and "rd_generated_at (eis_decision spec) \<le> eis_created_at spec"
    and "eis_created_at spec < eis_expires_at spec"
    and "eis_expires_at spec \<le> rd_expires_at (eis_decision spec)"
    and "eis_expires_at spec \<le> ab_valid_until approved"
    and "0 \<le> minor (eis_maximum_capital spec)"
    and "minor (eis_maximum_capital spec) \<le> minor (ab_maximum_capital approved)"
    and "money_currency (eis_maximum_capital spec) = money_currency (ab_maximum_capital approved)"
    and "eis_portfolio_revision spec = wrap_u64 (rd_expected_revision (eis_decision spec) + 1)"
    and "rd_expected_revision (eis_decision spec) \<noteq> max_u64"
    and "check_intent_legs (bounds_by_instrument (ab_leg_bounds approved)) {} (eis_legs spec) = Inr ()"
    and "ei_spec intent = spec\<lparr>eis_schema := trim_space (eis_schema spec),
            eis_legs := sort_key il_instrument (eis_legs spec)\<rparr>"
    and "eis_legs spec \<noteq> []" "length (eis_legs spec) \<le> length (ab_leg_bounds approved)"
    and "ei_id intent = derive sha ''execution-intent-id/v1''
           [digest_string (rd_id (eis_decision spec)), canonicalIntent (ei_spec intent)]"
  using assms
  by (auto simp: NewExecutionIntent_def Let_def money_is_zero_value_def
      split: option.splits if_splits)

end
