(* ===== verification/Plan.thy ===== *)
theory Plan
  imports Intent
begin

text \<open>
  \<open>internal/execution/model/plan.go\<close>: order plans. The depth-first search of \<open>hasCycle\<close> is modelled
  with the two maps the code threads through it (\<open>visiting\<close>, \<open>visited\<close>); it is proved to terminate
  and to return true exactly when the dependency graph has a cycle, whatever order Go's map iteration
  picks. \<open>NewOrderPlan\<close> then yields an acyclic plan within the intent's authority in which every
  exposure-increasing SELL leg depends on every protective leg.
\<close>

record order_leg_draft =
  ld_instrument :: digest
  ld_side :: side
  ld_quantity :: quantity
  ld_limit_price :: price
  ld_protective :: bool
  ld_depends_on :: "digest list"
  ld_reducing :: bool

record order_leg =
  ol_id :: digest
  ol_instrument :: digest
  ol_side :: side
  ol_quantity :: quantity
  ol_limit_price :: price
  ol_protective :: bool
  ol_depends_on :: "digest list"
  ol_reducing :: bool

record order_plan_spec =
  ops_schema :: string
  ops_intent :: execution_intent
  ops_legs :: "order_leg_draft list"
  ops_created_at :: instant
  ops_expires_at :: instant

record order_plan =
  op_id :: digest
  op_spec :: order_plan_spec
  op_legs :: "order_leg list"
  op_raw :: string

section \<open>Cycle detection\<close>

text \<open>\<open>edges\<close> of \<open>hasCycle\<close>: a later leg with the same identity replaces an earlier one.\<close>

type_synonym edge_map = "(digest \<times> digest list) list"

definition edges_of :: "order_leg list \<Rightarrow> edge_map" where
  "edges_of legs = rev (map (\<lambda>leg. (ol_id leg, ol_depends_on leg)) legs)"

definition successors :: "edge_map \<Rightarrow> digest \<Rightarrow> digest list" where
  "successors edges node = (case map_of edges node of None \<Rightarrow> [] | Some ds \<Rightarrow> ds)"

text \<open>
  \<open>visit\<close> applied to the nodes of a list in turn, stopping at the first that finds a cycle: both the
  loop over the dependencies of a node inside \<open>visit\<close> and the final loop over the keys of \<open>edges\<close>.
  The result is the flag and the two maps.
\<close>

function visit_all ::
  "edge_map \<Rightarrow> digest list \<Rightarrow> digest set \<Rightarrow> digest set \<Rightarrow> bool \<times> digest set \<times> digest set" where
  "visit_all edges [] visiting visited = (False, visiting, visited)"
| "visit_all edges (node # nodes) visiting visited =
     (if node \<in> visiting then (True, visiting, visited)
      else if node \<in> visited then visit_all edges nodes visiting visited
      else case visit_all edges (successors edges node) (insert node visiting) visited of
             (found, visiting', visited') \<Rightarrow>
               if found then (True, visiting', visited')
               else visit_all edges nodes (visiting' - {node}) (insert node visited'))"
  by pat_completeness auto

lemma visit_all_visiting_dom:
  "visit_all_dom (edges, nodes, vg, vd) \<Longrightarrow> visit_all edges nodes vg vd = (False, vg', vd') \<Longrightarrow> vg' = vg"
proof (induction edges nodes vg vd arbitrary: vg' vd' rule: visit_all.pinduct)
  case (1 edges vg vd)
  then show ?case by (simp add: visit_all.psimps)
next
  case (2 edges node nodes vg vd)
  then show ?case
    by (auto simp: visit_all.psimps split: if_splits prod.splits)
qed

termination visit_all
proof (relation "measures [\<lambda>(edges, nodes, vg, vd). card (fst ` set edges - vg), \<lambda>(edges, nodes, vg, vd). length nodes]",
    goal_cases)
  case 1
  show ?case by simp
next
  case (2 edges node nodes vg vd)
  then show ?case by simp
next
  case (3 edges node nodes vg vd)
  show ?case
  proof (cases "node \<in> fst ` set edges")
    case True
    with 3 have "card (fst ` set edges - insert node vg) < card (fst ` set edges - vg)"
      by (intro psubset_card_mono) auto
    then show ?thesis by simp
  next
    case False
    then have "map_of edges node = None" by (simp add: map_of_eq_None_iff)
    with False show ?thesis by (simp add: successors_def)
  qed
next
  case (4 edges node nodes vg vd x found vg' vd')
  then have "vg' = insert node vg" by (metis (full_types) visit_all_visiting_dom)
  with 4 show ?case by simp
qed

declare visit_all.simps(2) [simp del]

lemma visit_all_visiting: "visit_all edges nodes vg vd = (False, vg', vd') \<Longrightarrow> vg' = vg"
proof (induction edges nodes vg vd arbitrary: vg' vd' rule: visit_all.induct)
  case (2 edges node nodes vg vd)
  then show ?case
    by (auto simp: visit_all.simps(2) split: if_splits prod.splits)
qed simp

text \<open>The dependency relation of the graph.\<close>

definition dep_rel :: "edge_map \<Rightarrow> (digest \<times> digest) set" where
  "dep_rel edges = {(x, y). y \<in> set (successors edges x)}"

lemma dep_rel_iff: "(x, y) \<in> dep_rel edges \<longleftrightarrow> (\<exists>ds. map_of edges x = Some ds \<and> y \<in> set ds)"
  by (cases "map_of edges x") (auto simp: dep_rel_def successors_def)

text \<open>
  \<open>for id := range edges\<close> visits the keys in some order \<open>keys\<close> of Go's choosing; \<open>hasCycle\<close> takes the
  order of the legs.
\<close>

definition hasCycle_in_order :: "digest list \<Rightarrow> edge_map \<Rightarrow> bool" where
  "hasCycle_in_order keys edges = fst (visit_all edges keys {} {})"

definition hasCycle :: "order_leg list \<Rightarrow> bool" where
  "hasCycle legs = hasCycle_in_order (map ol_id legs) (edges_of legs)"

subsection \<open>Correctness of the search\<close>

text \<open>Soundness: every node being visited reaches the nodes still to visit.\<close>

lemma visit_all_sound:
  "visit_all edges nodes vg vd = (True, vg', vd') \<Longrightarrow>
   \<forall>a \<in> vg. \<forall>x \<in> set nodes. (a, x) \<in> (dep_rel edges)\<^sup>+ \<Longrightarrow> \<exists>x. (x, x) \<in> (dep_rel edges)\<^sup>+"
proof (induction edges nodes vg vd arbitrary: vg' vd' rule: visit_all.induct)
  case (1 edges vg vd)
  then show ?case by simp
next
  case (2 edges node nodes vg vd)
  consider (hit) "node \<in> vg" | (seen) "node \<notin> vg" "node \<in> vd" | (fresh) "node \<notin> vg" "node \<notin> vd" by blast
  then show ?case
  proof cases
    case hit
    with "2.prems"(2) show ?thesis by auto
  next
    case seen
    with "2.prems"(1) have "visit_all edges nodes vg vd = (True, vg', vd')"
      by (simp add: visit_all.simps(2))
    from "2.IH"(1) [OF seen this] "2.prems"(2) show ?thesis by simp
  next
    case fresh
    obtain found vg1 vd1 where
      sub: "visit_all edges (successors edges node) (insert node vg) vd = (found, vg1, vd1)"
      by (metis prod_cases3)
    have reach: "\<forall>a \<in> insert node vg. \<forall>x \<in> set (successors edges node). (a, x) \<in> (dep_rel edges)\<^sup>+"
      using "2.prems"(2) by (auto simp: dep_rel_def intro: trancl_into_trancl)
    show ?thesis
    proof (cases found)
      case True
      with sub have "visit_all edges (successors edges node) (insert node vg) vd = (True, vg1, vd1)"
        by simp
      from "2.IH"(2) [OF fresh this reach] show ?thesis .
    next
      case False
      with sub have "vg1 - {node} = vg" using fresh by (auto dest: visit_all_visiting)
      moreover from False sub fresh "2.prems"(1)
      have "visit_all edges nodes (vg1 - {node}) (insert node vd1) = (True, vg', vd')"
        by (simp add: visit_all.simps(2))
      ultimately show ?thesis
        using "2.IH"(3) [OF fresh sub [symmetric] refl] False "2.prems"(2) by auto
    qed
  qed
qed

text \<open>Completeness: the visited nodes are closed under dependencies and free of cycles.\<close>

definition cycle_free :: "edge_map \<Rightarrow> digest set \<Rightarrow> bool" where
  "cycle_free edges vd \<longleftrightarrow> dep_rel edges `` vd \<subseteq> vd \<and> (\<forall>x \<in> vd. (x, x) \<notin> (dep_rel edges)\<^sup>+)"

lemma closed_trancl: "r `` A \<subseteq> A \<Longrightarrow> x \<in> A \<Longrightarrow> (x, y) \<in> r\<^sup>+ \<Longrightarrow> y \<in> A"
  by (rotate_tac 2, induction rule: trancl_induct) blast+

lemma cycle_free_insert:
  assumes "cycle_free edges vd" "set (successors edges x) \<subseteq> vd" "x \<notin> vd"
  shows "cycle_free edges (insert x vd)"
proof -
  have "(x, x) \<notin> (dep_rel edges)\<^sup>+"
  proof
    assume "(x, x) \<in> (dep_rel edges)\<^sup>+"
    then obtain y where "(x, y) \<in> dep_rel edges" "y = x \<or> (y, x) \<in> (dep_rel edges)\<^sup>+"
      by (metis converse_tranclE)
    moreover from this assms(2) have "y \<in> vd" by (auto simp: dep_rel_def)
    ultimately show False
      using assms(1,3) closed_trancl by (metis cycle_free_def)
  qed
  with assms show ?thesis by (auto simp: cycle_free_def dep_rel_def)
qed

lemma visit_all_complete:
  "visit_all edges nodes vg vd = (False, vg', vd') \<Longrightarrow> cycle_free edges vd \<Longrightarrow> vg \<inter> vd = {} \<Longrightarrow>
   cycle_free edges vd' \<and> vd \<subseteq> vd' \<and> set nodes \<subseteq> vd' \<and> vg \<inter> vd' = {}"
proof (induction edges nodes vg vd arbitrary: vg' vd' rule: visit_all.induct)
  case (1 edges vg vd)
  then show ?case by simp
next
  case (2 edges node nodes vg vd)
  from "2.prems"(1) have nvg: "node \<notin> vg" by (auto simp: visit_all.simps(2) split: if_splits)
  show ?case
  proof (cases "node \<in> vd")
    case True
    with nvg "2.prems"(1) have "visit_all edges nodes vg vd = (False, vg', vd')"
      by (simp add: visit_all.simps(2))
    from "2.IH"(1) [OF nvg True this "2.prems"(2,3)] True show ?thesis by auto
  next
    case False
    with nvg "2.prems"(1) obtain vg1 vd1 where
      sub: "visit_all edges (successors edges node) (insert node vg) vd = (False, vg1, vd1)"
      and rest: "visit_all edges nodes (vg1 - {node}) (insert node vd1) = (False, vg', vd')"
      by (auto simp: visit_all.simps(2) split: prod.splits if_splits)
    have one: "cycle_free edges vd1 \<and> vd \<subseteq> vd1 \<and> set (successors edges node) \<subseteq> vd1 \<and> insert node vg \<inter> vd1 = {}"
      using "2.IH"(2) [OF nvg False sub "2.prems"(2)] "2.prems"(3) False by auto
    then have cf: "cycle_free edges (insert node vd1)" by (intro cycle_free_insert) auto
    have "vg1 - {node} = vg" using sub nvg by (auto dest: visit_all_visiting)
    with "2.IH"(3) [OF nvg False sub [symmetric] refl _ rest cf] one nvg show ?thesis by auto
  qed
qed

theorem hasCycle_in_order_iff:
  assumes "set keys = fst ` set edges"
  shows "hasCycle_in_order keys edges \<longleftrightarrow> (\<exists>x. (x, x) \<in> (dep_rel edges)\<^sup>+)"
proof -
  obtain found vg vd where run: "visit_all edges keys {} {} = (found, vg, vd)"
    by (metis prod_cases3)
  show ?thesis
  proof (cases found)
    case True
    with run visit_all_sound [of edges keys "{}" "{}" vg vd] show ?thesis
      by (simp add: hasCycle_in_order_def)
  next
    case False
    with run visit_all_complete [of edges keys "{}" "{}" vg vd]
    have vd: "cycle_free edges vd" "set keys \<subseteq> vd" by (auto simp: cycle_free_def)
    have "x \<in> set keys" if "(x, x) \<in> (dep_rel edges)\<^sup>+" for x
    proof -
      from that obtain y where "(x, y) \<in> dep_rel edges" by (metis tranclD)
      then have "map_of edges x \<noteq> None" by (auto simp: dep_rel_iff)
      then show ?thesis by (simp add: assms map_of_eq_None_iff)
    qed
    with vd have "\<not> (\<exists>x. (x, x) \<in> (dep_rel edges)\<^sup>+)" unfolding cycle_free_def by blast
    with False run show ?thesis by (simp add: hasCycle_in_order_def)
  qed
qed

lemma hasCycle_iff: "hasCycle legs \<longleftrightarrow> (\<exists>x. (x, x) \<in> (dep_rel (edges_of legs))\<^sup>+)"
  unfolding hasCycle_def by (rule hasCycle_in_order_iff) (auto simp: edges_of_def image_iff)

section \<open>Building a plan\<close>

definition authority_of :: "intent_leg list \<Rightarrow> digest \<rightharpoonup> intent_leg" where
  "authority_of legs = map_of (rev (map (\<lambda>l. (il_instrument l, l)) legs))"

definition leg_id :: "(string \<Rightarrow> digest) \<Rightarrow> execution_intent \<Rightarrow> order_leg_draft \<Rightarrow> digest" where
  "leg_id sha intent draft =
     derive sha ''order-leg-id/v1''
       [digest_string (ei_id intent), digest_string (ld_instrument draft), side_string (ld_side draft)]"

text \<open>
  The first loop: each draft is checked against the intent leg of its instrument, its identity is
  recorded in \<open>legIDs\<close> and, if protective, in \<open>protective\<close>. \<open>prev\<close> is the instrument of the previous
  draft.
\<close>

fun check_drafts ::
  "(string \<Rightarrow> digest) \<Rightarrow> execution_intent \<Rightarrow> digest option \<Rightarrow> (digest \<rightharpoonup> digest) \<Rightarrow> digest list \<Rightarrow>
   order_leg_draft list \<Rightarrow> ((digest \<rightharpoonup> digest) \<times> digest list) result" where
  "check_drafts sha intent prev legIDs protective [] = Inr (legIDs, protective)"
| "check_drafts sha intent prev legIDs protective (draft # drafts) =
     (case authority_of (eis_legs (ei_spec intent)) (ld_instrument draft) of
        None \<Rightarrow> Inl (Execution ErrInvalidOrderPlan)
      | Some approved \<Rightarrow>
          if ld_side draft \<noteq> il_side approved \<or> ld_quantity draft \<noteq> il_quantity approved \<or>
             price_is_zero_value (ld_limit_price draft) \<or>
             price_currency (ld_limit_price draft) \<noteq> money_currency (eis_maximum_capital (ei_spec intent)) \<or>
             prev = Some (ld_instrument draft) \<or>
             (ld_protective draft \<and> ld_side draft \<noteq> SideBuy)
          then Inl (Execution ErrInvalidOrderPlan)
          else if ld_reducing draft \<noteq> il_reducing approved \<or>
                  (ld_reducing draft \<and> ld_side draft \<noteq> SideSell)
          then Inl (Execution ErrInvalidOrderPlan)
          else check_drafts sha intent (Some (ld_instrument draft))
                 (legIDs(ld_instrument draft \<mapsto> leg_id sha intent draft))
                 (if ld_protective draft then protective @ [leg_id sha intent draft] else protective)
                 drafts)"

text \<open>The dependencies of one draft, as leg identities.\<close>

fun leg_dependencies ::
  "(digest \<rightharpoonup> digest) \<Rightarrow> digest option \<Rightarrow> digest set \<Rightarrow> digest list \<Rightarrow> digest list result" where
  "leg_dependencies legIDs own seen [] = Inr []"
| "leg_dependencies legIDs own seen (instrument # rest) =
     (case legIDs instrument of
        None \<Rightarrow> Inl (Execution ErrInvalidOrderPlan)
      | Some dep \<Rightarrow>
          if own = Some dep \<or> dep \<in> seen then Inl (Execution ErrInvalidOrderPlan)
          else bind_r (leg_dependencies legIDs own (insert dep seen) rest) (\<lambda>deps. Inr (dep # deps)))"

definition build_leg ::
  "(string \<Rightarrow> digest) \<Rightarrow> execution_intent \<Rightarrow> (digest \<rightharpoonup> digest) \<Rightarrow> digest list \<Rightarrow> order_leg_draft \<Rightarrow>
   order_leg result" where
  "build_leg sha intent legIDs protective draft =
     bind_r (leg_dependencies legIDs (legIDs (ld_instrument draft)) {} (ld_depends_on draft))
       (\<lambda>deps.
          if ld_side draft = SideSell \<and> \<not> ld_reducing draft \<and>
             (protective = [] \<or> \<not> set protective \<subseteq> set deps)
          then Inl (Execution ErrUnsafeLegSequence)
          else Inr \<lparr>ol_id = (case legIDs (ld_instrument draft) of None \<Rightarrow> 0 | Some i \<Rightarrow> i),
                    ol_instrument = ld_instrument draft, ol_side = ld_side draft,
                    ol_quantity = ld_quantity draft, ol_limit_price = ld_limit_price draft,
                    ol_protective = ld_protective draft, ol_depends_on = sort deps,
                    ol_reducing = ld_reducing draft\<rparr>)"

fun build_legs ::
  "(string \<Rightarrow> digest) \<Rightarrow> execution_intent \<Rightarrow> (digest \<rightharpoonup> digest) \<Rightarrow> digest list \<Rightarrow> order_leg_draft list \<Rightarrow>
   order_leg list result" where
  "build_legs sha intent legIDs protective [] = Inr []"
| "build_legs sha intent legIDs protective (draft # drafts) =
     bind_r (build_leg sha intent legIDs protective draft)
       (\<lambda>leg. bind_r (build_legs sha intent legIDs protective drafts) (\<lambda>legs. Inr (leg # legs)))"

definition canonicalPlan :: "order_plan_spec \<Rightarrow> order_leg list \<Rightarrow> string" where
  "canonicalPlan spec legs = marshal (JObj
     [(''SchemaVersion'', JStr (ops_schema spec)),
      (''IntentID'', JStr (digest_string (ei_id (ops_intent spec)))),
      (''CreatedAt'', JStr (rfc3339_nano (ops_created_at spec))),
      (''ExpiresAt'', JStr (rfc3339_nano (ops_expires_at spec))),
      (''Legs'', JArr (map (\<lambda>leg. JObj
         [(''ID'', JStr (digest_string (ol_id leg))),
          (''InstrumentID'', JStr (digest_string (ol_instrument leg))),
          (''Side'', JStr (side_string (ol_side leg))),
          (''Quantity'', JInt (ol_quantity leg)),
          (''PriceMinor'', JInt (price_minor (ol_limit_price leg))),
          (''Currency'', JStr (price_currency (ol_limit_price leg))),
          (''Protective'', JBool (ol_protective leg)),
          (''ReducingExposure'', JBool (ol_reducing leg)),
          (''DependsOn'', JArr (map (\<lambda>d. JStr (digest_string d)) (ol_depends_on leg)))]) legs))])"

definition NewOrderPlan :: "(string \<Rightarrow> digest) \<Rightarrow> order_plan_spec \<Rightarrow> order_plan result" where
  "NewOrderPlan sha spec0 =
     (let spec = spec0\<lparr>ops_schema := trim_space (ops_schema spec0)\<rparr>;
          intent = ops_intent spec; ispec = ei_spec intent in
      if ops_schema spec = [] \<or> ei_id intent = 0 \<or> ops_legs spec = [] \<or>
         length (ops_legs spec) > length (eis_legs ispec) \<or> ops_created_at spec = 0 \<or>
         \<not> ops_expires_at spec > ops_created_at spec \<or> ops_created_at spec < eis_created_at ispec \<or>
         ops_expires_at spec > eis_expires_at ispec
      then Inl (Execution ErrInvalidOrderPlan)
      else
        let drafts = sort_key ld_instrument (ops_legs spec) in
        bind_r (check_drafts sha intent None Map.empty [] drafts) (\<lambda>(legIDs, protective).
        bind_r (build_legs sha intent legIDs protective drafts) (\<lambda>legs.
        if hasCycle legs then Inl (Execution ErrDependencyCycle)
        else
          let spec = spec\<lparr>ops_legs := drafts\<rparr>; raw = canonicalPlan spec legs;
              planID = derive sha ''order-plan-id/v1'' [digest_string (ei_id intent), raw]
          in Inr \<lparr>op_id = planID, op_spec = spec, op_legs = legs, op_raw = raw\<rparr>)))"

section \<open>What a plan guarantees\<close>

text \<open>A draft agrees with the intent leg of its instrument.\<close>

definition draft_authorized :: "execution_intent \<Rightarrow> order_leg_draft \<Rightarrow> bool" where
  "draft_authorized intent draft \<longleftrightarrow>
     (\<exists>approved \<in> set (eis_legs (ei_spec intent)).
        il_instrument approved = ld_instrument draft \<and> ld_side draft = il_side approved \<and>
        ld_quantity draft = il_quantity approved \<and> ld_reducing draft = il_reducing approved) \<and>
     (ld_protective draft \<longrightarrow> ld_side draft = SideBuy)"

lemma authority_of_Some:
  "authority_of legs i = Some l \<Longrightarrow> l \<in> set legs \<and> il_instrument l = i"
  by (auto simp: authority_of_def dest!: map_of_SomeD)

lemma check_drafts_Inr:
  assumes "check_drafts sha intent prev m ps drafts = Inr (m', ps')"
    and "sorted (map ld_instrument drafts)"
    and "\<forall>p. prev = Some p \<longrightarrow> (\<forall>d \<in> set drafts. p \<le> ld_instrument d)"
  shows "(\<forall>d \<in> set drafts. draft_authorized intent d) \<and> distinct (map ld_instrument drafts) \<and>
    (\<forall>p. prev = Some p \<longrightarrow> p \<notin> set (map ld_instrument drafts)) \<and>
    m' = m ++ map_of (map (\<lambda>d. (ld_instrument d, leg_id sha intent d)) drafts) \<and>
    ps' = ps @ map (leg_id sha intent) (filter ld_protective drafts)"
  using assms
proof (induction drafts arbitrary: prev m ps)
  case Nil
  then show ?case by simp
next
  case (Cons d drafts)
  from Cons.prems(1) have auth: "draft_authorized intent d" and ne: "prev \<noteq> Some (ld_instrument d)"
    and rest: "check_drafts sha intent (Some (ld_instrument d)) (m(ld_instrument d \<mapsto> leg_id sha intent d))
      (if ld_protective d then ps @ [leg_id sha intent d] else ps) drafts = Inr (m', ps')"
    by (auto simp: draft_authorized_def dest!: authority_of_Some split: option.splits if_splits)
  from Cons.prems(2) have srt: "sorted (map ld_instrument drafts)"
    and lo: "\<forall>p. Some (ld_instrument d) = Some p \<longrightarrow> (\<forall>e \<in> set drafts. p \<le> ld_instrument e)" by auto
  note ih = Cons.IH [OF rest srt lo]
  have fresh: "p \<notin> set (map ld_instrument (d # drafts))" if "prev = Some p" for p
  proof -
    from that Cons.prems(3) ne have "p < ld_instrument d" by fastforce
    with lo show ?thesis by force
  qed
  have notin: "ld_instrument d \<notin> set (map ld_instrument drafts)" using ih by blast
  then have "m(ld_instrument d \<mapsto> leg_id sha intent d) ++
      map_of (map (\<lambda>d. (ld_instrument d, leg_id sha intent d)) drafts) =
      m ++ map_of (map (\<lambda>d. (ld_instrument d, leg_id sha intent d)) (d # drafts))"
    by (simp add: map_add_upd_left dom_map_of_conv_image_fst image_image)
  with ih have "m' = m ++ map_of (map (\<lambda>d. (ld_instrument d, leg_id sha intent d)) (d # drafts))"
    by (simp del: fun_upd_apply)
  moreover from ih have "ps' = ps @ map (leg_id sha intent) (filter ld_protective (d # drafts))" by simp
  ultimately show ?case using ih auth fresh notin by (simp del: fun_upd_apply map_add_upd)
qed

lemma leg_dependencies_Inr:
  "leg_dependencies legIDs own seen is = Inr deps \<Longrightarrow>
     set deps \<subseteq> ran legIDs \<and> (\<forall>d \<in> set deps. own \<noteq> Some d) \<and> distinct deps \<and> set deps \<inter> seen = {}"
  by (induction legIDs own seen "is" arbitrary: deps rule: leg_dependencies.induct)
    (force split: option.splits if_splits simp: ran_def)+

lemma build_leg_Inr:
  assumes "build_leg sha intent legIDs protective d = Inr leg" "legIDs (ld_instrument d) = Some i"
  shows "ol_id leg = i \<and> ol_instrument leg = ld_instrument d \<and> ol_side leg = ld_side d \<and>
    ol_quantity leg = ld_quantity d \<and> ol_protective leg = ld_protective d \<and> ol_reducing leg = ld_reducing d \<and>
    set (ol_depends_on leg) \<subseteq> ran legIDs - {i} \<and>
    (ol_side leg = SideSell \<and> \<not> ol_reducing leg \<longrightarrow>
       protective \<noteq> [] \<and> set protective \<subseteq> set (ol_depends_on leg))"
  using assms by (auto simp: build_leg_def dest!: leg_dependencies_Inr split: if_splits)

lemma build_legs_Inr:
  "build_legs sha intent legIDs protective drafts = Inr legs \<Longrightarrow>
     list_all2 (\<lambda>d leg. build_leg sha intent legIDs protective d = Inr leg) drafts legs"
  by (induction drafts arbitrary: legs) auto

text \<open>The legs of a plan come one by one from the sorted drafts.\<close>

lemma NewOrderPlan_Inr:
  assumes "NewOrderPlan sha spec = Inr plan"
  obtains legIDs protective where
    "check_drafts sha (ops_intent spec) None Map.empty [] (sort_key ld_instrument (ops_legs spec)) =
       Inr (legIDs, protective)"
    and "build_legs sha (ops_intent spec) legIDs protective (sort_key ld_instrument (ops_legs spec)) =
       Inr (op_legs plan)"
    and "\<not> hasCycle (op_legs plan)"
    and "op_spec plan = spec\<lparr>ops_schema := trim_space (ops_schema spec),
           ops_legs := sort_key ld_instrument (ops_legs spec)\<rparr>"
    and "op_legs plan \<noteq> []"
proof -
  have "legs \<noteq> []"
    if "build_legs sha i m ps (sort_key ld_instrument (ops_legs spec)) = Inr legs" "ops_legs spec \<noteq> []"
    for i m ps legs
  proof -
    from that(1) have "length legs = length (ops_legs spec)"
      by (metis build_legs_Inr length_sort list_all2_lengthD)
    with that(2) show ?thesis by auto
  qed
  with assms show ?thesis
    by (auto intro!: that simp: NewOrderPlan_def Let_def split: if_splits prod.splits)
qed

text \<open>
  The safety contract of a plan: dependencies are among the other legs, and every exposure-increasing
  SELL leg depends on every protective leg, of which there is at least one.
\<close>

definition plan_safe :: "order_leg list \<Rightarrow> bool" where
  "plan_safe legs \<longleftrightarrow>
     (\<forall>leg \<in> set legs. set (ol_depends_on leg) \<subseteq> ol_id ` set legs - {ol_id leg} \<and>
       (ol_side leg = SideSell \<and> \<not> ol_reducing leg \<longrightarrow>
          (\<exists>p \<in> set legs. ol_protective p) \<and>
          (\<forall>p \<in> set legs. ol_protective p \<longrightarrow> ol_side p = SideBuy \<and> ol_id p \<in> set (ol_depends_on leg))))"

lemma build_legs_safe:
  assumes first: "check_drafts sha intent None Map.empty [] drafts = Inr (legIDs, protective)"
    and srt: "sorted (map ld_instrument drafts)"
    and second: "build_legs sha intent legIDs protective drafts = Inr legs"
  shows "plan_safe legs \<and> distinct (map ol_instrument legs) \<and>
    (\<forall>leg \<in> set legs. \<exists>d \<in> set drafts. draft_authorized intent d \<and> ol_instrument leg = ld_instrument d \<and>
       ol_side leg = ld_side d \<and> ol_quantity leg = ld_quantity d \<and> ol_reducing leg = ld_reducing d)"
proof -
  from check_drafts_Inr [OF first srt]
  have auth: "\<forall>d \<in> set drafts. draft_authorized intent d" and dist: "distinct (map ld_instrument drafts)"
    and ids: "legIDs = map_of (map (\<lambda>d. (ld_instrument d, leg_id sha intent d)) drafts)"
    and prot: "protective = map (leg_id sha intent) (filter ld_protective drafts)" by auto
  have look: "legIDs (ld_instrument d) = Some (leg_id sha intent d)" if "d \<in> set drafts" for d
    using that dist unfolding ids by (intro map_of_is_SomeI) (simp_all add: comp_def)
  have rel: "list_all2 (\<lambda>d leg. build_leg sha intent legIDs protective d = Inr leg) drafts legs"
    using second by (rule build_legs_Inr)
  have from_draft: "\<exists>d \<in> set drafts. build_leg sha intent legIDs protective d = Inr leg"
    if "leg \<in> set legs" for leg
    by (rule list_all2_in_right [OF rel that])
  have to_leg: "\<exists>leg \<in> set legs. build_leg sha intent legIDs protective d = Inr leg"
    if "d \<in> set drafts" for d
    by (rule list_all2_in_left [OF rel that])
  have ran: "ran legIDs \<subseteq> ol_id ` set legs"
  proof
    fix i assume "i \<in> ran legIDs"
    then obtain d where d: "d \<in> set drafts" "i = leg_id sha intent d"
      unfolding ids by (auto simp: ran_def dest!: map_of_SomeD)
    from to_leg [OF d(1)] obtain leg where leg: "leg \<in> set legs"
      "build_leg sha intent legIDs protective d = Inr leg" by blast
    have "ol_id leg = i" using build_leg_Inr [OF leg(2) look [OF d(1)]] d(2) by blast
    with leg(1) show "i \<in> ol_id ` set legs" by blast
  qed
  have pleg: "ol_side p = SideBuy \<and> ol_id p \<in> set protective" if "p \<in> set legs" "ol_protective p" for p
  proof -
    from from_draft [OF that(1)] obtain d where d: "d \<in> set drafts"
      "build_leg sha intent legIDs protective d = Inr p" by blast
    with build_leg_Inr [OF d(2) look [OF d(1)]] that(2) auth show ?thesis
      by (auto simp: prot draft_authorized_def)
  qed
  have exp: "\<exists>p \<in> set legs. ol_protective p" if ne: "protective \<noteq> []"
  proof -
    from ne obtain d where "d \<in> set drafts" "ld_protective d"
      by (auto simp: prot filter_empty_conv)
    with to_leg look show ?thesis by (metis build_leg_Inr)
  qed
  have "plan_safe legs"
    unfolding plan_safe_def
  proof (intro ballI conjI impI)
    fix leg assume l: "leg \<in> set legs"
    from from_draft [OF l] obtain d where d: "d \<in> set drafts"
      "build_leg sha intent legIDs protective d = Inr leg" by blast
    note props = build_leg_Inr [OF d(2) look [OF d(1)]]
    show "set (ol_depends_on leg) \<subseteq> ol_id ` set legs - {ol_id leg}" using props ran by auto
    assume sell: "ol_side leg = SideSell \<and> \<not> ol_reducing leg"
    show "\<exists>p \<in> set legs. ol_protective p" using props sell exp by blast
    fix p assume p: "p \<in> set legs" "ol_protective p"
    show "ol_side p = SideBuy" "ol_id p \<in> set (ol_depends_on leg)"
      using pleg [OF p] props sell by auto
  qed
  moreover have "map ol_instrument legs = map ld_instrument drafts"
    using rel look by (auto simp: list_all2_conv_all_nth list_eq_iff_nth_eq) (metis build_leg_Inr nth_mem)
  ultimately show ?thesis
    using dist auth from_draft look by (metis build_leg_Inr)
qed

text \<open>In an acyclic plan there is always a leg whose dependencies are all completed.\<close>

lemma edges_of_leg:
  assumes "map_of (edges_of legs) x = Some ds"
  shows "\<exists>leg \<in> set legs. ol_id leg = x \<and> ol_depends_on leg = ds"
  using assms by (auto simp: edges_of_def dest!: map_of_SomeD)

lemma acyclic_progress:
  assumes "\<not> hasCycle legs" "plan_safe legs" "leg0 \<in> set legs" "ol_id leg0 \<notin> completed"
  shows "\<exists>leg \<in> set legs. ol_id leg \<notin> completed \<and> set (ol_depends_on leg) \<subseteq> completed"
proof -
  let ?r = "dep_rel (edges_of legs)" and ?ids = "ol_id ` set legs"
  have keys: "x \<in> ?ids" if "map_of (edges_of legs) x = Some ds" for x ds
    using edges_of_leg [OF that] by auto
  have sub: "?r \<subseteq> ?ids \<times> ?ids"
  proof
    fix e assume "e \<in> ?r"
    then obtain x y ds where e: "e = (x, y)" "map_of (edges_of legs) x = Some ds" "y \<in> set ds"
      by (cases e) (auto simp: dep_rel_iff)
    from edges_of_leg [OF e(2)] obtain leg where "leg \<in> set legs" "ol_depends_on leg = ds" by auto
    with e assms(2) have "y \<in> ?ids" unfolding plan_safe_def by blast
    with e keys show "e \<in> ?ids \<times> ?ids" by auto
  qed
  have "acyclic ?r" using assms(1) by (simp add: hasCycle_iff acyclic_def)
  moreover have "finite ?r" using sub by (rule finite_subset) simp
  ultimately have "wf (?r\<inverse>)" by (rule finite_acyclic_wf_converse [rotated])
  moreover have "ol_id leg0 \<in> ?ids - completed" using assms(3,4) by auto
  ultimately obtain x where x: "x \<in> ?ids - completed" "\<And>y. (y, x) \<in> ?r\<inverse> \<Longrightarrow> y \<notin> ?ids - completed"
    by (rule wfE_min) blast
  have "map_of (edges_of legs) x \<noteq> None"
    using x(1) by (auto simp: map_of_eq_None_iff edges_of_def image_image)
  then obtain ds where ds: "map_of (edges_of legs) x = Some ds" by auto
  from edges_of_leg [OF ds] obtain leg where leg: "leg \<in> set legs" "ol_id leg = x" "ol_depends_on leg = ds"
    by auto
  have "set ds \<subseteq> completed"
  proof
    fix y assume y: "y \<in> set ds"
    then have "(x, y) \<in> ?r" using ds by (simp add: dep_rel_def successors_def)
    with x(2) [of y] sub show "y \<in> completed" by auto
  qed
  with leg x(1) show ?thesis by auto
qed

end
