(* ===== verification/Canonical.thy ===== *)
theory Canonical
  imports Encoding
begin

text \<open>
  What equality of canonical bytes says about the values behind them. The stores compare orders,
  snapshots and publications with \<open>bytes.Equal\<close> on their JSON; the lemmas show that for wire structs
  with the same fields this is equality field by field: every rendered value ends where its field
  ends, numbers and identities can be read back, and strings agree up to their escaped form.
\<close>

section \<open>Strings end at their closing quote\<close>

text \<open>The escaped text up to the closing quote, and what follows it.\<close>

fun scan :: "string \<Rightarrow> string \<times> string" where
  "scan [] = ([], [])"
| "scan [c] = (if c = CHR 0x22 then ([], []) else ([c], []))"
| "scan (c # d # r) =
     (if c = CHR 0x22 then ([], d # r)
      else if c = CHR 0x5C then (case scan r of (a, b) \<Rightarrow> (c # d # a, b))
      else (case scan (d # r) of (a, b) \<Rightarrow> (c # a, b)))"

definition escaped :: "string \<Rightarrow> bool" where
  "escaped s \<longleftrightarrow> (\<forall>r. scan (s @ r) = (case scan r of (a, b) \<Rightarrow> (s @ a, b)))"

lemma escaped_Nil [simp]: "escaped []"
  by (simp add: escaped_def)

lemma escaped_append: "escaped s \<Longrightarrow> escaped t \<Longrightarrow> escaped (s @ t)"
  by (simp add: escaped_def split: prod.splits)

lemma escaped_plain: "c \<noteq> CHR 0x22 \<Longrightarrow> c \<noteq> CHR 0x5C \<Longrightarrow> escaped s \<Longrightarrow> escaped (c # s)"
proof -
  assume c: "c \<noteq> CHR 0x22" "c \<noteq> CHR 0x5C" and s: "escaped s"
  have "scan (c # x) = (case scan x of (a, b) \<Rightarrow> (c # a, b))" for x
    using c by (cases x) auto
  with s show ?thesis by (simp add: escaped_def split: prod.splits)
qed

lemma escaped_pair: "escaped s \<Longrightarrow> escaped (CHR 0x5C # d # s)"
  by (simp add: escaped_def split: prod.splits)

lemma escaped_plain_list: "CHR 0x22 \<notin> set s \<Longrightarrow> CHR 0x5C \<notin> set s \<Longrightarrow> escaped s"
  by (induction s) (auto intro: escaped_plain)

lemma digit_char_plain:
  assumes "n < 16"
  shows "digit_char n \<noteq> CHR 0x22" "digit_char n \<noteq> CHR 0x5C"
proof -
  have "list_all (\<lambda>n. digit_char n \<noteq> CHR 0x22 \<and> digit_char n \<noteq> CHR 0x5C) [0..<16]" by code_simp
  with assms show "digit_char n \<noteq> CHR 0x22" "digit_char n \<noteq> CHR 0x5C" by (auto simp: list_all_iff)
qed

lemma escaped_json_char: "(of_char c :: nat) < 128 \<Longrightarrow> escaped (json_char c)"
proof -
  assume c: "(of_char c :: nat) < 128"
  have "(of_char c :: nat) div 16 < 16" using c by simp
  moreover have "(of_char c :: nat) mod 16 < 16" by simp
  ultimately show ?thesis
    by (auto simp: json_char_def Let_def intro!: escaped_pair escaped_plain digit_char_plain)
qed

lemma utf8_len_high:
  assumes "utf8_len s \<noteq> 0"
  shows "\<forall>c \<in> set (take (utf8_len s) s). 128 \<le> (of_char c :: nat)"
proof -
  have "128 \<le> (of_char (s ! i) :: nat)" if "i < utf8_len s" "i < length s" for i
  proof -
    from that consider "i = 0" | "i = 1" | "i = 2" | "i = 3"
      by (fastforce simp: utf8_len_def Let_def split: if_splits)
    then show ?thesis
      using assms that by cases (auto simp: utf8_len_def Let_def split: if_splits)
  qed
  then show ?thesis by (auto simp: in_set_conv_nth)
qed

lemma escaped_json_body: "escaped (json_body s)"
proof (induction s rule: json_body.induct)
  case (2 c s)
  have high: "escaped (take (utf8_len (c # s)) (c # s))" if "utf8_len (c # s) \<noteq> 0"
  proof (rule escaped_plain_list)
    show "CHR 0x22 \<notin> set (take (utf8_len (c # s)) (c # s))"
      "CHR 0x5C \<notin> set (take (utf8_len (c # s)) (c # s))"
      using utf8_len_high [OF that] by fastforce+
  qed
  consider "(of_char c :: nat) < 128" | "\<not> (of_char c :: nat) < 128" "utf8_len (c # s) = 0"
    | "\<not> (of_char c :: nat) < 128" "utf8_len (c # s) \<noteq> 0" "take 3 (c # s) = [CHR 0xE2, CHR 0x80, CHR 0xA8]"
    | "\<not> (of_char c :: nat) < 128" "utf8_len (c # s) \<noteq> 0" "take 3 (c # s) \<noteq> [CHR 0xE2, CHR 0x80, CHR 0xA8]"
        "take 3 (c # s) = [CHR 0xE2, CHR 0x80, CHR 0xA9]"
    | "\<not> (of_char c :: nat) < 128" "utf8_len (c # s) \<noteq> 0" "take 3 (c # s) \<noteq> [CHR 0xE2, CHR 0x80, CHR 0xA8]"
        "take 3 (c # s) \<noteq> [CHR 0xE2, CHR 0x80, CHR 0xA9]"
    by blast
  then show ?case
  proof cases
    case 1
    with "2.IH"(1) show ?thesis
      by (simp add: json_body.simps(2) escaped_append escaped_json_char)
  next
    case 2
    with "2.IH"(2) show ?thesis
      by (auto simp: json_body.simps(2) intro!: escaped_pair escaped_plain)
  next
    case 3
    with "2.IH"(3) show ?thesis
      unfolding json_body.simps(2) by (auto intro!: escaped_pair escaped_plain)
  next
    case 4
    with "2.IH"(4) show ?thesis
      unfolding json_body.simps(2) by (auto intro!: escaped_pair escaped_plain)
  next
    case 5
    then have "json_body (c # s) =
        take (utf8_len (c # s)) (c # s) @ json_body (drop (utf8_len (c # s) - 1) s)"
      unfolding json_body.simps(2) by presburger
    with "2.IH"(5) [OF 5] high [OF 5(2)] show ?thesis by (simp add: escaped_append del: take_Cons')
  qed
qed simp

lemma json_string_ends:
  assumes "json_string s @ r = json_string t @ r'"
  shows "json_body s = json_body t \<and> r = r'"
proof -
  have "scan (json_body x @ CHR 0x22 # q) = (json_body x, q)" for x q
  proof -
    have "scan (CHR 0x22 # q) = ([], q)" by (cases q) auto
    with escaped_json_body [of x] show ?thesis by (simp add: escaped_def)
  qed
  moreover from assms have "json_body s @ CHR 0x22 # r = json_body t @ CHR 0x22 # r'"
    by (simp add: json_string_def)
  ultimately show ?thesis by (metis Pair_inject)
qed

section \<open>Strings that need no escaping\<close>

definition plain_char :: "char \<Rightarrow> bool" where
  "plain_char c \<longleftrightarrow> (of_char c :: nat) < 128 \<and> json_char c = [c]"

definition plain :: "string \<Rightarrow> bool" where
  "plain s \<longleftrightarrow> list_all plain_char s"

lemma json_body_plain: "plain s \<Longrightarrow> json_body s = s"
  by (induction s) (simp_all add: plain_def plain_char_def json_body.simps(2))

lemma plain_inject: "plain s \<Longrightarrow> plain t \<Longrightarrow> json_body s = json_body t \<longleftrightarrow> s = t"
  by (simp add: json_body_plain)

lemma plain_digest [simp]: "plain (digest_string d)"
proof -
  have "list_all (\<lambda>n. plain_char (digit_char n)) [0..<16]" by code_simp
  then have "plain_char (digit_char n)" if "n < 16" for n using that by (auto simp: list_all_iff)
  then show ?thesis by (simp add: plain_def digest_string_def list_all_iff)
qed

section \<open>Numbers\<close>

definition number_char :: "char \<Rightarrow> bool" where
  "number_char c \<longleftrightarrow> c \<in> set ''-0123456789''"

lemma number_char_digit: "n < 10 \<Longrightarrow> number_char (digit_char n) \<and> digit_char n \<noteq> CHR ''-''"
proof -
  have "list_all (\<lambda>n. number_char (digit_char n) \<and> digit_char n \<noteq> CHR ''-'') [0..<10]" by code_simp
  then show "n < 10 \<Longrightarrow> ?thesis" by (auto simp: list_all_iff)
qed

lemma dec_nat_chars: "\<forall>c \<in> set (dec_nat n). number_char c \<and> c \<noteq> CHR ''-''"
  by (induction n rule: dec_nat.induct)
    (subst dec_nat.simps, use number_char_digit in \<open>auto\<close>)

lemma dec_nat_nonempty [simp]: "dec_nat n \<noteq> []"
  by (subst dec_nat.simps) simp

lemma dec_nat_inject: "dec_nat m = dec_nat n \<Longrightarrow> m = n"
proof (induction m arbitrary: n rule: dec_nat.induct)
  case (1 m)
  have unfold_n: "dec_nat n = (if n < 10 then [digit_char n] else dec_nat (n div 10) @ [digit_char (n mod 10)])" for n
    by (subst dec_nat.simps) (rule refl)
  show ?case
  proof (cases "m < 10")
    case True
    have "n < 10"
    proof (rule ccontr)
      assume "\<not> n < 10"
      with True "1.prems" have "dec_nat (n div 10) = []" by (simp add: unfold_n [of m] unfold_n [of n])
      then show False by simp
    qed
    with True "1.prems" show ?thesis by (simp add: unfold_n [of m] unfold_n [of n] digit_char_eq)
  next
    case False
    have "\<not> n < 10"
    proof
      assume "n < 10"
      with False "1.prems" have "dec_nat (m div 10) = []" by (simp add: unfold_n [of m] unfold_n [of n])
      then show False by simp
    qed
    with False "1.prems" have "dec_nat (m div 10) = dec_nat (n div 10)" "m mod 10 = n mod 10"
      by (simp_all add: unfold_n [of m] unfold_n [of n] digit_char_eq)
    with "1.IH" [OF False] have "m div 10 = n div 10" "m mod 10 = n mod 10" by auto
    then show ?thesis by (metis div_mult_mod_eq)
  qed
qed

lemma dec_int_chars: "\<forall>c \<in> set (dec_int i). number_char c"
proof -
  have "number_char (CHR ''-'')" by (simp add: number_char_def)
  with dec_nat_chars [of "nat i"] dec_nat_chars [of "nat (- i)"] show ?thesis
    by (simp add: dec_int_def)
qed

lemma dec_int_inject: "dec_int i = dec_int j \<longleftrightarrow> i = j"
proof
  assume eq: "dec_int i = dec_int j"
  have neg: "dec_nat m \<noteq> CHR ''-'' # s" for m s
  proof
    assume "dec_nat m = CHR ''-'' # s"
    with dec_nat_chars [of m] show False by (simp only: list.set ball_simps simp_thms)
  qed
  have neg': "CHR ''-'' # s \<noteq> dec_nat m" for m s by (rule neg [symmetric])
  show "i = j"
  proof (cases "i < 0")
    case True
    with eq neg' have "j < 0" by (simp add: dec_int_def split: if_splits)
    with True eq have "dec_nat (nat (- i)) = dec_nat (nat (- j))" by (simp add: dec_int_def)
    then have "nat (- i) = nat (- j)" by (rule dec_nat_inject)
    with True \<open>j < 0\<close> show ?thesis by simp
  next
    case False
    with eq neg have "\<not> j < 0" by (simp add: dec_int_def split: if_splits)
    with False eq have "dec_nat (nat i) = dec_nat (nat j)" by (simp add: dec_int_def)
    then have "nat i = nat j" by (rule dec_nat_inject)
    with False \<open>\<not> j < 0\<close> show ?thesis by simp
  qed
qed simp

section \<open>Objects with the same fields\<close>

text \<open>A continuation that closes or separates a field.\<close>

definition ends :: "string \<Rightarrow> bool" where
  "ends r \<longleftrightarrow> r \<noteq> [] \<and> hd r \<in> set '',]}''"

lemma dec_int_ends:
  assumes "dec_int i @ r = dec_int j @ r'" "ends r" "ends r'"
  shows "i = j \<and> r = r'"
proof -
  have take: "takeWhile number_char (dec_int k @ q) = dec_int k" if "ends q" for k q
    using that dec_int_chars [of k]
    by (cases q) (auto simp: ends_def number_char_def takeWhile_append)
  from assms take have "dec_int i = dec_int j" by metis
  with assms(1) show ?thesis by (simp add: dec_int_inject)
qed

text \<open>
  Values of the same kind: what two instances of one wire struct have in one field. A pointer field is
  an object or null.
\<close>

fun same_kind :: "json \<Rightarrow> json \<Rightarrow> bool" where
  "same_kind (JStr _) (JStr _) = True"
| "same_kind (JInt _) (JInt _) = True"
| "same_kind (JBool _) (JBool _) = True"
| "same_kind (JArr xs) (JArr ys) = ((\<forall>v \<in> set xs. \<exists>s. v = JStr s) \<and> (\<forall>v \<in> set ys. \<exists>s. v = JStr s))"
| "same_kind (JObj fs) (JObj gs) = list_all2 (\<lambda>f g. fst f = fst g \<and> same_kind (snd f) (snd g)) fs gs"
| "same_kind JNull JNull = True"
| "same_kind JNull (JObj _) = True"
| "same_kind (JObj _) JNull = True"
| "same_kind _ _ = False"

lemma strings_end:
  assumes "commas (map json_string ss) @ CHR '']'' # r = commas (map json_string ts) @ CHR '']'' # r'"
  shows "map json_string ss = map json_string ts \<and> r = r'"
  using assms
proof (induction ss arbitrary: ts)
  case Nil
  then show ?case
  proof (cases ts)
    case (Cons t ts')
    with Nil show ?thesis by (cases ts') (auto simp: json_string_def)
  qed simp
next
  case (Cons s ss)
  have split: "commas (map json_string (x # xs)) @ CHR '']'' # q = json_string x @
      (if xs = [] then CHR '']'' # q else CHR '','' # commas (map json_string xs) @ CHR '']'' # q)" for x xs q
    by (cases xs) simp_all
  show ?case
  proof (cases ts)
    case Nil
    with Cons.prems show ?thesis by (cases ss) (auto simp: json_string_def)
  next
    case ts: (Cons t ts')
    have "json_string s @ (if ss = [] then CHR '']'' # r else CHR '','' # commas (map json_string ss) @ CHR '']'' # r)
        = json_string t @ (if ts' = [] then CHR '']'' # r' else CHR '','' # commas (map json_string ts') @ CHR '']'' # r')"
      using Cons.prems unfolding ts split by simp
    from json_string_ends [OF this]
    have st: "json_body s = json_body t"
      and rest: "(if ss = [] then CHR '']'' # r else CHR '','' # commas (map json_string ss) @ CHR '']'' # r)
        = (if ts' = [] then CHR '']'' # r' else CHR '','' # commas (map json_string ts') @ CHR '']'' # r')"
      by auto
    from rest Cons.IH [of ts'] have "map json_string ss = map json_string ts' \<and> r = r'"
      by (auto split: if_splits)
    moreover have "json_string s = json_string t" using st by (simp add: json_string_def)
    ultimately show ?thesis using ts by simp
  qed
qed

definition field :: "string \<times> json \<Rightarrow> string" where
  "field f = json_string (fst f) @ CHR '':'' # marshal (snd f)"

lemma marshal_object: "marshal (JObj fs) = CHR ''{'' # commas (map field fs) @ ''}''"
  by (simp add: marshal.simps(6) field_def [abs_def] case_prod_unfold)

text \<open>Two values whose renderings end at the same place whenever they agree up to there.\<close>

definition delimited :: "json \<Rightarrow> json \<Rightarrow> bool" where
  "delimited v w \<longleftrightarrow> (\<forall>r r'. marshal v @ r = marshal w @ r' \<longrightarrow> ends r \<longrightarrow> ends r' \<longrightarrow>
     marshal v = marshal w \<and> r = r')"

lemma fields_end:
  assumes "list_all2 (\<lambda>f g. fst f = fst g \<and> delimited (snd f) (snd g)) fs gs"
    "commas (map field fs) @ CHR ''}'' # r = commas (map field gs) @ CHR ''}'' # r'"
  shows "map (marshal \<circ> snd) fs = map (marshal \<circ> snd) gs \<and> map fst fs = map fst gs \<and> r = r'"
  using assms
proof (induction fs arbitrary: gs)
  case Nil
  then show ?case by simp
next
  case (Cons f fs)
  then obtain g gs' where g: "gs = g # gs'" "fst f = fst g" "delimited (snd f) (snd g)"
    "list_all2 (\<lambda>f g. fst f = fst g \<and> delimited (snd f) (snd g)) fs gs'"
    by (auto simp: list_all2_Cons1)
  have len: "fs = [] \<longleftrightarrow> gs' = []" using g(4) by auto
  have split: "commas (map field (x # xs)) @ CHR ''}'' # q = json_string (fst x) @ CHR '':'' # marshal (snd x) @
      (if xs = [] then CHR ''}'' # q else CHR '','' # commas (map field xs) @ CHR ''}'' # q)" for x xs q
    by (cases xs) (simp_all add: field_def)
  have "marshal (snd f) @ (if fs = [] then CHR ''}'' # r else CHR '','' # commas (map field fs) @ CHR ''}'' # r)
      = marshal (snd g) @ (if gs' = [] then CHR ''}'' # r' else CHR '','' # commas (map field gs') @ CHR ''}'' # r')"
    using Cons.prems(2) unfolding g(1) split by (simp add: g(2))
  moreover have "ends (if fs = [] then CHR ''}'' # r else CHR '','' # commas (map field fs) @ CHR ''}'' # r)"
    "ends (if gs' = [] then CHR ''}'' # r' else CHR '','' # commas (map field gs') @ CHR ''}'' # r')"
    by (simp_all add: ends_def)
  ultimately have eq: "marshal (snd f) = marshal (snd g)"
    and rest: "(if fs = [] then CHR ''}'' # r else CHR '','' # commas (map field fs) @ CHR ''}'' # r)
      = (if gs' = [] then CHR ''}'' # r' else CHR '','' # commas (map field gs') @ CHR ''}'' # r')"
    using g(3) unfolding delimited_def by blast+
  have "map (marshal \<circ> snd) fs = map (marshal \<circ> snd) gs' \<and> map fst fs = map fst gs' \<and> r = r'"
  proof (cases "fs = []")
    case True
    with len rest show ?thesis by simp
  next
    case False
    with len rest show ?thesis by (intro Cons.IH [OF g(4)]) simp
  qed
  with eq g(1,2) show ?case by (simp add: comp_def)
qed

lemma map_field_cong:
  "map (marshal \<circ> snd) fs = map (marshal \<circ> snd) gs \<Longrightarrow> map fst fs = map fst gs \<Longrightarrow> map field fs = map field gs"
proof (induction fs arbitrary: gs)
  case (Cons f fs)
  then obtain g gs' where g: "gs = g # gs'" "marshal (snd f) = marshal (snd g)" "fst f = fst g"
    "map (marshal \<circ> snd) fs = map (marshal \<circ> snd) gs'" "map fst fs = map fst gs'"
    by (cases gs) (simp_all add: comp_def)
  then have "field f = field g" by (simp only: field_def)
  with Cons.IH [OF g(4,5)] g(1) show ?case by (simp only: list.map)
qed simp

lemma delimited_same_kind: "same_kind v w \<Longrightarrow> delimited v w"
proof (induction v w rule: same_kind.induct)
  case (1 s t)
  have "json_string s = json_string t \<and> r = r'" if "json_string s @ r = json_string t @ r'" for r r'
    using json_string_ends [OF that] by (simp only: json_string_def simp_thms)
  then show ?case unfolding delimited_def marshal.simps by blast
next
  case (2 i j)
  then show ?case using dec_int_ends by (simp only: delimited_def marshal.simps) blast
next
  case (3 a b)
  then show ?case by (cases a; cases b) (auto simp: delimited_def)
next
  case (4 xs ys)
  then have js: "(\<forall>v \<in> set xs. \<exists>s. v = JStr s) \<and> (\<forall>v \<in> set ys. \<exists>s. v = JStr s)" by (simp only: same_kind.simps)
  have "\<exists>ss. xs = map JStr ss" by (subst ex_map_conv) (use js in blast)
  moreover have "\<exists>ts. ys = map JStr ts" by (subst ex_map_conv) (use js in blast)
  ultimately obtain ss ts where xs: "xs = map JStr ss" "ys = map JStr ts" by blast
  show ?case
    unfolding delimited_def
  proof (intro allI impI)
    fix r r'
    assume "marshal (JArr xs) @ r = marshal (JArr ys) @ r'"
    with xs have "commas (map json_string ss) @ CHR '']'' # r = commas (map json_string ts) @ CHR '']'' # r'"
      by (simp add: comp_def)
    from strings_end [OF this] xs show "marshal (JArr xs) = marshal (JArr ys) \<and> r = r'"
      by (simp add: comp_def)
  qed
next
  case (5 fs gs)
  have l: "list_all2 (\<lambda>f g. fst f = fst g \<and> delimited (snd f) (snd g)) fs gs"
  proof (rule list_all2_mono)
    show "list_all2 (\<lambda>f g. (f \<in> set fs \<and> g \<in> set gs) \<and> fst f = fst g \<and> same_kind (snd f) (snd g)) fs gs"
      using 5(2) by (auto simp: list_all2_conv_all_nth)
    show "fst f = fst g \<and> delimited (snd f) (snd g)"
      if "(f \<in> set fs \<and> g \<in> set gs) \<and> fst f = fst g \<and> same_kind (snd f) (snd g)" for f g
      using 5(1) [of f g] that by blast
  qed
  show ?case
    unfolding delimited_def
  proof (intro allI impI)
    fix r r'
    assume "marshal (JObj fs) @ r = marshal (JObj gs) @ r'"
    then have "commas (map field fs) @ CHR ''}'' # r = commas (map field gs) @ CHR ''}'' # r'"
      by (simp add: marshal_object)
    from fields_end [OF l this] have "map field fs = map field gs" "r = r'"
      by (auto intro: map_field_cong)
    then show "marshal (JObj fs) = marshal (JObj gs) \<and> r = r'" by (simp only: marshal_object simp_thms)
  qed
qed (simp_all add: delimited_def marshal_object)

definition same_fields :: "(string \<times> json) list \<Rightarrow> (string \<times> json) list \<Rightarrow> bool" where
  "same_fields fs gs \<longleftrightarrow> list_all2 (\<lambda>f g. fst f = fst g \<and> same_kind (snd f) (snd g)) fs gs"

text \<open>Equal canonical bytes of one wire struct are equal bytes in every field.\<close>

lemma object_inject:
  assumes "marshal (JObj fs) = marshal (JObj gs)" "same_fields fs gs"
  shows "map (marshal \<circ> snd) fs = map (marshal \<circ> snd) gs"
proof -
  have "list_all2 (\<lambda>f g. fst f = fst g \<and> delimited (snd f) (snd g)) fs gs"
    using assms(2) unfolding same_fields_def by (rule list_all2_mono) (auto intro: delimited_same_kind)
  moreover have "commas (map field fs) @ CHR ''}'' # [] = commas (map field gs) @ CHR ''}'' # []"
    using assms(1) by (simp add: marshal_object)
  ultimately show ?thesis by (blast dest: fields_end)
qed

lemma marshal_JStr_plain: "plain s \<Longrightarrow> plain t \<Longrightarrow> json_string s = json_string t \<longleftrightarrow> s = t"
  by (simp add: json_string_def plain_inject)

end
