(* ===== verification/Order.thy ===== *)
theory Order
  imports Plan Canonical
begin

text \<open>
  \<open>internal/execution/model/order.go\<close>: orders, execution reports, fills and the order state machine
  \<open>ApplyExecutionReport\<close>, with the transition table and the stale-report rule of the source. A run of
  accepted reports is a sequence of steps of \<open>order_step\<close>; the lemmas give its invariants.
\<close>

section \<open>States, reports and reasons\<close>

datatype order_state =
    OrderCreated | OrderPlanned | OrderSubmissionPending | OrderSubmitted | OrderAcknowledged
  | OrderPartiallyFilled | OrderFilled | OrderCancelPending | OrderCancelled | OrderRejected
  | OrderExpired | OrderFailed | OrderUnknown | OtherOrderState string

definition order_state_string :: "order_state \<Rightarrow> string" where
  "order_state_string s = (case s of
     OrderCreated \<Rightarrow> ''CREATED'' | OrderPlanned \<Rightarrow> ''PLANNED''
   | OrderSubmissionPending \<Rightarrow> ''SUBMISSION_PENDING'' | OrderSubmitted \<Rightarrow> ''SUBMITTED''
   | OrderAcknowledged \<Rightarrow> ''ACKNOWLEDGED'' | OrderPartiallyFilled \<Rightarrow> ''PARTIALLY_FILLED''
   | OrderFilled \<Rightarrow> ''FILLED'' | OrderCancelPending \<Rightarrow> ''CANCEL_PENDING''
   | OrderCancelled \<Rightarrow> ''CANCELLED'' | OrderRejected \<Rightarrow> ''REJECTED'' | OrderExpired \<Rightarrow> ''EXPIRED''
   | OrderFailed \<Rightarrow> ''FAILED'' | OrderUnknown \<Rightarrow> ''UNKNOWN'' | OtherOrderState x \<Rightarrow> x)"

definition OrderState_Validate :: "order_state \<Rightarrow> unit result" where
  "OrderState_Validate value =
     (case value of OtherOrderState _ \<Rightarrow> Inl (Execution ErrInvalidOrder) | _ \<Rightarrow> Inr ())"

definition Terminal :: "order_state \<Rightarrow> bool" where
  "Terminal value \<longleftrightarrow>
     value \<in> {OrderFilled, OrderCancelled, OrderRejected, OrderExpired, OrderFailed}"

datatype report_type =
    ReportPlanned | ReportSubmissionPending | ReportSubmitted | ReportAcknowledged | ReportPartialFill
  | ReportFill | ReportCancelPending | ReportCancelled | ReportRejected | ReportExpired | ReportFailed
  | ReportUnknown | OtherReport string

datatype transition_reason =
    ReasonPlanned | ReasonSubmissionStarted | ReasonBrokerAccepted | ReasonBrokerAcknowledged
  | ReasonBrokerFill | ReasonCancellationRequested | ReasonBrokerCancelled | ReasonBrokerRejected
  | ReasonAuthorityExpired | ReasonInternalFailure | ReasonSubmissionOutcomeUnknown
  | OtherReason string

definition report_type_string :: "report_type \<Rightarrow> string" where
  "report_type_string t = (case t of
     ReportPlanned \<Rightarrow> ''PLANNED'' | ReportSubmissionPending \<Rightarrow> ''SUBMISSION_PENDING''
   | ReportSubmitted \<Rightarrow> ''SUBMITTED'' | ReportAcknowledged \<Rightarrow> ''ACKNOWLEDGED''
   | ReportPartialFill \<Rightarrow> ''PARTIAL_FILL'' | ReportFill \<Rightarrow> ''FILL''
   | ReportCancelPending \<Rightarrow> ''CANCEL_PENDING'' | ReportCancelled \<Rightarrow> ''CANCELLED''
   | ReportRejected \<Rightarrow> ''REJECTED'' | ReportExpired \<Rightarrow> ''EXPIRED'' | ReportFailed \<Rightarrow> ''FAILED''
   | ReportUnknown \<Rightarrow> ''UNKNOWN'' | OtherReport x \<Rightarrow> x)"

definition reason_string :: "transition_reason \<Rightarrow> string" where
  "reason_string r = (case r of
     ReasonPlanned \<Rightarrow> ''PLAN_ACCEPTED'' | ReasonSubmissionStarted \<Rightarrow> ''SUBMISSION_STARTED''
   | ReasonBrokerAccepted \<Rightarrow> ''BROKER_ACCEPTED'' | ReasonBrokerAcknowledged \<Rightarrow> ''BROKER_ACKNOWLEDGED''
   | ReasonBrokerFill \<Rightarrow> ''BROKER_FILL'' | ReasonCancellationRequested \<Rightarrow> ''CANCELLATION_REQUESTED''
   | ReasonBrokerCancelled \<Rightarrow> ''BROKER_CANCELLED'' | ReasonBrokerRejected \<Rightarrow> ''BROKER_REJECTED''
   | ReasonAuthorityExpired \<Rightarrow> ''AUTHORITY_EXPIRED'' | ReasonInternalFailure \<Rightarrow> ''INTERNAL_FAILURE''
   | ReasonSubmissionOutcomeUnknown \<Rightarrow> ''SUBMISSION_OUTCOME_UNKNOWN'' | OtherReason x \<Rightarrow> x)"

definition validTransitionReason :: "transition_reason \<Rightarrow> bool" where
  "validTransitionReason value \<longleftrightarrow> (case value of OtherReason _ \<Rightarrow> False | _ \<Rightarrow> True)"

fun expectedReason :: "report_type \<Rightarrow> transition_reason" where
  "expectedReason ReportPlanned = ReasonPlanned"
| "expectedReason ReportSubmissionPending = ReasonSubmissionStarted"
| "expectedReason ReportSubmitted = ReasonBrokerAccepted"
| "expectedReason ReportAcknowledged = ReasonBrokerAcknowledged"
| "expectedReason ReportPartialFill = ReasonBrokerFill"
| "expectedReason ReportFill = ReasonBrokerFill"
| "expectedReason ReportCancelPending = ReasonCancellationRequested"
| "expectedReason ReportCancelled = ReasonBrokerCancelled"
| "expectedReason ReportRejected = ReasonBrokerRejected"
| "expectedReason ReportExpired = ReasonAuthorityExpired"
| "expectedReason ReportFailed = ReasonInternalFailure"
| "expectedReason ReportUnknown = ReasonSubmissionOutcomeUnknown"
| "expectedReason (OtherReport _) = OtherReason []"

fun reportTarget :: "report_type \<Rightarrow> order_state option" where
  "reportTarget ReportPlanned = Some OrderPlanned"
| "reportTarget ReportSubmissionPending = Some OrderSubmissionPending"
| "reportTarget ReportSubmitted = Some OrderSubmitted"
| "reportTarget ReportAcknowledged = Some OrderAcknowledged"
| "reportTarget ReportPartialFill = Some OrderPartiallyFilled"
| "reportTarget ReportFill = Some OrderFilled"
| "reportTarget ReportCancelPending = Some OrderCancelPending"
| "reportTarget ReportCancelled = Some OrderCancelled"
| "reportTarget ReportRejected = Some OrderRejected"
| "reportTarget ReportExpired = Some OrderExpired"
| "reportTarget ReportFailed = Some OrderFailed"
| "reportTarget ReportUnknown = Some OrderUnknown"
| "reportTarget (OtherReport _) = None"

fun legalTargets :: "order_state \<Rightarrow> order_state list" where
  "legalTargets OrderCreated = [OrderPlanned, OrderExpired, OrderFailed]"
| "legalTargets OrderPlanned = [OrderSubmissionPending, OrderExpired, OrderCancelled, OrderFailed]"
| "legalTargets OrderSubmissionPending =
     [OrderSubmitted, OrderAcknowledged, OrderPartiallyFilled, OrderFilled, OrderRejected, OrderUnknown]"
| "legalTargets OrderSubmitted =
     [OrderAcknowledged, OrderPartiallyFilled, OrderFilled, OrderCancelPending, OrderRejected, OrderUnknown]"
| "legalTargets OrderAcknowledged =
     [OrderPartiallyFilled, OrderFilled, OrderCancelPending, OrderRejected, OrderUnknown]"
| "legalTargets OrderPartiallyFilled =
     [OrderPartiallyFilled, OrderFilled, OrderCancelPending, OrderRejected, OrderUnknown]"
| "legalTargets OrderCancelPending =
     [OrderCancelled, OrderPartiallyFilled, OrderFilled, OrderRejected, OrderUnknown]"
| "legalTargets OrderCancelled = [OrderPartiallyFilled, OrderFilled]"
| "legalTargets OrderUnknown =
     [OrderSubmitted, OrderAcknowledged, OrderPartiallyFilled, OrderFilled, OrderCancelPending,
      OrderCancelled, OrderRejected]"
| "legalTargets _ = []"

definition legalTransition :: "order_state \<Rightarrow> order_state \<Rightarrow> bool" where
  "legalTransition from to \<longleftrightarrow> to \<in> set (legalTargets from)"

text \<open>The \<open>rank\<close> map; a missing key reads as 0.\<close>

fun state_rank :: "order_state \<Rightarrow> nat" where
  "state_rank OrderCreated = 1"
| "state_rank OrderPlanned = 2"
| "state_rank OrderSubmissionPending = 3"
| "state_rank OrderSubmitted = 4"
| "state_rank OrderAcknowledged = 5"
| "state_rank OrderPartiallyFilled = 6"
| "state_rank OrderCancelPending = 7"
| "state_rank OrderCancelled = 8"
| "state_rank OrderRejected = 8"
| "state_rank OrderExpired = 8"
| "state_rank OrderFailed = 8"
| "state_rank OrderFilled = 9"
| "state_rank _ = 0"

definition staleTransition :: "order_state \<Rightarrow> order_state \<Rightarrow> bool" where
  "staleTransition from to \<longleftrightarrow>
     (if to = OrderPartiallyFilled \<or> to = OrderFilled then False
      else state_rank to > 0 \<and> state_rank to \<le> state_rank from)"

section \<open>Orders\<close>

record order_spec =
  os_schema :: string
  os_plan :: digest
  os_leg :: order_leg
  os_state :: order_state
  os_revision :: nat
  os_filled :: int
  os_broker_order :: string
  os_created_at :: instant
  os_updated_at :: instant

record order =
  ord_id :: digest
  ord_client :: digest
  ord_spec :: order_spec
  ord_raw :: string

definition canonicalOrder :: "digest \<Rightarrow> digest \<Rightarrow> order_spec \<Rightarrow> string" where
  "canonicalOrder oid client spec = marshal (JObj
     [(''SchemaVersion'', JStr (os_schema spec)),
      (''ID'', JStr (digest_string oid)),
      (''ClientOrderID'', JStr (digest_string client)),
      (''PlanID'', JStr (digest_string (os_plan spec))),
      (''LegID'', JStr (digest_string (ol_id (os_leg spec)))),
      (''InstrumentID'', JStr (digest_string (ol_instrument (os_leg spec)))),
      (''Side'', JStr (side_string (ol_side (os_leg spec)))),
      (''Quantity'', JInt (ol_quantity (os_leg spec))),
      (''PriceMinor'', JInt (price_minor (ol_limit_price (os_leg spec)))),
      (''Currency'', JStr (price_currency (ol_limit_price (os_leg spec)))),
      (''Protective'', JBool (ol_protective (os_leg spec))),
      (''DependsOn'', JArr (map (\<lambda>d. JStr (digest_string d)) (ol_depends_on (os_leg spec)))),
      (''State'', JStr (order_state_string (os_state spec))),
      (''Revision'', JInt (int (os_revision spec))),
      (''FilledQuantity'', JInt (os_filled spec)),
      (''BrokerOrderID'', JStr (os_broker_order spec)),
      (''CreatedAt'', JStr (rfc3339_nano (os_created_at spec))),
      (''UpdatedAt'', JStr (rfc3339_nano (os_updated_at spec)))])"

definition newOrderValue :: "digest \<Rightarrow> digest \<Rightarrow> order_spec \<Rightarrow> order result" where
  "newOrderValue oid client spec =
     (if oid = 0 \<or> client = 0 \<or> trim_space (os_schema spec) = [] \<or> os_plan spec = 0 \<or>
         ol_id (os_leg spec) = 0 \<or> OrderState_Validate (os_state spec) \<noteq> Inr () \<or> os_revision spec = 0 \<or>
         os_filled spec < 0 \<or> os_filled spec > ol_quantity (os_leg spec) \<or> os_created_at spec = 0 \<or>
         os_updated_at spec < os_created_at spec \<or>
         (os_state spec = OrderFilled \<and> os_filled spec \<noteq> ol_quantity (os_leg spec)) \<or>
         (os_state spec = OrderPartiallyFilled \<and>
            (os_filled spec = 0 \<or> os_filled spec = ol_quantity (os_leg spec)))
      then Inl (Execution ErrInvalidOrder)
      else let spec = spec\<lparr>os_broker_order := trim_space (os_broker_order spec)\<rparr> in
        Inr \<lparr>ord_id = oid, ord_client = client, ord_spec = spec,
             ord_raw = canonicalOrder oid client spec\<rparr>)"

definition NewOrder ::
  "(string \<Rightarrow> digest) \<Rightarrow> order_plan \<Rightarrow> digest \<Rightarrow> instant \<Rightarrow> order result" where
  "NewOrder sha plan legID createdAt =
     (if op_id plan = 0 \<or> legID = 0 \<or> createdAt = 0 then Inl (Execution ErrInvalidOrder)
      else case find (\<lambda>leg. ol_id leg = legID) (op_legs plan) of
        None \<Rightarrow> Inl (Execution ErrInvalidOrder)
      | Some selected \<Rightarrow>
          let oid = derive sha ''order-id/v1'' [digest_string (op_id plan), digest_string legID];
              clientID = derive sha ''client-order-id/v1'' [digest_string oid, ''submission-contract/v1'']
          in newOrderValue oid clientID
               \<lparr>os_schema = ''order/v1'', os_plan = op_id plan, os_leg = selected,
                os_state = OrderCreated, os_revision = 1, os_filled = 0, os_broker_order = [],
                os_created_at = createdAt, os_updated_at = createdAt\<rparr>)"

section \<open>Execution reports and fills\<close>

record execution_report_spec =
  ers_schema :: string
  ers_source :: string
  ers_source_event :: string
  ers_order :: digest
  ers_client :: digest
  ers_broker_order :: string
  ers_type :: report_type
  ers_reason :: transition_reason
  ers_cumulative :: int
  ers_occurred_at :: instant
  ers_received_at :: instant

record execution_report =
  er_id :: digest
  er_spec :: execution_report_spec
  er_raw :: string

definition canonicalReport :: "digest \<Rightarrow> execution_report_spec \<Rightarrow> string" where
  "canonicalReport rid spec = marshal (JObj
     [(''SchemaVersion'', JStr (ers_schema spec)),
      (''ID'', JStr (digest_string rid)),
      (''Source'', JStr (ers_source spec)),
      (''SourceEventID'', JStr (ers_source_event spec)),
      (''OrderID'', JStr (digest_string (ers_order spec))),
      (''ClientOrderID'', JStr (digest_string (ers_client spec))),
      (''BrokerOrderID'', JStr (ers_broker_order spec)),
      (''Type'', JStr (report_type_string (ers_type spec))),
      (''Reason'', JStr (reason_string (ers_reason spec))),
      (''CumulativeFilled'', JInt (ers_cumulative spec)),
      (''OccurredAt'', JStr (rfc3339_nano (ers_occurred_at spec))),
      (''ReceivedAt'', JStr (rfc3339_nano (ers_received_at spec)))])"

definition NewExecutionReport ::
  "(string \<Rightarrow> digest) \<Rightarrow> execution_report_spec \<Rightarrow> execution_report result" where
  "NewExecutionReport sha spec0 =
     (let spec = spec0\<lparr>ers_schema := trim_space (ers_schema spec0),
            ers_source := trim_space (ers_source spec0),
            ers_source_event := trim_space (ers_source_event spec0)\<rparr> in
      if ers_schema spec = [] \<or> ers_source spec = [] \<or> ers_source_event spec = [] \<or>
         ers_order spec = 0 \<or> ers_client spec = 0 \<or> ers_cumulative spec < 0 \<or>
         ers_occurred_at spec = 0 \<or> ers_received_at spec = 0
      then Inl (Execution ErrInvalidOrder)
      else if reportTarget (ers_type spec) = None \<or> \<not> validTransitionReason (ers_reason spec) \<or>
              expectedReason (ers_type spec) \<noteq> ers_reason spec
      then Inl (Execution ErrInvalidOrder)
      else bind_r (NewExecutionReportID sha (ers_source spec) (ers_source_event spec)) (\<lambda>rid.
        let spec = spec\<lparr>ers_broker_order := trim_space (ers_broker_order spec)\<rparr> in
        Inr \<lparr>er_id = rid, er_spec = spec, er_raw = canonicalReport rid spec\<rparr>))"

record fill_spec =
  fs_schema :: string
  fs_source :: string
  fs_source_execution :: string
  fs_order :: digest
  fs_report :: digest
  fs_quantity :: quantity
  fs_price :: price
  fs_occurred_at :: instant

record fill =
  fl_id :: digest
  fl_spec :: fill_spec
  fl_raw :: string

definition canonicalFill :: "digest \<Rightarrow> fill_spec \<Rightarrow> string" where
  "canonicalFill fid spec = marshal (JObj
     [(''SchemaVersion'', JStr (fs_schema spec)),
      (''ID'', JStr (digest_string fid)),
      (''Source'', JStr (fs_source spec)),
      (''SourceExecutionID'', JStr (fs_source_execution spec)),
      (''OrderID'', JStr (digest_string (fs_order spec))),
      (''ReportID'', JStr (digest_string (fs_report spec))),
      (''Quantity'', JInt (fs_quantity spec)),
      (''PriceMinor'', JInt (price_minor (fs_price spec))),
      (''Currency'', JStr (price_currency (fs_price spec))),
      (''OccurredAt'', JStr (rfc3339_nano (fs_occurred_at spec)))])"

definition NewFill :: "(string \<Rightarrow> digest) \<Rightarrow> fill_spec \<Rightarrow> fill result" where
  "NewFill sha spec0 =
     (let spec = spec0\<lparr>fs_schema := trim_space (fs_schema spec0), fs_source := trim_space (fs_source spec0),
            fs_source_execution := trim_space (fs_source_execution spec0)\<rparr> in
      if fs_schema spec = [] \<or> fs_source spec = [] \<or> fs_source_execution spec = [] \<or> fs_order spec = 0 \<or>
         fs_report spec = 0 \<or> \<not> quantity_is_valid (fs_quantity spec) \<or> price_is_zero_value (fs_price spec) \<or>
         fs_occurred_at spec = 0
      then Inl (Execution ErrInvalidOrder)
      else bind_r (NewFillID sha (fs_source spec) (fs_source_execution spec)) (\<lambda>fid.
        Inr \<lparr>fl_id = fid, fl_spec = spec, fl_raw = canonicalFill fid spec\<rparr>))"

section \<open>Applying a report\<close>

text \<open>The fill checks of \<open>ApplyExecutionReport\<close> once the target state is known.\<close>

definition check_fill :: "order \<Rightarrow> execution_report \<Rightarrow> fill option \<Rightarrow> order_state \<Rightarrow> unit result" where
  "check_fill current report fopt target =
     (let filled = os_filled (ord_spec current); cumulative = ers_cumulative (er_spec report);
          quantity = ol_quantity (os_leg (ord_spec current));
          fillQuantity = (case fopt of None \<Rightarrow> 0 | Some f \<Rightarrow> fs_quantity (fl_spec f)) in
      if target = OrderPartiallyFilled \<or> target = OrderFilled then
        if fopt = None \<or> fillQuantity > max_i64 - filled \<or> wrap64 (filled + fillQuantity) \<noteq> cumulative
        then Inl (Execution ErrNonMonotonicFill)
        else if target = OrderPartiallyFilled \<and> cumulative = quantity
        then Inl (Execution ErrInvalidTransition)
        else if target = OrderFilled \<and> cumulative \<noteq> quantity
        then Inl (Execution ErrInvalidTransition)
        else Inr ()
      else if fopt \<noteq> None \<or> cumulative \<noteq> filled then Inl (Execution ErrNonMonotonicFill)
      else Inr ())"

definition ApplyExecutionReport :: "order \<Rightarrow> execution_report \<Rightarrow> fill option \<Rightarrow> order result" where
  "ApplyExecutionReport current report fopt =
     (let cspec = ord_spec current; rspec = er_spec report in
      if ord_id current = 0 \<or> er_id report = 0 \<or> ers_order rspec \<noteq> ord_id current \<or>
         ers_client rspec \<noteq> ord_client current
      then Inl (Execution ErrReportOrderMismatch)
      else if ers_cumulative rspec < os_filled cspec then Inl (Execution ErrNonMonotonicFill)
      else if ers_cumulative rspec > ol_quantity (os_leg cspec) then Inl (Execution ErrOverfill)
      else case reportTarget (ers_type rspec) of
        None \<Rightarrow> Inl (Execution ErrInvalidTransition)
      | Some target \<Rightarrow>
          if (case fopt of None \<Rightarrow> False | Some f \<Rightarrow>
                fs_order (fl_spec f) \<noteq> ord_id current \<or> fs_report (fl_spec f) \<noteq> er_id report \<or>
                price_currency (fs_price (fl_spec f)) \<noteq> price_currency (ol_limit_price (os_leg cspec)))
          then Inl (Execution ErrReportOrderMismatch)
          else bind_r (check_fill current report fopt target) (\<lambda>_.
            if \<not> legalTransition (os_state cspec) target \<and> \<not> staleTransition (os_state cspec) target
            then Inl (Execution ErrInvalidTransition)
            else
              let state = (if legalTransition (os_state cspec) target then target else os_state cspec);
                  updated = (if ers_received_at rspec > os_updated_at cspec then ers_received_at rspec
                             else os_updated_at cspec);
                  next = cspec\<lparr>os_state := state, os_revision := wrap_u64 (os_revision cspec + 1),
                           os_filled := ers_cumulative rspec, os_updated_at := updated\<rparr> in
              if ers_broker_order rspec \<noteq> [] \<and> os_broker_order next \<noteq> [] \<and>
                 os_broker_order next \<noteq> ers_broker_order rspec
              then Inl (Execution ErrReportOrderMismatch)
              else newOrderValue (ord_id current) (ord_client current)
                     (if ers_broker_order rspec \<noteq> []
                      then next\<lparr>os_broker_order := ers_broker_order rspec\<rparr> else next)))"

section \<open>One report\<close>

abbreviation state_of :: "order \<Rightarrow> order_state" where
  "state_of ord \<equiv> os_state (ord_spec ord)"

abbreviation filled_of :: "order \<Rightarrow> int" where
  "filled_of ord \<equiv> os_filled (ord_spec ord)"

abbreviation leg_of :: "order \<Rightarrow> order_leg" where
  "leg_of ord \<equiv> os_leg (ord_spec ord)"

abbreviation quantity_of :: "order \<Rightarrow> int" where
  "quantity_of ord \<equiv> ol_quantity (os_leg (ord_spec ord))"

abbreviation revision_of :: "order \<Rightarrow> nat" where
  "revision_of ord \<equiv> os_revision (ord_spec ord)"

definition fill_quantity :: "fill option \<Rightarrow> int" where
  "fill_quantity f = (case f of None \<Rightarrow> 0 | Some f \<Rightarrow> fs_quantity (fl_spec f))"

lemma fill_quantity_simps [simp]:
  "fill_quantity None = 0" "fill_quantity (Some f) = fs_quantity (fl_spec f)"
  by (simp_all add: fill_quantity_def)

text \<open>The invariant of an order value: what \<open>newOrderValue\<close> checks, with fields of machine width.\<close>

definition order_wf :: "order \<Rightarrow> bool" where
  "order_wf ord \<longleftrightarrow>
     ord_id ord \<noteq> 0 \<and> ord_client ord \<noteq> 0 \<and> ol_id (leg_of ord) \<noteq> 0 \<and>
     OrderState_Validate (state_of ord) = Inr () \<and> 0 < revision_of ord \<and> revision_of ord \<le> max_u64 \<and>
     0 \<le> filled_of ord \<and> filled_of ord \<le> quantity_of ord \<and> in_i64 (quantity_of ord) \<and>
     os_created_at (ord_spec ord) \<le> os_updated_at (ord_spec ord) \<and>
     (state_of ord = OrderFilled \<longrightarrow> filled_of ord = quantity_of ord) \<and>
     (state_of ord = OrderPartiallyFilled \<longrightarrow> 0 < filled_of ord \<and> filled_of ord < quantity_of ord)"

text \<open>What a step may do to the state: a legal move, or a stale report that leaves it.\<close>

definition state_move :: "order_state \<Rightarrow> order_state \<Rightarrow> bool" where
  "state_move s t \<longleftrightarrow> legalTransition s t \<or> t = s"

lemma newOrderValue_Inr:
  "newOrderValue oid client spec = Inr ord \<Longrightarrow>
     ord_id ord = oid \<and> ord_client ord = client \<and>
     ord_spec ord = spec\<lparr>os_broker_order := trim_space (os_broker_order spec)\<rparr> \<and>
     oid \<noteq> 0 \<and> client \<noteq> 0 \<and> ol_id (os_leg spec) \<noteq> 0 \<and> OrderState_Validate (os_state spec) = Inr () \<and>
     os_revision spec \<noteq> 0 \<and> 0 \<le> os_filled spec \<and> os_filled spec \<le> ol_quantity (os_leg spec) \<and>
     os_created_at spec \<le> os_updated_at spec \<and>
     (os_state spec = OrderFilled \<longrightarrow> os_filled spec = ol_quantity (os_leg spec)) \<and>
     (os_state spec = OrderPartiallyFilled \<longrightarrow>
        os_filled spec \<noteq> 0 \<and> os_filled spec \<noteq> ol_quantity (os_leg spec)) \<and>
     ord_raw ord = canonicalOrder oid client (ord_spec ord)"
  by (auto simp: newOrderValue_def Let_def split: if_splits)

lemma newOrderValue_wf:
  assumes "newOrderValue oid client spec = Inr ord" "in_i64 (ol_quantity (os_leg spec))"
    "os_revision spec \<le> max_u64"
  shows "order_wf ord"
  using newOrderValue_Inr [OF assms(1)] assms(2,3) by (auto simp: order_wf_def)

subsection \<open>Canonical bytes determine the order\<close>

lemma plain_order_state: "OrderState_Validate s = Inr () \<Longrightarrow> plain (order_state_string s)"
  by (cases s; simp add: OrderState_Validate_def order_state_string_def; code_simp)

lemma order_state_string_inject:
  "OrderState_Validate s = Inr () \<Longrightarrow> OrderState_Validate t = Inr () \<Longrightarrow>
     order_state_string s = order_state_string t \<Longrightarrow> s = t"
  by (cases s; cases t; simp add: OrderState_Validate_def order_state_string_def)

lemma canonicalOrder_determines:
  assumes "canonicalOrder oid client spec = canonicalOrder oid' client' spec'"
    "OrderState_Validate (os_state spec) = Inr ()" "OrderState_Validate (os_state spec') = Inr ()"
  shows "oid = oid'" "client = client'" "os_plan spec = os_plan spec'"
    "ol_id (os_leg spec) = ol_id (os_leg spec')"
    "ol_instrument (os_leg spec) = ol_instrument (os_leg spec')"
    "ol_quantity (os_leg spec) = ol_quantity (os_leg spec')"
    "price_minor (ol_limit_price (os_leg spec)) = price_minor (ol_limit_price (os_leg spec'))"
    "os_state spec = os_state spec'" "os_revision spec = os_revision spec'"
    "os_filled spec = os_filled spec'"
proof -
  note eq = object_inject [OF assms(1) [unfolded canonicalOrder_def]]
  have "json_string (order_state_string (os_state spec)) = json_string (order_state_string (os_state spec'))"
    and rest: "oid = oid' \<and> client = client' \<and> os_plan spec = os_plan spec' \<and>
      ol_id (os_leg spec) = ol_id (os_leg spec') \<and> ol_instrument (os_leg spec) = ol_instrument (os_leg spec') \<and>
      ol_quantity (os_leg spec) = ol_quantity (os_leg spec') \<and>
      price_minor (ol_limit_price (os_leg spec)) = price_minor (ol_limit_price (os_leg spec')) \<and>
      os_revision spec = os_revision spec' \<and> os_filled spec = os_filled spec'"
    using eq by (simp_all add: same_fields_def marshal_JStr_plain dec_int_inject)
  then show "os_state spec = os_state spec'"
    using assms(2,3) by (simp add: marshal_JStr_plain plain_order_state order_state_string_inject)
  show "oid = oid'" "client = client'" "os_plan spec = os_plan spec'"
    "ol_id (os_leg spec) = ol_id (os_leg spec')"
    "ol_instrument (os_leg spec) = ol_instrument (os_leg spec')"
    "ol_quantity (os_leg spec) = ol_quantity (os_leg spec')"
    "price_minor (ol_limit_price (os_leg spec)) = price_minor (ol_limit_price (os_leg spec'))"
    "os_revision spec = os_revision spec'" "os_filled spec = os_filled spec'"
    using rest by simp_all
qed

lemma NewOrder_Inr:
  assumes "NewOrder sha plan legID at = Inr ord"
  shows "state_of ord = OrderCreated \<and> revision_of ord = 1 \<and> filled_of ord = 0 \<and> leg_of ord \<in> set (op_legs plan) \<and>
     ol_id (leg_of ord) = legID \<and> os_plan (ord_spec ord) = op_id plan"
proof -
  from assms obtain leg where
    "find (\<lambda>leg. ol_id leg = legID) (op_legs plan) = Some leg"
    "newOrderValue (derive sha ''order-id/v1'' [digest_string (op_id plan), digest_string legID])
       (derive sha ''client-order-id/v1''
          [digest_string (derive sha ''order-id/v1'' [digest_string (op_id plan), digest_string legID]),
           ''submission-contract/v1''])
       \<lparr>os_schema = ''order/v1'', os_plan = op_id plan, os_leg = leg, os_state = OrderCreated,
        os_revision = 1, os_filled = 0, os_broker_order = [], os_created_at = at, os_updated_at = at\<rparr> = Inr ord"
    by (auto simp: NewOrder_def Let_def split: if_splits option.splits)
  then show ?thesis by (auto dest!: newOrderValue_Inr simp: find_Some_iff)
qed

lemma check_fill_Inr:
  assumes "check_fill ord r f t = Inr ()" "order_wf ord" "in_i64 (fill_quantity f)"
  shows "ers_cumulative (er_spec r) = filled_of ord + fill_quantity f \<and>
    (t = OrderFilled \<longrightarrow> ers_cumulative (er_spec r) = quantity_of ord) \<and>
    (t = OrderPartiallyFilled \<longrightarrow> ers_cumulative (er_spec r) \<noteq> quantity_of ord) \<and>
    (t \<noteq> OrderFilled \<and> t \<noteq> OrderPartiallyFilled \<longrightarrow> f = None) \<and>
    (t = OrderFilled \<or> t = OrderPartiallyFilled \<longrightarrow> f \<noteq> None)"
proof -
  have "in_i64 (filled_of ord + fill_quantity f)" if "fill_quantity f \<le> max_i64 - filled_of ord"
    using assms(2,3) that by (auto simp: order_wf_def i64_defs)
  with assms(1) show ?thesis
    by (auto simp: check_fill_def Let_def fill_quantity_def split: if_splits option.splits)
qed

lemma ApplyExecutionReport_cases:
  assumes "ApplyExecutionReport ord r f = Inr ord'"
  obtains target where
    "reportTarget (ers_type (er_spec r)) = Some target"
    and "check_fill ord r f target = Inr ()"
    and "legalTransition (state_of ord) target \<or> staleTransition (state_of ord) target"
    and "ers_order (er_spec r) = ord_id ord" "ers_client (er_spec r) = ord_client ord"
    and "filled_of ord \<le> ers_cumulative (er_spec r)" "ers_cumulative (er_spec r) \<le> quantity_of ord"
    and "ord_id ord' = ord_id ord" "ord_client ord' = ord_client ord" "leg_of ord' = leg_of ord"
    and "os_plan (ord_spec ord') = os_plan (ord_spec ord)"
    and "os_created_at (ord_spec ord') = os_created_at (ord_spec ord)"
    and "state_of ord' = (if legalTransition (state_of ord) target then target else state_of ord)"
    and "revision_of ord' = wrap_u64 (revision_of ord + 1)" "revision_of ord' \<noteq> 0"
    and "filled_of ord' = ers_cumulative (er_spec r)"
    and "os_updated_at (ord_spec ord') = max (os_updated_at (ord_spec ord)) (ers_received_at (er_spec r))"
    and "in_i64 (quantity_of ord) \<Longrightarrow> order_wf ord'"
proof -
  from assms obtain target where t:
    "reportTarget (ers_type (er_spec r)) = Some target" "check_fill ord r f target = Inr ()"
    "legalTransition (state_of ord) target \<or> staleTransition (state_of ord) target"
    "ers_order (er_spec r) = ord_id ord" "ers_client (er_spec r) = ord_client ord"
    "filled_of ord \<le> ers_cumulative (er_spec r)" "ers_cumulative (er_spec r) \<le> quantity_of ord"
    and v: "newOrderValue (ord_id ord) (ord_client ord)
      ((ord_spec ord)\<lparr>os_state := (if legalTransition (state_of ord) target then target else state_of ord),
         os_revision := wrap_u64 (revision_of ord + 1), os_filled := ers_cumulative (er_spec r),
         os_updated_at := max (os_updated_at (ord_spec ord)) (ers_received_at (er_spec r)),
         os_broker_order := (if ers_broker_order (er_spec r) \<noteq> [] then ers_broker_order (er_spec r)
            else os_broker_order (ord_spec ord))\<rparr>) = Inr ord'"
    by (auto simp: ApplyExecutionReport_def Let_def max_def not_less
        split: option.splits if_splits)
  from newOrderValue_Inr [OF v] newOrderValue_wf [OF v] t show ?thesis
    by (intro that [of target]) auto
qed

section \<open>Runs of accepted reports\<close>

text \<open>
  One accepted report. The fill's quantity is an int64, as every Go value of its type is.
\<close>

inductive order_step :: "order \<Rightarrow> order \<Rightarrow> bool" where
  accepted: "ApplyExecutionReport ord r f = Inr ord' \<Longrightarrow> in_i64 (fill_quantity f) \<Longrightarrow> order_step ord ord'"

inductive_cases order_stepE [elim]: "order_step ord ord'"

lemma ApplyExecutionReport_conserves:
  assumes "ApplyExecutionReport ord r f = Inr ord'" "order_wf ord" "in_i64 (fill_quantity f)"
  shows "filled_of ord' = filled_of ord + fill_quantity f \<and> 0 \<le> fill_quantity f"
proof -
  from assms(1) obtain t where "check_fill ord r f t = Inr ()"
    "filled_of ord' = ers_cumulative (er_spec r)" "filled_of ord \<le> ers_cumulative (er_spec r)"
    by (rule ApplyExecutionReport_cases)
  with check_fill_Inr assms(2,3) show ?thesis by fastforce
qed

lemma ApplyExecutionReport_wf:
  assumes "ApplyExecutionReport ord r f = Inr ord'" "order_wf ord"
  shows "order_wf ord' \<and> revision_of ord' = Suc (revision_of ord)"
proof -
  from assms(1) have "in_i64 (quantity_of ord) \<Longrightarrow> order_wf ord'"
    "revision_of ord' = wrap_u64 (revision_of ord + 1)" "revision_of ord' \<noteq> 0"
    by (rule ApplyExecutionReport_cases; simp)+
  with assms(2) show ?thesis by (auto simp: order_wf_def wrap_u64_Suc split: if_splits)
qed

text \<open>Identity, leg and plan never change; filled quantity, revision and time never go back.\<close>

definition order_extends :: "order \<Rightarrow> order \<Rightarrow> bool" where
  "order_extends ord ord' \<longleftrightarrow>
     ord_id ord' = ord_id ord \<and> ord_client ord' = ord_client ord \<and> leg_of ord' = leg_of ord \<and>
     os_plan (ord_spec ord') = os_plan (ord_spec ord) \<and>
     filled_of ord \<le> filled_of ord' \<and> revision_of ord \<le> revision_of ord' \<and>
     os_updated_at (ord_spec ord) \<le> os_updated_at (ord_spec ord')"

lemma ApplyExecutionReport_extends:
  assumes "ApplyExecutionReport ord r f = Inr ord'" "order_wf ord"
  shows "order_extends ord ord'"
  using assms(1)
proof (rule ApplyExecutionReport_cases)
  have "revision_of ord' = Suc (revision_of ord)" using ApplyExecutionReport_wf [OF assms] by simp
  then show "order_extends ord ord'"
    if "ord_id ord' = ord_id ord" "ord_client ord' = ord_client ord" "leg_of ord' = leg_of ord"
      "os_plan (ord_spec ord') = os_plan (ord_spec ord)" "filled_of ord' = ers_cumulative (er_spec r)"
      "filled_of ord \<le> ers_cumulative (er_spec r)"
      "os_updated_at (ord_spec ord') = max (os_updated_at (ord_spec ord)) (ers_received_at (er_spec r))"
    using that by (simp add: order_extends_def)
qed

interpretation order_run: step_monotone order_step order_wf order_extends
proof unfold_locales
  show "order_wf s \<Longrightarrow> order_step s t \<Longrightarrow> order_wf t" for s t
    by (auto dest: ApplyExecutionReport_wf)
  show "order_extends s s" for s by (simp add: order_extends_def)
  show "order_extends s t \<Longrightarrow> order_extends t u \<Longrightarrow> order_extends s u" for s t u
    by (auto simp: order_extends_def)
  show "order_wf s \<Longrightarrow> order_step s t \<Longrightarrow> order_extends s t" for s t
    by (auto dest: ApplyExecutionReport_extends)
qed

subsection \<open>State and filled quantity agree\<close>

definition unsubmitted :: "order_state set" where
  "unsubmitted = {OrderCreated, OrderPlanned, OrderExpired, OrderFailed}"

definition order_consistent :: "order \<Rightarrow> bool" where
  "order_consistent ord \<longleftrightarrow> order_wf ord \<and> 0 < quantity_of ord \<and>
     (state_of ord \<in> unsubmitted \<longrightarrow> filled_of ord = 0) \<and>
     (filled_of ord = quantity_of ord \<longleftrightarrow> state_of ord = OrderFilled)"

text \<open>The transition table, read off once.\<close>

lemma legal_into_unsubmitted:
  "legalTransition s t \<Longrightarrow> t \<in> unsubmitted \<Longrightarrow> s \<in> unsubmitted"
  by (cases s) (auto simp: legalTransition_def unsubmitted_def)

lemma legal_from:
  "legalTransition s t \<Longrightarrow> s \<notin> {OrderFilled, OrderRejected, OrderExpired, OrderFailed}"
  by (cases s) (auto simp: legalTransition_def)

lemma legal_from_cancelled:
  "legalTransition OrderCancelled t \<longleftrightarrow> t = OrderPartiallyFilled \<or> t = OrderFilled"
  by (auto simp: legalTransition_def)

lemma stale_not_fill: "staleTransition s t \<Longrightarrow> t \<noteq> OrderPartiallyFilled \<and> t \<noteq> OrderFilled"
  by (auto simp: staleTransition_def split: if_splits)

lemma ApplyExecutionReport_state:
  assumes "ApplyExecutionReport ord r f = Inr ord'" "order_wf ord" "in_i64 (fill_quantity f)"
  obtains (legal) t where "legalTransition (state_of ord) t" "state_of ord' = t"
      "reportTarget (ers_type (er_spec r)) = Some t"
      "t = OrderFilled \<longrightarrow> filled_of ord' = quantity_of ord"
      "t = OrderPartiallyFilled \<longrightarrow> filled_of ord' \<noteq> quantity_of ord"
      "t \<noteq> OrderFilled \<and> t \<noteq> OrderPartiallyFilled \<longrightarrow> filled_of ord' = filled_of ord"
    | (stale) "state_of ord' = state_of ord" "filled_of ord' = filled_of ord" "f = None"
  using assms(1)
proof (rule ApplyExecutionReport_cases)
  fix t
  assume t: "reportTarget (ers_type (er_spec r)) = Some t" "check_fill ord r f t = Inr ()"
    "legalTransition (state_of ord) t \<or> staleTransition (state_of ord) t"
    "state_of ord' = (if legalTransition (state_of ord) t then t else state_of ord)"
    "filled_of ord' = ers_cumulative (er_spec r)"
  note cf = check_fill_Inr [OF t(2) assms(2,3)]
  show thesis
  proof (cases "legalTransition (state_of ord) t")
    case True
    with t cf show thesis by (intro legal [of t]) auto
  next
    case False
    with t(3) have "t \<noteq> OrderPartiallyFilled \<and> t \<noteq> OrderFilled" by (blast dest: stale_not_fill)
    with False t cf show thesis by (intro stale) auto
  qed
qed

lemma ApplyExecutionReport_consistent:
  assumes "ApplyExecutionReport ord r f = Inr ord'" "order_consistent ord" "in_i64 (fill_quantity f)"
  shows "order_consistent ord'"
proof -
  have wf: "order_wf ord" using assms(2) by (simp add: order_consistent_def)
  have wf': "order_wf ord'" and leg: "leg_of ord' = leg_of ord"
    using ApplyExecutionReport_wf [OF assms(1) wf] ApplyExecutionReport_extends [OF assms(1) wf]
    by (auto simp: order_extends_def)
  from assms(1) wf assms(3) show ?thesis
  proof (cases rule: ApplyExecutionReport_state)
    case (legal t)
    have "state_of ord \<noteq> OrderFilled" using legal(1) by (auto dest: legal_from)
    moreover have "t \<in> unsubmitted \<Longrightarrow> state_of ord \<in> unsubmitted"
      using legal(1) by (rule legal_into_unsubmitted)
    ultimately show ?thesis
      using legal wf' leg assms(2) by (auto simp: order_consistent_def unsubmitted_def)
  next
    case stale
    with wf' leg assms(2) show ?thesis by (auto simp: order_consistent_def)
  qed
qed

interpretation order_state_run: step_invariant order_step order_consistent
  by unfold_locales (auto dest: ApplyExecutionReport_consistent)

subsection \<open>States that are never left\<close>

definition settled :: "order_state \<Rightarrow> bool" where
  "settled s \<longleftrightarrow> s \<in> {OrderFilled, OrderRejected, OrderExpired, OrderFailed}"

text \<open>Once settled, an order keeps its state and its filled quantity.\<close>

definition settled_as :: "order \<Rightarrow> order \<Rightarrow> bool" where
  "settled_as ord0 ord \<longleftrightarrow> order_wf ord \<and> settled (state_of ord0) \<and> state_of ord = state_of ord0 \<and>
     filled_of ord = filled_of ord0"

interpretation settled_run: step_invariant order_step "settled_as ord0" for ord0
proof unfold_locales
  fix s t
  assume s: "settled_as ord0 s" and "order_step s t"
  then obtain r f where a: "ApplyExecutionReport s r f = Inr t" "in_i64 (fill_quantity f)" by auto
  have wf: "order_wf s" using s by (simp add: settled_as_def)
  from a(1) wf a(2) show "settled_as ord0 t"
  proof (cases rule: ApplyExecutionReport_state)
    case (legal u)
    with s show ?thesis by (auto simp: settled_as_def settled_def dest: legal_from)
  next
    case stale
    with s ApplyExecutionReport_wf [OF a(1) wf] show ?thesis by (simp add: settled_as_def)
  qed
qed

subsection \<open>Submitted orders are never declared unsubmitted\<close>

definition submitted_wf :: "order \<Rightarrow> bool" where
  "submitted_wf ord \<longleftrightarrow> order_wf ord \<and> state_of ord \<notin> unsubmitted"

interpretation submitted_run: step_invariant order_step submitted_wf
proof unfold_locales
  fix s t
  assume s: "submitted_wf s" and "order_step s t"
  then obtain r f where a: "ApplyExecutionReport s r f = Inr t" "in_i64 (fill_quantity f)" by auto
  have wf: "order_wf s" using s by (simp add: submitted_wf_def)
  from a(1) wf a(2) show "submitted_wf t"
    by (cases rule: ApplyExecutionReport_state)
      (use s ApplyExecutionReport_wf [OF a(1) wf] in
        \<open>auto simp: submitted_wf_def dest: legal_into_unsubmitted\<close>)
qed

end
