(* ===== verification/Gomap.thy ===== *)
theory Gomap
  imports Errors "HOL-Library.AList" "HOL-Library.Product_Lexorder"
    "HOL-Library.Multiset"
begin

text \<open>
  Go's built-in maps as association lists with distinct keys: assignment, lookup with the zero value
  of a missing key, \<open>len\<close>, and the copy of one map into another. Iteration order is the list order,
  which no theorem fixes: where the code sorts what it collected from a map, \<open>sort_distinct_keys\<close>
  shows that the result depends only on the contents.
\<close>

type_synonym ('k, 'v) gomap = "('k \<times> 'v) list"

definition put :: "'k \<Rightarrow> 'v \<Rightarrow> ('k, 'v) gomap \<Rightarrow> ('k, 'v) gomap" where
  "put = AList.update"

definition get_or :: "'v \<Rightarrow> ('k, 'v) gomap \<Rightarrow> 'k \<Rightarrow> 'v" where
  "get_or zero m k = (case map_of m k of None \<Rightarrow> zero | Some v \<Rightarrow> v)"

definition has :: "('k, 'v) gomap \<Rightarrow> 'k \<Rightarrow> bool" where
  "has m k \<longleftrightarrow> map_of m k \<noteq> None"

definition put_all :: "('k, 'v) gomap \<Rightarrow> ('k, 'v) gomap \<Rightarrow> ('k, 'v) gomap" where
  "put_all src m = fold (\<lambda>(k, v). put k v) src m"

definition gomap_wf :: "('k, 'v) gomap \<Rightarrow> bool" where
  "gomap_wf m \<longleftrightarrow> distinct (map fst m)"

lemma gomap_wf_Nil [simp]: "gomap_wf []"
  by (simp add: gomap_wf_def)

lemma gomap_wf_put [simp]: "gomap_wf m \<Longrightarrow> gomap_wf (put k v m)"
  by (simp add: gomap_wf_def put_def distinct_update)

lemma map_of_put [simp]: "map_of (put k v m) = (map_of m)(k \<mapsto> v)"
  by (simp add: put_def update_conv')

lemma get_or_simps [simp]:
  "map_of m k = Some v \<Longrightarrow> get_or z m k = v"
  "map_of m k = None \<Longrightarrow> get_or z m k = z"
  by (simp_all add: get_or_def)

lemma get_or_put [simp]: "get_or z (put k v m) k' = (if k' = k then v else get_or z m k')"
  by (simp add: get_or_def)

lemma has_put [simp]: "has (put k v m) k' \<longleftrightarrow> k' = k \<or> has m k'"
  by (simp add: has_def)

lemma has_list [simp]: "\<not> has [] k" "has ((k, v) # m) k' \<longleftrightarrow> k' = k \<or> has m k'"
  by (simp_all add: has_def)

lemma has_iff: "has m k \<longleftrightarrow> (\<exists>v. map_of m k = Some v)"
  by (simp add: has_def)

text \<open>A key that is not yet there is appended.\<close>

lemma put_fresh: "\<not> has m k \<Longrightarrow> put k v m = m @ [(k, v)]"
  by (induction m) (auto simp: has_def put_def split: if_splits)

lemma length_put: "length (put k v m) = (if has m k then length m else Suc (length m))"
  by (induction m) (auto simp: has_def put_def)

lemma put_all_simps [simp]:
  "put_all [] m = m"
  "put_all ((k, v) # src) m = put_all src (put k v m)"
  by (simp_all add: put_all_def)

lemma gomap_wf_put_all [simp]: "gomap_wf m \<Longrightarrow> gomap_wf (put_all src m)"
  by (induction src arbitrary: m) auto

lemma has_put_all: "has (put_all src m) k \<longleftrightarrow> has src k \<or> has m k"
  by (induction src arbitrary: m) auto

lemma map_of_put_all:
  "gomap_wf src \<Longrightarrow> map_of (put_all src m) k = (case map_of src k of None \<Rightarrow> map_of m k | Some v \<Rightarrow> Some v)"
proof (induction src arbitrary: m)
  case (Cons a src)
  obtain k0 v0 where a: "a = (k0, v0)" by (cases a)
  from Cons.prems a have "map_of src k0 = None" "gomap_wf src"
    by (auto simp: gomap_wf_def map_of_eq_None_iff)
  with Cons.IH [of "put k0 v0 m"] a show ?case by (auto split: option.splits)
qed simp

lemma put_all_fresh:
  "gomap_wf src \<Longrightarrow> \<forall>k. has src k \<longrightarrow> \<not> has m k \<Longrightarrow> put_all src m = m @ src"
proof (induction src arbitrary: m)
  case (Cons a src)
  obtain k v where a: "a = (k, v)" by (cases a)
  with Cons.prems have fresh: "\<not> has m k" "\<not> has src k" "gomap_wf src"
    by (auto simp: has_def gomap_wf_def map_of_eq_None_iff)
  have "\<forall>k'. has src k' \<longrightarrow> \<not> has (put k v m) k'"
    using Cons.prems(2) fresh(2) a by (auto simp: has_def split: if_splits)
  with Cons.IH [of "put k v m"] fresh a show ?case by (simp add: put_fresh)
qed simp

text \<open>\<open>len\<close>, compared with the int limits of the stores.\<close>

definition size_of :: "('k, 'v) gomap \<Rightarrow> int" where
  "size_of m = int (length m)"

lemma size_put: "size_of (put k v m) \<le> size_of m + 1"
  by (simp add: size_of_def length_put)

lemma size_put_le: "size_of m < n \<Longrightarrow> size_of (put k v m) \<le> n"
  using size_put [of k v m] by linarith

lemma size_put_all: "size_of (put_all src m) \<le> size_of m + size_of src"
proof (induction src arbitrary: m)
  case (Cons a src)
  have "size_of (put_all (a # src) m) \<le> size_of (put (fst a) (snd a) m) + size_of src"
    using Cons [of "put (fst a) (snd a) m"] by (cases a) simp
  also have "\<dots> \<le> size_of m + size_of (a # src)"
    using size_put [of "fst a" "snd a" m] by (simp add: size_of_def)
  finally show ?case .
qed (simp add: size_of_def)

lemma size_put_all_le: "size_of m + size_of src \<le> n \<Longrightarrow> size_of (put_all src m) \<le> n"
  using size_put_all [of src m] by linarith

section \<open>Sorting what was collected from a map\<close>

lemma sort_distinct_keys:
  assumes "mset xs = mset ys" "inj_on f (set xs)"
  shows "sort_key f xs = sort_key f ys"
proof (rule properties_for_sort_key)
  show "mset (sort_key f ys) = mset xs" using assms(1) by simp
  show "sorted (map f (sort_key f ys))" by simp
  fix x assume "x \<in> set (sort_key f ys)"
  with assms(1) have "x \<in> set xs" using mset_eq_setD by fastforce
  have same: "filter (\<lambda>y. f x = f y) zs = replicate (count (mset zs) x) x" if "mset zs = mset xs" for zs
  proof -
    have "set zs = set xs" using that by (rule mset_eq_setD)
    then have "filter (\<lambda>y. f x = f y) zs = filter (\<lambda>y. y = x) zs"
      using assms(2) \<open>x \<in> set xs\<close> by (auto intro!: filter_cong simp: inj_on_def)
    moreover have "filter (\<lambda>y. y = x) zs = replicate (count (mset zs) x) x"
      by (induction zs) auto
    ultimately show ?thesis by simp
  qed
  show "filter (\<lambda>y. f x = f y) (sort_key f ys) = filter (\<lambda>y. f x = f y) xs"
    using same [of "sort_key f ys"] same [of xs] assms(1) by simp
qed

end
