(* ===== verification/Repository.thy ===== *)
theory Repository
  imports Gomap
begin

text \<open>
  The contract of a revisioned repository with optimistic concurrency, as
  \<open>internal/execution/storage\<close> and \<open>internal/accounting/storage\<close> state it for their clients: a
  publication names the entity and the revision it was computed from; it is committed only if that
  is still the current revision, and then moves it on by one; a refused publication and an idempotent
  replay change nothing; checkpoints once written stay. The lemmas are about any sequence of
  publications, in whatever order competing writers issue them. The two in-memory stores interpret
  the locale.
\<close>

text \<open>
  A context as an operation sees it: whether it is done when the operation starts, and whether it is
  done once the lock is held.
\<close>

type_synonym ctx = "bool \<times> bool"

text \<open>
  The ways out of the \<open>select\<close> of the coordinators: the semaphore was acquired, the caller's context is done,
  or the coordinator was shut down.
\<close>

datatype select_outcome = Acquired | CallerDone | RunnerDone

text \<open>A sequence of operations, each seeing the state its predecessor left.\<close>

fun run_ops :: "('p \<Rightarrow> 's \<Rightarrow> 's \<times> 'r) \<Rightarrow> 'p list \<Rightarrow> 's \<Rightarrow> 's \<times> 'r list" where
  "run_ops f [] s = (s, [])"
| "run_ops f (p # ps) s = (let (s1, r) = f p s; (s2, rs) = run_ops f ps s1 in (s2, r # rs))"

lemma length_run_ops [simp]: "length (snd (run_ops f ps s)) = length ps"
  by (induction ps arbitrary: s) (simp_all add: split_beta Let_def)

locale repository =
  fixes inv :: "'s \<Rightarrow> bool"
    and admissible :: "'p \<Rightarrow> bool"
    and head :: "'s \<Rightarrow> 'k \<Rightarrow> nat"
    and history :: "'s \<Rightarrow> 'k \<Rightarrow> nat \<Rightarrow> 'c option"
    and publish :: "'p \<Rightarrow> 's \<Rightarrow> 's \<times> 'r result"
    and key :: "'p \<Rightarrow> 'k"
    and expected :: "'p \<Rightarrow> nat"
    and committed :: "'r \<Rightarrow> bool"
  assumes inv_publish: "inv s \<Longrightarrow> admissible p \<Longrightarrow> publish p s = (s', x) \<Longrightarrow> inv s'"
    and refused: "publish p s = (s', Inl e) \<Longrightarrow> s' = s"
    and replayed: "publish p s = (s', Inr r) \<Longrightarrow> \<not> committed r \<Longrightarrow> s' = s"
    and advances: "inv s \<Longrightarrow> admissible p \<Longrightarrow> publish p s = (s', Inr r) \<Longrightarrow> committed r \<Longrightarrow>
      head s (key p) = expected p \<and> head s' (key p) = Suc (expected p)"
    and frame: "inv s \<Longrightarrow> admissible p \<Longrightarrow> publish p s = (s', x) \<Longrightarrow> k \<noteq> key p \<Longrightarrow> head s' k = head s k"
    and history_kept: "inv s \<Longrightarrow> admissible p \<Longrightarrow> publish p s = (s', x) \<Longrightarrow> history s k n = Some c \<Longrightarrow>
      history s' k n = Some c"
begin

definition commits :: "'r result \<Rightarrow> bool" where
  "commits x \<longleftrightarrow> (case x of Inl _ \<Rightarrow> False | Inr r \<Rightarrow> committed r)"

lemma not_commits: "publish p s = (s', x) \<Longrightarrow> \<not> commits x \<Longrightarrow> s' = s"
  using refused replayed by (cases x) (auto simp: commits_def)

lemma commit_step:
  "inv s \<Longrightarrow> admissible p \<Longrightarrow> publish p s = (s', x) \<Longrightarrow> commits x \<Longrightarrow>
     head s (key p) = expected p \<and> head s' (key p) = Suc (expected p)"
  using advances by (cases x) (auto simp: commits_def)

lemma head_step:
  assumes "inv s" "admissible p" "publish p s = (s', x)"
  shows "head s' k = head s k + (if key p = k \<and> commits x then 1 else 0)"
  using assms not_commits [of p s s' x] commit_step [of s p s' x] frame [of s p s' x k]
  by (cases "key p = k"; cases "commits x") auto

lemma run_Cons:
  assumes "run_ops publish (p # ps) s = (s', xs)"
  obtains s1 x ys where "publish p s = (s1, x)" "run_ops publish ps s1 = (s', ys)" "xs = x # ys"
  using assms by (auto simp: Let_def split: prod.splits)

lemma run_inv:
  "run_ops publish ps s = (s', xs) \<Longrightarrow> inv s \<Longrightarrow> \<forall>p \<in> set ps. admissible p \<Longrightarrow> inv s'"
proof (induction ps arbitrary: s xs)
  case (Cons p ps)
  then show ?case by (elim run_Cons) (auto intro: inv_publish)
qed simp

lemma run_history:
  "run_ops publish ps s = (s', xs) \<Longrightarrow> inv s \<Longrightarrow> \<forall>p \<in> set ps. admissible p \<Longrightarrow>
     history s k n = Some c \<Longrightarrow> history s' k n = Some c"
proof (induction ps arbitrary: s xs)
  case (Cons p ps)
  from Cons.prems(1) obtain s1 x ys where
    "publish p s = (s1, x)" "run_ops publish ps s1 = (s', ys)" by (rule run_Cons)
  with Cons show ?case by (auto intro: inv_publish history_kept)
qed simp

text \<open>The current revision counts the commits.\<close>

lemma run_head:
  "run_ops publish ps s = (s', xs) \<Longrightarrow> inv s \<Longrightarrow> \<forall>p \<in> set ps. admissible p \<Longrightarrow>
     head s' k = head s k + length (filter (\<lambda>(p, x). key p = k \<and> commits x) (zip ps xs))"
proof (induction ps arbitrary: s xs)
  case (Cons p ps)
  from Cons.prems(1) obtain s1 x ys where
    r: "publish p s = (s1, x)" "run_ops publish ps s1 = (s', ys)" "xs = x # ys" by (rule run_Cons)
  have "head s' k = head s1 k + length (filter (\<lambda>(p, x). key p = k \<and> commits x) (zip ps ys))"
    using Cons r by (auto intro: inv_publish)
  with head_step [of s p s1 x k] Cons.prems r show ?case by auto
qed simp

lemma run_expected_ge:
  "run_ops publish ps s = (s', xs) \<Longrightarrow> inv s \<Longrightarrow> \<forall>p \<in> set ps. admissible p \<Longrightarrow> i < length ps \<Longrightarrow>
     commits (xs ! i) \<Longrightarrow> head s (key (ps ! i)) \<le> expected (ps ! i)"
proof (induction ps arbitrary: s xs i)
  case (Cons p ps)
  from Cons.prems(1) obtain s1 x ys where
    r: "publish p s = (s1, x)" "run_ops publish ps s1 = (s', ys)" "xs = x # ys" by (rule run_Cons)
  show ?case
  proof (cases i)
    case 0
    with Cons.prems r commit_step [of s p s1 x] show ?thesis by auto
  next
    case (Suc j)
    have "head s1 (key (ps ! j)) \<le> expected (ps ! j)"
      using Cons r Suc by (auto intro: inv_publish)
    with head_step [of s p s1 x "key (ps ! j)"] Cons.prems r Suc show ?thesis by auto
  qed
qed simp

text \<open>No lost update: of the commits to one entity, the later was computed from a later revision.\<close>

lemma no_lost_update:
  "run_ops publish ps s = (s', xs) \<Longrightarrow> inv s \<Longrightarrow> \<forall>p \<in> set ps. admissible p \<Longrightarrow> i < j \<Longrightarrow> j < length ps \<Longrightarrow>
     key (ps ! i) = key (ps ! j) \<Longrightarrow> commits (xs ! i) \<Longrightarrow> commits (xs ! j) \<Longrightarrow>
     expected (ps ! i) < expected (ps ! j)"
proof (induction ps arbitrary: s xs i j)
  case (Cons p ps)
  from Cons.prems(1) obtain s1 x ys where
    r: "publish p s = (s1, x)" "run_ops publish ps s1 = (s', ys)" "xs = x # ys" by (rule run_Cons)
  have inv1: "inv s1" using Cons.prems r by (auto intro: inv_publish)
  obtain j' where j: "j = Suc j'" using Cons.prems(4) by (cases j) auto
  show ?case
  proof (cases i)
    case 0
    with Cons.prems r j have "head s1 (key (ps ! j')) = Suc (expected p)"
      using commit_step [of s p s1 x] by auto
    moreover have "head s1 (key (ps ! j')) \<le> expected (ps ! j')"
      using Cons.prems r j inv1 by (intro run_expected_ge [of ps s1 s' ys]) auto
    ultimately show ?thesis using 0 j by simp
  next
    case (Suc i')
    with Cons.IH [of s1 ys i' j'] Cons.prems r j inv1 show ?thesis by auto
  qed
qed simp

end

end
