(* ===== verification/Oms_Contracts.thy ===== *)
theory Oms_Contracts
  imports Order Repository
begin

text \<open>
  \<open>internal/execution/storage/contracts.go\<close>: order checkpoints, order publications and receipts. A
  checkpoint and a publication carry the digest of their canonical bytes; a digest that is given and
  does not match is refused.
\<close>

datatype registration_status = RegistrationCommitted | RegistrationIdempotent | NoStatus

record order_checkpoint =
  oc_order :: order
  oc_order_checksum :: digest
  oc_parent :: digest
  oc_report :: digest
  oc_fill :: digest
  oc_checksum :: digest
  oc_raw :: string

definition canonicalOrderCheckpoint :: "order_checkpoint \<Rightarrow> string" where
  "canonicalOrderCheckpoint value = marshal (JObj
     [(''Order'', JRaw (ord_raw (oc_order value))),
      (''OrderChecksum'', JStr (digest_string (oc_order_checksum value))),
      (''ParentChecksum'', JStr (digest_string (oc_parent value))),
      (''ReportID'', JStr (digest_string (oc_report value))),
      (''FillID'', JStr (digest_string (oc_fill value)))])"

definition NewOrderCheckpoint :: "(string \<Rightarrow> digest) \<Rightarrow> order_checkpoint \<Rightarrow> order_checkpoint result" where
  "NewOrderCheckpoint sha value =
     (if ord_id (oc_order value) = 0 then Inl (Oms ErrCorruptCheckpoint)
      else let orderChecksum = state_checksum sha (ord_raw (oc_order value)) in
      if oc_order_checksum value \<noteq> 0 \<and> oc_order_checksum value \<noteq> orderChecksum
      then Inl (Oms ErrCorruptCheckpoint)
      else let value = value\<lparr>oc_order_checksum := orderChecksum\<rparr>;
               genesis = (os_revision (ord_spec (oc_order value)) = 1) in
      if (if genesis then oc_parent value \<noteq> 0 \<or> oc_report value \<noteq> 0 \<or> oc_fill value \<noteq> 0
          else oc_parent value = 0 \<or> oc_report value = 0)
      then Inl (Oms ErrCorruptCheckpoint)
      else let raw = canonicalOrderCheckpoint value; checksum = state_checksum sha raw in
      if oc_checksum value \<noteq> 0 \<and> oc_checksum value \<noteq> checksum then Inl (Oms ErrCorruptCheckpoint)
      else Inr (value\<lparr>oc_checksum := checksum, oc_raw := raw\<rparr>))"

text \<open>\<open>OrderCheckpoint{Order: order}\<close>.\<close>

definition genesis_checkpoint :: "order \<Rightarrow> order_checkpoint" where
  "genesis_checkpoint ord =
     \<lparr>oc_order = ord, oc_order_checksum = 0, oc_parent = 0, oc_report = 0, oc_fill = 0,
      oc_checksum = 0, oc_raw = []\<rparr>"

record order_publication =
  pu_id :: digest
  pu_expected_revision :: nat
  pu_expected_checkpoint :: digest
  pu_report :: execution_report
  pu_fill :: "fill option"
  pu_next :: order_checkpoint
  pu_checksum :: digest
  pu_raw :: string

definition canonicalOrderPublication :: "order_publication \<Rightarrow> string" where
  "canonicalOrderPublication value = marshal (JObj
     [(''PublicationID'', JStr (digest_string (pu_id value))),
      (''ExpectedCheckpoint'', JStr (digest_string (pu_expected_checkpoint value))),
      (''ExpectedRevision'', JInt (int (pu_expected_revision value))),
      (''Report'', JRaw (er_raw (pu_report value))),
      (''Fill'', JRaw (case pu_fill value of None \<Rightarrow> ''null'' | Some f \<Rightarrow> fl_raw f)),
      (''NextCheckpoint'', JRaw (oc_raw (pu_next value)))])"

definition NewOrderPublication ::
  "(string \<Rightarrow> digest) \<Rightarrow> order_publication \<Rightarrow> order_publication result" where
  "NewOrderPublication sha value =
     (let report = pu_report value; next = pu_next value in
      if pu_id value = 0 \<or> pu_expected_revision value = 0 \<or> pu_expected_checkpoint value = 0 \<or>
         er_id report = 0 \<or> ord_id (oc_order next) = 0 \<or>
         ord_id (oc_order next) \<noteq> ers_order (er_spec report) \<or>
         os_revision (ord_spec (oc_order next)) \<noteq> wrap_u64 (pu_expected_revision value + 1) \<or>
         oc_parent next \<noteq> pu_expected_checkpoint value \<or> oc_report next \<noteq> er_id report
      then Inl (Oms ErrInvalidPublication)
      else if (case pu_fill value of
                 Some f \<Rightarrow> fs_order (fl_spec f) \<noteq> ers_order (er_spec report) \<or>
                   fs_report (fl_spec f) \<noteq> er_id report \<or> oc_fill next \<noteq> fl_id f
               | None \<Rightarrow> oc_fill next \<noteq> 0)
      then Inl (Oms ErrInvalidPublication)
      else let raw = canonicalOrderPublication value; checksum = state_checksum sha raw in
      if pu_checksum value \<noteq> 0 \<and> pu_checksum value \<noteq> checksum then Inl (Oms ErrInvalidPublication)
      else Inr (value\<lparr>pu_checksum := checksum, pu_raw := raw\<rparr>))"

record publication_receipt =
  rc_status :: registration_status
  rc_publication :: digest
  rc_order :: digest
  rc_revision :: nat
  rc_report :: digest
  rc_fill :: digest
  rc_checkpoint :: digest
  rc_checksum :: digest

definition zero_receipt :: publication_receipt where
  "zero_receipt = \<lparr>rc_status = NoStatus, rc_publication = 0, rc_order = 0, rc_revision = 0,
     rc_report = 0, rc_fill = 0, rc_checkpoint = 0, rc_checksum = 0\<rparr>"

section \<open>Zero values\<close>

definition zero_order :: order where
  "zero_order = \<lparr>ord_id = 0, ord_client = 0,
     ord_spec = \<lparr>os_schema = [], os_plan = 0,
       os_leg = \<lparr>ol_id = 0, ol_instrument = 0, ol_side = OtherSide [], ol_quantity = 0,
         ol_limit_price = zero_price, ol_protective = False, ol_depends_on = [], ol_reducing = False\<rparr>,
       os_state = OtherOrderState [], os_revision = 0, os_filled = 0, os_broker_order = [],
       os_created_at = 0, os_updated_at = 0\<rparr>,
     ord_raw = []\<rparr>"

definition zero_checkpoint :: order_checkpoint where
  "zero_checkpoint = genesis_checkpoint zero_order"

section \<open>What the constructors guarantee\<close>

text \<open>The canonical bytes do not cover the digest and the bytes themselves.\<close>

lemma canonical_bytes_own [simp]:
  "canonicalOrderCheckpoint (c\<lparr>oc_checksum := d, oc_raw := r\<rparr>) = canonicalOrderCheckpoint c"
  "canonicalOrderPublication (p\<lparr>pu_checksum := d, pu_raw := r\<rparr>) = canonicalOrderPublication p"
  by (simp_all add: canonicalOrderCheckpoint_def canonicalOrderPublication_def)

lemma NewOrderCheckpoint_Inr:
  "NewOrderCheckpoint sha value = Inr c \<Longrightarrow>
     oc_order c = oc_order value \<and> oc_parent c = oc_parent value \<and> oc_report c = oc_report value \<and>
     oc_fill c = oc_fill value \<and> ord_id (oc_order c) \<noteq> 0 \<and>
     oc_order_checksum c = state_checksum sha (ord_raw (oc_order c)) \<and>
     oc_raw c = canonicalOrderCheckpoint c \<and> oc_checksum c = state_checksum sha (oc_raw c) \<and>
     (revision_of (oc_order c) = 1 \<longleftrightarrow> oc_parent c = 0)"
  by (auto simp: NewOrderCheckpoint_def Let_def split: if_splits)

lemma NewOrderPublication_Inr:
  "NewOrderPublication sha value = Inr p \<Longrightarrow>
     pu_id p = pu_id value \<and> pu_expected_revision p = pu_expected_revision value \<and>
     pu_expected_checkpoint p = pu_expected_checkpoint value \<and> pu_report p = pu_report value \<and>
     pu_fill p = pu_fill value \<and> pu_next p = pu_next value \<and>
     pu_id p \<noteq> 0 \<and> pu_expected_revision p \<noteq> 0 \<and> pu_expected_checkpoint p \<noteq> 0 \<and>
     er_id (pu_report p) \<noteq> 0 \<and>
     ord_id (oc_order (pu_next p)) = ers_order (er_spec (pu_report p)) \<and>
     revision_of (oc_order (pu_next p)) = wrap_u64 (pu_expected_revision p + 1) \<and>
     oc_parent (pu_next p) = pu_expected_checkpoint p \<and> oc_report (pu_next p) = er_id (pu_report p) \<and>
     (case pu_fill p of None \<Rightarrow> oc_fill (pu_next p) = 0
      | Some f \<Rightarrow> fs_order (fl_spec f) = ers_order (er_spec (pu_report p)) \<and>
          fs_report (fl_spec f) = er_id (pu_report p) \<and> oc_fill (pu_next p) = fl_id f) \<and>
     pu_raw p = canonicalOrderPublication p \<and> pu_checksum p = state_checksum sha (pu_raw p)"
  by (auto simp: NewOrderPublication_def Let_def split: if_splits option.splits)

text \<open>Validating a validated value again gives the same value.\<close>

lemma NewOrderPublication_idem:
  "NewOrderPublication sha value = Inr p \<Longrightarrow> NewOrderPublication sha p = Inr p"
  by (auto simp: NewOrderPublication_def Let_def split: if_splits option.splits)

end
