(* ===== verification/Oms_Store.thy ===== *)
theory Oms_Store
  imports Oms_Contracts
begin

text \<open>
  \<open>internal/adapters/execution/memory/store.go\<close>: the in-memory order management store. Every operation
  holds the store's mutex from its first to its last access, so an operation is one function on the
  state; it returns the state it leaves together with its result, so that what an error leaves behind
  is part of the model.
\<close>

section \<open>State\<close>

record limits =
  lim_plans :: int
  lim_orders :: int
  lim_publications :: int
  lim_reports :: int
  lim_fills :: int

definition DefaultLimits :: limits where
  "DefaultLimits = \<lparr>lim_plans = 256, lim_orders = 2048, lim_publications = 20000,
     lim_reports = 50000, lim_fills = 50000\<rparr>"

record stored_plan =
  sp_intent :: execution_intent
  sp_plan :: order_plan
  sp_canonical :: string

record stored_publication =
  spu_value :: order_publication
  spu_receipt :: publication_receipt
  spu_canonical :: string

text \<open>The observations handed to the telemetry recorder: operation, outcome, plan and time.\<close>

type_synonym telemetry_event = "string \<times> string \<times> string \<times> instant"

record oms_store =
  st_limits :: limits
  st_plans :: "(digest, stored_plan) gomap"
  st_intents :: "(digest, execution_intent) gomap"
  st_current :: "(digest, nat) gomap"
  st_checkpoints :: "(digest, (nat, order_checkpoint) gomap) gomap"
  st_publications :: "(digest, stored_publication) gomap"
  st_reports :: "(digest, execution_report) gomap"
  st_report_receipts :: "(digest, publication_receipt) gomap"
  st_fills :: "(digest, fill) gomap"
  st_fail_before_commit :: bool
  st_telemetry :: "telemetry_event list"

definition NewStoreInstrumented :: "limits \<Rightarrow> oms_store" where
  "NewStoreInstrumented limits =
     \<lparr>st_limits = (if lim_plans limits \<le> 0 \<or> lim_orders limits \<le> 0 \<or> lim_publications limits \<le> 0 \<or>
                      lim_reports limits \<le> 0 \<or> lim_fills limits \<le> 0 then DefaultLimits else limits),
      st_plans = [], st_intents = [], st_current = [], st_checkpoints = [], st_publications = [],
      st_reports = [], st_report_receipts = [], st_fills = [], st_fail_before_commit = False,
      st_telemetry = []\<rparr>"

definition NewStore :: oms_store where
  "NewStore = NewStoreInstrumented DefaultLimits"

definition SetFailBeforeCommitForTest :: "bool \<Rightarrow> oms_store \<Rightarrow> oms_store" where
  "SetFailBeforeCommitForTest value store = store\<lparr>st_fail_before_commit := value\<rparr>"

text \<open>\<open>store.checkpoints[id][revision]\<close>: the zero checkpoint when either key is missing.\<close>

definition checkpoint_at :: "oms_store \<Rightarrow> digest \<Rightarrow> nat \<Rightarrow> order_checkpoint" where
  "checkpoint_at store oid revision =
     get_or zero_checkpoint (get_or [] (st_checkpoints store) oid) revision"

section \<open>Registering a plan\<close>

definition canonicalPlanBundle ::
  "execution_intent \<Rightarrow> order_plan \<Rightarrow> order_checkpoint list \<Rightarrow> execution_report list \<Rightarrow> fill list \<Rightarrow> string" where
  "canonicalPlanBundle intent plan checkpoints reports fills = marshal (JObj
     [(''Intent'', JRaw (ei_raw intent)),
      (''Plan'', JRaw (op_raw plan)),
      (''Orders'', JArr (map (\<lambda>c. JRaw (oc_raw c)) (sort_key (\<lambda>c. digest_string (ord_id (oc_order c))) checkpoints))),
      (''Reports'', JArr (map (\<lambda>r. JRaw (er_raw r)) (sort_key (\<lambda>r. digest_string (er_id r)) reports))),
      (''Fills'', JArr (map (\<lambda>f. JRaw (fl_raw f)) (sort_key (\<lambda>f. digest_string (fl_id f)) fills)))])"

fun registered_checkpoints ::
  "(string \<Rightarrow> digest) \<Rightarrow> order_plan \<Rightarrow> digest list \<Rightarrow> order list \<Rightarrow> (digest list \<times> order_checkpoint list) result" where
  "registered_checkpoints sha plan legs [] = Inr (legs, [])"
| "registered_checkpoints sha plan legs (ord # orders) =
     (if ord_id ord = 0 \<or> os_plan (ord_spec ord) \<noteq> op_id plan \<or> os_revision (ord_spec ord) \<noteq> 1
      then Inl (Oms ErrCorruptCheckpoint)
      else if ol_id (os_leg (ord_spec ord)) \<in> set legs then Inl (Oms ErrCorruptCheckpoint)
      else bind_r (NewOrderCheckpoint sha (genesis_checkpoint ord)) (\<lambda>checkpoint.
        bind_r (registered_checkpoints sha plan (ol_id (os_leg (ord_spec ord)) # legs) orders)
          (\<lambda>(legs, rest). Inr (legs, checkpoint # rest))))"

definition place_checkpoint :: "order_checkpoint \<Rightarrow> oms_store \<Rightarrow> oms_store" where
  "place_checkpoint c store =
     (let oid = ord_id (oc_order c); revision = os_revision (ord_spec (oc_order c)) in
      store\<lparr>st_current := put oid revision (st_current store),
            st_checkpoints := put oid [(revision, c)] (st_checkpoints store)\<rparr>)"

definition RegisterPlan ::
  "(string \<Rightarrow> digest) \<Rightarrow> ctx \<Rightarrow> execution_intent \<Rightarrow> order_plan \<Rightarrow> order list \<Rightarrow> oms_store \<Rightarrow>
   oms_store \<times> registration_status result" where
  "RegisterPlan sha ctx intent plan orders store =
     (if fst ctx then (store, Inl ContextDone)
      else if ei_id intent = 0 \<or> op_id plan = 0 \<or> ei_id (ops_intent (op_spec plan)) \<noteq> ei_id intent \<or> orders = []
      then (store, Inl (Oms ErrCorruptCheckpoint))
      else case registered_checkpoints sha plan [] orders of
        Inl e \<Rightarrow> (store, Inl e)
      | Inr (legOrders, checkpoints) \<Rightarrow>
      if length legOrders \<noteq> length (op_legs plan) then (store, Inl (Oms ErrCorruptCheckpoint))
      else let canonical = canonicalPlanBundle intent plan checkpoints [] [];
               event = (\<lambda>outcome. (''plan'', outcome, digest_string (op_id plan), ops_created_at (op_spec plan))) in
      if snd ctx then (store, Inl ContextDone)
      else case map_of (st_plans store) (op_id plan) of
        Some existing \<Rightarrow>
          if sp_canonical existing = canonical
          then (store\<lparr>st_telemetry := st_telemetry store @ [event ''duplicate'']\<rparr>, Inr RegistrationIdempotent)
          else (store, Inl (Oms (IdentityCollisionError ''plan'' (digest_string (op_id plan)))))
      | None \<Rightarrow>
      if size_of (st_plans store) \<ge> lim_plans (st_limits store) \<or>
         size_of (st_current store) + int (length orders) > lim_orders (st_limits store)
      then (store, Inl (Oms ErrCapacityExhausted))
      else case find (\<lambda>c. has (st_current store) (ord_id (oc_order c))) checkpoints of
        Some c \<Rightarrow> (store, Inl (Oms (IdentityCollisionError ''order'' (digest_string (ord_id (oc_order c))))))
      | None \<Rightarrow>
          let store = store\<lparr>st_plans := put (op_id plan)
                        \<lparr>sp_intent = intent, sp_plan = plan, sp_canonical = canonical\<rparr> (st_plans store),
                      st_intents := put (ei_id intent) intent (st_intents store)\<rparr>;
              store = fold place_checkpoint checkpoints store in
          (store\<lparr>st_telemetry := st_telemetry store @ [event ''created'']\<rparr>, Inr RegistrationCommitted))"

section \<open>Restoring\<close>

text \<open>The report loop of both restore operations; \<open>known\<close> is the orders being restored.\<close>

fun restore_reports ::
  "digest set \<Rightarrow> execution_report list \<Rightarrow> (digest, execution_report) gomap \<Rightarrow>
   (digest, execution_report) gomap result" where
  "restore_reports known [] reportMap = Inr reportMap"
| "restore_reports known (report # reports) reportMap =
     (if ers_order (er_spec report) \<notin> known then Inl (Oms ErrCorruptCheckpoint)
      else if (case map_of reportMap (er_id report) of None \<Rightarrow> False | Some existing \<Rightarrow> er_raw existing \<noteq> er_raw report)
      then Inl (Oms ErrIdentityCollision)
      else restore_reports known reports (put (er_id report) report reportMap))"

text \<open>
  The fill loop of both: the map of fills and the total quantity per order. \<open>RestoreOrder\<close> has a single
  order, whose total is the code's \<open>fillTotal\<close>.
\<close>

fun restore_fills ::
  "digest set \<Rightarrow> (digest, execution_report) gomap \<Rightarrow> fill list \<Rightarrow> (digest, fill) gomap \<Rightarrow> (digest, int) gomap \<Rightarrow>
   ((digest, fill) gomap \<times> (digest, int) gomap) result" where
  "restore_fills known reportMap [] fillMap totals = Inr (fillMap, totals)"
| "restore_fills known reportMap (f # fills) fillMap totals =
     (let oid = fs_order (fl_spec f); q = fs_quantity (fl_spec f); currentTotal = get_or 0 totals oid in
      if oid \<notin> known then Inl (Oms ErrCorruptCheckpoint)
      else if \<not> has reportMap (fs_report (fl_spec f)) then Inl (Oms ErrCorruptCheckpoint)
      else if (case map_of fillMap (fl_id f) of None \<Rightarrow> False | Some existing \<Rightarrow> fl_raw existing \<noteq> fl_raw f)
      then Inl (Oms ErrIdentityCollision)
      else if q > wrap64 (max_i64 - currentTotal) then Inl (Oms ErrCorruptCheckpoint)
      else restore_fills known reportMap fills (put (fl_id f) f fillMap)
             (put oid (wrap64 (currentTotal + q)) totals))"

definition RestoreOrder ::
  "(string \<Rightarrow> digest) \<Rightarrow> ctx \<Rightarrow> order_checkpoint \<Rightarrow> execution_report list \<Rightarrow> fill list \<Rightarrow> oms_store \<Rightarrow>
   oms_store \<times> registration_status result" where
  "RestoreOrder sha ctx checkpoint reports fills store =
     (if fst ctx then (store, Inl ContextDone)
      else case NewOrderCheckpoint sha checkpoint of Inl e \<Rightarrow> (store, Inl e)
      | Inr validated \<Rightarrow>
      let oid = ord_id (oc_order validated); spec = ord_spec (oc_order validated) in
      case restore_reports {oid} reports [] of Inl e \<Rightarrow> (store, Inl e)
      | Inr reportMap \<Rightarrow>
      case restore_fills {oid} reportMap fills [] [] of Inl e \<Rightarrow> (store, Inl e)
      | Inr (fillMap, totals) \<Rightarrow>
      if get_or 0 totals oid \<noteq> os_filled spec then (store, Inl (Oms ErrCorruptCheckpoint))
      else case map_of (st_plans store) (os_plan spec) of None \<Rightarrow> (store, Inl (Oms ErrNotFound))
      | Some stored \<Rightarrow>
      if \<not> (\<exists>leg \<in> set (op_legs (sp_plan stored)). ol_id leg = ol_id (os_leg spec))
      then (store, Inl (Oms ErrCorruptCheckpoint))
      else if has (st_current store) oid
      then (store, Inl (Oms (IdentityCollisionError ''order_restore'' (digest_string oid))))
      else if size_of (st_current store) \<ge> lim_orders (st_limits store) \<or>
              size_of (st_reports store) + size_of reportMap > lim_reports (st_limits store) \<or>
              size_of (st_fills store) + size_of fillMap > lim_fills (st_limits store)
      then (store, Inl (Oms ErrCapacityExhausted))
      else let store = place_checkpoint validated store in
           (store\<lparr>st_reports := put_all reportMap (st_reports store),
                  st_fills := put_all fillMap (st_fills store)\<rparr>, Inr RegistrationCommitted))"

fun restored_checkpoints ::
  "(string \<Rightarrow> digest) \<Rightarrow> order_plan \<Rightarrow> digest list \<Rightarrow> order_checkpoint list \<Rightarrow>
   (digest list \<times> order_checkpoint list) result" where
  "restored_checkpoints sha plan orderIDs [] = Inr (orderIDs, [])"
| "restored_checkpoints sha plan orderIDs (checkpoint # rest) =
     (case NewOrderCheckpoint sha checkpoint of
        Inl _ \<Rightarrow> Inl (Oms ErrCorruptCheckpoint)
      | Inr value \<Rightarrow>
        if os_plan (ord_spec (oc_order value)) \<noteq> op_id plan then Inl (Oms ErrCorruptCheckpoint)
        else if ord_id (oc_order value) \<in> set orderIDs then Inl (Oms ErrCorruptCheckpoint)
        else bind_r (restored_checkpoints sha plan (ord_id (oc_order value) # orderIDs) rest)
          (\<lambda>(ids, values). Inr (ids, value # values)))"

definition RestorePlan ::
  "(string \<Rightarrow> digest) \<Rightarrow> ctx \<Rightarrow> execution_intent \<Rightarrow> order_plan \<Rightarrow> order_checkpoint list \<Rightarrow>
   execution_report list \<Rightarrow> fill list \<Rightarrow> oms_store \<Rightarrow> oms_store \<times> registration_status result" where
  "RestorePlan sha ctx intent plan checkpoints reports fills store =
     (if fst ctx then (store, Inl ContextDone)
      else if ei_id intent = 0 \<or> op_id plan = 0 \<or> ei_id (ops_intent (op_spec plan)) \<noteq> ei_id intent \<or>
              length checkpoints \<noteq> length (op_legs plan)
      then (store, Inl (Oms ErrCorruptCheckpoint))
      else case restored_checkpoints sha plan [] checkpoints of Inl e \<Rightarrow> (store, Inl e)
      | Inr (orderIDs, validated) \<Rightarrow>
      if card (set (map (\<lambda>c. ol_id (os_leg (ord_spec (oc_order c)))) validated)) \<noteq> length (op_legs plan)
      then (store, Inl (Oms ErrCorruptCheckpoint))
      else case restore_reports (set orderIDs) reports [] of Inl e \<Rightarrow> (store, Inl e)
      | Inr reportMap \<Rightarrow>
      case restore_fills (set orderIDs) reportMap fills [] [] of Inl e \<Rightarrow> (store, Inl e)
      | Inr (fillMap, totals) \<Rightarrow>
      if \<exists>c \<in> set validated. get_or 0 totals (ord_id (oc_order c)) \<noteq> os_filled (ord_spec (oc_order c))
      then (store, Inl (Oms ErrCorruptCheckpoint))
      else if \<exists>c \<in> set validated. os_revision (ord_spec (oc_order c)) > 1 \<and>
                (\<not> has reportMap (oc_report c) \<or> (oc_fill c \<noteq> 0 \<and> \<not> has fillMap (oc_fill c)))
      then (store, Inl (Oms ErrCorruptCheckpoint))
      else let canonical = canonicalPlanBundle intent plan validated reports fills in
      if snd ctx then (store, Inl ContextDone)
      else case map_of (st_plans store) (op_id plan) of
        Some existing \<Rightarrow>
          if sp_canonical existing = canonical then (store, Inr RegistrationIdempotent)
          else (store, Inl (Oms (IdentityCollisionError ''plan_restore'' (digest_string (op_id plan)))))
      | None \<Rightarrow>
      if size_of (st_plans store) \<ge> lim_plans (st_limits store) \<or>
         size_of (st_current store) + int (length validated) > lim_orders (st_limits store) \<or>
         size_of (st_reports store) + size_of reportMap > lim_reports (st_limits store) \<or>
         size_of (st_fills store) + size_of fillMap > lim_fills (st_limits store)
      then (store, Inl (Oms ErrCapacityExhausted))
      else let store = store\<lparr>st_plans := put (op_id plan)
                        \<lparr>sp_intent = intent, sp_plan = plan, sp_canonical = canonical\<rparr> (st_plans store),
                      st_intents := put (ei_id intent) intent (st_intents store)\<rparr>;
               store = fold place_checkpoint validated store in
           (store\<lparr>st_reports := put_all reportMap (st_reports store),
                  st_fills := put_all fillMap (st_fills store)\<rparr>, Inr RegistrationCommitted))"

section \<open>Publishing an order event\<close>

text \<open>A report the store already holds: the receipt of its publication, or a collision.\<close>

definition replayed_report :: "oms_store \<Rightarrow> order_publication \<Rightarrow> execution_report \<Rightarrow> publication_receipt result" where
  "replayed_report store validated existing =
     (let rid = er_id (pu_report validated); receipt = get_or zero_receipt (st_report_receipts store) rid in
      if er_raw existing \<noteq> er_raw (pu_report validated)
      then Inl (Oms (IdentityCollisionError ''report'' (digest_string rid)))
      else case pu_fill validated of
        None \<Rightarrow>
          if rc_fill receipt \<noteq> 0 then Inl (Oms (IdentityCollisionError ''report_fill'' (digest_string rid)))
          else Inr (receipt\<lparr>rc_status := RegistrationIdempotent\<rparr>)
      | Some f \<Rightarrow>
          if rc_fill receipt \<noteq> fl_id f \<or>
             (case map_of (st_fills store) (fl_id f) of None \<Rightarrow> True | Some storedFill \<Rightarrow> fl_raw storedFill \<noteq> fl_raw f)
          then Inl (Oms (IdentityCollisionError ''fill'' (digest_string (fl_id f))))
          else Inr (receipt\<lparr>rc_status := RegistrationIdempotent\<rparr>))"

text \<open>
  The checks of a new report against the current checkpoint, up to the point where the code starts to
  write; the result is the order the report leads to.
\<close>

definition admit_publication :: "oms_store \<Rightarrow> order_publication \<Rightarrow> order result" where
  "admit_publication store validated =
     (let oid = ers_order (er_spec (pu_report validated)) in
      case map_of (st_current store) oid of None \<Rightarrow> Inl (Oms ErrNotFound)
      | Some actual \<Rightarrow>
      let current = checkpoint_at store oid actual in
      if actual \<noteq> pu_expected_revision validated \<or> oc_checksum current \<noteq> pu_expected_checkpoint validated
      then Inl (Oms (RevisionConflictError oid (pu_expected_revision validated) actual))
      else bind_r (ApplyExecutionReport (oc_order current) (pu_report validated) (pu_fill validated)) (\<lambda>next.
      if ord_raw next \<noteq> ord_raw (oc_order (pu_next validated)) \<or> oc_parent (pu_next validated) \<noteq> oc_checksum current
      then Inl (Oms ErrInvalidPublication)
      else case (case pu_fill validated of None \<Rightarrow> None
                 | Some f \<Rightarrow> map_option (\<lambda>existing. (f, existing)) (map_of (st_fills store) (fl_id f))) of
        Some (f, existing) \<Rightarrow>
          if fl_raw existing \<noteq> fl_raw f
          then Inl (Oms (IdentityCollisionError ''fill'' (digest_string (fl_id f))))
          else Inl (Oms ErrInvalidPublication)
      | None \<Rightarrow>
      if size_of (st_publications store) \<ge> lim_publications (st_limits store) \<or>
         size_of (st_reports store) \<ge> lim_reports (st_limits store) \<or>
         (pu_fill validated \<noteq> None \<and> size_of (st_fills store) \<ge> lim_fills (st_limits store))
      then Inl (Oms ErrCapacityExhausted)
      else if st_fail_before_commit store then Inl (Oms ErrInternal)
      else Inr next))"

definition commit_receipt :: "order_publication \<Rightarrow> order \<Rightarrow> publication_receipt" where
  "commit_receipt validated next =
     \<lparr>rc_status = RegistrationCommitted, rc_publication = pu_id validated,
      rc_order = ers_order (er_spec (pu_report validated)), rc_revision = os_revision (ord_spec next),
      rc_report = er_id (pu_report validated),
      rc_fill = (case pu_fill validated of None \<Rightarrow> 0 | Some f \<Rightarrow> fl_id f),
      rc_checkpoint = oc_checksum (pu_next validated), rc_checksum = pu_checksum validated\<rparr>"

text \<open>
  The writes. The assignment to \<open>store.checkpoints[orderID]\<close> cannot meet a nil map: the checkpoint read
  before has the non-zero checksum that the publication expects.
\<close>

definition commit_publication :: "oms_store \<Rightarrow> order_publication \<Rightarrow> order \<Rightarrow> oms_store" where
  "commit_publication store validated next =
     (let receipt = commit_receipt validated next; oid = rc_order receipt; rid = er_id (pu_report validated) in
      store\<lparr>st_fills := (case pu_fill validated of None \<Rightarrow> st_fills store
                        | Some f \<Rightarrow> put (fl_id f) f (st_fills store)),
            st_current := put oid (rc_revision receipt) (st_current store),
            st_checkpoints := put oid
              (put (rc_revision receipt) (pu_next validated) (get_or [] (st_checkpoints store) oid))
              (st_checkpoints store),
            st_reports := put rid (pu_report validated) (st_reports store),
            st_report_receipts := put rid receipt (st_report_receipts store),
            st_publications := put (pu_id validated)
              \<lparr>spu_value = validated, spu_receipt = receipt, spu_canonical = pu_raw validated\<rparr>
              (st_publications store)\<rparr>)"

definition PublishOrderEvent ::
  "(string \<Rightarrow> digest) \<Rightarrow> ctx \<Rightarrow> order_publication \<Rightarrow> oms_store \<Rightarrow> oms_store \<times> publication_receipt result" where
  "PublishOrderEvent sha ctx publication store =
     (if fst ctx then (store, Inl ContextDone)
      else case NewOrderPublication sha publication of Inl e \<Rightarrow> (store, Inl e)
      | Inr validated \<Rightarrow>
      if snd ctx then (store, Inl ContextDone)
      else case map_of (st_publications store) (pu_id validated) of
        Some existing \<Rightarrow>
          if spu_canonical existing = pu_raw validated
          then (store, Inr ((spu_receipt existing)\<lparr>rc_status := RegistrationIdempotent\<rparr>))
          else (store, Inl (Oms (IdentityCollisionError ''publication'' (digest_string (pu_id validated)))))
      | None \<Rightarrow>
      case map_of (st_reports store) (er_id (pu_report validated)) of
        Some existing \<Rightarrow> (store, replayed_report store validated existing)
      | None \<Rightarrow>
      case admit_publication store validated of
        Inl e \<Rightarrow> (store, Inl e)
      | Inr next \<Rightarrow> (commit_publication store validated next, Inr (commit_receipt validated next)))"

section \<open>Queries\<close>

definition CurrentOrderCheckpoint :: "ctx \<Rightarrow> digest \<Rightarrow> oms_store \<Rightarrow> order_checkpoint result" where
  "CurrentOrderCheckpoint ctx oid store =
     (if fst ctx then Inl ContextDone
      else case map_of (st_current store) oid of
        None \<Rightarrow> Inl (Oms ErrNotFound)
      | Some revision \<Rightarrow> Inr (checkpoint_at store oid revision))"

definition OrderCheckpoint :: "ctx \<Rightarrow> digest \<Rightarrow> nat \<Rightarrow> oms_store \<Rightarrow> order_checkpoint result" where
  "OrderCheckpoint ctx oid revision store =
     (if fst ctx then Inl ContextDone
      else case map_of (st_checkpoints store) oid of
        None \<Rightarrow> Inl (Oms ErrNotFound)
      | Some values \<Rightarrow> (case map_of values revision of
          None \<Rightarrow> Inl (Oms ErrNotFound) | Some value \<Rightarrow> Inr value))"

definition CommittedPublication :: "ctx \<Rightarrow> digest \<Rightarrow> oms_store \<Rightarrow> publication_receipt result" where
  "CommittedPublication ctx pid store =
     (if fst ctx then Inl ContextDone
      else case map_of (st_publications store) pid of
        None \<Rightarrow> Inl (Oms ErrNotFound) | Some value \<Rightarrow> Inr (spu_receipt value))"

definition OMS_Intent :: "ctx \<Rightarrow> digest \<Rightarrow> oms_store \<Rightarrow> execution_intent result" where
  "OMS_Intent ctx iid store =
     (if fst ctx then Inl ContextDone
      else case map_of (st_intents store) iid of None \<Rightarrow> Inl (Oms ErrNotFound) | Some value \<Rightarrow> Inr value)"

definition OMS_Plan :: "ctx \<Rightarrow> digest \<Rightarrow> oms_store \<Rightarrow> order_plan result" where
  "OMS_Plan ctx pid store =
     (if fst ctx then Inl ContextDone
      else case map_of (st_plans store) pid of None \<Rightarrow> Inl (Oms ErrNotFound) | Some value \<Rightarrow> Inr (sp_plan value))"

definition OMS_Order :: "ctx \<Rightarrow> digest \<Rightarrow> oms_store \<Rightarrow> order result" where
  "OMS_Order ctx oid store = bind_r (CurrentOrderCheckpoint ctx oid store) (\<lambda>c. Inr (oc_order c))"

text \<open>The current orders, in the iteration order of \<open>store.current\<close>.\<close>

definition current_orders :: "oms_store \<Rightarrow> order list" where
  "current_orders store = map (\<lambda>(oid, revision). oc_order (checkpoint_at store oid revision)) (st_current store)"

definition OrderByClientOrderID :: "ctx \<Rightarrow> digest \<Rightarrow> oms_store \<Rightarrow> order result" where
  "OrderByClientOrderID ctx cid store =
     (if fst ctx then Inl ContextDone
      else case find (\<lambda>value. ord_client value = cid) (current_orders store) of
        None \<Rightarrow> Inl (Oms ErrNotFound) | Some value \<Rightarrow> Inr value)"

definition OrdersForPlan :: "ctx \<Rightarrow> digest \<Rightarrow> oms_store \<Rightarrow> order list result" where
  "OrdersForPlan ctx pid store =
     (if fst ctx then Inl ContextDone
      else let result = sort_key (\<lambda>value. digest_string (ord_id value))
                 (filter (\<lambda>value. os_plan (ord_spec value) = pid) (current_orders store)) in
      if result = [] then Inl (Oms ErrNotFound) else Inr result)"

definition NonTerminalOrders :: "ctx \<Rightarrow> int \<Rightarrow> oms_store \<Rightarrow> order list result" where
  "NonTerminalOrders ctx limit store =
     (if fst ctx then Inl ContextDone
      else if limit \<le> 0 \<or> limit > 1000 then Inl (Oms ErrInternal)
      else Inr (take (nat limit) (sort_key (\<lambda>value. digest_string (ord_id value))
             (filter (\<lambda>value. \<not> Terminal (os_state (ord_spec value))) (current_orders store)))))"

definition Reports :: "ctx \<Rightarrow> digest \<Rightarrow> oms_store \<Rightarrow> execution_report list result" where
  "Reports ctx oid store =
     (if fst ctx then Inl ContextDone
      else Inr (sort_key (\<lambda>r. (ers_received_at (er_spec r), digest_string (er_id r)))
             (filter (\<lambda>r. ers_order (er_spec r) = oid) (map snd (st_reports store)))))"

definition Fills :: "ctx \<Rightarrow> digest \<Rightarrow> oms_store \<Rightarrow> fill list result" where
  "Fills ctx oid store =
     (if fst ctx then Inl ContextDone
      else Inr (sort_key (\<lambda>f. (fs_occurred_at (fl_spec f), digest_string (fl_id f)))
             (filter (\<lambda>f. fs_order (fl_spec f) = oid) (map snd (st_fills store)))))"

record oms_status =
  sta_plans :: int
  sta_orders :: int
  sta_publications :: int
  sta_reports :: int
  sta_fills :: int
  sta_limits :: limits

definition Status :: "oms_store \<Rightarrow> oms_status" where
  "Status store = \<lparr>sta_plans = size_of (st_plans store), sta_orders = size_of (st_current store),
     sta_publications = size_of (st_publications store), sta_reports = size_of (st_reports store),
     sta_fills = size_of (st_fills store), sta_limits = st_limits store\<rparr>"

text \<open>\<open>Health\<close>: the status with the number of orders whose outcome is unknown.\<close>

definition Health :: "oms_store \<Rightarrow> oms_status \<times> int" where
  "Health store = (Status store,
     int (length (filter (\<lambda>value. os_state (ord_spec value) = OrderUnknown) (current_orders store))))"

definition RecentPlans :: "ctx \<Rightarrow> int \<Rightarrow> oms_store \<Rightarrow> order_plan list result" where
  "RecentPlans ctx limit store =
     (if fst ctx then Inl ContextDone
      else if limit \<le> 0 \<or> limit > 100 then Inl (Oms ErrInvalidPublication)
      else Inr (take (nat limit) (sort_key (\<lambda>p. (- ops_created_at (op_spec p), digest_string (op_id p)))
             (map (sp_plan \<circ> snd) (st_plans store)))))"

text \<open>The empty state stands for \<open>any\<close>.\<close>

definition RecentOrders :: "ctx \<Rightarrow> order_state \<Rightarrow> int \<Rightarrow> oms_store \<Rightarrow> order list result" where
  "RecentOrders ctx state limit store =
     (if fst ctx then Inl ContextDone
      else if limit \<le> 0 \<or> limit > 100 \<or> (state \<noteq> OtherOrderState [] \<and> OrderState_Validate state \<noteq> Inr ())
      then Inl (Oms ErrInvalidPublication)
      else Inr (take (nat limit) (sort_key (\<lambda>value. (- os_updated_at (ord_spec value), digest_string (ord_id value)))
             (filter (\<lambda>value. state = OtherOrderState [] \<or> os_state (ord_spec value) = state) (current_orders store)))))"

definition RecentReports :: "ctx \<Rightarrow> int \<Rightarrow> oms_store \<Rightarrow> execution_report list result" where
  "RecentReports ctx limit store =
     (if fst ctx then Inl ContextDone
      else if limit \<le> 0 \<or> limit > 100 then Inl (Oms ErrInvalidPublication)
      else Inr (take (nat limit) (sort_key (\<lambda>r. (- ers_received_at (er_spec r), digest_string (er_id r)))
             (map snd (st_reports store)))))"

definition RecentFills :: "ctx \<Rightarrow> int \<Rightarrow> oms_store \<Rightarrow> fill list result" where
  "RecentFills ctx limit store =
     (if fst ctx then Inl ContextDone
      else if limit \<le> 0 \<or> limit > 100 then Inl (Oms ErrInvalidPublication)
      else Inr (take (nat limit) (sort_key (\<lambda>f. (- fs_occurred_at (fl_spec f), digest_string (fl_id f)))
             (map snd (st_fills store)))))"

end
