(* ===== verification/Oms_Invariants.thy ===== *)
theory Oms_Invariants
  imports Oms_Store
begin

text \<open>
  Correctness of the in-memory order store: the invariant that ties revisions, checkpoints and fills
  together, that every operation keeps it, and that the store is a revisioned repository in the sense
  of the locale \<open>repository\<close>.
\<close>

section \<open>Values of type Order\<close>

text \<open>
  \<open>Order\<close> is opaque outside its package, so every order a caller holds was returned by a constructor:
  it is well formed, its bytes are its canonical bytes, and at revision 1 nothing has happened to it.
\<close>

definition order_built :: "order \<Rightarrow> bool" where
  "order_built ord \<longleftrightarrow> order_wf ord \<and> ord_raw ord = canonicalOrder (ord_id ord) (ord_client ord) (ord_spec ord) \<and>
     (revision_of ord = 1 \<longrightarrow> filled_of ord = 0 \<and> state_of ord = OrderCreated)"

lemma NewOrder_built:
  assumes "NewOrder sha plan legID at = Inr ord" "\<forall>leg \<in> set (op_legs plan). in_i64 (ol_quantity leg)"
  shows "order_built ord"
proof -
  from assms(1) obtain leg oid cid where f: "find (\<lambda>leg. ol_id leg = legID) (op_legs plan) = Some leg"
    and v: "newOrderValue oid cid
       \<lparr>os_schema = ''order/v1'', os_plan = op_id plan, os_leg = leg, os_state = OrderCreated,
        os_revision = 1, os_filled = 0, os_broker_order = [], os_created_at = at, os_updated_at = at\<rparr> = Inr ord"
    by (auto simp: NewOrder_def Let_def split: if_splits option.splits)
  have leg: "leg \<in> set (op_legs plan)" using f by (auto simp: find_Some_iff)
  have "order_wf ord" using v assms(2) leg by (intro newOrderValue_wf [OF v]) (auto simp: max_u64_def)
  with newOrderValue_Inr [OF v] show ?thesis by (auto simp: order_built_def)
qed

lemma ApplyExecutionReport_raw:
  assumes "ApplyExecutionReport ord r f = Inr ord'"
  shows "ord_raw ord' = canonicalOrder (ord_id ord') (ord_client ord') (ord_spec ord')"
proof -
  from assms obtain oid cid spec where "newOrderValue oid cid spec = Inr ord'"
    by (auto simp: ApplyExecutionReport_def Let_def split: option.splits if_splits)
  then show ?thesis by (auto dest!: newOrderValue_Inr)
qed

lemma ApplyExecutionReport_built:
  assumes "ApplyExecutionReport ord r f = Inr ord'" "order_wf ord"
  shows "order_built ord'"
  using ApplyExecutionReport_wf [OF assms] ApplyExecutionReport_raw [OF assms(1)] assms(2)
  by (auto simp: order_built_def order_wf_def)

text \<open>Orders with the same canonical bytes agree on identity, state, revision and quantities.\<close>

lemma built_same_raw:
  assumes "order_built a" "order_built b" "ord_raw a = ord_raw b"
  shows "ord_id a = ord_id b" "revision_of a = revision_of b" "filled_of a = filled_of b"
    "state_of a = state_of b" "quantity_of a = quantity_of b"
  using assms canonicalOrder_determines [of "ord_id a" "ord_client a" "ord_spec a" "ord_id b" "ord_client b" "ord_spec b"]
  by (auto simp: order_built_def order_wf_def)

section \<open>The invariant\<close>

definition oms_head :: "oms_store \<Rightarrow> digest \<Rightarrow> nat" where
  "oms_head st oid = get_or 0 (st_current st) oid"

definition oms_history :: "oms_store \<Rightarrow> digest \<Rightarrow> nat \<Rightarrow> order_checkpoint option" where
  "oms_history st oid n = map_of (get_or [] (st_checkpoints st) oid) n"

definition fills_total :: "(digest, fill) gomap \<Rightarrow> digest \<Rightarrow> int" where
  "fills_total fs oid =
     sum_list (map (\<lambda>(_, f). if fs_order (fl_spec f) = oid then fs_quantity (fl_spec f) else 0) fs)"

text \<open>
  Every current order has a checkpoint at its current revision holding that order at that revision,
  and its filled quantity is the total of the fills stored for it; nothing is stored beyond the current
  revision; checkpoints form a chain of digests; fills belong to known orders.
\<close>

definition head_ok :: "oms_store \<Rightarrow> digest \<Rightarrow> nat \<Rightarrow> bool" where
  "head_ok st oid rv \<longleftrightarrow> (\<exists>c. oms_history st oid rv = Some c \<and> order_built (oc_order c) \<and>
     ord_id (oc_order c) = oid \<and> revision_of (oc_order c) = rv \<and>
     filled_of (oc_order c) = fills_total (st_fills st) oid)"

definition oms_inv :: "oms_store \<Rightarrow> bool" where
  "oms_inv st \<longleftrightarrow> gomap_wf (st_fills st) \<and>
     (\<forall>oid rv. map_of (st_current st) oid = Some rv \<longrightarrow> head_ok st oid rv) \<and>
     (\<forall>oid n c. oms_history st oid n = Some c \<longrightarrow> n \<le> oms_head st oid) \<and>
     (\<forall>oid n c c'. oms_history st oid n = Some c \<longrightarrow> oms_history st oid (Suc n) = Some c' \<longrightarrow>
        oc_parent c' = oc_checksum c) \<and>
     (\<forall>fid f. map_of (st_fills st) fid = Some f \<longrightarrow> has (st_current st) (fs_order (fl_spec f)))"

lemma oms_invD:
  assumes "oms_inv st"
  shows "gomap_wf (st_fills st)"
    and "map_of (st_current st) oid = Some rv \<Longrightarrow> head_ok st oid rv"
    and "oms_history st oid n = Some c \<Longrightarrow> n \<le> oms_head st oid"
    and "oms_history st oid n = Some c \<Longrightarrow> oms_history st oid (Suc n) = Some c' \<Longrightarrow> oc_parent c' = oc_checksum c"
    and "map_of (st_fills st) fid = Some f \<Longrightarrow> has (st_current st) (fs_order (fl_spec f))"
  using assms unfolding oms_inv_def by blast+

lemma NewStoreInstrumented_inv: "oms_inv (NewStoreInstrumented lim)"
  by (simp add: oms_inv_def NewStoreInstrumented_def oms_history_def get_or_def)

lemma fills_total_simps [simp]:
  "fills_total [] oid = 0"
  "fills_total ((k, f) # fs) oid =
     (if fs_order (fl_spec f) = oid then fs_quantity (fl_spec f) else 0) + fills_total fs oid"
  "fills_total (xs @ ys) oid = fills_total xs oid + fills_total ys oid"
  by (simp_all add: fills_total_def)

text \<open>An order without a current revision has no fills.\<close>

lemma fills_total_none:
  assumes "\<And>k f. (k, f) \<in> set fs \<Longrightarrow> fs_order (fl_spec f) \<noteq> oid"
  shows "fills_total fs oid = 0"
proof -
  have "(case x of (_, f) \<Rightarrow> if fs_order (fl_spec f) = oid then fs_quantity (fl_spec f) else 0) = 0" if "x \<in> set fs" for x
    using assms that by (cases x) auto
  then have "map (\<lambda>(_, f). if fs_order (fl_spec f) = oid then fs_quantity (fl_spec f) else 0) fs = map (\<lambda>_. 0) fs"
    by (intro map_cong) auto
  then show ?thesis by (simp only: fills_total_def sum_list_0)
qed

lemma no_fills_unknown:
  assumes "oms_inv st" "\<not> has (st_current st) oid"
  shows "fills_total (st_fills st) oid = 0"
proof (rule fills_total_none)
  fix k f assume "(k, f) \<in> set (st_fills st)"
  then have "map_of (st_fills st) k = Some f"
    using oms_invD(1) [OF assms(1)] by (simp add: gomap_wf_def)
  with oms_invD(5) [OF assms(1)] assms(2) show "fs_order (fl_spec f) \<noteq> oid" by auto
qed

section \<open>Publishing\<close>

lemma replayed_report_Inr: "replayed_report st v e = Inr r \<Longrightarrow> rc_status r = RegistrationIdempotent"
  by (auto simp: replayed_report_def Let_def split: if_splits option.splits)

lemma PublishOrderEvent_cases:
  assumes "PublishOrderEvent sha ctx p st = (st', x)"
  obtains (unchanged) "st' = st" "\<And>r. x = Inr r \<Longrightarrow> rc_status r = RegistrationIdempotent"
  | (commit) v nx where "NewOrderPublication sha p = Inr v" "\<not> fst ctx" "\<not> snd ctx"
      "\<not> has (st_publications st) (pu_id v)" "\<not> has (st_reports st) (er_id (pu_report v))"
      "admit_publication st v = Inr nx" "st' = commit_publication st v nx"
      "x = Inr (commit_receipt v nx)"
proof (cases "NewOrderPublication sha p")
  case (Inl e)
  with assms show thesis by (intro unchanged) (auto simp: PublishOrderEvent_def split: if_splits)
next
  case v: (Inr v)
  show thesis
  proof (cases "fst ctx \<or> snd ctx")
    case True
    with assms v show thesis
      by (intro unchanged) (auto simp: PublishOrderEvent_def split: if_splits)
  next
    case live: False
    show thesis
    proof (cases "map_of (st_publications st) (pu_id v)")
      case (Some e)
      with assms v live show thesis
        by (intro unchanged) (auto simp: PublishOrderEvent_def split: if_splits)
    next
      case pub: None
      show thesis
      proof (cases "map_of (st_reports st) (er_id (pu_report v))")
        case (Some e)
        with assms v live pub show thesis
          by (intro unchanged) (auto simp: PublishOrderEvent_def dest: replayed_report_Inr)
      next
        case rep: None
        show thesis
        proof (cases "admit_publication st v")
          case (Inl e)
          with assms v live pub rep show thesis
            by (intro unchanged) (auto simp: PublishOrderEvent_def)
        next
          case (Inr nx)
          with assms v live pub rep show thesis
            by (intro commit [of v nx]) (simp_all add: PublishOrderEvent_def has_def)
        qed
      qed
    qed
  qed
qed

lemma admit_publication_Inr:
  assumes "admit_publication st v = Inr nx"
  defines "oid \<equiv> ers_order (er_spec (pu_report v))"
  obtains "map_of (st_current st) oid = Some (pu_expected_revision v)"
    "oc_checksum (checkpoint_at st oid (pu_expected_revision v)) = pu_expected_checkpoint v"
    "ApplyExecutionReport (oc_order (checkpoint_at st oid (pu_expected_revision v))) (pu_report v) (pu_fill v) = Inr nx"
    "ord_raw nx = ord_raw (oc_order (pu_next v))"
    "oc_parent (pu_next v) = pu_expected_checkpoint v"
    "\<And>f. pu_fill v = Some f \<Longrightarrow> \<not> has (st_fills st) (fl_id f)"
    "size_of (st_publications st) < lim_publications (st_limits st)"
    "size_of (st_reports st) < lim_reports (st_limits st)"
    "pu_fill v \<noteq> None \<Longrightarrow> size_of (st_fills st) < lim_fills (st_limits st)"
    "\<not> st_fail_before_commit st"
  using assms
  by (auto simp: admit_publication_def Let_def has_def split: if_splits option.splits)

text \<open>What is true of every publication value a caller can hold.\<close>

definition publication_built :: "order_publication \<Rightarrow> bool" where
  "publication_built p \<longleftrightarrow> order_built (oc_order (pu_next p)) \<and> in_i64 (fill_quantity (pu_fill p))"

lemma commit_facts:
  assumes "oms_inv st" "publication_built p" "NewOrderPublication sha p = Inr v"
    "admit_publication st v = Inr nx"
  defines "oid \<equiv> ers_order (er_spec (pu_report p))" and "n \<equiv> pu_expected_revision p"
  obtains cur where
    "map_of (st_current st) oid = Some n" "oms_history st oid n = Some cur"
    "oc_checksum cur = oc_parent (pu_next p)" "order_built (oc_order cur)"
    "ord_id (oc_order cur) = oid" "revision_of (oc_order cur) = n"
    "filled_of (oc_order cur) = fills_total (st_fills st) oid"
    "ApplyExecutionReport (oc_order cur) (pu_report p) (pu_fill p) = Inr nx"
    "revision_of nx = Suc n" "order_built nx"
    "filled_of (oc_order (pu_next p)) = filled_of (oc_order cur) + fill_quantity (pu_fill p)"
    "ord_id (oc_order (pu_next p)) = oid" "revision_of (oc_order (pu_next p)) = Suc n"
    "state_of (oc_order (pu_next p)) = state_of nx"
    "\<And>f. pu_fill p = Some f \<Longrightarrow> \<not> has (st_fills st) (fl_id f) \<and> fs_order (fl_spec f) = oid"
proof -
  note v = NewOrderPublication_Inr [OF assms(3)]
  from assms(4) show thesis
  proof (rule admit_publication_Inr, goal_cases)
    case 1
    have cur: "map_of (st_current st) oid = Some n" using 1(1) v by (simp add: oid_def n_def)
    with oms_invD(2) [OF assms(1)] have "head_ok st oid n" by blast
    then obtain c where c: "oms_history st oid n = Some c" "order_built (oc_order c)" "ord_id (oc_order c) = oid"
      "revision_of (oc_order c) = n" "filled_of (oc_order c) = fills_total (st_fills st) oid"
      by (auto simp: head_ok_def)
    then have at: "checkpoint_at st oid n = c" by (simp add: checkpoint_at_def oms_history_def)
    have ap: "ApplyExecutionReport (oc_order c) (pu_report p) (pu_fill p) = Inr nx"
      using 1(3) v at by (simp add: oid_def n_def)
    have wf: "order_wf (oc_order c)" using c(2) by (simp add: order_built_def)
    have built: "order_built nx" by (rule ApplyExecutionReport_built [OF ap wf])
    have rv: "revision_of nx = Suc n" using ApplyExecutionReport_wf [OF ap wf] c(4) by simp
    have qty: "filled_of nx = filled_of (oc_order c) + fill_quantity (pu_fill p)"
      using ApplyExecutionReport_conserves [OF ap wf] assms(2) by (simp add: publication_built_def)
    have bn: "order_built (oc_order (pu_next p))" using assms(2) by (simp add: publication_built_def)
    have raw: "ord_raw nx = ord_raw (oc_order (pu_next p))" using 1(4) v by simp
    note same = built_same_raw [OF built bn raw]
    have "ord_id nx = oid" using ApplyExecutionReport_extends [OF ap wf] c(3) by (simp add: order_extends_def)
    moreover have "oc_checksum c = oc_parent (pu_next p)" using 1(2,5) v at by (simp add: oid_def n_def)
    moreover have "\<And>f. pu_fill p = Some f \<Longrightarrow> \<not> has (st_fills st) (fl_id f) \<and> fs_order (fl_spec f) = oid"
      using 1(6) v by (auto simp: oid_def)
    ultimately show thesis using that cur c ap rv built qty same by metis
  qed
qed

lemma commit_publication_views:
  "oms_head (commit_publication st v nx) oid =
     (if oid = ers_order (er_spec (pu_report v)) then revision_of nx else oms_head st oid)"
  "oms_history (commit_publication st v nx) oid n =
     (if oid = ers_order (er_spec (pu_report v)) \<and> n = revision_of nx then Some (pu_next v)
      else oms_history st oid n)"
  "map_of (st_current (commit_publication st v nx)) =
     (map_of (st_current st))(ers_order (er_spec (pu_report v)) \<mapsto> revision_of nx)"
  by (auto simp: oms_head_def oms_history_def commit_publication_def commit_receipt_def Let_def)

lemma commit_publication_total:
  assumes "\<And>f. pu_fill v = Some f \<Longrightarrow>
    \<not> has (st_fills st) (fl_id f) \<and> fs_order (fl_spec f) = ers_order (er_spec (pu_report v))"
  shows "fills_total (st_fills (commit_publication st v nx)) oid = fills_total (st_fills st) oid +
    (if oid = ers_order (er_spec (pu_report v)) then fill_quantity (pu_fill v) else 0)"
  using assms
  by (cases "pu_fill v") (auto simp: commit_publication_def Let_def put_fresh)

lemma commit_publication_inv:
  assumes "oms_inv st" "publication_built p" "NewOrderPublication sha p = Inr v"
    "admit_publication st v = Inr nx"
  shows "oms_inv (commit_publication st v nx)"
proof -
  note v = NewOrderPublication_Inr [OF assms(3)]
  define oid n where "oid = ers_order (er_spec (pu_report p))" and "n = pu_expected_revision p"
  let ?st = "commit_publication st v nx"
  obtain cur where cur: "map_of (st_current st) oid = Some n" "oms_history st oid n = Some cur"
    "oc_checksum cur = oc_parent (pu_next p)"
    "filled_of (oc_order cur) = fills_total (st_fills st) oid" "revision_of nx = Suc n"
    "filled_of (oc_order (pu_next p)) = filled_of (oc_order cur) + fill_quantity (pu_fill p)"
    "ord_id (oc_order (pu_next p)) = oid" "revision_of (oc_order (pu_next p)) = Suc n"
    and fresh: "\<And>f. pu_fill p = Some f \<Longrightarrow> \<not> has (st_fills st) (fl_id f) \<and> fs_order (fl_spec f) = oid"
    using commit_facts [OF assms] unfolding oid_def n_def by blast
  have head: "oms_head st oid = n" using cur(1) by (simp add: oms_head_def)
  have views: "oms_head ?st o' = (if o' = oid then Suc n else oms_head st o')"
    "oms_history ?st o' k = (if o' = oid \<and> k = Suc n then Some (pu_next p) else oms_history st o' k)"
    "map_of (st_current ?st) = (map_of (st_current st))(oid \<mapsto> Suc n)" for o' k
    using v by (simp_all add: commit_publication_views cur(5) oid_def)
  have total: "fills_total (st_fills ?st) o' =
      fills_total (st_fills st) o' + (if o' = oid then fill_quantity (pu_fill p) else 0)" for o'
    using v fresh by (subst commit_publication_total) (auto simp: oid_def)
  have beyond: "oms_history st oid k = None" if "n < k" for k
    using oms_invD(3) [OF assms(1), of oid k] head that by (cases "oms_history st oid k") auto
  have "gomap_wf (st_fills ?st)"
    using oms_invD(1) [OF assms(1)] by (simp add: commit_publication_def Let_def split: option.splits)
  moreover have "head_ok ?st o' rv" if "map_of (st_current ?st) o' = Some rv" for o' rv
  proof (cases "o' = oid")
    case True
    with that cur assms(2) show ?thesis
      by (simp add: head_ok_def views total publication_built_def)
  next
    case False
    with that oms_invD(2) [OF assms(1), of o' rv] show ?thesis by (simp add: head_ok_def views total)
  qed
  moreover have "k \<le> oms_head ?st o'" if "oms_history ?st o' k = Some c" for o' k c
    using that oms_invD(3) [OF assms(1), of o' k c] head by (auto simp: views split: if_splits)
  moreover have "oc_parent c' = oc_checksum c"
    if "oms_history ?st o' k = Some c" "oms_history ?st o' (Suc k) = Some c'" for o' k c c'
    using that oms_invD(4) [OF assms(1), of o' k c c'] cur(2,3) beyond
    by (auto simp: views split: if_splits)
  moreover have "has (st_current ?st) (fs_order (fl_spec f))" if "map_of (st_fills ?st) fid = Some f" for fid f
  proof -
    from that consider "map_of (st_fills st) fid = Some f" | "pu_fill p = Some f"
      using v by (auto simp: commit_publication_def Let_def split: option.splits if_splits)
    then show ?thesis
      using oms_invD(5) [OF assms(1), of fid f] fresh [of f] by cases (auto simp: has_def views)
  qed
  ultimately show ?thesis unfolding oms_inv_def by blast
qed

interpretation oms: repository oms_inv "publication_built \<circ> snd" oms_head oms_history
  "\<lambda>(ctx, p). PublishOrderEvent sha ctx p" "\<lambda>(_, p). ers_order (er_spec (pu_report p))"
  "\<lambda>(_, p). pu_expected_revision p" "\<lambda>r. rc_status r = RegistrationCommitted" for sha
proof (unfold_locales, goal_cases)
  case (1 s cp s' x)
  then obtain ctx p where cp: "cp = (ctx, p)" and pub: "PublishOrderEvent sha ctx p s = (s', x)" by (cases cp) auto
  from pub show ?case
    by (rule PublishOrderEvent_cases) (use 1 cp in \<open>auto intro: commit_publication_inv\<close>)
next
  case (2 cp s s' e)
  then obtain ctx p where pub: "PublishOrderEvent sha ctx p s = (s', Inl e)" by (cases cp) auto
  then show ?case by (rule PublishOrderEvent_cases) auto
next
  case (3 cp s s' r)
  then obtain ctx p where pub: "PublishOrderEvent sha ctx p s = (s', Inr r)" by (cases cp) auto
  then show ?case by (rule PublishOrderEvent_cases) (use 3 in \<open>auto simp: commit_receipt_def\<close>)
next
  case (4 s cp s' r)
  then obtain ctx p where cp: "cp = (ctx, p)" and pub: "PublishOrderEvent sha ctx p s = (s', Inr r)" by (cases cp) auto
  from pub show ?case
  proof (cases rule: PublishOrderEvent_cases)
    case unchanged
    with 4 show ?thesis by simp
  next
    case (commit v nx)
    have "publication_built p" using 4 cp by simp
    from commit_facts [OF 4(1) this commit(1,6)] obtain
      "map_of (st_current s) (ers_order (er_spec (pu_report p))) = Some (pu_expected_revision p)"
      "revision_of nx = Suc (pu_expected_revision p)" by blast
    with commit NewOrderPublication_Inr [OF commit(1)] cp show ?thesis
      by (simp add: commit_publication_views) (simp add: oms_head_def)
  qed
next
  case (5 s cp s' x k)
  then obtain ctx p where cp: "cp = (ctx, p)" and pub: "PublishOrderEvent sha ctx p s = (s', x)" by (cases cp) auto
  from pub show ?case
    by (rule PublishOrderEvent_cases)
      (use 5 cp in \<open>auto simp: commit_publication_views dest: NewOrderPublication_Inr\<close>)
next
  case (6 s cp s' x k n c)
  then obtain ctx p where cp: "cp = (ctx, p)" and pub: "PublishOrderEvent sha ctx p s = (s', x)" by (cases cp) auto
  from pub show ?case
  proof (cases rule: PublishOrderEvent_cases)
    case unchanged
    with 6 show ?thesis by simp
  next
    case (commit v nx)
    have "publication_built p" using 6 cp by simp
    from commit_facts [OF 6(1) this commit(1,6)] obtain
      "map_of (st_current s) (ers_order (er_spec (pu_report p))) = Some (pu_expected_revision p)"
      "revision_of nx = Suc (pu_expected_revision p)" by blast
    with commit NewOrderPublication_Inr [OF commit(1)] oms_invD(3) [OF 6(1) 6(4)] 6(4) show ?thesis
      by (auto simp: commit_publication_views oms_head_def)
  qed
qed

end
