(* ===== verification/Oms_Runs.thy ===== *)
theory Oms_Runs
  imports Oms_Invariants
begin

text \<open>
  Registration and restoration keep the store's invariant, and runs of the store: any sequence of
  \<open>RegisterPlan\<close>, \<open>PublishOrderEvent\<close>, \<open>RestoreOrder\<close> and \<open>RestorePlan\<close> calls, successful or not.
\<close>

section \<open>Placing checkpoints of new orders\<close>

abbreviation order_of :: "order_checkpoint \<Rightarrow> digest" where
  "order_of c \<equiv> ord_id (oc_order c)"

lemma place_checkpoint_views:
  "map_of (st_current (place_checkpoint c st)) = (map_of (st_current st))(order_of c \<mapsto> revision_of (oc_order c))"
  "oms_history (place_checkpoint c st) oid n =
     (if oid = order_of c then if n = revision_of (oc_order c) then Some c else None else oms_history st oid n)"
  "st_fills (place_checkpoint c st) = st_fills st"
  "st_plans (place_checkpoint c st) = st_plans st"
  "st_reports (place_checkpoint c st) = st_reports st"
  "st_publications (place_checkpoint c st) = st_publications st"
  "st_limits (place_checkpoint c st) = st_limits st"
  "st_report_receipts (place_checkpoint c st) = st_report_receipts st"
  by (auto simp: place_checkpoint_def oms_history_def Let_def)

lemma fold_place_fixed [simp]:
  "st_fills (fold place_checkpoint cs st) = st_fills st"
  "st_plans (fold place_checkpoint cs st) = st_plans st"
  "st_reports (fold place_checkpoint cs st) = st_reports st"
  "st_publications (fold place_checkpoint cs st) = st_publications st"
  "st_limits (fold place_checkpoint cs st) = st_limits st"
  "st_report_receipts (fold place_checkpoint cs st) = st_report_receipts st"
  by (induction cs arbitrary: st) (simp_all add: place_checkpoint_views)

lemma fold_place_cong:
  "st_current s = st_current t \<Longrightarrow> st_checkpoints s = st_checkpoints t \<Longrightarrow>
     st_current (fold place_checkpoint cs s) = st_current (fold place_checkpoint cs t) \<and>
     st_checkpoints (fold place_checkpoint cs s) = st_checkpoints (fold place_checkpoint cs t)"
  by (induction cs arbitrary: s t) (simp_all add: place_checkpoint_def Let_def)

lemma fold_place_update [simp]:
  "st_current (fold place_checkpoint cs (st\<lparr>st_plans := p, st_intents := i\<rparr>)) = st_current (fold place_checkpoint cs st)"
  "st_checkpoints (fold place_checkpoint cs (st\<lparr>st_plans := p, st_intents := i\<rparr>)) =
     st_checkpoints (fold place_checkpoint cs st)"
  by (intro fold_place_cong [THEN conjunct1] fold_place_cong [THEN conjunct2]; simp)+

lemma fold_place_other:
  "oid \<notin> set (map order_of cs) \<Longrightarrow>
     map_of (st_current (fold place_checkpoint cs st)) oid = map_of (st_current st) oid \<and>
     oms_history (fold place_checkpoint cs st) oid n = oms_history st oid n"
  by (induction cs arbitrary: st) (auto simp: place_checkpoint_views)

lemma fold_place_new:
  "distinct (map order_of cs) \<Longrightarrow> c \<in> set cs \<Longrightarrow>
     map_of (st_current (fold place_checkpoint cs st)) (order_of c) = Some (revision_of (oc_order c)) \<and>
     oms_history (fold place_checkpoint cs st) (order_of c) n =
       (if n = revision_of (oc_order c) then Some c else None)"
proof (induction cs arbitrary: st)
  case (Cons d cs)
  show ?case
  proof (cases "c = d")
    case True
    with Cons.prems have "order_of c \<notin> set (map order_of cs)" by auto
    from fold_place_other [OF this, of "place_checkpoint d st" n] True show ?thesis
      by (simp add: place_checkpoint_views)
  next
    case False
    with Cons show ?thesis by auto
  qed
qed simp

lemma fold_place_has:
  "has (st_current (fold place_checkpoint cs st)) oid \<longleftrightarrow> oid \<in> set (map order_of cs) \<or> has (st_current st) oid"
  by (induction cs arbitrary: st) (auto simp: has_def place_checkpoint_views)

lemma fold_place_length:
  "length (st_current (fold place_checkpoint cs st)) \<le> length (st_current st) + length cs"
proof (induction cs arbitrary: st)
  case (Cons c cs)
  have "length (st_current (place_checkpoint c st)) \<le> Suc (length (st_current st))"
    by (simp add: place_checkpoint_def Let_def length_put)
  with Cons [of "place_checkpoint c st"] show ?case by simp
qed simp

text \<open>The invariant looks only at revisions, checkpoints and fills.\<close>

lemma oms_inv_cong:
  "st_current st' = st_current st \<Longrightarrow> st_checkpoints st' = st_checkpoints st \<Longrightarrow> st_fills st' = st_fills st \<Longrightarrow>
     oms_inv st' = oms_inv st"
  by (simp add: oms_inv_def head_ok_def oms_history_def oms_head_def)

definition adopted :: "order_checkpoint list \<Rightarrow> (digest, fill) gomap \<Rightarrow> oms_store \<Rightarrow> bool" where
  "adopted cs fm st \<longleftrightarrow> distinct (map order_of cs) \<and> gomap_wf fm \<and>
     (\<forall>c \<in> set cs. \<not> has (st_current st) (order_of c) \<and> order_built (oc_order c) \<and>
        filled_of (oc_order c) = fills_total fm (order_of c)) \<and>
     (\<forall>(fid, f) \<in> set fm. \<not> has (st_fills st) fid \<and> fs_order (fl_spec f) \<in> set (map order_of cs))"

lemma adopt_inv:
  assumes "oms_inv st" "adopted cs fm st"
    and st': "st_current st' = st_current (fold place_checkpoint cs st)"
      "st_checkpoints st' = st_checkpoints (fold place_checkpoint cs st)"
      "st_fills st' = put_all fm (st_fills st)"
  shows "oms_inv st'"
proof -
  let ?ids = "set (map order_of cs)"
  have cs: "distinct (map order_of cs)" "gomap_wf fm"
    and c: "\<And>c. c \<in> set cs \<Longrightarrow> \<not> has (st_current st) (order_of c) \<and> order_built (oc_order c) \<and>
        filled_of (oc_order c) = fills_total fm (order_of c)"
    and f: "\<And>fid f. (fid, f) \<in> set fm \<Longrightarrow> \<not> has (st_fills st) fid \<and> fs_order (fl_spec f) \<in> ?ids"
    using assms(2) unfolding adopted_def by blast+
  have hist: "oms_history st' = oms_history (fold place_checkpoint cs st)"
    by (simp add: oms_history_def st' fun_eq_iff)
  have "has fm fid \<Longrightarrow> \<not> has (st_fills st) fid" for fid
    using f by (auto simp: has_iff dest: map_of_SomeD)
  then have fills: "st_fills st' = st_fills st @ fm"
    unfolding st'(3) using cs(2) by (intro put_all_fresh) auto
  have new_total: "fills_total (st_fills st) (order_of c) = 0" if "c \<in> set cs" for c
    using no_fills_unknown [OF assms(1)] c [OF that] by blast
  have old_total: "fills_total fm oid = 0" if "oid \<notin> ?ids" for oid
    using f that by (intro fills_total_none) blast
  have "gomap_wf (st_fills st')" unfolding st'(3) using oms_invD(1) [OF assms(1)] by simp
  moreover have "head_ok st' oid rv" if "map_of (st_current st') oid = Some rv" for oid rv
  proof (cases "oid \<in> ?ids")
    case True
    then obtain d where d: "d \<in> set cs" "oid = order_of d" by auto
    with that fold_place_new [OF cs(1) d(1), of st rv] c [OF d(1)] new_total [OF d(1)] show ?thesis
      by (simp add: head_ok_def hist fills st'(1))
  next
    case False
    with that fold_place_other [OF False, of st rv] oms_invD(2) [OF assms(1), of oid rv] old_total show ?thesis
      by (simp add: head_ok_def hist fills st'(1))
  qed
  moreover have "n \<le> oms_head st' oid" if "oms_history st' oid n = Some d" for oid n d
  proof (cases "oid \<in> ?ids")
    case True
    then obtain e where e: "e \<in> set cs" "oid = order_of e" by auto
    with that fold_place_new [OF cs(1) e(1), of st n] show ?thesis
      by (simp add: oms_head_def st'(1) hist split: if_splits)
  next
    case False
    with that fold_place_other [OF False, of st n] oms_invD(3) [OF assms(1), of oid n d] show ?thesis
      by (simp add: oms_head_def get_or_def st'(1) hist)
  qed
  moreover have "oc_parent d' = oc_checksum d"
    if "oms_history st' oid n = Some d" "oms_history st' oid (Suc n) = Some d'" for oid n d d'
  proof (cases "oid \<in> ?ids")
    case True
    then obtain e where e: "e \<in> set cs" "oid = order_of e" by auto
    with that fold_place_new [OF cs(1) e(1), of st n] fold_place_new [OF cs(1) e(1), of st "Suc n"] show ?thesis
      by (simp add: hist split: if_splits)
  next
    case False
    with that fold_place_other [OF False, of st] oms_invD(4) [OF assms(1), of oid n d d'] show ?thesis
      by (simp add: hist)
  qed
  moreover have "has (st_current st') (fs_order (fl_spec g))" if "map_of (st_fills st') fid = Some g" for fid g
  proof -
    from that have "map_of (st_fills st) fid = Some g \<or> (fid, g) \<in> set fm"
      using map_of_put_all [OF cs(2), of "st_fills st" fid]
      by (auto simp: st'(3) split: option.splits dest: map_of_SomeD)
    with f [of fid g] oms_invD(5) [OF assms(1), of fid g] show ?thesis
      by (auto simp: st'(1) fold_place_has)
  qed
  ultimately show ?thesis unfolding oms_inv_def by blast
qed

section \<open>Registration\<close>

lemma registered_checkpoints_Inr:
  "registered_checkpoints sha plan legs orders = Inr (legs', cs) \<Longrightarrow>
     map oc_order cs = orders \<and> legs' = rev (map (\<lambda>ord. ol_id (leg_of ord)) orders) @ legs \<and>
     (distinct legs \<longrightarrow> distinct legs') \<and>
     (\<forall>ord \<in> set orders. os_plan (ord_spec ord) = op_id plan \<and> revision_of ord = 1)"
proof (induction orders arbitrary: legs legs' cs)
  case (Cons ord orders)
  from Cons.prems obtain c rest where
    c: "NewOrderCheckpoint sha (genesis_checkpoint ord) = Inr c" "cs = c # rest"
    "ol_id (leg_of ord) \<notin> set legs" "os_plan (ord_spec ord) = op_id plan" "revision_of ord = 1"
    "registered_checkpoints sha plan (ol_id (leg_of ord) # legs) orders = Inr (legs', rest)"
    by (auto split: if_splits prod.splits)
  from NewOrderCheckpoint_Inr [OF c(1)] have "oc_order c = ord" by (simp add: genesis_checkpoint_def)
  moreover from Cons.IH [OF c(6)] c(3) have "distinct legs \<longrightarrow> distinct legs'"
    by (metis distinct.simps(2))
  ultimately show ?case using Cons.IH [OF c(6)] c(2,4,5) by simp
qed simp

lemma RegisterPlan_cases:
  assumes "RegisterPlan sha ctx intent plan orders st = (st', x)"
  obtains (refused) e where "st' = st" "x = Inl e"
  | (replay) ev where "st' = st\<lparr>st_telemetry := st_telemetry st @ [ev]\<rparr>" "x = Inr RegistrationIdempotent"
      "has (st_plans st) (op_id plan)"
  | (commit) legs cs stored where "registered_checkpoints sha plan [] orders = Inr (legs, cs)"
      "x = Inr RegistrationCommitted" "length legs = length (op_legs plan)"
      "\<not> has (st_plans st) (op_id plan)" "\<forall>c \<in> set cs. \<not> has (st_current st) (order_of c)"
      "size_of (st_plans st) < lim_plans (st_limits st)"
      "size_of (st_current st) + int (length orders) \<le> lim_orders (st_limits st)"
      "st_current st' = st_current (fold place_checkpoint cs st)"
      "st_checkpoints st' = st_checkpoints (fold place_checkpoint cs st)"
      "st_plans st' = put (op_id plan) stored (st_plans st)" "sp_plan stored = plan"
      "st_fills st' = st_fills st" "st_reports st' = st_reports st"
      "st_publications st' = st_publications st" "st_limits st' = st_limits st"
proof (cases "registered_checkpoints sha plan [] orders")
  case (Inl e)
  with assms have "st' = st \<and> (\<exists>e. x = Inl e)" by (auto simp: RegisterPlan_def split: if_splits)
  then show thesis using refused by blast
next
  case (Inr lc)
  then obtain legs cs where reg: "registered_checkpoints sha plan [] orders = Inr (legs, cs)" by (cases lc) auto
  show thesis
  proof (cases "\<exists>e. x = Inl e")
    case True
    with assms reg have "st' = st" by (auto simp: RegisterPlan_def Let_def split: if_splits option.splits)
    with True show thesis using refused by blast
  next
    case ok: False
    show thesis
    proof (cases "map_of (st_plans st) (op_id plan)")
      case (Some e)
      with assms reg ok show thesis
        by (intro replay) (auto simp: RegisterPlan_def Let_def has_def split: if_splits)
    next
      case None
      with assms reg ok show thesis
        by (intro commit [of legs cs "\<lparr>sp_intent = intent, sp_plan = plan,
              sp_canonical = canonicalPlanBundle intent plan cs [] []\<rparr>"])
          (auto simp: RegisterPlan_def Let_def has_def find_None_iff split: if_splits option.splits)
    qed
  qed
qed

lemma RegisterPlan_inv:
  assumes "oms_inv st" "RegisterPlan sha ctx intent plan orders st = (st', x)"
    "\<forall>ord \<in> set orders. order_built ord" "distinct (map ord_id orders)"
  shows "oms_inv st'"
  using assms(2)
proof (cases rule: RegisterPlan_cases)
  case refused
  with assms(1) show ?thesis by simp
next
  case replay
  then have "oms_inv st' = oms_inv st" by (intro oms_inv_cong) simp_all
  with assms(1) show ?thesis by simp
next
  case (commit legs cs stored)
  note reg = registered_checkpoints_Inr [OF commit(1)]
  have "set (map oc_order cs) = set orders" using reg by simp
  then have orders: "oc_order c \<in> set orders" if "c \<in> set cs" for c using that by auto
  have ids: "map order_of cs = map ord_id orders"
    using reg by (metis (no_types, lifting) comp_apply map_eq_conv map_map)
  have "adopted cs [] st"
    unfolding adopted_def ids
  proof (intro conjI ballI)
    fix c assume c: "c \<in> set cs"
    show "\<not> has (st_current st) (order_of c)" using commit(5) c by blast
    show "order_built (oc_order c)" using assms(3) orders [OF c] by blast
    then show "filled_of (oc_order c) = fills_total [] (order_of c)"
      using reg orders [OF c] by (simp add: order_built_def)
  qed (simp_all add: assms(4))
  from adopt_inv [OF assms(1) this] commit show ?thesis by simp
qed

section \<open>Restoration\<close>

text \<open>
  What the conservation of fills needs from the caller of a restore: every fill is listed once and is
  not in the store yet. The code checks neither.
\<close>

definition fills_fresh :: "fill list \<Rightarrow> oms_store \<Rightarrow> bool" where
  "fills_fresh fs st \<longleftrightarrow> distinct (map fl_id fs) \<and>
     (\<forall>f \<in> set fs. \<not> has (st_fills st) (fl_id f) \<and> 0 \<le> fs_quantity (fl_spec f) \<and> in_i64 (fs_quantity (fl_spec f)))"

lemma restore_fills_Inr:
  assumes "restore_fills known rm fs fm tot = Inr (fm', tot')"
    and "distinct (map fl_id fs)" "\<forall>f \<in> set fs. \<not> has fm (fl_id f) \<and> 0 \<le> fs_quantity (fl_spec f)"
    and "\<forall>oid. 0 \<le> get_or 0 tot oid \<and> get_or 0 tot oid \<le> max_i64"
  shows "fm' = fm @ map (\<lambda>f. (fl_id f, f)) fs \<and> (\<forall>f \<in> set fs. fs_order (fl_spec f) \<in> known) \<and>
    (\<forall>oid. get_or 0 tot' oid = get_or 0 tot oid + fills_total (map (\<lambda>f. (fl_id f, f)) fs) oid)"
  using assms
proof (induction fs arbitrary: fm tot)
  case (Cons f fs)
  define q oid where "q = fs_quantity (fl_spec f)" and "oid = fs_order (fl_spec f)"
  have t: "0 \<le> get_or 0 tot oid" "get_or 0 tot oid \<le> max_i64" "0 \<le> q" "\<not> has fm (fl_id f)"
    using Cons.prems by (auto simp: q_def)
  then have w: "wrap64 (max_i64 - get_or 0 tot oid) = max_i64 - get_or 0 tot oid"
    by (simp add: i64_defs)
  from Cons.prems(1) w have le: "q \<le> max_i64 - get_or 0 tot oid" and known: "oid \<in> known"
    by (auto simp: q_def oid_def Let_def split: if_splits)
  then have w2: "wrap64 (get_or 0 tot oid + q) = get_or 0 tot oid + q"
    using t by (simp add: i64_defs)
  have rest: "restore_fills known rm fs (put (fl_id f) f fm) (put oid (get_or 0 tot oid + q) tot) = Inr (fm', tot')"
    using Cons.prems(1) w2 by (auto simp: q_def oid_def Let_def split: if_splits)
  have "fm' = put (fl_id f) f fm @ map (\<lambda>f. (fl_id f, f)) fs \<and> (\<forall>f \<in> set fs. fs_order (fl_spec f) \<in> known) \<and>
    (\<forall>o'. get_or 0 tot' o' = get_or 0 (put oid (get_or 0 tot oid + q) tot) o' +
       fills_total (map (\<lambda>f. (fl_id f, f)) fs) o')"
  proof (rule Cons.IH [OF rest])
    show "distinct (map fl_id fs)" using Cons.prems(2) by simp
    have "fl_id g \<noteq> fl_id f" if "g \<in> set fs" for g
      using Cons.prems(2) that by (metis distinct.simps(2) image_eqI list.simps(9) set_map)
    then show "\<forall>g \<in> set fs. \<not> has (put (fl_id f) f fm) (fl_id g) \<and> 0 \<le> fs_quantity (fl_spec g)"
      using Cons.prems(3) by simp
    show "\<forall>o'. 0 \<le> get_or 0 (put oid (get_or 0 tot oid + q) tot) o' \<and>
        get_or 0 (put oid (get_or 0 tot oid + q) tot) o' \<le> max_i64"
      using Cons.prems(4) t le by simp
  qed
  with t(4) known show ?case by (auto simp: put_fresh q_def oid_def)
qed simp

lemma restored_fills:
  assumes "restore_fills known rm fs [] [] = Inr (fm, tot)" "fills_fresh fs st"
  shows "fm = map (\<lambda>f. (fl_id f, f)) fs" "gomap_wf fm" "get_or 0 tot oid = fills_total fm oid"
    "(fid, f) \<in> set fm \<Longrightarrow> \<not> has (st_fills st) fid \<and> fs_order (fl_spec f) \<in> known"
proof -
  have r: "fm = [] @ map (\<lambda>f. (fl_id f, f)) fs \<and> (\<forall>f \<in> set fs. fs_order (fl_spec f) \<in> known) \<and>
    (\<forall>oid. get_or 0 tot oid = get_or 0 [] oid + fills_total (map (\<lambda>f. (fl_id f, f)) fs) oid)"
    using assms(2) by (intro restore_fills_Inr [OF assms(1)]) (auto simp: fills_fresh_def max_i64_def get_or_def)
  then show "fm = map (\<lambda>f. (fl_id f, f)) fs" "get_or 0 tot oid = fills_total fm oid"
    by (auto simp: get_or_def)
  with assms(2) show "gomap_wf fm" by (simp add: gomap_wf_def fills_fresh_def comp_def)
  show "(fid, f) \<in> set fm \<Longrightarrow> \<not> has (st_fills st) fid \<and> fs_order (fl_spec f) \<in> known"
    using r assms(2) by (auto simp: fills_fresh_def)
qed

lemma RestoreOrder_cases:
  assumes "RestoreOrder sha ctx c reports fills st = (st', x)"
  obtains (refused) e where "st' = st" "x = Inl e"
  | (commit) v rm fm tot stored where "NewOrderCheckpoint sha c = Inr v" "x = Inr RegistrationCommitted"
      "restore_fills {order_of v} rm fills [] [] = Inr (fm, tot)"
      "get_or 0 tot (order_of v) = filled_of (oc_order v)"
      "map_of (st_plans st) (os_plan (ord_spec (oc_order v))) = Some stored"
      "\<not> has (st_current st) (order_of v)"
      "size_of (st_current st) < lim_orders (st_limits st)"
      "size_of (st_reports st) + size_of rm \<le> lim_reports (st_limits st)"
      "size_of (st_fills st) + size_of fm \<le> lim_fills (st_limits st)"
      "st' = (place_checkpoint v st)\<lparr>st_reports := put_all rm (st_reports st),
         st_fills := put_all fm (st_fills st)\<rparr>"
proof (cases "\<exists>e. x = Inl e")
  case True
  with assms have "st' = st"
    by (auto simp: RestoreOrder_def Let_def split: if_splits option.splits sum.splits)
  with True show thesis using refused by blast
next
  case ok: False
  with assms obtain v rm fm tot stored where r: "NewOrderCheckpoint sha c = Inr v"
    "restore_reports {order_of v} reports [] = Inr rm" "restore_fills {order_of v} rm fills [] [] = Inr (fm, tot)"
    "map_of (st_plans st) (os_plan (ord_spec (oc_order v))) = Some stored"
    by (auto simp: RestoreOrder_def Let_def split: if_splits option.splits sum.splits)
  with assms ok show thesis
    by (intro commit [of v rm fm tot stored])
      (auto simp: RestoreOrder_def Let_def place_checkpoint_views split: if_splits)
qed

lemma RestoreOrder_inv:
  assumes "oms_inv st" "RestoreOrder sha ctx c reports fills st = (st', x)"
    "order_built (oc_order c)" "fills_fresh fills st"
  shows "oms_inv st'"
  using assms(2)
proof (cases rule: RestoreOrder_cases)
  case refused
  with assms(1) show ?thesis by simp
next
  case (commit v rm fm tot stored)
  note f = restored_fills [OF commit(3) assms(4)]
  have "oc_order v = oc_order c" using NewOrderCheckpoint_Inr [OF commit(1)] by simp
  with assms(3) commit f have "adopted [v] fm st" by (auto simp: adopted_def)
  from adopt_inv [OF assms(1) this] commit(10) show ?thesis by simp
qed

lemma restored_checkpoints_Inr:
  "restored_checkpoints sha plan ids cs = Inr (ids', vs) \<Longrightarrow>
     map oc_order vs = map oc_order cs \<and> ids' = rev (map order_of vs) @ ids \<and> (distinct ids \<longrightarrow> distinct ids')"
proof (induction cs arbitrary: ids ids' vs)
  case (Cons c cs)
  from Cons.prems obtain v rest where
    c: "NewOrderCheckpoint sha c = Inr v" "vs = v # rest" "order_of v \<notin> set ids"
    "restored_checkpoints sha plan (order_of v # ids) cs = Inr (ids', rest)"
    by (auto split: if_splits prod.splits sum.splits)
  from NewOrderCheckpoint_Inr [OF c(1)] have "oc_order v = oc_order c" by simp
  moreover from Cons.IH [OF c(4)] c(3) have "distinct ids \<longrightarrow> distinct ids'"
    by (metis distinct.simps(2))
  ultimately show ?case using Cons.IH [OF c(4)] c(2) by simp
qed simp

lemma RestorePlan_cases:
  assumes "RestorePlan sha ctx intent plan cs reports fills st = (st', x)"
  obtains (refused) e where "st' = st" "x = Inl e"
  | (replay) "st' = st" "x = Inr RegistrationIdempotent" "has (st_plans st) (op_id plan)"
  | (commit) ids vs rm fm tot stored where "restored_checkpoints sha plan [] cs = Inr (ids, vs)"
      "x = Inr RegistrationCommitted"
      "restore_fills (set ids) rm fills [] [] = Inr (fm, tot)"
      "\<forall>v \<in> set vs. get_or 0 tot (order_of v) = filled_of (oc_order v)"
      "\<not> has (st_plans st) (op_id plan)"
      "size_of (st_plans st) < lim_plans (st_limits st)"
      "size_of (st_current st) + int (length vs) \<le> lim_orders (st_limits st)"
      "size_of (st_reports st) + size_of rm \<le> lim_reports (st_limits st)"
      "size_of (st_fills st) + size_of fm \<le> lim_fills (st_limits st)"
      "st_current st' = st_current (fold place_checkpoint vs st)"
      "st_checkpoints st' = st_checkpoints (fold place_checkpoint vs st)"
      "st_plans st' = put (op_id plan) stored (st_plans st)"
      "st_reports st' = put_all rm (st_reports st)" "st_fills st' = put_all fm (st_fills st)"
      "st_publications st' = st_publications st" "st_limits st' = st_limits st"
      "restore_reports (set ids) reports [] = Inr rm" "st_report_receipts st' = st_report_receipts st"
proof (cases "\<exists>e. x = Inl e")
  case True
  with assms have "st' = st"
    by (auto simp: RestorePlan_def Let_def split: if_splits option.splits sum.splits)
  with True show thesis using refused by blast
next
  case ok: False
  with assms obtain ids vs rm fm tot where r: "restored_checkpoints sha plan [] cs = Inr (ids, vs)"
    "restore_reports (set ids) reports [] = Inr rm" "restore_fills (set ids) rm fills [] [] = Inr (fm, tot)"
    by (auto simp: RestorePlan_def Let_def split: if_splits sum.splits)
  show thesis
  proof (cases "map_of (st_plans st) (op_id plan)")
    case (Some e)
    with assms r ok show thesis
      by (intro replay) (auto simp: RestorePlan_def Let_def has_def split: if_splits)
  next
    case None
    with assms r ok show thesis
      by (intro commit [of ids vs rm fm tot "\<lparr>sp_intent = intent, sp_plan = plan,
            sp_canonical = canonicalPlanBundle intent plan vs reports fills\<rparr>"])
        (auto simp: RestorePlan_def Let_def has_def split: if_splits)
  qed
qed

lemma RestorePlan_inv:
  assumes "oms_inv st" "RestorePlan sha ctx intent plan cs reports fills st = (st', x)"
    "\<forall>c \<in> set cs. order_built (oc_order c) \<and> \<not> has (st_current st) (order_of c)" "fills_fresh fills st"
  shows "oms_inv st'"
  using assms(2)
proof (cases rule: RestorePlan_cases)
  case refused
  with assms(1) show ?thesis by simp
next
  case replay
  with assms(1) show ?thesis by simp
next
  case (commit ids vs rm fm tot stored)
  note f = restored_fills [OF commit(3) assms(4)]
  note r = restored_checkpoints_Inr [OF commit(1)]
  have "set (map oc_order vs) = set (map oc_order cs)" using r by simp
  then have known: "order_built (oc_order v) \<and> \<not> has (st_current st) (order_of v)" if "v \<in> set vs" for v
    using that assms(3) by (metis (no_types, lifting) image_iff set_map)
  have "adopted vs fm st"
    unfolding adopted_def
  proof (intro conjI ballI)
    show "distinct (map order_of vs)" using r by (auto simp del: distinct_map)
    show "gomap_wf fm" by (rule f)
    show "\<not> has (st_current st) (order_of v)" "order_built (oc_order v)"
      "filled_of (oc_order v) = fills_total fm (order_of v)" if "v \<in> set vs" for v
      using known [OF that] commit(4) that f(3) by auto
    show "case x of (fid, g) \<Rightarrow> \<not> has (st_fills st) fid \<and> fs_order (fl_spec g) \<in> set (map order_of vs)"
      if "x \<in> set fm" for x
      using that f(4) r by (cases x) auto
  qed
  from adopt_inv [OF assms(1) this] commit show ?thesis by simp
qed

section \<open>Limits\<close>

definition oms_bounded :: "oms_store \<Rightarrow> bool" where
  "oms_bounded st \<longleftrightarrow> size_of (st_plans st) \<le> lim_plans (st_limits st) \<and>
     size_of (st_current st) \<le> lim_orders (st_limits st) \<and>
     size_of (st_publications st) \<le> lim_publications (st_limits st) \<and>
     size_of (st_reports st) \<le> lim_reports (st_limits st) \<and> size_of (st_fills st) \<le> lim_fills (st_limits st)"

lemma size_place_le: "size_of (st_current st) + int (length cs) \<le> n \<Longrightarrow>
    size_of (st_current (fold place_checkpoint cs st)) \<le> n"
  using fold_place_length [of cs st] by (simp add: size_of_def)

lemmas size_bounds = size_put_le size_put_all_le size_place_le

lemma RegisterPlan_bounded:
  assumes "oms_bounded st" "RegisterPlan sha ctx intent plan orders st = (st', x)"
  shows "oms_bounded st' \<and> st_limits st' = st_limits st"
  using assms(2)
proof (cases rule: RegisterPlan_cases)
  case (commit legs cs stored)
  have "length cs = length orders"
    using registered_checkpoints_Inr [OF commit(1)] by (metis length_map)
  with assms(1) commit show ?thesis by (auto simp: oms_bounded_def intro: size_bounds)
qed (use assms(1) in \<open>auto simp: oms_bounded_def\<close>)

lemma RestoreOrder_bounded:
  assumes "oms_bounded st" "RestoreOrder sha ctx c reports fills st = (st', x)"
  shows "oms_bounded st' \<and> st_limits st' = st_limits st"
  using assms(2)
proof (cases rule: RestoreOrder_cases)
  case (commit v rm fm tot stored)
  have "size_of (st_current (place_checkpoint v st)) \<le> lim_orders (st_limits st)"
    using size_place_le [of st "[v]"] commit(7) by simp
  with assms(1) commit show ?thesis
    by (auto simp: oms_bounded_def place_checkpoint_views intro: size_bounds)
qed (use assms(1) in \<open>auto simp: oms_bounded_def\<close>)

lemma RestorePlan_bounded:
  assumes "oms_bounded st" "RestorePlan sha ctx intent plan cs reports fills st = (st', x)"
  shows "oms_bounded st' \<and> st_limits st' = st_limits st"
  using assms(2)
  by (cases rule: RestorePlan_cases) (use assms(1) in \<open>auto simp: oms_bounded_def intro: size_bounds\<close>)

lemma PublishOrderEvent_bounded:
  assumes "oms_bounded st" "PublishOrderEvent sha ctx p st = (st', x)"
  shows "oms_bounded st' \<and> st_limits st' = st_limits st"
  using assms(2)
proof (cases rule: PublishOrderEvent_cases)
  case unchanged
  with assms(1) show ?thesis by simp
next
  case (commit v nx)
  from commit(6) show ?thesis
  proof (rule admit_publication_Inr, goal_cases)
    case 1
    have "length (put (ers_order (er_spec (pu_report v))) r (st_current st)) = length (st_current st)" for r
      using 1(1) by (simp add: length_put has_def)
    with assms(1) commit 1 show ?thesis
      by (auto simp: oms_bounded_def commit_publication_def commit_receipt_def Let_def size_of_def length_put
          split: option.splits)
  qed
qed

section \<open>Runs\<close>

text \<open>
  One call of the repository, whatever it returns. The values are ones a caller can hold: orders
  returned by the constructors of \<open>internal/execution/model\<close>, and the genesis orders of a plan carry
  distinct identities, which they derive from distinct legs.
\<close>

inductive oms_step :: "(string \<Rightarrow> digest) \<Rightarrow> oms_store \<Rightarrow> oms_store \<Rightarrow> bool" for sha where
  register: "RegisterPlan sha ctx intent plan orders st = (st', x) \<Longrightarrow>
    \<forall>ord \<in> set orders. order_built ord \<Longrightarrow> distinct (map ord_id orders) \<Longrightarrow> oms_step sha st st'"
| publish: "PublishOrderEvent sha ctx p st = (st', x) \<Longrightarrow> publication_built p \<Longrightarrow> oms_step sha st st'"
| restore_order: "RestoreOrder sha ctx c reports fills st = (st', x) \<Longrightarrow> order_built (oc_order c) \<Longrightarrow>
    fills_fresh fills st \<Longrightarrow> oms_step sha st st'"
| restore_plan: "RestorePlan sha ctx intent plan cs reports fills st = (st', x) \<Longrightarrow>
    \<forall>c \<in> set cs. order_built (oc_order c) \<and> \<not> has (st_current st) (ord_id (oc_order c)) \<Longrightarrow>
    fills_fresh fills st \<Longrightarrow> oms_step sha st st'"
| set_fail: "oms_step sha st (SetFailBeforeCommitForTest b st)"

interpretation oms_run: step_invariant "oms_step sha" oms_inv for sha
proof
  fix s t assume inv: "oms_inv s" and "oms_step sha s t"
  from this(2) show "oms_inv t"
  proof cases
    case (publish ctx p x)
    with inv show ?thesis using oms.inv_publish [of s "(ctx, p)" sha t x] by simp
  next
    case (set_fail b)
    then have "oms_inv t = oms_inv s" by (intro oms_inv_cong) (simp_all add: SetFailBeforeCommitForTest_def)
    with inv show ?thesis by simp
  qed (use inv in \<open>blast intro: RegisterPlan_inv RestoreOrder_inv RestorePlan_inv\<close>)+
qed

interpretation oms_limits: step_invariant "oms_step sha" oms_bounded for sha
proof
  fix s t assume b: "oms_bounded s" and "oms_step sha s t"
  from this(2) show "oms_bounded t"
  proof cases
    case (set_fail b)
    with b show ?thesis by (simp add: SetFailBeforeCommitForTest_def oms_bounded_def)
  next
    case register
    with RegisterPlan_bounded [OF b] show ?thesis by blast
  next
    case publish
    with PublishOrderEvent_bounded [OF b] show ?thesis by blast
  next
    case restore_order
    with RestoreOrder_bounded [OF b] show ?thesis by blast
  next
    case restore_plan
    with RestorePlan_bounded [OF b] show ?thesis by blast
  qed
qed

lemma NewStoreInstrumented_bounded: "oms_bounded (NewStoreInstrumented lim)"
  by (simp add: oms_bounded_def NewStoreInstrumented_def size_of_def DefaultLimits_def not_le
      less_imp_le)

end
