(* ===== verification/Broker.thy ===== *)
theory Broker
  imports Order Repository
begin

text \<open>
  \<open>internal/execution/broker/contracts.go\<close>: the values exchanged with a broker and the port itself. The
  interface is a record of functions over the state of the implementation: each takes whether its context is
  done, the request and the state, and returns the state and the answer. An implementation that panics answers
  \<open>Inl Panic\<close>.
\<close>

record submission =
  sb_attempt :: digest
  sb_order :: digest
  sb_client :: digest
  sb_instrument :: digest
  sb_side :: side
  sb_quantity :: quantity
  sb_limit_price :: price
  sb_submitted_at :: instant

datatype submission_status = SubmissionAccepted | SubmissionRejected | OtherSubmissionStatus string

record submission_result =
  sr_status :: submission_status
  sr_broker_order :: string

record cancellation_request =
  cq_order :: digest
  cq_client :: digest
  cq_broker_order :: string
  cq_requested_at :: instant

record broker_event =
  be_event :: string
  be_execution :: string
  be_client :: digest
  be_broker_order :: string
  be_type :: report_type
  be_reason :: transition_reason
  be_cumulative :: int
  be_quantity :: int
  be_price :: price
  be_occurred_at :: instant

record event_batch =
  eb_events :: "broker_event list"
  eb_next :: nat
  eb_complete :: bool

record fill_snapshot =
  fn_execution :: string
  fn_quantity :: int
  fn_cumulative :: int
  fn_price :: price
  fn_occurred_at :: instant

record order_snapshot =
  sn_client :: digest
  sn_broker_order :: string
  sn_instrument :: digest
  sn_side :: side
  sn_quantity :: quantity
  sn_limit_price :: price
  sn_state :: order_state
  sn_cumulative :: int
  sn_fills :: "fill_snapshot list"
  sn_updated_at :: instant

record broker_snapshot =
  bk_orders :: "order_snapshot list"
  bk_complete :: bool
  bk_cursor :: nat
  bk_observed_at :: instant

record 'b port =
  port_submit :: "bool \<Rightarrow> submission \<Rightarrow> 'b \<Rightarrow> 'b \<times> submission_result result"
  port_lookup :: "bool \<Rightarrow> digest \<Rightarrow> 'b \<Rightarrow> 'b \<times> order_snapshot result"
  port_cancel :: "bool \<Rightarrow> cancellation_request \<Rightarrow> 'b \<Rightarrow> 'b \<times> bool result"
  port_events :: "bool \<Rightarrow> nat \<Rightarrow> int \<Rightarrow> 'b \<Rightarrow> 'b \<times> event_batch result"
  port_snapshot :: "bool \<Rightarrow> int \<Rightarrow> 'b \<Rightarrow> 'b \<times> broker_snapshot result"

end
