(* ===== verification/Exec_Coordinator.thy ===== *)
theory Exec_Coordinator
  imports Oms_Store Broker
begin

text \<open>
  \<open>internal/execution/coordinator/coordinator.go\<close>: the coordinator that takes the orders of a plan to the broker
  and the broker's events to the order store.

  A handler is a state-passing function on a world: the order store, the state of the broker and the
  coordinator's fields. What the handler does not control is given by an environment, indexed by the number of
  accesses to the store and the broker made so far: whether its context is done, what other goroutines did to the
  store and the broker just before the access, and which orders other goroutines hold at that moment. The world also
  records the submissions sent, each with the order store at that moment; nothing reads that record. Telemetry
  is left out.
\<close>

section \<open>Configuration and state\<close>

record exec_config =
  xg_max_plans :: int
  xg_broker_timeout :: int
  xg_retries :: int
  xg_batch :: int

definition DefaultConfig_exec :: exec_config where
  "DefaultConfig_exec = \<lparr>xg_max_plans = 4, xg_broker_timeout = 1000000000, xg_retries = 3, xg_batch = 100\<rparr>"

record exec_coord =
  xc_config :: exec_config
  xc_plans :: "(digest, string) gomap"
  xc_orders :: "(digest, bool) gomap"
  xc_closed :: bool
  xc_waiting :: int
  xc_cursor :: nat

definition NewExecCoordinator :: "exec_config \<Rightarrow> exec_coord result" where
  "NewExecCoordinator config =
     (if xg_max_plans config \<le> 0 \<or> xg_max_plans config > 64 \<or> xg_broker_timeout config \<le> 0 \<or>
         xg_broker_timeout config > 60000000000 \<or> xg_retries config < 0 \<or> xg_retries config > 10 \<or>
         xg_batch config \<le> 0 \<or> xg_batch config > 1000
      then Inl (Coordinator ErrInvalidCoordinator)
      else Inr \<lparr>xc_config = config, xc_plans = [], xc_orders = [], xc_closed = False, xc_waiting = 0, xc_cursor = 0\<rparr>)"

datatype plan_outcome =
    OutcomeCompleted | OutcomePending | OutcomeIncomplete | OutcomeUnknown | OutcomeDuplicateCommitted
  | OutcomeDuplicateInProgress | OutcomeBusy | OutcomeShutdown | NoOutcome

record plan_receipt =
  pl_plan :: digest
  pl_outcome :: plan_outcome
  pl_orders :: "digest list"

type_synonym order_receipt = "digest \<times> order_state"

record 'b world =
  w_store :: oms_store
  w_broker :: 'b
  w_coord :: exec_coord
  w_now :: nat
  w_sent :: "(submission \<times> oms_store) list"

record 'b exec_env =
  xe_ctx :: "nat \<Rightarrow> ctx"
  xe_others :: "nat \<Rightarrow> 'b world \<Rightarrow> oms_store \<times> 'b"
  xe_busy :: "nat \<Rightarrow> digest \<Rightarrow> bool"
  xe_select :: select_outcome

section \<open>Steps of a handler\<close>

type_synonym ('b, 'a) op = "'b world \<Rightarrow> 'a result \<times> 'b world"

definition ret :: "'a \<Rightarrow> ('b, 'a) op" where
  "ret x w = (Inr x, w)"

definition fail :: "error \<Rightarrow> ('b, 'a) op" where
  "fail e w = (Inl e, w)"

definition lift_r :: "'a result \<Rightarrow> ('b, 'a) op" where
  "lift_r x w = (x, w)"

text \<open>Go on with the answer, error or not; go on with the value, returning at an error.\<close>

definition andThen :: "('b, 'a) op \<Rightarrow> ('a result \<Rightarrow> ('b, 'c) op) \<Rightarrow> ('b, 'c) op" where
  "andThen m f w = (let (x, w') = m w in f x w')"

definition bind_op :: "('b, 'a) op \<Rightarrow> ('a \<Rightarrow> ('b, 'c) op) \<Rightarrow> ('b, 'c) op" where
  "bind_op m f = andThen m (\<lambda>x. case x of Inl e \<Rightarrow> fail e | Inr y \<Rightarrow> f y)"

text \<open>One access: the other goroutines first, then the call.\<close>

definition tick :: "'b exec_env \<Rightarrow> 'b world \<Rightarrow> 'b world" where
  "tick env w = (let (s, b) = xe_others env (w_now w) w in
     w\<lparr>w_store := s, w_broker := b, w_now := Suc (w_now w)\<rparr>)"

definition access :: "'b exec_env \<Rightarrow> (ctx \<Rightarrow> oms_store \<Rightarrow> oms_store \<times> 'a result) \<Rightarrow> ('b, 'a) op" where
  "access env f w = (let w' = tick env w; (s, x) = f (xe_ctx env (w_now w)) (w_store w') in (x, w'\<lparr>w_store := s\<rparr>))"

definition query :: "'b exec_env \<Rightarrow> (ctx \<Rightarrow> oms_store \<Rightarrow> 'a result) \<Rightarrow> ('b, 'a) op" where
  "query env f = access env (\<lambda>ctx s. (s, f ctx s))"

text \<open>A call of the broker. A panic is recovered and answered with \<open>recovered\<close>.\<close>

definition invoke :: "'b exec_env \<Rightarrow> error \<Rightarrow> (bool \<Rightarrow> 'b \<Rightarrow> 'b \<times> 'a result) \<Rightarrow> ('b, 'a) op" where
  "invoke env recovered f w =
     (let w' = tick env w; (b, x) = f (fst (xe_ctx env (w_now w))) (w_broker w') in
      (case x of Inl Panic \<Rightarrow> Inl recovered | _ \<Rightarrow> x, w'\<lparr>w_broker := b\<rparr>))"

definition invokeSubmit :: "'b port \<Rightarrow> 'b exec_env \<Rightarrow> submission \<Rightarrow> ('b, submission_result) op" where
  "invokeSubmit port env request w =
     (let (x, w') = invoke env (Broker ErrOutcomeUnknown) (\<lambda>d. port_submit port d request) w in
      (x, w'\<lparr>w_sent := w_sent w' @ [(request, w_store w')]\<rparr>))"

definition invokeLookup :: "'b port \<Rightarrow> 'b exec_env \<Rightarrow> digest \<Rightarrow> ('b, order_snapshot) op" where
  "invokeLookup port env client = invoke env (Broker ErrUnavailable) (\<lambda>d. port_lookup port d client)"

definition invokeEvents :: "'b port \<Rightarrow> 'b exec_env \<Rightarrow> ('b, event_batch) op" where
  "invokeEvents port env w =
     invoke env (Broker ErrUnavailable)
       (\<lambda>d. port_events port d (xc_cursor (w_coord w)) (xg_batch (xc_config (w_coord w)))) w"

definition invokeCancel :: "'b port \<Rightarrow> 'b exec_env \<Rightarrow> cancellation_request \<Rightarrow> ('b, bool) op" where
  "invokeCancel port env request = invoke env (Broker ErrOutcomeUnknown) (\<lambda>d. port_cancel port d request)"

section \<open>Reservations\<close>

definition reservePlan :: "digest \<Rightarrow> string \<Rightarrow> exec_coord \<Rightarrow> exec_coord \<times> plan_outcome" where
  "reservePlan pid trigger c =
     (if xc_closed c then (c, OutcomeShutdown)
      else case map_of (xc_plans c) pid of
        Some existing \<Rightarrow> (c, if existing = trigger then OutcomeDuplicateInProgress else OutcomeBusy)
      | None \<Rightarrow> (c\<lparr>xc_plans := put pid trigger (xc_plans c), xc_waiting := xc_waiting c + 1\<rparr>, NoOutcome))"

definition releasePlan :: "digest \<Rightarrow> exec_coord \<Rightarrow> exec_coord" where
  "releasePlan pid c = c\<lparr>xc_plans := AList.delete pid (xc_plans c)\<rparr>"

definition reserveOrder :: "'b exec_env \<Rightarrow> digest \<Rightarrow> 'b world \<Rightarrow> bool \<times> 'b world" where
  "reserveOrder env oid w =
     (let c = w_coord w in
      if xc_closed c \<or> get_or False (xc_orders c) oid \<or> xe_busy env (w_now w) oid then (False, w)
      else (True, w\<lparr>w_coord := c\<lparr>xc_orders := put oid True (xc_orders c)\<rparr>\<rparr>))"

definition releaseOrder :: "digest \<Rightarrow> 'b world \<Rightarrow> 'b world" where
  "releaseOrder oid w = w\<lparr>w_coord := (w_coord w)\<lparr>xc_orders := AList.delete oid (xc_orders (w_coord w))\<rparr>\<rparr>"

text \<open>\<open>reserveOrder\<close> with \<open>ErrOrderBusy\<close> as the way out, and with a deferred \<open>releaseOrder\<close>.\<close>

definition reserving :: "'b exec_env \<Rightarrow> digest \<Rightarrow> ('b, 'a) op \<Rightarrow> ('b, 'a) op" where
  "reserving env oid m w =
     (case reserveOrder env oid w of (False, w') \<Rightarrow> (Inl (Coordinator ErrOrderBusy), w') | (True, w') \<Rightarrow> m w')"

definition releasing :: "digest \<Rightarrow> ('b, 'a) op \<Rightarrow> ('b, 'a) op" where
  "releasing oid m w = (let (x, w') = m w in (x, releaseOrder oid w'))"

section \<open>Publication\<close>

text \<open>The identities whose error the code discards are zero where the constructor fails.\<close>

definition id_or_zero :: "digest result \<Rightarrow> digest" where
  "id_or_zero x = (case x of Inl _ \<Rightarrow> 0 | Inr i \<Rightarrow> i)"

definition next_checkpoint :: "order_checkpoint \<Rightarrow> order \<Rightarrow> execution_report \<Rightarrow> fill option \<Rightarrow> order_checkpoint" where
  "next_checkpoint checkpoint next report fopt =
     \<lparr>oc_order = next, oc_order_checksum = 0, oc_parent = oc_checksum checkpoint, oc_report = er_id report,
      oc_fill = (case fopt of None \<Rightarrow> 0 | Some f \<Rightarrow> fl_id f), oc_checksum = 0, oc_raw = []\<rparr>"

definition publication_of ::
  "(string \<Rightarrow> digest) \<Rightarrow> digest \<Rightarrow> order_checkpoint \<Rightarrow> execution_report \<Rightarrow> fill option \<Rightarrow> order_checkpoint \<Rightarrow> order_publication"
where
  "publication_of sha oid checkpoint report fopt nextCheckpoint =
     \<lparr>pu_id = id_or_zero (NewPublicationID sha [digest_string oid, digest_string (er_id report)]),
      pu_expected_revision = os_revision (ord_spec (oc_order checkpoint)), pu_expected_checkpoint = oc_checksum checkpoint,
      pu_report = report, pu_fill = fopt, pu_next = nextCheckpoint, pu_checksum = 0, pu_raw = []\<rparr>"

text \<open>From the checkpoint that was read to the next order and the publication.\<close>

definition prepare_order ::
  "(string \<Rightarrow> digest) \<Rightarrow> digest \<Rightarrow> order_checkpoint \<Rightarrow> execution_report \<Rightarrow> fill option \<Rightarrow> (order \<times> order_publication) result"
where
  "prepare_order sha oid checkpoint report fopt =
     bind_r (ApplyExecutionReport (oc_order checkpoint) report fopt) (\<lambda>next.
     bind_r (NewOrderCheckpoint sha (next_checkpoint checkpoint next report fopt)) (\<lambda>nextCheckpoint.
     bind_r (NewOrderPublication sha (publication_of sha oid checkpoint report fopt nextCheckpoint)) (\<lambda>publication.
     Inr (next, publication))))"

definition publish ::
  "(string \<Rightarrow> digest) \<Rightarrow> 'b exec_env \<Rightarrow> digest \<Rightarrow> execution_report \<Rightarrow> fill option \<Rightarrow> ('b, order) op" where
  "publish sha env oid report fopt =
     bind_op (query env (\<lambda>ctx. CurrentOrderCheckpoint ctx oid)) (\<lambda>checkpoint.
     bind_op (lift_r (prepare_order sha oid checkpoint report fopt)) (\<lambda>(next, publication).
     bind_op (access env (\<lambda>ctx. PublishOrderEvent sha ctx publication)) (\<lambda>_.
     ret next)))"

definition publishInternalWithBroker ::
  "(string \<Rightarrow> digest) \<Rightarrow> 'b exec_env \<Rightarrow> order \<Rightarrow> report_type \<Rightarrow> transition_reason \<Rightarrow> instant \<Rightarrow> string \<Rightarrow> string \<Rightarrow>
   ('b, order) op" where
  "publishInternalWithBroker sha env order kind reason at key brokerID =
     bind_op (lift_r (NewExecutionReport sha
       \<lparr>ers_schema = ''execution-report/v1'', ers_source = ''COORDINATOR'',
        ers_source_event = digest_string (ord_id order) @ ''-'' @ key, ers_order = ord_id order,
        ers_client = ord_client order, ers_broker_order = brokerID, ers_type = kind, ers_reason = reason,
        ers_cumulative = os_filled (ord_spec order), ers_occurred_at = at, ers_received_at = at\<rparr>)) (\<lambda>report.
     publish sha env (ord_id order) report None)"

definition publishInternal ::
  "(string \<Rightarrow> digest) \<Rightarrow> 'b exec_env \<Rightarrow> order \<Rightarrow> report_type \<Rightarrow> transition_reason \<Rightarrow> instant \<Rightarrow> string \<Rightarrow> ('b, order) op"
where
  "publishInternal sha env order kind reason at key =
     publishInternalWithBroker sha env order kind reason at key (os_broker_order (ord_spec order))"

section \<open>Recovery and submission\<close>

definition same_terms :: "order_snapshot \<Rightarrow> order_leg \<Rightarrow> bool" where
  "same_terms snapshot leg \<longleftrightarrow>
     sn_instrument snapshot = ol_instrument leg \<and> sn_side snapshot = ol_side leg \<and> sn_quantity snapshot = ol_quantity leg \<and>
     price_minor (sn_limit_price snapshot) = price_minor (ol_limit_price leg) \<and>
     price_currency (sn_limit_price snapshot) = price_currency (ol_limit_price leg)"

definition recoverUnknown ::
  "(string \<Rightarrow> digest) \<Rightarrow> 'b port \<Rightarrow> 'b exec_env \<Rightarrow> order \<Rightarrow> instant \<Rightarrow> ('b, order) op" where
  "recoverUnknown sha port env order at =
     bind_op (invokeLookup port env (ord_client order)) (\<lambda>snapshot.
     if \<not> same_terms snapshot (os_leg (ord_spec order)) then fail (Broker ErrIdentityConflict)
     else publishInternalWithBroker sha env order ReportSubmitted ReasonBrokerAccepted at
            (''recovered-'' @ sn_broker_order snapshot) (sn_broker_order snapshot))"

text \<open>The retries: a further attempt follows only a submission the broker answered with \<open>ErrUnavailable\<close>.\<close>

fun submit_attempts ::
  "'b port \<Rightarrow> 'b exec_env \<Rightarrow> submission \<Rightarrow> nat \<Rightarrow> ('b, submission_result) op" where
  "submit_attempts port env request retries =
     andThen (invokeSubmit port env request) (\<lambda>x.
     case retries of
       Suc n \<Rightarrow> if x = Inl (Broker ErrUnavailable) then submit_attempts port env request n else lift_r x
     | 0 \<Rightarrow> lift_r x)"

declare submit_attempts.simps [simp del]

definition submission_of :: "digest \<Rightarrow> order \<Rightarrow> instant \<Rightarrow> submission" where
  "submission_of attemptID current at =
     \<lparr>sb_attempt = attemptID, sb_order = ord_id current, sb_client = ord_client current,
      sb_instrument = ol_instrument (os_leg (ord_spec current)), sb_side = ol_side (os_leg (ord_spec current)),
      sb_quantity = ol_quantity (os_leg (ord_spec current)), sb_limit_price = ol_limit_price (os_leg (ord_spec current)),
      sb_submitted_at = at\<rparr>"

text \<open>The broker's answer to a submission, published.\<close>

definition settle_submission ::
  "(string \<Rightarrow> digest) \<Rightarrow> 'b port \<Rightarrow> 'b exec_env \<Rightarrow> digest \<Rightarrow> order \<Rightarrow> instant \<Rightarrow> submission_result result \<Rightarrow>
   ('b, order_receipt) op" where
  "settle_submission sha port env attemptID current at answer =
     (case answer of
        Inl _ \<Rightarrow>
          bind_op (publishInternal sha env current ReportUnknown ReasonSubmissionOutcomeUnknown at
                     (digest_string attemptID @ ''-unknown'')) (\<lambda>unknown.
          andThen (recoverUnknown sha port env unknown at) (\<lambda>x.
          case x of Inr recovered \<Rightarrow> ret (ord_id recovered, os_state (ord_spec recovered))
          | Inl _ \<Rightarrow> fail (Coordinator ErrUnknownOutcome)))
      | Inr result \<Rightarrow>
          bind_op (if sr_status result = SubmissionRejected
             then publishInternalWithBroker sha env current ReportRejected ReasonBrokerRejected at
                    (digest_string attemptID @ ''-rejected'') (sr_broker_order result)
             else publishInternalWithBroker sha env current ReportSubmitted ReasonBrokerAccepted at
                    (digest_string attemptID @ ''-submitted'') (sr_broker_order result)) (\<lambda>next.
          ret (ord_id next, os_state (ord_spec next))))"

definition attempt_id :: "(string \<Rightarrow> digest) \<Rightarrow> digest \<Rightarrow> order \<Rightarrow> instant \<Rightarrow> digest" where
  "attempt_id sha oid current at = id_or_zero (NewSubmissionAttemptID sha
     [digest_string oid, dec_nat (os_revision (ord_spec current)), rfc3339_nano at])"

definition submit ::
  "(string \<Rightarrow> digest) \<Rightarrow> 'b port \<Rightarrow> 'b exec_env \<Rightarrow> order \<Rightarrow> instant \<Rightarrow> ('b, order_receipt) op" where
  "submit sha port env order at =
     reserving env (ord_id order) (releasing (ord_id order) (
     bind_op (query env (\<lambda>ctx. OMS_Order ctx (ord_id order))) (\<lambda>current.
     if os_state (ord_spec current) \<noteq> OrderPlanned then ret (ord_id current, os_state (ord_spec current))
     else let attemptID = attempt_id sha (ord_id order) current at in
     bind_op (publishInternal sha env current ReportSubmissionPending ReasonSubmissionStarted at
                (digest_string attemptID @ ''-pending'')) (\<lambda>pending w.
     andThen (submit_attempts port env (submission_of attemptID pending at) (nat (xg_retries (xc_config (w_coord w)))))
       (settle_submission sha port env attemptID pending at) w))))"

section \<open>Broker events\<close>

definition staleBrokerEvent :: "order \<Rightarrow> broker_event \<Rightarrow> bool" where
  "staleBrokerEvent order event \<longleftrightarrow>
     be_cumulative event < os_filled (ord_spec order) \<or>
     (os_state (ord_spec order) = OrderFilled \<and> be_type event \<noteq> ReportFill) \<or>
     (os_state (ord_spec order) = OrderPartiallyFilled \<and>
        (be_type event = ReportAcknowledged \<or> be_type event = ReportSubmitted))"

definition event_report_spec :: "order \<Rightarrow> broker_event \<Rightarrow> instant \<Rightarrow> execution_report_spec" where
  "event_report_spec order event receivedAt =
     \<lparr>ers_schema = ''execution-report/v1'', ers_source = ''BROKER'', ers_source_event = be_event event,
      ers_order = ord_id order, ers_client = ord_client order, ers_broker_order = be_broker_order event,
      ers_type = be_type event, ers_reason = be_reason event, ers_cumulative = be_cumulative event,
      ers_occurred_at = be_occurred_at event, ers_received_at = receivedAt\<rparr>"

text \<open>The fill of an event, where it has one.\<close>

definition event_fill ::
  "(string \<Rightarrow> digest) \<Rightarrow> order \<Rightarrow> broker_event \<Rightarrow> execution_report \<Rightarrow> fill option result" where
  "event_fill sha order event report =
     (if be_quantity event > 0 then
        bind_r (NewQuantity (be_quantity event)) (\<lambda>quantity.
        bind_r (NewFill sha
          \<lparr>fs_schema = ''fill/v1'', fs_source = ''BROKER'', fs_source_execution = be_execution event,
           fs_order = ord_id order, fs_report = er_id report, fs_quantity = quantity, fs_price = be_price event,
           fs_occurred_at = be_occurred_at event\<rparr>) (\<lambda>value. Inr (Some value)))
      else Inr None)"

definition PublishBrokerEvent ::
  "(string \<Rightarrow> digest) \<Rightarrow> 'b exec_env \<Rightarrow> broker_event \<Rightarrow> instant \<Rightarrow> ('b, order_receipt) op" where
  "PublishBrokerEvent sha env event receivedAt =
     bind_op (query env (\<lambda>ctx. OrderByClientOrderID ctx (be_client event))) (\<lambda>order.
     reserving env (ord_id order) (releasing (ord_id order) (
     bind_op (lift_r (NewExecutionReport sha (event_report_spec order event receivedAt))) (\<lambda>report.
     bind_op (query env (\<lambda>ctx. Reports ctx (ord_id order))) (\<lambda>existingReports.
     case find (\<lambda>existing. er_id existing = er_id report) existingReports of
       Some existing \<Rightarrow>
         if er_raw existing \<noteq> er_raw report
         then fail (Oms (IdentityCollisionError ''report'' (digest_string (er_id report))))
         else ret (ord_id order, os_state (ord_spec order))
     | None \<Rightarrow>
         if staleBrokerEvent order event then ret (ord_id order, os_state (ord_spec order))
         else bind_op (lift_r (event_fill sha order event report)) (\<lambda>fopt.
           bind_op (publish sha env (ord_id order) report fopt) (\<lambda>next.
           ret (ord_id next, os_state (ord_spec next)))))))))"

text \<open>\<open>errors.Is\<close> for the sentinel errors that other errors wrap.\<close>

definition is_identity_collision :: "error \<Rightarrow> bool" where
  "is_identity_collision e \<longleftrightarrow>
     (case e of Oms ErrIdentityCollision \<Rightarrow> True | Oms (IdentityCollisionError _ _) \<Rightarrow> True | _ \<Rightarrow> False)"

fun drain_events ::
  "(string \<Rightarrow> digest) \<Rightarrow> 'b exec_env \<Rightarrow> instant \<Rightarrow> broker_event list \<Rightarrow> ('b, unit) op" where
  "drain_events sha env receivedAt [] = ret ()"
| "drain_events sha env receivedAt (event # events) =
     andThen (PublishBrokerEvent sha env event receivedAt) (\<lambda>x.
     case x of
       Inl e \<Rightarrow> if \<not> is_identity_collision e \<and> e \<noteq> Oms ErrNotFound then fail e
                else drain_events sha env receivedAt events
     | Inr _ \<Rightarrow> drain_events sha env receivedAt events)"

definition DrainEvents ::
  "(string \<Rightarrow> digest) \<Rightarrow> 'b port \<Rightarrow> 'b exec_env \<Rightarrow> instant \<Rightarrow> ('b, unit) op" where
  "DrainEvents sha port env receivedAt =
     bind_op (invokeEvents port env) (\<lambda>batch.
     bind_op (drain_events sha env receivedAt (eb_events batch)) (\<lambda>_ w.
     (Inr (), w\<lparr>w_coord := (w_coord w)\<lparr>xc_cursor := eb_next batch\<rparr>\<rparr>)))"

text \<open>The two places that go on when the broker has no events to offer because it is unavailable.\<close>

definition drain_tolerant ::
  "(string \<Rightarrow> digest) \<Rightarrow> 'b port \<Rightarrow> 'b exec_env \<Rightarrow> instant \<Rightarrow> ('b, unit) op" where
  "drain_tolerant sha port env at =
     andThen (DrainEvents sha port env at) (\<lambda>x.
     case x of Inl e \<Rightarrow> if e \<noteq> Broker ErrUnavailable then fail e else ret () | Inr _ \<Rightarrow> ret ())"

section \<open>Executing a plan\<close>

definition dependenciesFilled :: "order_leg \<Rightarrow> (digest, order) gomap \<Rightarrow> bool" where
  "dependenciesFilled leg orders \<longleftrightarrow>
     list_all (\<lambda>i. case map_of orders i of None \<Rightarrow> False | Some ord \<Rightarrow> os_state (ord_spec ord) = OrderFilled)
       (ol_depends_on leg)"

definition allFilled :: "order list \<Rightarrow> bool" where
  "allFilled values \<longleftrightarrow> values \<noteq> [] \<and> list_all (\<lambda>v. os_state (ord_spec v) = OrderFilled) values"

definition anyState :: "order list \<Rightarrow> order_state \<Rightarrow> bool" where
  "anyState values state \<longleftrightarrow> list_ex (\<lambda>v. os_state (ord_spec v) = state) values"

definition anyTerminalFailure :: "order list \<Rightarrow> bool" where
  "anyTerminalFailure values \<longleftrightarrow>
     list_ex (\<lambda>v. os_state (ord_spec v) \<in> {OrderRejected, OrderCancelled, OrderExpired, OrderFailed}) values"

definition by_leg :: "order list \<Rightarrow> (digest, order) gomap" where
  "by_leg orders = fold (\<lambda>ord m. put (ol_id (os_leg (ord_spec ord))) ord m) orders []"

text \<open>Recovery under the reservation that is already held; a failure leaves the maps as they are.\<close>

definition recover_leg ::
  "(string \<Rightarrow> digest) \<Rightarrow> 'b port \<Rightarrow> 'b exec_env \<Rightarrow> instant \<Rightarrow> order_leg \<Rightarrow> order \<Rightarrow> (digest, order) gomap \<times> bool \<Rightarrow>
   ('b, (digest, order) gomap \<times> bool) op" where
  "recover_leg sha port env at leg order state =
     andThen (releasing (ord_id order) (recoverUnknown sha port env order at)) (\<lambda>x.
     case x of Inr recovered \<Rightarrow> ret (put (ol_id leg) recovered (fst state), True) | Inl _ \<Rightarrow> ret state)"

text \<open>
  One leg of one round. On a failed publication of the first branch the code has already overwritten \<open>order\<close>
  with the zero order that \<open>publishInternal\<close> returned, so that it is the zero identity that is released.
\<close>

definition leg_step ::
  "(string \<Rightarrow> digest) \<Rightarrow> 'b port \<Rightarrow> 'b exec_env \<Rightarrow> instant \<Rightarrow> order_leg \<Rightarrow> (digest, order) gomap \<times> bool \<Rightarrow>
   ('b, (digest, order) gomap \<times> bool) op" where
  "leg_step sha port env at leg state =
     (let order = get_or zero_order (fst state) (ol_id leg) in
      if os_state (ord_spec order) = OrderSubmissionPending then
        reserving env (ord_id order) (
        andThen (publishInternal sha env order ReportUnknown ReasonSubmissionOutcomeUnknown at
                   (''restart-unknown-'' @ dec_nat (os_revision (ord_spec order)))) (\<lambda>x.
        case x of
          Inl e \<Rightarrow> releasing (ord_id zero_order) (fail e)
        | Inr unknown \<Rightarrow> recover_leg sha port env at leg unknown (put (ol_id leg) unknown (fst state), True)))
      else if os_state (ord_spec order) = OrderUnknown then
        reserving env (ord_id order) (recover_leg sha port env at leg order state)
      else if os_state (ord_spec order) = OrderCreated then
        reserving env (ord_id order) (
        bind_op (releasing (ord_id order)
          (publishInternal sha env order ReportPlanned ReasonPlanned at ''planned'')) (\<lambda>_.
        ret (fst state, True)))
      else if os_state (ord_spec order) \<noteq> OrderPlanned \<or> \<not> dependenciesFilled leg (fst state) then ret state
      else if ol_side leg = SideSell \<and> \<not> dependenciesFilled leg (fst state) then fail (Execution ErrUnsafeLegSequence)
      else
        andThen (submit sha port env order at) (\<lambda>x.
        case x of
          Inl e \<Rightarrow>
            if e \<noteq> Coordinator ErrUnknownOutcome then fail e
            else bind_op (drain_tolerant sha port env at) (\<lambda>_. ret (fst state, True))
        | Inr _ \<Rightarrow> bind_op (drain_tolerant sha port env at) (\<lambda>_. ret (fst state, True))))"

fun legs_loop ::
  "(string \<Rightarrow> digest) \<Rightarrow> 'b port \<Rightarrow> 'b exec_env \<Rightarrow> instant \<Rightarrow> order_leg list \<Rightarrow> (digest, order) gomap \<times> bool \<Rightarrow>
   ('b, (digest, order) gomap \<times> bool) op" where
  "legs_loop sha port env at [] state = ret state"
| "legs_loop sha port env at (leg # legs) state =
     bind_op (leg_step sha port env at leg state) (legs_loop sha port env at legs)"

definition round_step ::
  "(string \<Rightarrow> digest) \<Rightarrow> 'b port \<Rightarrow> 'b exec_env \<Rightarrow> instant \<Rightarrow> order_plan \<Rightarrow> ('b, bool) op" where
  "round_step sha port env at plan =
     bind_op (query env (\<lambda>ctx. OrdersForPlan ctx (op_id plan))) (\<lambda>orders.
     bind_op (legs_loop sha port env at (op_legs plan) (by_leg orders, False)) (\<lambda>(_, progress). ret progress))"

text \<open>The rounds; the loop of the code has no bound, so that the fuel may run out.\<close>

fun rounds ::
  "nat \<Rightarrow> (string \<Rightarrow> digest) \<Rightarrow> 'b port \<Rightarrow> 'b exec_env \<Rightarrow> instant \<Rightarrow> order_plan \<Rightarrow> 'b world \<Rightarrow> (unit result \<times> 'b world) option"
where
  "rounds 0 sha port env at plan w = None"
| "rounds (Suc n) sha port env at plan w =
     (case round_step sha port env at plan w of
        (Inl e, w') \<Rightarrow> Some (Inl e, w')
      | (Inr progress, w') \<Rightarrow> if progress then rounds n sha port env at plan w' else Some (Inr (), w'))"

definition final_outcome :: "order list \<Rightarrow> plan_outcome \<times> error option" where
  "final_outcome orders =
     (if allFilled orders then (OutcomeCompleted, None)
      else if anyState orders OrderUnknown then (OutcomeUnknown, Some (Coordinator ErrUnknownOutcome))
      else if anyTerminalFailure orders then (OutcomeIncomplete, None)
      else (OutcomePending, None))"

text \<open>From the acquired semaphore to the receipt; the last read ignores its error.\<close>

definition run_plan ::
  "nat \<Rightarrow> (string \<Rightarrow> digest) \<Rightarrow> 'b port \<Rightarrow> 'b exec_env \<Rightarrow> instant \<Rightarrow> order_plan \<Rightarrow> plan_receipt \<Rightarrow> 'b world \<Rightarrow>
   ((plan_receipt \<times> error option) \<times> 'b world) option" where
  "run_plan fuel sha port env at plan receipt w =
     (case drain_tolerant sha port env at w of
        (Inl e, w1) \<Rightarrow> Some ((receipt, Some e), w1)
      | (Inr _, w1) \<Rightarrow>
      case rounds fuel sha port env at plan w1 of
        None \<Rightarrow> None
      | Some (Inl e, w2) \<Rightarrow> Some ((receipt, Some e), w2)
      | Some (Inr _, w2) \<Rightarrow>
      case query env (\<lambda>ctx. OrdersForPlan ctx (op_id plan)) w2 of (x, w3) \<Rightarrow>
      let (result, err) = final_outcome (case x of Inl _ \<Rightarrow> [] | Inr orders \<Rightarrow> orders) in
      Some ((receipt\<lparr>pl_outcome := result\<rparr>, err), w3))"

text \<open>
  \<open>reservePlan\<close>, the select and the deferred \<open>releasePlan\<close> and \<open>wait.Done\<close> around the run.
\<close>

definition reserved_run ::
  "nat \<Rightarrow> (string \<Rightarrow> digest) \<Rightarrow> 'b port \<Rightarrow> 'b exec_env \<Rightarrow> instant \<Rightarrow> order_plan \<Rightarrow> plan_receipt \<Rightarrow> 'b world \<Rightarrow>
   ((plan_receipt \<times> error option) \<times> 'b world) option" where
  "reserved_run fuel sha port env at plan receipt w =
     (let trigger = digest_string (op_id plan) @ ''|'' @ rfc3339_nano at;
          (c, outcome) = reservePlan (op_id plan) trigger (w_coord w);
          w = w\<lparr>w_coord := c\<rparr>;
          finish = (\<lambda>w. w\<lparr>w_coord := (releasePlan (op_id plan) (w_coord w))\<lparr>xc_waiting := xc_waiting (w_coord w) - 1\<rparr>\<rparr>) in
      if outcome \<noteq> NoOutcome then
        Some ((receipt\<lparr>pl_outcome := outcome\<rparr>,
          Some (Coordinator (if outcome = OutcomeDuplicateInProgress then ErrDuplicateInProgress_plan
            else if outcome = OutcomeShutdown then ErrShutdown_plan else ErrPlanBusy))), w)
      else case xe_select env of
        CallerDone \<Rightarrow> Some ((receipt, Some ContextDone), finish w)
      | RunnerDone \<Rightarrow> Some ((receipt\<lparr>pl_outcome := OutcomeShutdown\<rparr>, Some (Coordinator ErrShutdown_plan)), finish w)
      | Acquired \<Rightarrow> map_option (\<lambda>(x, w'). (x, finish w')) (run_plan fuel sha port env at plan receipt w))"

text \<open>What \<open>execute\<close> reads and checks before it reserves the plan.\<close>

definition plan_ready ::
  "'b exec_env \<Rightarrow> digest \<Rightarrow> instant \<Rightarrow> ('b, order_plan \<times> order list) op" where
  "plan_ready env planID at =
     bind_op (query env (\<lambda>ctx. OMS_Plan ctx planID)) (\<lambda>plan.
     bind_op (query env (\<lambda>ctx. OMS_Intent ctx (ei_id (ops_intent (op_spec plan))))) (\<lambda>intent.
     if ei_id intent \<noteq> ei_id (ops_intent (op_spec plan)) \<or> at < ops_created_at (op_spec plan) \<or>
        \<not> at < ops_expires_at (op_spec plan)
     then fail (Execution ErrDecisionExpired)
     else bind_op (query env (\<lambda>ctx. OrdersForPlan ctx planID)) (\<lambda>orders. ret (plan, orders))))"

definition ExecutePlan ::
  "nat \<Rightarrow> (string \<Rightarrow> digest) \<Rightarrow> 'b port \<Rightarrow> 'b exec_env \<Rightarrow> digest \<Rightarrow> instant \<Rightarrow> 'b world \<Rightarrow>
   ((plan_receipt \<times> error option) \<times> 'b world) option" where
  "ExecutePlan fuel sha port env planID at w =
     (let receipt = \<lparr>pl_plan = planID, pl_outcome = NoOutcome, pl_orders = []\<rparr> in
      if fst (xe_ctx env (w_now w)) then Some ((receipt, Some ContextDone), w)
      else if planID = 0 \<or> at = 0 then Some ((receipt, Some (Coordinator ErrInvalidCoordinator)), w)
      else case plan_ready env planID at w of
        (Inl e, w1) \<Rightarrow> Some ((receipt, Some e), w1)
      | (Inr (plan, orders), w1) \<Rightarrow>
          let receipt = receipt\<lparr>pl_orders := map ord_id orders\<rparr> in
          if allFilled orders then Some ((receipt\<lparr>pl_outcome := OutcomeDuplicateCommitted\<rparr>, None), w1)
          else reserved_run fuel sha port env at plan receipt w1)"

section \<open>Cancellation, shutdown and views\<close>

text \<open>The state the receipt reports; the last read ignores its error.\<close>

definition state_or_zero :: "order result \<Rightarrow> order_state" where
  "state_or_zero x = os_state (ord_spec (case x of Inl _ \<Rightarrow> zero_order | Inr ord \<Rightarrow> ord))"

definition RequestCancel ::
  "(string \<Rightarrow> digest) \<Rightarrow> 'b port \<Rightarrow> 'b exec_env \<Rightarrow> digest \<Rightarrow> instant \<Rightarrow> ('b, order_receipt) op" where
  "RequestCancel sha port env oid at =
     bind_op (query env (\<lambda>ctx. OMS_Order ctx oid)) (\<lambda>order.
     reserving env oid (
     if os_state (ord_spec order) \<notin> {OrderSubmitted, OrderAcknowledged, OrderPartiallyFilled}
     then releasing oid (fail (Execution ErrInvalidTransition))
     else andThen (publishInternal sha env order ReportCancelPending ReasonCancellationRequested at
                     (''cancel-'' @ dec_nat (os_revision (ord_spec order)))) (\<lambda>x.
     case x of Inl e \<Rightarrow> releasing oid (fail e)
     | Inr order \<Rightarrow>
     andThen (invokeCancel port env \<lparr>cq_order = oid, cq_client = ord_client order,
                cq_broker_order = os_broker_order (ord_spec order), cq_requested_at = at\<rparr>) (\<lambda>y.
     case y of
       Inl _ \<Rightarrow>
         bind_op (releasing oid (publishInternal sha env order ReportUnknown ReasonSubmissionOutcomeUnknown at
                    (''cancel-unknown-'' @ dec_nat (os_revision (ord_spec order))))) (\<lambda>_.
         fail (Coordinator ErrUnknownOutcome))
     | Inr _ \<Rightarrow>
         bind_op (releasing oid (ret ())) (\<lambda>_.
         bind_op (DrainEvents sha port env at) (\<lambda>_.
         andThen (query env (\<lambda>ctx. OMS_Order ctx oid)) (\<lambda>z. ret (oid, state_or_zero z))))))))"

definition RestoreCursor :: "nat \<Rightarrow> exec_coord \<Rightarrow> exec_coord" where
  "RestoreCursor cursor c = c\<lparr>xc_cursor := cursor\<rparr>"

definition Shutdown_exec :: "bool \<Rightarrow> exec_coord \<Rightarrow> exec_coord \<times> unit result option" where
  "Shutdown_exec ctx_done c =
     (let c' = c\<lparr>xc_closed := True\<rparr> in
      (c', if xc_waiting c' = 0 then Some (Inr ()) else if ctx_done then Some (Inl ContextDone) else None))"

record exec_health =
  xh_closed :: bool
  xh_in_flight :: nat
  xh_keyed :: nat
  xh_maximum :: int
  xh_cursor :: nat

definition Health_exec :: "exec_coord \<Rightarrow> exec_health" where
  "Health_exec c = \<lparr>xh_closed = xc_closed c, xh_in_flight = length (xc_plans c), xh_keyed = length (xc_orders c),
     xh_maximum = xg_max_plans (xc_config c), xh_cursor = xc_cursor c\<rparr>"

definition SortedOrderIDs :: "order list \<Rightarrow> digest list" where
  "SortedOrderIDs values = sort_key digest_string (map ord_id values)"

end
