(* ===== verification/Exec_Live.thy ===== *)
theory Exec_Live
  imports Oms_Runs Exec_Coordinator
begin

text \<open>
  The order store as the execution coordinator uses it while it runs: plans are registered and order events are
  published, nothing is restored. An order only moves along the transition table, a report that was stored was
  applied, and so a report that takes an order out of PLANNED is never answered as a replay.
\<close>

section \<open>Current orders\<close>

definition order_at :: "oms_store \<Rightarrow> digest \<Rightarrow> order option" where
  "order_at st oid = map_option (\<lambda>rv. oc_order (checkpoint_at st oid rv)) (map_of (st_current st) oid)"

lemma checkpoint_history: "oms_history st oid rv = Some c \<Longrightarrow> checkpoint_at st oid rv = c"
  by (simp add: checkpoint_at_def oms_history_def)

lemma order_at_ok:
  assumes "oms_inv st" "order_at st oid = Some a"
  shows "order_built a" "ord_id a = oid" "oms_head st oid = revision_of a"
proof -
  from assms(2) obtain rv where rv: "map_of (st_current st) oid = Some rv" "a = oc_order (checkpoint_at st oid rv)"
    by (auto simp: order_at_def)
  from oms_invD(2) [OF assms(1) rv(1)] show "order_built a" "ord_id a = oid" "oms_head st oid = revision_of a"
    using rv by (auto simp: head_ok_def oms_head_def dest: checkpoint_history)
qed

lemma query_order [simp]:
  "CurrentOrderCheckpoint ctx oid st = Inr c \<Longrightarrow> order_at st oid = Some (oc_order c)"
  "OMS_Order ctx oid st = Inr a \<Longrightarrow> order_at st oid = Some a"
  by (auto simp: CurrentOrderCheckpoint_def OMS_Order_def order_at_def split: if_splits option.splits)

lemma current_order_at:
  assumes "oms_inv st" "distinct (map fst (st_current st))" "a \<in> set (current_orders st)"
  shows "order_at st (ord_id a) = Some a"
proof -
  from assms(3) obtain oid rv where o: "(oid, rv) \<in> set (st_current st)" "a = oc_order (checkpoint_at st oid rv)"
    by (auto simp: current_orders_def)
  with assms(2) have "order_at st oid = Some a" by (simp add: order_at_def)
  with order_at_ok(2) [OF assms(1) this] show ?thesis by simp
qed

section \<open>How an order moves\<close>

definition early :: "order_state \<Rightarrow> bool" where
  "early s \<longleftrightarrow> s = OrderCreated \<or> s = OrderPlanned"

definition order_later :: "order \<Rightarrow> order \<Rightarrow> bool" where
  "order_later a b \<longleftrightarrow> ord_id b = ord_id a \<and> ord_client b = ord_client a \<and> os_plan (ord_spec b) = os_plan (ord_spec a) \<and>
     ol_id (leg_of b) = ol_id (leg_of a) \<and> quantity_of b = quantity_of a \<and>
     revision_of a \<le> revision_of b \<and> filled_of a \<le> filled_of b \<and>
     (state_of a = OrderFilled \<longrightarrow> state_of b = OrderFilled) \<and>
     (early (state_of b) \<longrightarrow> early (state_of a)) \<and> (state_of b = OrderCreated \<longrightarrow> state_of a = OrderCreated)"

lemma order_later_refl [simp]: "order_later a a"
  by (simp add: order_later_def)

lemma order_later_trans: "order_later a b \<Longrightarrow> order_later b c \<Longrightarrow> order_later a c"
  unfolding order_later_def by (elim conjE, intro conjI) (metis order.trans)+

lemma legal_early: "legalTransition s t \<Longrightarrow> early t \<Longrightarrow> s = OrderCreated \<and> t = OrderPlanned"
  by (cases s) (auto simp: legalTransition_def early_def)

lemma apply_later:
  assumes "ApplyExecutionReport a r f = Inr b" "order_wf a"
  shows "order_later a b"
  using assms(1)
proof (rule ApplyExecutionReport_cases)
  fix t
  assume t: "state_of b = (if legalTransition (state_of a) t then t else state_of a)"
  from ApplyExecutionReport_extends [OF assms] legal_from [of "state_of a" t] legal_early [of "state_of a" t] t
  show ?thesis by (auto simp: order_later_def order_extends_def early_def)
qed

text \<open>A report of a submission leaves an order submitted, whatever it was.\<close>

lemma apply_pending:
  assumes "ApplyExecutionReport a r f = Inr b" "ers_type (er_spec r) = ReportSubmissionPending"
  shows "\<not> early (state_of b)" "early (state_of a) \<Longrightarrow> state_of b = OrderSubmissionPending"
proof -
  have "\<not> early (state_of b) \<and> (early (state_of a) \<longrightarrow> state_of b = OrderSubmissionPending)"
    using assms(1)
  proof (rule ApplyExecutionReport_cases)
    fix t
    assume "reportTarget (ers_type (er_spec r)) = Some t"
      "legalTransition (state_of a) t \<or> staleTransition (state_of a) t"
      "state_of b = (if legalTransition (state_of a) t then t else state_of a)"
    with assms(2) show ?thesis
      by (cases "state_of a") (auto simp: early_def legalTransition_def staleTransition_def)
  qed
  then show "\<not> early (state_of b)" "early (state_of a) \<Longrightarrow> state_of b = OrderSubmissionPending" by auto
qed

lemma same_raw_later:
  assumes "order_built b" "order_built c" "ord_raw b = ord_raw c" "order_later a b"
  shows "order_later a c"
proof -
  have "canonicalOrder (ord_id b) (ord_client b) (ord_spec b) = canonicalOrder (ord_id c) (ord_client c) (ord_spec c)"
    "OrderState_Validate (state_of b) = Inr ()" "OrderState_Validate (state_of c) = Inr ()"
    using assms(1-3) by (auto simp: order_built_def order_wf_def)
  from canonicalOrder_determines [OF this] assms(4) show ?thesis by (auto simp: order_later_def)
qed

section \<open>Reports and publications by their bytes\<close>

definition report_built :: "execution_report \<Rightarrow> bool" where
  "report_built r \<longleftrightarrow> er_raw r = canonicalReport (er_id r) (er_spec r) \<and> reportTarget (ers_type (er_spec r)) \<noteq> None"

lemma NewExecutionReport_built:
  assumes "NewExecutionReport sha spec = Inr r"
  shows "report_built r" "ers_order (er_spec r) = ers_order spec" "ers_type (er_spec r) = ers_type spec"
    "ers_client (er_spec r) = ers_client spec"
  using assms by (auto simp: NewExecutionReport_def report_built_def Let_def split: if_splits)

lemma plain_report_type: "reportTarget t \<noteq> None \<Longrightarrow> plain (report_type_string t)"
  by (cases t; simp add: report_type_string_def; code_simp)

lemma report_type_string_inject:
  "reportTarget t \<noteq> None \<Longrightarrow> reportTarget u \<noteq> None \<Longrightarrow> report_type_string t = report_type_string u \<Longrightarrow> t = u"
  by (cases t; cases u; simp add: report_type_string_def)

lemma report_same_raw:
  assumes "report_built a" "report_built b" "er_raw a = er_raw b"
  shows "ers_order (er_spec a) = ers_order (er_spec b)" "ers_type (er_spec a) = ers_type (er_spec b)" "er_id a = er_id b"
proof -
  have eq: "canonicalReport (er_id a) (er_spec a) = canonicalReport (er_id b) (er_spec b)"
    using assms by (simp add: report_built_def)
  note fields = object_inject [OF eq [unfolded canonicalReport_def]]
  have "json_string (report_type_string (ers_type (er_spec a))) = json_string (report_type_string (ers_type (er_spec b)))"
    and "ers_order (er_spec a) = ers_order (er_spec b)" "er_id a = er_id b"
    using fields by (simp_all add: same_fields_def marshal_JStr_plain)
  then show "ers_order (er_spec a) = ers_order (er_spec b)" "ers_type (er_spec a) = ers_type (er_spec b)" "er_id a = er_id b"
    using assms(1,2) plain_report_type report_type_string_inject
    by (auto simp: report_built_def marshal_JStr_plain)
qed

text \<open>A prefix of the fields is determined by the bytes, whatever follows it.\<close>

lemma fields_prefix:
  assumes "list_all2 (\<lambda>f g. fst f = fst g \<and> delimited (snd f) (snd g)) fs gs" "xs \<noteq> []" "ys \<noteq> []"
    "commas (map field (fs @ xs)) = commas (map field (gs @ ys))"
  shows "map (marshal \<circ> snd) fs = map (marshal \<circ> snd) gs"
  using assms
proof (induction fs arbitrary: gs)
  case (Cons f fs)
  then obtain g gs' where g: "gs = g # gs'" "fst f = fst g" "delimited (snd f) (snd g)"
    "list_all2 (\<lambda>f g. fst f = fst g \<and> delimited (snd f) (snd g)) fs gs'"
    by (auto simp: list_all2_Cons1)
  have split: "commas (map field ((h # hs) @ zs)) = json_string (fst h) @ CHR '':'' # marshal (snd h) @
      CHR '','' # commas (map field (hs @ zs))" if "zs \<noteq> []" for h hs zs
    using that by (cases "hs @ zs") (simp_all add: field_def)
  have "marshal (snd f) @ CHR '','' # commas (map field (fs @ xs)) = marshal (snd g) @ CHR '','' # commas (map field (gs' @ ys))"
    using Cons.prems(4) unfolding g(1) split [OF Cons.prems(2)] split [OF Cons.prems(3)] by (simp add: g(2))
  moreover have "ends (CHR '','' # commas (map field (fs @ xs)))" "ends (CHR '','' # commas (map field (gs' @ ys)))"
    by (simp_all add: ends_def)
  ultimately have "marshal (snd f) = marshal (snd g) \<and>
      CHR '','' # commas (map field (fs @ xs)) = CHR '','' # commas (map field (gs' @ ys))"
    using g(3) unfolding delimited_def by blast
  then have "marshal (snd f) = marshal (snd g)" "commas (map field (fs @ xs)) = commas (map field (gs' @ ys))"
    by simp_all
  with Cons.IH [OF g(4) Cons.prems(2,3)] g(1) show ?case by (simp add: comp_def)
qed simp

lemma delimited_raw:
  assumes "report_built a" "report_built b"
  shows "delimited (JRaw (er_raw a)) (JRaw (er_raw b))"
proof -
  let ?fs = "\<lambda>r. [(''SchemaVersion'', JStr (ers_schema (er_spec r))), (''ID'', JStr (digest_string (er_id r))),
      (''Source'', JStr (ers_source (er_spec r))), (''SourceEventID'', JStr (ers_source_event (er_spec r))),
      (''OrderID'', JStr (digest_string (ers_order (er_spec r)))),
      (''ClientOrderID'', JStr (digest_string (ers_client (er_spec r)))),
      (''BrokerOrderID'', JStr (ers_broker_order (er_spec r))),
      (''Type'', JStr (report_type_string (ers_type (er_spec r)))),
      (''Reason'', JStr (reason_string (ers_reason (er_spec r)))),
      (''CumulativeFilled'', JInt (ers_cumulative (er_spec r))),
      (''OccurredAt'', JStr (rfc3339_nano (ers_occurred_at (er_spec r)))),
      (''ReceivedAt'', JStr (rfc3339_nano (ers_received_at (er_spec r))))]"
  have raw: "marshal (JRaw (er_raw r)) = marshal (JObj (?fs r))" if "report_built r" for r
    using that unfolding report_built_def canonicalReport_def
    by (simp only: marshal.simps(7)) (simp add: marshal_object)
  have "delimited (JObj (?fs a)) (JObj (?fs b))" by (rule delimited_same_kind) simp
  then show ?thesis unfolding delimited_def raw [OF assms(1)] raw [OF assms(2)] .
qed

lemma publication_same_raw:
  assumes "canonicalOrderPublication p = canonicalOrderPublication q" "report_built (pu_report p)" "report_built (pu_report q)"
  shows "er_raw (pu_report p) = er_raw (pu_report q)" "pu_expected_revision p = pu_expected_revision q"
proof -
  let ?fs = "\<lambda>p. [(''PublicationID'', JStr (digest_string (pu_id p))),
      (''ExpectedCheckpoint'', JStr (digest_string (pu_expected_checkpoint p))),
      (''ExpectedRevision'', JInt (int (pu_expected_revision p))), (''Report'', JRaw (er_raw (pu_report p)))]"
  let ?xs = "\<lambda>p. [(''Fill'', JRaw (case pu_fill p of None \<Rightarrow> ''null'' | Some f \<Rightarrow> fl_raw f)),
      (''NextCheckpoint'', JRaw (oc_raw (pu_next p)))]"
  have obj: "canonicalOrderPublication p = marshal (JObj (?fs p @ ?xs p))" for p
    by (simp add: canonicalOrderPublication_def)
  have "list_all2 (\<lambda>f g. fst f = fst g \<and> delimited (snd f) (snd g)) (?fs p) (?fs q)"
    using delimited_raw [OF assms(2,3)] by (simp add: delimited_same_kind)
  moreover have "commas (map field (?fs p @ ?xs p)) = commas (map field (?fs q @ ?xs q))"
    using assms(1) unfolding obj marshal_object by simp
  ultimately have "map (marshal \<circ> snd) (?fs p) = map (marshal \<circ> snd) (?fs q)"
    by (intro fields_prefix [of "?fs p" "?fs q" "?xs p" "?xs q"]) simp_all
  moreover have "er_raw (pu_report p) \<noteq> [] \<and> er_raw (pu_report q) \<noteq> []"
    using assms(2,3) by (simp add: report_built_def canonicalReport_def)
  ultimately show "er_raw (pu_report p) = er_raw (pu_report q)" "pu_expected_revision p = pu_expected_revision q"
    by (simp_all add: dec_int_inject)
qed

section \<open>Live steps\<close>

text \<open>The identity under which the coordinator, the only caller of \<open>PublishOrderEvent\<close>, publishes a report.\<close>

definition report_publication :: "(string \<Rightarrow> digest) \<Rightarrow> execution_report \<Rightarrow> digest" where
  "report_publication sha r = id_or_zero (NewPublicationID sha [digest_string (ers_order (er_spec r)), digest_string (er_id r)])"

text \<open>The calls of a running system, with values a caller can hold.\<close>

inductive live_step :: "(string \<Rightarrow> digest) \<Rightarrow> oms_store \<Rightarrow> oms_store \<Rightarrow> bool" for sha where
  register: "RegisterPlan sha ctx intent plan orders st = (st', x) \<Longrightarrow>
    \<forall>ord \<in> set orders. order_built ord \<Longrightarrow> distinct (map ord_id orders) \<Longrightarrow> live_step sha st st'"
| publish: "PublishOrderEvent sha ctx p st = (st', x) \<Longrightarrow> publication_built p \<Longrightarrow> report_built (pu_report p) \<Longrightarrow>
    pu_id p = report_publication sha (pu_report p) \<Longrightarrow> live_step sha st st'"

lemma live_oms_step: "live_step sha s t \<Longrightarrow> oms_step sha s t"
  by (auto elim!: live_step.cases intro: oms_step.register oms_step.publish)

text \<open>A committed publication, seen through the current orders.\<close>

lemma commit_order_at:
  assumes "oms_inv st" "publication_built p" "NewOrderPublication sha p = Inr v" "admit_publication st v = Inr nx"
  obtains cur where "order_at st (ers_order (er_spec (pu_report p))) = Some cur" "order_later cur (oc_order (pu_next p))"
    "ApplyExecutionReport cur (pu_report p) (pu_fill p) = Inr nx" "state_of (oc_order (pu_next p)) = state_of nx"
    "revision_of cur = pu_expected_revision p" "revision_of (oc_order (pu_next p)) = Suc (pu_expected_revision p)"
    "\<And>oid. order_at (commit_publication st v nx) oid =
       (if oid = ers_order (er_spec (pu_report p)) then Some (oc_order (pu_next p)) else order_at st oid)"
proof -
  note v = NewOrderPublication_Inr [OF assms(3)]
  let ?oid = "ers_order (er_spec (pu_report p))"
  obtain c where c: "map_of (st_current st) ?oid = Some (pu_expected_revision p)"
    "oms_history st ?oid (pu_expected_revision p) = Some c" "order_built (oc_order c)"
    "revision_of (oc_order c) = pu_expected_revision p"
    "ApplyExecutionReport (oc_order c) (pu_report p) (pu_fill p) = Inr nx" "order_built nx"
    "state_of (oc_order (pu_next p)) = state_of nx" "revision_of (oc_order (pu_next p)) = Suc (pu_expected_revision p)"
    using commit_facts [OF assms] by blast
  have raw: "ord_raw nx = ord_raw (oc_order (pu_next p))"
    using assms(4) v by (auto elim!: admit_publication_Inr)
  have at: "order_at st ?oid = Some (oc_order c)"
    using c(1,2) by (simp add: order_at_def checkpoint_history)
  have "order_later (oc_order c) nx" using apply_later [OF c(5)] c(3) by (simp add: order_built_def)
  then have later: "order_later (oc_order c) (oc_order (pu_next p))"
    using same_raw_later [OF c(6) _ raw] assms(2) by (simp add: publication_built_def)
  have rv: "revision_of nx = revision_of (oc_order (pu_next p))"
    using built_same_raw(2) [OF c(6) _ raw] assms(2) by (simp add: publication_built_def)
  have here: "oms_history (commit_publication st v nx) ?oid (revision_of nx) = Some (pu_next p)"
    using v by (simp add: commit_publication_views)
  have "order_at (commit_publication st v nx) oid = (if oid = ?oid then Some (oc_order (pu_next p)) else order_at st oid)" for oid
  proof (cases "oid = ?oid")
    case True
    with here v show ?thesis by (simp add: order_at_def commit_publication_views checkpoint_history)
  next
    case False
    with v show ?thesis
      by (simp add: order_at_def commit_publication_views) (simp add: checkpoint_at_def commit_publication_def
          commit_receipt_def Let_def get_or_def)
  qed
  with that [OF at later c(5,7,4,8)] show thesis by blast
qed

lemma checkpoint_at_history:
  "checkpoint_at st oid rv = (case oms_history st oid rv of None \<Rightarrow> zero_checkpoint | Some c \<Rightarrow> c)"
  by (simp add: checkpoint_at_def oms_history_def get_or_def)

lemma register_order_at:
  assumes "RegisterPlan sha ctx intent plan orders st = (st', x)" "order_at st oid = Some a"
  shows "order_at st' oid = Some a"
  using assms(1)
proof (cases rule: RegisterPlan_cases)
  case (commit legs cs stored)
  from assms(2) have "has (st_current st) oid" by (auto simp: order_at_def has_iff)
  with commit(5) have "oid \<notin> set (map order_of cs)" by auto
  then have "map_of (st_current st') oid = map_of (st_current st) oid" "oms_history st' oid n = oms_history st oid n" for n
    using fold_place_other [of oid cs st] commit(8,9) by (auto simp: oms_history_def)
  with assms(2) show ?thesis by (auto simp: order_at_def checkpoint_at_history)
qed (use assms(2) in \<open>auto simp: order_at_def checkpoint_at_def\<close>)

lemma register_wf:
  assumes "RegisterPlan sha ctx intent plan orders st = (st', x)" "gomap_wf (st_current st)"
  shows "gomap_wf (st_current st')" "st_reports st' = st_reports st" "st_publications st' = st_publications st"
proof -
  have fold: "gomap_wf (st_current (fold place_checkpoint cs st))" if "gomap_wf (st_current st)" for cs st
    using that by (induction cs arbitrary: st) (simp_all add: place_checkpoint_def Let_def)
  show "gomap_wf (st_current st')"
    using assms(1) by (cases rule: RegisterPlan_cases) (use assms(2) fold in auto)
  show "st_reports st' = st_reports st" "st_publications st' = st_publications st"
    using assms(1) by (cases rule: RegisterPlan_cases; simp)+
qed

section \<open>What was stored was applied\<close>

definition applied_report :: "oms_store \<Rightarrow> execution_report \<Rightarrow> nat \<Rightarrow> bool" where
  "applied_report st r rv \<longleftrightarrow> report_built r \<and> (\<exists>a. order_at st (ers_order (er_spec r)) = Some a \<and> rv < revision_of a \<and>
     (ers_type (er_spec r) = ReportSubmissionPending \<longrightarrow> \<not> early (state_of a)))"

definition live_inv :: "(string \<Rightarrow> digest) \<Rightarrow> oms_store \<Rightarrow> bool" where
  "live_inv sha st \<longleftrightarrow> oms_inv st \<and> gomap_wf (st_current st) \<and>
     (\<forall>i r. map_of (st_reports st) i = Some r \<longrightarrow> applied_report st r 0 \<and> has (st_publications st) (report_publication sha r)) \<and>
     (\<forall>i s. map_of (st_publications st) i = Some s \<longrightarrow> spu_canonical s = canonicalOrderPublication (spu_value s) \<and>
        applied_report st (pu_report (spu_value s)) (pu_expected_revision (spu_value s)))"

definition live_grows :: "oms_store \<Rightarrow> oms_store \<Rightarrow> bool" where
  "live_grows s t \<longleftrightarrow> (\<forall>oid a. order_at s oid = Some a \<longrightarrow> (\<exists>b. order_at t oid = Some b \<and> order_later a b)) \<and>
     map_of (st_publications s) \<subseteq>\<^sub>m map_of (st_publications t)"

lemma live_growsD: "live_grows s t \<Longrightarrow> order_at s oid = Some a \<Longrightarrow> \<exists>b. order_at t oid = Some b \<and> order_later a b"
  by (simp add: live_grows_def)

lemma applied_grows:
  assumes "applied_report s r rv" "live_grows s t"
  shows "applied_report t r rv"
proof -
  from assms(1) obtain a where "order_at s (ers_order (er_spec r)) = Some a" "rv < revision_of a"
    "ers_type (er_spec r) = ReportSubmissionPending \<longrightarrow> \<not> early (state_of a)" by (auto simp: applied_report_def)
  with live_growsD [OF assms(2)] assms(1) show ?thesis by (fastforce simp: applied_report_def order_later_def)
qed

lemma publish_live:
  assumes "live_inv sha st" "PublishOrderEvent sha ctx p st = (st', x)" "publication_built p" "report_built (pu_report p)"
    "pu_id p = report_publication sha (pu_report p)"
  shows "live_grows st st'" "live_inv sha st'"
proof -
  have inv: "oms_inv st" using assms(1) by (simp add: live_inv_def)
  have "live_grows st st' \<and> live_inv sha st'"
    using assms(2)
  proof (cases rule: PublishOrderEvent_cases)
    case unchanged
    with assms(1) show ?thesis by (auto simp: live_grows_def)
  next
    case (commit v nx)
    note v = NewOrderPublication_Inr [OF commit(1)]
    from commit_order_at [OF inv assms(3) commit(1,6)] obtain cur where
      cur: "order_at st (ers_order (er_spec (pu_report p))) = Some cur" "order_later cur (oc_order (pu_next p))"
      "ApplyExecutionReport cur (pu_report p) (pu_fill p) = Inr nx" "state_of (oc_order (pu_next p)) = state_of nx"
      "revision_of (oc_order (pu_next p)) = Suc (pu_expected_revision p)"
      and at: "\<And>oid. order_at st' oid = (if oid = ers_order (er_spec (pu_report p)) then Some (oc_order (pu_next p)) else order_at st oid)"
      unfolding commit(7) by blast
    have maps: "map_of (st_publications st') = (map_of (st_publications st))(pu_id p \<mapsto>
          \<lparr>spu_value = v, spu_receipt = commit_receipt v nx, spu_canonical = pu_raw v\<rparr>)"
      "map_of (st_reports st') = (map_of (st_reports st))(er_id (pu_report p) \<mapsto> pu_report p)"
      "gomap_wf (st_current st')"
      using v assms(1) unfolding commit(7) by (simp_all add: commit_publication_def Let_def live_inv_def)
    have "map_of (st_publications st) (pu_id p) = None" using commit(4) v by (simp add: has_iff)
    then have grows: "live_grows st st'"
      using at cur(1,2) by (auto simp: live_grows_def maps map_le_def)
    have new: "applied_report st' (pu_report p) (pu_expected_revision p)" "applied_report st' (pu_report p) 0"
      using assms(4) apply_pending(1) [OF cur(3)] cur(4,5) by (auto simp: applied_report_def at)
    have "oms_inv st'" using commit_publication_inv [OF inv assms(3) commit(1,6)] commit(7) by simp
    moreover have "applied_report st' r 0 \<and> has (st_publications st') (report_publication sha r)"
      if "map_of (st_reports st') i = Some r" for i r
      using that assms(1,5) new(2) applied_grows [OF _ grows] by (auto simp: live_inv_def maps has_iff split: if_splits)
    moreover have "spu_canonical s = canonicalOrderPublication (spu_value s) \<and>
        applied_report st' (pu_report (spu_value s)) (pu_expected_revision (spu_value s))"
      if "map_of (st_publications st') i = Some s" for i s
      using that assms(1) new(1) v applied_grows [OF _ grows] by (auto simp: live_inv_def maps split: if_splits)
    ultimately show ?thesis using grows maps(3) by (simp add: live_inv_def)
  qed
  then show "live_grows st st'" "live_inv sha st'" by auto
qed

lemma register_live:
  assumes "live_inv sha st" "RegisterPlan sha ctx intent plan orders st = (st', x)"
    "\<forall>ord \<in> set orders. order_built ord" "distinct (map ord_id orders)"
  shows "live_grows st st'" "live_inv sha st'"
proof -
  note keeps = register_wf [OF assms(2)]
  have wf: "gomap_wf (st_current st)" "oms_inv st" using assms(1) by (simp_all add: live_inv_def)
  show grows: "live_grows st st'"
    using register_order_at [OF assms(2)] keeps(3) [OF wf(1)] by (auto simp: live_grows_def)
  show "live_inv sha st'"
    using assms(1) RegisterPlan_inv [OF wf(2) assms(2-4)] keeps [OF wf(1)] applied_grows [OF _ grows]
    by (simp add: live_inv_def)
qed

interpretation live_run: step_monotone "live_step sha" "live_inv sha" live_grows for sha
proof
  show "live_inv sha t" if "live_inv sha s" "live_step sha s t" for s t
    using that(2,1) by cases (auto dest: publish_live register_live)
  show "live_grows s t" if "live_inv sha s" "live_step sha s t" for s t
    using that(2,1) by cases (auto dest: publish_live register_live)
  show "live_grows s s" for s by (auto simp: live_grows_def)
  show "live_grows s u" if "live_grows s t" "live_grows t u" for s t u
  proof -
    have "\<exists>b. order_at u oid = Some b \<and> order_later a b" if "order_at s oid = Some a" for oid a
      using live_growsD [OF \<open>live_grows s t\<close> that] live_growsD [OF \<open>live_grows t u\<close>] by (meson order_later_trans)
    moreover have "map_of (st_publications s) \<subseteq>\<^sub>m map_of (st_publications u)"
      using that by (auto simp: live_grows_def intro: map_le_trans)
    ultimately show ?thesis by (simp add: live_grows_def)
  qed
qed

lemma NewStoreInstrumented_live: "live_inv sha (NewStoreInstrumented lim)"
  using NewStoreInstrumented_inv [of lim] by (simp add: live_inv_def) (simp add: NewStoreInstrumented_def)

text \<open>
  A publication of a new event, computed from the current revision, is never answered as a replay: whatever the coordinator
  is told was published is committed.
\<close>

lemma publish_commits:
  assumes "live_inv sha st" "PublishOrderEvent sha ctx p st = (st', Inr r)" "report_built (pu_report p)"
    "pu_id p = report_publication sha (pu_report p)"
    "order_at st (ers_order (er_spec (pu_report p))) = Some a" "revision_of a = pu_expected_revision p"
  obtains v nx where "NewOrderPublication sha p = Inr v" "admit_publication st v = Inr nx"
    "st' = commit_publication st v nx" "\<not> has (st_publications st) (pu_id p)"
proof -
  have pub: "spu_canonical s \<noteq> canonicalOrderPublication p" if "map_of (st_publications st) i = Some s" for i s
  proof
    assume eq: "spu_canonical s = canonicalOrderPublication p"
    from assms(1) that have s: "spu_canonical s = canonicalOrderPublication (spu_value s)"
      "applied_report st (pu_report (spu_value s)) (pu_expected_revision (spu_value s))" by (auto simp: live_inv_def)
    from s(2) have built: "report_built (pu_report (spu_value s))" by (simp add: applied_report_def)
    note same = publication_same_raw [OF _ built assms(3)]
    from same(1) s(1) eq have "er_raw (pu_report (spu_value s)) = er_raw (pu_report p)" by simp
    from report_same_raw(1) [OF built assms(3) this] same(2) s eq assms(5,6) show False by (auto simp: applied_report_def)
  qed
  show thesis
  proof (cases "NewOrderPublication sha p")
    case (Inl e)
    with assms(2) show thesis by (auto simp: PublishOrderEvent_def split: if_splits)
  next
    case (Inr v)
    note v = NewOrderPublication_Inr [OF Inr]
    have ctx: "\<not> fst ctx" "\<not> snd ctx" using assms(2) Inr by (auto simp: PublishOrderEvent_def split: if_splits)
    have raw: "pu_raw v = canonicalOrderPublication p" using Inr by (auto simp: NewOrderPublication_def Let_def split: if_splits)
    have none: "map_of (st_publications st) (pu_id v) = None"
      using assms(2) Inr ctx raw pub [of "pu_id v"] by (cases "map_of (st_publications st) (pu_id v)") (auto simp: PublishOrderEvent_def)
    moreover have "map_of (st_reports st) (er_id (pu_report v)) = None"
    proof (cases "map_of (st_reports st) (er_id (pu_report v))")
      case (Some q)
      show ?thesis
      proof (cases "er_raw q = er_raw (pu_report p)")
        case True
        from assms(1) Some have q: "report_built q" "has (st_publications st) (report_publication sha q)"
          by (auto simp: live_inv_def applied_report_def)
        from report_same_raw [OF q(1) assms(3) True] have "report_publication sha q = pu_id v"
          using assms(4) v by (simp add: report_publication_def)
        with q(2) none show ?thesis by (simp add: has_def)
      next
        case False
        with Some v assms(2) Inr ctx none show ?thesis by (simp add: PublishOrderEvent_def replayed_report_def Let_def)
      qed
    qed
    ultimately show thesis
      using assms(2) Inr ctx that [OF Inr] v by (cases "admit_publication st v") (simp_all add: PublishOrderEvent_def has_def)
  qed
qed

end
