(* ===== verification/Exec_Runs.thy ===== *)
theory Exec_Runs
  imports Exec_Live
begin

text \<open>
  What the handlers of the execution coordinator do to the order store and to the record of submissions,
  whatever the broker answers, whenever a context is done, and whatever other goroutines do to orders the handler does
  not hold.
\<close>

section \<open>Relations kept by handlers\<close>

definition keeps :: "('b world \<Rightarrow> 'b world \<Rightarrow> bool) \<Rightarrow> ('b, 'a) op \<Rightarrow> bool" where
  "keeps R m \<longleftrightarrow> (\<forall>w x w'. m w = (x, w') \<longrightarrow> R w w')"

lemma keepsD: "keeps R m \<Longrightarrow> m w = (x, w') \<Longrightarrow> R w w'"
  by (simp add: keeps_def)

lemma keepsI: "(\<And>w x w'. m w = (x, w') \<Longrightarrow> R w w') \<Longrightarrow> keeps R m"
  by (simp add: keeps_def)

lemma andThenE:
  assumes "andThen m f w = (x, w')"
  obtains y w1 where "m w = (y, w1)" "f y w1 = (x, w')"
  using assms by (auto simp: andThen_def Let_def split: prod.splits)

lemma bind_opE:
  assumes "bind_op m f w = (x, w')"
  obtains (error) e where "m w = (Inl e, w')" "x = Inl e"
  | (more) y w1 where "m w = (Inr y, w1)" "f y w1 = (x, w')"
  using assms unfolding bind_op_def
  by (auto elim!: andThenE simp: fail_def split: sum.splits)

text \<open>A preorder on worlds that does not look at the coordinator's own fields is kept by every composition.\<close>

locale op_relation =
  fixes R :: "'b world \<Rightarrow> 'b world \<Rightarrow> bool"
  assumes refl: "R w w"
    and trans: "R w w1 \<Longrightarrow> R w1 w2 \<Longrightarrow> R w w2"
    and coord: "R w (w\<lparr>w_coord := c\<rparr>)"
begin

lemma keeps_pure: "keeps R (ret x)" "keeps R (fail e)" "keeps R (lift_r y)"
  by (auto simp: keeps_def ret_def fail_def lift_r_def refl)

lemma keeps_andThen: "keeps R m \<Longrightarrow> (\<And>x. keeps R (f x)) \<Longrightarrow> keeps R (andThen m f)"
proof (rule keepsI)
  fix w x w' assume k: "keeps R m" "\<And>x. keeps R (f x)" and "andThen m f w = (x, w')"
  from this(3) obtain y w1 where "m w = (y, w1)" "f y w1 = (x, w')" by (rule andThenE)
  with k show "R w w'" by (blast intro: trans dest: keepsD)
qed

lemma keeps_bind: "keeps R m \<Longrightarrow> (\<And>x. keeps R (f x)) \<Longrightarrow> keeps R (bind_op m f)"
  unfolding bind_op_def by (rule keeps_andThen) (auto simp: keeps_pure split: sum.splits)

lemma keeps_releasing: "keeps R m \<Longrightarrow> keeps R (releasing oid m)"
  unfolding keeps_def releasing_def releaseOrder_def Let_def by (auto split: prod.splits intro: trans [OF _ coord])

lemma keeps_reserving: "keeps R m \<Longrightarrow> keeps R (reserving env oid m)"
  unfolding keeps_def reserving_def reserveOrder_def Let_def
  by (auto split: if_splits intro: refl trans [OF coord])

lemmas keeps_rules = keeps_pure keeps_andThen keeps_bind keeps_releasing keeps_reserving

end

section \<open>What other goroutines may do\<close>

abbreviation held :: "'b world \<Rightarrow> digest \<Rightarrow> bool" where
  "held w oid \<equiv> get_or False (xc_orders (w_coord w)) oid"

text \<open>They use the order store as the coordinator does, and leave orders alone that the handler has reserved.\<close>

definition env_ok :: "(string \<Rightarrow> digest) \<Rightarrow> 'b exec_env \<Rightarrow> bool" where
  "env_ok sha env \<longleftrightarrow> (\<forall>n w s b. xe_others env n w = (s, b) \<longrightarrow> (live_step sha)\<^sup>*\<^sup>* (w_store w) s \<and>
     (\<forall>oid. held w oid \<longrightarrow> order_at s oid = order_at (w_store w) oid))"

lemma tick_fields [simp]: "w_coord (tick env w) = w_coord w" "w_sent (tick env w) = w_sent w"
  by (simp_all add: tick_def Let_def split: prod.splits)

lemma tick_live: "env_ok sha env \<Longrightarrow> (live_step sha)\<^sup>*\<^sup>* (w_store w) (w_store (tick env w))"
  by (auto simp: env_ok_def tick_def Let_def split: prod.splits)

lemma tick_held: "env_ok sha env \<Longrightarrow> held w oid \<Longrightarrow> order_at (w_store (tick env w)) oid = order_at (w_store w) oid"
  by (auto simp: env_ok_def tick_def Let_def split: prod.splits)

section \<open>Submissions\<close>

text \<open>
  A submission is for an order that is SUBMISSION_PENDING in the store at that moment, with the terms of
  that order; all submissions of one order belong to one attempt.
\<close>

definition entry_ok :: "(string \<Rightarrow> digest) \<Rightarrow> oms_store \<Rightarrow> submission \<times> oms_store \<Rightarrow> bool" where
  "entry_ok sha st e \<longleftrightarrow> live_inv sha (snd e) \<and> (live_step sha)\<^sup>*\<^sup>* (snd e) st \<and>
     (\<exists>a. order_at (snd e) (sb_order (fst e)) = Some a \<and> state_of a = OrderSubmissionPending \<and>
        fst e = submission_of (sb_attempt (fst e)) a (sb_submitted_at (fst e)))"

definition one_attempt :: "(submission \<times> oms_store) list \<Rightarrow> bool" where
  "one_attempt es \<longleftrightarrow> (\<forall>e \<in> set es. \<forall>f \<in> set es. sb_order (fst e) = sb_order (fst f) \<longrightarrow>
     sb_attempt (fst e) = sb_attempt (fst f))"

definition sane :: "(string \<Rightarrow> digest) \<Rightarrow> 'b world \<Rightarrow> bool" where
  "sane sha w \<longleftrightarrow> live_inv sha (w_store w) \<and> (\<forall>e \<in> set (w_sent w). entry_ok sha (w_store w) e) \<and> one_attempt (w_sent w)"

definition moves :: "(string \<Rightarrow> digest) \<Rightarrow> (submission \<times> oms_store \<Rightarrow> bool) \<Rightarrow> 'b world \<Rightarrow> 'b world \<Rightarrow> bool" where
  "moves sha Q w w' \<longleftrightarrow> (sane sha w \<longrightarrow> sane sha w' \<and> (live_step sha)\<^sup>*\<^sup>* (w_store w) (w_store w') \<and>
     (\<exists>es. w_sent w' = w_sent w @ es \<and> (\<forall>e \<in> set es. Q e)))"

lemma movesD:
  assumes "moves sha Q w w'" "sane sha w"
  shows "sane sha w'" "(live_step sha)\<^sup>*\<^sup>* (w_store w) (w_store w')" "live_grows (w_store w) (w_store w')"
    "\<exists>es. w_sent w' = w_sent w @ es \<and> (\<forall>e \<in> set es. Q e)"
  using assms live_run.reach_grows [of sha "w_store w" "w_store w'"] by (auto simp: moves_def sane_def)

lemma moves_mono: "moves sha Q w w' \<Longrightarrow> (\<And>e. Q e \<Longrightarrow> P e) \<Longrightarrow> moves sha P w w'"
  unfolding moves_def by meson

lemma keeps_mono: "keeps (moves sha Q) m \<Longrightarrow> (\<And>e. Q e \<Longrightarrow> P e) \<Longrightarrow> keeps (moves sha P) m"
  unfolding keeps_def by (meson moves_mono)

interpretation moves: op_relation "moves sha Q" for sha Q
proof
  show "moves sha Q w w" for w :: "'b world" by (simp add: moves_def)
  show "moves sha Q w (w\<lparr>w_coord := c\<rparr>)" for w :: "'b world" and c by (auto simp: moves_def sane_def)
  show "moves sha Q w w2" if "moves sha Q w w1" "moves sha Q w1 w2" for w w1 w2 :: "'b world"
    unfolding moves_def
  proof
    assume w: "sane sha w"
    note one = movesD [OF that(1) w]
    note two = movesD [OF that(2) one(1)]
    from one(4) two(4) obtain es fs where "w_sent w2 = w_sent w @ (es @ fs)" "\<forall>e \<in> set (es @ fs). Q e" by fastforce
    then have "\<exists>es. w_sent w2 = w_sent w @ es \<and> (\<forall>e \<in> set es. Q e)" by blast
    with one(2) two(1,2) show "sane sha w2 \<and> (live_step sha)\<^sup>*\<^sup>* (w_store w) (w_store w2) \<and>
        (\<exists>es. w_sent w2 = w_sent w @ es \<and> (\<forall>e \<in> set es. Q e))" by (auto intro: rtranclp_trans)
  qed
qed

text \<open>A step that leaves the record of submissions alone and takes live steps.\<close>

lemma moves_live:
  assumes "live_inv sha (w_store w) \<Longrightarrow> (live_step sha)\<^sup>*\<^sup>* (w_store w) (w_store w')" "w_sent w' = w_sent w"
  shows "moves sha Q w w'"
proof -
  have "entry_ok sha (w_store w') e" if "entry_ok sha (w_store w) e" "(live_step sha)\<^sup>*\<^sup>* (w_store w) (w_store w')" for e
    using that by (auto simp: entry_ok_def intro: rtranclp_trans)
  with assms live_run.reach_inv [of sha "w_store w" "w_store w'"] show ?thesis by (auto simp: moves_def sane_def)
qed

lemma moves_tick: "env_ok sha env \<Longrightarrow> moves sha Q w (tick env w)"
  by (rule moves_live) (simp_all add: tick_live)

lemma access_step:
  assumes "access env f w = (x, w')"
  obtains s where "f (xe_ctx env (w_now w)) (w_store (tick env w)) = (s, x)" "w' = (tick env w)\<lparr>w_store := s\<rparr>"
  using assms by (auto simp: access_def Let_def split: prod.splits)

lemma query_step:
  assumes "query env f w = (x, w')"
  shows "x = f (xe_ctx env (w_now w)) (w_store (tick env w))" "w' = tick env w"
  using assms by (auto simp: query_def access_def Let_def)

lemma invoke_step:
  assumes "invoke env r f w = (x, w')"
  obtains b where "w' = (tick env w)\<lparr>w_broker := b\<rparr>"
  using assms by (auto simp: invoke_def Let_def split: prod.splits)

section \<open>Publication\<close>

lemma prepare_order_Inr:
  assumes "prepare_order sha oid c r fopt = Inr (nx, p)"
  shows "ApplyExecutionReport (oc_order c) r fopt = Inr nx" "pu_report p = r" "pu_fill p = fopt" "oc_order (pu_next p) = nx"
    "order_wf (oc_order c) \<Longrightarrow> 0 \<le> fill_quantity fopt \<Longrightarrow> publication_built p"
    "ers_order (er_spec r) = oid \<Longrightarrow> pu_id p = report_publication sha r"
    "pu_expected_revision p = revision_of (oc_order c)"
proof -
  from assms obtain nc where a: "ApplyExecutionReport (oc_order c) r fopt = Inr nx"
    and n: "NewOrderCheckpoint sha (next_checkpoint c nx r fopt) = Inr nc"
    and p: "NewOrderPublication sha (publication_of sha oid c r fopt nc) = Inr p"
    by (auto simp: prepare_order_def)
  from NewOrderPublication_Inr [OF p] NewOrderCheckpoint_Inr [OF n] a
  show s: "ApplyExecutionReport (oc_order c) r fopt = Inr nx" "pu_report p = r" "pu_fill p = fopt" "oc_order (pu_next p) = nx"
    "pu_expected_revision p = revision_of (oc_order c)"
    "ers_order (er_spec r) = oid \<Longrightarrow> pu_id p = report_publication sha r"
    by (auto simp: publication_of_def next_checkpoint_def report_publication_def)
  assume wf: "order_wf (oc_order c)" and q: "0 \<le> fill_quantity fopt"
  from a have "in_i64 (fill_quantity fopt)"
  proof (rule ApplyExecutionReport_cases)
    fix t assume "check_fill (oc_order c) r fopt t = Inr ()"
    with wf q show ?thesis
      by (auto simp: check_fill_def Let_def fill_quantity_def order_wf_def i64_defs split: option.splits if_splits)
  qed
  with s ApplyExecutionReport_built [OF a wf] show "publication_built p" by (simp add: publication_built_def)
qed

text \<open>The three ways a publication ends.\<close>

lemma publish_cases:
  assumes "publish sha env oid report fopt w = (x, w')"
  obtains (unread) e where "x = Inl e" "w' = tick env w"
  | (published) c nx p s y where "CurrentOrderCheckpoint (xe_ctx env (w_now w)) oid (w_store (tick env w)) = Inr c"
      "prepare_order sha oid c report fopt = Inr (nx, p)"
      "PublishOrderEvent sha (xe_ctx env (w_now (tick env w))) p (w_store (tick env (tick env w))) = (s, y)"
      "w' = (tick env (tick env w))\<lparr>w_store := s\<rparr>" "x = (case y of Inl e \<Rightarrow> Inl e | Inr _ \<Rightarrow> Inr nx)"
  using assms[unfolded publish_def]
proof (cases rule: bind_opE)
  case (error e)
  with query_step(2) [OF error(1)] show thesis by (intro unread) auto
next
  case (more c w1)
  note q = query_step [OF more(1)]
  from more(2) show thesis
  proof (cases rule: bind_opE)
    case (error e)
    then show thesis using q(2) by (intro unread) (auto simp: lift_r_def)
  next
    case (more np w2)
    then obtain nx p where np: "prepare_order sha oid c report fopt = Inr (nx, p)" "np = (nx, p)" "w2 = tick env w"
      using q(2) by (cases np) (auto simp: lift_r_def)
    from more(2) np have "bind_op (access env (\<lambda>ctx. PublishOrderEvent sha ctx p)) (\<lambda>_. ret nx) (tick env w) = (x, w')"
      by simp
    then show thesis
    proof (cases rule: bind_opE)
      case (error e)
      from error(1) show thesis
        by (rule access_step) (use published [OF q(1) [symmetric] np(1)] error(2) in auto)
    next
      case (more y w3)
      from more(1) show thesis
        by (rule access_step) (use published [OF q(1) [symmetric] np(1)] more(2) in \<open>auto simp: ret_def\<close>)
    qed
  qed
qed

lemma keeps_publish:
  assumes "env_ok sha env" "report_built report" "0 \<le> fill_quantity fopt" "ers_order (er_spec report) = oid"
  shows "keeps (moves sha Q) (publish sha env oid report fopt)"
proof (rule keepsI)
  fix w x w' assume "publish sha env oid report fopt w = (x, w')"
  then show "moves sha Q w w'"
  proof (cases rule: publish_cases)
    case (unread e)
    then show ?thesis by (simp add: moves_tick [OF assms(1)])
  next
    case (published c nx p s y)
    have two: "(live_step sha)\<^sup>*\<^sup>* (w_store w) (w_store (tick env w))"
      "(live_step sha)\<^sup>*\<^sup>* (w_store (tick env w)) (w_store (tick env (tick env w)))"
      by (rule tick_live [OF assms(1)])+
    show ?thesis
    proof (rule moves_live)
      assume inv: "live_inv sha (w_store w)"
      from live_run.reach_inv [OF two(1) inv] have "oms_inv (w_store (tick env w))" by (simp add: live_inv_def)
      from order_at_ok(1) [OF this query_order(1) [OF published(1)]] have "order_wf (oc_order c)" by (simp add: order_built_def)
      with prepare_order_Inr [OF published(2)] assms(2-4) published(3)
      have "live_step sha (w_store (tick env (tick env w))) s" by (auto intro: live_step.publish)
      with two published(4) show "(live_step sha)\<^sup>*\<^sup>* (w_store w) (w_store w')" by simp
    qed (simp add: published(4))
  qed
qed

lemma event_fill_positive: "event_fill sha order event report = Inr fopt \<Longrightarrow> 0 \<le> fill_quantity fopt"
  by (auto simp: event_fill_def NewQuantity_def NewFill_def Let_def split: if_splits)

section \<open>Handlers that submit nothing\<close>

text \<open>
  The contract of the accesses and of \<open>publish\<close>, from which every handler that submits nothing keeps a relation.
\<close>

locale handlers = op_relation R for R :: "'b world \<Rightarrow> 'b world \<Rightarrow> bool" +
  fixes sha :: "string \<Rightarrow> digest" and env :: "'b exec_env"
  assumes tick: "R w (tick env w)"
    and broker: "R w (w\<lparr>w_broker := d\<rparr>)"
    and publication: "report_built report \<Longrightarrow> 0 \<le> fill_quantity fopt \<Longrightarrow> ers_order (er_spec report) = oid \<Longrightarrow>
      keeps R (publish sha env oid report fopt)"
begin

lemma keeps_query: "keeps R (query env f)"
  by (auto simp: keeps_def dest!: query_step(2) intro: tick)

lemma invoke_moves: "invoke env r f w = (x, w') \<Longrightarrow> R w w'"
  by (elim invoke_step) (auto intro: trans [OF tick broker])

lemma keeps_invoke: "keeps R (invokeLookup port env client)" "keeps R (invokeEvents port env)" "keeps R (invokeCancel port env request)"
  by (auto simp: keeps_def invokeLookup_def invokeEvents_def invokeCancel_def dest: invoke_moves)

lemma keeps_lifted: "(\<And>y. x = Inr y \<Longrightarrow> keeps R (f y)) \<Longrightarrow> keeps R (bind_op (lift_r x) f)"
  by (cases x) (auto simp: keeps_def bind_op_def andThen_def lift_r_def fail_def refl)

lemma keeps_internal: "keeps R (publishInternalWithBroker sha env order kind reason at key brokerID)"
  "keeps R (publishInternal sha env order kind reason at key)"
  unfolding publishInternal_def publishInternalWithBroker_def
  by (intro keeps_lifted publication; simp add: NewExecutionReport_built)+

lemma keeps_recover: "keeps R (recoverUnknown sha port env order at)"
  unfolding recoverUnknown_def
  by (intro keeps_bind keeps_invoke) (auto intro: keeps_pure keeps_internal split: if_splits)

lemma keeps_event: "keeps R (PublishBrokerEvent sha env event at)"
proof -
  have pub: "keeps R (publish sha env (ord_id order) report fopt)"
    if "NewExecutionReport sha (event_report_spec order event at) = Inr report" "event_fill sha order event report = Inr fopt"
    for order report fopt
    using NewExecutionReport_built(1,2) [OF that(1)] event_fill_positive [OF that(2)]
    by (intro publication) (simp_all add: event_report_spec_def)
  show ?thesis
    unfolding PublishBrokerEvent_def
    by (rule keeps_bind, rule keeps_query, rule keeps_reserving, rule keeps_releasing, rule keeps_lifted)
      (auto split: option.splits intro!: keeps_bind [OF keeps_query] keeps_lifted keeps_bind [OF pub] keeps_pure)
qed

lemma keeps_drain_events: "keeps R (drain_events sha env at events)"
proof (induction events)
  case Nil
  show ?case by (simp add: keeps_pure)
next
  case (Cons event events)
  then show ?case by (auto intro!: keeps_andThen keeps_event keeps_pure split: sum.splits)
qed

lemma keeps_drain: "keeps R (DrainEvents sha port env at)" "keeps R (drain_tolerant sha port env at)"
proof -
  have c: "keeps R (\<lambda>w. (Inr (), w\<lparr>w_coord := (w_coord w)\<lparr>xc_cursor := n\<rparr>\<rparr>))" for n
    by (rule keepsI) (auto intro: coord)
  show d: "keeps R (DrainEvents sha port env at)"
    unfolding DrainEvents_def by (intro keeps_bind keeps_invoke keeps_drain_events c)
  show "keeps R (drain_tolerant sha port env at)"
    unfolding drain_tolerant_def by (intro keeps_andThen d) (auto intro: keeps_pure split: sum.splits)
qed

lemma keeps_settle: "keeps R (settle_submission sha port env attempt current at answer)"
  unfolding settle_submission_def
  by (auto intro!: keeps_rules keeps_internal keeps_recover split: sum.splits)

lemma keeps_cancel: "keeps R (RequestCancel sha port env oid at)"
  unfolding RequestCancel_def
  by (auto intro!: keeps_rules keeps_internal keeps_query keeps_invoke keeps_drain split: sum.splits)

lemma keeps_plan_ready: "keeps R (plan_ready env pid at)"
  unfolding plan_ready_def by (auto intro!: keeps_bind keeps_query keeps_pure)

end

lemma keeps_if: "keeps (\<lambda>w w'. A \<longrightarrow> R w w') m \<Longrightarrow> A \<Longrightarrow> keeps R m"
  by (simp add: keeps_def)

interpretation moves_in: handlers "\<lambda>w w'. env_ok sha env \<longrightarrow> moves sha Q w w'" sha env for sha env Q
proof unfold_locales
  show "env_ok sha env \<longrightarrow> moves sha Q w w" for w :: "'a world" by (simp add: moves.refl)
  show "env_ok sha env \<longrightarrow> moves sha Q w w2" if "env_ok sha env \<longrightarrow> moves sha Q w w1" "env_ok sha env \<longrightarrow> moves sha Q w1 w2"
    for w w1 w2 :: "'a world" using that by (blast intro: moves.trans)
  show "env_ok sha env \<longrightarrow> moves sha Q w (w\<lparr>w_coord := c\<rparr>)" for w :: "'a world" and c by (simp add: moves.coord)
  show "env_ok sha env \<longrightarrow> moves sha Q w (tick env w)" for w :: "'a world" by (simp add: moves_tick)
  show "env_ok sha env \<longrightarrow> moves sha Q w (w\<lparr>w_broker := d\<rparr>)" for w :: "'a world" and d by (auto intro: moves_live)
  show "keeps (\<lambda>w w'. env_ok sha env \<longrightarrow> moves sha Q w w') (publish sha env oid report fopt)"
    if "report_built report" "0 \<le> fill_quantity fopt" "ers_order (er_spec report) = oid" for report fopt oid
    using keeps_publish [of sha env report fopt oid Q] that by (auto simp: keeps_def)
qed

lemmas keeps_internal = moves_in.keeps_internal [THEN keeps_if]
lemmas keeps_recover = moves_in.keeps_recover [THEN keeps_if]
lemmas keeps_lookup = moves_in.keeps_invoke(1) [THEN keeps_if]
lemmas keeps_event = moves_in.keeps_event [THEN keeps_if]
lemmas keeps_drain = moves_in.keeps_drain [THEN keeps_if]
lemmas keeps_settle = moves_in.keeps_settle [THEN keeps_if]
lemmas keeps_cancel = moves_in.keeps_cancel [THEN keeps_if]
lemmas keeps_plan_ready = moves_in.keeps_plan_ready [THEN keeps_if]

section \<open>Submission\<close>

lemma held_reserve:
  assumes "reserveOrder env oid w = (True, w')"
  shows "held w' oid" "w_store w' = w_store w" "w_sent w' = w_sent w"
  using assms by (auto simp: reserveOrder_def Let_def split: if_splits)

lemma pending_published:
  assumes "env_ok sha env" "sane sha w" "held w oid" "order_at (w_store w) oid = Some cur" "state_of cur = OrderPlanned"
    "publishInternal sha env cur ReportSubmissionPending reason at key w = (Inr nx, w')"
  shows "order_at (w_store w') oid = Some nx" "state_of nx = OrderSubmissionPending" "w_coord w' = w_coord w"
    "w_sent w' = w_sent w"
proof -
  have inv: "live_inv sha (w_store w)" using assms(2) by (simp add: sane_def)
  have oid: "ord_id cur = oid" "order_wf cur"
    using order_at_ok [OF _ assms(4)] inv by (auto simp: live_inv_def order_built_def)
  obtain spec r where spec: "NewExecutionReport sha spec = Inr r" "ers_order spec = oid" "ers_type spec = ReportSubmissionPending"
    and p: "publish sha env oid r None w = (Inr nx, w')"
    using assms(6) unfolding publishInternal_def publishInternalWithBroker_def
    by (auto elim!: bind_opE simp: lift_r_def oid(1))
  note r = NewExecutionReport_built [OF spec(1), unfolded spec(2,3)]
  from p obtain c p s y where pub: "CurrentOrderCheckpoint (xe_ctx env (w_now w)) oid (w_store (tick env w)) = Inr c"
    "prepare_order sha oid c r None = Inr (nx, p)"
    "PublishOrderEvent sha (xe_ctx env (w_now (tick env w))) p (w_store (tick env (tick env w))) = (s, Inr y)"
    "w' = (tick env (tick env w))\<lparr>w_store := s\<rparr>"
    by (rule publish_cases) (auto split: sum.splits)
  let ?t = "tick env (tick env w)"
  have t: "order_at (w_store (tick env w)) oid = Some cur" "order_at (w_store ?t) oid = Some cur"
    using tick_held [OF assms(1), of w oid] tick_held [OF assms(1), of "tick env w" oid] assms(3,4) by simp_all
  from query_order(1) [OF pub(1)] t(1) have c: "oc_order c = cur" by simp
  have invt: "live_inv sha (w_store ?t)"
    using live_run.reach_inv [OF rtranclp_trans [OF tick_live [OF assms(1)] tick_live [OF assms(1)]] inv] .
  note prep = prepare_order_Inr [OF pub(2)]
  have built: "publication_built p" using prep(5) oid(2) by (simp add: c)
  obtain v nx' where v: "NewOrderPublication sha p = Inr v" "admit_publication (w_store ?t) v = Inr nx'"
    "s = commit_publication (w_store ?t) v nx'"
    by (rule publish_commits [OF invt pub(3), of cur]) (use r prep t(2) in \<open>auto simp: c\<close>)
  from commit_order_at [OF _ built v(1,2)] invt have "order_at s oid = Some (oc_order (pu_next p))"
    unfolding v(3) using prep(2) r(2) by (fastforce simp: live_inv_def)
  with prep(4) pub(4) show "order_at (w_store w') oid = Some nx" by simp
  from apply_pending(2) [OF prep(1) r(3)] assms(5) show "state_of nx = OrderSubmissionPending" by (simp add: c early_def)
  show "w_coord w' = w_coord w" "w_sent w' = w_sent w" by (simp_all add: pub(4))
qed

lemma invokeSubmit_step:
  assumes "invokeSubmit port env request w = (x, w')"
  obtains b where "w' = (tick env w)\<lparr>w_broker := b, w_sent := w_sent w @ [(request, w_store (tick env w))]\<rparr>"
proof -
  obtain y w1 where i: "invoke env (Broker ErrOutcomeUnknown) (\<lambda>d. port_submit port d request) w = (y, w1)" by fastforce
  then obtain b where "w1 = (tick env w)\<lparr>w_broker := b\<rparr>" by (rule invoke_step)
  with i assms that [of b] show thesis by (simp add: invokeSubmit_def)
qed

lemma one_attempt_snoc:
  assumes "one_attempt es" "\<forall>e \<in> set es. sb_order (fst e) = sb_order r \<longrightarrow> sb_attempt (fst e) = sb_attempt r"
  shows "one_attempt (es @ [(r, s)])"
  using assms unfolding one_attempt_def by (metis fst_conv list.set_intros(1) set_ConsD set_append Un_iff empty_iff empty_set)

text \<open>One more submission of the attempt under way.\<close>

lemma submit_once:
  assumes "env_ok sha env" "sane sha w" "held w oid" "order_at (w_store w) oid = Some a" "state_of a = OrderSubmissionPending"
    "request = submission_of attempt a at" "\<forall>e \<in> set (w_sent w). sb_order (fst e) = oid \<longrightarrow> sb_attempt (fst e) = attempt"
    "invokeSubmit port env request w = (x, w')"
  shows "sane sha w'" "held w' oid" "order_at (w_store w') oid = Some a" "(live_step sha)\<^sup>*\<^sup>* (w_store w) (w_store w')"
    "w_sent w' = w_sent w @ [(request, w_store w')]"
proof -
  obtain b where w': "w' = (tick env w)\<lparr>w_broker := b, w_sent := w_sent w @ [(request, w_store (tick env w))]\<rparr>"
    using assms(8) by (rule invokeSubmit_step)
  have inv: "live_inv sha (w_store w)" using assms(2) by (simp add: sane_def)
  have oid: "ord_id a = oid" using order_at_ok(2) [OF _ assms(4)] inv by (simp add: live_inv_def)
  show at: "order_at (w_store w') oid = Some a" and run: "(live_step sha)\<^sup>*\<^sup>* (w_store w) (w_store w')"
    using tick_held [OF assms(1,3)] tick_live [OF assms(1)] assms(4) by (simp_all add: w')
  show "held w' oid" "w_sent w' = w_sent w @ [(request, w_store w')]" using assms(3) by (simp_all add: w')
  have inv': "live_inv sha (w_store w')" using live_run.reach_inv [OF run inv] .
  have request: "sb_order request = oid" "sb_attempt request = attempt" "request = submission_of (sb_attempt request) a (sb_submitted_at request)"
    using assms(6) oid by (simp_all add: submission_of_def)
  have "entry_ok sha (w_store w') (request, w_store w')"
    unfolding entry_ok_def fst_conv snd_conv using inv' at assms(5) request(1,3) by blast
  moreover have "entry_ok sha (w_store w') e" if "e \<in> set (w_sent w)" for e
    using assms(2) that run by (auto simp: sane_def entry_ok_def intro: rtranclp_trans)
  moreover have "one_attempt (w_sent w @ [(request, w_store w')])"
    using one_attempt_snoc [of "w_sent w" request] assms(2,7) unfolding request(1,2) by (simp add: sane_def)
  ultimately show "sane sha w'" using inv' by (simp add: sane_def w')
qed

lemma submit_attempts_moves:
  assumes "env_ok sha env" "sane sha w" "held w oid" "order_at (w_store w) oid = Some a" "state_of a = OrderSubmissionPending"
    "\<forall>e \<in> set (w_sent w). sb_order (fst e) = oid \<longrightarrow> sb_attempt (fst e) = attempt"
    "submit_attempts port env (submission_of attempt a at) n w = (x, w')"
  shows "moves sha (\<lambda>e. fst e = submission_of attempt a at \<and> (live_step sha)\<^sup>*\<^sup>* (w_store w) (snd e)) w w'"
  using assms
proof (induction n arbitrary: w)
  case (0 w)
  then have "invokeSubmit port env (submission_of attempt a at) w = (x, w')"
    by (subst (asm) submit_attempts.simps) (auto elim!: andThenE simp: lift_r_def)
  from submit_once [OF 0(1-5) refl 0(6) this] show ?case by (auto simp: moves_def)
next
  case (Suc n w)
  let ?r = "submission_of attempt a at"
  from Suc.prems(7) obtain y w1 where s: "invokeSubmit port env ?r w = (y, w1)"
    and rest: "(if y = Inl (Broker ErrUnavailable) then submit_attempts port env ?r n else lift_r y) w1 = (x, w')"
    by (subst (asm) submit_attempts.simps) (auto elim!: andThenE)
  note once = submit_once [OF Suc.prems(1-5) refl Suc.prems(6) s]
  have first: "moves sha (\<lambda>e. fst e = ?r \<and> (live_step sha)\<^sup>*\<^sup>* (w_store w) (snd e)) w w1"
    using once by (auto simp: moves_def)
  show ?case
  proof (cases "y = Inl (Broker ErrUnavailable)")
    case True
    have "sb_attempt (fst e) = attempt" if "e \<in> set (w_sent w1)" "sb_order (fst e) = oid" for e
      using that Suc.prems(6) by (auto simp: once(5) submission_of_def)
    then have "moves sha (\<lambda>e. fst e = ?r \<and> (live_step sha)\<^sup>*\<^sup>* (w_store w1) (snd e)) w1 w'"
      using Suc.IH [OF Suc.prems(1) once(1-3) Suc.prems(5)] rest True by simp
    then have "moves sha (\<lambda>e. fst e = ?r \<and> (live_step sha)\<^sup>*\<^sup>* (w_store w) (snd e)) w1 w'"
      by (rule moves_mono) (use once(4) in \<open>auto intro: rtranclp_trans\<close>)
    with first show ?thesis by (rule moves.trans)
  next
    case False
    with rest first show ?thesis by (simp add: lift_r_def)
  qed
qed

text \<open>An order that is still PLANNED was never submitted.\<close>

lemma planned_unsent:
  assumes "sane sha w" "order_at (w_store w) oid = Some a" "early (state_of a)" "e \<in> set (w_sent w)"
  shows "sb_order (fst e) \<noteq> oid"
proof
  assume "sb_order (fst e) = oid"
  with assms(1,4) obtain b where b: "order_at (snd e) oid = Some b" "state_of b = OrderSubmissionPending"
    "live_inv sha (snd e)" "(live_step sha)\<^sup>*\<^sup>* (snd e) (w_store w)" by (auto simp: sane_def entry_ok_def)
  from live_growsD [OF live_run.reach_grows [OF b(4,3)] b(1)] assms(2) have "order_later b a" by auto
  with assms(3) b(2) show False by (auto simp: order_later_def early_def)
qed

lemma moves_if: "(sane sha w \<Longrightarrow> moves sha Q w w') \<Longrightarrow> moves sha Q w w'"
  by (auto simp: moves_def)

lemma submission_moves:
  assumes env: "env_ok sha env" and sane: "sane sha w" and held: "held w oid"
    and cur: "order_at (w_store w) oid = Some cur" "state_of cur = OrderPlanned"
    and run: "bind_op (publishInternal sha env cur ReportSubmissionPending ReasonSubmissionStarted at key) (\<lambda>pending w.
       andThen (submit_attempts port env (submission_of att pending at) (nat (xg_retries (xc_config (w_coord w)))))
         (settle_submission sha port env att pending at) w) w = (x, w')"
  shows "moves sha (\<lambda>e. sb_order (fst e) = oid \<and> (live_step sha)\<^sup>*\<^sup>* (w_store w) (snd e)) w w'" (is "moves sha ?Q w w'")
  using run
proof (cases rule: bind_opE)
  case (error e)
  then show ?thesis by (blast intro: keepsD [OF keeps_internal(2) [OF env]])
next
  case (more pending w2)
  have w2: "moves sha ?Q w w2" by (rule keepsD [OF keeps_internal(2) [OF env] more(1)])
  note p = pending_published [OF env sane held cur more(1)]
  have s2: "sane sha w2" using movesD(1) [OF w2 sane] .
  have oid: "ord_id pending = oid" using order_at_ok(2) [OF _ p(1)] s2 by (simp add: sane_def live_inv_def)
  have unsent: "sb_order (fst e) \<noteq> oid" if "e \<in> set (w_sent w2)" for e
    using planned_unsent [OF sane cur(1)] that cur(2) by (simp add: early_def p(4))
  obtain y w4 where sub: "submit_attempts port env (submission_of att pending at) (nat (xg_retries (xc_config (w_coord w2)))) w2 = (y, w4)"
    "settle_submission sha port env att pending at y w4 = (x, w')"
    using more(2) by (rule andThenE)
  have "moves sha (\<lambda>e. fst e = submission_of att pending at \<and> (live_step sha)\<^sup>*\<^sup>* (w_store w2) (snd e)) w2 w4"
    by (rule submit_attempts_moves [OF env s2 _ p(1,2) _ sub(1)]) (use held unsent p(3) in auto)
  then have "moves sha ?Q w2 w4"
    by (rule moves_mono) (use movesD(2) [OF w2 sane] in \<open>auto simp: submission_of_def oid intro: rtranclp_trans\<close>)
  moreover have "moves sha ?Q w4 w'" by (rule keepsD [OF keeps_settle [OF env] sub(2)])
  ultimately show ?thesis using w2 by (blast intro: moves.trans)
qed

lemma reserving_moves:
  assumes "\<And>w1 w2. held w1 oid \<Longrightarrow> w_store w1 = w_store w \<Longrightarrow> m w1 = (x, w2) \<Longrightarrow> moves sha Q w1 w2"
    "reserving env oid (releasing oid m) w = (x, w')"
  shows "moves sha Q w w'"
proof (cases "reserveOrder env oid w")
  case (Pair ok w0)
  then have w0: "\<exists>c. w0 = w\<lparr>w_coord := c\<rparr>" "\<not> ok \<Longrightarrow> w0 = w"
    by (auto simp: reserveOrder_def Let_def split: if_splits intro: exI [of _ "w_coord w"])
  show ?thesis
  proof (cases ok)
    case False
    with Pair assms(2) w0(2) show ?thesis by (simp add: reserving_def moves.refl)
  next
    case True
    obtain w3 where w3: "m w0 = (x, w3)" "w' = releaseOrder oid w3"
      using assms(2) Pair True by (auto simp: reserving_def releasing_def Let_def split: prod.splits)
    have "moves sha Q w0 w3" using held_reserve [of env oid w w0] Pair True w3(1) by (intro assms(1)) auto
    then have "moves sha Q w w3" using w0(1) by (auto intro: moves.trans [OF moves.coord])
    then show ?thesis unfolding w3(2) releaseOrder_def by (rule moves.trans [OF _ moves.coord])
  qed
qed

lemma submit_moves:
  assumes "env_ok sha env" "submit sha port env order at w = (x, w')"
  shows "moves sha (\<lambda>e. sb_order (fst e) = ord_id order \<and> (live_step sha)\<^sup>*\<^sup>* (w_store w) (snd e)) w w'"
    (is "moves sha ?Q w w'")
  using assms(2) unfolding submit_def
proof (rule reserving_moves [rotated])
  fix w0 w3
  assume held: "held w0 (ord_id order)" and same: "w_store w0 = w_store w"
    and body: "bind_op (query env (\<lambda>ctx. OMS_Order ctx (ord_id order))) (\<lambda>current.
       if os_state (ord_spec current) \<noteq> OrderPlanned then ret (ord_id current, os_state (ord_spec current))
       else let attemptID = attempt_id sha (ord_id order) current at in
       bind_op (publishInternal sha env current ReportSubmissionPending ReasonSubmissionStarted at
                  (digest_string attemptID @ ''-pending'')) (\<lambda>pending w.
       andThen (submit_attempts port env (submission_of attemptID pending at) (nat (xg_retries (xc_config (w_coord w)))))
         (settle_submission sha port env attemptID pending at) w)) w0 = (x, w3)"
  from body show "moves sha ?Q w0 w3"
  proof (cases rule: bind_opE)
    case (error e)
    with query_step(2) [OF error(1)] show ?thesis by (simp add: moves_tick [OF assms(1)])
  next
    case (more cur w1)
    note q = query_step [OF more(1)]
    have w1: "moves sha ?Q w0 w1" unfolding q(2) by (rule moves_tick [OF assms(1)])
    show ?thesis
    proof (cases "state_of cur = OrderPlanned")
      case False
      with more(2) w1 show ?thesis by (simp add: ret_def)
    next
      case True
      have cur: "order_at (w_store w1) (ord_id order) = Some cur"
        using query_order(2) [of _ "ord_id order" "w_store (tick env w0)" cur] q by simp
      show ?thesis
      proof (rule moves_if)
        assume sane: "sane sha w0"
        have "moves sha (\<lambda>e. sb_order (fst e) = ord_id order \<and> (live_step sha)\<^sup>*\<^sup>* (w_store w1) (snd e)) w1 w3"
          by (rule submission_moves [OF assms(1) movesD(1) [OF w1 sane] _ cur True]) (use held q(2) more(2) True in \<open>auto simp: Let_def\<close>)
        then have "moves sha ?Q w1 w3"
          by (rule moves_mono) (use movesD(2) [OF w1 sane] same in \<open>auto intro: rtranclp_trans\<close>)
        with w1 show "moves sha ?Q w0 w3" by (rule moves.trans)
      qed
    qed
  qed
qed

section \<open>The legs of a plan\<close>

text \<open>What an entry of \<open>byLeg\<close> says about the store: the leg and the plan of the order, and that FILLED is true.\<close>

definition leg_ok :: "digest \<Rightarrow> oms_store \<Rightarrow> digest \<Rightarrow> order \<Rightarrow> bool" where
  "leg_ok pid st k ord \<longleftrightarrow> (\<exists>a. order_at st (ord_id ord) = Some a \<and> ol_id (leg_of a) = k \<and> os_plan (ord_spec a) = pid \<and>
     (state_of ord = OrderFilled \<longrightarrow> state_of a = OrderFilled))"

definition legs_ok :: "digest \<Rightarrow> oms_store \<Rightarrow> (digest, order) gomap \<Rightarrow> bool" where
  "legs_ok pid st m \<longleftrightarrow> (\<forall>k ord. map_of m k = Some ord \<longrightarrow> leg_ok pid st k ord)"

lemma leg_ok_grows: "leg_ok pid s k ord \<Longrightarrow> live_grows s t \<Longrightarrow> leg_ok pid t k ord"
  unfolding leg_ok_def by (elim exE conjE, drule (1) live_growsD) (auto simp: order_later_def)

lemma legs_ok_grows: "legs_ok pid s m \<Longrightarrow> live_grows s t \<Longrightarrow> legs_ok pid t m"
  by (auto simp: legs_ok_def intro: leg_ok_grows)

lemma legs_ok_put: "legs_ok pid st m \<Longrightarrow> leg_ok pid st k ord \<Longrightarrow> legs_ok pid st (put k ord m)"
  by (auto simp: legs_ok_def)

lemma publish_leg_ok:
  assumes "env_ok sha env" "sane sha w" "publish sha env oid r None w = (Inr nx, w')" "report_built r"
    "ers_type (er_spec r) \<noteq> ReportFill" "leg_ok pid (w_store w) k ord" "ord_id ord = oid" "ers_order (er_spec r) = oid"
  shows "leg_ok pid (w_store w') k nx" "ord_id nx = oid"
proof -
  from assms(3) obtain c p s y where pub: "CurrentOrderCheckpoint (xe_ctx env (w_now w)) oid (w_store (tick env w)) = Inr c"
    "prepare_order sha oid c r None = Inr (nx, p)"
    "PublishOrderEvent sha (xe_ctx env (w_now (tick env w))) p (w_store (tick env (tick env w))) = (s, Inr y)"
    "w' = (tick env (tick env w))\<lparr>w_store := s\<rparr>"
    by (rule publish_cases) (auto split: sum.splits)
  have t: "moves sha (\<lambda>_. True) w (tick env w)" by (rule moves_tick [OF assms(1)])
  have m: "moves sha (\<lambda>_. True) w w'" by (rule keepsD [OF keeps_publish [OF assms(1,4)] assms(3)]) (simp_all add: assms(8))
  note at = query_order(1) [OF pub(1)]
  from leg_ok_grows [OF assms(6) movesD(3) [OF t assms(2)]] at assms(7)
  have c: "ol_id (leg_of (oc_order c)) = k" "os_plan (ord_spec (oc_order c)) = pid" by (auto simp: leg_ok_def)
  have inv: "oms_inv (w_store (tick env w))" "live_inv sha (w_store w)"
    using movesD(1) [OF t assms(2)] assms(2) by (auto simp: sane_def live_inv_def)
  have oid: "ord_id (oc_order c) = oid" "order_wf (oc_order c)" using order_at_ok [OF inv(1) at] by (auto simp: order_built_def)
  have built: "publication_built p" using prepare_order_Inr(5) [OF pub(2)] oid(2) by simp
  have step: "(live_step sha)\<^sup>*\<^sup>* (w_store (tick env w)) s"
    using tick_live [OF assms(1), of "tick env w"] live_step.publish [OF pub(3) built] assms(4,8) prepare_order_Inr(2,6) [OF pub(2)] by auto
  have "live_inv sha (w_store (tick env w))" using movesD(1) [OF t assms(2)] by (simp add: sane_def)
  from live_growsD [OF live_run.reach_grows [OF step this] at] obtain b where
    b: "order_at s oid = Some b" "order_later (oc_order c) b" by blast
  from prepare_order_Inr(1) [OF pub(2)] have nx: "ord_id nx = oid \<and> (state_of nx = OrderFilled \<longrightarrow> state_of (oc_order c) = OrderFilled)"
  proof (rule ApplyExecutionReport_cases)
    fix t assume "reportTarget (ers_type (er_spec r)) = Some t" "ord_id nx = ord_id (oc_order c)"
      "state_of nx = (if legalTransition (state_of (oc_order c)) t then t else state_of (oc_order c))"
    with assms(5) oid show ?thesis by (cases "ers_type (er_spec r)") auto
  qed
  then show "ord_id nx = oid" by simp
  from nx b c show "leg_ok pid (w_store w') k nx" unfolding pub(4) leg_ok_def order_later_def by auto
qed

lemma internal_leg_ok:
  assumes "env_ok sha env" "sane sha w" "leg_ok pid (w_store w) k ord" "kind \<noteq> ReportFill"
    "publishInternalWithBroker sha env ord kind reason at key brokerID w = (Inr nx, w')"
  shows "leg_ok pid (w_store w') k nx" "ord_id nx = ord_id ord"
proof -
  obtain spec r where r: "NewExecutionReport sha spec = Inr r" "ers_type spec = kind" "ers_order spec = ord_id ord"
    and p: "publish sha env (ord_id ord) r None w = (Inr nx, w')"
    using assms(5) unfolding publishInternalWithBroker_def by (auto elim!: bind_opE simp: lift_r_def)
  from publish_leg_ok [OF assms(1,2) p NewExecutionReport_built(1) [OF r(1)] _ assms(3) refl]
    NewExecutionReport_built(2,3) [OF r(1)] r(2,3) assms(4)
  show "leg_ok pid (w_store w') k nx" "ord_id nx = ord_id ord" by simp_all
qed

lemma recover_leg_ok:
  assumes "env_ok sha env" "sane sha w" "leg_ok pid (w_store w) k ord" "recoverUnknown sha port env ord at w = (Inr nx, w')"
  shows "leg_ok pid (w_store w') k nx"
  using assms(4) unfolding recoverUnknown_def
proof (cases rule: bind_opE)
  case (more snap w1)
  have m: "moves sha (\<lambda>_. True) w w1" by (rule keepsD [OF keeps_lookup [OF assms(1)] more(1)])
  from more(2) have "publishInternalWithBroker sha env ord ReportSubmitted ReasonBrokerAccepted at
      (''recovered-'' @ sn_broker_order snap) (sn_broker_order snap) w1 = (Inr nx, w')"
    by (auto simp: fail_def split: if_splits)
  from internal_leg_ok(1) [OF assms(1) movesD(1) [OF m assms(2)] leg_ok_grows [OF assms(3) movesD(3) [OF m assms(2)]] _ this]
  show ?thesis by simp
qed auto

end
