(* ===== verification/Exec_Plan.thy ===== *)
theory Exec_Plan
  imports Exec_Runs
begin

text \<open>
  The execution of a plan: every submission it sends is for a leg of the plan whose dependencies are all FILLED at
  that moment.
\<close>

definition submitted_leg :: "order_plan \<Rightarrow> submission \<times> oms_store \<Rightarrow> bool" where
  "submitted_leg plan e \<longleftrightarrow> (\<exists>leg \<in> set (op_legs plan). \<exists>a. order_at (snd e) (sb_order (fst e)) = Some a \<and>
     ol_id (leg_of a) = ol_id leg \<and> os_plan (ord_spec a) = op_id plan \<and>
     (\<forall>d \<in> set (ol_depends_on leg). \<exists>b. order_at (snd e) (ord_id b) = Some b \<and> os_plan (ord_spec b) = op_id plan \<and>
        ol_id (leg_of b) = d \<and> state_of b = OrderFilled))"

lemma dependencies_hold:
  assumes "dependenciesFilled leg m" "legs_ok pid st m" "live_inv sha st" "d \<in> set (ol_depends_on leg)"
  shows "\<exists>b. order_at st (ord_id b) = Some b \<and> os_plan (ord_spec b) = pid \<and> ol_id (leg_of b) = d \<and> state_of b = OrderFilled"
proof -
  from assms(1,4) obtain ord where ord: "map_of m d = Some ord" "state_of ord = OrderFilled"
    by (auto simp: dependenciesFilled_def list_all_iff split: option.splits)
  with assms(2) obtain b where b: "order_at st (ord_id ord) = Some b" "ol_id (leg_of b) = d" "os_plan (ord_spec b) = pid"
    "state_of b = OrderFilled" by (fastforce simp: legs_ok_def leg_ok_def)
  moreover have "ord_id b = ord_id ord" using order_at_ok(2) [OF _ b(1)] assms(3) by (simp add: live_inv_def)
  ultimately show ?thesis by metis
qed

lemma submit_leg_moves:
  assumes "env_ok sha env" "sane sha w" "legs_ok (op_id plan) (w_store w) m" "leg \<in> set (op_legs plan)"
    "map_of m (ol_id leg) = Some ord" "dependenciesFilled leg m" "submit sha port env ord at w = (x, w')"
  shows "moves sha (submitted_leg plan) w w'"
proof (rule moves_mono [OF submit_moves [OF assms(1,7)]])
  fix e :: "submission \<times> oms_store"
  assume e: "sb_order (fst e) = ord_id ord \<and> (live_step sha)\<^sup>*\<^sup>* (w_store w) (snd e)"
  have inv: "live_inv sha (w_store w)" using assms(2) by (simp add: sane_def)
  with e have grows: "live_grows (w_store w) (snd e)" "live_inv sha (snd e)"
    using live_run.reach_grows live_run.reach_inv by blast+
  have "leg_ok (op_id plan) (snd e) (ol_id leg) ord"
    using assms(3,5) leg_ok_grows [OF _ grows(1)] by (simp add: legs_ok_def)
  then obtain a where "order_at (snd e) (sb_order (fst e)) = Some a" "ol_id (leg_of a) = ol_id leg" "os_plan (ord_spec a) = op_id plan"
    using e by (auto simp: leg_ok_def)
  moreover note dependencies_hold [OF assms(6) legs_ok_grows [OF assms(3) grows(1)] grows(2)]
  ultimately show "submitted_leg plan e" using assms(4) unfolding submitted_leg_def by blast
qed

text \<open>What holds after a step over a leg, whatever its answer.\<close>

definition leg_done ::
  "(string \<Rightarrow> digest) \<Rightarrow> order_plan \<Rightarrow> 'b world \<Rightarrow> ((digest, order) gomap \<times> bool) result \<Rightarrow> 'b world \<Rightarrow> bool" where
  "leg_done sha plan w x w' \<longleftrightarrow> moves sha (submitted_leg plan) w w' \<and>
     (\<forall>state. x = Inr state \<longrightarrow> legs_ok (op_id plan) (w_store w') (fst state))"

lemma recover_leg_done:
  assumes "env_ok sha env" "sane sha w" "legs_ok (op_id plan) (w_store w) (fst state)"
    "leg_ok (op_id plan) (w_store w) (ol_id leg) ord" "recover_leg sha port env at leg ord state w = (x, w')"
  shows "leg_done sha plan w x w'"
proof -
  from assms(5) obtain y w1 where r: "releasing (ord_id ord) (recoverUnknown sha port env ord at) w = (y, w1)"
    and rest: "(case y of Inr recovered \<Rightarrow> ret (put (ol_id leg) recovered (fst state), True) | Inl _ \<Rightarrow> ret state) w1 = (x, w')"
    unfolding recover_leg_def by (rule andThenE)
  from r obtain w0 where w0: "recoverUnknown sha port env ord at w = (y, w0)" "w1 = releaseOrder (ord_id ord) w0"
    by (auto simp: releasing_def Let_def split: prod.splits)
  have m: "moves sha (submitted_leg plan) w w0" by (rule keepsD [OF keeps_recover [OF assms(1)] w0(1)])
  then have m1: "moves sha (submitted_leg plan) w w1"
    unfolding w0(2) releaseOrder_def by (rule moves.trans [OF _ moves.coord])
  have st: "w_store w1 = w_store w0" "w' = w1"
    using rest by (auto simp: w0(2) releaseOrder_def ret_def split: sum.splits)
  have legs: "legs_ok (op_id plan) (w_store w0) (fst state)" using legs_ok_grows [OF assms(3) movesD(3) [OF m assms(2)]] .
  have "legs_ok (op_id plan) (w_store w') (fst s)" if "x = Inr s" for s
  proof (cases y)
    case (Inl e)
    with rest legs st that show ?thesis by (simp add: ret_def)
  next
    case (Inr nx)
    from recover_leg_ok [OF assms(1,2,4) w0(1) [unfolded Inr]] legs_ok_put [OF legs] rest Inr st that
    show ?thesis by (auto simp: ret_def)
  qed
  with m1 st(2) show ?thesis by (simp add: leg_done_def)
qed

lemma reserve_moves:
  assumes "reserving env oid m w = (x, w')"
  obtains (busy) "x = Inl (Coordinator ErrOrderBusy)" "w' = w"
  | (reserved) c where "m (w\<lparr>w_coord := c\<rparr>) = (x, w')"
  using assms by (auto simp: reserving_def reserveOrder_def Let_def split: if_splits)

lemma leg_done_coord:
  "leg_done sha plan (w\<lparr>w_coord := c\<rparr>) x w' \<Longrightarrow> leg_done sha plan w x w'"
  unfolding leg_done_def by (blast intro: moves.trans [OF moves.coord])

lemma leg_step_done:
  assumes env: "env_ok sha env" and sane: "sane sha w" and legs: "legs_ok (op_id plan) (w_store w) (fst state)"
    and leg: "leg \<in> set (op_legs plan)" and step: "leg_step sha port env at leg state w = (x, w')"
  shows "leg_done sha plan w x w'"
proof (cases "map_of (fst state) (ol_id leg)")
  case None
  then have "get_or zero_order (fst state) (ol_id leg) = zero_order" by (simp add: get_or_def)
  with step have "(x, w') = (Inr state, w)"
    by (simp add: leg_step_def Let_def zero_order_def ret_def)
  with legs show ?thesis by (simp add: leg_done_def moves.refl)
next
  case (Some ord)
  then have ord: "get_or zero_order (fst state) (ol_id leg) = ord" by (simp add: get_or_def)
  have lok: "leg_ok (op_id plan) (w_store w) (ol_id leg) ord" using legs Some by (simp add: legs_ok_def)
  have sane': "sane sha (w\<lparr>w_coord := c\<rparr>)" for c using sane by (simp add: sane_def)
  consider (pending) "state_of ord = OrderSubmissionPending" | (unknown) "state_of ord = OrderUnknown"
    | (created) "state_of ord = OrderCreated" | (submit) "state_of ord = OrderPlanned" "dependenciesFilled leg (fst state)"
    | (idle) "state_of ord \<notin> {OrderSubmissionPending, OrderUnknown, OrderCreated}"
        "state_of ord \<noteq> OrderPlanned \<or> \<not> dependenciesFilled leg (fst state)" by auto
  then show ?thesis
  proof cases
    case idle
    with step ord legs show ?thesis by (auto simp: leg_step_def ret_def leg_done_def moves.refl)
  next
    case unknown
    with step ord have "reserving env (ord_id ord) (recover_leg sha port env at leg ord state) w = (x, w')"
      by (simp add: leg_step_def)
    then show ?thesis
    proof (cases rule: reserve_moves)
      case (reserved c)
      then show ?thesis by (intro leg_done_coord [where w = w and c = c] recover_leg_done [OF env sane' _ _ reserved]) (simp_all add: legs lok)
    qed (simp add: leg_done_def moves.refl)
  next
    case created
    with step ord have "reserving env (ord_id ord) (bind_op (releasing (ord_id ord)
        (publishInternal sha env ord ReportPlanned ReasonPlanned at ''planned'')) (\<lambda>_. ret (fst state, True))) w = (x, w')"
      by (simp add: leg_step_def)
    then show ?thesis
    proof (cases rule: reserve_moves)
      case (reserved c)
      have "keeps (moves sha (submitted_leg plan)) (bind_op (releasing (ord_id ord)
          (publishInternal sha env ord ReportPlanned ReasonPlanned at ''planned'')) (\<lambda>_. ret (fst state, True)))"
        by (intro moves.keeps_bind moves.keeps_releasing keeps_internal moves.keeps_pure env)
      with reserved have "moves sha (submitted_leg plan) (w\<lparr>w_coord := c\<rparr>) w'" by (blast dest: keepsD)
      then have m: "moves sha (submitted_leg plan) w w'" by (rule moves.trans [OF moves.coord])
      have "fst s = fst state" if "x = Inr s" for s using reserved that by (auto elim!: bind_opE simp: ret_def)
      with m legs_ok_grows [OF legs movesD(3) [OF m sane]] show ?thesis by (simp add: leg_done_def)
    qed (simp add: leg_done_def moves.refl)
  next
    case pending
    with step ord have "reserving env (ord_id ord) (andThen (publishInternal sha env ord ReportUnknown ReasonSubmissionOutcomeUnknown at
          (''restart-unknown-'' @ dec_nat (revision_of ord))) (\<lambda>x. case x of
            Inl e \<Rightarrow> releasing (ord_id zero_order) (fail e)
          | Inr unknown \<Rightarrow> recover_leg sha port env at leg unknown (put (ol_id leg) unknown (fst state), True))) w = (x, w')"
      by (simp add: leg_step_def)
    then show ?thesis
    proof (cases rule: reserve_moves)
      case (reserved c)
      let ?w = "w\<lparr>w_coord := c\<rparr>"
      from reserved obtain y w1 where y: "publishInternal sha env ord ReportUnknown ReasonSubmissionOutcomeUnknown at
          (''restart-unknown-'' @ dec_nat (revision_of ord)) ?w = (y, w1)"
        and rest: "(case y of Inl e \<Rightarrow> releasing (ord_id zero_order) (fail e)
          | Inr unknown \<Rightarrow> recover_leg sha port env at leg unknown (put (ol_id leg) unknown (fst state), True)) w1 = (x, w')"
        by (rule andThenE)
      have m: "moves sha (submitted_leg plan) ?w w1" by (rule keepsD [OF keeps_internal(2) [OF env] y])
      note s1 = movesD [OF m sane']
      show ?thesis
      proof (rule leg_done_coord [where w = w and c = c], cases y)
        case (Inl e)
        with rest have "x = Inl e" "w' = releaseOrder (ord_id zero_order) w1" by (auto simp: releasing_def fail_def)
        with m show "leg_done sha plan ?w x w'"
          by (auto simp: leg_done_def releaseOrder_def intro: moves.trans [OF _ moves.coord])
      next
        case (Inr nx)
        have nx: "leg_ok (op_id plan) (w_store w1) (ol_id leg) nx"
          by (rule internal_leg_ok(1) [OF env sane' _ _ y [unfolded Inr publishInternal_def]]) (simp_all add: lok)
        have "legs_ok (op_id plan) (w_store w1) (put (ol_id leg) nx (fst state))"
          using legs_ok_put [OF legs_ok_grows [OF _ s1(3)] nx] legs by simp
        with rest Inr have "leg_done sha plan w1 x w'"
          by (intro recover_leg_done [OF env s1(1) _ nx]) auto
        with m show "leg_done sha plan ?w x w'" unfolding leg_done_def by (blast intro: moves.trans)
      qed
    qed (simp add: leg_done_def moves.refl)
  next
    case submit
    with step ord have "andThen (submit sha port env ord at) (\<lambda>x. case x of
          Inl e \<Rightarrow> if e \<noteq> Coordinator ErrUnknownOutcome then fail e
            else bind_op (drain_tolerant sha port env at) (\<lambda>_. ret (fst state, True))
        | Inr _ \<Rightarrow> bind_op (drain_tolerant sha port env at) (\<lambda>_. ret (fst state, True))) w = (x, w')"
      by (simp add: leg_step_def)
    then obtain y w1 where y: "submit sha port env ord at w = (y, w1)"
      and rest: "(case y of
          Inl e \<Rightarrow> if e \<noteq> Coordinator ErrUnknownOutcome then fail e
            else bind_op (drain_tolerant sha port env at) (\<lambda>_. ret (fst state, True))
        | Inr _ \<Rightarrow> bind_op (drain_tolerant sha port env at) (\<lambda>_. ret (fst state, True))) w1 = (x, w')"
      by (rule andThenE)
    have m1: "moves sha (submitted_leg plan) w w1" by (rule submit_leg_moves [OF env sane legs leg Some submit(2) y])
    have "keeps (moves sha (submitted_leg plan)) (bind_op (drain_tolerant sha port env at) (\<lambda>_. ret (fst state, True)))"
      by (intro moves.keeps_bind keeps_drain moves.keeps_pure env)
    then have m2: "moves sha (submitted_leg plan) w1 w'"
      using rest by (auto split: sum.splits if_splits dest: keepsD simp: fail_def moves.refl)
    have m: "moves sha (submitted_leg plan) w w'" using m1 m2 by (rule moves.trans)
    have "fst s = fst state" if "x = Inr s" for s
      using rest that by (auto split: sum.splits if_splits elim!: bind_opE simp: ret_def fail_def)
    with m legs_ok_grows [OF legs movesD(3) [OF m sane]] show ?thesis by (simp add: leg_done_def)
  qed
qed

lemma legs_loop_moves:
  assumes "env_ok sha env" "sane sha w" "legs_ok (op_id plan) (w_store w) (fst state)" "set legs \<subseteq> set (op_legs plan)"
    "legs_loop sha port env at legs state w = (x, w')"
  shows "moves sha (submitted_leg plan) w w'"
  using assms
proof (induction legs arbitrary: state w)
  case Nil
  then show ?case by (simp add: ret_def moves.refl)
next
  case (Cons leg legs)
  from Cons.prems(5) have "bind_op (leg_step sha port env at leg state) (legs_loop sha port env at legs) w = (x, w')" by simp
  then show ?case
  proof (cases rule: bind_opE)
    case (error e)
    from leg_step_done [OF Cons.prems(1-3) _ error(1)] Cons.prems(4) show ?thesis by (simp add: leg_done_def)
  next
    case (more state' w1)
    from leg_step_done [OF Cons.prems(1-3) _ more(1)] Cons.prems(4)
    have d: "moves sha (submitted_leg plan) w w1" "legs_ok (op_id plan) (w_store w1) (fst state')" by (auto simp: leg_done_def)
    have "moves sha (submitted_leg plan) w1 w'"
      by (rule Cons.IH [OF Cons.prems(1) movesD(1) [OF d(1) Cons.prems(2)] d(2) _ more(2)]) (use Cons.prems(4) in auto)
    with d(1) show ?thesis by (rule moves.trans)
  qed
qed

lemma map_of_by_leg:
  assumes "map_of (by_leg orders) k = Some ord"
  shows "ord \<in> set orders" "ol_id (leg_of ord) = k"
proof -
  have "ord \<in> set orders \<and> ol_id (leg_of ord) = k \<or> map_of m k = Some ord"
    if "map_of (fold (\<lambda>ord m. put (ol_id (leg_of ord)) ord m) orders m) k = Some ord" for m
    using that by (induction orders arbitrary: m) (fastforce split: if_splits)+
  from this [of "[]"] assms show "ord \<in> set orders" "ol_id (leg_of ord) = k" by (simp_all add: by_leg_def)
qed

lemma by_leg_ok:
  assumes "live_inv sha st" "OrdersForPlan ctx pid st = Inr orders"
  shows "legs_ok pid st (by_leg orders)"
proof -
  have "set orders = {v \<in> set (current_orders st). os_plan (ord_spec v) = pid}"
    using assms(2) by (auto simp: OrdersForPlan_def Let_def split: if_splits)
  then have "order_at st (ord_id ord) = Some ord \<and> os_plan (ord_spec ord) = pid" if "ord \<in> set orders" for ord
    using that assms(1) current_order_at [of st ord] by (simp add: live_inv_def gomap_wf_def)
  then show ?thesis by (auto simp: legs_ok_def leg_ok_def dest: map_of_by_leg)
qed

lemma round_moves:
  assumes "env_ok sha env" "round_step sha port env at plan w = (x, w')"
  shows "moves sha (submitted_leg plan) w w'"
proof (rule moves_if)
  assume sane: "sane sha w"
  from assms(2) show "moves sha (submitted_leg plan) w w'"
    unfolding round_step_def
  proof (cases rule: bind_opE)
    case (error e)
    with query_step(2) [OF error(1)] show ?thesis by (simp add: moves_tick [OF assms(1)])
  next
    case (more orders w1)
    note q = query_step [OF more(1)]
    have t: "moves sha (submitted_leg plan) w w1" unfolding q(2) by (rule moves_tick [OF assms(1)])
    note s1 = movesD(1) [OF t sane]
    have legs: "legs_ok (op_id plan) (w_store w1) (fst (by_leg orders, False))"
      using by_leg_ok [of sha "w_store w1" _ "op_id plan" orders] s1 q by (simp add: sane_def)
    from more(2) obtain y w2 where "legs_loop sha port env at (op_legs plan) (by_leg orders, False) w1 = (y, w2)" "w' = w2"
      by (auto elim!: bind_opE simp: ret_def split: prod.splits)
    with legs_loop_moves [OF assms(1) s1 legs subset_refl] t show ?thesis by (blast intro: moves.trans)
  qed
qed

lemma rounds_moves:
  "env_ok sha env \<Longrightarrow> rounds n sha port env at plan w = Some (x, w') \<Longrightarrow> moves sha (submitted_leg plan) w w'"
proof (induction n arbitrary: w)
  case (Suc n)
  obtain y w1 where r: "round_step sha port env at plan w = (y, w1)" by fastforce
  note m = round_moves [OF Suc.prems(1) r]
  show ?case
  proof (cases "y = Inr True")
    case True
    with Suc r have "moves sha (submitted_leg plan) w1 w'" by simp
    with m show ?thesis by (rule moves.trans)
  next
    case False
    with Suc.prems(2) r have "w' = w1" by (auto split: sum.splits if_splits)
    with m show ?thesis by simp
  qed
qed simp

lemma run_plan_moves:
  assumes "env_ok sha env" "run_plan fuel sha port env at plan receipt w = Some (x, w')"
  shows "moves sha (submitted_leg plan) w w'"
proof -
  obtain y w1 where d: "drain_tolerant sha port env at w = (y, w1)" by fastforce
  have m1: "moves sha (submitted_leg plan) w w1" by (rule keepsD [OF keeps_drain(2) [OF assms(1)] d])
  show ?thesis
  proof (cases y)
    case (Inl e)
    with d assms(2) m1 show ?thesis by (simp add: run_plan_def)
  next
    case (Inr u)
    with d assms(2) obtain z w2 where r: "rounds fuel sha port env at plan w1 = Some (z, w2)"
      by (auto simp: run_plan_def split: option.splits)
    have m2: "moves sha (submitted_leg plan) w1 w2" by (rule rounds_moves [OF assms(1) r])
    have "w' = w2 \<or> w' = tick env w2"
      using assms(2) d Inr r by (cases z) (auto simp: run_plan_def Let_def dest: query_step(2) split: prod.splits)
    then have "moves sha (submitted_leg plan) w2 w'" using moves_tick [OF assms(1)] by (auto intro: moves.refl)
    with m1 m2 show ?thesis by (blast intro: moves.trans)
  qed
qed

lemma reserved_run_moves:
  assumes "env_ok sha env" "reserved_run fuel sha port env at plan receipt w = Some (x, w')"
  shows "moves sha (submitted_leg plan) w w'"
proof -
  obtain c out where c: "reservePlan (op_id plan) (digest_string (op_id plan) @ ''|'' @ rfc3339_nano at) (w_coord w) = (c, out)"
    by fastforce
  consider d where "w' = w\<lparr>w_coord := d\<rparr>"
    | w2 d where "run_plan fuel sha port env at plan receipt (w\<lparr>w_coord := c\<rparr>) = Some (x, w2)" "w' = w2\<lparr>w_coord := d\<rparr>"
    using assms(2) c
    by (cases "xe_select env"; cases "out = NoOutcome") (auto simp: reserved_run_def Let_def split: if_splits)
  then show ?thesis
  proof cases
    case 1
    then show ?thesis by (simp add: moves.coord)
  next
    case 2
    from run_plan_moves [OF assms(1) 2(1)] have "moves sha (submitted_leg plan) w w2" by (rule moves.trans [OF moves.coord])
    then show ?thesis unfolding 2(2) by (rule moves.trans [OF _ moves.coord])
  qed
qed

lemma plan_ready_Inr:
  assumes "plan_ready env pid at w = (Inr (plan, orders), w')"
  obtains ctx where "OMS_Plan ctx pid (w_store (tick env w)) = Inr plan"
proof -
  from assms obtain p w1 where "query env (\<lambda>ctx. OMS_Plan ctx pid) w = (Inr p, w1)" "p = plan"
    unfolding plan_ready_def by (auto elim!: bind_opE simp: ret_def fail_def split: if_splits)
  then show thesis using that query_step(1) by metis
qed

text \<open>Every submission of a call is for a leg of the plan that was asked for.\<close>

lemma ExecutePlan_moves:
  assumes "env_ok sha env" "ExecutePlan fuel sha port env pid at w = Some (x, w')"
  shows "moves sha (\<lambda>e. \<exists>plan ctx st. OMS_Plan ctx pid st = Inr plan \<and> st = w_store (tick env w) \<and> submitted_leg plan e) w w'"
    (is "moves sha ?Q w w'")
proof -
  obtain y w1 where r: "plan_ready env pid at w = (y, w1)" by fastforce
  have m1: "moves sha ?Q w w1" by (rule keepsD [OF keeps_plan_ready [OF assms(1)] r])
  show ?thesis
  proof (cases "w' = w \<or> w' = w1")
    case True
    with m1 show ?thesis by (auto intro: moves.refl)
  next
    case False
    with assms(2) r obtain plan orders where "y = Inr (plan, orders)"
      and run: "reserved_run fuel sha port env at plan \<lparr>pl_plan = pid, pl_outcome = NoOutcome, pl_orders = map ord_id orders\<rparr> w1 = Some (x, w')"
      by (cases y) (auto simp: ExecutePlan_def Let_def split: if_splits prod.splits)
    with r obtain ctx where "OMS_Plan ctx pid (w_store (tick env w)) = Inr plan" by (auto elim: plan_ready_Inr)
    then have "moves sha ?Q w1 w'" by (intro moves_mono [OF reserved_run_moves [OF assms(1) run]]) blast
    with m1 show ?thesis by (rule moves.trans)
  qed
qed

end
