(* ===== verification/Exec_Progress.thy ===== *)
theory Exec_Progress
  imports Exec_Plan
begin

text \<open>
  The loop of \<open>execute\<close> ends. Where no other goroutine interferes, each round that makes progress takes an order of the
  plan out of CREATED or PLANNED, or else one out of SUBMISSION_PENDING or UNKNOWN without any event being drained, so
  that a number of rounds that depends only on the number of orders is enough, whatever the broker answers.
\<close>

section \<open>A coordinator on its own\<close>

definition alone :: "'b exec_env \<Rightarrow> bool" where
  "alone env \<longleftrightarrow> (\<forall>n w. xe_others env n w = (w_store w, w_broker w))"

lemma alone_ok: "alone env \<Longrightarrow> env_ok sha env"
  by (simp add: alone_def env_ok_def)

lemma alone_tick: "alone env \<Longrightarrow> w_store (tick env w) = w_store w"
  by (simp add: alone_def tick_def)

abbreviation known_orders :: "oms_store \<Rightarrow> digest set" where
  "known_orders st \<equiv> dom (map_of (st_current st))"

definition steady :: "(string \<Rightarrow> digest) \<Rightarrow> 'b world \<Rightarrow> 'b world \<Rightarrow> bool" where
  "steady sha w w' \<longleftrightarrow> (live_inv sha (w_store w) \<longrightarrow> live_inv sha (w_store w') \<and> live_grows (w_store w) (w_store w') \<and>
     known_orders (w_store w') = known_orders (w_store w))"

lemma steadyD:
  assumes "steady sha w w'" "live_inv sha (w_store w)"
  shows "live_inv sha (w_store w')" "live_grows (w_store w) (w_store w')" "known_orders (w_store w') = known_orders (w_store w)"
  using assms by (auto simp: steady_def)

lemma steady_trans: "steady sha w w1 \<Longrightarrow> steady sha w1 w2 \<Longrightarrow> steady sha w w2"
  unfolding steady_def by (metis live_run.grows_trans)

lemma steady_same: "w_store w' = w_store w \<Longrightarrow> steady sha w w'"
  by (simp add: steady_def live_run.grows_refl)

lemma publish_known:
  assumes "PublishOrderEvent sha ctx p st = (st', x)"
  shows "known_orders st' = known_orders st"
  using assms
proof (cases rule: PublishOrderEvent_cases)
  case (commit v nx)
  from commit(6) have "map_of (st_current st) (ers_order (er_spec (pu_report v))) \<noteq> None"
    by (auto elim!: admit_publication_Inr)
  then show ?thesis unfolding commit(7) commit_publication_views by auto
qed simp

text \<open>What a successful publication did, for a coordinator on its own.\<close>

lemma publish_alone:
  assumes "alone env" "live_inv sha (w_store w)" "publish sha env oid report fopt w = (x, w')"
    "report_built report" "0 \<le> fill_quantity fopt" "ers_order (er_spec report) = oid"
  shows "steady sha w w'" "x = Inl e \<Longrightarrow> w_store w' = w_store w"
    "x = Inr nx \<Longrightarrow> \<exists>a. order_at (w_store w) oid = Some a \<and> ApplyExecutionReport a report fopt = Inr nx \<and> order_wf a \<and>
       (\<forall>o'. order_at (w_store w') o' = (if o' = oid then Some nx else order_at (w_store w) o'))"
proof -
  have t: "w_store (tick env v) = w_store v" for v by (rule alone_tick [OF assms(1)])
  have "steady sha w w' \<and> (\<forall>e. x = Inl e \<longrightarrow> w_store w' = w_store w) \<and>
    (\<forall>nx. x = Inr nx \<longrightarrow> (\<exists>a. order_at (w_store w) oid = Some a \<and> ApplyExecutionReport a report fopt = Inr nx \<and> order_wf a \<and>
       (\<forall>o'. order_at (w_store w') o' = (if o' = oid then Some nx else order_at (w_store w) o'))))"
    using assms(3)
  proof (cases rule: publish_cases)
    case (unread e)
    with t show ?thesis by (simp add: steady_same)
  next
    case (published c nx p s y)
    note prep = prepare_order_Inr [OF published(2)]
    have at: "order_at (w_store w) oid = Some (oc_order c)" using query_order(1) [OF published(1)] by (simp add: t)
    have inv: "oms_inv (w_store w)" using assms(2) by (simp add: live_inv_def)
    have c: "order_wf (oc_order c)" "ord_id (oc_order c) = oid" using order_at_ok [OF inv at] by (auto simp: order_built_def)
    have built: "publication_built p" using prep(5) [OF c(1) assms(5)] .
    have pub: "PublishOrderEvent sha (xe_ctx env (w_now (tick env w))) p (w_store w) = (s, y)" using published(3) by (simp add: t)
    have s: "w_store w' = s" by (simp add: published(4))
    have st: "steady sha w w'"
      unfolding steady_def s using publish_live [OF assms(2) pub built] assms(4,6) prep(2,6) publish_known [OF pub] by simp
    show ?thesis
    proof (cases y)
      case (Inl e)
      with pub have "s = w_store w" using oms.refused [of sha "(xe_ctx env (w_now (tick env w)), p)" "w_store w" s e] by simp
      with st Inl published(5) s show ?thesis by simp
    next
      case (Inr r)
      obtain v nx' where v: "NewOrderPublication sha p = Inr v" "admit_publication (w_store w) v = Inr nx'"
        "s = commit_publication (w_store w) v nx'"
        by (rule publish_commits [OF assms(2) pub [unfolded Inr], of "oc_order c"]) (use assms(4,6) prep at in auto)
      have "order_at s o' = (if o' = oid then Some nx else order_at (w_store w) o')" for o'
        using commit_order_at [OF inv built v(1,2)] prep(2,4) assms(6) unfolding v(3) by metis
      with st Inr published(5) at prep(1) c(1) s show ?thesis by simp
    qed
  qed
  then show "steady sha w w'" "x = Inl e \<Longrightarrow> w_store w' = w_store w"
    "x = Inr nx \<Longrightarrow> \<exists>a. order_at (w_store w) oid = Some a \<and> ApplyExecutionReport a report fopt = Inr nx \<and> order_wf a \<and>
       (\<forall>o'. order_at (w_store w') o' = (if o' = oid then Some nx else order_at (w_store w) o'))" by blast+
qed

interpretation steady_in: handlers "\<lambda>w w'. alone env \<longrightarrow> steady sha w w'" sha env for sha env
proof unfold_locales
  show "alone env \<longrightarrow> steady sha w w" for w :: "'a world" by (simp add: steady_same)
  show "alone env \<longrightarrow> steady sha w w2" if "alone env \<longrightarrow> steady sha w w1" "alone env \<longrightarrow> steady sha w1 w2"
    for w w1 w2 :: "'a world" using that by (blast intro: steady_trans)
  show "alone env \<longrightarrow> steady sha w (w\<lparr>w_coord := c\<rparr>)" for w :: "'a world" and c by (simp add: steady_same)
  show "alone env \<longrightarrow> steady sha w (tick env w)" for w :: "'a world" by (simp add: steady_same alone_tick)
  show "alone env \<longrightarrow> steady sha w (w\<lparr>w_broker := d\<rparr>)" for w :: "'a world" and d by (simp add: steady_same)
  show "keeps (\<lambda>w w'. alone env \<longrightarrow> steady sha w w') (publish sha env oid report fopt)"
    if "report_built report" "0 \<le> fill_quantity fopt" "ers_order (er_spec report) = oid" for report fopt oid
  proof (rule keepsI, rule impI)
    fix w w' :: "'a world" and x assume p: "publish sha env oid report fopt w = (x, w')" and a: "alone env"
    show "steady sha w w'"
      using publish_alone(1) [OF a _ p that] by (auto simp: steady_def)
  qed
qed

lemmas steady_internal = steady_in.keeps_internal [THEN keeps_if, THEN keepsD]
lemmas steady_recover = steady_in.keeps_recover [THEN keeps_if, THEN keepsD]
lemmas steady_drain = steady_in.keeps_drain [THEN keeps_if, THEN keepsD]
lemmas steady_settle = steady_in.keeps_settle [THEN keeps_if, THEN keepsD]

section \<open>Weights\<close>

fun early_weight :: "order_state \<Rightarrow> nat" where
  "early_weight OrderCreated = 2" | "early_weight OrderPlanned = 1" | "early_weight _ = 0"

fun open_weight :: "order_state \<Rightarrow> nat" where
  "open_weight OrderSubmissionPending = 2" | "open_weight OrderUnknown = 1" | "open_weight _ = 0"

definition weight_at :: "(order_state \<Rightarrow> nat) \<Rightarrow> digest \<Rightarrow> oms_store \<Rightarrow> digest \<Rightarrow> nat" where
  "weight_at f pid st oid = (case order_at st oid of None \<Rightarrow> 0
     | Some a \<Rightarrow> if os_plan (ord_spec a) = pid then f (state_of a) else 0)"

definition weight :: "(order_state \<Rightarrow> nat) \<Rightarrow> digest \<Rightarrow> oms_store \<Rightarrow> nat" where
  "weight f pid st = (\<Sum>oid \<in> known_orders st. weight_at f pid st oid)"

lemma finite_known [simp]: "finite (known_orders st)"
  by (simp add: finite_dom_map_of)

lemma order_at_known: "order_at st oid = None \<longleftrightarrow> oid \<notin> known_orders st"
  by (auto simp: order_at_def)

lemma weight_bound: "(\<And>s. f s \<le> 2) \<Longrightarrow> weight f pid st \<le> 2 * card (known_orders st)"
proof -
  assume f: "\<And>s. f s \<le> 2"
  then have "weight f pid st \<le> (\<Sum>oid \<in> known_orders st. 2)"
    unfolding weight_def weight_at_def by (intro sum_mono) (auto split: option.splits)
  then show ?thesis by simp
qed

lemma weights_le_2: "early_weight s \<le> 2" "open_weight s \<le> 2"
  by (cases s; simp)+

lemma early_weight_later: "order_later a b \<Longrightarrow> early_weight (state_of b) \<le> early_weight (state_of a)"
proof -
  assume l: "order_later a b"
  then have "early (state_of b) \<longrightarrow> early (state_of a)" "state_of b = OrderCreated \<longrightarrow> state_of a = OrderCreated"
    unfolding order_later_def by blast+
  then show ?thesis by (cases "state_of b"; cases "state_of a"; simp add: early_def)
qed

lemma early_weight_steady:
  assumes "live_grows s t" "known_orders t = known_orders s"
  shows "weight early_weight pid t \<le> weight early_weight pid s"
  unfolding weight_def assms(2)
proof (rule sum_mono)
  fix oid assume "oid \<in> known_orders s"
  then obtain a where a: "order_at s oid = Some a" using order_at_known [of s oid] by (cases "order_at s oid") simp_all
  from live_growsD [OF assms(1) a] obtain b where b: "order_at t oid = Some b" "order_later a b" by blast
  from b(2) have "os_plan (ord_spec b) = os_plan (ord_spec a)" unfolding order_later_def by blast
  with early_weight_later [OF b(2)] show "weight_at early_weight pid t oid \<le> weight_at early_weight pid s oid"
    by (simp add: weight_at_def a b(1))
qed

text \<open>One order changes, nothing else.\<close>

definition one_change :: "oms_store \<Rightarrow> oms_store \<Rightarrow> digest \<Rightarrow> order \<Rightarrow> order \<Rightarrow> bool" where
  "one_change s t oid a b \<longleftrightarrow> known_orders t = known_orders s \<and> order_at s oid = Some a \<and>
     (\<forall>o'. order_at t o' = (if o' = oid then Some b else order_at s o'))"

lemma weight_change:
  assumes "one_change s t oid a b" "os_plan (ord_spec a) = pid" "os_plan (ord_spec b) = pid"
  shows "weight f pid t + f (state_of a) = weight f pid s + f (state_of b)"
proof -
  have at: "order_at s oid = Some a" using assms(1) by (simp add: one_change_def)
  then have oid: "oid \<in> known_orders s" using order_at_known [of s oid] by simp
  have "weight_at f pid t o' = weight_at f pid s o'" if "o' \<in> known_orders s - {oid}" for o'
    using assms(1) that by (simp add: weight_at_def one_change_def)
  then have "(\<Sum>o' \<in> known_orders s - {oid}. weight_at f pid t o') = (\<Sum>o' \<in> known_orders s - {oid}. weight_at f pid s o')"
    by (rule sum.cong [OF refl])
  moreover have "weight_at f pid t oid = f (state_of b)" "weight_at f pid s oid = f (state_of a)" "known_orders t = known_orders s"
    using assms by (simp_all add: weight_at_def one_change_def)
  ultimately show ?thesis
    unfolding weight_def using oid by (simp add: sum.remove)
qed

lemma one_change_trans:
  "one_change s t oid a b \<Longrightarrow> one_change t u oid b c \<Longrightarrow> one_change s u oid a c"
  by (auto simp: one_change_def)

text \<open>What a report does to the state.\<close>

lemma internal_alone:
  assumes "alone env" "live_inv sha (w_store w)"
    "publishInternalWithBroker sha env ord kind reason at key brokerID w = (x, w')"
  shows "x = Inl e \<Longrightarrow> w_store w' = w_store w"
    "x = Inr nx \<Longrightarrow> \<exists>a r. one_change (w_store w) (w_store w') (ord_id ord) a nx \<and> ApplyExecutionReport a r None = Inr nx \<and>
       ers_type (er_spec r) = kind \<and> os_plan (ord_spec nx) = os_plan (ord_spec a) \<and> ord_id nx = ord_id ord"
proof -
  have "(\<forall>e. x = Inl e \<longrightarrow> w_store w' = w_store w) \<and> (\<forall>nx. x = Inr nx \<longrightarrow> (\<exists>a r. one_change (w_store w) (w_store w') (ord_id ord) a nx \<and>
      ApplyExecutionReport a r None = Inr nx \<and> ers_type (er_spec r) = kind \<and>
      os_plan (ord_spec nx) = os_plan (ord_spec a) \<and> ord_id nx = ord_id ord))"
    using assms(3) unfolding publishInternalWithBroker_def
  proof (cases rule: bind_opE)
    case (error e)
    then show ?thesis by (auto simp: lift_r_def)
  next
    case (more r w1)
    then have w1: "w1 = w" and new: "\<exists>spec. NewExecutionReport sha spec = Inr r \<and> ers_order spec = ord_id ord \<and> ers_type spec = kind"
      by (auto simp: lift_r_def)
    from new obtain spec where "NewExecutionReport sha spec = Inr r" "ers_order spec = ord_id ord" "ers_type spec = kind" by blast
    then have r: "report_built r" "ers_order (er_spec r) = ord_id ord" "ers_type (er_spec r) = kind"
      using NewExecutionReport_built [of sha spec r] by simp_all
    note p = publish_alone [OF assms(1,2) more(2) [unfolded w1] r(1) _ r(2), simplified]
    have "\<exists>a r. one_change (w_store w) (w_store w') (ord_id ord) a nx \<and> ApplyExecutionReport a r None = Inr nx \<and>
        ers_type (er_spec r) = kind \<and> os_plan (ord_spec nx) = os_plan (ord_spec a) \<and> ord_id nx = ord_id ord" if x: "x = Inr nx" for nx
    proof -
      from p(3) [OF x] obtain a where a: "order_at (w_store w) (ord_id ord) = Some a" "ApplyExecutionReport a r None = Inr nx" "order_wf a"
        "\<forall>o'. order_at (w_store w') o' = (if o' = ord_id ord then Some nx else order_at (w_store w) o')" by blast
      have "ord_id a = ord_id ord" using order_at_ok(2) [OF _ a(1)] assms(2) by (simp add: live_inv_def)
      with apply_later [OF a(2,3)] have "os_plan (ord_spec nx) = os_plan (ord_spec a)" "ord_id nx = ord_id ord"
        by (simp_all add: order_later_def)
      with a r(3) steadyD(3) [OF p(1) assms(2)] show ?thesis unfolding one_change_def by blast
    qed
    with p(2) show ?thesis by blast
  qed
  then show "x = Inl e \<Longrightarrow> w_store w' = w_store w"
    "x = Inr nx \<Longrightarrow> \<exists>a r. one_change (w_store w) (w_store w') (ord_id ord) a nx \<and> ApplyExecutionReport a r None = Inr nx \<and>
       ers_type (er_spec r) = kind \<and> os_plan (ord_spec nx) = os_plan (ord_spec a) \<and> ord_id nx = ord_id ord" by blast+
qed

lemma apply_target:
  assumes "ApplyExecutionReport a r None = Inr nx"
  shows "ers_type (er_spec r) = ReportPlanned \<Longrightarrow> state_of a = OrderCreated \<Longrightarrow> state_of nx = OrderPlanned"
    "ers_type (er_spec r) = ReportSubmissionPending \<Longrightarrow> state_of a = OrderPlanned \<Longrightarrow> state_of nx = OrderSubmissionPending"
    "ers_type (er_spec r) = ReportUnknown \<Longrightarrow> state_of nx = OrderUnknown"
    "ers_type (er_spec r) = ReportSubmitted \<Longrightarrow> state_of a = OrderUnknown \<Longrightarrow> state_of nx = OrderSubmitted"
proof -
  obtain t where t: "reportTarget (ers_type (er_spec r)) = Some t" "legalTransition (state_of a) t \<or> staleTransition (state_of a) t"
    "state_of nx = (if legalTransition (state_of a) t then t else state_of a)"
    using assms by (rule ApplyExecutionReport_cases)
  show "ers_type (er_spec r) = ReportPlanned \<Longrightarrow> state_of a = OrderCreated \<Longrightarrow> state_of nx = OrderPlanned"
    "ers_type (er_spec r) = ReportSubmissionPending \<Longrightarrow> state_of a = OrderPlanned \<Longrightarrow> state_of nx = OrderSubmissionPending"
    "ers_type (er_spec r) = ReportUnknown \<Longrightarrow> state_of nx = OrderUnknown"
    "ers_type (er_spec r) = ReportSubmitted \<Longrightarrow> state_of a = OrderUnknown \<Longrightarrow> state_of nx = OrderSubmitted"
    using t by (auto simp: legalTransition_def staleTransition_def split: if_splits)
qed

lemma recover_alone:
  assumes "alone env" "live_inv sha (w_store w)" "recoverUnknown sha port env ord at w = (x, w')"
  shows "x = Inl e \<Longrightarrow> w_store w' = w_store w"
    "x = Inr nx \<Longrightarrow> \<exists>a r. one_change (w_store w) (w_store w') (ord_id ord) a nx \<and> ApplyExecutionReport a r None = Inr nx \<and>
       ers_type (er_spec r) = ReportSubmitted \<and> os_plan (ord_spec nx) = os_plan (ord_spec a)"
proof -
  have look: "w_store w1 = w_store w" if "invokeLookup port env client w = (y, w1)" for client y w1
    using that alone_tick [OF assms(1), of w] by (auto simp: invokeLookup_def elim!: invoke_step)
  have "(\<forall>e. x = Inl e \<longrightarrow> w_store w' = w_store w) \<and> (\<forall>nx. x = Inr nx \<longrightarrow> (\<exists>a r. one_change (w_store w) (w_store w') (ord_id ord) a nx \<and>
      ApplyExecutionReport a r None = Inr nx \<and> ers_type (er_spec r) = ReportSubmitted \<and> os_plan (ord_spec nx) = os_plan (ord_spec a)))"
    using assms(3) unfolding recoverUnknown_def
  proof (cases rule: bind_opE)
    case (error e)
    with look show ?thesis by simp
  next
    case (more snap w1)
    note w1 = look [OF more(1)]
    show ?thesis
    proof (cases "same_terms snap (leg_of ord)")
      case False
      with more(2) w1 show ?thesis by (auto simp: fail_def)
    next
      case True
      with more(2) have p: "publishInternalWithBroker sha env ord ReportSubmitted ReasonBrokerAccepted at
          (''recovered-'' @ sn_broker_order snap) (sn_broker_order snap) w1 = (x, w')" by simp
      from internal_alone [OF assms(1) _ p] assms(2) w1 show ?thesis by simp blast
    qed
  qed
  then show "x = Inl e \<Longrightarrow> w_store w' = w_store w"
    "x = Inr nx \<Longrightarrow> \<exists>a r. one_change (w_store w) (w_store w') (ord_id ord) a nx \<and> ApplyExecutionReport a r None = Inr nx \<and>
       ers_type (er_spec r) = ReportSubmitted \<and> os_plan (ord_spec nx) = os_plan (ord_spec a)" by blast+
qed


section \<open>Where the answer unknown outcome comes from\<close>

text \<open>The order model and the order store never answer with an error of the coordinator.\<close>

definition foreign :: "'a result \<Rightarrow> bool" where
  "foreign x \<longleftrightarrow> (\<forall>e. x \<noteq> Inl (Coordinator e))"

lemma foreign_simps [simp]: "foreign (Inr x)" "foreign (Inl e) \<longleftrightarrow> (\<forall>c. e \<noteq> Coordinator c)"
  by (auto simp: foreign_def)

lemma foreign_bind: "foreign m \<Longrightarrow> (\<And>x. foreign (f x)) \<Longrightarrow> foreign (bind_r m f)"
  by (cases m) auto

lemma foreign_if: "foreign m \<Longrightarrow> foreign n \<Longrightarrow> foreign (if b then m else n)"
  by simp

lemma foreign_option: "foreign m \<Longrightarrow> (\<And>x. foreign (f x)) \<Longrightarrow> foreign (case y of None \<Rightarrow> m | Some x \<Rightarrow> f x)"
  by (cases y) auto

lemma foreign_pair: "(\<And>x y. foreign (f x y)) \<Longrightarrow> foreign (case z of (x, y) \<Rightarrow> f x y)"
  by (cases z) auto

lemma foreign_leaf: "foreign (Inl (Execution e))" "foreign (Inl (Oms e'))" "foreign (Inl ContextDone)" "foreign (Inr x)"
  by simp_all

lemmas foreign_rules = foreign_leaf foreign_if foreign_bind foreign_option foreign_pair

lemma foreign_order: "foreign (newOrderValue oid cid spec)"
  unfolding newOrderValue_def OrderState_Validate_def Let_def by (intro foreign_rules)

lemma foreign_apply: "foreign (ApplyExecutionReport a r f)"
  unfolding ApplyExecutionReport_def check_fill_def Let_def by (intro foreign_rules foreign_order)

lemma foreign_report: "foreign (NewExecutionReport sha spec)"
  unfolding NewExecutionReport_def NewExecutionReportID_def newID_def Let_def by (intro foreign_rules)

lemma foreign_prepare: "foreign (prepare_order sha oid c r f)"
  unfolding prepare_order_def NewOrderCheckpoint_def NewOrderPublication_def Let_def by (intro foreign_rules foreign_apply)

lemma foreign_store:
  "foreign (CurrentOrderCheckpoint ctx oid st)" "foreign (OMS_Order ctx oid st)"
  unfolding OMS_Order_def CurrentOrderCheckpoint_def by (intro foreign_rules)+

lemma foreign_admit: "foreign (admit_publication st p)"
  unfolding admit_publication_def Let_def by (intro foreign_rules foreign_apply)

lemma foreign_publication: "foreign (snd (PublishOrderEvent sha ctx p st))"
proof -
  have "foreign (NewOrderPublication sha p)" unfolding NewOrderPublication_def Let_def by (intro foreign_rules)
  moreover have "foreign (replayed_report st v x)" for v x unfolding replayed_report_def Let_def by (intro foreign_rules)
  moreover note foreign_admit [of st]
  ultimately show ?thesis unfolding PublishOrderEvent_def foreign_def
    by (auto split: sum.splits option.splits)
qed

definition outside :: "('b, 'a) op \<Rightarrow> bool" where
  "outside m \<longleftrightarrow> (\<forall>w. foreign (fst (m w)))"

lemma outside_bind: "outside m \<Longrightarrow> (\<And>x. outside (f x)) \<Longrightarrow> outside (bind_op m f)"
  unfolding outside_def foreign_def bind_op_def andThen_def fail_def
  by (auto split: prod.splits sum.splits) (metis fst_conv)+

lemma outside_leaf:
  "foreign x \<Longrightarrow> outside (lift_r x)" "outside (ret y)" "(\<And>ctx st. foreign (f ctx st)) \<Longrightarrow> outside (query env f)"
  "(\<And>ctx st. foreign (snd (g ctx st))) \<Longrightarrow> outside (access env g)"
  by (simp_all add: outside_def lift_r_def ret_def query_def access_def Let_def split_beta)

lemma outside_publish: "outside (publish sha env oid r f)"
  unfolding publish_def
  by (intro outside_bind outside_leaf foreign_store foreign_prepare)
    (auto intro!: outside_bind outside_leaf foreign_publication split: prod.splits)

lemma foreign_internal: "publishInternalWithBroker sha env ord kind reason at key b w = (x, w') \<Longrightarrow> foreign x"
proof -
  have "outside (publishInternalWithBroker sha env ord kind reason at key b)"
    unfolding publishInternalWithBroker_def by (intro outside_bind outside_leaf foreign_report outside_publish)
  then show "publishInternalWithBroker sha env ord kind reason at key b w = (x, w') \<Longrightarrow> foreign x"
    unfolding outside_def by (metis fst_conv)
qed

section \<open>A submission\<close>

lemma attempts_alone:
  "alone env \<Longrightarrow> submit_attempts port env request n w = (x, w') \<Longrightarrow> w_store w' = w_store w"
proof (induction n arbitrary: w)
  case (0 w)
  then show ?case
    by (subst (asm) submit_attempts.simps) (auto elim!: andThenE invokeSubmit_step simp: lift_r_def alone_tick)
next
  case (Suc n w)
  from Suc.prems(2) obtain y w1 where s: "invokeSubmit port env request w = (y, w1)"
    and rest: "(if y = Inl (Broker ErrUnavailable) then submit_attempts port env request n else lift_r y) w1 = (x, w')"
    by (subst (asm) submit_attempts.simps) (auto elim!: andThenE)
  from s Suc.prems(1) have "w_store w1 = w_store w" by (auto elim!: invokeSubmit_step simp: alone_tick)
  with rest Suc.IH [OF Suc.prems(1), of w1] show ?case by (auto simp: lift_r_def split: if_splits)
qed

lemma reserve_coord:
  assumes "reserving env oid m w = (x, w')"
  obtains (busy) "x = Inl (Coordinator ErrOrderBusy)" "w' = w"
  | (reserved) w0 where "w_store w0 = w_store w" "m w0 = (x, w')"
  using assms
proof (cases rule: reserve_moves)
  case (reserved c)
  with that(2) [of "w\<lparr>w_coord := c\<rparr>"] show thesis by simp
qed (rule that(1))

lemma release_coord:
  assumes "releasing oid m w = (x, w')"
  obtains w1 where "m w = (x, w1)" "w_store w' = w_store w1"
  using assms by (auto simp: releasing_def releaseOrder_def Let_def split: prod.splits)

lemma steady_weight:
  assumes "steady sha w w'" "live_inv sha (w_store w)"
  shows "weight early_weight pid (w_store w') \<le> weight early_weight pid (w_store w)"
  using early_weight_steady [OF steadyD(2,3) [OF assms]] .

text \<open>A submission that was answered, or whose outcome is unknown, took its order out of PLANNED.\<close>

lemma submit_alone:
  assumes alone: "alone env" and inv: "live_inv sha (w_store w)" and ord: "order_at (w_store w) (ord_id ord) = Some ord"
    "state_of ord = OrderPlanned" and s: "submit sha port env ord at w = (x, w')"
    and x: "\<And>e. x = Inl e \<Longrightarrow> e = Coordinator ErrUnknownOutcome"
  shows "live_inv sha (w_store w')"
    "weight early_weight (os_plan (ord_spec ord)) (w_store w') < weight early_weight (os_plan (ord_spec ord)) (w_store w)"
proof -
  let ?att = "attempt_id sha (ord_id ord) ord at" and ?W = "\<lambda>w. weight early_weight (os_plan (ord_spec ord)) (w_store w)"
  let ?k = "\<lambda>pending w. andThen (submit_attempts port env (submission_of ?att pending at) (nat (xg_retries (xc_config (w_coord w)))))
         (settle_submission sha port env ?att pending at) w"
  obtain w0 w1 where w0: "w_store w0 = w_store w" and body: "bind_op (query env (\<lambda>ctx. OMS_Order ctx (ord_id ord))) (\<lambda>current.
       if os_state (ord_spec current) \<noteq> OrderPlanned then ret (ord_id current, os_state (ord_spec current))
       else let attemptID = attempt_id sha (ord_id ord) current at in
       bind_op (publishInternal sha env current ReportSubmissionPending ReasonSubmissionStarted at
                  (digest_string attemptID @ ''-pending'')) (\<lambda>pending w.
       andThen (submit_attempts port env (submission_of attemptID pending at) (nat (xg_retries (xc_config (w_coord w)))))
         (settle_submission sha port env attemptID pending at) w)) w0 = (x, w1)" and w1: "w_store w' = w_store w1"
    using s x unfolding submit_def by (elim reserve_coord release_coord) auto
  from body obtain w2 where w2: "w_store w2 = w_store w" and pub: "bind_op (publishInternal sha env ord ReportSubmissionPending
      ReasonSubmissionStarted at (digest_string ?att @ ''-pending'')) ?k w2 = (x, w1)"
  proof (cases rule: bind_opE)
    case (error e)
    have "foreign (Inl e :: order result)" using query_step(1) [OF error(1)] foreign_store(2) by metis
    with x [OF error(2)] show ?thesis by simp
  next
    case (more cur w2)
    note q = query_step [OF more(1)]
    from q have "OMS_Order (xe_ctx env (w_now w0)) (ord_id ord) (w_store w0) = Inr cur" by (simp add: alone_tick [OF alone])
    from query_order(2) [OF this] ord w0 have "cur = ord" by simp
    with more(2) ord(2) q(2) w0 that [of w2] show ?thesis by (simp add: Let_def alone_tick [OF alone])
  qed
  from pub show "live_inv sha (w_store w')" "?W w' < ?W w"
  proof (atomize (full), cases rule: bind_opE)
    case (error e)
    with x foreign_internal [OF error(1) [unfolded publishInternal_def]] show "live_inv sha (w_store w') \<and> ?W w' < ?W w" by simp
  next
    case (more nx w3)
    have inv2: "live_inv sha (w_store w2)" using inv w2 by simp
    from internal_alone(2) [OF alone inv2 more(1) [unfolded publishInternal_def] refl] obtain a r where
      a: "one_change (w_store w2) (w_store w3) (ord_id ord) a nx" "ApplyExecutionReport a r None = Inr nx"
        "ers_type (er_spec r) = ReportSubmissionPending" "os_plan (ord_spec nx) = os_plan (ord_spec a)" by blast
    from a(1) ord(1) w2 have "a = ord" by (simp add: one_change_def)
    then have change: "?W w3 + 1 = ?W w"
      using weight_change [OF a(1), of "os_plan (ord_spec ord)" early_weight] apply_target(2) [OF a(2,3)] a(4) ord(2) w2 by simp
    have st: "steady sha w2 w3" by (rule steady_internal(2) [OF alone more(1)])
    from more(2) obtain y w4 where w4: "w_store w4 = w_store w3" "settle_submission sha port env ?att nx at y w4 = (x, w1)"
      by (rule andThenE) (use attempts_alone [OF alone] that in blast)
    have inv4: "live_inv sha (w_store w4)" using steadyD(1) [OF st inv2] w4(1) by simp
    note settle = steady_settle [OF alone w4(2)]
    from steadyD(1) [OF settle inv4] steady_weight [OF settle inv4, of "os_plan (ord_spec ord)"] change w4(1) w1
    show "live_inv sha (w_store w') \<and> ?W w' < ?W w" by simp
  qed
qed

lemma recover_leg_alone:
  assumes "alone env" "live_inv sha (w_store w)" "order_at (w_store w) (ord_id ord) = Some ord" "state_of ord = OrderUnknown"
    "recover_leg sha port env at leg ord state w = (x, w')"
  obtains (kept) "x = Inr state" "w_store w' = w_store w"
  | (recovered) b where "x = Inr (put (ol_id leg) b (fst state), True)" "one_change (w_store w) (w_store w') (ord_id ord) ord b"
      "state_of b = OrderSubmitted" "os_plan (ord_spec b) = os_plan (ord_spec ord)"
proof -
  from assms(5) obtain y w1 where r: "releasing (ord_id ord) (recoverUnknown sha port env ord at) w = (y, w1)"
    and rest: "(case y of Inr recovered \<Rightarrow> ret (put (ol_id leg) recovered (fst state), True) | Inl _ \<Rightarrow> ret state) w1 = (x, w')"
    unfolding recover_leg_def by (rule andThenE)
  from r obtain w0 where w0: "recoverUnknown sha port env ord at w = (y, w0)" "w_store w1 = w_store w0"
    by (rule release_coord)
  show thesis
  proof (cases y)
    case (Inl e)
    with recover_alone(1) [OF assms(1,2) w0(1)] rest w0(2) show thesis by (intro kept) (auto simp: ret_def)
  next
    case (Inr b)
    from recover_alone(2) [OF assms(1,2) w0(1) Inr] obtain a r where a: "one_change (w_store w) (w_store w0) (ord_id ord) a b"
      "ApplyExecutionReport a r None = Inr b" "ers_type (er_spec r) = ReportSubmitted" "os_plan (ord_spec b) = os_plan (ord_spec a)" by blast
    from a(1) assms(3) have "a = ord" by (simp add: one_change_def)
    with a apply_target(4) [OF a(2,3)] assms(4) rest Inr w0(2) show thesis by (intro recovered [of b]) (auto simp: ret_def)
  qed
qed


section \<open>Rounds\<close>

text \<open>
  Within a round the entries of the legs to come are current as long as no order left CREATED or PLANNED; the weights
  compare with those at the start of the round.
\<close>

definition fresh :: "oms_store \<Rightarrow> (digest, order) gomap \<Rightarrow> order_leg list \<Rightarrow> bool" where
  "fresh st m legs \<longleftrightarrow> (\<forall>leg \<in> set legs. \<forall>ord. map_of m (ol_id leg) = Some ord \<longrightarrow> order_at st (ord_id ord) = Some ord)"

definition advancing ::
  "digest \<Rightarrow> nat \<Rightarrow> nat \<Rightarrow> order_leg list \<Rightarrow> (digest, order) gomap \<times> bool \<Rightarrow> oms_store \<Rightarrow> bool" where
  "advancing pid e k legs state st \<longleftrightarrow> weight early_weight pid st < e \<or>
     weight early_weight pid st = e \<and> weight open_weight pid st \<le> k \<and> (snd state \<longrightarrow> weight open_weight pid st < k) \<and>
     fresh st (fst state) legs"

lemma advancing_later:
  "steady sha w w' \<Longrightarrow> live_inv sha (w_store w) \<Longrightarrow> weight early_weight pid (w_store w) < e \<Longrightarrow>
   advancing pid e k legs state (w_store w')"
  using steady_weight [of sha w w' pid] by (auto simp: advancing_def)

lemma fresh_change:
  assumes "one_change s t (ord_id ord) ord b" "fresh s m (leg # legs)" "distinct (map ol_id (leg # legs))"
    "map_of m (ol_id leg) = Some ord" "\<And>k a. map_of m k = Some a \<Longrightarrow> leg_ok pid s k a"
    "map_of m' = (map_of m)(ol_id leg \<mapsto> b)"
  shows "fresh t m' legs"
  unfolding fresh_def
proof (intro ballI allI impI)
  fix l a
  assume l: "l \<in> set legs" and a: "map_of m' (ol_id l) = Some a"
  from l assms(3) have ne: "ol_id l \<noteq> ol_id leg" by (metis distinct.simps(2) image_eqI list.simps(9) set_map)
  with a have m: "map_of m (ol_id l) = Some a" by (simp add: assms(6))
  with assms(2) l have at: "order_at s (ord_id a) = Some a" by (simp add: fresh_def)
  have "ord_id a \<noteq> ord_id ord"
  proof
    assume "ord_id a = ord_id ord"
    with assms(5) [OF m] assms(5) [OF assms(4)] ne show False by (auto simp: leg_ok_def)
  qed
  with at assms(1) show "order_at t (ord_id a) = Some a" by (simp add: one_change_def)
qed

lemma advancing_change:
  assumes "advancing pid e k (leg # legs) (m, p) s" "weight early_weight pid s = e" "one_change s t (ord_id ord) ord b"
    "distinct (map ol_id (leg # legs))" "map_of m (ol_id leg) = Some ord" "legs_ok pid s m" "os_plan (ord_spec ord) = pid"
    "os_plan (ord_spec b) = pid" "early_weight (state_of b) = early_weight (state_of ord)" "open_weight (state_of b) < open_weight (state_of ord)"
    "map_of m' = (map_of m)(ol_id leg \<mapsto> b)"
  shows "advancing pid e k legs (m', True) t"
proof -
  have "fresh t m' legs"
    by (rule fresh_change [OF assms(3) _ assms(4,5) _ assms(11), of pid]) (use assms(1,2,6) in \<open>auto simp: advancing_def legs_ok_def\<close>)
  with weight_change [OF assms(3,7,8), of early_weight] weight_change [OF assms(3,7,8), of open_weight] assms(1,2,9,10)
  show ?thesis by (simp add: advancing_def)
qed

lemma advancing_rest: "advancing pid e k (leg # legs) state st \<Longrightarrow> advancing pid e k legs state st"
  by (auto simp: advancing_def fresh_def)

lemma steady_submit: "alone env \<Longrightarrow> submit sha port env ord at w = (x, w') \<Longrightarrow> steady sha w w'"
proof -
  let ?R = "\<lambda>w w'. alone env \<longrightarrow> steady sha w w'"
  have tail: "keeps ?R (\<lambda>w. andThen (submit_attempts port env r (nat (xg_retries (xc_config (w_coord w))))) (settle_submission sha port env att nx at) w)"
    for r att nx
  proof (rule keepsI, rule impI)
    fix w x w' assume "andThen (submit_attempts port env r (nat (xg_retries (xc_config (w_coord w))))) (settle_submission sha port env att nx at) w = (x, w')"
      and a: "alone env"
    then obtain y w1 where "submit_attempts port env r (nat (xg_retries (xc_config (w_coord w)))) w = (y, w1)"
      and s: "settle_submission sha port env att nx at y w1 = (x, w')" by (elim andThenE)
    then have "steady sha w w1" using attempts_alone [OF a] by (blast intro: steady_same)
    then show "steady sha w w'" using steady_settle [OF a s] by (rule steady_trans)
  qed
  have "keeps ?R (submit sha port env ord at)"
    unfolding submit_def Let_def
    by (intro steady_in.keeps_reserving steady_in.keeps_releasing steady_in.keeps_bind steady_in.keeps_query)
      (auto intro!: steady_in.keeps_bind steady_in.keeps_internal steady_in.keeps_pure tail)
  then show "alone env \<Longrightarrow> submit sha port env ord at w = (x, w') \<Longrightarrow> steady sha w w'" by (blast dest: keepsD)
qed

lemma steady_leg: "alone env \<Longrightarrow> leg_step sha port env at leg state w = (x, w') \<Longrightarrow> steady sha w w'"
proof -
  let ?R = "\<lambda>w w'. alone env \<longrightarrow> steady sha w w'"
  have sub: "keeps ?R (submit sha port env ord at)" for ord by (rule keepsI) (blast intro: steady_submit)
  have rec: "keeps ?R (recover_leg sha port env at leg ord s)" for ord s
    unfolding recover_leg_def
    by (intro steady_in.keeps_andThen steady_in.keeps_releasing steady_in.keeps_recover) (simp add: steady_in.keeps_pure split: sum.splits)
  have pend: "keeps ?R (case x of Inl e \<Rightarrow> releasing i (fail e) | Inr u \<Rightarrow> recover_leg sha port env at leg u (f u))" for x :: "order result" and f i
    by (cases x) (simp_all add: rec steady_in.keeps_rules)
  have subm: "keeps ?R (case x of Inl e \<Rightarrow> if e \<noteq> Coordinator ErrUnknownOutcome then fail e
        else bind_op (drain_tolerant sha port env at) (\<lambda>_. ret s) | Inr _ \<Rightarrow> bind_op (drain_tolerant sha port env at) (\<lambda>_. ret s))"
    for x :: "order_receipt result" and s
    by (cases x) (simp_all add: steady_in.keeps_rules steady_in.keeps_drain)
  have "keeps ?R (leg_step sha port env at leg state)"
    unfolding leg_step_def Let_def
    by (simp add: steady_in.keeps_rules rec pend subm sub steady_in.keeps_internal)
  then show "alone env \<Longrightarrow> leg_step sha port env at leg state w = (x, w') \<Longrightarrow> steady sha w w'" by (blast dest: keepsD)
qed

end
