(* ===== verification/Exec_Rounds.thy ===== *)
theory Exec_Rounds
  imports Exec_Progress
begin

text \<open>
  The bound on the rounds of \<open>execute\<close>: a leg that reports progress lowers the weights, a round that
  goes on lowers them lexicographically, and so the loop ends.
\<close>

lemma leg_pending:
  assumes "alone env" "live_inv sha (w_store w)" "map_of (fst state) (ol_id leg) = Some ord" "state_of ord = OrderSubmissionPending"
    "order_at (w_store w) (ord_id ord) = Some ord" "leg_step sha port env at leg state w = (Inr state', w')"
  obtains b where "snd state'" "map_of (fst state') = (map_of (fst state))(ol_id leg \<mapsto> b)" "one_change (w_store w) (w_store w') (ord_id ord) ord b"
    "state_of b = OrderUnknown \<or> state_of b = OrderSubmitted" "os_plan (ord_spec b) = os_plan (ord_spec ord)"
proof -
  have "get_or zero_order (fst state) (ol_id leg) = ord" using assms(3) by (simp add: get_or_def)
  with assms(4,6) have "reserving env (ord_id ord) (andThen (publishInternal sha env ord ReportUnknown ReasonSubmissionOutcomeUnknown at
      (''restart-unknown-'' @ dec_nat (revision_of ord))) (\<lambda>x. case x of
        Inl e \<Rightarrow> releasing (ord_id zero_order) (fail e)
      | Inr unknown \<Rightarrow> recover_leg sha port env at leg unknown (put (ol_id leg) unknown (fst state), True))) w = (Inr state', w')"
    by (simp add: leg_step_def)
  then obtain w0 y w1 where w0: "w_store w0 = w_store w" and y: "publishInternal sha env ord ReportUnknown ReasonSubmissionOutcomeUnknown at
      (''restart-unknown-'' @ dec_nat (revision_of ord)) w0 = (y, w1)"
    and rest: "(case y of Inl e \<Rightarrow> releasing (ord_id zero_order) (fail e)
      | Inr unknown \<Rightarrow> recover_leg sha port env at leg unknown (put (ol_id leg) unknown (fst state), True)) w1 = (Inr state', w')"
    by (elim reserve_coord andThenE) auto
  have inv0: "live_inv sha (w_store w0)" using assms(2) w0 by simp
  from rest obtain nx where nx: "y = Inr nx" by (cases y) (auto simp: releasing_def fail_def)
  from internal_alone(2) [OF assms(1) inv0 y [unfolded publishInternal_def] nx] obtain a r where
    a: "one_change (w_store w0) (w_store w1) (ord_id ord) a nx" "ApplyExecutionReport a r None = Inr nx"
      "ers_type (er_spec r) = ReportUnknown" "os_plan (ord_spec nx) = os_plan (ord_spec a)" "ord_id nx = ord_id ord" by blast
  have ao: "a = ord" using a(1) assms(5) w0 by (simp add: one_change_def)
  have unknown: "state_of nx = OrderUnknown" by (rule apply_target(3) [OF a(2,3)])
  have at: "order_at (w_store w1) (ord_id nx) = Some nx" using a(1,5) by (simp add: one_change_def)
  have inv1: "live_inv sha (w_store w1)" by (rule steadyD(1) [OF steady_internal(2) [OF assms(1) y] inv0])
  from rest nx have rec: "recover_leg sha port env at leg nx (put (ol_id leg) nx (fst state), True) w1 = (Inr state', w')" by simp
  show thesis
  proof (cases rule: recover_leg_alone [OF assms(1) inv1 at unknown rec, case_names kept recovered])
    case kept
    with a ao unknown w0 show thesis by (intro that [of nx]) auto
  next
    case (recovered b)
    with a ao w0 show thesis by (intro that [of b]) (auto intro: one_change_trans)
  qed
qed

lemma leg_created:
  assumes "alone env" "live_inv sha (w_store w)" "map_of (fst state) (ol_id leg) = Some ord" "state_of ord = OrderCreated"
    "order_at (w_store w) (ord_id ord) = Some ord" "leg_step sha port env at leg state w = (Inr state', w')"
  shows "weight early_weight (os_plan (ord_spec ord)) (w_store w') < weight early_weight (os_plan (ord_spec ord)) (w_store w)"
proof -
  have "get_or zero_order (fst state) (ol_id leg) = ord" using assms(3) by (simp add: get_or_def)
  with assms(4,6) have "reserving env (ord_id ord) (bind_op (releasing (ord_id ord)
      (publishInternal sha env ord ReportPlanned ReasonPlanned at ''planned'')) (\<lambda>_. ret (fst state, True))) w = (Inr state', w')"
    by (simp add: leg_step_def)
  then obtain w0 w1 nx where w0: "w_store w0 = w_store w" "publishInternal sha env ord ReportPlanned ReasonPlanned at ''planned'' w0 = (Inr nx, w1)"
    "w_store w' = w_store w1"
    by (elim reserve_coord bind_opE release_coord) (auto simp: ret_def elim!: release_coord)
  have "live_inv sha (w_store w0)" using assms(2) w0 by simp
  from internal_alone(2) [OF assms(1) this w0(2) [unfolded publishInternal_def] refl] obtain a r where
    a: "one_change (w_store w0) (w_store w1) (ord_id ord) a nx" "ApplyExecutionReport a r None = Inr nx"
      "ers_type (er_spec r) = ReportPlanned" "os_plan (ord_spec nx) = os_plan (ord_spec a)" by blast
  have "a = ord" using a(1) assms(5) w0(1) by (simp add: one_change_def)
  with weight_change [OF a(1), of "os_plan (ord_spec ord)" early_weight] apply_target(1) [OF a(2,3)] a(4) assms(4) w0
  show ?thesis by simp
qed

lemma leg_submitted:
  assumes "alone env" "live_inv sha (w_store w)" "map_of (fst state) (ol_id leg) = Some ord" "state_of ord = OrderPlanned"
    "dependenciesFilled leg (fst state)"
    "order_at (w_store w) (ord_id ord) = Some ord" "leg_step sha port env at leg state w = (Inr state', w')"
  shows "weight early_weight (os_plan (ord_spec ord)) (w_store w') < weight early_weight (os_plan (ord_spec ord)) (w_store w)"
proof -
  have "get_or zero_order (fst state) (ol_id leg) = ord" using assms(3) by (simp add: get_or_def)
  with assms(4,5,7) have "andThen (submit sha port env ord at) (\<lambda>x. case x of
        Inl e \<Rightarrow> if e \<noteq> Coordinator ErrUnknownOutcome then fail e
          else bind_op (drain_tolerant sha port env at) (\<lambda>_. ret (fst state, True))
      | Inr _ \<Rightarrow> bind_op (drain_tolerant sha port env at) (\<lambda>_. ret (fst state, True))) w = (Inr state', w')"
    by (simp add: leg_step_def)
  then obtain y w1 where y: "submit sha port env ord at w = (y, w1)"
    and rest: "(case y of
        Inl e \<Rightarrow> if e \<noteq> Coordinator ErrUnknownOutcome then fail e
          else bind_op (drain_tolerant sha port env at) (\<lambda>_. ret (fst state, True))
      | Inr _ \<Rightarrow> bind_op (drain_tolerant sha port env at) (\<lambda>_. ret (fst state, True))) w1 = (Inr state', w')"
    by (rule andThenE)
  from rest have "e = Coordinator ErrUnknownOutcome" if "y = Inl e" for e
    using that by (auto simp: fail_def split: if_splits)
  note s = submit_alone [OF assms(1,2,6,4) y this]
  from rest obtain z where "drain_tolerant sha port env at w1 = (z, w')"
    by (auto simp: fail_def ret_def elim!: bind_opE split: sum.splits if_splits)
  from steady_weight [OF steady_drain(2) [OF assms(1) this] s(1), of "os_plan (ord_spec ord)"] s(2) show ?thesis by simp
qed

lemma leg_advances:
  assumes alone: "alone env" and inv: "live_inv sha (w_store w)" and legs: "legs_ok pid (w_store w) (fst state)"
    and adv: "advancing pid e k (leg # legs) state (w_store w)" and dist: "distinct (map ol_id (leg # legs))"
    and step: "leg_step sha port env at leg state w = (Inr state', w')"
  shows "advancing pid e k legs state' (w_store w')"
proof (cases "weight early_weight pid (w_store w) < e")
  case True
  then show ?thesis by (rule advancing_later [OF steady_leg [OF alone step] inv])
next
  case False
  with adv have e: "weight early_weight pid (w_store w) = e" and fresh: "fresh (w_store w) (fst state) (leg # legs)"
    by (auto simp: advancing_def)
  note rest = advancing_rest [OF adv]
  show ?thesis
  proof (cases "map_of (fst state) (ol_id leg)")
    case None
    then have "get_or zero_order (fst state) (ol_id leg) = zero_order" by (simp add: get_or_def)
    with step have "state' = state" "w' = w" by (auto simp: leg_step_def Let_def zero_order_def ret_def)
    with rest show ?thesis by simp
  next
    case (Some ord)
    then have ord: "get_or zero_order (fst state) (ol_id leg) = ord" by (simp add: get_or_def)
    have at: "order_at (w_store w) (ord_id ord) = Some ord" using fresh Some by (simp add: fresh_def)
    have pid: "os_plan (ord_spec ord) = pid" using legs Some at by (fastforce simp: legs_ok_def leg_ok_def)
    have adv': "advancing pid e k (leg # legs) (fst state, snd state) (w_store w)" using adv by simp
    note change = advancing_change [OF adv' e _ dist Some legs pid]
    consider (pending) "state_of ord = OrderSubmissionPending" | (unknown) "state_of ord = OrderUnknown"
      | (created) "state_of ord = OrderCreated" | (submit) "state_of ord = OrderPlanned" "dependenciesFilled leg (fst state)"
      | (idle) "state_of ord \<notin> {OrderSubmissionPending, OrderUnknown, OrderCreated}"
          "state_of ord \<noteq> OrderPlanned \<or> \<not> dependenciesFilled leg (fst state)" by auto
    then show ?thesis
    proof cases
      case idle
      with step ord rest show ?thesis by (auto simp: leg_step_def ret_def)
    next
      case created
      from leg_created [OF alone inv Some created at step] pid e show ?thesis by (simp add: advancing_def)
    next
      case submit
      from leg_submitted [OF alone inv Some submit at step] pid e show ?thesis by (simp add: advancing_def)
    next
      case pending
      from leg_pending [OF alone inv Some pending at step] obtain b where
        b: "snd state'" "map_of (fst state') = (map_of (fst state))(ol_id leg \<mapsto> b)" "one_change (w_store w) (w_store w') (ord_id ord) ord b"
          "state_of b = OrderUnknown \<or> state_of b = OrderSubmitted" "os_plan (ord_spec b) = os_plan (ord_spec ord)" by metis
      have "advancing pid e k legs (fst state', True) (w_store w')" by (rule change [OF b(3)]) (use b pid pending in auto)
      with b(1) show ?thesis by (simp add: advancing_def)
    next
      case unknown
      with step ord have "reserving env (ord_id ord) (recover_leg sha port env at leg ord state) w = (Inr state', w')"
        by (simp add: leg_step_def)
      then obtain w0 where w0: "w_store w0 = w_store w" "recover_leg sha port env at leg ord state w0 = (Inr state', w')"
        by (rule reserve_coord) auto
      have "live_inv sha (w_store w0)" "order_at (w_store w0) (ord_id ord) = Some ord" using inv at w0 by simp_all
      note rec = recover_leg_alone [OF alone this unknown w0(2), case_names kept recovered]
      show ?thesis
      proof (cases rule: rec)
        case kept
        with rest w0(1) show ?thesis by simp
      next
        case (recovered b)
        then have "state' = (put (ol_id leg) b (fst state), True)" by simp
        then show ?thesis by (simp only:) (rule change, use recovered w0(1) pid unknown in auto)
      qed
    qed
  qed
qed

lemma legs_loop_advances:
  fixes plan :: order_plan
  assumes "alone env" "sane sha w" "legs_ok (op_id plan) (w_store w) (fst state)" "set legs \<subseteq> set (op_legs plan)"
    "distinct (map ol_id legs)" "advancing (op_id plan) e k legs state (w_store w)"
    "legs_loop sha port env at legs state w = (Inr state', w')"
  shows "advancing (op_id plan) e k [] state' (w_store w')"
  using assms
proof (induction legs arbitrary: state w)
  case Nil
  then show ?case by (simp add: ret_def)
next
  case (Cons leg legs)
  from Cons.prems(7) obtain s1 w1 where step: "leg_step sha port env at leg state w = (Inr s1, w1)"
    and rest: "legs_loop sha port env at legs s1 w1 = (Inr state', w')" by (auto elim: bind_opE)
  from leg_step_done [OF alone_ok [OF Cons.prems(1)] Cons.prems(2,3), of leg port at "Inr s1" w1] step Cons.prems(4)
  have d: "moves sha (submitted_leg plan) w w1" "legs_ok (op_id plan) (w_store w1) (fst s1)" by (auto simp: leg_done_def)
  have inv: "live_inv sha (w_store w)" using Cons.prems(2) by (simp add: sane_def)
  note adv = leg_advances [OF Cons.prems(1) inv Cons.prems(3,6,5) step]
  show ?case by (rule Cons.IH [OF Cons.prems(1) movesD(1) [OF d(1) Cons.prems(2)] d(2) _ _ adv rest]) (use Cons.prems(4,5) in auto)
qed

lemma by_leg_fresh:
  assumes "live_inv sha st" "OrdersForPlan ctx pid st = Inr orders"
  shows "fresh st (by_leg orders) legs"
proof -
  have "set orders = {v \<in> set (current_orders st). os_plan (ord_spec v) = pid}"
    using assms(2) by (auto simp: OrdersForPlan_def Let_def split: if_splits)
  then have "order_at st (ord_id ord) = Some ord" if "ord \<in> set orders" for ord
    using that assms(1) current_order_at [of st ord] by (simp add: live_inv_def gomap_wf_def)
  then show ?thesis by (auto simp: fresh_def dest: map_of_by_leg)
qed

lemma steady_legs: "alone env \<Longrightarrow> legs_loop sha port env at legs state w = (x, w') \<Longrightarrow> steady sha w w'"
proof (induction legs arbitrary: state w)
  case (Cons leg legs)
  from Cons.prems(2) have "bind_op (leg_step sha port env at leg state) (legs_loop sha port env at legs) w = (x, w')" by simp
  then show ?case
    by (cases rule: bind_opE) (blast intro: steady_leg [OF Cons.prems(1)] Cons.IH [OF Cons.prems(1)] steady_trans)+
qed (simp add: ret_def steady_same)

text \<open>A round that goes on lowers the weights lexicographically.\<close>

lemma round_advances:
  assumes "alone env" "sane sha w" "distinct (map ol_id (op_legs plan))" "round_step sha port env at plan w = (Inr True, w')"
  shows "known_orders (w_store w') = known_orders (w_store w)"
    "weight early_weight (op_id plan) (w_store w') < weight early_weight (op_id plan) (w_store w) \<or>
     weight early_weight (op_id plan) (w_store w') = weight early_weight (op_id plan) (w_store w) \<and>
     weight open_weight (op_id plan) (w_store w') < weight open_weight (op_id plan) (w_store w)"
proof -
  obtain orders w1 m where q: "query env (\<lambda>ctx. OrdersForPlan ctx (op_id plan)) w = (Inr orders, w1)"
    and l: "legs_loop sha port env at (op_legs plan) (by_leg orders, False) w1 = (Inr (m, True), w')"
    using assms(4) unfolding round_step_def by (auto elim!: bind_opE simp: ret_def split: prod.splits)
  note q' = query_step [OF q]
  have w1: "w_store w1 = w_store w" by (simp add: q'(2) alone_tick [OF assms(1)])
  have inv: "live_inv sha (w_store w1)" using assms(2) w1 by (simp add: sane_def)
  have sane: "sane sha w1" using assms(2) w1 q'(2) by (simp add: sane_def)
  have o: "OrdersForPlan (xe_ctx env (w_now w)) (op_id plan) (w_store w1) = Inr orders" using q' by simp
  have "advancing (op_id plan) (weight early_weight (op_id plan) (w_store w1)) (weight open_weight (op_id plan) (w_store w1))
      (op_legs plan) (by_leg orders, False) (w_store w1)"
    using by_leg_fresh [OF inv o] by (simp add: advancing_def)
  from legs_loop_advances [OF assms(1) sane _ _ assms(3) this l] by_leg_ok [OF inv o] w1
  show "weight early_weight (op_id plan) (w_store w') < weight early_weight (op_id plan) (w_store w) \<or>
     weight early_weight (op_id plan) (w_store w') = weight early_weight (op_id plan) (w_store w) \<and>
     weight open_weight (op_id plan) (w_store w') < weight open_weight (op_id plan) (w_store w)"
    by (auto simp: advancing_def)
  show "known_orders (w_store w') = known_orders (w_store w)"
    using steadyD(3) [OF steady_legs [OF assms(1) l] inv] w1 by simp
qed

definition rounds_left :: "digest \<Rightarrow> oms_store \<Rightarrow> nat" where
  "rounds_left pid st = weight early_weight pid st * (2 * card (known_orders st) + 1) + weight open_weight pid st"

lemma rounds_left_bound: "rounds_left pid st < (2 * card (known_orders st) + 1) ^ 2"
proof -
  let ?K = "2 * card (known_orders st)"
  have "weight early_weight pid st \<le> ?K" "weight open_weight pid st \<le> ?K" by (rule weight_bound, rule weights_le_2)+
  then have "rounds_left pid st \<le> ?K * (?K + 1) + ?K" unfolding rounds_left_def by (intro add_mono mult_mono) auto
  also have "\<dots> < (?K + 1) ^ 2" by (simp add: power2_eq_square)
  finally show ?thesis .
qed

lemma round_lowers:
  assumes "alone env" "sane sha w" "distinct (map ol_id (op_legs plan))" "round_step sha port env at plan w = (Inr True, w')"
  shows "rounds_left (op_id plan) (w_store w') < rounds_left (op_id plan) (w_store w)"
proof -
  let ?K = "2 * card (known_orders (w_store w))" and ?e = "\<lambda>w. weight early_weight (op_id plan) (w_store w)"
    and ?o = "\<lambda>w. weight open_weight (op_id plan) (w_store w)"
  note r = round_advances [OF assms]
  have o: "?o w' \<le> ?K" using weight_bound [of open_weight "op_id plan" "w_store w'"] weights_le_2(2) r(1) by simp
  have "?e w' * (?K + 1) + ?o w' < ?e w * (?K + 1) + ?o w"
  proof (cases "?e w' < ?e w")
    case True
    then have "Suc (?e w') * (?K + 1) \<le> ?e w * (?K + 1)" by (intro mult_right_mono) auto
    with o show ?thesis by simp
  next
    case False
    with r(2) show ?thesis by auto
  qed
  then show ?thesis by (simp add: rounds_left_def r(1))
qed

text \<open>The loop ends.\<close>

lemma rounds_end:
  assumes "alone env" "sane sha w" "distinct (map ol_id (op_legs plan))" "rounds_left (op_id plan) (w_store w) < n"
  shows "rounds n sha port env at plan w \<noteq> None"
  using assms(2,4)
proof (induction n arbitrary: w)
  case (Suc n)
  obtain y w1 where r: "round_step sha port env at plan w = (y, w1)" by fastforce
  show ?case
  proof (cases "y = Inr True")
    case True
    with round_lowers [OF assms(1) Suc.prems(1) assms(3)] r Suc.prems(2)
    have "rounds_left (op_id plan) (w_store w1) < n" by fastforce
    moreover have "sane sha w1" using movesD(1) [OF round_moves [OF alone_ok [OF assms(1)] r] Suc.prems(1)] .
    ultimately show ?thesis using Suc.IH r True by simp
  next
    case False
    with r show ?thesis by (auto split: sum.splits)
  qed
qed simp

text \<open>A call returns when its plan, if it finds one, has distinct legs.\<close>

lemma run_plan_ends:
  assumes "alone env" "sane sha w" "distinct (map ol_id (op_legs plan))" "(2 * card (known_orders (w_store w)) + 1) ^ 2 \<le> fuel"
  shows "run_plan fuel sha port env at plan receipt w \<noteq> None"
proof -
  obtain y w1 where d: "drain_tolerant sha port env at w = (y, w1)" by fastforce
  have "moves sha (\<lambda>_. True) w w1" by (rule keepsD [OF keeps_drain(2) [OF alone_ok [OF assms(1)]] d])
  then have "sane sha w1" using assms(2) by (rule movesD(1))
  moreover have "known_orders (w_store w1) = known_orders (w_store w)"
    using steadyD(3) [OF steady_drain(2) [OF assms(1) d]] assms(2) by (simp add: sane_def)
  then have "rounds_left (op_id plan) (w_store w1) < fuel"
    using rounds_left_bound [of "op_id plan" "w_store w1"] assms(4) by simp
  ultimately have "rounds fuel sha port env at plan w1 \<noteq> None" by (rule rounds_end [OF assms(1) _ assms(3)])
  with d show ?thesis by (auto simp: run_plan_def Let_def split: sum.splits prod.splits)
qed

lemma ExecutePlan_ends:
  assumes "alone env" "sane sha w" "\<And>plan ctx. OMS_Plan ctx pid (w_store w) = Inr plan \<Longrightarrow> distinct (map ol_id (op_legs plan))"
    "(2 * card (known_orders (w_store w)) + 1) ^ 2 \<le> fuel"
  shows "ExecutePlan fuel sha port env pid at w \<noteq> None"
proof -
  obtain y w1 where r: "plan_ready env pid at w = (y, w1)" by fastforce
  have "moves sha (\<lambda>_. True) w w1" by (rule keepsD [OF keeps_plan_ready [OF alone_ok [OF assms(1)]] r])
  then have sane: "sane sha w1" using assms(2) by (rule movesD(1))
  have "steady sha w w1" by (rule keepsD [OF keeps_if [OF steady_in.keeps_plan_ready assms(1)] r])
  then have known: "known_orders (w_store w1) = known_orders (w_store w)" by (rule steadyD(3)) (use assms(2) in \<open>simp add: sane_def\<close>)
  have "reserved_run fuel sha port env at plan receipt w1 \<noteq> None" if y: "y = Inr (plan, orders)" for plan orders receipt
  proof -
    obtain ctx where "OMS_Plan ctx pid (w_store (tick env w)) = Inr plan" by (rule plan_ready_Inr [OF r [unfolded y]])
    then have dist: "distinct (map ol_id (op_legs plan))" using assms(3) by (simp add: alone_tick [OF assms(1)])
    have "run_plan fuel sha port env at plan receipt (w1\<lparr>w_coord := c\<rparr>) \<noteq> None" for c
      by (rule run_plan_ends [OF assms(1) _ dist]) (use sane known assms(4) in \<open>simp_all add: sane_def\<close>)
    then show ?thesis by (auto simp: reserved_run_def Let_def split: prod.splits select_outcome.splits)
  qed
  with r show ?thesis by (cases y) (auto simp: ExecutePlan_def Let_def split: prod.splits)
qed

end
