(* ===== verification/Exec_System.thy ===== *)
theory Exec_System
  imports Exec_Rounds
begin

text \<open>
  The execution coordinator as a whole: calls of its handlers, restarts and the steps of everything else in any
  order; and what a publication leaves behind for the calls after it.
\<close>

section \<open>Runs\<close>

text \<open>
  One step of the system. Every call may see another broker port and another environment; a restart forgets the
  coordinator's fields; the broker and the rest of the program act between calls.
\<close>

inductive exec_step :: "(string \<Rightarrow> digest) \<Rightarrow> 'b world \<Rightarrow> 'b world \<Rightarrow> bool" for sha where
  execute: "env_ok sha env \<Longrightarrow> ExecutePlan fuel sha port env pid at w = Some (x, w') \<Longrightarrow> exec_step sha w w'"
| cancel: "env_ok sha env \<Longrightarrow> RequestCancel sha port env oid at w = (y, w') \<Longrightarrow> exec_step sha w w'"
| event: "env_ok sha env \<Longrightarrow> PublishBrokerEvent sha env ev at w = (z, w') \<Longrightarrow> exec_step sha w w'"
| drain: "env_ok sha env \<Longrightarrow> DrainEvents sha port env at w = (v, w') \<Longrightarrow> exec_step sha w w'"
| restart: "exec_step sha w (w\<lparr>w_coord := c\<rparr>)"
| broker: "exec_step sha w (w\<lparr>w_broker := b\<rparr>)"
| others: "live_step sha (w_store w) s \<Longrightarrow> exec_step sha w (w\<lparr>w_store := s\<rparr>)"

text \<open>What a run adds to the record of submissions.\<close>

lemma exec_step_moves: "exec_step sha w w' \<Longrightarrow> moves sha (\<lambda>_. True) w w'"
proof (induction rule: exec_step.induct)
  case (execute env fuel port pid at w x w')
  then show ?case by (rule moves_mono [OF ExecutePlan_moves]) simp
next
  case (cancel env port oid at w y w')
  then show ?case by (blast intro: keepsD [OF keeps_cancel])
next
  case (event env ev at w z w')
  then show ?case by (blast intro: keepsD [OF keeps_event])
next
  case (drain env port at w v w')
  then show ?case by (blast intro: keepsD [OF keeps_drain(1)])
next
  case (restart w c)
  show ?case by (rule moves.coord)
next
  case (broker w b)
  show ?case by (rule moves_live) simp_all
next
  case (others w s)
  then show ?case by (intro moves_live) auto
qed

definition submissions_grow :: "'b world \<Rightarrow> 'b world \<Rightarrow> bool" where
  "submissions_grow w w' \<longleftrightarrow> live_grows (w_store w) (w_store w') \<and> (\<exists>es. w_sent w' = w_sent w @ es)"

interpretation exec_run: step_monotone "exec_step sha :: 'a world \<Rightarrow> 'a world \<Rightarrow> bool" "sane sha" submissions_grow for sha
proof
  show "sane sha t" if "sane sha s" "exec_step sha s t" for s t :: "'a world"
    using movesD(1) [OF exec_step_moves [OF that(2)] that(1)] .
  show "submissions_grow s s" for s :: "'a world" by (simp add: submissions_grow_def live_run.grows_refl)
  show "submissions_grow s u" if "submissions_grow s t" "submissions_grow t u" for s t u :: "'a world"
    using that unfolding submissions_grow_def by (metis append.assoc live_run.grows_trans)
  show "submissions_grow s t" if "sane sha s" "exec_step sha s t" for s t :: "'a world"
    using movesD(3,4) [OF exec_step_moves [OF that(2)] that(1)] unfolding submissions_grow_def by blast
qed

section \<open>A publication is made once\<close>

lemma publish_new:
  assumes env: "env_ok sha env" and sane: "sane sha w" and pub: "publish sha env oid r None w = (Inr nx, w')"
    and r: "report_built r" "ers_order (er_spec r) = oid" and held: "held w oid"
  shows "\<not> has (st_publications (w_store w)) (report_publication sha r)" "has (st_publications (w_store w')) (report_publication sha r)"
proof -
  from pub obtain c p s y where pub: "CurrentOrderCheckpoint (xe_ctx env (w_now w)) oid (w_store (tick env w)) = Inr c"
    "prepare_order sha oid c r None = Inr (nx, p)"
    "PublishOrderEvent sha (xe_ctx env (w_now (tick env w))) p (w_store (tick env (tick env w))) = (s, Inr y)"
    "w' = (tick env (tick env w))\<lparr>w_store := s\<rparr>"
    by (rule publish_cases) (auto split: sum.splits)
  let ?t = "tick env (tick env w)"
  have inv: "live_inv sha (w_store w)" using sane by (simp add: sane_def)
  have reach: "(live_step sha)\<^sup>*\<^sup>* (w_store w) (w_store ?t)"
    using rtranclp_trans [OF tick_live [OF env] tick_live [OF env]] .
  have invt: "live_inv sha (w_store ?t)" by (rule live_run.reach_inv [OF reach inv])
  have at: "order_at (w_store ?t) oid = Some (oc_order c)"
    using query_order(1) [OF pub(1)] tick_held [OF env, of "tick env w" oid] held by simp
  note prep = prepare_order_Inr [OF pub(2)]
  have pid: "pu_id p = report_publication sha r" using prep(6) r(2) by simp
  obtain v nx' where v: "NewOrderPublication sha p = Inr v" "s = commit_publication (w_store ?t) v nx'"
    "\<not> has (st_publications (w_store ?t)) (pu_id p)"
    by (rule publish_commits [OF invt pub(3), of "oc_order c"]) (use r prep at in auto)
  have "map_of (st_publications (w_store w)) \<subseteq>\<^sub>m map_of (st_publications (w_store ?t))"
    using live_run.reach_grows [OF reach inv] by (simp add: live_grows_def)
  with v(3) show "\<not> has (st_publications (w_store w)) (report_publication sha r)"
    by (fastforce simp: has_def pid map_le_def dom_def)
  have "pu_id v = pu_id p" using NewOrderPublication_Inr [OF v(1)] by simp
  then show "has (st_publications (w_store w')) (report_publication sha r)"
    by (simp add: pub(4) v(2) pid commit_publication_def Let_def)
qed

text \<open>The identity of a report of the coordinator depends on the order and the key only.\<close>

definition internal_report_id :: "(string \<Rightarrow> digest) \<Rightarrow> digest \<Rightarrow> string \<Rightarrow> digest" where
  "internal_report_id sha oid key =
     id_or_zero (NewExecutionReportID sha ''COORDINATOR'' (trim_space (digest_string oid @ ''-'' @ key)))"

definition internal_publication :: "(string \<Rightarrow> digest) \<Rightarrow> digest \<Rightarrow> string \<Rightarrow> digest" where
  "internal_publication sha oid key =
     id_or_zero (NewPublicationID sha [digest_string oid, digest_string (internal_report_id sha oid key)])"

lemma internal_new:
  assumes "env_ok sha env" "sane sha w" "publishInternalWithBroker sha env ord kind reason at key b w = (Inr nx, w')"
    "held w (ord_id ord)"
  shows "\<not> has (st_publications (w_store w)) (internal_publication sha (ord_id ord) key)"
    "has (st_publications (w_store w')) (internal_publication sha (ord_id ord) key)"
proof -
  have trim: "trim_space ''COORDINATOR'' = ''COORDINATOR''" by code_simp
  obtain spec r where r: "NewExecutionReport sha spec = Inr r" "ers_order spec = ord_id ord" "ers_source spec = ''COORDINATOR''"
    "ers_source_event spec = digest_string (ord_id ord) @ ''-'' @ key"
    and p: "publish sha env (ord_id ord) r None w = (Inr nx, w')"
    using assms(3) unfolding publishInternalWithBroker_def by (auto elim!: bind_opE simp: lift_r_def)
  have "er_id r = internal_report_id sha (ord_id ord) key"
    using r(1) unfolding internal_report_id_def NewExecutionReport_def Let_def id_or_zero_def
    by (auto simp: r trim split: if_splits)
  then have rid: "report_publication sha r = internal_publication sha (ord_id ord) key"
    using NewExecutionReport_built(2) [OF r(1)] by (simp add: report_publication_def internal_publication_def r(2))
  have built: "report_built r" "ers_order (er_spec r) = ord_id ord" using NewExecutionReport_built [OF r(1)] r(2) by simp_all
  from publish_new [OF assms(1,2) p built assms(4)]
  show "\<not> has (st_publications (w_store w)) (internal_publication sha (ord_id ord) key)"
    "has (st_publications (w_store w')) (internal_publication sha (ord_id ord) key)" by (simp_all add: rid)
qed

text \<open>The broker knows the order under one identity.\<close>

definition names_order :: "'b port \<Rightarrow> digest \<Rightarrow> string \<Rightarrow> bool" where
  "names_order port client brokerID \<longleftrightarrow>
     (\<forall>d b b' s. port_lookup port d client b = (b', Inr s) \<longrightarrow> sn_broker_order s = brokerID)"

lemma recover_new:
  assumes "env_ok sha env" "sane sha w" "held w (ord_id ord)" "names_order port (ord_client ord) brokerID"
    "recoverUnknown sha port env ord at w = (Inr nx, w')"
  shows "\<not> has (st_publications (w_store w)) (internal_publication sha (ord_id ord) (''recovered-'' @ brokerID))"
    "has (st_publications (w_store w')) (internal_publication sha (ord_id ord) (''recovered-'' @ brokerID))"
proof -
  from assms(5) obtain snap w1 where l: "invokeLookup port env (ord_client ord) w = (Inr snap, w1)"
    and p: "publishInternalWithBroker sha env ord ReportSubmitted ReasonBrokerAccepted at
      (''recovered-'' @ sn_broker_order snap) (sn_broker_order snap) w1 = (Inr nx, w')"
    unfolding recoverUnknown_def by (auto elim!: bind_opE simp: fail_def split: if_splits)
  have b: "sn_broker_order snap = brokerID"
    using l assms(4) unfolding invokeLookup_def invoke_def names_order_def
    by (auto simp: Let_def split: prod.splits sum.splits error.splits)
  have m: "moves sha (\<lambda>_. True) w w1" by (rule keepsD [OF keeps_lookup [OF assms(1)] l])
  have held: "held w1 (ord_id ord)" using l assms(3) unfolding invokeLookup_def by (auto elim!: invoke_step)
  note new = internal_new [OF assms(1) movesD(1) [OF m assms(2)] p held]
  have "map_of (st_publications (w_store w)) \<subseteq>\<^sub>m map_of (st_publications (w_store w1))"
    using movesD(3) [OF m assms(2)] by (simp add: live_grows_def)
  with new(1) show "\<not> has (st_publications (w_store w)) (internal_publication sha (ord_id ord) (''recovered-'' @ brokerID))"
    by (fastforce simp: b has_def map_le_def dom_def)
  from new(2) show "has (st_publications (w_store w')) (internal_publication sha (ord_id ord) (''recovered-'' @ brokerID))"
    by (simp add: b)
qed

lemma grows_has:
  assumes "submissions_grow w w'" "has (st_publications (w_store w)) i"
  shows "has (st_publications (w_store w')) i"
  using assms by (fastforce simp: submissions_grow_def live_grows_def has_def map_le_def dom_def)

section \<open>Reservations\<close>

lemma publish_coord: "publish sha env oid r f w = (x, w') \<Longrightarrow> w_coord w' = w_coord w"
  by (erule publish_cases) auto

lemma internal_coord:
  "publishInternalWithBroker sha env ord kind reason at key b w = (x, w') \<Longrightarrow> w_coord w' = w_coord w"
  unfolding publishInternalWithBroker_def by (elim bind_opE) (auto simp: lift_r_def dest: publish_coord)

lemma held_busy: "held w oid \<Longrightarrow> reserving env oid m w = (Inl (Coordinator ErrOrderBusy), w)"
  by (simp add: reserving_def reserveOrder_def)

lemma pending_leak:
  assumes "get_or zero_order (fst state) (ol_id leg) = ord" "state_of ord = OrderSubmissionPending" "ord_id ord \<noteq> 0"
    "leg_step sha port env at leg state w = (Inl e, w')" "e \<noteq> Coordinator ErrOrderBusy"
  shows "held w' (ord_id ord)"
proof -
  have "reserving env (ord_id ord) (andThen (publishInternal sha env ord ReportUnknown ReasonSubmissionOutcomeUnknown at
      (''restart-unknown-'' @ dec_nat (revision_of ord))) (\<lambda>x. case x of
        Inl e \<Rightarrow> releasing (ord_id zero_order) (fail e)
      | Inr unknown \<Rightarrow> recover_leg sha port env at leg unknown (put (ol_id leg) unknown (fst state), True))) w = (Inl e, w')"
    using assms(1,2,4) by (simp add: leg_step_def)
  then obtain w0 where w0: "reserveOrder env (ord_id ord) w = (True, w0)"
    and "andThen (publishInternal sha env ord ReportUnknown ReasonSubmissionOutcomeUnknown at
      (''restart-unknown-'' @ dec_nat (revision_of ord))) (\<lambda>x. case x of
        Inl e \<Rightarrow> releasing (ord_id zero_order) (fail e)
      | Inr unknown \<Rightarrow> recover_leg sha port env at leg unknown (put (ol_id leg) unknown (fst state), True)) w0 = (Inl e, w')"
    using assms(5) by (auto simp: reserving_def split: prod.splits bool.splits)
  then obtain y w1 where y: "publishInternal sha env ord ReportUnknown ReasonSubmissionOutcomeUnknown at
      (''restart-unknown-'' @ dec_nat (revision_of ord)) w0 = (y, w1)"
    and rest: "(case y of Inl e \<Rightarrow> releasing (ord_id zero_order) (fail e)
      | Inr unknown \<Rightarrow> recover_leg sha port env at leg unknown (put (ol_id leg) unknown (fst state), True)) w1 = (Inl e, w')"
    by (elim andThenE)
  have coord: "w_coord w1 = w_coord w0" using internal_coord [OF y [unfolded publishInternal_def]] .
  have held: "held w0 (ord_id ord)" by (rule held_reserve [OF w0])
  show ?thesis
  proof (cases y)
    case (Inl d)
    with rest have "w' = releaseOrder (ord_id zero_order) w1" by (auto simp: releasing_def fail_def)
    with held coord assms(3) show ?thesis
      by (simp add: releaseOrder_def get_or_def delete_conv' zero_order_def)
  next
    case (Inr u)
    with rest show ?thesis by (auto simp: recover_leg_def ret_def elim!: andThenE split: sum.splits)
  qed
qed

end
