(* ===== verification/Acct_Model.thy ===== *)
theory Acct_Model
  imports Order Repository
begin

text \<open>
  \<open>internal/accounting/model\<close>: accounting fills and their canonical order, position snapshots, fill
  applications and ingestion progress, each with its validating constructor and canonical bytes.
\<close>

section \<open>Fills and their order\<close>

record ordering_key =
  ok_occurred :: instant
  ok_received :: instant
  ok_fill :: digest

definition zero_ordering_key :: ordering_key where
  "zero_ordering_key = \<lparr>ok_occurred = 0, ok_received = 0, ok_fill = 0\<rparr>"

definition NewFillOrderingKey :: "instant \<Rightarrow> instant \<Rightarrow> digest \<Rightarrow> ordering_key result" where
  "NewFillOrderingKey occurredAt receivedAt fillID =
     (if occurredAt = 0 \<or> receivedAt = 0 \<or> fillID = 0 then Inl (Accounting ErrUnorderableFill)
      else Inr \<lparr>ok_occurred = occurredAt, ok_received = receivedAt, ok_fill = fillID\<rparr>)"

definition Compare :: "ordering_key \<Rightarrow> ordering_key \<Rightarrow> int" where
  "Compare value other =
     (if ok_occurred value < ok_occurred other then -1
      else if ok_occurred value > ok_occurred other then 1
      else if ok_received value < ok_received other then -1
      else if ok_received value > ok_received other then 1
      else if digest_string (ok_fill value) < digest_string (ok_fill other) then -1
      else if digest_string (ok_fill value) > digest_string (ok_fill other) then 1
      else 0)"

definition key_is_zero :: "ordering_key \<Rightarrow> bool" where
  "key_is_zero k \<longleftrightarrow> ok_occurred k = 0 \<or> ok_received k = 0 \<or> ok_fill k = 0"

record accounting_fill_spec =
  afs_schema :: string
  afs_fill :: fill
  afs_portfolio :: digest
  afs_instrument :: digest
  afs_side :: side
  afs_received :: instant

record accounting_fill =
  af_spec :: accounting_fill_spec
  af_position :: digest
  af_ordering :: ordering_key
  af_checksum :: digest
  af_raw :: string

definition canonicalAccountingFill :: "accounting_fill_spec \<Rightarrow> digest \<Rightarrow> string" where
  "canonicalAccountingFill spec position = marshal (JObj
     [(''SchemaVersion'', JStr (afs_schema spec)),
      (''PositionID'', JStr (digest_string position)),
      (''PortfolioID'', JStr (digest_string (afs_portfolio spec))),
      (''InstrumentID'', JStr (digest_string (afs_instrument spec))),
      (''Side'', JStr (side_string (afs_side spec))),
      (''ReceivedAt'', JStr (rfc3339_nano (afs_received spec))),
      (''Fill'', JRaw (fl_raw (afs_fill spec)))])"

definition NewAccountingFill :: "(string \<Rightarrow> digest) \<Rightarrow> accounting_fill_spec \<Rightarrow> accounting_fill result" where
  "NewAccountingFill sha spec0 =
     (let spec = spec0\<lparr>afs_schema := trim_space (afs_schema spec0)\<rparr>; fillSpec = fl_spec (afs_fill spec) in
      if afs_schema spec = [] \<or> fl_id (afs_fill spec) = 0 \<or> afs_portfolio spec = 0 \<or> afs_instrument spec = 0 \<or>
         (afs_side spec \<noteq> SideBuy \<and> afs_side spec \<noteq> SideSell) \<or> afs_received spec = 0 \<or>
         price_is_zero_value (fs_price fillSpec) \<or> price_minor (fs_price fillSpec) \<le> 0 \<or>
         \<not> quantity_is_valid (fs_quantity fillSpec)
      then Inl (Accounting ErrInvalidAccountingFill)
      else bind_r (NewFillOrderingKey (fs_occurred_at fillSpec) (afs_received spec) (fl_id (afs_fill spec))) (\<lambda>ordering.
      bind_r (NewPositionID sha (digest_string (afs_portfolio spec)) (digest_string (afs_instrument spec))) (\<lambda>position.
      let raw = canonicalAccountingFill spec position in
      Inr \<lparr>af_spec = spec, af_position = position, af_ordering = ordering,
           af_checksum = state_checksum_acct sha ''accounting-fill-checksum/v1'' raw, af_raw = raw\<rparr>)))"

abbreviation af_fill :: "accounting_fill \<Rightarrow> fill" where
  "af_fill f \<equiv> afs_fill (af_spec f)"

definition fill_is_zero :: "accounting_fill \<Rightarrow> bool" where
  "fill_is_zero f \<longleftrightarrow> af_position f = 0 \<or> fl_id (af_fill f) = 0"

section \<open>Positions\<close>

datatype position_state = PositionOpenLong | PositionOpenShort | PositionFlat

definition position_state_string :: "position_state \<Rightarrow> string" where
  "position_state_string s = (case s of
     PositionOpenLong \<Rightarrow> ''OPEN_LONG'' | PositionOpenShort \<Rightarrow> ''OPEN_SHORT'' | PositionFlat \<Rightarrow> ''FLAT'')"

record position_lot =
  pl_side :: side
  pl_quantity :: int
  pl_basis :: money
  pl_numerator :: int
  pl_denominator :: int
  pl_opened_at :: instant

record position_spec =
  pn_schema :: string
  pn_position :: digest
  pn_portfolio :: digest
  pn_instrument :: digest
  pn_revision :: nat
  pn_net :: int
  pn_lot :: "position_lot option"
  pn_basis :: money
  pn_bought_quantity :: int
  pn_bought_value :: money
  pn_sold_quantity :: int
  pn_sold_value :: money
  pn_realized :: money
  pn_charges :: money
  pn_charges_available :: bool
  pn_last_key :: ordering_key
  pn_last_fill :: digest
  pn_fill_count :: nat
  pn_fill_checksum :: digest
  pn_opened_at :: instant
  pn_updated_at :: instant
  pn_flat_at :: instant

record position_snapshot =
  ps_spec :: position_spec
  ps_state :: position_state
  ps_checksum :: digest
  ps_raw :: string

text \<open>\<open>abs\<close> of the source: negation wraps at the smallest integer.\<close>

definition abs64 :: "int \<Rightarrow> int" where
  "abs64 value = (if value < 0 then wrap64 (- value) else value)"

definition money_wire :: "money \<Rightarrow> json" where
  "money_wire m = JObj [(''minor'', JInt (minor m)), (''currency'', JStr (money_currency m))]"

definition lot_wire :: "position_lot \<Rightarrow> json" where
  "lot_wire lot = JObj
     [(''Side'', JStr (side_string (pl_side lot))),
      (''Quantity'', JInt (pl_quantity lot)),
      (''TotalBasis'', money_wire (pl_basis lot)),
      (''AverageNumerator'', JInt (pl_numerator lot)),
      (''AverageDenominator'', JInt (pl_denominator lot)),
      (''OpenedAt'', JStr (rfc3339_nano (pl_opened_at lot)))]"

definition position_fields :: "position_spec \<Rightarrow> position_state \<Rightarrow> (string \<times> json) list" where
  "position_fields spec state =
     [(''SchemaVersion'', JStr (pn_schema spec)),
      (''PositionID'', JStr (digest_string (pn_position spec))),
      (''PortfolioID'', JStr (digest_string (pn_portfolio spec))),
      (''InstrumentID'', JStr (digest_string (pn_instrument spec))),
      (''State'', JStr (position_state_string state)),
      (''Revision'', JInt (int (pn_revision spec))),
      (''NetQuantity'', JInt (pn_net spec)),
      (''OpenLot'', case pn_lot spec of None \<Rightarrow> JNull | Some lot \<Rightarrow> lot_wire lot),
      (''OpenCostBasis'', money_wire (pn_basis spec)),
      (''CumulativeBoughtValue'', money_wire (pn_bought_value spec)),
      (''CumulativeSoldValue'', money_wire (pn_sold_value spec)),
      (''GrossRealizedPnL'', money_wire (pn_realized spec)),
      (''AuthoritativeCharges'', money_wire (pn_charges spec)),
      (''CumulativeBoughtQuantity'', JInt (pn_bought_quantity spec)),
      (''CumulativeSoldQuantity'', JInt (pn_sold_quantity spec)),
      (''ChargesAvailable'', JBool (pn_charges_available spec)),
      (''LastOccurredAt'', JStr (rfc3339_nano (ok_occurred (pn_last_key spec)))),
      (''LastReceivedAt'', JStr (rfc3339_nano (ok_received (pn_last_key spec)))),
      (''LastFillID'', JStr (digest_string (pn_last_fill spec))),
      (''AppliedFillCount'', JInt (int (pn_fill_count spec))),
      (''AppliedFillChecksum'', JStr (digest_string (pn_fill_checksum spec))),
      (''OpenedAt'', JStr (rfc3339_nano (pn_opened_at spec))),
      (''UpdatedAt'', JStr (rfc3339_nano (pn_updated_at spec))),
      (''FlatAt'', JStr (if pn_flat_at spec = 0 then [] else rfc3339_nano (pn_flat_at spec)))]"

definition canonicalPosition :: "position_spec \<Rightarrow> position_state \<Rightarrow> string" where
  "canonicalPosition spec state = marshal (JObj (position_fields spec state))"

definition position_state_of :: "int \<Rightarrow> position_state" where
  "position_state_of net = (if net < 0 then PositionOpenShort else if net > 0 then PositionOpenLong else PositionFlat)"

text \<open>The checks on the open lot, which an open position has and a flat one has not.\<close>

definition lot_matches :: "position_spec \<Rightarrow> bool" where
  "lot_matches spec \<longleftrightarrow>
     (if position_state_of (pn_net spec) = PositionFlat
      then pn_lot spec = None \<and> minor (pn_basis spec) = 0 \<and> pn_flat_at spec \<noteq> 0 \<and>
           \<not> pn_flat_at spec > pn_updated_at spec
      else case pn_lot spec of None \<Rightarrow> False
       | Some lot \<Rightarrow> \<not> minor (pn_basis spec) \<le> 0 \<and> pn_flat_at spec = 0 \<and> pl_opened_at lot = pn_opened_at spec \<and>
           pl_quantity lot = abs64 (pn_net spec) \<and> minor (pl_basis lot) = minor (pn_basis spec) \<and>
           money_currency (pl_basis lot) = money_currency (pn_basis spec) \<and>
           pl_numerator lot = minor (pn_basis spec) \<and> pl_denominator lot = abs64 (pn_net spec) \<and>
           \<not> pl_quantity lot \<le> 0 \<and>
           pl_side lot = (if position_state_of (pn_net spec) = PositionOpenShort then SideSell else SideBuy))"

definition NewPositionSnapshot :: "(string \<Rightarrow> digest) \<Rightarrow> position_spec \<Rightarrow> position_snapshot result" where
  "NewPositionSnapshot sha spec0 =
     (let spec = spec0\<lparr>pn_schema := trim_space (pn_schema spec0)\<rparr> in
      if pn_schema spec = [] \<or> pn_position spec = 0 \<or> pn_portfolio spec = 0 \<or> pn_instrument spec = 0 \<or>
         pn_revision spec = 0 \<or> pn_bought_quantity spec < 0 \<or> pn_sold_quantity spec < 0 \<or>
         money_is_zero_value (pn_bought_value spec) \<or> money_is_zero_value (pn_sold_value spec) \<or>
         money_is_zero_value (pn_realized spec) \<or> money_is_zero_value (pn_basis spec) \<or>
         money_is_zero_value (pn_charges spec) \<or> key_is_zero (pn_last_key spec) \<or> pn_last_fill spec = 0 \<or>
         pn_last_fill spec \<noteq> ok_fill (pn_last_key spec) \<or> pn_fill_count spec = 0 \<or>
         pn_fill_checksum spec = 0 \<or> pn_opened_at spec = 0 \<or> pn_updated_at spec = 0
      then Inl (Accounting ErrInvalidPosition)
      else if NewPositionID sha (digest_string (pn_portfolio spec)) (digest_string (pn_instrument spec))
                \<noteq> Inr (pn_position spec)
      then Inl (Accounting ErrInvalidPosition)
      else if \<exists>m \<in> set [pn_bought_value spec, pn_sold_value spec, pn_realized spec, pn_charges spec].
                money_currency m \<noteq> money_currency (pn_basis spec)
      then Inl (Domain ErrCurrencyMismatch)
      else if minor (pn_basis spec) < 0 \<or> minor (pn_bought_value spec) < 0 \<or> minor (pn_sold_value spec) < 0 \<or>
              minor (pn_charges spec) < 0 \<or> pn_updated_at spec < pn_opened_at spec
      then Inl (Accounting ErrInvalidPosition)
      else if pn_net spec = min_i64 then Inl (Accounting ErrInvalidPosition)
      else if \<not> lot_matches spec then Inl (Accounting ErrInvalidPosition)
      else let state = position_state_of (pn_net spec); raw = canonicalPosition spec state in
        Inr \<lparr>ps_spec = spec, ps_state = state,
             ps_checksum = state_checksum_acct sha ''accounting-position-state/v1'' raw, ps_raw = raw\<rparr>)"

section \<open>Applications\<close>

record application_spec =
  as_schema :: string
  as_id :: digest
  as_position :: digest
  as_fill :: digest
  as_fill_checksum :: digest
  as_key :: ordering_key
  as_previous_revision :: nat
  as_previous_checksum :: digest
  as_next_revision :: nat
  as_next_checksum :: digest
  as_closed :: int
  as_opened :: int
  as_allocated :: money
  as_realized :: money
  as_applied_at :: instant

record fill_application =
  fa_spec :: application_spec
  fa_checksum :: digest
  fa_raw :: string

definition canonicalApplication :: "application_spec \<Rightarrow> string" where
  "canonicalApplication spec = marshal (JObj
     [(''SchemaVersion'', JStr (as_schema spec)),
      (''ID'', JStr (digest_string (as_id spec))),
      (''PositionID'', JStr (digest_string (as_position spec))),
      (''FillID'', JStr (digest_string (as_fill spec))),
      (''FillChecksum'', JStr (digest_string (as_fill_checksum spec))),
      (''OccurredAt'', JStr (rfc3339_nano (ok_occurred (as_key spec)))),
      (''ReceivedAt'', JStr (rfc3339_nano (ok_received (as_key spec)))),
      (''PreviousRevision'', JInt (int (as_previous_revision spec))),
      (''NextRevision'', JInt (int (as_next_revision spec))),
      (''PreviousSnapshotChecksum'', JStr (digest_string (as_previous_checksum spec))),
      (''NextSnapshotChecksum'', JStr (digest_string (as_next_checksum spec))),
      (''ClosedQuantity'', JInt (as_closed spec)),
      (''OpenedQuantity'', JInt (as_opened spec)),
      (''AllocatedClosingBasisMinor'', JInt (minor (as_allocated spec))),
      (''GrossRealizedDeltaMinor'', JInt (minor (as_realized spec))),
      (''Currency'', JStr (money_currency (as_realized spec))),
      (''AppliedAt'', JStr (rfc3339_nano (as_applied_at spec)))])"

definition NewFillApplication :: "(string \<Rightarrow> digest) \<Rightarrow> application_spec \<Rightarrow> fill_application result" where
  "NewFillApplication sha spec =
     (if as_schema spec = [] \<or> as_id spec = 0 \<or> as_position spec = 0 \<or> as_fill spec = 0 \<or>
         as_fill_checksum spec = 0 \<or> key_is_zero (as_key spec) \<or> ok_fill (as_key spec) \<noteq> as_fill spec \<or>
         as_next_revision spec = 0 \<or> as_next_revision spec \<noteq> wrap_u64 (as_previous_revision spec + 1) \<or>
         as_next_checksum spec = 0 \<or> as_closed spec < 0 \<or> as_opened spec < 0 \<or>
         money_is_zero_value (as_allocated spec) \<or> money_is_zero_value (as_realized spec) \<or>
         money_currency (as_allocated spec) \<noteq> money_currency (as_realized spec) \<or>
         minor (as_allocated spec) < 0 \<or> as_applied_at spec = 0
      then Inl (Accounting ErrInvalidFillApplication)
      else if (if as_previous_revision spec = 0 then as_previous_checksum spec \<noteq> 0
               else as_previous_checksum spec = 0)
      then Inl (Accounting ErrInvalidFillApplication)
      else let raw = canonicalApplication spec in
        Inr \<lparr>fa_spec = spec, fa_checksum = state_checksum_acct sha ''accounting-fill-application/v1'' raw,
             fa_raw = raw\<rparr>)"

section \<open>Ingestion\<close>

record account_binding =
  ab_portfolio :: digest
  ab_account :: string
  ab_version :: string
  ab_valid_from :: instant
  ab_checksum :: digest

definition NewAccountBinding ::
  "(string \<Rightarrow> digest) \<Rightarrow> digest \<Rightarrow> string \<Rightarrow> string \<Rightarrow> instant \<Rightarrow> account_binding result" where
  "NewAccountBinding sha portfolioID accountID version0 validFrom =
     (let version = trim_space version0 in
      if portfolioID = 0 \<or> accountID = [] \<or> version = [] \<or> validFrom = 0 then Inl (Accounting ErrInvalidIngestion)
      else let raw = marshal (JObj
             [(''PortfolioID'', JStr (digest_string portfolioID)), (''AccountID'', JStr accountID),
              (''Version'', JStr version), (''ValidFrom'', JStr (rfc3339_nano validFrom))]) in
        Inr \<lparr>ab_portfolio = portfolioID, ab_account = accountID, ab_version = version, ab_valid_from = validFrom,
             ab_checksum = state_checksum_acct sha ''account-binding/v1'' raw\<rparr>)"

definition AccountBinding_Validate :: "(string \<Rightarrow> digest) \<Rightarrow> account_binding \<Rightarrow> unit result" where
  "AccountBinding_Validate sha value =
     (case NewAccountBinding sha (ab_portfolio value) (ab_account value) (ab_version value) (ab_valid_from value) of
        Inl _ \<Rightarrow> Inl (Accounting ErrInvalidIngestion)
      | Inr rebuilt \<Rightarrow>
          if ab_checksum rebuilt \<noteq> ab_checksum value then Inl (Accounting ErrInvalidIngestion) else Inr ())"

record ingestion_metadata =
  im_id :: digest
  im_sequence :: nat
  im_checkpoint :: string
  im_source_checksum :: digest
  im_binding :: account_binding

definition NewIngestionMetadata ::
  "(string \<Rightarrow> digest) \<Rightarrow> fill \<Rightarrow> nat \<Rightarrow> string \<Rightarrow> digest \<Rightarrow> account_binding \<Rightarrow> ingestion_metadata result" where
  "NewIngestionMetadata sha f sequence checkpoint0 sourceChecksum binding =
     (let checkpoint = trim_space checkpoint0 in
      if fl_id f = 0 \<or> sequence = 0 \<or> checkpoint = [] \<or> sourceChecksum = 0 \<or>
         AccountBinding_Validate sha binding \<noteq> Inr ()
      then Inl (Accounting ErrInvalidIngestion)
      else bind_r (NewIngestionID sha (digest_string (fl_id f)) checkpoint (digest_string (ab_checksum binding))) (\<lambda>i.
        Inr \<lparr>im_id = i, im_sequence = sequence, im_checkpoint = checkpoint,
             im_source_checksum = sourceChecksum, im_binding = binding\<rparr>))"

record ingestion_progress =
  ip_metadata :: ingestion_metadata
  ip_fill :: digest
  ip_fill_checksum :: digest
  ip_position :: digest
  ip_revision :: nat
  ip_application :: digest
  ip_checkpoint_checksum :: digest
  ip_checksum :: digest
  ip_raw :: string

definition NewIngestionProgress :: "(string \<Rightarrow> digest) \<Rightarrow> ingestion_progress \<Rightarrow> ingestion_progress result" where
  "NewIngestionProgress sha value =
     (if im_id (ip_metadata value) = 0 \<or> ip_fill value = 0 \<or> ip_fill_checksum value = 0 \<or> ip_position value = 0 \<or>
         ip_revision value = 0 \<or> ip_application value = 0 \<or> ip_checkpoint_checksum value = 0
      then Inl (Accounting ErrInvalidIngestion)
      else let raw = marshal (JObj
             [(''ID'', JStr (digest_string (im_id (ip_metadata value)))),
              (''SourceCheckpoint'', JStr (im_checkpoint (ip_metadata value))),
              (''SourceChecksum'', JStr (digest_string (im_source_checksum (ip_metadata value)))),
              (''BindingChecksum'', JStr (digest_string (ab_checksum (im_binding (ip_metadata value))))),
              (''FillID'', JStr (digest_string (ip_fill value))),
              (''FillChecksum'', JStr (digest_string (ip_fill_checksum value))),
              (''PositionID'', JStr (digest_string (ip_position value))),
              (''ApplicationID'', JStr (digest_string (ip_application value))),
              (''CheckpointChecksum'', JStr (digest_string (ip_checkpoint_checksum value))),
              (''SourceSequence'', JInt (int (im_sequence (ip_metadata value)))),
              (''PositionRevision'', JInt (int (ip_revision value)))]) in
        Inr (value\<lparr>ip_checksum := state_checksum_acct sha ''accounting-ingestion-progress/v1'' raw, ip_raw := raw\<rparr>))"

section \<open>The canonical order of fills\<close>

lemma Compare_less: "Compare a b < 0 \<longleftrightarrow>
    (ok_occurred a, ok_received a, ok_fill a) < (ok_occurred b, ok_received b, ok_fill b)"
  by (auto simp: Compare_def digest_string_less)

lemma Compare_greater: "Compare a b > 0 \<longleftrightarrow> Compare b a < 0"
  by (auto simp: Compare_def)

lemma Compare_zero: "Compare a b = 0 \<longleftrightarrow> a = b"
  by (auto simp: Compare_def digest_string_less not_less)

lemma Compare_trans: "Compare a b > 0 \<Longrightarrow> Compare b c > 0 \<Longrightarrow> Compare a c > 0"
  unfolding Compare_greater Compare_less by order

section \<open>What canonical bytes determine\<close>

lemma plain_position_state [simp]: "plain (position_state_string s)"
  by (cases s; simp add: position_state_string_def; code_simp)

lemma money_wire_inject: "marshal (money_wire a) = marshal (money_wire b) \<Longrightarrow> minor a = minor b"
proof -
  assume "marshal (money_wire a) = marshal (money_wire b)"
  from object_inject [OF this [unfolded money_wire_def]] show "minor a = minor b"
    by (simp add: same_fields_def dec_int_inject)
qed

lemma canonicalPosition_determines:
  assumes "canonicalPosition a s = canonicalPosition b t"
  shows "pn_position a = pn_position b" "pn_revision a = pn_revision b" "pn_net a = pn_net b"
    "minor (pn_basis a) = minor (pn_basis b)"
    "pn_bought_quantity a = pn_bought_quantity b" "pn_sold_quantity a = pn_sold_quantity b"
    "minor (pn_bought_value a) = minor (pn_bought_value b)" "minor (pn_sold_value a) = minor (pn_sold_value b)"
    "minor (pn_realized a) = minor (pn_realized b)" "pn_fill_count a = pn_fill_count b"
    "pn_last_fill a = pn_last_fill b" "pn_fill_checksum a = pn_fill_checksum b"
proof -
  have kind: "same_kind (money_wire x) (money_wire y)" for x y by (simp add: money_wire_def)
  have lot: "same_kind (case x of None \<Rightarrow> JNull | Some l \<Rightarrow> lot_wire l) (case y of None \<Rightarrow> JNull | Some l \<Rightarrow> lot_wire l)" for x y
    by (simp add: lot_wire_def kind split: option.splits)
  have "same_fields (position_fields a s) (position_fields b t)"
    by (simp add: same_fields_def position_fields_def kind lot)
  from object_inject [OF assms [unfolded canonicalPosition_def] this]
  have l: "map (marshal \<circ> snd) (position_fields a s) = map (marshal \<circ> snd) (position_fields b t)" .
  have len: "length (position_fields x u) = 24" for x u by (simp add: position_fields_def)
  have at: "marshal (snd (position_fields a s ! n)) = marshal (snd (position_fields b t ! n))" if "n < 24" for n
    using arg_cong [OF l, of "\<lambda>xs. xs ! n"] that by (simp add: len)
  note read = position_fields_def marshal_JStr_plain dec_int_inject
  show "pn_position a = pn_position b" using at [of 1] by (simp add: read)
  show "pn_revision a = pn_revision b" using at [of 5] by (simp add: read)
  show "pn_net a = pn_net b" using at [of 6] by (simp add: read)
  show "minor (pn_basis a) = minor (pn_basis b)" using at [of 8] by (intro money_wire_inject) (simp add: read)
  show "pn_bought_quantity a = pn_bought_quantity b" using at [of 13] by (simp add: read)
  show "pn_sold_quantity a = pn_sold_quantity b" using at [of 14] by (simp add: read)
  show "minor (pn_bought_value a) = minor (pn_bought_value b)" using at [of 9] by (intro money_wire_inject) (simp add: read)
  show "minor (pn_sold_value a) = minor (pn_sold_value b)" using at [of 10] by (intro money_wire_inject) (simp add: read)
  show "minor (pn_realized a) = minor (pn_realized b)" using at [of 11] by (intro money_wire_inject) (simp add: read)
  show "pn_fill_count a = pn_fill_count b" using at [of 19] by (simp add: read)
  show "pn_last_fill a = pn_last_fill b" using at [of 18] by (simp add: read)
  show "pn_fill_checksum a = pn_fill_checksum b" using at [of 20] by (simp add: read)
qed

end
