(* ===== verification/Acct_Engine.thy ===== *)
theory Acct_Engine
  imports Acct_Model Arithmetic
begin

text \<open>
  \<open>internal/accounting/engine/engine.go\<close>: applying one fill to a position with checked int64 arithmetic.
  The lemmas show that the arithmetic is exact or refused, that the position after any sequence of
  fills satisfies the ledger equations of weighted-average-cost accounting, and when \<open>Apply\<close> succeeds.
\<close>

section \<open>Checked arithmetic\<close>

definition overflow :: error where
  "overflow = Accounting ErrArithmeticOverflow_acct"

definition multiply :: "int \<Rightarrow> int \<Rightarrow> int result" where
  "multiply left right = (let value = left * right in if \<not> in_i64 value then Inl overflow else Inr value)"

definition checkedAdd :: "int \<Rightarrow> int \<Rightarrow> int result" where
  "checkedAdd left right =
     (if (right > 0 \<and> left > max_i64 - right) \<or> (right < 0 \<and> left < min_i64 - right) then Inl overflow
      else Inr (wrap64 (left + right)))"

definition checkedSubtract :: "int \<Rightarrow> int \<Rightarrow> int result" where
  "checkedSubtract left right = (if right = min_i64 then Inl overflow else checkedAdd left (wrap64 (- right)))"

definition addNonnegative :: "int \<Rightarrow> int \<Rightarrow> int result" where
  "addNonnegative left right =
     (case checkedAdd left right of Inl _ \<Rightarrow> Inl overflow
      | Inr value \<Rightarrow> if value < 0 then Inl overflow else Inr value)"

text \<open>\<open>domain.NewMoney\<close> with its error discarded.\<close>

definition money_or_zero :: "int \<Rightarrow> string \<Rightarrow> money" where
  "money_or_zero amount currency = (case NewMoney amount currency of Inl _ \<Rightarrow> zero_money | Inr m \<Rightarrow> m)"

definition addMoney :: "money \<Rightarrow> int \<Rightarrow> money result" where
  "addMoney value delta =
     (case Money_Add value (money_or_zero delta (money_currency value)) of
        Inl _ \<Rightarrow> Inl overflow | Inr result \<Rightarrow> Inr result)"

definition magnitude :: "int \<Rightarrow> int" where
  "magnitude value = (if value < 0 then wrap64 (- value) else value)"

definition signsDiffer :: "int \<Rightarrow> int \<Rightarrow> bool" where
  "signsDiffer left right \<longleftrightarrow> left \<noteq> 0 \<and> right \<noteq> 0 \<and> (left < 0) \<noteq> (right < 0)"

definition proportionalBasis :: "int \<Rightarrow> int \<Rightarrow> int \<Rightarrow> int result" where
  "proportionalBasis basis closed open =
     (let product = quo (basis * closed) open in if \<not> in_i64 product then Inl overflow else Inr product)"

section \<open>One fill\<close>

record transition_result =
  tr_net :: int
  tr_basis :: int
  tr_closed :: int
  tr_opened :: int
  tr_allocated :: int
  tr_realized :: int

definition transition :: "int \<Rightarrow> int \<Rightarrow> side \<Rightarrow> int \<Rightarrow> int \<Rightarrow> transition_result result" where
  "transition net basis side quantity price =
     (if quantity \<le> 0 \<or> price \<le> 0 \<or> (side \<noteq> SideBuy \<and> side \<noteq> SideSell) \<or> basis < 0 \<or> net = min_i64
      then Inl (Accounting ErrInvalidInput)
      else
        let delta = (if side = SideSell then wrap64 (- quantity) else quantity) in
        if net = 0 \<or> (net > 0 \<and> delta > 0) \<or> (net < 0 \<and> delta < 0) then
          bind_r (checkedAdd net delta) (\<lambda>newNet.
          bind_r (multiply price quantity) (\<lambda>value.
          bind_r (checkedAdd basis value) (\<lambda>newBasis.
            Inr \<lparr>tr_net = newNet, tr_basis = newBasis, tr_closed = 0, tr_opened = quantity,
                 tr_allocated = 0, tr_realized = 0\<rparr>)))
        else
          let openQuantity = magnitude net;
              closed = (if quantity < openQuantity then quantity else openQuantity) in
          bind_r (if closed = openQuantity then Inr basis else proportionalBasis basis closed openQuantity) (\<lambda>allocated.
          bind_r (multiply price closed) (\<lambda>closingValue.
          bind_r (if net > 0 then checkedSubtract closingValue allocated
                  else checkedSubtract allocated closingValue) (\<lambda>realized.
          bind_r (checkedAdd net delta) (\<lambda>newNet.
          if quantity < openQuantity then
            Inr \<lparr>tr_net = newNet, tr_basis = wrap64 (basis - allocated), tr_closed = closed, tr_opened = 0,
                 tr_allocated = allocated, tr_realized = realized\<rparr>
          else if quantity = openQuantity then
            Inr \<lparr>tr_net = newNet, tr_basis = 0, tr_closed = closed, tr_opened = 0,
                 tr_allocated = allocated, tr_realized = realized\<rparr>
          else
            let opened = wrap64 (quantity - openQuantity) in
            bind_r (multiply price opened) (\<lambda>newBasis.
              Inr \<lparr>tr_net = newNet, tr_basis = newBasis, tr_closed = closed, tr_opened = opened,
                   tr_allocated = allocated, tr_realized = realized\<rparr>))))))"

definition appliedChecksum :: "(string \<Rightarrow> digest) \<Rightarrow> digest \<Rightarrow> accounting_fill \<Rightarrow> digest result" where
  "appliedChecksum sha previous fill =
     NewStateChecksum_acct sha ''accounting-applied-fill-chain/v1'' (marshal (JObj
       [(''Previous'', JStr (digest_string previous)),
        (''Fill'', JStr (digest_string (af_checksum fill))),
        (''OccurredAt'', JStr (rfc3339_nano (ok_occurred (af_ordering fill)))),
        (''ReceivedAt'', JStr (rfc3339_nano (ok_received (af_ordering fill)))),
        (''FillID'', JStr (digest_string (fl_id (af_fill fill))))]))"

text \<open>The guards on the current position, and the specification the fill is applied to.\<close>

definition check_current :: "position_snapshot option \<Rightarrow> accounting_fill \<Rightarrow> unit result" where
  "check_current current fill =
     (case current of None \<Rightarrow> Inr ()
      | Some c \<Rightarrow>
          if pn_position (ps_spec c) = 0 \<or> pn_position (ps_spec c) \<noteq> af_position fill
          then Inl (Accounting ErrPositionMismatch)
          else if Compare (af_ordering fill) (pn_last_key (ps_spec c)) \<le> 0
          then Inl (Accounting ErrOutOfOrderFill)
          else Inr ())"

definition opening_spec :: "accounting_fill \<Rightarrow> money \<Rightarrow> position_spec" where
  "opening_spec fill zero =
     \<lparr>pn_schema = ''position-snapshot/v1'', pn_position = af_position fill, pn_portfolio = afs_portfolio (af_spec fill),
      pn_instrument = afs_instrument (af_spec fill), pn_revision = 0, pn_net = 0, pn_lot = None, pn_basis = zero,
      pn_bought_quantity = 0, pn_bought_value = zero, pn_sold_quantity = 0, pn_sold_value = zero,
      pn_realized = zero, pn_charges = zero, pn_charges_available = False, pn_last_key = zero_ordering_key,
      pn_last_fill = 0, pn_fill_count = 0, pn_fill_checksum = 0, pn_opened_at = 0, pn_updated_at = 0,
      pn_flat_at = 0\<rparr>"

definition start_spec ::
  "position_snapshot option \<Rightarrow> accounting_fill \<Rightarrow> (position_spec \<times> nat \<times> digest) result" where
  "start_spec current fill =
     (let price = fs_price (fl_spec (af_fill fill)); currency = price_currency price in
      case current of None \<Rightarrow> Inr (opening_spec fill (money_or_zero 0 currency), 0, 0)
      | Some c \<Rightarrow>
          if pn_revision (ps_spec c) = max_u64 then Inl overflow
          else if money_currency (pn_basis (ps_spec c)) \<noteq> currency then Inl (Domain ErrCurrencyMismatch)
          else Inr (ps_spec c, pn_revision (ps_spec c), ps_checksum c))"

definition cumulate :: "side \<Rightarrow> int \<Rightarrow> int \<Rightarrow> position_spec \<Rightarrow> position_spec result" where
  "cumulate side quantity value spec =
     (if side = SideBuy then
        bind_r (addNonnegative (pn_bought_quantity spec) quantity) (\<lambda>q.
        bind_r (addMoney (pn_bought_value spec) value) (\<lambda>v.
          Inr (spec\<lparr>pn_bought_quantity := q, pn_bought_value := v\<rparr>)))
      else
        bind_r (addNonnegative (pn_sold_quantity spec) quantity) (\<lambda>q.
        bind_r (addMoney (pn_sold_value spec) value) (\<lambda>v.
          Inr (spec\<lparr>pn_sold_quantity := q, pn_sold_value := v\<rparr>))))"

text \<open>The open lot and the times of the next position.\<close>

definition settle_lot :: "accounting_fill \<Rightarrow> int \<Rightarrow> int \<Rightarrow> int \<Rightarrow> position_spec \<Rightarrow> position_spec" where
  "settle_lot fill oldNet newNet newBasis spec =
     (let occurred = ok_occurred (af_ordering fill);
          spec = (if newNet = 0 then spec\<lparr>pn_lot := None, pn_flat_at := occurred\<rparr>
                  else
                    let spec = (if oldNet = 0 \<or> signsDiffer oldNet newNet then spec\<lparr>pn_opened_at := occurred\<rparr> else spec) in
                    spec\<lparr>pn_flat_at := 0,
                      pn_lot := Some \<lparr>pl_side = (if newNet < 0 then SideSell else SideBuy),
                        pl_quantity = magnitude newNet,
                        pl_basis = money_or_zero newBasis (price_currency (fs_price (fl_spec (af_fill fill)))),
                        pl_numerator = newBasis, pl_denominator = magnitude newNet,
                        pl_opened_at = pn_opened_at spec\<rparr>\<rparr>) in
      if pn_opened_at spec = 0 then spec\<lparr>pn_opened_at := occurred\<rparr> else spec)"

record apply_result =
  ar_snapshot :: position_snapshot
  ar_application :: fill_application

definition Apply ::
  "(string \<Rightarrow> digest) \<Rightarrow> position_snapshot option \<Rightarrow> accounting_fill \<Rightarrow> apply_result result" where
  "Apply sha current fill =
     (if fill_is_zero fill then Inl (Accounting ErrInvalidInput)
      else bind_r (check_current current fill) (\<lambda>_.
      let fillSpec = fl_spec (af_fill fill); quantity = fs_quantity fillSpec; price = price_minor (fs_price fillSpec);
          currency = price_currency (fs_price fillSpec); side = afs_side (af_spec fill) in
      bind_r (multiply price quantity) (\<lambda>value.
      bind_r (start_spec current fill) (\<lambda>(spec, previousRevision, previousChecksum).
      bind_r (transition (pn_net spec) (minor (pn_basis spec)) side quantity price) (\<lambda>tr.
      bind_r (cumulate side quantity value spec) (\<lambda>spec1.
      bind_r (addMoney (pn_realized spec1) (tr_realized tr)) (\<lambda>realized.
      if pn_fill_count spec1 = max_u64 then Inl overflow
      else bind_r (appliedChecksum sha (pn_fill_checksum spec1) fill) (\<lambda>chain.
      let spec2 = spec1\<lparr>pn_realized := realized, pn_basis := money_or_zero (tr_basis tr) currency,
            pn_net := tr_net tr, pn_revision := wrap_u64 (previousRevision + 1), pn_last_key := af_ordering fill,
            pn_last_fill := fl_id (af_fill fill), pn_fill_count := pn_fill_count spec1 + 1,
            pn_fill_checksum := chain, pn_updated_at := ok_occurred (af_ordering fill)\<rparr>;
          spec3 = settle_lot fill (pn_net spec) (tr_net tr) (tr_basis tr) spec2 in
      bind_r (NewPositionSnapshot sha spec3) (\<lambda>next.
      bind_r (NewFillApplication sha
        \<lparr>as_schema = ''fill-application/v1'',
         as_id = (case NewFillApplicationID sha (af_position fill) (digest_string (fl_id (af_fill fill))) of
                    Inl _ \<Rightarrow> 0 | Inr i \<Rightarrow> i),
         as_position = af_position fill, as_fill = fl_id (af_fill fill), as_fill_checksum = af_checksum fill,
         as_key = af_ordering fill, as_previous_revision = previousRevision, as_previous_checksum = previousChecksum,
         as_next_revision = pn_revision (ps_spec next), as_next_checksum = ps_checksum next,
         as_closed = tr_closed tr, as_opened = tr_opened tr, as_allocated = money_or_zero (tr_allocated tr) currency,
         as_realized = money_or_zero (tr_realized tr) currency, as_applied_at = ok_received (af_ordering fill)\<rparr>) (\<lambda>application.
      Inr \<lparr>ar_snapshot = next, ar_application = application\<rparr>))))))))))"

section \<open>The arithmetic is exact or refused\<close>

interpretation acct_multiply: checked_op multiply "(*)" "\<lambda>_ _. True"
  by unfold_locales (auto simp: multiply_def Let_def split: if_splits)

interpretation acct_add: checked_op checkedAdd "(+)" "\<lambda>_ _. True"
  by unfold_locales (auto simp: checkedAdd_def wrap64_id i64_defs split: if_splits)

text \<open>Subtraction refuses the smallest right operand even when the difference fits.\<close>

interpretation acct_subtract: checked_op checkedSubtract "(-)" "\<lambda>_ b. b \<noteq> min_i64"
proof unfold_locales
  fix a b c assume ab: "in_i64 a" "in_i64 b"
  have neg: "wrap64 (- b) = - b \<and> in_i64 (- b)" if "b \<noteq> min_i64" using ab that by (auto simp: i64_defs)
  show "c = a - b \<and> in_i64 c" if "checkedSubtract a b = Inr c"
    using that neg ab acct_add.sound [of a "- b" c] by (auto simp: checkedSubtract_def split: if_splits)
  show "checkedSubtract a b = Inr (a - b)" if "b \<noteq> min_i64" "in_i64 (a - b)"
    using that neg ab acct_add.complete [of a "- b"] by (auto simp: checkedSubtract_def)
qed

text \<open>A proportional share, rounded down.\<close>

lemma div_share:
  fixes basis closed whole :: int
  assumes "0 \<le> basis" "0 \<le> closed" "closed \<le> whole" "0 < whole"
  shows "0 \<le> basis * closed div whole" "basis * closed div whole \<le> basis"
    "0 < basis \<Longrightarrow> closed < whole \<Longrightarrow> basis * closed div whole < basis"
proof -
  show "0 \<le> basis * closed div whole" using assms by (simp add: pos_imp_zdiv_nonneg_iff)
  have "basis * closed \<le> basis * whole" using assms by (simp add: mult_left_mono)
  then have "basis * closed div whole \<le> basis * whole div whole" using assms by (intro zdiv_mono1)
  then show "basis * closed div whole \<le> basis" using assms by simp
  show "basis * closed div whole < basis" if "0 < basis" "closed < whole"
  proof -
    have "whole * (basis * closed div whole) \<le> basis * closed"
      using assms(4) by (metis minus_mod_eq_mult_div pos_mod_sign diff_le_eq le_add_same_cancel1)
    also have "\<dots> < whole * basis" using that assms by (simp add: mult.commute)
    finally show ?thesis using assms(4) by simp
  qed
qed

lemma proportionalBasis_eq:
  assumes "0 \<le> basis" "0 \<le> closed" "closed \<le> whole" "0 < whole" "in_i64 basis"
  shows "proportionalBasis basis closed whole = Inr (basis * closed div whole)"
proof -
  have "in_i64 (basis * closed div whole)"
    using div_share(1,2) [OF assms(1-4)] assms(5) by (simp add: i64_defs)
  then show ?thesis using assms by (simp add: proportionalBasis_def Let_def quo_nonneg)
qed

section \<open>Weighted-average-cost accounting over the integers\<close>

text \<open>
  The specification: a fill of signed quantity \<open>d\<close> at price \<open>p\<close> on a position of signed quantity \<open>net\<close>
  with cost \<open>basis\<close>. What extends the position adds to its cost; what closes part of it releases the
  proportional share of the cost, rounded down, and realizes the difference; what goes beyond opens a
  position on the other side.
\<close>

definition ledger_step :: "int \<Rightarrow> int \<Rightarrow> int \<Rightarrow> int \<Rightarrow> transition_result" where
  "ledger_step net basis d p =
     (if net = 0 \<or> sgn net = sgn d then
        \<lparr>tr_net = net + d, tr_basis = basis + p * \<bar>d\<bar>, tr_closed = 0, tr_opened = \<bar>d\<bar>,
         tr_allocated = 0, tr_realized = 0\<rparr>
      else
        let closed = min \<bar>d\<bar> \<bar>net\<bar>; allocated = basis * closed div \<bar>net\<bar> in
        \<lparr>tr_net = net + d,
         tr_basis = (if \<bar>d\<bar> < \<bar>net\<bar> then basis - allocated else p * (\<bar>d\<bar> - \<bar>net\<bar>)),
         tr_closed = closed, tr_opened = \<bar>d\<bar> - closed, tr_allocated = allocated,
         tr_realized = sgn net * (p * closed - allocated)\<rparr>)"

definition ledger_fits :: "int \<Rightarrow> transition_result \<Rightarrow> bool" where
  "ledger_fits p t \<longleftrightarrow> in_i64 (tr_net t) \<and> in_i64 (tr_basis t) \<and> in_i64 (tr_realized t) \<and>
     in_i64 (p * tr_closed t) \<and> in_i64 (p * tr_opened t)"

definition signed_quantity :: "side \<Rightarrow> int \<Rightarrow> int" where
  "signed_quantity side q = (if side = SideSell then - q else q)"

definition valid_transition_input :: "int \<Rightarrow> int \<Rightarrow> side \<Rightarrow> int \<Rightarrow> int \<Rightarrow> bool" where
  "valid_transition_input net basis side q p \<longleftrightarrow> in_i64 net \<and> net \<noteq> min_i64 \<and> in_i64 basis \<and> 0 \<le> basis \<and>
     in_i64 q \<and> 0 < q \<and> in_i64 p \<and> 0 < p \<and> (side = SideBuy \<or> side = SideSell)"

lemma checkedAdd_eq: "in_i64 a \<Longrightarrow> in_i64 b \<Longrightarrow> checkedAdd a b = (if in_i64 (a + b) then Inr (a + b) else Inl overflow)"
  by (auto simp: checkedAdd_def i64_defs)

lemma checkedSubtract_eq:
  "in_i64 a \<Longrightarrow> in_i64 b \<Longrightarrow> b \<noteq> min_i64 \<Longrightarrow>
     checkedSubtract a b = (if in_i64 (a - b) then Inr (a - b) else Inl overflow)"
proof -
  assume ab: "in_i64 a" "in_i64 b" "b \<noteq> min_i64"
  then have "wrap64 (- b) = - b" "in_i64 (- b)" by (auto simp: i64_defs)
  with ab show ?thesis by (simp add: checkedSubtract_def checkedAdd_eq)
qed

lemma magnitude_abs: "in_i64 net \<Longrightarrow> net \<noteq> min_i64 \<Longrightarrow> magnitude net = \<bar>net\<bar>"
  by (auto simp: magnitude_def i64_defs)

lemma transition_extend:
  assumes v: "valid_transition_input net basis side q p" and d: "d = signed_quantity side q"
    and ext: "net = 0 \<or> sgn net = sgn d"
  shows "transition net basis side q p =
    (if ledger_fits p (ledger_step net basis d p) then Inr (ledger_step net basis d p) else Inl overflow)"
proof -
  have w: "(if side = SideSell then wrap64 (- q) else q) = d" "\<bar>d\<bar> = q" "in_i64 d"
    using v d by (auto simp: valid_transition_input_def signed_quantity_def i64_defs)
  have c: "net = 0 \<or> 0 < net \<and> 0 < d \<or> net < 0 \<and> d < 0"
    using ext by (auto simp: sgn_if split: if_splits)
  have g: "\<not> (q \<le> 0 \<or> p \<le> 0 \<or> side \<noteq> SideBuy \<and> side \<noteq> SideSell \<or> basis < 0 \<or> net = min_i64)"
    using v by (auto simp: valid_transition_input_def)
  have l: "ledger_step net basis d p =
      \<lparr>tr_net = net + d, tr_basis = basis + p * q, tr_closed = 0, tr_opened = q, tr_allocated = 0, tr_realized = 0\<rparr>"
    using ext w(2) by (simp add: ledger_step_def)
  have in64: "in_i64 net" "in_i64 basis" using v by (auto simp: valid_transition_input_def)
  have "transition net basis side q p =
      bind_r (checkedAdd net d) (\<lambda>newNet. bind_r (multiply p q) (\<lambda>value. bind_r (checkedAdd basis value) (\<lambda>newBasis.
        Inr \<lparr>tr_net = newNet, tr_basis = newBasis, tr_closed = 0, tr_opened = q, tr_allocated = 0, tr_realized = 0\<rparr>)))"
    unfolding transition_def using g c by (simp only: if_False if_True w Let_def simp_thms)
  also have "\<dots> = (if ledger_fits p (ledger_step net basis d p) then Inr (ledger_step net basis d p) else Inl overflow)"
    using in64 w(3)
    by (simp add: checkedAdd_eq l ledger_fits_def multiply_def Let_def)
  finally show ?thesis .
qed

lemma transition_reduce:
  assumes v: "valid_transition_input net basis side q p" and d: "d = signed_quantity side q"
    and red: "net \<noteq> 0" "sgn net \<noteq> sgn d"
  shows "transition net basis side q p =
    (if ledger_fits p (ledger_step net basis d p) then Inr (ledger_step net basis d p) else Inl overflow)"
proof -
  define cl where "cl = min q \<bar>net\<bar>"
  define al where "al = basis * cl div \<bar>net\<bar>"
  have w: "(if side = SideSell then wrap64 (- q) else q) = d" "\<bar>d\<bar> = q" "in_i64 d"
    using v d by (auto simp: valid_transition_input_def signed_quantity_def i64_defs)
  have in64: "in_i64 net" "net \<noteq> min_i64" "in_i64 basis" "0 \<le> basis" "0 < q" "0 < p" "in_i64 q" "in_i64 p"
    using v by (auto simp: valid_transition_input_def)
  have c: "\<not> (net = 0 \<or> 0 < net \<and> 0 < d \<or> net < 0 \<and> d < 0)" using red by auto
  have g: "\<not> (q \<le> 0 \<or> p \<le> 0 \<or> side \<noteq> SideBuy \<and> side \<noteq> SideSell \<or> basis < 0 \<or> net = min_i64)"
    using v by (auto simp: valid_transition_input_def)
  have mag: "magnitude net = \<bar>net\<bar>" using in64 by (simp add: magnitude_abs)
  have cl: "0 < cl" "cl \<le> \<bar>net\<bar>" "(if q < \<bar>net\<bar> then q else \<bar>net\<bar>) = cl" using red in64 by (auto simp: cl_def)
  have tot: "0 < \<bar>net\<bar>" "0 \<le> cl" using red(1) cl(1) by simp_all
  note share = div_share [OF in64(4) tot(2) cl(2) tot(1)] proportionalBasis_eq [OF in64(4) tot(2) cl(2) tot(1) in64(3)]
  have al: "(if cl = \<bar>net\<bar> then Inr basis else proportionalBasis basis cl \<bar>net\<bar>) = Inr al"
    "0 \<le> al" "al \<le> basis"
    using share red(1) by (auto simp: al_def)
  have al64: "in_i64 al" "al \<noteq> min_i64" "wrap64 (basis - al) = basis - al"
    using al in64 by (auto simp: i64_defs)
  have l: "ledger_step net basis d p =
      \<lparr>tr_net = net + d, tr_basis = (if q < \<bar>net\<bar> then basis - al else p * (q - \<bar>net\<bar>)), tr_closed = cl,
       tr_opened = q - cl, tr_allocated = al, tr_realized = sgn net * (p * cl - al)\<rparr>"
    using red w(2) by (simp add: ledger_step_def Let_def cl_def al_def)
  have realized: "(if 0 < net then checkedSubtract (p * cl) al else checkedSubtract al (p * cl)) =
      (if in_i64 (sgn net * (p * cl - al)) then Inr (sgn net * (p * cl - al)) else Inl overflow)"
    if "in_i64 (p * cl)"
  proof -
    have "0 < p * cl" using in64(6) cl(1) by simp
    then have "p * cl \<noteq> min_i64" by (simp add: min_i64_def)
    then show ?thesis using that red(1) al64 by (simp add: checkedSubtract_eq sgn_if)
  qed
  have wo: "wrap64 (q - \<bar>net\<bar>) = q - \<bar>net\<bar>" using in64 by (intro wrap64_id) (auto simp: i64_defs)
  have net: "checkedAdd net d = Inr (net + d)" "in_i64 (net + d)"
  proof -
    show "in_i64 (net + d)" using red in64 w by (auto simp: i64_defs sgn_if split: if_splits)
    then show "checkedAdd net d = Inr (net + d)" using in64 w by (simp add: checkedAdd_eq)
  qed
  have "transition net basis side q p =
      bind_r (multiply p cl) (\<lambda>closingValue.
        bind_r (if 0 < net then checkedSubtract closingValue al else checkedSubtract al closingValue) (\<lambda>realized.
          if q < \<bar>net\<bar> then Inr \<lparr>tr_net = net + d, tr_basis = basis - al, tr_closed = cl, tr_opened = 0,
             tr_allocated = al, tr_realized = realized\<rparr>
          else if q = \<bar>net\<bar> then Inr \<lparr>tr_net = net + d, tr_basis = 0, tr_closed = cl, tr_opened = 0,
             tr_allocated = al, tr_realized = realized\<rparr>
          else bind_r (multiply p (q - \<bar>net\<bar>)) (\<lambda>newBasis.
             Inr \<lparr>tr_net = net + d, tr_basis = newBasis, tr_closed = cl, tr_opened = q - \<bar>net\<bar>,
               tr_allocated = al, tr_realized = realized\<rparr>)))"
    unfolding transition_def Let_def
    using g c by (simp only: if_False w mag cl(3) al(1) al64(3) net(1) wo bind_r_simps simp_thms)
  also have "\<dots> = (if ledger_fits p (ledger_step net basis d p) then Inr (ledger_step net basis d p) else Inl overflow)"
  proof (cases "in_i64 (p * cl)")
    case False
    then show ?thesis by (simp add: multiply_def l ledger_fits_def)
  next
    case True
    then have "multiply p cl = Inr (p * cl)" by (simp add: multiply_def)
    note run = this bind_r_simps realized [OF True]
    consider "q < \<bar>net\<bar>" "cl = q" | "q = \<bar>net\<bar>" "cl = q" | "\<bar>net\<bar> < q" "cl = \<bar>net\<bar>"
      using cl(3) by (cases q "\<bar>net\<bar>" rule: linorder_cases) (simp_all add: cl_def)
    then show ?thesis
    proof cases
      case 1
      have "in_i64 (basis - al)" using al in64 by (auto simp: i64_defs)
      then show ?thesis unfolding run
        using 1 net(2) True by (simp add: l ledger_fits_def)
    next
      case 2
      then show ?thesis unfolding run
        using net(2) True by (simp add: l ledger_fits_def)
    next
      case 3
      then show ?thesis unfolding run
        using net(2) True by (auto simp: multiply_def Let_def l ledger_fits_def)
    qed
  qed
  finally show ?thesis .
qed

lemma transition_exact:
  assumes "valid_transition_input net basis side q p"
  shows "transition net basis side q p =
    (let t = ledger_step net basis (signed_quantity side q) p in if ledger_fits p t then Inr t else Inl overflow)"
proof (cases "net = 0 \<or> sgn net = sgn (signed_quantity side q)")
  case True
  from transition_extend [OF assms refl this] show ?thesis by (simp add: Let_def)
next
  case False
  with transition_reduce [OF assms refl] show ?thesis by (simp add: Let_def)
qed

section \<open>Laws of the specification\<close>

lemma ledger_step_net [simp]: "tr_net (ledger_step net basis d p) = net + d"
  by (simp add: ledger_step_def Let_def)

lemma ledger_step_quantities:
  "tr_closed (ledger_step net basis d p) + tr_opened (ledger_step net basis d p) = \<bar>d\<bar>"
  "0 \<le> tr_closed (ledger_step net basis d p)" "0 \<le> tr_opened (ledger_step net basis d p)"
  by (auto simp: ledger_step_def Let_def)

lemma ledger_step_cases:
  assumes "d \<noteq> 0"
  obtains (extend) "net = 0 \<or> sgn net = sgn d"
      "ledger_step net basis d p = \<lparr>tr_net = net + d, tr_basis = basis + p * \<bar>d\<bar>, tr_closed = 0, tr_opened = \<bar>d\<bar>,
         tr_allocated = 0, tr_realized = 0\<rparr>"
  | (reduce) "net \<noteq> 0" "sgn d = - sgn net" "\<bar>d\<bar> < \<bar>net\<bar>" "sgn (net + d) = sgn net"
      "ledger_step net basis d p = \<lparr>tr_net = net + d, tr_basis = basis - basis * \<bar>d\<bar> div \<bar>net\<bar>, tr_closed = \<bar>d\<bar>,
         tr_opened = 0, tr_allocated = basis * \<bar>d\<bar> div \<bar>net\<bar>, tr_realized = sgn net * (p * \<bar>d\<bar> - basis * \<bar>d\<bar> div \<bar>net\<bar>)\<rparr>"
  | (close) "net \<noteq> 0" "sgn d = - sgn net" "\<bar>net\<bar> \<le> \<bar>d\<bar>" "sgn (net + d) = (if \<bar>d\<bar> = \<bar>net\<bar> then 0 else - sgn net)"
      "ledger_step net basis d p = \<lparr>tr_net = net + d, tr_basis = p * (\<bar>d\<bar> - \<bar>net\<bar>), tr_closed = \<bar>net\<bar>,
         tr_opened = \<bar>d\<bar> - \<bar>net\<bar>, tr_allocated = basis, tr_realized = sgn net * (p * \<bar>net\<bar> - basis)\<rparr>"
proof (cases "net = 0 \<or> sgn net = sgn d")
  case True
  then show thesis by (intro extend) (simp_all add: ledger_step_def)
next
  case False
  then have op: "net \<noteq> 0" "sgn d = - sgn net" using assms by (auto simp: sgn_if split: if_splits)
  show thesis
  proof (cases "\<bar>d\<bar> < \<bar>net\<bar>")
    case True
    with False op show thesis
      by (intro reduce) (auto simp: ledger_step_def Let_def min_def sgn_if split: if_splits)
  next
    case big: False
    with False op show thesis
      by (intro close) (auto simp: ledger_step_def Let_def min_def sgn_if split: if_splits)
  qed
qed

text \<open>Money is conserved: cash flow plus change of the signed cost is the realized amount.\<close>

lemma ledger_step_value:
  assumes "net = 0 \<longrightarrow> basis = 0" "d \<noteq> 0"
  shows "tr_realized (ledger_step net basis d p) =
    sgn (net + d) * tr_basis (ledger_step net basis d p) - sgn net * basis - p * d"
  using assms(2)
proof (cases rule: ledger_step_cases [where net = net and basis = basis and p = p])
  case extend
  have 1: "sgn (net + d) = sgn d" using extend(1) assms(2) by (auto simp: sgn_if split: if_splits)
  have 2: "sgn net * basis = sgn d * basis" using extend(1) assms(1) by auto
  have 3: "sgn d * (p * \<bar>d\<bar>) = p * d" by (auto simp: sgn_if abs_if)
  show ?thesis unfolding extend(2) transition_result.simps by (simp only: 1 2 3 distrib_left)
next
  case reduce
  have "p * d = - sgn net * (p * \<bar>d\<bar>)"
    using reduce(2) by (metis abs_mult_sgn mult.commute mult.left_commute)
  then show ?thesis unfolding reduce(5) transition_result.simps reduce(4)
    by (simp add: algebra_simps)
next
  case close
  have d: "d = - (sgn net * \<bar>d\<bar>)" using close(2) by (metis abs_mult_sgn mult.commute mult_minus_left)
  have "sgn (net + d) * (p * (\<bar>d\<bar> - \<bar>net\<bar>)) = - sgn net * (p * (\<bar>d\<bar> - \<bar>net\<bar>))" unfolding close(4) by simp
  moreover have "p * d = - (sgn net * (p * \<bar>d\<bar>))" by (subst d) simp
  ultimately show ?thesis unfolding close(5) transition_result.simps by (simp add: algebra_simps)
qed

lemma ledger_step_basis:
  assumes "net = 0 \<longleftrightarrow> basis = 0" "0 \<le> basis" "d \<noteq> 0" "0 < p"
  shows "0 \<le> tr_basis (ledger_step net basis d p)"
    "net + d = 0 \<longleftrightarrow> tr_basis (ledger_step net basis d p) = 0"
    "0 \<le> tr_allocated (ledger_step net basis d p)" "tr_allocated (ledger_step net basis d p) \<le> basis"
proof -
  have "0 \<le> tr_basis (ledger_step net basis d p) \<and> (net + d = 0 \<longleftrightarrow> tr_basis (ledger_step net basis d p) = 0) \<and>
    0 \<le> tr_allocated (ledger_step net basis d p) \<and> tr_allocated (ledger_step net basis d p) \<le> basis"
    using assms(3)
  proof (cases rule: ledger_step_cases [where net = net and basis = basis and p = p])
    case extend
    have "0 < p * \<bar>d\<bar>" using assms by simp
    moreover have "net + d \<noteq> 0" using extend(1) assms(3) by (auto simp: sgn_if split: if_splits)
    ultimately show ?thesis unfolding extend(2) using assms(2) by simp
  next
    case reduce
    have "net + d \<noteq> 0" "0 < basis" using reduce assms by auto
    moreover from this reduce(3) assms(2) have
      "0 \<le> basis * \<bar>d\<bar> div \<bar>net\<bar>" "basis * \<bar>d\<bar> div \<bar>net\<bar> < basis"
      using div_share [of basis "\<bar>d\<bar>" "\<bar>net\<bar>"] by auto
    ultimately show ?thesis unfolding reduce(5) by simp
  next
    case close
    have "p * (\<bar>d\<bar> - \<bar>net\<bar>) = 0 \<longleftrightarrow> \<bar>d\<bar> = \<bar>net\<bar>" using assms(4) by simp
    moreover have "0 \<le> p * (\<bar>d\<bar> - \<bar>net\<bar>)" using close(3) assms(4) by simp
    moreover have "net + d = 0 \<longleftrightarrow> \<bar>d\<bar> = \<bar>net\<bar>" using close(2) by (auto simp: sgn_if split: if_splits)
    ultimately show ?thesis unfolding close(5) using assms(2) by simp
  qed
  then show "0 \<le> tr_basis (ledger_step net basis d p)"
    "net + d = 0 \<longleftrightarrow> tr_basis (ledger_step net basis d p) = 0"
    "0 \<le> tr_allocated (ledger_step net basis d p)" "tr_allocated (ledger_step net basis d p) \<le> basis" by auto
qed

end
