(* ===== verification/Acct_Ledger.thy ===== *)
theory Acct_Ledger
  imports Acct_Engine
begin

text \<open>
  Positions over any sequence of fills: the equations that \<open>Apply\<close> keeps (quantities, cash flows,
  realized amount and cost of the open lot), that it refines the integer specification
  \<open>ledger_step\<close>, that fills enter in strictly increasing canonical order, and when it succeeds.
\<close>

section \<open>Fills as values\<close>

text \<open>
  What holds of an \<open>AccountingFill\<close>: built by its constructor from a fill whose quantity and price are
  int64 values and whose currency is one that \<open>NewPrice\<close> accepted.
\<close>

abbreviation fill_qty :: "accounting_fill \<Rightarrow> int" where
  "fill_qty f \<equiv> fs_quantity (fl_spec (af_fill f))"

abbreviation fill_price :: "accounting_fill \<Rightarrow> int" where
  "fill_price f \<equiv> price_minor (fs_price (fl_spec (af_fill f)))"

abbreviation fill_currency :: "accounting_fill \<Rightarrow> string" where
  "fill_currency f \<equiv> price_currency (fs_price (fl_spec (af_fill f)))"

abbreviation fill_side :: "accounting_fill \<Rightarrow> side" where
  "fill_side f \<equiv> afs_side (af_spec f)"

definition fill_delta :: "accounting_fill \<Rightarrow> int" where
  "fill_delta f = signed_quantity (fill_side f) (fill_qty f)"

definition fill_built :: "(string \<Rightarrow> digest) \<Rightarrow> accounting_fill \<Rightarrow> bool" where
  "fill_built sha f \<longleftrightarrow> (\<exists>spec. NewAccountingFill sha spec = Inr f) \<and> in_i64 (fill_qty f) \<and> in_i64 (fill_price f) \<and>
     NewCurrency (fill_currency f) = Inr (fill_currency f)"

lemma NewAccountingFill_Inr:
  "NewAccountingFill sha spec = Inr f \<Longrightarrow>
     (fill_side f = SideBuy \<or> fill_side f = SideSell) \<and> 0 < fill_price f \<and> 0 < fill_qty f \<and>
     \<not> key_is_zero (af_ordering f) \<and> ok_fill (af_ordering f) = fl_id (af_fill f) \<and>
     ok_occurred (af_ordering f) \<noteq> 0 \<and> ok_received (af_ordering f) \<noteq> 0 \<and> fl_id (af_fill f) \<noteq> 0 \<and>
     afs_portfolio (af_spec f) \<noteq> 0 \<and> afs_instrument (af_spec f) \<noteq> 0 \<and>
     NewPositionID sha (digest_string (afs_portfolio (af_spec f))) (digest_string (afs_instrument (af_spec f))) =
       Inr (af_position f) \<and>
     af_checksum f = state_checksum_acct sha ''accounting-fill-checksum/v1'' (af_raw f) \<and>
     af_raw f = canonicalAccountingFill (af_spec f) (af_position f)"
  by (auto simp: NewAccountingFill_def Let_def NewFillOrderingKey_def key_is_zero_def quantity_is_valid_def
      split: if_splits)

lemma fill_built_facts:
  assumes "fill_built sha f"
  shows "fill_side f = SideBuy \<or> fill_side f = SideSell" "0 < fill_price f" "0 < fill_qty f"
    "in_i64 (fill_price f)" "in_i64 (fill_qty f)" "\<bar>fill_delta f\<bar> = fill_qty f" "fill_delta f \<noteq> 0"
    "NewCurrency (fill_currency f) = Inr (fill_currency f)"
proof -
  from assms obtain spec where "NewAccountingFill sha spec = Inr f" by (auto simp: fill_built_def)
  note f = NewAccountingFill_Inr [OF this]
  show "fill_side f = SideBuy \<or> fill_side f = SideSell" "0 < fill_price f" "0 < fill_qty f"
    using f by blast+
  then show "\<bar>fill_delta f\<bar> = fill_qty f" "fill_delta f \<noteq> 0"
    by (auto simp: fill_delta_def signed_quantity_def)
  show "in_i64 (fill_price f)" "in_i64 (fill_qty f)" "NewCurrency (fill_currency f) = Inr (fill_currency f)"
    using assms by (auto simp: fill_built_def)
qed

section \<open>The ledger equations\<close>

definition spec_ok :: "string \<Rightarrow> position_spec \<Rightarrow> bool" where
  "spec_ok cur s \<longleftrightarrow>
     (\<forall>m \<in> {pn_basis s, pn_bought_value s, pn_sold_value s, pn_realized s, pn_charges s}.
        money_wf m \<and> money_currency m = cur) \<and>
     in_i64 (pn_net s) \<and> pn_net s \<noteq> min_i64 \<and>
     in_i64 (pn_bought_quantity s) \<and> 0 \<le> pn_bought_quantity s \<and>
     in_i64 (pn_sold_quantity s) \<and> 0 \<le> pn_sold_quantity s \<and>
     0 \<le> minor (pn_bought_value s) \<and> 0 \<le> minor (pn_sold_value s) \<and> 0 \<le> minor (pn_charges s) \<and>
     0 \<le> minor (pn_basis s) \<and> (pn_net s = 0 \<longleftrightarrow> minor (pn_basis s) = 0) \<and>
     pn_revision s = pn_fill_count s \<and> pn_fill_count s \<le> max_u64"

definition ledger_ok :: "position_spec \<Rightarrow> bool" where
  "ledger_ok s \<longleftrightarrow> pn_net s = pn_bought_quantity s - pn_sold_quantity s \<and>
     minor (pn_realized s) =
       minor (pn_sold_value s) - minor (pn_bought_value s) + sgn (pn_net s) * minor (pn_basis s)"

text \<open>
  A position snapshot the engine produced: accepted by its constructor, with the ledger equations.
\<close>

definition position_ok :: "(string \<Rightarrow> digest) \<Rightarrow> position_snapshot \<Rightarrow> bool" where
  "position_ok sha ps \<longleftrightarrow> (\<exists>spec. NewPositionSnapshot sha spec = Inr ps) \<and>
     spec_ok (money_currency (pn_basis (ps_spec ps))) (ps_spec ps) \<and> ledger_ok (ps_spec ps) \<and>
     pn_updated_at (ps_spec ps) = ok_occurred (pn_last_key (ps_spec ps)) \<and>
     pn_schema (ps_spec ps) = ''position-snapshot/v1''"

lemma NewPositionSnapshot_Inr:
  "NewPositionSnapshot sha s = Inr ps \<Longrightarrow>
     ps_spec ps = s\<lparr>pn_schema := trim_space (pn_schema s)\<rparr> \<and> lot_matches (ps_spec ps) \<and>
     pn_revision s \<noteq> 0 \<and> pn_position s \<noteq> 0 \<and> pn_portfolio s \<noteq> 0 \<and> pn_instrument s \<noteq> 0 \<and> pn_opened_at s \<noteq> 0 \<and>
     pn_opened_at s \<le> pn_updated_at s \<and> trim_space (pn_schema s) \<noteq> [] \<and> \<not> key_is_zero (pn_last_key s) \<and>
     NewPositionID sha (digest_string (pn_portfolio s)) (digest_string (pn_instrument s)) = Inr (pn_position s) \<and>
     ps_state ps = position_state_of (pn_net s) \<and> ps_raw ps = canonicalPosition (ps_spec ps) (ps_state ps) \<and>
     ps_checksum ps = state_checksum_acct sha ''accounting-position-state/v1'' (ps_raw ps)"
  by (auto simp: NewPositionSnapshot_def Let_def split: if_splits)

lemma trim_position_schema: "trim_space ''position-snapshot/v1'' = ''position-snapshot/v1''"
  by code_simp

lemma schema_same: "pn_schema s = x \<Longrightarrow> s\<lparr>pn_schema := x\<rparr> = (s :: position_spec)"
  by auto

text \<open>The checked additions on well-formed amounts.\<close>

lemma money_or_zero_eq: "NewCurrency c = Inr c \<Longrightarrow> money_or_zero a c = \<lparr>minor = a, money_currency = c\<rparr>"
  by (simp add: money_or_zero_def NewMoney_def)

lemma addMoney_eq:
  assumes "money_wf m" "in_i64 delta"
  shows "addMoney m delta = (if in_i64 (minor m + delta)
    then Inr \<lparr>minor = minor m + delta, money_currency = money_currency m\<rparr> else Inl overflow)"
proof -
  have c: "NewCurrency (money_currency m) = Inr (money_currency m)" "in_i64 (minor m)"
    using assms by (auto simp: money_wf_def)
  then have "money_currency m \<noteq> []" using assms by simp
  with c assms show ?thesis by (simp add: addMoney_def money_or_zero_eq Money_Add_iff)
qed

lemma addNonnegative_eq:
  "in_i64 a \<Longrightarrow> in_i64 b \<Longrightarrow> 0 \<le> a \<Longrightarrow> 0 \<le> b \<Longrightarrow>
     addNonnegative a b = (if in_i64 (a + b) then Inr (a + b) else Inl overflow)"
  by (simp add: addNonnegative_def checkedAdd_eq)

lemma settle_lot_fields [simp]:
  "pn_schema (settle_lot f a b c s) = pn_schema s" "pn_position (settle_lot f a b c s) = pn_position s"
  "pn_portfolio (settle_lot f a b c s) = pn_portfolio s" "pn_instrument (settle_lot f a b c s) = pn_instrument s"
  "pn_revision (settle_lot f a b c s) = pn_revision s" "pn_net (settle_lot f a b c s) = pn_net s"
  "pn_basis (settle_lot f a b c s) = pn_basis s"
  "pn_bought_quantity (settle_lot f a b c s) = pn_bought_quantity s"
  "pn_bought_value (settle_lot f a b c s) = pn_bought_value s"
  "pn_sold_quantity (settle_lot f a b c s) = pn_sold_quantity s"
  "pn_sold_value (settle_lot f a b c s) = pn_sold_value s" "pn_realized (settle_lot f a b c s) = pn_realized s"
  "pn_charges (settle_lot f a b c s) = pn_charges s"
  "pn_charges_available (settle_lot f a b c s) = pn_charges_available s"
  "pn_last_key (settle_lot f a b c s) = pn_last_key s" "pn_last_fill (settle_lot f a b c s) = pn_last_fill s"
  "pn_fill_count (settle_lot f a b c s) = pn_fill_count s"
  "pn_fill_checksum (settle_lot f a b c s) = pn_fill_checksum s"
  "pn_updated_at (settle_lot f a b c s) = pn_updated_at s"
  by (simp_all add: settle_lot_def Let_def)

section \<open>The position a fill starts from\<close>

definition base_spec :: "position_snapshot option \<Rightarrow> accounting_fill \<Rightarrow> position_spec" where
  "base_spec current f = (case current of
     None \<Rightarrow> opening_spec f (money_or_zero 0 (fill_currency f)) | Some c \<Rightarrow> ps_spec c)"

definition current_ok :: "(string \<Rightarrow> digest) \<Rightarrow> position_snapshot option \<Rightarrow> bool" where
  "current_ok sha current \<longleftrightarrow> (\<forall>c. current = Some c \<longrightarrow> position_ok sha c)"

lemma start_spec_Inr:
  assumes "start_spec current f = Inr (spec, pr, pc)" "fill_built sha f" "current_ok sha current"
  shows "spec = base_spec current f" "pr = pn_revision spec" "spec_ok (fill_currency f) spec" "ledger_ok spec"
    "pr < max_u64"
proof -
  have "spec = base_spec current f \<and> pr = pn_revision spec \<and> spec_ok (fill_currency f) spec \<and> ledger_ok spec \<and>
    pr < max_u64"
  proof (cases current)
    case None
    have c: "NewCurrency (fill_currency f) = Inr (fill_currency f)" using assms(2) by (rule fill_built_facts)
    with None assms(1) show ?thesis
      by (auto simp: start_spec_def Let_def base_spec_def opening_spec_def spec_ok_def ledger_ok_def
          money_or_zero_eq money_wf_def min_i64_def max_u64_def)
  next
    case (Some c)
    with assms(3) have "position_ok sha c" by (simp add: current_ok_def)
    with Some assms(1) show ?thesis
      by (auto simp: start_spec_def Let_def base_spec_def position_ok_def spec_ok_def split: if_splits)
  qed
  then show "spec = base_spec current f" "pr = pn_revision spec" "spec_ok (fill_currency f) spec" "ledger_ok spec"
    "pr < max_u64" by auto
qed

section \<open>The effect of one fill\<close>

lemma Apply_Inr:
  assumes "Apply sha current f = Inr r"
  obtains spec pr pc val tr spec1 realized chain where
    "\<not> fill_is_zero f" "check_current current f = Inr ()"
    "multiply (fill_price f) (fill_qty f) = Inr val"
    "start_spec current f = Inr (spec, pr, pc)"
    "transition (pn_net spec) (minor (pn_basis spec)) (fill_side f) (fill_qty f) (fill_price f) = Inr tr"
    "cumulate (fill_side f) (fill_qty f) val spec = Inr spec1"
    "addMoney (pn_realized spec1) (tr_realized tr) = Inr realized"
    "pn_fill_count spec1 \<noteq> max_u64"
    "appliedChecksum sha (pn_fill_checksum spec1) f = Inr chain"
    "NewPositionSnapshot sha (settle_lot f (pn_net spec) (tr_net tr) (tr_basis tr)
       (spec1\<lparr>pn_realized := realized, pn_basis := money_or_zero (tr_basis tr) (fill_currency f),
         pn_net := tr_net tr, pn_revision := wrap_u64 (pr + 1), pn_last_key := af_ordering f,
         pn_last_fill := fl_id (af_fill f), pn_fill_count := pn_fill_count spec1 + 1,
         pn_fill_checksum := chain, pn_updated_at := ok_occurred (af_ordering f)\<rparr>)) = Inr (ar_snapshot r)"
  using assms
  by (auto simp: Apply_def Let_def split: if_splits)

definition cumulated :: "accounting_fill \<Rightarrow> position_spec \<Rightarrow> position_spec" where
  "cumulated f s = (let v = fill_price f * fill_qty f; cur = fill_currency f in
     if fill_side f = SideBuy
     then s\<lparr>pn_bought_quantity := pn_bought_quantity s + fill_qty f,
            pn_bought_value := \<lparr>minor = minor (pn_bought_value s) + v, money_currency = cur\<rparr>\<rparr>
     else s\<lparr>pn_sold_quantity := pn_sold_quantity s + fill_qty f,
            pn_sold_value := \<lparr>minor = minor (pn_sold_value s) + v, money_currency = cur\<rparr>\<rparr>)"

text \<open>The exact totals that have to fit into an int64.\<close>

definition totals_fit :: "accounting_fill \<Rightarrow> position_spec \<Rightarrow> bool" where
  "totals_fit f s \<longleftrightarrow> (let v = fill_price f * fill_qty f in
     in_i64 v \<and>
     (if fill_side f = SideBuy then in_i64 (pn_bought_quantity s + fill_qty f) \<and> in_i64 (minor (pn_bought_value s) + v)
      else in_i64 (pn_sold_quantity s + fill_qty f) \<and> in_i64 (minor (pn_sold_value s) + v)))"

lemma cumulate_eq:
  assumes "fill_built sha f" "spec_ok (fill_currency f) s" "in_i64 (fill_price f * fill_qty f)"
  shows "cumulate (fill_side f) (fill_qty f) (fill_price f * fill_qty f) s =
    (if totals_fit f s then Inr (cumulated f s) else Inl overflow)"
proof -
  have q: "in_i64 (fill_qty f)" "0 \<le> fill_qty f" using fill_built_facts(3,5) [OF assms(1)] by auto
  show ?thesis
    using assms(2,3) q
    by (auto simp: cumulate_def cumulated_def totals_fit_def Let_def spec_ok_def addNonnegative_eq addMoney_eq)
qed

lemma cumulated_fields [simp]:
  "pn_realized (cumulated f s) = pn_realized s" "pn_fill_count (cumulated f s) = pn_fill_count s"
  "pn_fill_checksum (cumulated f s) = pn_fill_checksum s" "pn_position (cumulated f s) = pn_position s"
  "pn_portfolio (cumulated f s) = pn_portfolio s" "pn_instrument (cumulated f s) = pn_instrument s"
  "pn_schema (cumulated f s) = pn_schema s" "pn_opened_at (cumulated f s) = pn_opened_at s"
  "pn_charges (cumulated f s) = pn_charges s"
  by (simp_all add: cumulated_def Let_def)

abbreviation fill_step :: "accounting_fill \<Rightarrow> position_spec \<Rightarrow> transition_result" where
  "fill_step f s \<equiv> ledger_step (pn_net s) (minor (pn_basis s)) (fill_delta f) (fill_price f)"

text \<open>The specification handed to \<open>NewPositionSnapshot\<close>.\<close>

definition next_spec :: "accounting_fill \<Rightarrow> digest \<Rightarrow> position_spec \<Rightarrow> position_spec" where
  "next_spec f chain s = (let t = fill_step f s in
     settle_lot f (pn_net s) (tr_net t) (tr_basis t)
       ((cumulated f s)\<lparr>pn_realized := \<lparr>minor = minor (pn_realized s) + tr_realized t, money_currency = fill_currency f\<rparr>,
         pn_basis := \<lparr>minor = tr_basis t, money_currency = fill_currency f\<rparr>,
         pn_net := tr_net t, pn_revision := Suc (pn_revision s), pn_last_key := af_ordering f,
         pn_last_fill := fl_id (af_fill f), pn_fill_count := Suc (pn_fill_count s),
         pn_fill_checksum := chain, pn_updated_at := ok_occurred (af_ordering f)\<rparr>))"

text \<open>Every intermediate and final amount of the fill fits.\<close>

definition fill_fits :: "accounting_fill \<Rightarrow> position_spec \<Rightarrow> bool" where
  "fill_fits f s \<longleftrightarrow> totals_fit f s \<and> ledger_fits (fill_price f) (fill_step f s) \<and>
     in_i64 (minor (pn_realized s) + tr_realized (fill_step f s))"

lemma fill_input:
  assumes "fill_built sha f" "spec_ok (fill_currency f) s"
  shows "valid_transition_input (pn_net s) (minor (pn_basis s)) (fill_side f) (fill_qty f) (fill_price f)"
  using assms(2) fill_built_facts [OF assms(1)]
  by (auto simp: valid_transition_input_def spec_ok_def money_wf_def)

text \<open>
  One accepted fill refines one step of the specification, adds its quantity and value to the side it is
  on, and moves revision and fill count on by one.
\<close>

definition applied :: "accounting_fill \<Rightarrow> position_spec \<Rightarrow> position_spec \<Rightarrow> bool" where
  "applied f s s' \<longleftrightarrow>
     (let t = ledger_step (pn_net s) (minor (pn_basis s)) (fill_delta f) (fill_price f); v = fill_price f * fill_qty f in
      pn_net s' = tr_net t \<and> minor (pn_basis s') = tr_basis t \<and>
      minor (pn_realized s') = minor (pn_realized s) + tr_realized t \<and>
      pn_bought_quantity s' = pn_bought_quantity s + (if fill_side f = SideBuy then fill_qty f else 0) \<and>
      pn_sold_quantity s' = pn_sold_quantity s + (if fill_side f = SideBuy then 0 else fill_qty f) \<and>
      minor (pn_bought_value s') = minor (pn_bought_value s) + (if fill_side f = SideBuy then v else 0) \<and>
      minor (pn_sold_value s') = minor (pn_sold_value s) + (if fill_side f = SideBuy then 0 else v) \<and>
      pn_revision s' = Suc (pn_revision s) \<and> pn_fill_count s' = Suc (pn_fill_count s) \<and>
      pn_last_key s' = af_ordering f \<and> pn_last_fill s' = fl_id (af_fill f) \<and>
      pn_position s' = pn_position s)"

lemma next_spec_ok:
  assumes f: "fill_built sha f" and ok: "spec_ok (fill_currency f) s" and fits: "fill_fits f s"
    and net: "tr_net (fill_step f s) \<noteq> min_i64" and cnt: "pn_fill_count s < max_u64"
  shows "applied f s (next_spec f chain s)" "spec_ok (fill_currency f) (next_spec f chain s)"
proof -
  define t where "t = fill_step f s"
  note fb = fill_built_facts [OF f]
  have pv: "0 \<le> fill_price f * fill_qty f" using fb(2,3) by simp
  have basis: "0 \<le> tr_basis t" "tr_net t = 0 \<longleftrightarrow> tr_basis t = 0"
    using ledger_step_basis [of "pn_net s" "minor (pn_basis s)" "fill_delta f" "fill_price f"] ok fb(2,7)
    by (auto simp: t_def spec_ok_def)
  show "applied f s (next_spec f chain s)"
    unfolding applied_def next_spec_def t_def [symmetric] Let_def settle_lot_fields
    by (simp add: cumulated_def Let_def)
  show "spec_ok (fill_currency f) (next_spec f chain s)"
    using ok fits net cnt pv basis fb(3,8) unfolding next_spec_def t_def [symmetric] Let_def
    by (auto simp: spec_ok_def cumulated_def fill_fits_def totals_fit_def ledger_fits_def money_wf_def Let_def t_def [symmetric])
qed

text \<open>\<open>Apply\<close> with every checked step evaluated.\<close>

lemma Apply_next:
  assumes ap: "Apply sha current f = Inr r" and f: "fill_built sha f" and cur: "current_ok sha current"
  obtains chain where "fill_fits f (base_spec current f)" "spec_ok (fill_currency f) (base_spec current f)"
    "ledger_ok (base_spec current f)" "pn_fill_count (base_spec current f) < max_u64"
    "NewPositionSnapshot sha (next_spec f chain (base_spec current f)) = Inr (ar_snapshot r)"
  using ap
proof (rule Apply_Inr)
  fix spec spec1 :: position_spec and tr :: transition_result and realized :: money and pr pc val chain
  assume val: "multiply (fill_price f) (fill_qty f) = Inr val" and st: "start_spec current f = Inr (spec, pr, pc)"
    and tr: "transition (pn_net spec) (minor (pn_basis spec)) (fill_side f) (fill_qty f) (fill_price f) = Inr tr"
    and cu: "cumulate (fill_side f) (fill_qty f) val spec = Inr spec1"
    and re: "addMoney (pn_realized spec1) (tr_realized tr) = Inr realized"
    and cnt: "pn_fill_count spec1 \<noteq> max_u64"
    and ps: "NewPositionSnapshot sha (settle_lot f (pn_net spec) (tr_net tr) (tr_basis tr)
       (spec1\<lparr>pn_realized := realized, pn_basis := money_or_zero (tr_basis tr) (fill_currency f),
         pn_net := tr_net tr, pn_revision := wrap_u64 (pr + 1), pn_last_key := af_ordering f,
         pn_last_fill := fl_id (af_fill f), pn_fill_count := pn_fill_count spec1 + 1,
         pn_fill_checksum := chain, pn_updated_at := ok_occurred (af_ordering f)\<rparr>)) = Inr (ar_snapshot r)"
  note sp = start_spec_Inr [OF st f cur]
  have v: "val = fill_price f * fill_qty f" "in_i64 (fill_price f * fill_qty f)"
    using val by (auto simp: multiply_def Let_def split: if_splits)
  have t: "tr = fill_step f spec" "ledger_fits (fill_price f) (fill_step f spec)"
    using tr unfolding transition_exact [OF fill_input [OF f sp(3)]]
    by (auto simp: fill_delta_def Let_def split: if_splits)
  have c: "spec1 = cumulated f spec" "totals_fit f spec"
    using cu unfolding v(1) cumulate_eq [OF f sp(3) v(2)] by (auto split: if_splits)
  have "money_wf (pn_realized spec)" "money_currency (pn_realized spec) = fill_currency f"
    "in_i64 (tr_realized (fill_step f spec))"
    using sp(3) t(2) by (auto simp: spec_ok_def ledger_fits_def)
  with re t(1) c(1) have r: "in_i64 (minor (pn_realized spec) + tr_realized (fill_step f spec))"
    "realized = \<lparr>minor = minor (pn_realized spec) + tr_realized (fill_step f spec), money_currency = fill_currency f\<rparr>"
    by (auto simp: addMoney_eq split: if_splits)
  have "fill_fits f spec" using t c r by (simp add: fill_fits_def)
  moreover have "pn_fill_count spec < max_u64" using cnt c(1) sp(3) by (simp add: spec_ok_def)
  moreover have "NewPositionSnapshot sha (next_spec f chain spec) = Inr (ar_snapshot r)"
    using ps sp(2,5) fill_built_facts(8) [OF f]
    by (simp add: next_spec_def Let_def t(1) c(1) r(2) money_or_zero_eq)
  ultimately show thesis using that sp by blast
qed

lemma Apply_effect:
  assumes ap: "Apply sha current f = Inr r" and f: "fill_built sha f" and cur: "current_ok sha current"
  shows "applied f (base_spec current f) (ps_spec (ar_snapshot r)) \<and>
    spec_ok (fill_currency f) (ps_spec (ar_snapshot r)) \<and>
    pn_updated_at (ps_spec (ar_snapshot r)) = ok_occurred (af_ordering f) \<and>
    (\<exists>spec. NewPositionSnapshot sha spec = Inr (ar_snapshot r)) \<and>
    pn_schema (ps_spec (ar_snapshot r)) = ''position-snapshot/v1''"
  using assms
proof (rule Apply_next)
  fix chain
  let ?s = "base_spec current f"
  assume a: "fill_fits f ?s" "spec_ok (fill_currency f) ?s" "pn_fill_count ?s < max_u64"
    and ps: "NewPositionSnapshot sha (next_spec f chain ?s) = Inr (ar_snapshot r)"
  have "pn_schema ?s = ''position-snapshot/v1''"
    using cur by (cases current) (auto simp: base_spec_def opening_spec_def current_ok_def position_ok_def)
  then have "pn_schema (ps_spec (ar_snapshot r)) = ''position-snapshot/v1''"
    using NewPositionSnapshot_Inr [OF ps] by (simp add: next_spec_def Let_def trim_position_schema)
  moreover have "pn_net (next_spec f chain ?s) = tr_net (fill_step f ?s)" "pn_updated_at (next_spec f chain ?s) = ok_occurred (af_ordering f)"
    by (simp_all add: next_spec_def Let_def)
  moreover from ps have "pn_net (next_spec f chain ?s) \<noteq> min_i64"
    by (auto simp: NewPositionSnapshot_def Let_def split: if_splits)
  ultimately show ?thesis
    using next_spec_ok [OF f a(2,1) _ a(3)] NewPositionSnapshot_Inr [OF ps] ps
    by (auto simp: applied_def spec_ok_def Let_def)
qed

text \<open>The ledger equations survive.\<close>

lemma applied_ledger:
  assumes "applied f s s'" "ledger_ok s" "pn_net s = 0 \<longrightarrow> minor (pn_basis s) = 0" "fill_built sha f"
  shows "ledger_ok s'"
proof -
  note fb = fill_built_facts [OF assms(4)]
  have "tr_realized (ledger_step (pn_net s) (minor (pn_basis s)) (fill_delta f) (fill_price f)) =
      sgn (pn_net s + fill_delta f) *
        tr_basis (ledger_step (pn_net s) (minor (pn_basis s)) (fill_delta f) (fill_price f)) -
      sgn (pn_net s) * minor (pn_basis s) - fill_price f * fill_delta f"
    by (rule ledger_step_value [OF assms(3) fb(7)])
  with assms(1,2) fb(1) show ?thesis
    by (auto simp: applied_def ledger_ok_def Let_def fill_delta_def signed_quantity_def)
qed

lemma Apply_ok:
  assumes "Apply sha current f = Inr r" "fill_built sha f" "current_ok sha current"
  shows "position_ok sha (ar_snapshot r) \<and> applied f (base_spec current f) (ps_spec (ar_snapshot r))"
proof -
  note e = Apply_effect [OF assms]
  from assms(1) obtain spec pr pc where st: "start_spec current f = Inr (spec, pr, pc)" by (rule Apply_Inr)
  note sp = start_spec_Inr [OF st assms(2,3)]
  have "ledger_ok (ps_spec (ar_snapshot r))"
  proof (rule applied_ledger)
    show "applied f (base_spec current f) (ps_spec (ar_snapshot r))" "fill_built sha f" using e assms(2) by auto
    show "ledger_ok (base_spec current f)" using sp(1,4) by simp
    show "pn_net (base_spec current f) = 0 \<longrightarrow> minor (pn_basis (base_spec current f)) = 0"
      using sp(1,3) by (simp add: spec_ok_def)
  qed
  moreover have "money_currency (pn_basis (ps_spec (ar_snapshot r))) = fill_currency f"
    using e by (simp add: spec_ok_def)
  moreover have "pn_last_key (ps_spec (ar_snapshot r)) = af_ordering f" using e by (simp add: applied_def Let_def)
  ultimately show ?thesis using e by (simp add: position_ok_def)
qed

section \<open>When a fill is accepted\<close>

lemma settle_lot_matches:
  assumes "pn_net s = n" "pn_basis s = \<lparr>minor = b, money_currency = fill_currency f\<rparr>"
    "pn_updated_at s = ok_occurred (af_ordering f)" "ok_occurred (af_ordering f) \<noteq> 0"
    "NewCurrency (fill_currency f) = Inr (fill_currency f)" "n \<noteq> min_i64" "in_i64 n"
    "0 \<le> b" "n = 0 \<longleftrightarrow> b = 0" "oldNet \<noteq> 0 \<longrightarrow> pn_opened_at s \<noteq> 0"
  shows "lot_matches (settle_lot f oldNet n b s)"
proof -
  have "magnitude n = abs64 n" "n \<noteq> 0 \<Longrightarrow> 0 < magnitude n"
    using assms(6,7) by (auto simp: magnitude_def abs64_def i64_defs)
  with assms show ?thesis
    by (auto simp: lot_matches_def settle_lot_def Let_def position_state_of_def money_or_zero_eq split: if_splits)
qed

lemma settle_lot_opened:
  "ok_occurred (af_ordering f) \<noteq> 0 \<Longrightarrow> pn_opened_at (settle_lot f a b c s) \<noteq> 0"
  "pn_opened_at (settle_lot f a b c s) \<in> {pn_opened_at s, ok_occurred (af_ordering f)}"
  by (auto simp: settle_lot_def Let_def)

definition currency_matches :: "position_snapshot option \<Rightarrow> accounting_fill \<Rightarrow> bool" where
  "currency_matches current f \<longleftrightarrow>
     (\<forall>c. current = Some c \<longrightarrow> money_currency (pn_basis (ps_spec c)) = fill_currency f)"

lemma base_spec_facts:
  assumes f: "fill_built sha f" and cur: "current_ok sha current" "check_current current f = Inr ()"
    "currency_matches current f"
  shows "spec_ok (fill_currency f) (base_spec current f)"
    "pn_schema (base_spec current f) = ''position-snapshot/v1''"
    "pn_position (base_spec current f) = af_position f"
    "NewPositionID sha (digest_string (pn_portfolio (base_spec current f))) (digest_string (pn_instrument (base_spec current f))) =
       Inr (af_position f)"
    "pn_portfolio (base_spec current f) \<noteq> 0" "pn_instrument (base_spec current f) \<noteq> 0"
    "pn_opened_at (base_spec current f) \<noteq> 0 \<Longrightarrow> pn_opened_at (base_spec current f) \<le> ok_occurred (af_ordering f)"
    "pn_net (base_spec current f) \<noteq> 0 \<longrightarrow> pn_opened_at (base_spec current f) \<noteq> 0"
proof -
  let ?s = "base_spec current f"
  have "spec_ok (fill_currency f) ?s \<and> pn_schema ?s = ''position-snapshot/v1'' \<and> pn_position ?s = af_position f \<and>
    NewPositionID sha (digest_string (pn_portfolio ?s)) (digest_string (pn_instrument ?s)) = Inr (af_position f) \<and>
    pn_portfolio ?s \<noteq> 0 \<and> pn_instrument ?s \<noteq> 0 \<and>
    (pn_opened_at ?s \<noteq> 0 \<longrightarrow> pn_opened_at ?s \<le> ok_occurred (af_ordering f)) \<and>
    (pn_net ?s \<noteq> 0 \<longrightarrow> pn_opened_at ?s \<noteq> 0)"
  proof (cases current)
    case None
    from f obtain fs where "NewAccountingFill sha fs = Inr f" by (auto simp: fill_built_def)
    with NewAccountingFill_Inr [OF this] fill_built_facts(8) [OF f] None show ?thesis
      by (auto simp: base_spec_def opening_spec_def spec_ok_def money_or_zero_eq money_wf_def min_i64_def)
  next
    case (Some c)
    then have c: "position_ok sha c" using cur(1) by (simp add: current_ok_def)
    then obtain spec where "NewPositionSnapshot sha spec = Inr c" by (auto simp: position_ok_def)
    note n = NewPositionSnapshot_Inr [OF this]
    have k: "pn_position (ps_spec c) = af_position f" "Compare (af_ordering f) (pn_last_key (ps_spec c)) > 0"
      using cur(2) Some by (auto simp: check_current_def split: if_splits)
    then have "ok_occurred (pn_last_key (ps_spec c)) \<le> ok_occurred (af_ordering f)"
      by (auto simp: Compare_def split: if_splits)
    with c n k(1) Some cur(3) show ?thesis
      by (auto simp: base_spec_def position_ok_def currency_matches_def)
  qed
  then show "spec_ok (fill_currency f) ?s" "pn_schema ?s = ''position-snapshot/v1''" "pn_position ?s = af_position f"
    "NewPositionID sha (digest_string (pn_portfolio ?s)) (digest_string (pn_instrument ?s)) = Inr (af_position f)"
    "pn_portfolio ?s \<noteq> 0" "pn_instrument ?s \<noteq> 0"
    "pn_opened_at ?s \<noteq> 0 \<Longrightarrow> pn_opened_at ?s \<le> ok_occurred (af_ordering f)"
    "pn_net ?s \<noteq> 0 \<longrightarrow> pn_opened_at ?s \<noteq> 0" by auto
qed

lemma next_snapshot:
  assumes f: "fill_built sha f" "\<not> fill_is_zero f" and cur: "current_ok sha current" "check_current current f = Inr ()"
    "currency_matches current f"
    and fits: "fill_fits f (base_spec current f)" "tr_net (fill_step f (base_spec current f)) \<noteq> min_i64"
    "pn_fill_count (base_spec current f) < max_u64" and chain: "chain \<noteq> 0"
  shows "\<exists>ps. NewPositionSnapshot sha (next_spec f chain (base_spec current f)) = Inr ps"
proof -
  let ?s = "base_spec current f" and ?n = "next_spec f chain (base_spec current f)"
  note b = base_spec_facts [OF f(1) cur]
  note ok = next_spec_ok [OF f(1) b(1) fits, of chain]
  from f(1) obtain fs where "NewAccountingFill sha fs = Inr f" by (auto simp: fill_built_def)
  note k = NewAccountingFill_Inr [OF this] and fb = fill_built_facts [OF f(1)]
  have fields: "pn_schema ?n = ''position-snapshot/v1''" "pn_position ?n = af_position f" "pn_portfolio ?n = pn_portfolio ?s"
    "pn_instrument ?n = pn_instrument ?s" "pn_last_key ?n = af_ordering f" "pn_last_fill ?n = fl_id (af_fill f)"
    "pn_fill_checksum ?n = chain" "pn_updated_at ?n = ok_occurred (af_ordering f)"
    using b by (simp_all add: next_spec_def Let_def)
  have lot: "lot_matches ?n"
    unfolding next_spec_def Let_def
    by (rule settle_lot_matches) (use ok b k fb in \<open>auto simp: spec_ok_def next_spec_def Let_def\<close>)
  have opened: "pn_opened_at ?n \<noteq> 0" "pn_opened_at ?n \<le> ok_occurred (af_ordering f)"
  proof -
    show nz: "pn_opened_at ?n \<noteq> 0" using k by (simp add: next_spec_def Let_def settle_lot_opened(1))
    have "pn_opened_at ?n \<in> {pn_opened_at ?s, ok_occurred (af_ordering f)}"
      unfolding next_spec_def Let_def by (rule subsetD [OF _ settle_lot_opened(2)]) simp
    with nz b(7) show "pn_opened_at ?n \<le> ok_occurred (af_ordering f)" by auto
  qed
  have "pn_revision ?n \<noteq> 0" "pn_fill_count ?n \<noteq> 0" using ok(1) by (auto simp: applied_def Let_def)
  moreover have "af_position f \<noteq> 0" using f(2) by (simp add: fill_is_zero_def)
  moreover have "money_currency m \<noteq> []" if "money_wf m" for m using that by simp
  moreover have "?n\<lparr>pn_schema := trim_space (pn_schema ?n)\<rparr> = ?n"
    by (rule schema_same) (simp add: fields(1) trim_position_schema)
  ultimately show ?thesis
    using ok(2) lot opened k chain b(4-6)
    by (auto simp: NewPositionSnapshot_def fields money_is_zero_value_def spec_ok_def Let_def)
qed

text \<open>
  Derived digests are not the zero value, which the code reserves for \<open>absent\<close>.
\<close>

definition sha_nonzero :: "(string \<Rightarrow> digest) \<Rightarrow> bool" where
  "sha_nonzero sha \<longleftrightarrow> (\<forall>x. sha x \<noteq> 0)"

lemma derived_nonzero:
  assumes "sha_nonzero sha" "raw \<noteq> []"
  shows "state_checksum_acct sha ''accounting-fill-checksum/v1'' raw \<noteq> 0"
    "state_checksum_acct sha ''accounting-position-state/v1'' raw \<noteq> 0"
    "\<exists>c. NewStateChecksum_acct sha ''accounting-applied-fill-chain/v1'' raw = Inr c \<and> c \<noteq> 0"
proof -
  have "trim_space ''accounting-fill-checksum/v1'' \<noteq> []" "trim_space ''accounting-position-state/v1'' \<noteq> []"
    "trim_space ''accounting-applied-fill-chain/v1'' \<noteq> []" by code_simp+
  with assms show "state_checksum_acct sha ''accounting-fill-checksum/v1'' raw \<noteq> 0"
    "state_checksum_acct sha ''accounting-position-state/v1'' raw \<noteq> 0"
    "\<exists>c. NewStateChecksum_acct sha ''accounting-applied-fill-chain/v1'' raw = Inr c \<and> c \<noteq> 0"
    by (simp_all add: state_checksum_acct_def NewStateChecksum_acct_def derive_def sha_nonzero_def)
qed

lemma application_id_nonzero:
  assumes "sha_nonzero sha" "pos \<noteq> 0"
  shows "\<exists>i. NewFillApplicationID sha pos (digest_string fid) = Inr i \<and> i \<noteq> 0"
proof -
  have "digest_string fid \<noteq> []" by (metis length_digest_string list.size(3) numeral_neq_zero)
  then have "validParts [digest_string fid]" by (simp add: validParts_def)
  with assms show ?thesis by (simp add: NewFillApplicationID_def derive_def sha_nonzero_def)
qed

lemma Apply_succeeds:
  assumes sha: "sha_nonzero sha" and f: "fill_built sha f" "\<not> fill_is_zero f"
    and cur: "current_ok sha current" "check_current current f = Inr ()" "currency_matches current f"
    and fits: "fill_fits f (base_spec current f)" "tr_net (fill_step f (base_spec current f)) \<noteq> min_i64"
    "pn_fill_count (base_spec current f) < max_u64"
  shows "\<exists>r. Apply sha current f = Inr r"
proof -
  let ?s = "base_spec current f"
  note b = base_spec_facts [OF f(1) cur] and fb = fill_built_facts [OF f(1)]
  define pr pc where "pr = pn_revision ?s" and "pc = (case current of None \<Rightarrow> 0 | Some c \<Rightarrow> ps_checksum c)"
  have st: "start_spec current f = Inr (?s, pr, pc)"
    using fits(3) b(1) cur(3)
    by (cases current)
      (auto simp: start_spec_def base_spec_def pr_def pc_def Let_def currency_matches_def spec_ok_def opening_spec_def)
  have val: "multiply (fill_price f) (fill_qty f) = Inr (fill_price f * fill_qty f)"
    "in_i64 (fill_price f * fill_qty f)"
    using fits(1) by (auto simp: fill_fits_def totals_fit_def multiply_def Let_def)
  have tr: "transition (pn_net ?s) (minor (pn_basis ?s)) (fill_side f) (fill_qty f) (fill_price f) = Inr (fill_step f ?s)"
    using fits(1) unfolding transition_exact [OF fill_input [OF f(1) b(1)]] by (simp add: fill_fits_def fill_delta_def)
  have cu: "cumulate (fill_side f) (fill_qty f) (fill_price f * fill_qty f) ?s = Inr (cumulated f ?s)"
    using fits(1) unfolding cumulate_eq [OF f(1) b(1) val(2)] by (simp add: fill_fits_def)
  have re: "addMoney (pn_realized ?s) (tr_realized (fill_step f ?s)) =
      Inr \<lparr>minor = minor (pn_realized ?s) + tr_realized (fill_step f ?s), money_currency = fill_currency f\<rparr>"
    using fits(1) b(1) by (simp add: addMoney_eq spec_ok_def fill_fits_def ledger_fits_def)
  obtain chain where ch: "appliedChecksum sha (pn_fill_checksum ?s) f = Inr chain" "chain \<noteq> 0"
    using derived_nonzero(3) [OF sha marshal_JObj_nonempty] by (auto simp: appliedChecksum_def)
  obtain ps where ps: "NewPositionSnapshot sha (next_spec f chain ?s) = Inr ps"
    using next_snapshot [OF f cur fits ch(2)] by blast
  note n = NewPositionSnapshot_Inr [OF ps]
  have raw: "ps_raw ps \<noteq> []" "af_raw f \<noteq> []"
    using n f(1) NewAccountingFill_Inr
    by (auto simp: canonicalPosition_def canonicalAccountingFill_def fill_built_def)
  from f(1) obtain fs where "NewAccountingFill sha fs = Inr f" by (auto simp: fill_built_def)
  note k = NewAccountingFill_Inr [OF this]
  obtain i where i: "NewFillApplicationID sha (af_position f) (digest_string (fl_id (af_fill f))) = Inr i" "i \<noteq> 0"
    using application_id_nonzero [OF sha] f(2) by (auto simp: fill_is_zero_def)
  have cur_ne: "fill_currency f \<noteq> []" using fb(8) by (auto dest: NewCurrency_Inr)
  have alloc: "0 \<le> tr_allocated (fill_step f ?s)"
    using ledger_step_basis(3) b(1) fb(2,7) by (simp add: spec_ok_def)
  have prev: "if pr = 0 then pc = 0 else pc \<noteq> 0"
  proof (cases current)
    case None
    then show ?thesis by (simp add: pr_def pc_def base_spec_def opening_spec_def)
  next
    case (Some c)
    then have "position_ok sha c" using cur(1) by (simp add: current_ok_def)
    then obtain sp where "NewPositionSnapshot sha sp = Inr c" by (auto simp: position_ok_def)
    note nc = NewPositionSnapshot_Inr [OF this]
    have "ps_checksum c \<noteq> 0" using nc derived_nonzero(2) [OF sha] by (simp add: canonicalPosition_def)
    with nc Some show ?thesis by (simp add: pr_def pc_def base_spec_def)
  qed
  have rev: "pn_revision (next_spec f chain ?s) = Suc pr" "Suc pr \<le> max_u64"
    using fits(3) b(1) by (simp_all add: next_spec_def Let_def pr_def spec_ok_def)
  have app: "\<exists>a. NewFillApplication sha
        \<lparr>as_schema = ''fill-application/v1'', as_id = i, as_position = af_position f, as_fill = fl_id (af_fill f),
         as_fill_checksum = af_checksum f, as_key = af_ordering f, as_previous_revision = pr, as_previous_checksum = pc,
         as_next_revision = pn_revision (ps_spec ps), as_next_checksum = ps_checksum ps,
         as_closed = tr_closed (fill_step f ?s), as_opened = tr_opened (fill_step f ?s),
         as_allocated = money_or_zero (tr_allocated (fill_step f ?s)) (fill_currency f),
         as_realized = money_or_zero (tr_realized (fill_step f ?s)) (fill_currency f),
         as_applied_at = ok_received (af_ordering f)\<rparr> = Inr a"
    using i(2) f(2) k n raw prev rev alloc cur_ne ledger_step_quantities fb(8)
      derived_nonzero(1) [OF sha raw(2)] derived_nonzero(2) [OF sha raw(1)]
    by (auto simp: NewFillApplication_def fill_is_zero_def money_or_zero_eq money_is_zero_value_def Let_def not_less)
  show ?thesis
    using f(2) cur(2) val(1) st tr cu re fits(3) ch(1) ps i(1) app rev fb(8)
    by (auto simp: Apply_def Let_def next_spec_def money_or_zero_eq pr_def [symmetric])
qed

section \<open>Sequences of fills\<close>

fun apply_fills ::
  "(string \<Rightarrow> digest) \<Rightarrow> position_snapshot option \<Rightarrow> accounting_fill list \<Rightarrow> position_snapshot option result" where
  "apply_fills sha current [] = Inr current"
| "apply_fills sha current (f # fs) =
     bind_r (Apply sha current f) (\<lambda>r. apply_fills sha (Some (ar_snapshot r)) fs)"

text \<open>The specification on a sequence of signed quantities and prices: net quantity, cost, realized amount.\<close>

fun ledger_run :: "int \<times> int \<times> int \<Rightarrow> (int \<times> int) list \<Rightarrow> int \<times> int \<times> int" where
  "ledger_run (net, basis, realized) [] = (net, basis, realized)"
| "ledger_run (net, basis, realized) ((d, p) # ds) =
     (let t = ledger_step net basis d p in ledger_run (tr_net t, tr_basis t, realized + tr_realized t) ds)"

definition ledger_view :: "position_spec \<Rightarrow> int \<times> int \<times> int" where
  "ledger_view s = (pn_net s, minor (pn_basis s), minor (pn_realized s))"

definition bought_value :: "accounting_fill list \<Rightarrow> int" where
  "bought_value fs = sum_list (map (\<lambda>f. if fill_side f = SideBuy then fill_price f * fill_qty f else 0) fs)"

definition sold_value :: "accounting_fill list \<Rightarrow> int" where
  "sold_value fs = sum_list (map (\<lambda>f. if fill_side f = SideBuy then 0 else fill_price f * fill_qty f) fs)"

lemma side_values [simp]:
  "bought_value [] = 0" "sold_value [] = 0"
  "bought_value (f # fs) = (if fill_side f = SideBuy then fill_price f * fill_qty f else 0) + bought_value fs"
  "sold_value (f # fs) = (if fill_side f = SideBuy then 0 else fill_price f * fill_qty f) + sold_value fs"
  by (simp_all add: bought_value_def sold_value_def)

text \<open>What a run from one position leads to.\<close>

definition run_result :: "position_spec \<Rightarrow> accounting_fill list \<Rightarrow> position_spec \<Rightarrow> bool" where
  "run_result s fs s' \<longleftrightarrow>
     ledger_view s' = ledger_run (ledger_view s) (map (\<lambda>f. (fill_delta f, fill_price f)) fs) \<and>
     minor (pn_bought_value s') = minor (pn_bought_value s) + bought_value fs \<and>
     minor (pn_sold_value s') = minor (pn_sold_value s) + sold_value fs \<and>
     pn_fill_count s' = pn_fill_count s + length fs"

lemma run_result_step:
  assumes "applied f s s1" "run_result s1 fs s'"
  shows "run_result s (f # fs) s'"
  using assms by (simp add: run_result_def applied_def ledger_view_def Let_def)

lemma apply_fills_from:
  assumes "apply_fills sha (Some c) fs = Inr res" "position_ok sha c" "\<forall>f \<in> set fs. fill_built sha f"
  shows "\<exists>ps. res = Some ps \<and> position_ok sha ps \<and> run_result (ps_spec c) fs (ps_spec ps)"
  using assms
proof (induction fs arbitrary: c)
  case Nil
  then show ?case by (auto simp: run_result_def ledger_view_def)
next
  case (Cons f fs)
  from Cons.prems(1) obtain r where r: "Apply sha (Some c) f = Inr r"
    "apply_fills sha (Some (ar_snapshot r)) fs = Inr res" by auto
  have "current_ok sha (Some c)" using Cons.prems(2) by (simp add: current_ok_def)
  with r(1) Cons.prems(3) have ok: "position_ok sha (ar_snapshot r)" "applied f (ps_spec c) (ps_spec (ar_snapshot r))"
    using Apply_ok [of sha "Some c" f r] by (auto simp: base_spec_def)
  with Cons.IH [OF r(2)] Cons.prems(3) obtain ps where
    "res = Some ps" "position_ok sha ps" "run_result (ps_spec (ar_snapshot r)) fs (ps_spec ps)" by auto
  with ok(2) show ?case by (auto intro: run_result_step)
qed

lemma apply_fills_run:
  assumes "apply_fills sha None fs = Inr res" "fs \<noteq> []" "\<forall>f \<in> set fs. fill_built sha f"
  shows "\<exists>ps. res = Some ps \<and> position_ok sha ps \<and>
    ledger_view (ps_spec ps) = ledger_run (0, 0, 0) (map (\<lambda>f. (fill_delta f, fill_price f)) fs) \<and>
    minor (pn_bought_value (ps_spec ps)) = bought_value fs \<and>
    minor (pn_sold_value (ps_spec ps)) = sold_value fs \<and> pn_fill_count (ps_spec ps) = length fs"
proof -
  obtain f gs where fs: "fs = f # gs" using assms(2) by (cases fs) auto
  with assms(1) obtain r where r: "Apply sha None f = Inr r"
    "apply_fills sha (Some (ar_snapshot r)) gs = Inr res" by auto
  have f: "fill_built sha f" using assms(3) fs by simp
  have ok: "position_ok sha (ar_snapshot r)" "applied f (base_spec None f) (ps_spec (ar_snapshot r))"
    using Apply_ok [OF r(1) f] by (auto simp: current_ok_def)
  from apply_fills_from [OF r(2) ok(1)] assms(3) fs obtain ps where
    ps: "res = Some ps" "position_ok sha ps" "run_result (ps_spec (ar_snapshot r)) gs (ps_spec ps)" by auto
  have "run_result (base_spec None f) fs (ps_spec ps)"
    unfolding fs by (rule run_result_step [OF ok(2) ps(3)])
  moreover have "ledger_view (base_spec None f) = (0, 0, 0)" "minor (pn_bought_value (base_spec None f)) = 0"
    "minor (pn_sold_value (base_spec None f)) = 0" "pn_fill_count (base_spec None f) = 0"
    using fill_built_facts(8) [OF f]
    by (simp_all add: base_spec_def opening_spec_def ledger_view_def money_or_zero_eq)
  ultimately show ?thesis using ps by (simp add: run_result_def)
qed

subsection \<open>Fills enter in strictly increasing canonical order\<close>

definition later :: "accounting_fill \<Rightarrow> accounting_fill \<Rightarrow> bool" where
  "later a b \<longleftrightarrow> Compare (af_ordering b) (af_ordering a) > 0"

lemma Apply_key:
  assumes "Apply sha current f = Inr r"
  shows "pn_last_key (ps_spec (ar_snapshot r)) = af_ordering f"
    and "current = Some c \<Longrightarrow> Compare (af_ordering f) (pn_last_key (ps_spec c)) > 0"
    and "current = Some c \<Longrightarrow> pn_position (ps_spec c) = af_position f"
proof -
  from assms obtain s where "NewPositionSnapshot sha s = Inr (ar_snapshot r)" "pn_last_key s = af_ordering f"
    by (rule Apply_Inr) (use that in fastforce)
  with NewPositionSnapshot_Inr [OF this(1)] show "pn_last_key (ps_spec (ar_snapshot r)) = af_ordering f" by simp
  from assms have "check_current current f = Inr ()" by (rule Apply_Inr)
  then show "current = Some c \<Longrightarrow> Compare (af_ordering f) (pn_last_key (ps_spec c)) > 0"
    "current = Some c \<Longrightarrow> pn_position (ps_spec c) = af_position f"
    by (auto simp: check_current_def split: if_splits)
qed

lemma apply_fills_sorted:
  "apply_fills sha current fs = Inr res \<Longrightarrow>
     sorted_wrt later fs \<and> (\<forall>c. current = Some c \<longrightarrow> (\<forall>f \<in> set fs. Compare (af_ordering f) (pn_last_key (ps_spec c)) > 0))"
proof (induction fs arbitrary: current)
  case (Cons f fs)
  from Cons.prems obtain r where r: "Apply sha current f = Inr r"
    "apply_fills sha (Some (ar_snapshot r)) fs = Inr res" by auto
  note k = Apply_key [OF r(1)] and ih = Cons.IH [OF r(2)]
  from ih k(1) have "\<forall>g \<in> set fs. later f g" by (auto simp: later_def)
  with ih have "sorted_wrt later (f # fs)" by simp
  moreover have "Compare (af_ordering g) (pn_last_key (ps_spec c)) > 0" if "current = Some c" "g \<in> set (f # fs)" for c g
    using that ih k by (auto intro: Compare_trans)
  ultimately show ?case by blast
qed simp

end
