(* ===== verification/Acct_Contracts.thy ===== *)
theory Acct_Contracts
  imports Acct_Ledger
begin

text \<open>
  \<open>internal/accounting/storage/contracts.go\<close>: position checkpoints, position publications and receipts.
\<close>

record position_checkpoint =
  pc_snapshot :: position_snapshot
  pc_snapshot_checksum :: digest
  pc_parent :: digest
  pc_application :: digest
  pc_fill :: digest
  pc_checksum :: digest
  pc_raw :: string

definition canonicalPositionCheckpoint :: "position_checkpoint \<Rightarrow> string" where
  "canonicalPositionCheckpoint value = marshal (JObj
     [(''Snapshot'', JRaw (ps_raw (pc_snapshot value))),
      (''SnapshotChecksum'', JStr (digest_string (pc_snapshot_checksum value))),
      (''ParentChecksum'', JStr (digest_string (pc_parent value))),
      (''ApplicationID'', JStr (digest_string (pc_application value))),
      (''FillID'', JStr (digest_string (pc_fill value)))])"

definition NewPositionCheckpoint ::
  "(string \<Rightarrow> digest) \<Rightarrow> position_checkpoint \<Rightarrow> position_checkpoint result" where
  "NewPositionCheckpoint sha value =
     (if pn_position (ps_spec (pc_snapshot value)) = 0 \<or> pc_application value = 0 \<or> pc_fill value = 0
      then Inl (AccountingStorage ErrCorruptCheckpoint_acct)
      else if pc_snapshot_checksum value \<noteq> 0 \<and> pc_snapshot_checksum value \<noteq> ps_checksum (pc_snapshot value)
      then Inl (AccountingStorage ErrCorruptCheckpoint_acct)
      else let value = value\<lparr>pc_snapshot_checksum := ps_checksum (pc_snapshot value)\<rparr> in
      if (if pn_revision (ps_spec (pc_snapshot value)) = 1 then pc_parent value \<noteq> 0 else pc_parent value = 0)
      then Inl (AccountingStorage ErrCorruptCheckpoint_acct)
      else let raw = canonicalPositionCheckpoint value;
               checksum = state_checksum_acct sha ''accounting-position-checkpoint/v1'' raw in
      if pc_checksum value \<noteq> 0 \<and> pc_checksum value \<noteq> checksum
      then Inl (AccountingStorage ErrCorruptCheckpoint_acct)
      else Inr (value\<lparr>pc_checksum := checksum, pc_raw := raw\<rparr>))"

record position_publication =
  pp_id :: digest
  pp_expected_revision :: nat
  pp_expected_checkpoint :: digest
  pp_fill :: accounting_fill
  pp_application :: fill_application
  pp_next :: position_checkpoint
  pp_ingestion :: "ingestion_progress option"
  pp_checksum :: digest
  pp_raw :: string

definition canonicalPositionPublication :: "position_publication \<Rightarrow> string" where
  "canonicalPositionPublication value = marshal (JObj
     ([(''PublicationID'', JStr (digest_string (pp_id value))),
       (''ExpectedCheckpoint'', JStr (digest_string (pp_expected_checkpoint value))),
       (''ExpectedRevision'', JInt (int (pp_expected_revision value))),
       (''Fill'', JRaw (af_raw (pp_fill value))),
       (''Application'', JRaw (fa_raw (pp_application value))),
       (''NextCheckpoint'', JRaw (pc_raw (pp_next value)))] @
      (case pp_ingestion value of None \<Rightarrow> []
       | Some p \<Rightarrow> [(''IngestionProgress'', JRaw (ip_raw p))])))"

text \<open>The agreement of a publication's parts, before and apart from its ingestion progress.\<close>

definition publication_agrees :: "position_publication \<Rightarrow> bool" where
  "publication_agrees value \<longleftrightarrow>
     (let application = fa_spec (pp_application value); next = pp_next value; snapshot = ps_spec (pc_snapshot next);
          fill = pp_fill value in
      pp_id value \<noteq> 0 \<and> \<not> fill_is_zero fill \<and> as_id application \<noteq> 0 \<and> pn_position snapshot \<noteq> 0 \<and>
      as_position application = af_position fill \<and> pn_position snapshot = af_position fill \<and>
      as_fill application = fl_id (af_fill fill) \<and> as_fill_checksum application = af_checksum fill \<and>
      as_previous_revision application = pp_expected_revision value \<and>
      as_next_revision application = wrap_u64 (pp_expected_revision value + 1) \<and>
      pn_revision snapshot = wrap_u64 (pp_expected_revision value + 1) \<and>
      pc_application next = as_id application \<and> pc_fill next = fl_id (af_fill fill) \<and>
      as_next_checksum application = ps_checksum (pc_snapshot next) \<and>
      pc_parent next = pp_expected_checkpoint value)"

definition ingestion_agrees :: "position_publication \<Rightarrow> ingestion_progress \<Rightarrow> bool" where
  "ingestion_agrees value progress \<longleftrightarrow>
     ip_fill progress = fl_id (af_fill (pp_fill value)) \<and> ip_fill_checksum progress = af_checksum (pp_fill value) \<and>
     ip_position progress = af_position (pp_fill value) \<and>
     ip_revision progress = pn_revision (ps_spec (pc_snapshot (pp_next value))) \<and>
     ip_application progress = as_id (fa_spec (pp_application value)) \<and>
     ip_checkpoint_checksum progress = pc_checksum (pp_next value) \<and>
     ab_portfolio (im_binding (ip_metadata progress)) = afs_portfolio (af_spec (pp_fill value))"

definition NewPositionPublication ::
  "(string \<Rightarrow> digest) \<Rightarrow> position_publication \<Rightarrow> position_publication result" where
  "NewPositionPublication sha value0 =
     (let invalid = Inl (AccountingStorage ErrInvalidPublication_acct) in
      case NewPositionCheckpoint sha (pp_next value0) of Inl _ \<Rightarrow> invalid
      | Inr checkpoint \<Rightarrow>
      let value = value0\<lparr>pp_next := checkpoint\<rparr>;
          previous = as_previous_checksum (fa_spec (pp_application value)) in
      if \<not> publication_agrees value then invalid
      else if (if pp_expected_revision value = 0 then pp_expected_checkpoint value \<noteq> 0 \<or> previous \<noteq> 0
               else pp_expected_checkpoint value = 0 \<or> previous = 0)
      then invalid
      else case (case pp_ingestion value of None \<Rightarrow> Inr None
             | Some p \<Rightarrow> (case NewIngestionProgress sha p of Inl e \<Rightarrow> Inl e
                 | Inr progress \<Rightarrow> if ingestion_agrees value progress then Inr (Some progress)
                     else Inl (AccountingStorage ErrInvalidPublication_acct))) of
        Inl _ \<Rightarrow> invalid
      | Inr progress \<Rightarrow>
      let value = value\<lparr>pp_ingestion := progress\<rparr>; raw = canonicalPositionPublication value;
          checksum = state_checksum_acct sha
            (if progress = None then ''accounting-position-publication/v1'' else ''accounting-position-publication/v2'') raw in
      if pp_checksum value \<noteq> 0 \<and> pp_checksum value \<noteq> checksum then invalid
      else Inr (value\<lparr>pp_checksum := checksum, pp_raw := raw\<rparr>))"

datatype publication_status = PublicationCommitted | PublicationIdempotent

record position_receipt =
  pr_status :: publication_status
  pr_publication :: digest
  pr_position :: digest
  pr_revision :: nat
  pr_fill :: digest
  pr_application :: digest
  pr_checkpoint :: digest
  pr_checksum :: digest

section \<open>What the constructors guarantee\<close>

lemma position_bytes_own [simp]:
  "canonicalPositionCheckpoint (c\<lparr>pc_checksum := d, pc_raw := r\<rparr>) = canonicalPositionCheckpoint c"
  "canonicalPositionPublication (p\<lparr>pp_checksum := d, pp_raw := r\<rparr>) = canonicalPositionPublication p"
  by (simp_all add: canonicalPositionCheckpoint_def canonicalPositionPublication_def)

lemma publication_agrees_own [simp]:
  "publication_agrees (p\<lparr>pp_ingestion := i, pp_checksum := d, pp_raw := r\<rparr>) = publication_agrees p"
  by (simp add: publication_agrees_def)

lemma NewPositionCheckpoint_Inr:
  "NewPositionCheckpoint sha value = Inr c \<Longrightarrow>
     pc_snapshot c = pc_snapshot value \<and> pc_parent c = pc_parent value \<and> pc_application c = pc_application value \<and>
     pc_fill c = pc_fill value \<and> pc_snapshot_checksum c = ps_checksum (pc_snapshot c) \<and>
     pc_checksum c = state_checksum_acct sha ''accounting-position-checkpoint/v1'' (pc_raw c) \<and>
     pc_raw c = canonicalPositionCheckpoint c \<and>
     pn_position (ps_spec (pc_snapshot c)) \<noteq> 0 \<and> pc_application c \<noteq> 0 \<and> pc_fill c \<noteq> 0 \<and>
     (pn_revision (ps_spec (pc_snapshot c)) = 1 \<longleftrightarrow> pc_parent c = 0)"
  by (auto simp: NewPositionCheckpoint_def Let_def split: if_splits)

text \<open>Validating a validated checkpoint again gives the same checkpoint.\<close>

lemma NewPositionCheckpoint_idem:
  assumes "NewPositionCheckpoint sha value = Inr c"
  shows "NewPositionCheckpoint sha c = Inr c"
proof -
  note c = NewPositionCheckpoint_Inr [OF assms]
  have same: "c\<lparr>pc_snapshot_checksum := ps_checksum (pc_snapshot c)\<rparr> = c"
    "c\<lparr>pc_checksum := state_checksum_acct sha ''accounting-position-checkpoint/v1'' (canonicalPositionCheckpoint c),
       pc_raw := canonicalPositionCheckpoint c\<rparr> = c"
    using c by auto
  show ?thesis
    unfolding NewPositionCheckpoint_def Let_def same using c by (auto simp del: One_nat_def)
qed

lemma NewPositionPublication_Inr:
  assumes "NewPositionPublication sha value = Inr p"
  shows "pp_id p = pp_id value" "pp_expected_revision p = pp_expected_revision value"
    "pp_expected_checkpoint p = pp_expected_checkpoint value" "pp_fill p = pp_fill value"
    "pp_application p = pp_application value" "pc_snapshot (pp_next p) = pc_snapshot (pp_next value)"
    "publication_agrees p" "NewPositionCheckpoint sha (pp_next value) = Inr (pp_next p)"
    "pp_expected_revision p = 0 \<longleftrightarrow> pp_expected_checkpoint p = 0"
    "pp_raw p = canonicalPositionPublication p"
proof -
  from assms obtain c where c: "NewPositionCheckpoint sha (pp_next value) = Inr c"
    by (cases "NewPositionCheckpoint sha (pp_next value)") (auto simp: NewPositionPublication_def Let_def)
  with assms obtain progress where ag: "publication_agrees (value\<lparr>pp_next := c\<rparr>)"
    and ex: "pp_expected_revision value = 0 \<longleftrightarrow> pp_expected_checkpoint value = 0"
    and p: "\<exists>d. p = value\<lparr>pp_next := c, pp_ingestion := progress, pp_checksum := d,
      pp_raw := canonicalPositionPublication (value\<lparr>pp_next := c, pp_ingestion := progress\<rparr>)\<rparr>"
    by (auto simp: NewPositionPublication_def Let_def split: sum.splits if_splits option.splits)
  from p obtain d where p: "p = value\<lparr>pp_next := c, pp_ingestion := progress, pp_checksum := d,
      pp_raw := canonicalPositionPublication (value\<lparr>pp_next := c, pp_ingestion := progress\<rparr>)\<rparr>" by blast
  show "pp_id p = pp_id value" "pp_expected_revision p = pp_expected_revision value"
    "pp_expected_checkpoint p = pp_expected_checkpoint value" "pp_fill p = pp_fill value"
    "pp_application p = pp_application value"
    "NewPositionCheckpoint sha (pp_next value) = Inr (pp_next p)"
    "pp_expected_revision p = 0 \<longleftrightarrow> pp_expected_checkpoint p = 0"
    using p c ex by simp_all
  show "pc_snapshot (pp_next p) = pc_snapshot (pp_next value)"
    using p NewPositionCheckpoint_Inr [OF c] by simp
  show "publication_agrees p" unfolding p using ag by (simp only: publication_agrees_own)
  show "pp_raw p = canonicalPositionPublication p" by (simp add: p)
qed

end
