(* ===== verification/Acct_Store.thy ===== *)
theory Acct_Store
  imports Acct_Contracts
begin

text \<open>
  \<open>internal/adapters/accounting/memory/store.go\<close>: the in-memory position store. As for the order store,
  every operation runs under the store's mutex and is a function from the state it finds to the state it
  leaves and its result.
\<close>

section \<open>State\<close>

record acct_limits =
  al_positions :: int
  al_revisions :: int
  al_applications :: int
  al_publications :: int

definition DefaultLimits_acct :: acct_limits where
  "DefaultLimits_acct =
     \<lparr>al_positions = 128, al_revisions = 10000, al_applications = 10000, al_publications = 10000\<rparr>"

definition limits_valid :: "acct_limits \<Rightarrow> bool" where
  "limits_valid value \<longleftrightarrow> al_positions value > 0 \<and> al_revisions value > 0 \<and> al_applications value > 0 \<and>
     al_publications value > 0"

record stored_position_publication =
  sq_value :: position_publication
  sq_receipt :: position_receipt
  sq_canonical :: string

record stored_fill =
  sf_fill :: accounting_fill
  sf_application :: fill_application

record acct_store =
  ac_limits :: acct_limits
  ac_current :: "(digest, nat) gomap"
  ac_checkpoints :: "(digest, (nat, position_checkpoint) gomap) gomap"
  ac_fills :: "(digest, stored_fill) gomap"
  ac_applications :: "(digest, fill_application list) gomap"
  ac_publications :: "(digest, stored_position_publication) gomap"
  ac_ingestions :: "(digest, ingestion_progress) gomap"
  ac_ingestion_sources :: "(string, digest) gomap"
  ac_fail_before_commit :: bool

definition empty_acct_store :: "acct_limits \<Rightarrow> acct_store" where
  "empty_acct_store limits =
     \<lparr>ac_limits = limits, ac_current = [], ac_checkpoints = [], ac_fills = [], ac_applications = [],
      ac_publications = [], ac_ingestions = [], ac_ingestion_sources = [], ac_fail_before_commit = False\<rparr>"

definition NewAcctStore :: "acct_limits \<Rightarrow> acct_store result" where
  "NewAcctStore limits =
     (if \<not> limits_valid limits then Inl (AccountingStorage ErrCapacityExhausted_acct)
      else Inr (empty_acct_store limits))"

definition SetFailBeforeCommit :: "bool \<Rightarrow> acct_store \<Rightarrow> acct_store" where
  "SetFailBeforeCommit value store = store\<lparr>ac_fail_before_commit := value\<rparr>"

definition ingestionSourceKey :: "ingestion_progress \<Rightarrow> string" where
  "ingestionSourceKey value =
     pad_dec 20 (im_sequence (ip_metadata value)) @ ''|'' @ im_checkpoint (ip_metadata value)"

definition totalRevisions :: "acct_store \<Rightarrow> int" where
  "totalRevisions store = sum_list (map (\<lambda>(_, values). size_of values) (ac_checkpoints store))"

abbreviation collision :: "string \<Rightarrow> string \<Rightarrow> error" where
  "collision kind identity \<equiv> AccountingStorage (IdentityCollisionError_acct kind identity)"

section \<open>Publishing\<close>

text \<open>\<open>store.checkpoints[id][revision]\<close> of a current revision; None where the code reads a zero checkpoint.\<close>

definition acct_checkpoint :: "acct_store \<Rightarrow> digest \<Rightarrow> nat \<Rightarrow> position_checkpoint option" where
  "acct_checkpoint store pid revision = map_of (get_or [] (ac_checkpoints store) pid) revision"

definition check_ingestion :: "acct_store \<Rightarrow> position_publication \<Rightarrow> unit result" where
  "check_ingestion store validated =
     (case pp_ingestion validated of None \<Rightarrow> Inr ()
      | Some progress \<Rightarrow>
          let key = ingestionSourceKey progress; iid = im_id (ip_metadata progress) in
          if (case map_of (ac_ingestion_sources store) key of None \<Rightarrow> False | Some existing \<Rightarrow> existing \<noteq> iid)
          then Inl (collision ''ingestion_source'' key)
          else case map_of (ac_ingestions store) iid of None \<Rightarrow> Inr ()
            | Some existing \<Rightarrow>
                if ip_raw existing = ip_raw progress
                then Inl (collision ''ingestion_already_committed'' (digest_string iid))
                else Inl (collision ''ingestion'' (digest_string iid)))"

text \<open>The checks between the replay of a known publication and the first write.\<close>

definition admit_position :: "(string \<Rightarrow> digest) \<Rightarrow> acct_store \<Rightarrow> position_publication \<Rightarrow> unit result" where
  "admit_position sha store validated =
     bind_r (check_ingestion store validated) (\<lambda>_.
     let fill = pp_fill validated; fillID = fl_id (af_fill fill); positionID = af_position fill;
         actual = get_or 0 (ac_current store) positionID in
     case map_of (ac_fills store) fillID of
       Some existing \<Rightarrow>
         if af_raw (sf_fill existing) \<noteq> af_raw fill then Inl (collision ''fill'' (digest_string fillID))
         else Inl (collision ''fill_application'' (digest_string fillID))
     | None \<Rightarrow>
     if actual \<noteq> pp_expected_revision validated
     then Inl (AccountingStorage (RevisionConflictError_acct positionID (pp_expected_revision validated) actual))
     else
       let current = (if actual > 0 then acct_checkpoint store positionID actual else None) in
       if actual > 0 \<and>
          (case current of None \<Rightarrow> True
           | Some c \<Rightarrow> pc_checksum c \<noteq> pp_expected_checkpoint validated \<or>
               ps_checksum (pc_snapshot c) \<noteq> as_previous_checksum (fa_spec (pp_application validated)))
       then Inl (AccountingStorage (RevisionConflictError_acct positionID (pp_expected_revision validated) actual))
       else case Apply sha (map_option pc_snapshot current) fill of
         Inl _ \<Rightarrow> Inl (AccountingStorage ErrInvalidPublication_acct)
       | Inr recomputed \<Rightarrow>
       if ps_raw (ar_snapshot recomputed) \<noteq> ps_raw (pc_snapshot (pp_next validated)) \<or>
          fa_raw (ar_application recomputed) \<noteq> fa_raw (pp_application validated)
       then Inl (AccountingStorage ErrInvalidPublication_acct)
       else if (actual = 0 \<and> size_of (ac_current store) \<ge> al_positions (ac_limits store)) \<or>
               totalRevisions store \<ge> al_revisions (ac_limits store) \<or>
               size_of (ac_fills store) \<ge> al_applications (ac_limits store) \<or>
               size_of (ac_publications store) \<ge> al_publications (ac_limits store)
       then Inl (AccountingStorage ErrCapacityExhausted_acct)
       else if ac_fail_before_commit store then Inl (AccountingStorage ErrInternal_acct)
       else Inr ())"

definition position_receipt_of :: "position_publication \<Rightarrow> position_receipt" where
  "position_receipt_of validated =
     \<lparr>pr_status = PublicationCommitted, pr_publication = pp_id validated,
      pr_position = af_position (pp_fill validated),
      pr_revision = pn_revision (ps_spec (pc_snapshot (pp_next validated))),
      pr_fill = fl_id (af_fill (pp_fill validated)), pr_application = as_id (fa_spec (pp_application validated)),
      pr_checkpoint = pc_checksum (pp_next validated), pr_checksum = pp_checksum validated\<rparr>"

definition commit_position :: "acct_store \<Rightarrow> position_publication \<Rightarrow> acct_store" where
  "commit_position store validated =
     (let receipt = position_receipt_of validated; pid = pr_position receipt in
      store\<lparr>ac_checkpoints := put pid (put (pr_revision receipt) (pp_next validated)
                (get_or [] (ac_checkpoints store) pid)) (ac_checkpoints store),
            ac_current := put pid (pr_revision receipt) (ac_current store),
            ac_fills := put (pr_fill receipt)
                \<lparr>sf_fill = pp_fill validated, sf_application = pp_application validated\<rparr> (ac_fills store),
            ac_applications := put pid (get_or [] (ac_applications store) pid @ [pp_application validated])
                (ac_applications store),
            ac_publications := put (pp_id validated)
                \<lparr>sq_value = validated, sq_receipt = receipt, sq_canonical = pp_raw validated\<rparr> (ac_publications store),
            ac_ingestions := (case pp_ingestion validated of None \<Rightarrow> ac_ingestions store
                | Some p \<Rightarrow> put (im_id (ip_metadata p)) p (ac_ingestions store)),
            ac_ingestion_sources := (case pp_ingestion validated of None \<Rightarrow> ac_ingestion_sources store
                | Some p \<Rightarrow> put (ingestionSourceKey p) (im_id (ip_metadata p)) (ac_ingestion_sources store))\<rparr>)"

definition PublishPosition ::
  "(string \<Rightarrow> digest) \<Rightarrow> ctx \<Rightarrow> position_publication \<Rightarrow> acct_store \<Rightarrow> acct_store \<times> position_receipt result" where
  "PublishPosition sha ctx publication store =
     (if fst ctx then (store, Inl ContextDone)
      else case NewPositionPublication sha publication of Inl e \<Rightarrow> (store, Inl e)
      | Inr validated \<Rightarrow>
      if snd ctx then (store, Inl ContextDone)
      else case map_of (ac_publications store) (pp_id validated) of
        Some existing \<Rightarrow>
          if sq_canonical existing = pp_raw validated
          then (store, Inr ((sq_receipt existing)\<lparr>pr_status := PublicationIdempotent\<rparr>))
          else (store, Inl (collision ''publication'' (digest_string (pp_id validated))))
      | None \<Rightarrow>
      case admit_position sha store validated of
        Inl e \<Rightarrow> (store, Inl e)
      | Inr _ \<Rightarrow> (commit_position store validated, Inr (position_receipt_of validated)))"

section \<open>Restoring\<close>

text \<open>
  The replay of the ordered publications into a temporary store; the context is observed again by every
  inner publication, \<open>ctx_at i\<close> for the i-th.
\<close>

fun restore_into ::
  "(string \<Rightarrow> digest) \<Rightarrow> (nat \<Rightarrow> ctx) \<Rightarrow> digest \<Rightarrow> nat \<Rightarrow> position_publication list \<Rightarrow> acct_store \<Rightarrow> acct_store result" where
  "restore_into sha ctx_at positionID i [] temporary = Inr temporary"
| "restore_into sha ctx_at positionID i (publication # rest) temporary =
     (if af_position (pp_fill publication) \<noteq> positionID then Inl (AccountingStorage ErrCorruptCheckpoint_acct)
      else case PublishPosition sha (ctx_at i) publication temporary of
        (_, Inl _) \<Rightarrow> Inl (AccountingStorage ErrCorruptCheckpoint_acct)
      | (temporary', Inr _) \<Rightarrow> restore_into sha ctx_at positionID (Suc i) rest temporary')"

definition RestorePosition ::
  "(string \<Rightarrow> digest) \<Rightarrow> bool \<Rightarrow> (nat \<Rightarrow> ctx) \<Rightarrow> position_publication list \<Rightarrow> acct_store \<Rightarrow> acct_store \<times> unit result" where
  "RestorePosition sha ctx_done ctx_at publications store =
     (if ctx_done then (store, Inl ContextDone)
      else if publications = [] then (store, Inl (AccountingStorage ErrCorruptCheckpoint_acct))
      else
        let ordered = sort_key (\<lambda>p. pn_revision (ps_spec (pc_snapshot (pp_next p)))) publications;
            positionID = af_position (pp_fill (hd ordered)) in
        case restore_into sha ctx_at positionID 0 ordered (empty_acct_store (ac_limits store)) of
          Inl e \<Rightarrow> (store, Inl e)
        | Inr temporary \<Rightarrow>
        if has (ac_current store) positionID
        then (store, Inl (collision ''position'' (digest_string positionID)))
        else if size_of (ac_current store) + 1 > al_positions (ac_limits store) \<or>
                totalRevisions store + int (length ordered) > al_revisions (ac_limits store) \<or>
                size_of (ac_fills store) + int (length ordered) > al_applications (ac_limits store) \<or>
                size_of (ac_publications store) + int (length ordered) > al_publications (ac_limits store)
        then (store, Inl (AccountingStorage ErrCapacityExhausted_acct))
        else case find (\<lambda>(i, value). case map_of (ac_fills store) i of None \<Rightarrow> False
               | Some existing \<Rightarrow> af_raw (sf_fill existing) \<noteq> af_raw (sf_fill value)) (ac_fills temporary) of
          Some (i, _) \<Rightarrow> (store, Inl (collision ''fill'' (digest_string i)))
        | None \<Rightarrow>
        case find (\<lambda>(i, value). case map_of (ac_ingestions store) i of None \<Rightarrow> False
               | Some existing \<Rightarrow> ip_raw existing \<noteq> ip_raw value) (ac_ingestions temporary) of
          Some (i, _) \<Rightarrow> (store, Inl (collision ''ingestion'' (digest_string i)))
        | None \<Rightarrow>
        case find (\<lambda>(k, i). case map_of (ac_ingestion_sources store) k of None \<Rightarrow> False
               | Some existing \<Rightarrow> existing \<noteq> i) (ac_ingestion_sources temporary) of
          Some (k, _) \<Rightarrow> (store, Inl (collision ''ingestion_source'' k))
        | None \<Rightarrow>
          (store\<lparr>ac_current := put positionID (get_or 0 (ac_current temporary) positionID) (ac_current store),
                 ac_checkpoints := put positionID (get_or [] (ac_checkpoints temporary) positionID) (ac_checkpoints store),
                 ac_applications := put positionID (get_or [] (ac_applications temporary) positionID) (ac_applications store),
                 ac_fills := put_all (ac_fills temporary) (ac_fills store),
                 ac_publications := put_all (ac_publications temporary) (ac_publications store),
                 ac_ingestions := put_all (ac_ingestions temporary) (ac_ingestions store),
                 ac_ingestion_sources := put_all (ac_ingestion_sources temporary) (ac_ingestion_sources store)\<rparr>,
           Inr ()))"

section \<open>Queries\<close>

text \<open>The current checkpoint; None stands for the zero checkpoint that is never stored.\<close>

definition CurrentPositionCheckpoint :: "ctx \<Rightarrow> digest \<Rightarrow> acct_store \<Rightarrow> position_checkpoint option result" where
  "CurrentPositionCheckpoint ctx pid store =
     (if fst ctx then Inl ContextDone
      else case map_of (ac_current store) pid of
        None \<Rightarrow> Inl (AccountingStorage ErrNotFound_acct)
      | Some revision \<Rightarrow> Inr (acct_checkpoint store pid revision))"

definition PositionCheckpoint :: "ctx \<Rightarrow> digest \<Rightarrow> nat \<Rightarrow> acct_store \<Rightarrow> position_checkpoint result" where
  "PositionCheckpoint ctx pid revision store =
     (if fst ctx then Inl ContextDone
      else case acct_checkpoint store pid revision of
        None \<Rightarrow> Inl (AccountingStorage ErrNotFound_acct) | Some value \<Rightarrow> Inr value)"

definition Position :: "ctx \<Rightarrow> digest \<Rightarrow> acct_store \<Rightarrow> position_snapshot option result" where
  "Position ctx pid store = map_sum id (map_option pc_snapshot) (CurrentPositionCheckpoint ctx pid store)"

definition ApplicationByFill :: "ctx \<Rightarrow> digest \<Rightarrow> acct_store \<Rightarrow> (fill_application \<times> accounting_fill) result" where
  "ApplicationByFill ctx fid store =
     (if fst ctx then Inl ContextDone
      else case map_of (ac_fills store) fid of
        None \<Rightarrow> Inl (AccountingStorage ErrNotFound_acct)
      | Some value \<Rightarrow> Inr (sf_application value, sf_fill value))"

definition Applications :: "ctx \<Rightarrow> digest \<Rightarrow> acct_store \<Rightarrow> fill_application list result" where
  "Applications ctx pid store =
     (if fst ctx then Inl ContextDone
      else case map_of (ac_applications store) pid of
        None \<Rightarrow> Inl (AccountingStorage ErrNotFound_acct) | Some values \<Rightarrow> Inr values)"

definition Publications :: "ctx \<Rightarrow> digest \<Rightarrow> acct_store \<Rightarrow> position_publication list result" where
  "Publications ctx pid store =
     (if fst ctx then Inl ContextDone
      else let values = map (sq_value \<circ> snd) (filter (\<lambda>(_, v). pr_position (sq_receipt v) = pid) (ac_publications store)) in
      if values = [] then Inl (AccountingStorage ErrNotFound_acct)
      else Inr (sort_key (\<lambda>p. pn_revision (ps_spec (pc_snapshot (pp_next p)))) values))"

definition CommittedPublication_acct :: "ctx \<Rightarrow> digest \<Rightarrow> acct_store \<Rightarrow> position_receipt result" where
  "CommittedPublication_acct ctx pid store =
     (if fst ctx then Inl ContextDone
      else case map_of (ac_publications store) pid of
        None \<Rightarrow> Inl (AccountingStorage ErrNotFound_acct) | Some value \<Rightarrow> Inr (sq_receipt value))"

definition IngestionProgress :: "ctx \<Rightarrow> digest \<Rightarrow> acct_store \<Rightarrow> ingestion_progress result" where
  "IngestionProgress ctx iid store =
     (if fst ctx then Inl ContextDone
      else case map_of (ac_ingestions store) iid of
        None \<Rightarrow> Inl (AccountingStorage ErrNotFound_acct) | Some value \<Rightarrow> Inr value)"

end
