(* ===== verification/Acct_Invariants.thy ===== *)
theory Acct_Invariants
  imports Acct_Store
begin

text \<open>
  Correctness of the in-memory position store: the invariant that ties revisions, checkpoints and fills
  of a position together, that publications keep it, and that the store is a revisioned repository in
  the sense of the locale \<open>repository\<close>.
\<close>

section \<open>Values of type PositionSnapshot\<close>

text \<open>
  \<open>PositionSnapshot\<close> is opaque and \<open>engine.Apply\<close> is the only caller of its constructor, so every snapshot
  a client can hold was produced by applying fills.
\<close>

inductive snapshot_made :: "(string \<Rightarrow> digest) \<Rightarrow> position_snapshot \<Rightarrow> bool" for sha where
  first: "Apply sha None f = Inr r \<Longrightarrow> fill_built sha f \<Longrightarrow> snapshot_made sha (ar_snapshot r)"
| more: "Apply sha (Some c) f = Inr r \<Longrightarrow> fill_built sha f \<Longrightarrow> snapshot_made sha c \<Longrightarrow> snapshot_made sha (ar_snapshot r)"

lemma snapshot_made_ok: "snapshot_made sha ps \<Longrightarrow> position_ok sha ps"
proof (induction rule: snapshot_made.induct)
  case (first f r)
  then show ?case using Apply_ok [of sha None f r] by (simp add: current_ok_def)
next
  case (more c f r)
  then show ?case using Apply_ok [of sha "Some c" f r] by (simp add: current_ok_def)
qed

definition publication_made :: "(string \<Rightarrow> digest) \<Rightarrow> position_publication \<Rightarrow> bool" where
  "publication_made sha p \<longleftrightarrow> snapshot_made sha (pc_snapshot (pp_next p)) \<and> fill_built sha (pp_fill p)"

section \<open>The invariant\<close>

definition acct_head :: "acct_store \<Rightarrow> digest \<Rightarrow> nat" where
  "acct_head st pid = get_or 0 (ac_current st) pid"

text \<open>A quantity of the stored fills of a position on one side.\<close>

definition fills_sum :: "(accounting_fill \<Rightarrow> int) \<Rightarrow> (digest, stored_fill) gomap \<Rightarrow> digest \<Rightarrow> bool \<Rightarrow> int" where
  "fills_sum g fs pid buy =
     (\<Sum>(_, v) \<leftarrow> fs. if af_position (sf_fill v) = pid \<and> (fill_side (sf_fill v) = SideBuy) = buy
       then g (sf_fill v) else 0)"

abbreviation fill_value :: "accounting_fill \<Rightarrow> int" where
  "fill_value f \<equiv> fill_price f * fill_qty f"

text \<open>
  The totals of a position are those of the fills stored for it.
\<close>

definition totals_match :: "(digest, stored_fill) gomap \<Rightarrow> digest \<Rightarrow> position_spec \<Rightarrow> bool" where
  "totals_match fs pid s \<longleftrightarrow>
     pn_bought_quantity s = fills_sum fill_qty fs pid True \<and> pn_sold_quantity s = fills_sum fill_qty fs pid False \<and>
     minor (pn_bought_value s) = fills_sum fill_value fs pid True \<and>
     minor (pn_sold_value s) = fills_sum fill_value fs pid False"

definition position_head_ok :: "(string \<Rightarrow> digest) \<Rightarrow> acct_store \<Rightarrow> digest \<Rightarrow> nat \<Rightarrow> bool" where
  "position_head_ok sha st pid n \<longleftrightarrow> (\<exists>c. acct_checkpoint st pid n = Some c \<and> snapshot_made sha (pc_snapshot c) \<and>
     NewPositionCheckpoint sha c = Inr c \<and>
     pn_position (ps_spec (pc_snapshot c)) = pid \<and> pn_revision (ps_spec (pc_snapshot c)) = n \<and> 0 < n \<and>
     totals_match (ac_fills st) pid (ps_spec (pc_snapshot c)))"

definition acct_inv :: "(string \<Rightarrow> digest) \<Rightarrow> acct_store \<Rightarrow> bool" where
  "acct_inv sha st \<longleftrightarrow> gomap_wf (ac_fills st) \<and>
     (\<forall>pid n. map_of (ac_current st) pid = Some n \<longrightarrow> position_head_ok sha st pid n) \<and>
     (\<forall>pid n c. acct_checkpoint st pid n = Some c \<longrightarrow> 0 < n \<and> n \<le> acct_head st pid) \<and>
     (\<forall>pid n c c'. acct_checkpoint st pid n = Some c \<longrightarrow> acct_checkpoint st pid (Suc n) = Some c' \<longrightarrow>
        pc_parent c' = pc_checksum c) \<and>
     (\<forall>i v. map_of (ac_fills st) i = Some v \<longrightarrow> has (ac_current st) (af_position (sf_fill v)))"

lemma acct_invD:
  assumes "acct_inv sha st"
  shows "gomap_wf (ac_fills st)"
    and "map_of (ac_current st) pid = Some n \<Longrightarrow> position_head_ok sha st pid n"
    and "acct_checkpoint st pid n = Some c \<Longrightarrow> 0 < n \<and> n \<le> acct_head st pid"
    and "acct_checkpoint st pid n = Some c \<Longrightarrow> acct_checkpoint st pid (Suc n) = Some c' \<Longrightarrow> pc_parent c' = pc_checksum c"
    and "map_of (ac_fills st) i = Some v \<Longrightarrow> has (ac_current st) (af_position (sf_fill v))"
  using assms unfolding acct_inv_def by blast+

lemma empty_acct_store_inv: "acct_inv sha (empty_acct_store lim)"
  by (simp add: acct_inv_def empty_acct_store_def acct_checkpoint_def get_or_def)

lemma fills_sum_simps [simp]:
  "fills_sum g [] pid buy = 0"
  "fills_sum g (fs @ [(i, v)]) pid buy = fills_sum g fs pid buy +
     (if af_position (sf_fill v) = pid \<and> (fill_side (sf_fill v) = SideBuy) = buy then g (sf_fill v) else 0)"
  by (simp_all add: fills_sum_def)

lemma fills_sum_none:
  assumes "\<And>i v. (i, v) \<in> set fs \<Longrightarrow> af_position (sf_fill v) \<noteq> pid"
  shows "fills_sum g fs pid buy = 0"
proof -
  have "map (\<lambda>(_, v). if af_position (sf_fill v) = pid \<and> (fill_side (sf_fill v) = SideBuy) = buy then g (sf_fill v) else 0) fs =
      map (\<lambda>_. 0) fs"
    by (intro map_cong) (use assms in auto)
  then show ?thesis by (simp only: fills_sum_def sum_list_0)
qed

lemma no_fills_unknown_position:
  assumes "acct_inv sha st" "\<not> has (ac_current st) pid"
  shows "fills_sum g (ac_fills st) pid buy = 0"
proof (rule fills_sum_none)
  fix i v assume "(i, v) \<in> set (ac_fills st)"
  then have "map_of (ac_fills st) i = Some v" using acct_invD(1) [OF assms(1)] by (simp add: gomap_wf_def)
  with acct_invD(5) [OF assms(1)] assms(2) show "af_position (sf_fill v) \<noteq> pid" by auto
qed

section \<open>Publishing\<close>

lemma PublishPosition_cases:
  assumes "PublishPosition sha ctx p st = (st', x)"
  obtains (unchanged) "st' = st" "\<And>r. x = Inr r \<Longrightarrow> pr_status r = PublicationIdempotent"
  | (commit) v where "NewPositionPublication sha p = Inr v" "\<not> fst ctx" "\<not> snd ctx"
      "\<not> has (ac_publications st) (pp_id v)" "admit_position sha st v = Inr ()"
      "st' = commit_position st v" "x = Inr (position_receipt_of v)"
proof (cases "NewPositionPublication sha p")
  case (Inl e)
  with assms show thesis by (intro unchanged) (auto simp: PublishPosition_def split: if_splits)
next
  case v: (Inr v)
  show thesis
  proof (cases "fst ctx \<or> snd ctx \<or> has (ac_publications st) (pp_id v)")
    case True
    with assms v show thesis
      by (intro unchanged) (auto simp: PublishPosition_def has_def split: if_splits option.splits)
  next
    case live: False
    show thesis
    proof (cases "admit_position sha st v")
      case (Inl e)
      with assms v live show thesis by (intro unchanged) (auto simp: PublishPosition_def has_def)
    next
      case (Inr u)
      with assms v live show thesis by (intro commit [of v]) (simp_all add: PublishPosition_def has_def)
    qed
  qed
qed

lemma admit_position_Inr:
  assumes "admit_position sha st v = Inr ()"
  defines "pid \<equiv> af_position (pp_fill v)"
  obtains r where
    "check_ingestion st v = Inr ()" "\<not> has (ac_fills st) (fl_id (af_fill (pp_fill v)))"
    "acct_head st pid = pp_expected_revision v"
    "Apply sha (if acct_head st pid > 0 then map_option pc_snapshot (acct_checkpoint st pid (acct_head st pid)) else None)
       (pp_fill v) = Inr r"
    "ps_raw (ar_snapshot r) = ps_raw (pc_snapshot (pp_next v))"
    "fa_raw (ar_application r) = fa_raw (pp_application v)"
    "acct_head st pid > 0 \<Longrightarrow> \<exists>c. acct_checkpoint st pid (acct_head st pid) = Some c \<and> pc_checksum c = pp_expected_checkpoint v"
    "acct_head st pid = 0 \<Longrightarrow> size_of (ac_current st) < al_positions (ac_limits st)"
    "totalRevisions st < al_revisions (ac_limits st)" "size_of (ac_fills st) < al_applications (ac_limits st)"
    "size_of (ac_publications st) < al_publications (ac_limits st)" "\<not> ac_fail_before_commit st"
  using assms
  by (auto simp: admit_position_def acct_head_def Let_def has_def split: if_splits option.splits sum.splits)

lemma position_ok_raw:
  assumes "position_ok sha ps"
  shows "ps_raw ps = canonicalPosition (ps_spec ps) (ps_state ps)" "pn_position (ps_spec ps) \<noteq> 0"
    "0 < pn_revision (ps_spec ps)"
proof -
  from assms obtain spec where "NewPositionSnapshot sha spec = Inr ps" by (auto simp: position_ok_def)
  from NewPositionSnapshot_Inr [OF this]
  show "ps_raw ps = canonicalPosition (ps_spec ps) (ps_state ps)" "pn_position (ps_spec ps) \<noteq> 0"
    "0 < pn_revision (ps_spec ps)" by auto
qed

text \<open>Snapshots with the same bytes agree on position, revision and totals.\<close>

lemma same_raw_totals:
  assumes "position_ok sha a" "position_ok sha b" "ps_raw a = ps_raw b"
  shows "pn_position (ps_spec a) = pn_position (ps_spec b)" "pn_revision (ps_spec a) = pn_revision (ps_spec b)"
    "totals_match fs pid (ps_spec a) = totals_match fs pid (ps_spec b)"
proof -
  have "canonicalPosition (ps_spec a) (ps_state a) = canonicalPosition (ps_spec b) (ps_state b)"
    using position_ok_raw(1) [OF assms(1)] position_ok_raw(1) [OF assms(2)] assms(3) by simp
  note d = canonicalPosition_determines [OF this]
  show "pn_position (ps_spec a) = pn_position (ps_spec b)" "pn_revision (ps_spec a) = pn_revision (ps_spec b)"
    "totals_match fs pid (ps_spec a) = totals_match fs pid (ps_spec b)"
    using d by (simp_all add: totals_match_def)
qed

text \<open>One applied fill, appended to the stored fills, keeps the totals.\<close>

lemma applied_totals:
  assumes "applied f s s'" "totals_match fs (af_position f) s"
  shows "totals_match (fs @ [(i, \<lparr>sf_fill = f, sf_application = a\<rparr>)]) (af_position f) s'"
  using assms by (auto simp: applied_def totals_match_def Let_def)

lemma opening_totals:
  assumes "fill_built sha f" "\<And>g buy. fills_sum g fs pid buy = 0"
  shows "totals_match fs pid (base_spec None f)" "pn_revision (base_spec None f) = 0"
  using fill_built_facts(8) [OF assms(1)] assms(2)
  by (simp_all add: totals_match_def base_spec_def opening_spec_def money_or_zero_eq)

lemma position_commit_facts:
  assumes "acct_inv sha st" "publication_made sha p" "NewPositionPublication sha p = Inr v"
    "admit_position sha st v = Inr ()"
  defines "pid \<equiv> af_position (pp_fill p)" and "n \<equiv> pp_expected_revision p"
  shows "acct_head st pid = n" "\<not> has (ac_fills st) (fl_id (af_fill (pp_fill p)))"
    "snapshot_made sha (pc_snapshot (pp_next v))" "pn_position (ps_spec (pc_snapshot (pp_next v))) = pid"
    "pn_revision (ps_spec (pc_snapshot (pp_next v))) = Suc n"
    "totals_match (ac_fills st @ [(i, \<lparr>sf_fill = pp_fill p, sf_application = a\<rparr>)]) pid (ps_spec (pc_snapshot (pp_next v)))"
    "0 < n \<Longrightarrow> \<exists>c. acct_checkpoint st pid n = Some c \<and> pc_checksum c = pc_parent (pp_next v)"
proof -
  note v = NewPositionPublication_Inr [OF assms(3)]
  have f: "fill_built sha (pp_fill p)" and made: "snapshot_made sha (pc_snapshot (pp_next v))"
    using assms(2) v by (auto simp: publication_made_def)
  have agree: "pn_position (ps_spec (pc_snapshot (pp_next v))) = pid" "pc_parent (pp_next v) = pp_expected_checkpoint v"
    using v(4,7) by (auto simp: publication_agrees_def pid_def Let_def)
  show "snapshot_made sha (pc_snapshot (pp_next v))" by (rule made)
  show "pn_position (ps_spec (pc_snapshot (pp_next v))) = pid" by (rule agree(1))
  obtain r where fresh: "\<not> has (ac_fills st) (fl_id (af_fill (pp_fill p)))" and head: "acct_head st pid = n"
    and ap: "Apply sha (if n > 0 then map_option pc_snapshot (acct_checkpoint st pid n) else None) (pp_fill p) = Inr r"
    and raw: "ps_raw (ar_snapshot r) = ps_raw (pc_snapshot (pp_next v))"
    and cur: "n > 0 \<Longrightarrow> \<exists>c. acct_checkpoint st pid n = Some c \<and> pc_checksum c = pp_expected_checkpoint v"
    using assms(4) by (rule admit_position_Inr) (use v(2,4) in \<open>simp add: pid_def n_def cong: if_cong\<close>)
  show "acct_head st pid = n" "\<not> has (ac_fills st) (fl_id (af_fill (pp_fill p)))" by (rule head fresh)+
  show "0 < n \<Longrightarrow> \<exists>c. acct_checkpoint st pid n = Some c \<and> pc_checksum c = pc_parent (pp_next v)"
    using cur agree(2) by simp
  let ?cur = "if n > 0 then map_option pc_snapshot (acct_checkpoint st pid n) else None"
  have base: "current_ok sha ?cur \<and> totals_match (ac_fills st) pid (base_spec ?cur (pp_fill p)) \<and>
      pn_revision (base_spec ?cur (pp_fill p)) = n"
  proof (cases "map_of (ac_current st) pid")
    case None
    then have "n = 0" "\<not> has (ac_current st) pid" using head by (auto simp: acct_head_def has_def)
    with opening_totals [OF f no_fills_unknown_position [OF assms(1)]] show ?thesis by (simp add: current_ok_def)
  next
    case (Some k)
    then have "k = n" using head by (simp add: acct_head_def)
    with Some acct_invD(2) [OF assms(1)] have "position_head_ok sha st pid n" by blast
    then show ?thesis
      by (auto simp: position_head_ok_def current_ok_def base_spec_def snapshot_made_ok)
  qed
  note ok = Apply_ok [OF ap f base [THEN conjunct1]]
  have pos: "position_ok sha (ar_snapshot r)" using ok by simp
  note same = same_raw_totals [OF pos snapshot_made_ok [OF made] raw]
  show "pn_revision (ps_spec (pc_snapshot (pp_next v))) = Suc n"
    using ok base same(2) by (simp add: applied_def Let_def)
  show "totals_match (ac_fills st @ [(i, \<lparr>sf_fill = pp_fill p, sf_application = a\<rparr>)]) pid (ps_spec (pc_snapshot (pp_next v)))"
    using applied_totals [OF ok [THEN conjunct2]] base unfolding same(3) [symmetric] pid_def by blast
qed

lemma commit_position_views:
  "acct_head (commit_position st v) pid = (if pid = af_position (pp_fill v)
     then pn_revision (ps_spec (pc_snapshot (pp_next v))) else acct_head st pid)"
  "acct_checkpoint (commit_position st v) pid n =
     (if pid = af_position (pp_fill v) \<and> n = pn_revision (ps_spec (pc_snapshot (pp_next v)))
      then Some (pp_next v) else acct_checkpoint st pid n)"
  "map_of (ac_current (commit_position st v)) =
     (map_of (ac_current st))(af_position (pp_fill v) \<mapsto> pn_revision (ps_spec (pc_snapshot (pp_next v))))"
  "ac_fills (commit_position st v) = put (fl_id (af_fill (pp_fill v)))
     \<lparr>sf_fill = pp_fill v, sf_application = pp_application v\<rparr> (ac_fills st)"
  by (auto simp: acct_head_def acct_checkpoint_def commit_position_def position_receipt_of_def Let_def)

lemma commit_position_inv:
  assumes "acct_inv sha st" "publication_made sha p" "NewPositionPublication sha p = Inr v"
    "admit_position sha st v = Inr ()"
  shows "acct_inv sha (commit_position st v)"
proof -
  note v = NewPositionPublication_Inr [OF assms(3)]
  define pid n where "pid = af_position (pp_fill p)" and "n = pp_expected_revision p"
  let ?st = "commit_position st v"
  note facts = position_commit_facts [OF assms, folded pid_def n_def]
  have fills: "ac_fills ?st = ac_fills st @ [(fl_id (af_fill (pp_fill p)), \<lparr>sf_fill = pp_fill p, sf_application = pp_application p\<rparr>)]"
    using facts(2) v by (simp add: commit_position_views put_fresh)
  have views: "acct_head ?st q = (if q = pid then Suc n else acct_head st q)"
    "acct_checkpoint ?st q k = (if q = pid \<and> k = Suc n then Some (pp_next v) else acct_checkpoint st q k)"
    "map_of (ac_current ?st) = (map_of (ac_current st))(pid \<mapsto> Suc n)" for q k
    using v(4) facts(5) by (simp_all add: commit_position_views pid_def)
  have beyond: "acct_checkpoint st pid k = None" if "n < k" for k
    using acct_invD(3) [OF assms(1), of pid k] facts(1) that by (cases "acct_checkpoint st pid k") auto
  have "gomap_wf (ac_fills ?st)" using acct_invD(1) [OF assms(1)] by (simp add: commit_position_views)
  moreover have "position_head_ok sha ?st q k" if "map_of (ac_current ?st) q = Some k" for q k
  proof (cases "q = pid")
    case True
    with that facts(3-6) NewPositionCheckpoint_idem [OF v(8)] show ?thesis by (simp add: position_head_ok_def views fills)
  next
    case False
    then have "fills_sum g (ac_fills ?st) q buy = fills_sum g (ac_fills st) q buy" for g buy
      by (simp add: fills pid_def)
    with False that acct_invD(2) [OF assms(1), of q k] show ?thesis
      by (simp add: position_head_ok_def views totals_match_def)
  qed
  moreover have "0 < k \<and> k \<le> acct_head ?st q" if "acct_checkpoint ?st q k = Some c" for q k c
    using that acct_invD(3) [OF assms(1), of q k c] facts(1) by (auto simp: views split: if_splits)
  moreover have "pc_parent c' = pc_checksum c"
    if "acct_checkpoint ?st q k = Some c" "acct_checkpoint ?st q (Suc k) = Some c'" for q k c c'
  proof (cases "q = pid \<and> k = n")
    case True
    then have "0 < n" using that(1) acct_invD(3) [OF assms(1), of pid n c] by (simp add: views)
    with True that facts(7) show ?thesis by (auto simp: views)
  next
    case False
    with that acct_invD(4) [OF assms(1), of q k c c'] beyond show ?thesis by (auto simp: views split: if_splits)
  qed
  moreover have "has (ac_current ?st) (af_position (sf_fill w))" if "map_of (ac_fills ?st) i = Some w" for i w
    using that acct_invD(5) [OF assms(1), of i w] v(4)
    by (auto simp: commit_position_views(4) has_def views pid_def split: if_splits)
  ultimately show ?thesis unfolding acct_inv_def by blast
qed

interpretation acct: repository "acct_inv sha" "publication_made sha \<circ> snd" acct_head acct_checkpoint
  "\<lambda>(ctx, p). PublishPosition sha ctx p" "\<lambda>(_, p). af_position (pp_fill p)"
  "\<lambda>(_, p). pp_expected_revision p" "\<lambda>r. pr_status r = PublicationCommitted" for sha
proof (unfold_locales, goal_cases)
  case (1 s cp s' x)
  then obtain ctx p where cp: "cp = (ctx, p)" and pub: "PublishPosition sha ctx p s = (s', x)" by (cases cp) auto
  from pub show ?case
    by (rule PublishPosition_cases) (use 1 cp in \<open>auto intro: commit_position_inv\<close>)
next
  case (2 cp s s' e)
  then obtain ctx p where pub: "PublishPosition sha ctx p s = (s', Inl e)" by (cases cp) auto
  then show ?case by (rule PublishPosition_cases) auto
next
  case (3 cp s s' r)
  then obtain ctx p where pub: "PublishPosition sha ctx p s = (s', Inr r)" by (cases cp) auto
  then show ?case by (rule PublishPosition_cases) (use 3 in \<open>auto simp: position_receipt_of_def\<close>)
next
  case (4 s cp s' r)
  then obtain ctx p where cp: "cp = (ctx, p)" and pub: "PublishPosition sha ctx p s = (s', Inr r)" by (cases cp) auto
  from pub show ?case
  proof (cases rule: PublishPosition_cases)
    case unchanged
    with 4 show ?thesis by simp
  next
    case (commit v)
    have "publication_made sha p" using 4 cp by simp
    note facts = position_commit_facts [OF 4(1) this commit(1,5)]
    from facts(1,5) commit NewPositionPublication_Inr [OF commit(1)] cp show ?thesis
      by (simp add: commit_position_views)
  qed
next
  case (5 s cp s' x k)
  then obtain ctx p where cp: "cp = (ctx, p)" and pub: "PublishPosition sha ctx p s = (s', x)" by (cases cp) auto
  from pub show ?case
  proof (cases rule: PublishPosition_cases)
    case (commit v)
    with 5 cp NewPositionPublication_Inr(4) [OF commit(1)] show ?thesis by (simp add: commit_position_views)
  qed simp
next
  case (6 s cp s' x k n c)
  then obtain ctx p where cp: "cp = (ctx, p)" and pub: "PublishPosition sha ctx p s = (s', x)" by (cases cp) auto
  from pub show ?case
  proof (cases rule: PublishPosition_cases)
    case unchanged
    with 6 show ?thesis by simp
  next
    case (commit v)
    have "publication_made sha p" using 6 cp by simp
    note facts = position_commit_facts [OF 6(1) this commit(1,5)]
    from facts(1,5) commit NewPositionPublication_Inr(4) [OF commit(1)] acct_invD(3) [OF 6(1) 6(4)] 6(4) show ?thesis
      by (auto simp: commit_position_views)
  qed
qed

end
