(* ===== verification/Acct_Coordinator.thy ===== *)
theory Acct_Coordinator
  imports Acct_Invariants
begin

text \<open>
  \<open>internal/accounting/coordinator/coordinator.go\<close>: the coordinator through which fills reach the position
  store. It admits one fill per position at a time, bounds the number of concurrent operations and
  refuses work after shutdown. \<open>applyFill\<close> is the whole handler run without interleaving; the relation
  \<open>coord_step\<close> runs any number of handlers concurrently, interleaved between their accesses to the shared
  state, on one store. \<open>internal/accounting/replay/replay.go\<close> is at the end.
\<close>

section \<open>State\<close>

record coord_config =
  cc_max_concurrency :: int
  cc_timeout :: int

definition DefaultConfig :: coord_config where
  "DefaultConfig = \<lparr>cc_max_concurrency = 4, cc_timeout = 100000000\<rparr>"

text \<open>
  \<open>co_slots\<close> is the number of occupied slots of the semaphore channel; \<open>inFlight\<close> and the wait group count
  together.
\<close>

record coordinator =
  co_config :: coord_config
  co_running :: "(digest, digest) gomap"
  co_closed :: bool
  co_in_flight :: int
  co_slots :: int

definition NewCoordinator :: "coord_config \<Rightarrow> coordinator result" where
  "NewCoordinator config =
     (if cc_max_concurrency config \<le> 0 \<or> cc_max_concurrency config > 64 \<or> cc_timeout config \<le> 0 \<or>
         cc_timeout config > 60000000000
      then Inl (AccountingCoordinator ErrInvalidConfiguration)
      else Inr \<lparr>co_config = config, co_running = [], co_closed = False, co_in_flight = 0, co_slots = 0\<rparr>)"

definition Health_coord :: "coordinator \<Rightarrow> bool \<times> int \<times> int \<times> int" where
  "Health_coord c = (co_closed c, co_in_flight c, size_of (co_running c), cc_max_concurrency (co_config c))"

definition reserve :: "digest \<Rightarrow> digest \<Rightarrow> coordinator \<Rightarrow> coordinator \<times> unit result" where
  "reserve pid checksum c =
     (if co_closed c then (c, Inl (AccountingCoordinator ErrShutdown))
      else case map_of (co_running c) pid of
        Some existing \<Rightarrow>
          if existing = checksum then (c, Inl (AccountingCoordinator ErrDuplicateInProgress))
          else (c, Inl (AccountingCoordinator ErrPositionBusy))
      | None \<Rightarrow> (c\<lparr>co_running := put pid checksum (co_running c), co_in_flight := co_in_flight c + 1\<rparr>, Inr ()))"

definition release :: "digest \<Rightarrow> coordinator \<Rightarrow> coordinator" where
  "release pid c = c\<lparr>co_running := AList.delete pid (co_running c), co_in_flight := co_in_flight c - 1\<rparr>"

text \<open>
  \<open>Shutdown\<close>: the body of \<open>stopOnce\<close>, then the wait for the operations in flight or for the caller's
  context; None while neither has happened.
\<close>

definition Shutdown :: "bool \<Rightarrow> coordinator \<Rightarrow> coordinator \<times> unit result option" where
  "Shutdown ctx_done c =
     (let c' = c\<lparr>co_closed := True\<rparr> in
      (c', if co_in_flight c' = 0 then Some (Inr ()) else if ctx_done then Some (Inl ContextDone) else None))"

section \<open>Applying a fill\<close>

text \<open>What the handler observes of its contexts, in the order of the code, and which case of the select fired.\<close>

record apply_env =
  ae_entry :: bool
  ae_lookup :: bool
  ae_progress :: bool
  ae_receipt :: bool
  ae_select :: select_outcome
  ae_read :: bool
  ae_ready :: bool
  ae_publish :: ctx

definition publication_id :: "(string \<Rightarrow> digest) \<Rightarrow> accounting_fill \<Rightarrow> digest" where
  "publication_id sha fill =
     (case NewPublicationID_acct sha (af_position fill) (digest_string (fl_id (af_fill fill))) of
        Inl _ \<Rightarrow> 0 | Inr i \<Rightarrow> i)"

text \<open>The answer for a fill that is already applied; None when the fill is not in the store.\<close>

definition replayed_fill ::
  "(string \<Rightarrow> digest) \<Rightarrow> apply_env \<Rightarrow> accounting_fill \<Rightarrow> ingestion_metadata option \<Rightarrow> acct_store \<Rightarrow>
   position_receipt result option" where
  "replayed_fill sha env fill metadata store =
     (let fid = fl_id (af_fill fill) in
      case ApplicationByFill (ae_lookup env, False) fid store of
        Inl e \<Rightarrow> if e = AccountingStorage ErrNotFound_acct then None else Some (Inl e)
      | Inr (application, existing) \<Rightarrow> Some (
          if af_raw existing \<noteq> af_raw fill then Inl (collision ''fill'' (digest_string fid))
          else if (case metadata of None \<Rightarrow> False | Some m \<Rightarrow>
                    (case IngestionProgress (ae_progress env, False) (im_id m) store of
                       Inl _ \<Rightarrow> True
                     | Inr progress \<Rightarrow> ip_fill progress \<noteq> fid \<or>
                         im_source_checksum (ip_metadata progress) \<noteq> im_source_checksum m))
          then Inl (collision ''ingestion'' (digest_string (case metadata of None \<Rightarrow> 0 | Some m \<Rightarrow> im_id m)))
          else case CommittedPublication_acct (ae_receipt env, False) (publication_id sha fill) store of
            Inl _ \<Rightarrow> Inl (AccountingStorage ErrInternal_acct)
          | Inr receipt \<Rightarrow>
              if pr_application receipt \<noteq> as_id (fa_spec application) then Inl (AccountingStorage ErrInternal_acct)
              else Inr (receipt\<lparr>pr_status := PublicationIdempotent\<rparr>)))"

text \<open>From the read of the current checkpoint to the validated publication.\<close>

definition prepare_from ::
  "(string \<Rightarrow> digest) \<Rightarrow> accounting_fill \<Rightarrow> ingestion_metadata option \<Rightarrow> position_checkpoint option \<Rightarrow>
   position_publication result" where
  "prepare_from sha fill metadata current =
     (let expectedRevision = (case current of None \<Rightarrow> 0 | Some c \<Rightarrow> pn_revision (ps_spec (pc_snapshot c)));
          expectedChecksum = (case current of None \<Rightarrow> 0 | Some c \<Rightarrow> pc_checksum c);
          fid = fl_id (af_fill fill) in
      bind_r (Apply sha (map_option pc_snapshot current) fill) (\<lambda>result.
      bind_r (NewPositionCheckpoint sha
          \<lparr>pc_snapshot = ar_snapshot result, pc_snapshot_checksum = 0, pc_parent = expectedChecksum,
           pc_application = as_id (fa_spec (ar_application result)), pc_fill = fid, pc_checksum = 0, pc_raw = []\<rparr>)
        (\<lambda>nextCheckpoint.
      bind_r (case metadata of None \<Rightarrow> Inr None
              | Some m \<Rightarrow> map_sum id Some (NewIngestionProgress sha
                  \<lparr>ip_metadata = m, ip_fill = fid, ip_fill_checksum = af_checksum fill,
                   ip_position = af_position fill, ip_revision = pn_revision (ps_spec (ar_snapshot result)),
                   ip_application = as_id (fa_spec (ar_application result)),
                   ip_checkpoint_checksum = pc_checksum nextCheckpoint, ip_checksum = 0, ip_raw = []\<rparr>))
        (\<lambda>progress.
      NewPositionPublication sha
        \<lparr>pp_id = publication_id sha fill, pp_expected_revision = expectedRevision,
         pp_expected_checkpoint = expectedChecksum, pp_fill = fill, pp_application = ar_application result,
         pp_next = nextCheckpoint, pp_ingestion = progress, pp_checksum = 0, pp_raw = []\<rparr>))))"

definition prepare_publication ::
  "(string \<Rightarrow> digest) \<Rightarrow> bool \<Rightarrow> accounting_fill \<Rightarrow> ingestion_metadata option \<Rightarrow> acct_store \<Rightarrow>
   position_publication result" where
  "prepare_publication sha read_done fill metadata store =
     (case CurrentPositionCheckpoint (read_done, False) (af_position fill) store of
        Inl e \<Rightarrow> if e = AccountingStorage ErrNotFound_acct then prepare_from sha fill metadata None else Inl e
      | Inr None \<Rightarrow> Inl (Accounting ErrPositionMismatch)
      | Inr (Some c) \<Rightarrow> prepare_from sha fill metadata (Some c))"

definition applyFill ::
  "(string \<Rightarrow> digest) \<Rightarrow> apply_env \<Rightarrow> accounting_fill \<Rightarrow> ingestion_metadata option \<Rightarrow> acct_store \<times> coordinator \<Rightarrow>
   (acct_store \<times> coordinator) \<times> position_receipt result" where
  "applyFill sha env fill metadata state =
     (let (store, c) = state in
      if ae_entry env then (state, Inl ContextDone)
      else if fill_is_zero fill then (state, Inl (Accounting ErrInvalidInput))
      else case replayed_fill sha env fill metadata store of
        Some answer \<Rightarrow> (state, answer)
      | None \<Rightarrow>
      case reserve (af_position fill) (af_checksum fill) c of
        (c1, Inl e) \<Rightarrow> ((store, c1), Inl e)
      | (c1, Inr _) \<Rightarrow>
      let released = release (af_position fill) c1 in
      case ae_select env of
        CallerDone \<Rightarrow> ((store, released), Inl ContextDone)
      | RunnerDone \<Rightarrow> ((store, released), Inl (AccountingCoordinator ErrShutdown))
      | Acquired \<Rightarrow>
      (case prepare_publication sha (ae_read env) fill metadata store of
         Inl e \<Rightarrow> ((store, released), Inl e)
       | Inr publication \<Rightarrow>
           if ae_ready env then ((store, released), Inl ContextDone)
           else let (store', answer) = PublishPosition sha (ae_publish env) publication store in
             ((store', released), answer)))"

definition ApplyFill ::
  "(string \<Rightarrow> digest) \<Rightarrow> apply_env \<Rightarrow> accounting_fill \<Rightarrow> acct_store \<times> coordinator \<Rightarrow>
   (acct_store \<times> coordinator) \<times> position_receipt result" where
  "ApplyFill sha env fill state = applyFill sha env fill None state"

definition ApplyIngestedFill ::
  "(string \<Rightarrow> digest) \<Rightarrow> apply_env \<Rightarrow> accounting_fill \<Rightarrow> ingestion_metadata \<Rightarrow> acct_store \<times> coordinator \<Rightarrow>
   (acct_store \<times> coordinator) \<times> position_receipt result" where
  "ApplyIngestedFill sha env fill metadata state =
     (if im_id metadata = 0 \<or> ab_portfolio (im_binding metadata) \<noteq> afs_portfolio (af_spec fill)
      then (state, Inl (Accounting ErrInvalidIngestion))
      else applyFill sha env fill (Some metadata) state)"

section \<open>Replay\<close>

text \<open>
  \<open>Engine.Replay\<close>: the fills sorted by position and canonical order, applied one after another; the
  first error is returned. \<open>env_at i\<close> is what the i-th application observes.
\<close>

fun replay_all ::
  "(string \<Rightarrow> digest) \<Rightarrow> (nat \<Rightarrow> apply_env) \<Rightarrow> nat \<Rightarrow> accounting_fill list \<Rightarrow> acct_store \<times> coordinator \<Rightarrow>
   (acct_store \<times> coordinator) \<times> position_receipt list result" where
  "replay_all sha env_at i [] state = (state, Inr [])"
| "replay_all sha env_at i (fill # fills) state =
     (case ApplyFill sha (env_at i) fill state of
        (state1, Inl e) \<Rightarrow> (state1, Inl e)
      | (state1, Inr receipt) \<Rightarrow>
          (case replay_all sha env_at (Suc i) fills state1 of
             (state2, Inl e) \<Rightarrow> (state2, Inl e)
           | (state2, Inr receipts) \<Rightarrow> (state2, Inr (receipt # receipts))))"

text \<open>
  The order of the sort: position, then \<open>Compare\<close> of the ordering keys; digests compare as their strings do
  (\<open>digest_string_less\<close>).
\<close>

definition replay_key :: "accounting_fill \<Rightarrow> digest \<times> instant \<times> instant \<times> digest" where
  "replay_key f = (af_position f, ok_occurred (af_ordering f), ok_received (af_ordering f), ok_fill (af_ordering f))"

definition Replay ::
  "(string \<Rightarrow> digest) \<Rightarrow> (nat \<Rightarrow> apply_env) \<Rightarrow> accounting_fill list \<Rightarrow> acct_store \<times> coordinator \<Rightarrow>
   (acct_store \<times> coordinator) \<times> position_receipt list result" where
  "Replay sha env_at fills state =
     (if \<exists>f \<in> set fills. fill_is_zero f then (state, Inl (AccountingCoordinator ErrInvalidReplay))
      else replay_all sha env_at 0 (sort_key replay_key fills) state)"

end
