(* ===== verification/Acct_Interleaving.thy ===== *)
theory Acct_Interleaving
  imports Acct_Coordinator
begin

text \<open>
  Concurrent handlers of the accounting coordinator. A call is in one of the phases between its accesses
  to the shared state: it holds a reservation, it also holds a slot of the semaphore, or it has computed
  its publication. Steps of different calls interleave in any order.
\<close>

section \<open>Publications that were prepared\<close>

lemma NewFillApplication_Inr:
  "NewFillApplication sha a = Inr b \<Longrightarrow>
     fa_spec b = a \<and> as_id a \<noteq> 0 \<and> as_next_revision a = wrap_u64 (as_previous_revision a + 1)"
  by (auto simp: NewFillApplication_def Let_def split: if_splits)

lemma Apply_application:
  assumes "Apply sha current f = Inr r"
  shows "as_position (fa_spec (ar_application r)) = af_position f"
    "as_fill (fa_spec (ar_application r)) = fl_id (af_fill f)"
    "as_fill_checksum (fa_spec (ar_application r)) = af_checksum f"
    "as_previous_revision (fa_spec (ar_application r)) = (case current of None \<Rightarrow> 0 | Some c \<Rightarrow> pn_revision (ps_spec c))"
    "as_previous_checksum (fa_spec (ar_application r)) = (case current of None \<Rightarrow> 0 | Some c \<Rightarrow> ps_checksum c)"
    "as_id (fa_spec (ar_application r)) \<noteq> 0"
    "as_next_revision (fa_spec (ar_application r)) = pn_revision (ps_spec (ar_snapshot r))"
    "as_next_revision (fa_spec (ar_application r)) = wrap_u64 (as_previous_revision (fa_spec (ar_application r)) + 1)"
    "as_next_checksum (fa_spec (ar_application r)) = ps_checksum (ar_snapshot r)"
proof -
  from assms obtain spec pr pc a where st: "start_spec current f = Inr (spec, pr, pc)"
    and na: "NewFillApplication sha a = Inr (ar_application r)" "as_position a = af_position f"
      "as_fill a = fl_id (af_fill f)" "as_fill_checksum a = af_checksum f" "as_previous_revision a = pr"
      "as_previous_checksum a = pc" "as_next_revision a = pn_revision (ps_spec (ar_snapshot r))"
      "as_next_checksum a = ps_checksum (ar_snapshot r)"
    by (auto simp: Apply_def Let_def split: if_splits)
  have "fa_spec (ar_application r) = a" "as_id a \<noteq> 0" "as_next_revision a = wrap_u64 (as_previous_revision a + 1)"
    using NewFillApplication_Inr [OF na(1)] by blast+
  moreover have "pr = (case current of None \<Rightarrow> 0 | Some c \<Rightarrow> pn_revision (ps_spec c))"
    "pc = (case current of None \<Rightarrow> 0 | Some c \<Rightarrow> ps_checksum c)"
    using st by (auto simp: start_spec_def Let_def split: option.splits if_splits)
  ultimately show "as_position (fa_spec (ar_application r)) = af_position f"
    "as_fill (fa_spec (ar_application r)) = fl_id (af_fill f)"
    "as_fill_checksum (fa_spec (ar_application r)) = af_checksum f"
    "as_previous_revision (fa_spec (ar_application r)) = (case current of None \<Rightarrow> 0 | Some c \<Rightarrow> pn_revision (ps_spec c))"
    "as_previous_checksum (fa_spec (ar_application r)) = (case current of None \<Rightarrow> 0 | Some c \<Rightarrow> ps_checksum c)"
    "as_id (fa_spec (ar_application r)) \<noteq> 0"
    "as_next_revision (fa_spec (ar_application r)) = pn_revision (ps_spec (ar_snapshot r))"
    "as_next_revision (fa_spec (ar_application r)) = wrap_u64 (as_previous_revision (fa_spec (ar_application r)) + 1)"
    "as_next_checksum (fa_spec (ar_application r)) = ps_checksum (ar_snapshot r)"
    using na by simp_all
qed

text \<open>A publication prepared from a checkpoint of a position.\<close>

definition prepared_from :: "(string \<Rightarrow> digest) \<Rightarrow> accounting_fill \<Rightarrow> position_checkpoint option \<Rightarrow> position_publication \<Rightarrow> bool" where
  "prepared_from sha f current p \<longleftrightarrow>
     pp_fill p = f \<and> pp_id p = publication_id sha f \<and>
     pp_expected_revision p = (case current of None \<Rightarrow> 0 | Some c \<Rightarrow> pn_revision (ps_spec (pc_snapshot c))) \<and>
     pp_expected_checkpoint p = (case current of None \<Rightarrow> 0 | Some c \<Rightarrow> pc_checksum c) \<and>
     as_previous_checksum (fa_spec (pp_application p)) = (case current of None \<Rightarrow> 0 | Some c \<Rightarrow> ps_checksum (pc_snapshot c)) \<and>
     (\<exists>r. Apply sha (map_option pc_snapshot current) f = Inr r \<and> pc_snapshot (pp_next p) = ar_snapshot r \<and>
        pp_application p = ar_application r) \<and>
     (\<exists>q. NewPositionPublication sha q = Inr p)"

lemma prepare_from_Inr:
  assumes "prepare_from sha f m current = Inr p"
  shows "prepared_from sha f current p"
proof -
  from assms obtain r nc progress where r: "Apply sha (map_option pc_snapshot current) f = Inr r"
    and nc: "NewPositionCheckpoint sha
          \<lparr>pc_snapshot = ar_snapshot r, pc_snapshot_checksum = 0,
           pc_parent = (case current of None \<Rightarrow> 0 | Some c \<Rightarrow> pc_checksum c),
           pc_application = as_id (fa_spec (ar_application r)), pc_fill = fl_id (af_fill f), pc_checksum = 0, pc_raw = []\<rparr> = Inr nc"
    and np: "NewPositionPublication sha
        \<lparr>pp_id = publication_id sha f,
         pp_expected_revision = (case current of None \<Rightarrow> 0 | Some c \<Rightarrow> pn_revision (ps_spec (pc_snapshot c))),
         pp_expected_checkpoint = (case current of None \<Rightarrow> 0 | Some c \<Rightarrow> pc_checksum c), pp_fill = f,
         pp_application = ar_application r, pp_next = nc, pp_ingestion = progress, pp_checksum = 0, pp_raw = []\<rparr> = Inr p"
    by (auto simp: prepare_from_def Let_def)
  from NewPositionPublication_Inr [OF np] NewPositionCheckpoint_Inr [OF nc] Apply_application [OF r] r np show ?thesis
    by (auto simp: prepared_from_def split: option.splits)
qed

text \<open>Validating a validated publication again gives the same publication.\<close>

lemma NewIngestionProgress_idem:
  "NewIngestionProgress sha p = Inr q \<Longrightarrow> NewIngestionProgress sha q = Inr q"
  by (auto simp: NewIngestionProgress_def Let_def split: if_splits)

text \<open>The parts of a validated publication that validation looks at.\<close>

definition publication_valid :: "(string \<Rightarrow> digest) \<Rightarrow> position_publication \<Rightarrow> bool" where
  "publication_valid sha p \<longleftrightarrow>
     NewPositionCheckpoint sha (pp_next p) = Inr (pp_next p) \<and> publication_agrees p \<and>
     (if pp_expected_revision p = 0 then pp_expected_checkpoint p = 0 \<and> as_previous_checksum (fa_spec (pp_application p)) = 0
      else pp_expected_checkpoint p \<noteq> 0 \<and> as_previous_checksum (fa_spec (pp_application p)) \<noteq> 0) \<and>
     (\<forall>q. pp_ingestion p = Some q \<longrightarrow> NewIngestionProgress sha q = Inr q \<and> ingestion_agrees p q) \<and>
     pp_raw p = canonicalPositionPublication p \<and>
     pp_checksum p = state_checksum_acct sha
       (if pp_ingestion p = None then ''accounting-position-publication/v1'' else ''accounting-position-publication/v2'')
       (pp_raw p)"

lemma ingestion_agrees_own [simp]:
  "ingestion_agrees (p\<lparr>pp_ingestion := i, pp_checksum := d, pp_raw := r\<rparr>) q = ingestion_agrees p q"
  by (simp add: ingestion_agrees_def)

lemma valid_publication_same:
  assumes "publication_valid sha p"
  shows "NewPositionPublication sha p = Inr p"
  using assms
  by (cases p; cases "pp_ingestion p")
    (auto simp: publication_valid_def NewPositionPublication_def Let_def canonicalPositionPublication_def split: if_splits)

lemma NewPositionPublication_guard:
  assumes "NewPositionPublication sha value = Inr p"
  shows "if pp_expected_revision value = 0
     then pp_expected_checkpoint value = 0 \<and> as_previous_checksum (fa_spec (pp_application value)) = 0
     else pp_expected_checkpoint value \<noteq> 0 \<and> as_previous_checksum (fa_spec (pp_application value)) \<noteq> 0"
  using assms by (auto simp: NewPositionPublication_def Let_def split: sum.splits if_splits)

lemma NewPositionPublication_valid:
  assumes "NewPositionPublication sha value = Inr p"
  shows "publication_valid sha p"
proof -
  note v = NewPositionPublication_Inr [OF assms] and g = NewPositionPublication_guard [OF assms]
  obtain c where c: "NewPositionCheckpoint sha (pp_next value) = Inr c" using v(8) by blast
  have rest: "(\<forall>q. pp_ingestion p = Some q \<longrightarrow> NewIngestionProgress sha q = Inr q \<and> ingestion_agrees p q) \<and>
      pp_checksum p = state_checksum_acct sha
        (if pp_ingestion p = None then ''accounting-position-publication/v1'' else ''accounting-position-publication/v2'')
        (pp_raw p)"
  proof (cases "pp_ingestion value")
    case None
    with assms c show ?thesis
      by (auto simp: NewPositionPublication_def Let_def split: if_splits)
  next
    case (Some i)
    then obtain q where q: "NewIngestionProgress sha i = Inr q"
      using assms by (cases "NewIngestionProgress sha i") (auto simp: NewPositionPublication_def Let_def split: sum.splits if_splits)
    from assms c Some q NewIngestionProgress_idem [OF q] show ?thesis
      by (auto simp: NewPositionPublication_def Let_def ingestion_agrees_def split: if_splits)
  qed
  with v g NewPositionCheckpoint_idem [OF v(8)] show ?thesis
    by (simp add: publication_valid_def)
qed

lemmas NewPositionPublication_idem = valid_publication_same [OF NewPositionPublication_valid]

section \<open>Concurrent calls\<close>

datatype call =
    Reserved accounting_fill "ingestion_metadata option"
  | Holding accounting_fill "ingestion_metadata option"
  | Prepared accounting_fill position_publication

fun call_fill :: "call \<Rightarrow> accounting_fill" where
  "call_fill (Reserved f m) = f"
| "call_fill (Holding f m) = f"
| "call_fill (Prepared f p) = f"

fun holds_slot :: "call \<Rightarrow> bool" where
  "holds_slot (Reserved f m) = False"
| "holds_slot (Holding f m) = True"
| "holds_slot (Prepared f p) = True"

abbreviation call_position :: "call \<Rightarrow> digest" where
  "call_position c \<equiv> af_position (call_fill c)"

record coord_state =
  cs_store :: acct_store
  cs_coord :: coordinator
  cs_calls :: "call list"

text \<open>
  The phases of \<open>applyFill\<close>: a reservation, the semaphore (or giving up before it), the computation of the
  publication from the checkpoint read then, the publication, and the deferred releases. A call may end
  with an error in any phase.
\<close>

inductive coord_step :: "(string \<Rightarrow> digest) \<Rightarrow> coord_state \<Rightarrow> coord_state \<Rightarrow> bool" for sha where
  enter: "reserve (af_position f) (af_checksum f) (cs_coord s) = (c, Inr ()) \<Longrightarrow> fill_built sha f \<Longrightarrow>
    coord_step sha s (s\<lparr>cs_coord := c, cs_calls := cs_calls s @ [Reserved f m]\<rparr>)"
| acquire: "cs_calls s = xs @ Reserved f m # ys \<Longrightarrow> co_slots (cs_coord s) < cc_max_concurrency (co_config (cs_coord s)) \<Longrightarrow>
    coord_step sha s (s\<lparr>cs_coord := (cs_coord s)\<lparr>co_slots := co_slots (cs_coord s) + 1\<rparr>, cs_calls := xs @ Holding f m # ys\<rparr>)"
| abandon: "cs_calls s = xs @ Reserved f m # ys \<Longrightarrow>
    coord_step sha s (s\<lparr>cs_coord := release (af_position f) (cs_coord s), cs_calls := xs @ ys\<rparr>)"
| prepare: "cs_calls s = xs @ Holding f m # ys \<Longrightarrow> prepare_publication sha False f m (cs_store s) = Inr p \<Longrightarrow>
    coord_step sha s (s\<lparr>cs_calls := xs @ Prepared f p # ys\<rparr>)"
| give_up: "cs_calls s = xs @ c # ys \<Longrightarrow> holds_slot c \<Longrightarrow>
    coord_step sha s (s\<lparr>cs_coord := (release (call_position c) (cs_coord s))\<lparr>co_slots := co_slots (cs_coord s) - 1\<rparr>,
      cs_calls := xs @ ys\<rparr>)"
| publish: "cs_calls s = xs @ Prepared f p # ys \<Longrightarrow> PublishPosition sha ctx p (cs_store s) = (store', x) \<Longrightarrow>
    coord_step sha s (s\<lparr>cs_store := store',
      cs_coord := (release (af_position f) (cs_coord s))\<lparr>co_slots := co_slots (cs_coord s) - 1\<rparr>, cs_calls := xs @ ys\<rparr>)"
| close: "coord_step sha s (s\<lparr>cs_coord := fst (Shutdown b (cs_coord s))\<rparr>)"

text \<open>The current checkpoint of a position.\<close>

definition current_of :: "acct_store \<Rightarrow> digest \<Rightarrow> position_checkpoint option" where
  "current_of st pid = Option.bind (map_of (ac_current st) pid) (acct_checkpoint st pid)"

definition calls_ok :: "coordinator \<Rightarrow> call list \<Rightarrow> bool" where
  "calls_ok c calls \<longleftrightarrow> distinct (map call_position calls) \<and> gomap_wf (co_running c) \<and>
     fst ` set (co_running c) = call_position ` set calls \<and> co_in_flight c = int (length calls) \<and>
     co_slots c = int (length (filter holds_slot calls)) \<and> co_slots c \<le> cc_max_concurrency (co_config c)"

definition coord_inv :: "(string \<Rightarrow> digest) \<Rightarrow> coord_state \<Rightarrow> bool" where
  "coord_inv sha s \<longleftrightarrow> acct_inv sha (cs_store s) \<and> calls_ok (cs_coord s) (cs_calls s) \<and>
     (\<forall>c \<in> set (cs_calls s). fill_built sha (call_fill c)) \<and>
     (\<forall>f p. Prepared f p \<in> set (cs_calls s) \<longrightarrow> prepared_from sha f (current_of (cs_store s) (af_position f)) p)"

subsection \<open>Reservations\<close>

lemma release_calls:
  assumes "calls_ok c (xs @ d # ys)"
  shows "calls_ok ((release (call_position d) c)\<lparr>co_slots := co_slots c - (if holds_slot d then 1 else 0)\<rparr>) (xs @ ys)"
proof -
  have "fst ` set (AList.delete (call_position d) (co_running c)) = fst ` set (co_running c) - {call_position d}"
    using delete_keys [of "call_position d" "co_running c"] by (metis (no_types, lifting) list.set_map set_removeAll)
  moreover have "gomap_wf (AList.delete (call_position d) (co_running c))"
    using assms by (simp add: calls_ok_def gomap_wf_def distinct_delete)
  moreover have "call_position ` set (xs @ d # ys) - {call_position d} = call_position ` set (xs @ ys)"
  proof -
    have "call_position d \<notin> call_position ` set (xs @ ys)"
      using assms by (simp add: calls_ok_def image_Un)
    then show ?thesis by auto
  qed
  ultimately show ?thesis using assms by (cases "holds_slot d") (auto simp: calls_ok_def release_def)
qed

lemma reserve_calls:
  assumes "calls_ok c calls" "reserve (af_position f) (af_checksum f) c = (c', Inr ())"
  shows "calls_ok c' (calls @ [Reserved f m])" "\<not> co_closed c"
proof -
  have new: "map_of (co_running c) (af_position f) = None" "\<not> co_closed c"
    and c': "c' = c\<lparr>co_running := put (af_position f) (af_checksum f) (co_running c), co_in_flight := co_in_flight c + 1\<rparr>"
    using assms(2) by (auto simp: reserve_def split: if_splits option.splits)
  from new(1) have "af_position f \<notin> fst ` set (co_running c)" by (simp add: map_of_eq_None_iff)
  moreover have "put (af_position f) (af_checksum f) (co_running c) = co_running c @ [(af_position f, af_checksum f)]"
    using new(1) by (simp add: put_fresh has_def)
  ultimately show "calls_ok c' (calls @ [Reserved f m])"
    using assms(1) by (auto simp: calls_ok_def c' gomap_wf_def)
  show "\<not> co_closed c" by (rule new(2))
qed

subsection \<open>Publications in flight\<close>

lemma prepare_publication_Inr:
  assumes "prepare_publication sha b f m st = Inr p"
  shows "prepared_from sha f (current_of st (af_position f)) p"
  using assms
  by (auto simp: prepare_publication_def CurrentPositionCheckpoint_def current_of_def prepare_from_Inr
      split: if_splits option.splits)

lemma current_of_made:
  assumes "acct_inv sha st" "current_of st pid = Some c"
  shows "snapshot_made sha (pc_snapshot c)" "acct_checkpoint st pid (acct_head st pid) = Some c"
    "pn_revision (ps_spec (pc_snapshot c)) = acct_head st pid" "0 < acct_head st pid"
proof -
  from assms(2) obtain n where n: "map_of (ac_current st) pid = Some n" "acct_checkpoint st pid n = Some c"
    by (auto simp: current_of_def bind_eq_Some_conv)
  from acct_invD(2) [OF assms(1) n(1)] n(2)
  have "snapshot_made sha (pc_snapshot c)" "pn_revision (ps_spec (pc_snapshot c)) = n" "0 < n"
    by (auto simp: position_head_ok_def)
  moreover have "acct_head st pid = n" using n(1) by (simp add: acct_head_def)
  ultimately show "snapshot_made sha (pc_snapshot c)" "acct_checkpoint st pid (acct_head st pid) = Some c"
    "pn_revision (ps_spec (pc_snapshot c)) = acct_head st pid" "0 < acct_head st pid" using n(2) by simp_all
qed

lemma current_of_none:
  assumes "acct_inv sha st" "current_of st pid = None"
  shows "acct_head st pid = 0"
proof (cases "map_of (ac_current st) pid")
  case (Some n)
  with acct_invD(2) [OF assms(1) Some] assms(2) show ?thesis
    by (auto simp: position_head_ok_def current_of_def)
qed (simp add: acct_head_def)

lemma prepared_made:
  assumes "acct_inv sha st" "fill_built sha f" "prepared_from sha f (current_of st (af_position f)) p"
  shows "publication_made sha p"
proof (cases "current_of st (af_position f)")
  case None
  with assms show ?thesis
    by (auto simp: publication_made_def prepared_from_def intro: snapshot_made.first)
next
  case (Some c)
  with assms current_of_made(1) [OF assms(1) Some] show ?thesis
    by (auto simp: publication_made_def prepared_from_def intro: snapshot_made.more)
qed

lemma current_of_commit:
  "pid \<noteq> af_position (pp_fill v) \<Longrightarrow> current_of (commit_position st v) pid = current_of st pid"
  by (cases "map_of (ac_current st) pid") (simp_all add: current_of_def commit_position_views)

lemma current_of_publish:
  assumes "PublishPosition sha ctx p st = (st', x)" "pid \<noteq> af_position (pp_fill p)"
  shows "current_of st' pid = current_of st pid"
  using assms(1)
proof (cases rule: PublishPosition_cases)
  case (commit v)
  with assms(2) NewPositionPublication_Inr(4) [OF commit(1)] show ?thesis by (simp add: current_of_commit)
qed simp

text \<open>
  A publication prepared from the current checkpoint passes every check that depends on the revision: what
  may still refuse it is a known identity, a capacity limit or the injected failure.
\<close>

definition room_for :: "acct_store \<Rightarrow> digest \<Rightarrow> bool" where
  "room_for st pid \<longleftrightarrow> (acct_head st pid = 0 \<longrightarrow> size_of (ac_current st) < al_positions (ac_limits st)) \<and>
     totalRevisions st < al_revisions (ac_limits st) \<and> size_of (ac_fills st) < al_applications (ac_limits st) \<and>
     size_of (ac_publications st) < al_publications (ac_limits st)"

lemma admit_prepared:
  assumes "acct_inv sha st" "prepared_from sha f (current_of st (af_position f)) p"
  shows "admit_position sha st p =
    bind_r (check_ingestion st p) (\<lambda>_.
    case map_of (ac_fills st) (fl_id (af_fill f)) of
      Some v \<Rightarrow> Inl (collision (if af_raw (sf_fill v) \<noteq> af_raw f then ''fill'' else ''fill_application'')
                  (digest_string (fl_id (af_fill f))))
    | None \<Rightarrow>
        if \<not> room_for st (af_position f) then Inl (AccountingStorage ErrCapacityExhausted_acct)
        else if ac_fail_before_commit st then Inl (AccountingStorage ErrInternal_acct) else Inr ())"
proof (cases "current_of st (af_position f)")
  case None
  note head = current_of_none [OF assms(1) None]
  from assms(2) None head show ?thesis
    by (auto simp: admit_position_def prepared_from_def room_for_def acct_head_def Let_def
        split: option.splits intro!: arg_cong [of _ _ "bind_r (check_ingestion st p)"])
next
  case (Some c)
  note cur = current_of_made [OF assms(1) Some]
  from assms(2) Some cur show ?thesis
    by (auto simp: admit_position_def prepared_from_def room_for_def acct_head_def Let_def
        split: option.splits intro!: arg_cong [of _ _ "bind_r (check_ingestion st p)"])
qed

subsection \<open>The invariant of interleaved calls\<close>

lemma acquire_calls:
  assumes "calls_ok c (xs @ Reserved f m # ys)" "co_slots c < cc_max_concurrency (co_config c)"
  shows "calls_ok (c\<lparr>co_slots := co_slots c + 1\<rparr>) (xs @ Holding f m # ys)"
  using assms by (auto simp: calls_ok_def)

lemma prepare_calls:
  "calls_ok c (xs @ Holding f m # ys) \<Longrightarrow> calls_ok c (xs @ Prepared f p # ys)"
  by (simp add: calls_ok_def)

lemma other_position:
  assumes "calls_ok c (xs @ d # ys)" "e \<in> set (xs @ ys)"
  shows "call_position e \<noteq> call_position d"
proof -
  have "call_position d \<notin> call_position ` set (xs @ ys)"
    using assms(1) by (simp add: calls_ok_def image_Un)
  moreover have "call_position e \<in> call_position ` set (xs @ ys)" using assms(2) by (rule imageI)
  ultimately show ?thesis by metis
qed

lemma coord_invD:
  assumes "coord_inv sha s"
  shows "acct_inv sha (cs_store s)" "calls_ok (cs_coord s) (cs_calls s)"
    "c \<in> set (cs_calls s) \<Longrightarrow> fill_built sha (call_fill c)"
    "Prepared f p \<in> set (cs_calls s) \<Longrightarrow> prepared_from sha f (current_of (cs_store s) (af_position f)) p"
  using assms unfolding coord_inv_def by blast+

lemma coord_inv_fewer:
  assumes "coord_inv sha s" "set calls \<subseteq> set (cs_calls s)" "calls_ok c calls"
  shows "coord_inv sha (s\<lparr>cs_coord := c, cs_calls := calls\<rparr>)"
  using assms by (auto simp: coord_inv_def)

lemma publish_keeps:
  assumes "coord_inv sha s" "cs_calls s = xs @ Prepared f p # ys" "PublishPosition sha ctx p (cs_store s) = (st', x)"
    "calls_ok c (xs @ ys)"
  shows "coord_inv sha (s\<lparr>cs_store := st', cs_coord := c, cs_calls := xs @ ys\<rparr>)"
proof -
  note inv = coord_invD [OF assms(1)]
  have mem: "Prepared f p \<in> set (cs_calls s)" using assms(2) by simp
  have built: "fill_built sha f" using inv(3) [OF mem] by simp
  note prep = inv(4) [OF mem]
  have "acct_inv sha st'"
    using assms(3) by (rule PublishPosition_cases)
      (use commit_position_inv [OF inv(1) prepared_made [OF inv(1) built prep]] inv(1) in auto)
  moreover have "prepared_from sha g (current_of st' (af_position g)) q" if "Prepared g q \<in> set (xs @ ys)" for g q
  proof -
    have "pp_fill p = f" using prep by (simp add: prepared_from_def)
    moreover have "af_position g \<noteq> af_position f"
      using other_position [OF _ that] inv(2) assms(2) by fastforce
    ultimately have "current_of st' (af_position g) = current_of (cs_store s) (af_position g)"
      using current_of_publish [OF assms(3)] by simp
    with inv(4) that assms(2) show ?thesis by auto
  qed
  moreover have "fill_built sha (call_fill d)" if "d \<in> set (xs @ ys)" for d
    using inv(3) that assms(2) by auto
  ultimately show ?thesis using assms(4) by (simp add: coord_inv_def)
qed

interpretation coord: step_invariant "coord_step sha" "coord_inv sha" for sha
proof
  fix s t assume inv: "coord_inv sha s" and step: "coord_step sha s t"
  note ok = coord_invD [OF inv]
  from step show "coord_inv sha t"
  proof cases
    case (enter f c m)
    with inv reserve_calls(1) [OF ok(2) enter(2)] show ?thesis by (auto simp: coord_inv_def)
  next
    case (acquire xs f m ys)
    with inv acquire_calls [of "cs_coord s" xs f m ys] show ?thesis by (auto simp: coord_inv_def)
  next
    case (abandon xs f m ys)
    have "calls_ok (release (af_position f) (cs_coord s)) (xs @ ys)"
      using release_calls [of "cs_coord s" xs "Reserved f m" ys] ok(2) abandon(2) by (simp add: release_def)
    from coord_inv_fewer [OF inv _ this] show ?thesis unfolding abandon(1) by (simp add: abandon(2) subset_insertI2)
  next
    case (prepare xs f m ys p)
    with inv prepare_calls [of "cs_coord s" xs f m ys p] prepare_publication_Inr [OF prepare(3)] show ?thesis
      by (auto simp: coord_inv_def)
  next
    case (give_up xs d ys)
    have "calls_ok ((release (call_position d) (cs_coord s))\<lparr>co_slots := co_slots (cs_coord s) - 1\<rparr>) (xs @ ys)"
      using release_calls [of "cs_coord s" xs d ys] ok(2) give_up(2,3) by simp
    from coord_inv_fewer [OF inv _ this] show ?thesis unfolding give_up(1) by (simp add: give_up(2) subset_insertI2)
  next
    case (publish xs f p ys ctx st' x)
    have "calls_ok ((release (af_position f) (cs_coord s))\<lparr>co_slots := co_slots (cs_coord s) - 1\<rparr>) (xs @ ys)"
      using release_calls [of "cs_coord s" xs "Prepared f p" ys] ok(2) publish(2) by simp
    from publish_keeps [OF inv publish(2,3) this] show ?thesis unfolding publish(1) .
  next
    case (close b)
    with inv show ?thesis by (simp add: coord_inv_def calls_ok_def Shutdown_def Let_def)
  qed
qed

text \<open>A coordinator as \<open>NewCoordinator\<close> makes it, over a store that satisfies its invariant.\<close>

lemma fresh_coord_inv:
  assumes "NewCoordinator config = Inr c" "acct_inv sha st"
  shows "coord_inv sha \<lparr>cs_store = st, cs_coord = c, cs_calls = []\<rparr>"
  using assms by (auto simp: NewCoordinator_def coord_inv_def calls_ok_def gomap_wf_def split: if_splits)

lemma publish_prepared:
  assumes "coord_inv sha s" "Prepared f p \<in> set (cs_calls s)"
  shows "NewPositionPublication sha p = Inr p"
    "admit_position sha (cs_store s) p \<noteq> Inl (AccountingStorage (RevisionConflictError_acct q i j))"
    "admit_position sha (cs_store s) p \<noteq> Inl (AccountingStorage ErrInvalidPublication_acct)"
    "\<lbrakk>check_ingestion (cs_store s) p = Inr (); \<not> has (ac_fills (cs_store s)) (fl_id (af_fill f));
      room_for (cs_store s) (af_position f); \<not> ac_fail_before_commit (cs_store s)\<rbrakk> \<Longrightarrow>
     admit_position sha (cs_store s) p = Inr ()"
proof -
  note prep = coord_invD(4) [OF assms]
  show "NewPositionPublication sha p = Inr p"
    using prep NewPositionPublication_idem by (auto simp: prepared_from_def)
  note admit = admit_prepared [OF coord_invD(1) [OF assms(1)] prep]
  have ing: "check_ingestion (cs_store s) p = Inr () \<or> (\<exists>k i. check_ingestion (cs_store s) p = Inl (collision k i))"
    by (auto simp: check_ingestion_def Let_def split: option.splits)
  from ing show "admit_position sha (cs_store s) p \<noteq> Inl (AccountingStorage (RevisionConflictError_acct q i j))"
    "admit_position sha (cs_store s) p \<noteq> Inl (AccountingStorage ErrInvalidPublication_acct)"
    unfolding admit by (auto split: option.splits)
  assume "check_ingestion (cs_store s) p = Inr ()" "\<not> has (ac_fills (cs_store s)) (fl_id (af_fill f))"
    "room_for (cs_store s) (af_position f)" "\<not> ac_fail_before_commit (cs_store s)"
  then show "admit_position sha (cs_store s) p = Inr ()" unfolding admit by (simp add: has_def)
qed

text \<open>The configuration never changes, and a closed coordinator admits no call.\<close>

lemma coord_config_step: "coord_step sha s t \<Longrightarrow> co_config (cs_coord t) = co_config (cs_coord s)"
  by (induction rule: coord_step.induct)
    (auto simp: reserve_def release_def Shutdown_def Let_def split: if_splits option.splits)

lemma coord_config_kept: "(coord_step sha)\<^sup>*\<^sup>* s t \<Longrightarrow> co_config (cs_coord t) = co_config (cs_coord s)"
  by (induction rule: rtranclp_induct) (auto dest: coord_config_step)

lemma closed_admits_none:
  assumes "coord_step sha s t" "co_closed (cs_coord s)"
  shows "co_closed (cs_coord t) \<and> call_position ` set (cs_calls t) \<subseteq> call_position ` set (cs_calls s)"
  using assms
  by (induction rule: coord_step.induct)
    (auto simp: reserve_def release_def Shutdown_def Let_def split: if_splits option.splits)

end
