(* ===== verification/Acct_Handler.thy ===== *)
theory Acct_Handler
  imports Acct_Interleaving
begin

text \<open>
  The handler \<open>applyFill\<close> as a whole: when it commits and what the store then holds, that a committed fill
  is answered idempotently ever after, and what a replay of a batch does.
\<close>

section \<open>Preparing a publication succeeds\<close>

lemma derived_publication:
  assumes "sha_nonzero sha" "raw \<noteq> []"
  shows "state_checksum_acct sha ''accounting-position-checkpoint/v1'' raw \<noteq> 0"
proof -
  have "trim_space ''accounting-position-checkpoint/v1'' \<noteq> []" by code_simp
  with assms show ?thesis
    by (simp add: state_checksum_acct_def NewStateChecksum_acct_def derive_def sha_nonzero_def)
qed

lemma publication_id_nonzero:
  assumes "sha_nonzero sha" "\<not> fill_is_zero f"
  shows "publication_id sha f \<noteq> 0"
proof -
  have "digest_string (fl_id (af_fill f)) \<noteq> []" by (metis length_digest_string list.size(3) numeral_neq_zero)
  then have "validParts [digest_string (fl_id (af_fill f))]" by (simp add: validParts_def)
  with assms show ?thesis
    by (simp add: publication_id_def NewPublicationID_acct_def derive_def sha_nonzero_def fill_is_zero_def)
qed

lemma checkpoint_nonzero:
  assumes "sha_nonzero sha" "NewPositionCheckpoint sha value = Inr c"
  shows "pc_checksum c \<noteq> 0"
  using NewPositionCheckpoint_Inr [OF assms(2)] derived_publication [OF assms(1)]
  by (simp add: canonicalPositionCheckpoint_def)

lemma snapshot_nonzero:
  assumes "sha_nonzero sha" "position_ok sha ps"
  shows "ps_checksum ps \<noteq> 0"
proof -
  from assms(2) obtain spec where "NewPositionSnapshot sha spec = Inr ps" by (auto simp: position_ok_def)
  from NewPositionSnapshot_Inr [OF this] derived_nonzero(2) [OF assms(1)] show ?thesis
    by (simp add: canonicalPosition_def)
qed

text \<open>A checkpoint a store may hold as the current one of a position.\<close>

definition checkpoint_ok :: "(string \<Rightarrow> digest) \<Rightarrow> position_checkpoint option \<Rightarrow> bool" where
  "checkpoint_ok sha current \<longleftrightarrow>
     (\<forall>c. current = Some c \<longrightarrow> snapshot_made sha (pc_snapshot c) \<and> NewPositionCheckpoint sha c = Inr c)"

lemma checkpoint_ok_current:
  "checkpoint_ok sha current \<Longrightarrow> current_ok sha (map_option pc_snapshot current)"
  by (auto simp: checkpoint_ok_def current_ok_def snapshot_made_ok)

lemma current_of_ok: "acct_inv sha st \<Longrightarrow> checkpoint_ok sha (current_of st pid)"
  using acct_invD(2)
  by (fastforce simp: checkpoint_ok_def current_of_def bind_eq_Some_conv position_head_ok_def)

lemma Apply_position:
  assumes "Apply sha current f = Inr r" "fill_built sha f" "current_ok sha current"
  shows "pn_position (ps_spec (ar_snapshot r)) = af_position f"
proof -
  have "pn_position (ps_spec (ar_snapshot r)) = pn_position (base_spec current f)"
    using Apply_ok [OF assms] by (simp add: applied_def Let_def)
  also have "\<dots> = af_position f"
    using Apply_key(3) [OF assms(1)] by (auto simp: base_spec_def opening_spec_def split: option.splits)
  finally show ?thesis .
qed

text \<open>Metadata that may accompany a fill.\<close>

definition metadata_fits :: "ingestion_metadata option \<Rightarrow> accounting_fill \<Rightarrow> bool" where
  "metadata_fits m f \<longleftrightarrow>
     (\<forall>d. m = Some d \<longrightarrow> im_id d \<noteq> 0 \<and> ab_portfolio (im_binding d) = afs_portfolio (af_spec f))"

lemma fill_checksum_nonzero:
  assumes "sha_nonzero sha" "fill_built sha f"
  shows "af_checksum f \<noteq> 0"
proof -
  from assms(2) obtain spec where "NewAccountingFill sha spec = Inr f" by (auto simp: fill_built_def)
  from NewAccountingFill_Inr [OF this] derived_nonzero(1) [OF assms(1)] show ?thesis
    by (simp add: canonicalAccountingFill_def)
qed

lemma publication_with_progress:
  assumes p: "pp_ingestion p = None" "NewPositionCheckpoint sha (pp_next p) = Inr (pp_next p)" "publication_agrees p"
      "pp_expected_revision p = 0 \<longleftrightarrow> pp_expected_checkpoint p = 0"
      "pp_expected_revision p = 0 \<longleftrightarrow> as_previous_checksum (fa_spec (pp_application p)) = 0" "pp_checksum p = 0"
    and i: "i = None \<or> (\<exists>j q. i = Some q \<and> NewIngestionProgress sha j = Inr q \<and> ingestion_agrees p q)"
  shows "\<exists>q. NewPositionPublication sha (p\<lparr>pp_ingestion := i\<rparr>) = Inr q"
proof -
  have same: "publication_agrees (p\<lparr>pp_ingestion := i\<rparr>) = publication_agrees p"
    "ingestion_agrees (p\<lparr>pp_ingestion := i\<rparr>) q = ingestion_agrees p q" for q
    by (simp_all add: publication_agrees_def ingestion_agrees_def)
  have "p\<lparr>pp_next := pp_next p, pp_ingestion := i\<rparr> = p\<lparr>pp_ingestion := i\<rparr>" by simp
  with p i NewIngestionProgress_idem same show ?thesis
    by (cases i) (auto simp: NewPositionPublication_def Let_def)
qed

lemma prepare_from_succeeds:
  assumes sha: "sha_nonzero sha" and f: "fill_built sha f" "\<not> fill_is_zero f" and cur: "checkpoint_ok sha current"
    and r: "Apply sha (map_option pc_snapshot current) f = Inr r" and m: "metadata_fits m f"
  shows "\<exists>p. prepare_from sha f m current = Inr p"
proof -
  define er ec where "er = (case current of None \<Rightarrow> 0 | Some c \<Rightarrow> pn_revision (ps_spec (pc_snapshot c)))"
    and "ec = (case current of None \<Rightarrow> 0 | Some c \<Rightarrow> pc_checksum c)"
  note a = Apply_application [OF r] and ok = checkpoint_ok_current [OF cur]
  have pos: "pn_position (ps_spec (ar_snapshot r)) = af_position f" by (rule Apply_position [OF r f(1) ok])
  have rev: "pn_revision (ps_spec (ar_snapshot r)) = Suc er"
    using Apply_ok [OF r f(1) ok] by (auto simp: applied_def Let_def er_def base_spec_def opening_spec_def split: option.splits)
  have w: "wrap_u64 (er + 1) = Suc er"
    using a(4,7,8) rev by (simp add: er_def split: option.splits)
  have zero: "er = 0 \<longleftrightarrow> current = None" "ec = 0 \<longleftrightarrow> current = None"
    "as_previous_checksum (fa_spec (ar_application r)) = 0 \<longleftrightarrow> current = None"
    using cur position_ok_raw(3) [OF snapshot_made_ok] checkpoint_nonzero [OF sha] snapshot_nonzero [OF sha snapshot_made_ok] a(5)
    by (auto simp: er_def ec_def checkpoint_ok_def split: option.splits)
  have nz: "fl_id (af_fill f) \<noteq> 0" "af_position f \<noteq> 0"
    using f NewAccountingFill_Inr by (auto simp: fill_built_def fill_is_zero_def)
  let ?c = "\<lparr>pc_snapshot = ar_snapshot r, pc_snapshot_checksum = 0, pc_parent = ec,
           pc_application = as_id (fa_spec (ar_application r)), pc_fill = fl_id (af_fill f), pc_checksum = 0, pc_raw = []\<rparr>"
  obtain nc where nc: "NewPositionCheckpoint sha ?c = Inr nc"
    using pos rev nz a(6) zero by (auto simp: NewPositionCheckpoint_def Let_def)
  note n = NewPositionCheckpoint_Inr [OF nc]
  let ?p = "\<lparr>pp_id = publication_id sha f, pp_expected_revision = er, pp_expected_checkpoint = ec, pp_fill = f,
         pp_application = ar_application r, pp_next = nc, pp_ingestion = None, pp_checksum = 0, pp_raw = []\<rparr>"
  have agrees: "publication_agrees ?p"
    using n a pos rev w f(2) nz publication_id_nonzero [OF sha f(2)]
    by (auto simp: publication_agrees_def er_def Let_def split: option.splits)
  let ?i = "\<lambda>d. \<lparr>ip_metadata = d, ip_fill = fl_id (af_fill f), ip_fill_checksum = af_checksum f,
      ip_position = af_position f, ip_revision = pn_revision (ps_spec (ar_snapshot r)),
      ip_application = as_id (fa_spec (ar_application r)), ip_checkpoint_checksum = pc_checksum nc, ip_checksum = 0, ip_raw = []\<rparr>"
  have "\<exists>i. (case m of None \<Rightarrow> Inr None | Some d \<Rightarrow> map_sum id Some (NewIngestionProgress sha (?i d))) = Inr i \<and>
      (i = None \<or> (\<exists>j q. i = Some q \<and> NewIngestionProgress sha j = Inr q \<and> ingestion_agrees ?p q))"
  proof (cases m)
    case (Some d)
    have "im_id d \<noteq> 0" "ab_portfolio (im_binding d) = afs_portfolio (af_spec f)" using m Some by (simp_all add: metadata_fits_def)
    moreover have "pc_checksum nc \<noteq> 0" "af_checksum f \<noteq> 0"
      using checkpoint_nonzero [OF sha nc] fill_checksum_nonzero [OF sha f(1)] by auto
    ultimately obtain q where q: "NewIngestionProgress sha (?i d) = Inr q" "ingestion_agrees ?p q"
      using nz a(6) rev n by (auto simp: NewIngestionProgress_def ingestion_agrees_def Let_def)
    with Some show ?thesis by auto
  qed simp
  then obtain i where i: "(case m of None \<Rightarrow> Inr None | Some d \<Rightarrow> map_sum id Some (NewIngestionProgress sha (?i d))) = Inr i"
    "i = None \<or> (\<exists>j q. i = Some q \<and> NewIngestionProgress sha j = Inr q \<and> ingestion_agrees ?p q)" by blast
  have "\<exists>p. NewPositionPublication sha (?p\<lparr>pp_ingestion := i\<rparr>) = Inr p"
    by (rule publication_with_progress [OF _ _ agrees _ _ _ i(2)]) (use NewPositionCheckpoint_idem [OF nc] zero in auto)
  with r nc i(1) show ?thesis
    by (simp add: prepare_from_def er_def [symmetric] ec_def [symmetric] Let_def)
qed

section \<open>When a fill is accepted\<close>

text \<open>The fill continues the position in canonical order and currency, and every amount fits an int64.\<close>

definition fill_acceptable :: "position_snapshot option \<Rightarrow> accounting_fill \<Rightarrow> bool" where
  "fill_acceptable current f \<longleftrightarrow> check_current current f = Inr () \<and> currency_matches current f \<and>
     fill_fits f (base_spec current f) \<and> tr_net (fill_step f (base_spec current f)) \<noteq> min_i64 \<and>
     pn_fill_count (base_spec current f) < max_u64"

lemma Apply_iff:
  assumes "sha_nonzero sha" "fill_built sha f" "\<not> fill_is_zero f" "current_ok sha current"
  shows "(\<exists>r. Apply sha current f = Inr r) \<longleftrightarrow> fill_acceptable current f"
proof
  assume "\<exists>r. Apply sha current f = Inr r"
  then obtain r where r: "Apply sha current f = Inr r" by blast
  then obtain chain where n: "fill_fits f (base_spec current f)" "pn_fill_count (base_spec current f) < max_u64"
    "NewPositionSnapshot sha (next_spec f chain (base_spec current f)) = Inr (ar_snapshot r)"
    by (rule Apply_next [OF _ assms(2,4)])
  from n(3) have "pn_net (next_spec f chain (base_spec current f)) \<noteq> min_i64"
    by (auto simp: NewPositionSnapshot_def Let_def split: if_splits)
  moreover from r have "check_current current f = Inr ()" by (rule Apply_Inr)
  moreover from r have "currency_matches current f"
    by (rule Apply_Inr) (auto simp: currency_matches_def start_spec_def Let_def split: if_splits option.splits)
  ultimately show "fill_acceptable current f" using n by (simp add: fill_acceptable_def next_spec_def Let_def)
next
  assume "fill_acceptable current f"
  with Apply_succeeds [OF assms] show "\<exists>r. Apply sha current f = Inr r" by (simp add: fill_acceptable_def)
qed

section \<open>The handler commits\<close>

definition live_env :: "apply_env \<Rightarrow> bool" where
  "live_env env \<longleftrightarrow> \<not> ae_entry env \<and> \<not> ae_lookup env \<and> \<not> ae_receipt env \<and> ae_select env = Acquired \<and>
     \<not> ae_read env \<and> \<not> ae_ready env \<and> ae_publish env = (False, False)"

lemma delete_put_fresh:
  assumes "\<not> has m k"
  shows "AList.delete k (put k v m) = m"
proof -
  have "k \<notin> fst ` set m" using assms by (simp add: has_def map_of_eq_None_iff)
  then have "AList.delete k (m @ [(k, v)]) = m"
    unfolding AList.delete_eq by (auto simp: filter_id_conv) force
  then show ?thesis using assms by (simp add: put_fresh)
qed

lemma release_reserved:
  assumes "map_of (co_running c) pid = None"
  shows "release pid (c\<lparr>co_running := put pid x (co_running c), co_in_flight := co_in_flight c + 1\<rparr>) = c"
  using delete_put_fresh [of "co_running c" pid x] assms by (simp add: release_def has_def)

lemma prepare_publication_current:
  assumes "acct_inv sha st"
  shows "prepare_publication sha False f m st = prepare_from sha f m (current_of st (af_position f))"
proof (cases "map_of (ac_current st) (af_position f)")
  case (Some n)
  with acct_invD(2) [OF assms Some] obtain c where "acct_checkpoint st (af_position f) n = Some c"
    by (auto simp: position_head_ok_def)
  with Some show ?thesis by (simp add: prepare_publication_def CurrentPositionCheckpoint_def current_of_def)
qed (simp add: prepare_publication_def CurrentPositionCheckpoint_def current_of_def)

text \<open>What the queries of the store say after a publication was committed.\<close>

lemma commit_position_publications:
  "ac_publications (commit_position st v) =
     put (pp_id v) \<lparr>sq_value = v, sq_receipt = position_receipt_of v, sq_canonical = pp_raw v\<rparr> (ac_publications st)"
  by (simp add: commit_position_def Let_def)

lemma commit_position_queries:
  "Position (False, False) (af_position (pp_fill v)) (commit_position st v) = Inr (Some (pc_snapshot (pp_next v)))"
    "ApplicationByFill (False, False) (fl_id (af_fill (pp_fill v))) (commit_position st v) =
       Inr (pp_application v, pp_fill v)"
    "CommittedPublication_acct (False, False) (pp_id v) (commit_position st v) = Inr (position_receipt_of v)"
    "current_of (commit_position st v) (af_position (pp_fill v)) = Some (pp_next v)"
  by (simp_all add: Position_def CurrentPositionCheckpoint_def ApplicationByFill_def commit_position_views
      current_of_def CommittedPublication_acct_def commit_position_publications)

lemma no_ingestion:
  assumes "NewPositionPublication sha v = Inr p" "pp_ingestion v = None"
  shows "pp_ingestion p = None"
  using assms by (cases "NewPositionCheckpoint sha (pp_next v)")
    (auto simp: NewPositionPublication_def Let_def split: if_splits)

text \<open>The ingestion progress of a prepared publication.\<close>

lemma valid_publication_ingestion:
  assumes "NewPositionPublication sha v = Inr p" "pp_ingestion v = Some i" "NewIngestionProgress sha j = Inr i"
  shows "pp_ingestion p = Some i"
  using assms NewIngestionProgress_idem [OF assms(3)] by (cases "NewPositionCheckpoint sha (pp_next v)")
    (auto simp: NewPositionPublication_def Let_def split: if_splits)

lemma NewIngestionProgress_Inr:
  "NewIngestionProgress sha p = Inr q \<Longrightarrow> ip_metadata q = ip_metadata p \<and> ip_fill q = ip_fill p"
  by (auto simp: NewIngestionProgress_def Let_def split: if_splits)

definition carries :: "ingestion_metadata option \<Rightarrow> digest \<Rightarrow> position_publication \<Rightarrow> bool" where
  "carries m fid p \<longleftrightarrow> (case m of None \<Rightarrow> pp_ingestion p = None
     | Some d \<Rightarrow> (\<exists>i. pp_ingestion p = Some i \<and> ip_metadata i = d \<and> ip_fill i = fid))"

lemma prepare_from_carries:
  assumes "prepare_from sha f m current = Inr p"
  shows "carries m (fl_id (af_fill f)) p"
proof (cases m)
  case None
  with assms no_ingestion show ?thesis by (auto simp: prepare_from_def Let_def carries_def)
next
  case (Some d)
  with assms obtain v i j where v: "NewPositionPublication sha v = Inr p" "pp_ingestion v = Some i"
    "NewIngestionProgress sha j = Inr i" "ip_metadata j = d" "ip_fill j = fl_id (af_fill f)"
    by (fastforce simp: prepare_from_def Let_def)
  with valid_publication_ingestion [OF v(1-3)] NewIngestionProgress_Inr [OF v(3)] Some show ?thesis
    by (simp add: carries_def)
qed

text \<open>The ingestion of a fill is not known to the store yet.\<close>

definition ingestion_new :: "ingestion_metadata option \<Rightarrow> acct_store \<Rightarrow> bool" where
  "ingestion_new m st \<longleftrightarrow> (\<forall>d. m = Some d \<longrightarrow> \<not> has (ac_ingestions st) (im_id d) \<and>
     \<not> has (ac_ingestion_sources st) (pad_dec 20 (im_sequence d) @ ''|'' @ im_checkpoint d))"

lemma check_ingestion_new:
  assumes "carries m fid p" "ingestion_new m st"
  shows "check_ingestion st p = Inr ()"
  using assms
  by (cases m) (auto simp: carries_def ingestion_new_def check_ingestion_def ingestionSourceKey_def has_def Let_def)

lemma applyFill_commits:
  assumes sha: "sha_nonzero sha" and inv: "acct_inv sha st" and env: "live_env env"
    and c: "\<not> co_closed c" "map_of (co_running c) (af_position f) = None"
    and f: "fill_built sha f" "\<not> fill_is_zero f"
    and new: "\<not> has (ac_fills st) (fl_id (af_fill f))" "\<not> has (ac_publications st) (publication_id sha f)"
    and room: "room_for st (af_position f)" "\<not> ac_fail_before_commit st"
    and ok: "fill_acceptable (map_option pc_snapshot (current_of st (af_position f))) f"
    and m: "metadata_fits m f" "ingestion_new m st"
  obtains p r where "applyFill sha env f m (st, c) = ((commit_position st p, c), Inr (position_receipt_of p))"
    "Apply sha (map_option pc_snapshot (current_of st (af_position f))) f = Inr r"
    "pc_snapshot (pp_next p) = ar_snapshot r" "pp_application p = ar_application r" "pp_fill p = f"
    "pp_id p = publication_id sha f" "acct_inv sha (commit_position st p)"
proof -
  let ?cur = "current_of st (af_position f)"
  note cp = current_of_ok [OF inv, of "af_position f"]
  obtain r where r: "Apply sha (map_option pc_snapshot ?cur) f = Inr r"
    using Apply_iff [OF sha f checkpoint_ok_current [OF cp]] ok by blast
  obtain p where p: "prepare_from sha f m ?cur = Inr p"
    using prepare_from_succeeds [OF sha f cp r m(1)] by blast
  have pf: "prepared_from sha f ?cur p" by (rule prepare_from_Inr [OF p])
  have valid: "NewPositionPublication sha p = Inr p"
    using pf NewPositionPublication_idem by (auto simp: prepared_from_def)
  have eqs: "pp_fill p = f" "pp_id p = publication_id sha f" "pc_snapshot (pp_next p) = ar_snapshot r"
    "pp_application p = ar_application r" using pf r by (auto simp: prepared_from_def)
  have adm: "admit_position sha st p = Inr ()"
    unfolding admit_prepared [OF inv pf] check_ingestion_new [OF prepare_from_carries [OF p] m(2)]
    using new(1) room by (simp add: has_def)
  have pub: "PublishPosition sha (False, False) p st = (commit_position st p, Inr (position_receipt_of p))"
    using valid adm new(2) eqs(2) by (simp add: PublishPosition_def has_def)
  have "applyFill sha env f m (st, c) = ((commit_position st p, c), Inr (position_receipt_of p))"
    using env c new(1) f(2) p pub prepare_publication_current [OF inv, of f m] release_reserved [OF c(2)]
    by (simp add: applyFill_def replayed_fill_def ApplicationByFill_def reserve_def live_env_def has_def Let_def)
  moreover have "acct_inv sha (commit_position st p)"
    by (rule commit_position_inv [OF inv prepared_made [OF inv f(1) pf] valid adm])
  ultimately show thesis using that r eqs by blast
qed

lemma no_metadata [simp]: "metadata_fits None f" "ingestion_new None st"
  by (simp_all add: metadata_fits_def ingestion_new_def)

section \<open>A committed fill is answered idempotently ever after\<close>

definition acct_grows :: "acct_store \<Rightarrow> acct_store \<Rightarrow> bool" where
  "acct_grows st st' \<longleftrightarrow> map_of (ac_fills st) \<subseteq>\<^sub>m map_of (ac_fills st') \<and>
     map_of (ac_publications st) \<subseteq>\<^sub>m map_of (ac_publications st') \<and>
     map_of (ac_ingestions st) \<subseteq>\<^sub>m map_of (ac_ingestions st')"

lemma acct_growsD:
  assumes "acct_grows st st'"
  shows "map_of (ac_fills st) i = Some v \<Longrightarrow> map_of (ac_fills st') i = Some v"
    "map_of (ac_publications st) i = Some q \<Longrightarrow> map_of (ac_publications st') i = Some q"
    "map_of (ac_ingestions st) i = Some w \<Longrightarrow> map_of (ac_ingestions st') i = Some w"
  using assms by (auto simp: acct_grows_def map_le_def dom_def)

lemma acct_grows_refl [simp]: "acct_grows st st"
  by (simp add: acct_grows_def)

lemma commit_position_ingestions:
  "ac_ingestions (commit_position st v) = (case pp_ingestion v of None \<Rightarrow> ac_ingestions st
     | Some p \<Rightarrow> put (im_id (ip_metadata p)) p (ac_ingestions st))"
  by (simp add: commit_position_def Let_def)

lemma publish_grows:
  assumes "PublishPosition sha ctx p st = (st', x)"
  shows "acct_grows st st'"
  using assms
proof (cases rule: PublishPosition_cases)
  case (commit v)
  have "\<not> has (ac_fills st) (fl_id (af_fill (pp_fill v)))" and ing: "check_ingestion st v = Inr ()"
    using commit(5) by (auto elim: admit_position_Inr)
  moreover have "map_of (ac_ingestions st) \<subseteq>\<^sub>m map_of (ac_ingestions (commit_position st v))"
    using ing by (auto simp: check_ingestion_def commit_position_ingestions Let_def map_le_def
        split: option.splits if_splits)
  ultimately show ?thesis
    using commit by (auto simp: acct_grows_def commit_position_views(4) commit_position_publications has_def map_le_def)
qed simp

interpretation coord_grows: step_monotone "coord_step sha" "coord_inv sha"
  "\<lambda>s t. acct_grows (cs_store s) (cs_store t)" for sha
proof
  show "acct_grows (cs_store s) (cs_store s)" for s :: coord_state by simp
  show "acct_grows (cs_store s) (cs_store u)" if "acct_grows (cs_store s) (cs_store t)" "acct_grows (cs_store t) (cs_store u)"
    for s t u :: coord_state
    using that by (auto simp: acct_grows_def intro: map_le_trans)
  show "acct_grows (cs_store s) (cs_store t)" if "coord_step sha s t" for s t
    using that by cases (auto dest: publish_grows)
qed

lemma replayed_fill_status: "replayed_fill sha env f m st = Some (Inr r) \<Longrightarrow> pr_status r = PublicationIdempotent"
  by (auto simp: replayed_fill_def Let_def split: if_splits sum.splits)

lemma applyFill_publishes:
  assumes "applyFill sha env f m (st, c) = ((st', c'), Inr r)" "replayed_fill sha env f m st \<noteq> Some (Inr r)"
  obtains p where "prepare_publication sha (ae_read env) f m st = Inr p"
    "PublishPosition sha (ae_publish env) p st = (st', Inr r)"
proof -
  have none: "replayed_fill sha env f m st = None"
    using assms by (cases "replayed_fill sha env f m st") (auto simp: applyFill_def split: if_splits)
  obtain c1 u where res: "reserve (af_position f) (af_checksum f) c = (c1, u)" by fastforce
  show thesis
    using assms(1) none res that
    by (cases u; cases "ae_select env"; cases "prepare_publication sha (ae_read env) f m st")
      (auto simp: applyFill_def Let_def split: if_splits prod.splits)
qed

lemma applyFill_committed:
  assumes "applyFill sha env f m (st, c) = ((st', c'), Inr r)" "pr_status r = PublicationCommitted"
  obtains v where "r = position_receipt_of v" "st' = commit_position st v" "pp_fill v = f" "pp_id v = publication_id sha f"
    "carries m (fl_id (af_fill f)) v"
proof -
  have "replayed_fill sha env f m st \<noteq> Some (Inr r)"
    using assms(2) by (auto dest: replayed_fill_status)
  with assms(1) obtain p where p: "prepare_publication sha (ae_read env) f m st = Inr p"
    and pub: "PublishPosition sha (ae_publish env) p st = (st', Inr r)"
    by (rule applyFill_publishes)
  have pf: "pp_fill p = f" "pp_id p = publication_id sha f" "NewPositionPublication sha p = Inr p"
    using prepare_publication_Inr [OF p] NewPositionPublication_idem by (auto simp: prepared_from_def)
  moreover have "carries m (fl_id (af_fill f)) p"
    using p by (auto simp: prepare_publication_def prepare_from_carries split: sum.splits option.splits if_splits)
  ultimately show thesis
    using pub assms(2) by (elim PublishPosition_cases) (use that in auto)
qed

definition progress_known :: "ingestion_metadata option \<Rightarrow> digest \<Rightarrow> acct_store \<Rightarrow> bool" where
  "progress_known m fid st \<longleftrightarrow> (\<forall>d. m = Some d \<longrightarrow>
     (\<exists>i. map_of (ac_ingestions st) (im_id d) = Some i \<and> ip_metadata i = d \<and> ip_fill i = fid))"

lemma known_fill_replayed:
  assumes "map_of (ac_fills st) (fl_id (af_fill f)) = Some \<lparr>sf_fill = f, sf_application = a\<rparr>"
    "map_of (ac_publications st) (publication_id sha f) = Some q" "sq_receipt q = r"
    "pr_application r = as_id (fa_spec a)" "progress_known m (fl_id (af_fill f)) st"
    "\<not> ae_entry env" "\<not> ae_lookup env" "\<not> ae_progress env" "\<not> ae_receipt env" "\<not> fill_is_zero f"
  shows "applyFill sha env f m (st, c) = ((st, c), Inr (r\<lparr>pr_status := PublicationIdempotent\<rparr>))"
  using assms
  by (cases m) (auto simp: applyFill_def replayed_fill_def ApplicationByFill_def CommittedPublication_acct_def
      IngestionProgress_def progress_known_def Let_def)

lemma applyFill_again:
  assumes "applyFill sha env f m (st, c) = ((st', c'), Inr r)" "pr_status r = PublicationCommitted" "acct_grows st' st''"
    "\<not> ae_entry env'" "\<not> ae_lookup env'" "\<not> ae_progress env'" "\<not> ae_receipt env'"
  shows "applyFill sha env' f m (st'', d) = ((st'', d), Inr (r\<lparr>pr_status := PublicationIdempotent\<rparr>))"
proof -
  from assms(1,2) obtain v where v: "r = position_receipt_of v" "st' = commit_position st v" "pp_fill v = f"
    "pp_id v = publication_id sha f" "carries m (fl_id (af_fill f)) v" by (rule applyFill_committed)
  note grow = acct_growsD [OF assms(3)]
  have "\<not> fill_is_zero f" using assms(1) by (auto simp: applyFill_def split: if_splits)
  moreover have "map_of (ac_fills st'') (fl_id (af_fill f)) = Some \<lparr>sf_fill = f, sf_application = pp_application v\<rparr>"
    using v by (intro grow(1)) (simp add: commit_position_views(4))
  moreover have "map_of (ac_publications st'') (publication_id sha f) =
      Some \<lparr>sq_value = v, sq_receipt = r, sq_canonical = pp_raw v\<rparr>"
    using v by (intro grow(2)) (simp add: commit_position_publications)
  moreover have "progress_known m (fl_id (af_fill f)) st''"
    using v(2,5) grow(3) by (auto simp: progress_known_def carries_def commit_position_ingestions)
  moreover have "pr_application r = as_id (fa_spec (pp_application v))" using v by (simp add: position_receipt_of_def)
  ultimately show ?thesis using assms(4-7) known_fill_replayed by fastforce
qed

end
