(* ===== verification/Acct_Restore.thy ===== *)
theory Acct_Restore
  imports Acct_Handler
begin

text \<open>
  Restoring a position: a store that was filled by publications of one position is rebuilt, field by
  field, by restoring those publications in any order into an empty store.
\<close>

section \<open>A store that holds one position\<close>

abbreviation next_revision :: "position_publication \<Rightarrow> nat" where
  "next_revision p \<equiv> pn_revision (ps_spec (pc_snapshot (pp_next p)))"

definition stored_publication :: "position_publication \<Rightarrow> digest \<times> stored_position_publication" where
  "stored_publication v = (pp_id v, \<lparr>sq_value = v, sq_receipt = position_receipt_of v, sq_canonical = pp_raw v\<rparr>)"

text \<open>The state after the publications \<open>vs\<close> of position \<open>pid\<close> were committed to an empty store.\<close>

definition chain_fits :: "acct_limits \<Rightarrow> int \<Rightarrow> bool" where
  "chain_fits lim n \<longleftrightarrow> 0 < n \<longrightarrow>
     1 \<le> al_positions lim \<and> n \<le> al_revisions lim \<and> n \<le> al_applications lim \<and> n \<le> al_publications lim"

definition chain_store :: "acct_limits \<Rightarrow> digest \<Rightarrow> position_publication list \<Rightarrow> acct_store \<Rightarrow> bool" where
  "chain_store lim pid vs st \<longleftrightarrow>
     ac_limits st = lim \<and> \<not> ac_fail_before_commit st \<and> chain_fits lim (int (length vs)) \<and>
     ac_current st = (if vs = [] then [] else [(pid, length vs)]) \<and>
     ac_checkpoints st = (if vs = [] then [] else [(pid, map (\<lambda>v. (next_revision v, pp_next v)) vs)]) \<and>
     ac_applications st = (if vs = [] then [] else [(pid, map pp_application vs)]) \<and>
     ac_publications st = map stored_publication vs \<and>
     map next_revision vs = [1..<Suc (length vs)] \<and> (\<forall>v \<in> set vs. af_position (pp_fill v) = pid) \<and>
     length (ac_fills st) = length vs \<and> gomap_wf (ac_fills st) \<and> gomap_wf (ac_publications st) \<and>
     gomap_wf (ac_ingestions st) \<and> gomap_wf (ac_ingestion_sources st)"

lemma chain_store_empty: "chain_store lim pid [] (empty_acct_store lim)"
  by (simp add: chain_store_def empty_acct_store_def chain_fits_def)

lemma put_singleton [simp]: "put k v [(k, w)] = [(k, v)]" "put k v [] = [(k, v)]"
  by (simp_all add: put_def)

lemma commit_position_fields:
  "ac_limits (commit_position st v) = ac_limits st"
  "ac_fail_before_commit (commit_position st v) = ac_fail_before_commit st"
  "ac_current (commit_position st v) = put (af_position (pp_fill v)) (next_revision v) (ac_current st)"
  "ac_checkpoints (commit_position st v) = put (af_position (pp_fill v))
     (put (next_revision v) (pp_next v) (get_or [] (ac_checkpoints st) (af_position (pp_fill v)))) (ac_checkpoints st)"
  "ac_applications (commit_position st v) = put (af_position (pp_fill v))
     (get_or [] (ac_applications st) (af_position (pp_fill v)) @ [pp_application v]) (ac_applications st)"
  "gomap_wf (ac_ingestions st) \<Longrightarrow> gomap_wf (ac_ingestions (commit_position st v))"
  "gomap_wf (ac_ingestion_sources st) \<Longrightarrow> gomap_wf (ac_ingestion_sources (commit_position st v))"
  by (auto simp: commit_position_def position_receipt_of_def Let_def split: option.splits)

lemma commit_position_chain:
  assumes chain: "chain_store lim pid vs st" and pos: "af_position (pp_fill v) = pid"
    and rev: "next_revision v = Suc (length vs)"
    and new: "\<not> has (ac_fills st) (fl_id (af_fill (pp_fill v)))" "\<not> has (ac_publications st) (pp_id v)"
    and fits: "chain_fits lim (int (length vs) + 1)"
  shows "chain_store lim pid (vs @ [v]) (commit_position st v)"
proof -
  let ?st = "commit_position st v"
  note c = chain [unfolded chain_store_def]
  have wf: "gomap_wf (ac_fills st)" "gomap_wf (ac_publications st)" "gomap_wf (ac_ingestions st)"
    "gomap_wf (ac_ingestion_sources st)" using c by blast+
  have "next_revision ` set vs = set [1..<Suc (length vs)]" using c by (metis set_map)
  with rev have "next_revision v \<notin> next_revision ` set vs" by auto
  then have fresh: "\<not> has (map (\<lambda>v. (next_revision v, pp_next v)) vs) (next_revision v)"
    by (auto simp: has_def map_of_eq_None_iff image_image)
  have "get_or [] (ac_checkpoints st) pid = map (\<lambda>v. (next_revision v, pp_next v)) vs"
    "get_or [] (ac_applications st) pid = map pp_application vs"
    using c by (cases vs; simp add: get_or_def)+
  then have "ac_checkpoints ?st = [(pid, map (\<lambda>v. (next_revision v, pp_next v)) (vs @ [v]))]"
    "ac_applications ?st = [(pid, map pp_application (vs @ [v]))]" "ac_current ?st = [(pid, length (vs @ [v]))]"
    using c pos rev put_fresh [OF fresh] by (cases vs; simp add: commit_position_fields)+
  moreover have "ac_publications ?st = map stored_publication (vs @ [v])"
    using c put_fresh [OF new(2)] by (simp add: commit_position_publications stored_publication_def)
  moreover have "length (ac_fills ?st) = length (vs @ [v])"
    using c new(1) by (simp add: commit_position_views(4) length_put)
  moreover have "gomap_wf (ac_fills ?st)" "gomap_wf (ac_publications ?st)" "gomap_wf (ac_ingestions ?st)"
    "gomap_wf (ac_ingestion_sources ?st)"
    using wf by (simp_all add: commit_position_views(4) commit_position_publications commit_position_fields)
  moreover have "map next_revision (vs @ [v]) = [1..<Suc (length (vs @ [v]))]" using c rev by simp
  moreover have "\<forall>u \<in> set (vs @ [v]). af_position (pp_fill u) = pid" using c pos by simp
  moreover have "ac_limits ?st = lim" "\<not> ac_fail_before_commit ?st" using c by (simp_all add: commit_position_fields)
  moreover have "chain_fits lim (int (length (vs @ [v])))" using fits by (simp add: add.commute)
  ultimately show ?thesis unfolding chain_store_def by simp
qed

lemma chain_sizes:
  assumes "chain_store lim pid vs st"
  shows "totalRevisions st = int (length vs)" "size_of (ac_fills st) = int (length vs)"
    "size_of (ac_publications st) = int (length vs)" "acct_head st pid = length vs"
    "size_of (ac_current st) = (if vs = [] then 0 else 1)"
  using assms by (auto simp: chain_store_def totalRevisions_def size_of_def acct_head_def)

section \<open>Publishing and restoring\<close>

lemma publish_chain:
  assumes chain: "chain_store lim pid vs st" and inv: "acct_inv sha st" and made: "publication_made sha p"
    and pos: "af_position (pp_fill p) = pid"
    and pub: "PublishPosition sha ctx p st = (st', Inr r)" "pr_status r = PublicationCommitted"
  obtains v where "chain_store lim pid (vs @ [v]) st'" "acct_inv sha st'" "af_position (pp_fill v) = pid"
    "PublishPosition sha (False, False) v st = (st', Inr r)"
  using pub(1)
proof (cases rule: PublishPosition_cases)
  case unchanged
  with pub(2) show thesis by simp
next
  case (commit v)
  note facts = position_commit_facts [OF inv made commit(1,5)] and size = chain_sizes [OF chain]
  have eq: "pp_fill v = pp_fill p" by (rule NewPositionPublication_Inr [OF commit(1)])
  have "chain_fits lim (int (length vs) + 1)"
    using commit(5)
  proof (rule admit_position_Inr)
    assume "totalRevisions st < al_revisions (ac_limits st)" "size_of (ac_fills st) < al_applications (ac_limits st)"
      "size_of (ac_publications st) < al_publications (ac_limits st)"
      "acct_head st (af_position (pp_fill v)) = 0 \<Longrightarrow> size_of (ac_current st) < al_positions (ac_limits st)"
    with size chain pos eq show ?thesis by (cases vs) (auto simp: chain_fits_def chain_store_def)
  qed
  moreover have "next_revision v = Suc (length vs)" using facts(1,5) size(4) pos by simp
  ultimately have "chain_store lim pid (vs @ [v]) st'"
    unfolding commit(6) using commit_position_chain [OF chain] facts(2) commit(4) pos eq by simp
  moreover have "acct_inv sha st'" unfolding commit(6) by (rule commit_position_inv [OF inv made commit(1,5)])
  moreover have "PublishPosition sha (False, False) v st = (st', Inr r)"
    using commit NewPositionPublication_idem [OF commit(1)] by (simp add: PublishPosition_def has_def)
  ultimately show thesis using that pos eq by simp
qed

lemma run_chain:
  assumes "run_ops (\<lambda>(ctx, p). PublishPosition sha ctx p) ps st = (st', xs)"
    "\<forall>(ctx, p) \<in> set ps. publication_made sha p \<and> af_position (pp_fill p) = pid"
    "\<forall>x \<in> set xs. \<exists>r. x = Inr r \<and> pr_status r = PublicationCommitted"
    "chain_store lim pid vs st" "acct_inv sha st"
  shows "\<exists>ws. length ws = length ps \<and> chain_store lim pid (vs @ ws) st' \<and>
    (\<forall>i. restore_into sha (\<lambda>_. (False, False)) pid i ws st = Inr st')"
  using assms
proof (induction ps arbitrary: st xs vs)
  case Nil
  then show ?case by simp
next
  case (Cons cp ps)
  obtain ctx p where cp: "cp = (ctx, p)" by (cases cp)
  obtain st1 x ys where x: "PublishPosition sha ctx p st = (st1, x)" "xs = x # ys"
    and run: "run_ops (\<lambda>(ctx, p). PublishPosition sha ctx p) ps st1 = (st', ys)"
    using Cons.prems(1) cp by (auto simp: Let_def split: prod.splits)
  from Cons.prems(3) x obtain r where r: "x = Inr r" "pr_status r = PublicationCommitted" by auto
  from Cons.prems(2) cp have made: "publication_made sha p" "af_position (pp_fill p) = pid" by auto
  obtain v where v: "chain_store lim pid (vs @ [v]) st1" "acct_inv sha st1" "af_position (pp_fill v) = pid"
    "PublishPosition sha (False, False) v st = (st1, Inr r)"
    by (rule publish_chain [OF Cons.prems(4,5) made x(1) [unfolded r(1)] r(2)])
  have "\<forall>(ctx, p) \<in> set ps. publication_made sha p \<and> af_position (pp_fill p) = pid"
    "\<forall>x \<in> set ys. \<exists>r. x = Inr r \<and> pr_status r = PublicationCommitted"
    using Cons.prems(2,3) x by auto
  from Cons.IH [OF run this v(1,2)] obtain ws where "length ws = length ps" "chain_store lim pid (vs @ v # ws) st'"
    "\<forall>i. restore_into sha (\<lambda>_. (False, False)) pid i ws st1 = Inr st'" by auto
  with v(3,4) show ?case by (intro exI [of _ "v # ws"]) simp
qed

text \<open>What \<open>Publications\<close> returns of such a store, and what restoring it gives.\<close>

lemma chain_publications:
  assumes "chain_store lim pid vs st" "vs \<noteq> []"
  shows "Publications (False, False) pid st = Inr vs"
proof -
  have rev: "map next_revision vs = [1..<Suc (length vs)]" and pub: "ac_publications st = map stored_publication vs"
    and pos: "\<forall>v \<in> set vs. af_position (pp_fill v) = pid"
    using assms(1) unfolding chain_store_def by blast+
  have "filter (\<lambda>(_, v). pr_position (sq_receipt v) = pid) (map stored_publication vs) = map stored_publication vs"
    using pos by (auto simp: filter_id_conv stored_publication_def position_receipt_of_def)
  moreover have "map (sq_value \<circ> snd) (map stored_publication vs) = vs" by (simp add: stored_publication_def comp_def)
  moreover have "sort_key next_revision vs = vs"
    by (rule sort_key_id_if_sorted) (simp only: rev sorted_upt)
  ultimately show ?thesis using assms(2) by (simp add: Publications_def pub Let_def)
qed

lemma find_never [simp]: "find (\<lambda>(a, b). False) xs = None"
  by (simp add: find_None_iff)

lemma chain_restore:
  assumes chain: "chain_store lim pid vs st" and ne: "vs \<noteq> []" and perm: "mset qs = mset vs"
    and into: "restore_into sha (\<lambda>_. (False, False)) pid 0 vs (empty_acct_store lim) = Inr st"
  shows "RestorePosition sha False (\<lambda>_. (False, False)) qs (empty_acct_store lim) = (st, Inr ())"
proof -
  note c = chain [unfolded chain_store_def]
  have rev: "map next_revision vs = [1..<Suc (length vs)]" using c by blast
  then have inj: "inj_on next_revision (set vs)" by (metis distinct_map distinct_upt)
  have "sort_key next_revision vs = vs"
    by (rule sort_key_id_if_sorted) (simp only: rev sorted_upt)
  then have sorted: "sort_key next_revision qs = vs"
    using sort_distinct_keys [OF perm [symmetric] inj] by simp
  have "qs \<noteq> []" "length qs = length vs" using perm ne mset_eq_length by fastforce+
  moreover have "af_position (pp_fill (hd vs)) = pid" using c ne by simp
  moreover have lim: "chain_fits lim (int (length vs))" using c by blast
  moreover have "put_all (ac_fills st) [] = ac_fills st" "put_all (ac_publications st) [] = ac_publications st"
    "put_all (ac_ingestions st) [] = ac_ingestions st" "put_all (ac_ingestion_sources st) [] = ac_ingestion_sources st"
    using c put_all_fresh by fastforce+
  moreover have "ac_current st = [(pid, length vs)]" "ac_checkpoints st = [(pid, map (\<lambda>v. (next_revision v, pp_next v)) vs)]"
    "ac_applications st = [(pid, map pp_application vs)]" "ac_limits st = lim" "\<not> ac_fail_before_commit st"
    using c ne by simp_all
  ultimately show ?thesis
    using into ne unfolding RestorePosition_def sorted Let_def
    by (cases st) (auto simp: empty_acct_store_def totalRevisions_def size_of_def chain_fits_def get_or_def)
qed

section \<open>Limits\<close>

text \<open>Every operation that changes the store, in any order.\<close>

inductive acct_step :: "(string \<Rightarrow> digest) \<Rightarrow> acct_store \<Rightarrow> acct_store \<Rightarrow> bool" for sha where
  publish: "PublishPosition sha ctx p st = (st', x) \<Longrightarrow> acct_step sha st st'"
| restore: "RestorePosition sha b ctx_at ps st = (st', x) \<Longrightarrow> acct_step sha st st'"
| inject: "acct_step sha st (SetFailBeforeCommit b st)"

definition acct_bounded :: "acct_store \<Rightarrow> bool" where
  "acct_bounded st \<longleftrightarrow> size_of (ac_current st) \<le> al_positions (ac_limits st) \<and>
     totalRevisions st \<le> al_revisions (ac_limits st) \<and> size_of (ac_fills st) \<le> al_applications (ac_limits st) \<and>
     size_of (ac_publications st) \<le> al_publications (ac_limits st)"

lemma size_of_nonneg [simp]: "0 \<le> size_of m"
  by (simp add: size_of_def)

text \<open>Revisions are counted over the inner maps.\<close>

definition inner_size :: "('k, ('a, 'b) gomap) gomap \<Rightarrow> int" where
  "inner_size m = sum_list (map (\<lambda>(_, values). size_of values) m)"

lemma inner_size_put: "inner_size (put k v m) = inner_size m + size_of v - size_of (get_or [] m k)"
  by (induction m) (auto simp: inner_size_def put_def get_or_def size_of_def)

lemma inner_size_member: "size_of (get_or [] m k) \<le> inner_size m" "0 \<le> inner_size m"
proof -
  show nonneg: "0 \<le> inner_size m" for m :: "('k, ('a, 'b) gomap) gomap"
    by (induction m) (auto simp: inner_size_def)
  show "size_of (get_or [] m k) \<le> inner_size m"
  proof (induction m)
    case (Cons a m)
    have "0 \<le> sum_list (map (\<lambda>(_, values). size_of values) m)" using nonneg [of m] by (simp add: inner_size_def)
    with Cons show ?case by (cases a) (auto simp: inner_size_def get_or_def size_of_def)
  qed (simp add: inner_size_def get_or_def size_of_def)
qed

lemma commit_sizes:
  "totalRevisions (commit_position st v) \<le> totalRevisions st + 1"
  "size_of (ac_fills (commit_position st v)) \<le> size_of (ac_fills st) + 1"
  "size_of (ac_publications (commit_position st v)) \<le> size_of (ac_publications st) + 1"
proof -
  show "totalRevisions (commit_position st v) \<le> totalRevisions st + 1"
    using size_put [of "next_revision v" "pp_next v" "get_or [] (ac_checkpoints st) (af_position (pp_fill v))"]
    unfolding totalRevisions_def inner_size_def [symmetric] commit_position_fields inner_size_put by linarith
qed (simp_all add: commit_position_views(4) commit_position_publications size_put)

lemma publish_sizes:
  assumes "PublishPosition sha ctx p st = (st', x)"
  shows "totalRevisions st' \<le> totalRevisions st + 1 \<and> size_of (ac_fills st') \<le> size_of (ac_fills st) + 1 \<and>
    size_of (ac_publications st') \<le> size_of (ac_publications st) + 1"
  using assms by (rule PublishPosition_cases) (simp_all add: commit_sizes)

lemma restore_into_sizes:
  "restore_into sha ctx_at pid i ps st = Inr st' \<Longrightarrow>
     totalRevisions st' \<le> totalRevisions st + int (length ps) \<and>
     size_of (ac_fills st') \<le> size_of (ac_fills st) + int (length ps) \<and>
     size_of (ac_publications st') \<le> size_of (ac_publications st) + int (length ps)"
proof (induction ps arbitrary: i st)
  case (Cons p ps)
  from Cons.prems obtain st1 r where "PublishPosition sha (ctx_at i) p st = (st1, Inr r)"
    "restore_into sha ctx_at pid (Suc i) ps st1 = Inr st'"
    by (auto split: if_splits prod.splits sum.splits)
  with Cons.IH [of "Suc i" st1] publish_sizes [of sha "ctx_at i" p st st1 "Inr r"] show ?case by auto
qed simp

lemma RestorePosition_cases:
  assumes "RestorePosition sha b ctx_at ps st = (st', x)"
  obtains (refused) e where "st' = st" "x = Inl e"
  | (restored) temp pid where "x = Inr ()"
      "restore_into sha ctx_at pid 0 (sort_key next_revision ps) (empty_acct_store (ac_limits st)) = Inr temp"
      "\<not> has (ac_current st) pid" "size_of (ac_current st) + 1 \<le> al_positions (ac_limits st)"
      "totalRevisions st + int (length ps) \<le> al_revisions (ac_limits st)"
      "size_of (ac_fills st) + int (length ps) \<le> al_applications (ac_limits st)"
      "size_of (ac_publications st) + int (length ps) \<le> al_publications (ac_limits st)"
      "st' = st\<lparr>ac_current := put pid (get_or 0 (ac_current temp) pid) (ac_current st),
                 ac_checkpoints := put pid (get_or [] (ac_checkpoints temp) pid) (ac_checkpoints st),
                 ac_applications := put pid (get_or [] (ac_applications temp) pid) (ac_applications st),
                 ac_fills := put_all (ac_fills temp) (ac_fills st),
                 ac_publications := put_all (ac_publications temp) (ac_publications st),
                 ac_ingestions := put_all (ac_ingestions temp) (ac_ingestions st),
                 ac_ingestion_sources := put_all (ac_ingestion_sources temp) (ac_ingestion_sources st)\<rparr>"
proof -
  define ordered where "ordered = sort_key next_revision ps"
  define pid where "pid = af_position (pp_fill (hd ordered))"
  define into where "into = restore_into sha ctx_at pid 0 ordered (empty_acct_store (ac_limits st))"
  define full where "full \<longleftrightarrow> size_of (ac_current st) + 1 > al_positions (ac_limits st) \<or>
    totalRevisions st + int (length ordered) > al_revisions (ac_limits st) \<or>
    size_of (ac_fills st) + int (length ordered) > al_applications (ac_limits st) \<or>
    size_of (ac_publications st) + int (length ordered) > al_publications (ac_limits st)"
  note eq = assms [unfolded RestorePosition_def Let_def, folded ordered_def, folded pid_def, folded into_def full_def]
  show thesis
  proof (cases "b \<or> ps = [] \<or> isl into \<or> has (ac_current st) pid \<or> full")
    case True
    with eq have "\<exists>e. st' = st \<and> x = Inl e" by (auto simp: isl_def split: if_splits sum.splits)
    with refused show thesis by blast
  next
    case False
    then obtain temp where temp: "into = Inr temp" by (cases into) auto
    define a b c where "a = find (\<lambda>(i, value). case map_of (ac_fills st) i of None \<Rightarrow> False
               | Some existing \<Rightarrow> af_raw (sf_fill existing) \<noteq> af_raw (sf_fill value)) (ac_fills temp)"
      and "b = find (\<lambda>(i, value). case map_of (ac_ingestions st) i of None \<Rightarrow> False
               | Some existing \<Rightarrow> ip_raw existing \<noteq> ip_raw value) (ac_ingestions temp)"
      and "c = find (\<lambda>(k, i). case map_of (ac_ingestion_sources st) k of None \<Rightarrow> False
               | Some existing \<Rightarrow> existing \<noteq> i) (ac_ingestion_sources temp)"
    note eq' = eq [unfolded temp sum.case, folded a_def b_def c_def]
    show thesis
    proof (cases "a = None \<and> b = None \<and> c = None")
      case ok: True
      have "length ordered = length ps" by (simp add: ordered_def)
      with ok eq' False temp show thesis
        by (intro restored [of pid temp]) (auto simp: full_def into_def ordered_def not_less)
    next
      case bad: False
      with eq' False have "\<exists>e. st' = st \<and> x = Inl e" by (cases a; cases b; cases c) (auto simp: split_beta)
      with refused show thesis by blast
    qed
  qed
qed

lemma restored_bounded:
  assumes "acct_bounded st" "RestorePosition sha b ctx_at ps st = (st', x)"
  shows "acct_bounded st'"
  using assms(2)
proof (cases rule: RestorePosition_cases)
  case (restored temp pid)
  note t = restore_into_sizes [OF restored(2)]
  have total: "totalRevisions st' = totalRevisions st + size_of (get_or [] (ac_checkpoints temp) pid) -
      size_of (get_or [] (ac_checkpoints st) pid)"
    unfolding totalRevisions_def inner_size_def [symmetric] restored(8) by (simp add: inner_size_put)
  have "size_of (get_or [] (ac_checkpoints temp) pid) \<le> totalRevisions temp"
    unfolding totalRevisions_def inner_size_def [symmetric] by (rule inner_size_member)
  with t total restored(5) size_of_nonneg [of "get_or [] (ac_checkpoints st) pid"]
  have "totalRevisions st' \<le> al_revisions (ac_limits st)"
    by (simp add: empty_acct_store_def totalRevisions_def size_of_def)
  moreover have "size_of (ac_current st') \<le> al_positions (ac_limits st)"
    using size_put [of pid "get_or 0 (ac_current temp) pid" "ac_current st"] restored(4,8) by simp
  moreover have "size_of (ac_fills st') \<le> al_applications (ac_limits st)" "size_of (ac_publications st') \<le> al_publications (ac_limits st)"
    using t restored(6,7,8) size_put_all [of "ac_fills temp" "ac_fills st"]
      size_put_all [of "ac_publications temp" "ac_publications st"]
    by (simp_all add: empty_acct_store_def size_of_def)
  moreover have "ac_limits st' = ac_limits st" by (simp add: restored(8))
  ultimately show ?thesis by (simp add: acct_bounded_def)
qed (use assms(1) in simp)

lemma published_bounded:
  assumes "acct_bounded st" "PublishPosition sha ctx p st = (st', x)"
  shows "acct_bounded st'"
  using assms(2)
proof (cases rule: PublishPosition_cases)
  case (commit v)
  have "size_of (ac_current st') \<le> al_positions (ac_limits st)"
  proof (cases "has (ac_current st) (af_position (pp_fill v))")
    case True
    with commit(6) assms(1) show ?thesis by (simp add: commit_position_fields acct_bounded_def size_of_def length_put)
  next
    case False
    then have "acct_head st (af_position (pp_fill v)) = 0" by (simp add: acct_head_def has_def)
    with commit(5) have "size_of (ac_current st) < al_positions (ac_limits st)" by (auto elim: admit_position_Inr)
    with commit(6) show ?thesis by (simp add: commit_position_fields size_put_le)
  qed
  moreover have "totalRevisions st < al_revisions (ac_limits st)" "size_of (ac_fills st) < al_applications (ac_limits st)"
    "size_of (ac_publications st) < al_publications (ac_limits st)"
    using commit(5) by (auto elim: admit_position_Inr)
  ultimately show ?thesis
    using commit(6) commit_sizes [of st v] by (simp add: acct_bounded_def commit_position_fields)
qed (use assms(1) in simp)

lemma injected_bounded: "acct_bounded st \<Longrightarrow> acct_bounded (SetFailBeforeCommit b st)"
  by (simp add: acct_bounded_def SetFailBeforeCommit_def totalRevisions_def)

interpretation acct_limited: step_invariant "acct_step sha" acct_bounded for sha
proof
  fix st st' assume "acct_bounded st" "acct_step sha st st'"
  from this(2,1) show "acct_bounded st'"
    by cases (auto intro: published_bounded restored_bounded injected_bounded)
qed

lemma NewAcctStore_bounded: "NewAcctStore lim = Inr st \<Longrightarrow> acct_bounded st"
  by (auto simp: NewAcctStore_def acct_bounded_def empty_acct_store_def limits_valid_def totalRevisions_def size_of_def
      split: if_splits)

end
