(* ===== verification/Acct_Ingestion.thy ===== *)
theory Acct_Ingestion
  imports Acct_Restore Oms_Store
begin

text \<open>
  \<open>internal/accounting/ingestion/ingestion.go\<close>: the coordinator through which fills of the order store reach
  the position accounting. A request carries a fill with its report, order, plan and intent; the
  coordinator compares them with what the order store holds, resolves account and instrument, and applies
  the fill through the accounting coordinator. A fill that comes too late for its position is quarantined.
\<close>

section \<open>The sources a request is checked against\<close>

record lineage =
  ln_fill :: fill
  ln_report :: execution_report
  ln_order :: order
  ln_plan :: order_plan
  ln_intent :: execution_intent

text \<open>
  \<open>RepositoryLineageReader.Resolve\<close> over the order store; \<open>ctx_at i\<close> is what the i-th query sees of the context.
\<close>

definition RepositoryLineage :: "oms_store \<Rightarrow> (nat \<Rightarrow> ctx) \<Rightarrow> fill \<Rightarrow> lineage result" where
  "RepositoryLineage oms ctx_at candidate =
     (if fl_id candidate = 0 then Inl (Ingestion ErrInvalidLineage)
      else bind_r (OMS_Order (ctx_at 0) (fs_order (fl_spec candidate)) oms) (\<lambda>order.
      bind_r (Fills (ctx_at 1) (ord_id order) oms) (\<lambda>fills.
      case find (\<lambda>value. fl_id value = fl_id candidate) fills of
        None \<Rightarrow> Inl (Ingestion ErrInvalidLineage)
      | Some fill \<Rightarrow>
      if fl_raw fill \<noteq> fl_raw candidate then Inl (Ingestion ErrInvalidLineage)
      else bind_r (Reports (ctx_at 2) (ord_id order) oms) (\<lambda>reports.
      case find (\<lambda>value. er_id value = fs_report (fl_spec fill)) reports of
        None \<Rightarrow> Inl (Ingestion ErrInvalidLineage)
      | Some report \<Rightarrow>
      if er_id report = 0 then Inl (Ingestion ErrInvalidLineage)
      else bind_r (OMS_Plan (ctx_at 3) (os_plan (ord_spec order)) oms) (\<lambda>plan.
      bind_r (OMS_Intent (ctx_at 4) (ei_id (ops_intent (op_spec plan))) oms) (\<lambda>intent.
        Inr \<lparr>ln_fill = fill, ln_report = report, ln_order = order, ln_plan = plan, ln_intent = intent\<rparr>))))))"

definition StaticLineage :: "lineage list \<Rightarrow> bool \<Rightarrow> fill \<Rightarrow> lineage result" where
  "StaticLineage values ctx_done fill =
     (if ctx_done then Inl ContextDone
      else case find (\<lambda>value. fl_id (ln_fill value) = fl_id fill) values of
        None \<Rightarrow> Inl (Ingestion ErrInvalidLineage) | Some value \<Rightarrow> Inr value)"

definition Known :: "digest set \<Rightarrow> bool \<Rightarrow> digest \<Rightarrow> bool result" where
  "Known registry ctx_done i = (if ctx_done then Inl ContextDone else Inr (i \<in> registry))"

definition StaticBindings ::
  "(string \<Rightarrow> digest) \<Rightarrow> (digest, account_binding) gomap \<Rightarrow> bool \<Rightarrow> digest \<Rightarrow> instant \<Rightarrow> account_binding result" where
  "StaticBindings sha bindings ctx_done portfolio at =
     (if ctx_done then Inl ContextDone
      else case map_of bindings portfolio of
        None \<Rightarrow> Inl (Ingestion ErrInvalidAccountScope)
      | Some value \<Rightarrow>
          if AccountBinding_Validate sha value \<noteq> Inr () \<or> ab_valid_from value > at
          then Inl (Ingestion ErrInvalidAccountScope) else Inr value)"

text \<open>The interfaces the coordinator is given: lineage reader, account bindings and instrument registry.\<close>

record ing_sources =
  is_lineage :: "fill \<Rightarrow> lineage result"
  is_binding :: "digest \<Rightarrow> instant \<Rightarrow> account_binding result"
  is_known :: "digest \<Rightarrow> bool result"

section \<open>State\<close>

record ing_request =
  iq_fill :: fill
  iq_report :: execution_report
  iq_order :: order
  iq_plan :: order_plan
  iq_intent :: execution_intent
  iq_binding :: account_binding
  iq_sequence :: nat
  iq_checkpoint :: string
  iq_checksum :: digest
  iq_received :: instant

record rebuild_evidence =
  re_ingestion :: digest
  re_position :: digest
  re_fill :: digest
  re_key :: ordering_key
  re_reason :: string

record ing_result =
  ir_receipt :: "position_receipt option"
  ir_ingestion :: digest
  ir_rebuild :: "rebuild_evidence option"

record ing_config =
  ic_max_concurrency :: int
  ic_timeout :: int
  ic_maximum_quarantines :: int

definition DefaultConfig_ing :: ing_config where
  "DefaultConfig_ing = \<lparr>ic_max_concurrency = 4, ic_timeout = 1000000000, ic_maximum_quarantines = 1024\<rparr>"

record ing_coord =
  ig_config :: ing_config
  ig_running :: "(digest, digest) gomap"
  ig_quarantines :: "rebuild_evidence list"
  ig_closed :: bool
  ig_waiting :: int

definition NewIngestion :: "ing_config \<Rightarrow> ing_coord result" where
  "NewIngestion config =
     (if ic_max_concurrency config \<le> 0 \<or> ic_max_concurrency config > 64 \<or> ic_timeout config \<le> 0 \<or>
         ic_timeout config > 60000000000 \<or> ic_maximum_quarantines config \<le> 0 \<or> ic_maximum_quarantines config > 10000
      then Inl (Ingestion ErrInvalidRequest_ing)
      else Inr \<lparr>ig_config = config, ig_running = [], ig_quarantines = [], ig_closed = False, ig_waiting = 0\<rparr>)"

section \<open>Operations\<close>

text \<open>The agreement of a fill, its report, order, plan and intent.\<close>

definition lineage_consistent :: "ing_request \<Rightarrow> bool" where
  "lineage_consistent request \<longleftrightarrow>
     (let fillSpec = fl_spec (iq_fill request); reportSpec = er_spec (iq_report request);
          orderSpec = ord_spec (iq_order request) in
      fs_order fillSpec = ord_id (iq_order request) \<and> fs_report fillSpec = er_id (iq_report request) \<and>
      ers_order reportSpec = ord_id (iq_order request) \<and> ers_client reportSpec = ord_client (iq_order request) \<and>
      os_plan orderSpec = op_id (iq_plan request) \<and> ei_id (ops_intent (op_spec (iq_plan request))) = ei_id (iq_intent request) \<and>
      ol_instrument (os_leg orderSpec) \<noteq> 0 \<and>
      (ers_type reportSpec = ReportPartialFill \<or> ers_type reportSpec = ReportFill) \<and>
      ers_reason reportSpec = ReasonBrokerFill)"

definition amounts_consistent :: "ing_request \<Rightarrow> bool" where
  "amounts_consistent request \<longleftrightarrow>
     (let fillSpec = fl_spec (iq_fill request); reportSpec = er_spec (iq_report request);
          leg = os_leg (ord_spec (iq_order request)) in
      iq_received request = ers_received_at reportSpec \<and> fs_occurred_at fillSpec = ers_occurred_at reportSpec \<and>
      fs_quantity fillSpec \<le> ers_cumulative reportSpec \<and> ers_cumulative reportSpec \<le> ol_quantity leg \<and>
      price_currency (fs_price fillSpec) = price_currency (ol_limit_price leg))"

definition same_lineage :: "lineage \<Rightarrow> ing_request \<Rightarrow> bool" where
  "same_lineage authoritative request \<longleftrightarrow>
     fl_raw (ln_fill authoritative) = fl_raw (iq_fill request) \<and>
     er_raw (ln_report authoritative) = er_raw (iq_report request) \<and>
     ord_raw (ln_order authoritative) = ord_raw (iq_order request) \<and>
     op_raw (ln_plan authoritative) = op_raw (iq_plan request) \<and>
     ei_raw (ln_intent authoritative) = ei_raw (iq_intent request)"

abbreviation request_portfolio :: "ing_request \<Rightarrow> digest" where
  "request_portfolio request \<equiv> rd_portfolio (eis_decision (ei_spec (iq_intent request)))"

definition normalize ::
  "(string \<Rightarrow> digest) \<Rightarrow> ing_sources \<Rightarrow> bool \<Rightarrow> ing_request \<Rightarrow> (accounting_fill \<times> ingestion_metadata) result" where
  "normalize sha sources ctx_done request =
     (let fillSpec = fl_spec (iq_fill request); leg = os_leg (ord_spec (iq_order request));
          portfolio = request_portfolio request in
      if ctx_done then Inl ContextDone
      else if fl_id (iq_fill request) = 0 \<or> er_id (iq_report request) = 0 \<or> ord_id (iq_order request) = 0 \<or>
              op_id (iq_plan request) = 0 \<or> ei_id (iq_intent request) = 0 \<or> iq_received request = 0
      then Inl (Ingestion ErrInvalidRequest_ing)
      else if (case is_lineage sources (iq_fill request) of Inl _ \<Rightarrow> True
               | Inr authoritative \<Rightarrow> \<not> same_lineage authoritative request)
      then Inl (Ingestion ErrInvalidLineage)
      else if \<not> lineage_consistent request then Inl (Ingestion ErrInvalidLineage)
      else if \<not> amounts_consistent request then Inl (Ingestion ErrInvalidLineage)
      else if (case is_binding sources portfolio (fs_occurred_at fillSpec) of Inl _ \<Rightarrow> True
               | Inr resolved \<Rightarrow> AccountBinding_Validate sha (iq_binding request) \<noteq> Inr () \<or>
                   ab_portfolio (iq_binding request) \<noteq> portfolio \<or>
                   ab_valid_from (iq_binding request) > fs_occurred_at fillSpec \<or>
                   ab_checksum resolved \<noteq> ab_checksum (iq_binding request))
      then Inl (Ingestion ErrInvalidAccountScope)
      else bind_r (is_known sources (ol_instrument leg)) (\<lambda>known.
      if \<not> known then Inl (Ingestion ErrUnknownInstrument)
      else bind_r (NewAccountingFill sha
          \<lparr>afs_schema = ''accounting-fill/v1'', afs_fill = iq_fill request, afs_portfolio = portfolio,
           afs_instrument = ol_instrument leg, afs_side = ol_side leg, afs_received = iq_received request\<rparr>) (\<lambda>fill.
      bind_r (NewIngestionMetadata sha (iq_fill request) (iq_sequence request) (iq_checkpoint request)
          (iq_checksum request) (iq_binding request)) (\<lambda>metadata.
        Inr (fill, metadata)))))"

definition reserve_ing :: "digest \<Rightarrow> digest \<Rightarrow> ing_coord \<Rightarrow> ing_coord \<times> unit result" where
  "reserve_ing i checksum c =
     (if ig_closed c then (c, Inl (Ingestion ErrShutdown_ing))
      else case map_of (ig_running c) i of
        Some existing \<Rightarrow>
          if existing = checksum then (c, Inl (Ingestion ErrDuplicateInProgress_ing))
          else (c, Inl (AccountingStorage ErrIdentityCollision_acct))
      | None \<Rightarrow> (c\<lparr>ig_running := put i checksum (ig_running c), ig_waiting := ig_waiting c + 1\<rparr>, Inr ()))"

definition release_ing :: "digest \<Rightarrow> ing_coord \<Rightarrow> ing_coord" where
  "release_ing i c = c\<lparr>ig_running := AList.delete i (ig_running c), ig_waiting := ig_waiting c - 1\<rparr>"

text \<open>Appending to the quarantine list keeps the newest \<open>MaximumQuarantines\<close> entries.\<close>

definition quarantine :: "rebuild_evidence \<Rightarrow> ing_coord \<Rightarrow> ing_coord" where
  "quarantine evidence c =
     (let quarantines = ig_quarantines c @ [evidence]; maximum = ic_maximum_quarantines (ig_config c) in
      c\<lparr>ig_quarantines := (if int (length quarantines) > maximum
          then drop (nat (int (length quarantines) - maximum)) quarantines else quarantines)\<rparr>)"

definition Quarantines :: "ing_coord \<Rightarrow> rebuild_evidence list" where
  "Quarantines c = ig_quarantines c"

definition Shutdown_ing :: "bool \<Rightarrow> ing_coord \<Rightarrow> ing_coord \<times> unit result option" where
  "Shutdown_ing ctx_done c =
     (let c' = c\<lparr>ig_closed := True\<rparr> in
      (c', if ig_waiting c' = 0 then Some (Inr ()) else if ctx_done then Some (Inl ContextDone) else None))"

text \<open>What the handler observes: its context, the select, and what the accounting handler observes.\<close>

record ing_env =
  ie_entry :: bool
  ie_select :: select_outcome
  ie_apply :: apply_env

type_synonym ing_state = "(acct_store \<times> coordinator) \<times> ing_coord"

text \<open>
  \<open>Ingest\<close> returns its result together with an error, None where the error is nil. A panic of the applier
  is recovered as \<open>ErrInternal\<close>.
\<close>

definition Ingest ::
  "(string \<Rightarrow> digest) \<Rightarrow> ing_sources \<Rightarrow> ing_env \<Rightarrow> ing_request \<Rightarrow> ing_state \<Rightarrow> ing_state \<times> ing_result \<times> error option" where
  "Ingest sha sources env request state =
     (let (acct, c) = state in
      case normalize sha sources (ie_entry env) request of
        Inl e \<Rightarrow> (state, \<lparr>ir_receipt = None, ir_ingestion = 0, ir_rebuild = None\<rparr>, Some e)
      | Inr (fill, metadata) \<Rightarrow>
      let result = \<lparr>ir_receipt = None, ir_ingestion = im_id metadata, ir_rebuild = None\<rparr> in
      case reserve_ing (im_id metadata) (im_source_checksum metadata) c of
        (c1, Inl e) \<Rightarrow> ((acct, c1), result, Some e)
      | (c1, Inr _) \<Rightarrow>
      let released = release_ing (im_id metadata) c1 in
      case ie_select env of
        CallerDone \<Rightarrow> ((acct, released), result, Some ContextDone)
      | RunnerDone \<Rightarrow> ((acct, released), result, Some (Ingestion ErrShutdown_ing))
      | Acquired \<Rightarrow>
      (case ApplyIngestedFill sha (ie_apply env) fill metadata acct of
         (acct1, Inr receipt) \<Rightarrow> ((acct1, released), result\<lparr>ir_receipt := Some receipt\<rparr>, None)
       | (acct1, Inl e) \<Rightarrow>
           if e = Panic then ((acct1, released), result, Some (Ingestion ErrInternal_ing))
           else if e = Accounting ErrOutOfOrderFill then
             let evidence = \<lparr>re_ingestion = im_id metadata, re_position = af_position fill,
                   re_fill = fl_id (af_fill fill), re_key = af_ordering fill, re_reason = ''CANONICAL_PREDECESSOR''\<rparr> in
             ((acct1, release_ing (im_id metadata) (quarantine evidence c1)),
              result\<lparr>ir_rebuild := Some evidence\<rparr>, Some (Ingestion ErrRebuildRequired))
           else ((acct1, released), result, Some e)))"

section \<open>Where an ingested fill comes from\<close>

text \<open>The parts of a lineage as the order store holds them.\<close>

definition lineage_held :: "oms_store \<Rightarrow> lineage \<Rightarrow> bool" where
  "lineage_held oms l \<longleftrightarrow>
     ln_fill l \<in> snd ` set (st_fills oms) \<and> fs_order (fl_spec (ln_fill l)) = ord_id (ln_order l) \<and>
     ln_report l \<in> snd ` set (st_reports oms) \<and> ers_order (er_spec (ln_report l)) = ord_id (ln_order l) \<and>
     er_id (ln_report l) = fs_report (fl_spec (ln_fill l)) \<and>
     (\<exists>oid. OMS_Order (False, False) oid oms = Inr (ln_order l)) \<and>
     OMS_Plan (False, False) (os_plan (ord_spec (ln_order l))) oms = Inr (ln_plan l) \<and>
     OMS_Intent (False, False) (ei_id (ops_intent (op_spec (ln_plan l)))) oms = Inr (ln_intent l)"

text \<open>
  What the coordinator relies on of its lineage reader: what it resolves is held by the source, and is the
  lineage of the fill that was asked for.
\<close>

locale lineage_source =
  fixes resolve :: "fill \<Rightarrow> lineage result"
    and held :: "lineage \<Rightarrow> bool"
  assumes found: "resolve f = Inr l \<Longrightarrow> held l \<and> fl_id (ln_fill l) = fl_id f"
begin

lemma normalized_lineage:
  assumes "normalize sha sources b request = Inr (f, m)" "is_lineage sources = resolve"
  shows "\<exists>l. held l \<and> same_lineage l request \<and> fl_id (ln_fill l) = fl_id (iq_fill request)"
proof -
  from assms obtain l where "resolve (iq_fill request) = Inr l" "same_lineage l request"
    by (auto simp: normalize_def Let_def split: if_splits sum.splits)
  with found show ?thesis by blast
qed

end

lemma find_Some_mem: "find P xs = Some x \<Longrightarrow> x \<in> set xs \<and> P x"
  by (auto simp: find_Some_iff)

lemma live_query:
  "OMS_Order ctx oid oms = Inr x \<Longrightarrow> OMS_Order (False, False) oid oms = Inr x"
  "OMS_Plan ctx pid oms = Inr y \<Longrightarrow> OMS_Plan (False, False) pid oms = Inr y"
  "OMS_Intent ctx iid oms = Inr z \<Longrightarrow> OMS_Intent (False, False) iid oms = Inr z"
  by (auto simp: OMS_Order_def OMS_Plan_def OMS_Intent_def CurrentOrderCheckpoint_def Let_def
      split: if_splits option.splits)

interpretation repository_lineage: lineage_source "RepositoryLineage oms ctx_at" "lineage_held oms" for oms ctx_at
proof
  fix f l assume res: "RepositoryLineage oms ctx_at f = Inr l"
  then obtain fills reports where
    o: "OMS_Order (ctx_at 0) (fs_order (fl_spec f)) oms = Inr (ln_order l)"
    and fs: "Fills (ctx_at 1) (ord_id (ln_order l)) oms = Inr fills"
    and fi: "find (\<lambda>value. fl_id value = fl_id f) fills = Some (ln_fill l)"
    and rs: "Reports (ctx_at 2) (ord_id (ln_order l)) oms = Inr reports"
    and re: "find (\<lambda>value. er_id value = fs_report (fl_spec (ln_fill l))) reports = Some (ln_report l)"
    and pl: "OMS_Plan (ctx_at 3) (os_plan (ord_spec (ln_order l))) oms = Inr (ln_plan l)"
    and it: "OMS_Intent (ctx_at 4) (ei_id (ops_intent (op_spec (ln_plan l)))) oms = Inr (ln_intent l)"
    by (auto simp: RepositoryLineage_def split: if_splits option.splits)
  have "set fills = {x \<in> snd ` set (st_fills oms). fs_order (fl_spec x) = ord_id (ln_order l)}"
    "set reports = {x \<in> snd ` set (st_reports oms). ers_order (er_spec x) = ord_id (ln_order l)}"
    using fs rs by (auto simp: Fills_def Reports_def split: if_splits) force+
  with find_Some_mem [OF fi] find_Some_mem [OF re] live_query(1) [OF o] live_query(2) [OF pl] live_query(3) [OF it]
  show "lineage_held oms l \<and> fl_id (ln_fill l) = fl_id f" by (auto simp: lineage_held_def)
qed

interpretation static_lineage: lineage_source "StaticLineage values b" "\<lambda>l. l \<in> set values" for "values" b
proof
  fix f l assume "StaticLineage values b f = Inr l"
  then show "l \<in> set values \<and> fl_id (ln_fill l) = fl_id f"
    by (auto simp: StaticLineage_def split: if_splits option.splits dest: find_Some_mem)
qed

lemma normalize_Inr:
  assumes "normalize sha sources b request = Inr (f, m)"
  shows "lineage_consistent request" "amounts_consistent request" "fl_id (iq_fill request) \<noteq> 0"
    "NewAccountingFill sha \<lparr>afs_schema = ''accounting-fill/v1'', afs_fill = iq_fill request,
       afs_portfolio = request_portfolio request, afs_instrument = ol_instrument (os_leg (ord_spec (iq_order request))),
       afs_side = ol_side (os_leg (ord_spec (iq_order request))), afs_received = iq_received request\<rparr> = Inr f"
    "NewIngestionMetadata sha (iq_fill request) (iq_sequence request) (iq_checkpoint request)
       (iq_checksum request) (iq_binding request) = Inr m"
    "ab_portfolio (iq_binding request) = request_portfolio request"
    "is_known sources (ol_instrument (os_leg (ord_spec (iq_order request)))) = Inr True"
  using assms by (auto simp: normalize_def Let_def split: if_splits sum.splits)

lemma NewAccountingFill_spec:
  "NewAccountingFill sha spec = Inr f \<Longrightarrow> af_spec f = spec\<lparr>afs_schema := trim_space (afs_schema spec)\<rparr>"
  by (auto simp: NewAccountingFill_def Let_def split: if_splits)

lemma NewIngestionMetadata_Inr:
  "NewIngestionMetadata sha f n cp d b = Inr m \<Longrightarrow> im_binding m = b \<and> im_source_checksum m = d"
  by (auto simp: NewIngestionMetadata_def Let_def split: if_splits)

text \<open>A normalized request names the portfolio, instrument and side of its own order.\<close>

lemma normalized_fill:
  assumes "normalize sha sources b request = Inr (f, m)"
  shows "af_fill f = iq_fill request" "afs_portfolio (af_spec f) = request_portfolio request"
    "afs_instrument (af_spec f) = ol_instrument (os_leg (ord_spec (iq_order request)))"
    "afs_side (af_spec f) = ol_side (os_leg (ord_spec (iq_order request)))"
    "ab_portfolio (im_binding m) = afs_portfolio (af_spec f)"
  using NewAccountingFill_spec [OF normalize_Inr(4) [OF assms]] NewIngestionMetadata_Inr [OF normalize_Inr(5) [OF assms]]
    normalize_Inr(6) [OF assms] by auto

section \<open>What the handler does\<close>

lemma release_reserved_ing:
  assumes "reserve_ing i x g = (g1, Inr u)"
  shows "release_ing i g1 = g" "release_ing i (quarantine ev g1) = quarantine ev g"
proof -
  have none: "map_of (ig_running g) i = None"
    and g1: "g1 = g\<lparr>ig_running := put i x (ig_running g), ig_waiting := ig_waiting g + 1\<rparr>"
    using assms by (auto simp: reserve_ing_def split: if_splits option.splits)
  then have "AList.delete i (put i x (ig_running g)) = ig_running g"
    by (intro delete_put_fresh) (simp add: has_def)
  then show "release_ing i g1 = g" "release_ing i (quarantine ev g1) = quarantine ev g"
    by (simp_all add: release_ing_def g1 quarantine_def Let_def)
qed

lemma Ingest_cases:
  assumes "Ingest sha sources env request (acct, g) = ((acct', g'), res, err)"
  obtains (refused) "acct' = acct" "g' = g" "err \<noteq> None" "ir_receipt res = None" "ir_rebuild res = None"
  | (applied) f m x where "normalize sha sources (ie_entry env) request = Inr (f, m)" "ir_ingestion res = im_id m"
      "ApplyIngestedFill sha (ie_apply env) f m acct = (acct', x)" "g' = g" "ir_rebuild res = None"
      "x \<noteq> Inl (Accounting ErrOutOfOrderFill)"
      "case x of Inl e \<Rightarrow> ir_receipt res = None \<and> err = Some (if e = Panic then Ingestion ErrInternal_ing else e)
         | Inr r \<Rightarrow> ir_receipt res = Some r \<and> err = None"
  | (late) f m ev where "normalize sha sources (ie_entry env) request = Inr (f, m)"
      "ApplyIngestedFill sha (ie_apply env) f m acct = (acct', Inl (Accounting ErrOutOfOrderFill))"
      "ev = \<lparr>re_ingestion = im_id m, re_position = af_position f, re_fill = fl_id (af_fill f), re_key = af_ordering f,
         re_reason = ''CANONICAL_PREDECESSOR''\<rparr>"
      "g' = quarantine ev g" "ir_receipt res = None" "ir_rebuild res = Some ev" "err = Some (Ingestion ErrRebuildRequired)"
proof (cases "normalize sha sources (ie_entry env) request")
  case (Inl e)
  with assms show thesis by (intro refused) (auto simp: Ingest_def)
next
  case n: (Inr fm)
  obtain f m where fm: "fm = (f, m)" by (cases fm)
  obtain g1 u where r: "reserve_ing (im_id m) (im_source_checksum m) g = (g1, u)" by fastforce
  show thesis
  proof (cases u)
    case (Inl e)
    then have "g1 = g" using r by (auto simp: reserve_ing_def split: if_splits option.splits)
    with assms n fm r Inl show thesis by (intro refused) (auto simp: Ingest_def)
  next
    case (Inr w)
    note rel = release_reserved_ing [OF r [unfolded Inr]]
    obtain a1 x where a: "ApplyIngestedFill sha (ie_apply env) f m acct = (a1, x)" by fastforce
    show thesis
    proof (cases "ie_select env = Acquired")
      case False
      then show thesis
        using assms n fm r Inr rel by (intro refused; cases "ie_select env") (auto simp: Ingest_def Let_def)
    next
      case acq: True
      show thesis
      proof (cases "x = Inl (Accounting ErrOutOfOrderFill)")
        case True
        with assms n fm r Inr rel a acq show thesis by (intro late [of f m]) (auto simp: Ingest_def Let_def)
      next
        case False
        with assms n fm r Inr rel a acq show thesis
          by (intro applied [of f m x]; cases x) (auto simp: Ingest_def Let_def split: if_splits)
      qed
    qed
  qed
qed

section \<open>Quarantine\<close>

inductive ing_step :: "(string \<Rightarrow> digest) \<Rightarrow> ing_state \<Rightarrow> ing_state \<Rightarrow> bool" for sha where
  ingest: "Ingest sha sources env request s = (s', res, err) \<Longrightarrow> ing_step sha s s'"
| stop: "ing_step sha (acct, g) (acct, fst (Shutdown_ing b g))"

definition quarantine_bounded :: "ing_coord \<Rightarrow> bool" where
  "quarantine_bounded g \<longleftrightarrow> 0 < ic_maximum_quarantines (ig_config g) \<and>
     int (length (Quarantines g)) \<le> ic_maximum_quarantines (ig_config g)"

lemma quarantine_keeps_bound:
  assumes "quarantine_bounded g"
  shows "quarantine_bounded (quarantine ev g)" "last (Quarantines (quarantine ev g)) = ev"
    "Quarantines (quarantine ev g) \<noteq> []"
  using assms by (auto simp: quarantine_bounded_def quarantine_def Quarantines_def Let_def last_drop)

interpretation ing_bound: step_invariant "ing_step sha" "\<lambda>(acct, g). quarantine_bounded g" for sha
proof
  fix s t assume inv: "case s of (acct, g) \<Rightarrow> quarantine_bounded g" and step: "ing_step sha s t"
  from step inv show "case t of (acct, g) \<Rightarrow> quarantine_bounded g"
  proof cases
    case (ingest sources env request res err)
    obtain acct g acct' g' where st: "s = (acct, g)" "t = (acct', g')" by (cases s; cases t)
    with ingest have "Ingest sha sources env request (acct, g) = ((acct', g'), res, err)" by simp
    then show ?thesis
      by (rule Ingest_cases) (use inv st quarantine_keeps_bound(1) in auto)
  next
    case (stop acct g b)
    with inv show ?thesis by (simp add: Shutdown_ing_def quarantine_bounded_def Quarantines_def Let_def)
  qed
qed

lemma NewIngestion_bounded: "NewIngestion config = Inr g \<Longrightarrow> quarantine_bounded g"
  by (auto simp: NewIngestion_def quarantine_bounded_def Quarantines_def split: if_splits)

text \<open>A fill that is not later than the last fill of its position is refused by the engine.\<close>

lemma late_fill_refused:
  assumes "acct_inv sha st" "live_env env" "\<not> co_closed c" "map_of (co_running c) (af_position f) = None"
    "\<not> fill_is_zero f" "\<not> has (ac_fills st) (fl_id (af_fill f))"
    "Position (False, False) (af_position f) st = Inr (Some ps)"
    "Compare (af_ordering f) (pn_last_key (ps_spec ps)) \<le> 0"
    "im_id m \<noteq> 0" "ab_portfolio (im_binding m) = afs_portfolio (af_spec f)"
  shows "ApplyIngestedFill sha env f m (st, c) = ((st, c), Inl (Accounting ErrOutOfOrderFill))"
proof -
  from assms(7) obtain n cp where n: "map_of (ac_current st) (af_position f) = Some n"
    "acct_checkpoint st (af_position f) n = Some cp" "pc_snapshot cp = ps"
    by (auto simp: Position_def CurrentPositionCheckpoint_def split: option.splits dest!: sym [of "Some _"])
  have "pn_position (ps_spec ps) = af_position f"
    using acct_invD(2) [OF assms(1) n(1)] n(2,3) by (auto simp: position_head_ok_def)
  with assms(5,8) have "Apply sha (Some ps) f = Inl (Accounting ErrOutOfOrderFill)"
    by (simp add: Apply_def check_current_def fill_is_zero_def)
  then have "prepare_publication sha False f (Some m) st = Inl (Accounting ErrOutOfOrderFill)"
    using n by (simp add: prepare_publication_def CurrentPositionCheckpoint_def prepare_from_def Let_def)
  with assms release_reserved [OF assms(4)] show ?thesis
    by (simp add: ApplyIngestedFill_def applyFill_def replayed_fill_def ApplicationByFill_def reserve_def live_env_def
        has_def Let_def)
qed

end
