(* ===== verification/Acct_Reconciliation.thy ===== *)
theory Acct_Reconciliation
  imports Acct_Ingestion
begin

text \<open>
  \<open>internal/accounting/reconciliation/reconciliation.go\<close>, the comparison of a broker's view of a position
  with the accounted one, and \<open>internal/adapters/accounting/memory/reconciliation.go\<close>, the store of its
  evidence.
\<close>

section \<open>Observations and evidence\<close>

datatype classification =
    Match | QuantityMismatch | DirectionMismatch | LocalOnly | BrokerOnly | StaleBrokerObservation | UnknownClass

datatype severity = SeverityHealthy | SeverityHigh | SeverityCritical

datatype direction = DirectionEqual | DirectionSame | DirectionOpposite | DirectionUnknown

datatype observation_scope = ScopePaper | ScopeReal | OtherScope string

datatype runtime_mode = ModeOffline | ModePaper | ModeShadow | ModeLiveDisabled | OtherMode string

definition classification_string :: "classification \<Rightarrow> string" where
  "classification_string c = (case c of Match \<Rightarrow> ''MATCH'' | QuantityMismatch \<Rightarrow> ''QUANTITY_MISMATCH''
     | DirectionMismatch \<Rightarrow> ''DIRECTION_MISMATCH'' | LocalOnly \<Rightarrow> ''LOCAL_ONLY'' | BrokerOnly \<Rightarrow> ''BROKER_ONLY''
     | StaleBrokerObservation \<Rightarrow> ''STALE_BROKER_OBSERVATION'' | UnknownClass \<Rightarrow> ''UNKNOWN'')"

definition severity_string :: "severity \<Rightarrow> string" where
  "severity_string s = (case s of SeverityHealthy \<Rightarrow> ''HEALTHY'' | SeverityHigh \<Rightarrow> ''HIGH''
     | SeverityCritical \<Rightarrow> ''CRITICAL'')"

definition direction_string :: "direction \<Rightarrow> string" where
  "direction_string d = (case d of DirectionEqual \<Rightarrow> ''EQUAL'' | DirectionSame \<Rightarrow> ''SAME''
     | DirectionOpposite \<Rightarrow> ''OPPOSITE'' | DirectionUnknown \<Rightarrow> ''UNKNOWN'')"

definition scope_string :: "observation_scope \<Rightarrow> string" where
  "scope_string s = (case s of ScopePaper \<Rightarrow> ''PAPER'' | ScopeReal \<Rightarrow> ''REAL'' | OtherScope x \<Rightarrow> x)"

record observation_spec =
  bs_provider :: string
  bs_binding :: account_binding
  bs_instrument :: digest
  bs_net :: int
  bs_price :: "price option"
  bs_price_reliable :: bool
  bs_observed_at :: instant
  bs_ingested_at :: instant
  bs_snapshot :: string
  bs_snapshot_version :: string
  bs_complete :: bool
  bs_available :: bool
  bs_scope :: observation_scope
  bs_checksum :: digest

record observation =
  bo_id :: digest
  bo_spec :: observation_spec
  bo_raw :: string

definition canonicalObservation :: "observation_spec \<Rightarrow> string" where
  "canonicalObservation spec = marshal (JObj
     [(''Provider'', JStr (bs_provider spec)),
      (''PortfolioID'', JStr (digest_string (ab_portfolio (bs_binding spec)))),
      (''AccountID'', JStr (ab_account (bs_binding spec))),
      (''BindingVersion'', JStr (ab_version (bs_binding spec))),
      (''BindingChecksum'', JStr (digest_string (ab_checksum (bs_binding spec)))),
      (''InstrumentID'', JStr (digest_string (bs_instrument spec))),
      (''SnapshotID'', JStr (bs_snapshot spec)),
      (''SnapshotVersion'', JStr (bs_snapshot_version spec)),
      (''Scope'', JStr (scope_string (bs_scope spec))),
      (''SourceChecksum'', JStr (digest_string (bs_checksum spec))),
      (''BrokerObservedAt'', JStr (rfc3339_nano (bs_observed_at spec))),
      (''IngestedAt'', JStr (rfc3339_nano (bs_ingested_at spec))),
      (''Currency'', JStr (case bs_price spec of None \<Rightarrow> [] | Some p \<Rightarrow> price_currency p)),
      (''NetQuantity'', JInt (bs_net spec)),
      (''AveragePriceMinor'', JInt (case bs_price spec of None \<Rightarrow> 0 | Some p \<Rightarrow> price_minor p)),
      (''HasAveragePrice'', JBool (bs_price spec \<noteq> None)),
      (''AveragePriceReliable'', JBool (bs_price_reliable spec)),
      (''Complete'', JBool (bs_complete spec)),
      (''Available'', JBool (bs_available spec))])"

definition NewBrokerPositionObservation :: "(string \<Rightarrow> digest) \<Rightarrow> observation_spec \<Rightarrow> observation result" where
  "NewBrokerPositionObservation sha spec0 =
     (let spec = spec0\<lparr>bs_provider := trim_space (bs_provider spec0), bs_snapshot := trim_space (bs_snapshot spec0),
            bs_snapshot_version := trim_space (bs_snapshot_version spec0)\<rparr>;
          invalid = Inl (Reconciliation ErrInvalidObservation) in
      if bs_provider spec = [] \<or> AccountBinding_Validate sha (bs_binding spec) \<noteq> Inr () \<or> bs_instrument spec = 0 \<or>
         bs_net spec = min_i64 \<or> bs_observed_at spec = 0 \<or> bs_ingested_at spec = 0 \<or> bs_snapshot spec = [] \<or>
         bs_snapshot_version spec = [] \<or> bs_checksum spec = 0 \<or>
         (bs_scope spec \<noteq> ScopePaper \<and> bs_scope spec \<noteq> ScopeReal) \<or> bs_ingested_at spec < bs_observed_at spec
      then invalid
      else if \<not> bs_available spec \<and> (bs_net spec \<noteq> 0 \<or> bs_price spec \<noteq> None \<or> bs_price_reliable spec) then invalid
      else if (case bs_price spec of None \<Rightarrow> False | Some p \<Rightarrow> price_is_zero_value p \<or> price_minor p < 0) then invalid
      else if bs_price_reliable spec \<and> bs_price spec = None then invalid
      else let raw = canonicalObservation spec in
        Inr \<lparr>bo_id = state_checksum_acct sha ''broker-position-observation/v1'' raw, bo_spec = spec, bo_raw = raw\<rparr>)"

record evidence =
  ev_id :: digest
  ev_observation :: digest
  ev_position :: digest
  ev_revision :: nat
  ev_checksum :: digest
  ev_classification :: classification
  ev_severity :: severity
  ev_local :: int
  ev_broker :: int
  ev_broker_known :: bool
  ev_direction :: direction
  ev_fresh :: bool
  ev_blocked :: bool
  ev_reason :: string
  ev_evaluated_at :: instant
  ev_policy :: string
  ev_raw :: string

record rec_checkpoint =
  rk_observation :: digest
  rk_evidence :: digest
  rk_checksum :: digest
  rk_raw :: string

definition NewCheckpoint_rec :: "(string \<Rightarrow> digest) \<Rightarrow> digest \<Rightarrow> digest \<Rightarrow> rec_checkpoint result" where
  "NewCheckpoint_rec sha observation evidence =
     (if observation = 0 \<or> evidence = 0 then Inl (Reconciliation ErrInvalidRequest_rec)
      else let raw = marshal (JObj [(''ObservationID'', JStr (digest_string observation)),
                 (''EvidenceID'', JStr (digest_string evidence))]) in
        Inr \<lparr>rk_observation = observation, rk_evidence = evidence,
             rk_checksum = state_checksum_acct sha ''position-reconciliation-checkpoint/v1'' raw, rk_raw = raw\<rparr>)"

text \<open>The checkpoint with its error discarded, as both callers do.\<close>

definition checkpoint_or_zero :: "(string \<Rightarrow> digest) \<Rightarrow> digest \<Rightarrow> digest \<Rightarrow> rec_checkpoint" where
  "checkpoint_or_zero sha observation evidence =
     (case NewCheckpoint_rec sha observation evidence of
        Inl _ \<Rightarrow> \<lparr>rk_observation = 0, rk_evidence = 0, rk_checksum = 0, rk_raw = []\<rparr> | Inr c \<Rightarrow> c)"

record rec_config =
  rg_max_concurrency :: int
  rg_timeout :: int
  rg_maximum_age :: int
  rg_policy :: string

definition DefaultConfig_rec :: rec_config where
  "DefaultConfig_rec = \<lparr>rg_max_concurrency = 4, rg_timeout = 1000000000, rg_maximum_age = 30000000000,
     rg_policy = ''position-reconciliation/v1''\<rparr>"

record rec_request =
  rr_observation :: observation
  rr_mode :: runtime_mode
  rr_evaluated_at :: instant

section \<open>The classification\<close>

text \<open>\<open>time.Time.Sub\<close>: the difference saturates at the bounds of an int64.\<close>

definition sub_time :: "instant \<Rightarrow> instant \<Rightarrow> int" where
  "sub_time t u = max min_i64 (min max_i64 (t - u))"

definition comparable :: "runtime_mode \<Rightarrow> observation_scope \<Rightarrow> bool" where
  "comparable mode scope \<longleftrightarrow> \<not> (mode = ModeOffline \<or> mode = ModeLiveDisabled \<or>
     (mode = ModeShadow \<and> scope = ScopeReal) \<or> (mode = ModePaper \<and> scope \<noteq> ScopePaper))"

text \<open>Classification, severity, reason, and whether the broker's quantity is known and fresh.\<close>

definition classify ::
  "rec_config \<Rightarrow> rec_request \<Rightarrow> int \<Rightarrow> classification \<times> severity \<times> string \<times> bool \<times> bool" where
  "classify config request localQty =
     (let observation = bo_spec (rr_observation request); brokerQty = bs_net observation;
          known = bs_available observation \<and> bs_complete observation;
          fresh = known \<and> \<not> rr_evaluated_at request < bs_observed_at observation \<and>
            sub_time (rr_evaluated_at request) (bs_observed_at observation) \<le> rg_maximum_age config in
      if \<not> comparable (rr_mode request) (bs_scope observation)
      then (UnknownClass, SeverityCritical, ''SCOPE_NOT_COMPARABLE'', False, False)
      else if \<not> known then (UnknownClass, SeverityCritical, ''BROKER_EVIDENCE_UNAVAILABLE'', known, fresh)
      else if \<not> fresh then (StaleBrokerObservation, SeverityCritical, ''BROKER_EVIDENCE_STALE'', known, fresh)
      else if localQty \<noteq> 0 \<and> brokerQty = 0 then (LocalOnly, SeverityHigh, ''LOCAL_EXPOSURE_ONLY'', known, fresh)
      else if localQty = 0 \<and> brokerQty \<noteq> 0 then (BrokerOnly, SeverityCritical, ''UNMANAGED_BROKER_EXPOSURE'', known, fresh)
      else if signsDiffer localQty brokerQty then (DirectionMismatch, SeverityHigh, ''POSITION_DIRECTION_DIFFERS'', known, fresh)
      else if localQty \<noteq> brokerQty then (QuantityMismatch, SeverityHigh, ''POSITION_QUANTITY_DIFFERS'', known, fresh)
      else (Match, SeverityHealthy, ''QUANTITIES_MATCH'', known, fresh))"

definition direction_of :: "bool \<Rightarrow> int \<Rightarrow> int \<Rightarrow> direction" where
  "direction_of known localQty brokerQty =
     (if \<not> known then DirectionUnknown
      else if signsDiffer localQty brokerQty then DirectionOpposite
      else if localQty \<noteq> brokerQty then DirectionSame
      else DirectionEqual)"

text \<open>
  \<open>buildEvidence\<close>; the position is None where the store has none.
\<close>

definition buildEvidence ::
  "(string \<Rightarrow> digest) \<Rightarrow> digest \<Rightarrow> position_snapshot option \<Rightarrow> rec_request \<Rightarrow> rec_config \<Rightarrow> evidence" where
  "buildEvidence sha positionID position request config =
     (let observation = rr_observation request;
          localQty = (case position of None \<Rightarrow> 0 | Some p \<Rightarrow> pn_net (ps_spec p));
          revision = (case position of None \<Rightarrow> 0 | Some p \<Rightarrow> pn_revision (ps_spec p));
          checksum = (case position of None \<Rightarrow> 0 | Some p \<Rightarrow> ps_checksum p);
          brokerQty = bs_net (bo_spec observation);
          (class, severity, reason, known, fresh) = classify config request localQty;
          direction = direction_of known localQty brokerQty;
          raw = marshal (JObj
            [(''ObservationID'', JStr (digest_string (bo_id observation))),
             (''PositionID'', JStr (digest_string positionID)),
             (''PositionChecksum'', JStr (digest_string checksum)),
             (''Classification'', JStr (classification_string class)),
             (''Severity'', JStr (severity_string severity)),
             (''Direction'', JStr (direction_string direction)),
             (''Reason'', JStr reason),
             (''EvaluatedAt'', JStr (rfc3339_nano (rr_evaluated_at request))),
             (''PolicyVersion'', JStr (rg_policy config)),
             (''PositionRevision'', JInt (int revision)),
             (''LocalQuantity'', JInt localQty),
             (''BrokerQuantity'', JInt brokerQty),
             (''BrokerQuantityKnown'', JBool known),
             (''Fresh'', JBool fresh),
             (''Blocked'', JBool (class \<noteq> Match))]) in
      \<lparr>ev_id = state_checksum_acct sha ''position-reconciliation-evidence/v1'' raw, ev_observation = bo_id observation,
       ev_position = positionID, ev_revision = revision, ev_checksum = checksum, ev_classification = class,
       ev_severity = severity, ev_local = localQty, ev_broker = brokerQty, ev_broker_known = known,
       ev_direction = direction, ev_fresh = fresh, ev_blocked = (class \<noteq> Match), ev_reason = reason,
       ev_evaluated_at = rr_evaluated_at request, ev_policy = rg_policy config, ev_raw = raw\<rparr>)"

section \<open>The evidence store\<close>

record rec_store =
  rs_limit :: int
  rs_by_observation :: "(digest, evidence) gomap"
  rs_checkpoints :: "(digest, rec_checkpoint) gomap"

definition NewReconciliationStore :: "int \<Rightarrow> rec_store result" where
  "NewReconciliationStore limit =
     (if limit \<le> 0 \<or> limit > 100000 then Inl (Reconciliation ErrInvalidRequest_rec)
      else Inr \<lparr>rs_limit = limit, rs_by_observation = [], rs_checkpoints = []\<rparr>)"

definition Evidence :: "bool \<Rightarrow> digest \<Rightarrow> rec_store \<Rightarrow> evidence result" where
  "Evidence ctx_done i store =
     (if ctx_done then Inl ContextDone
      else case map_of (rs_by_observation store) i of
        None \<Rightarrow> Inl (AccountingStorage ErrNotFound_acct) | Some value \<Rightarrow> Inr value)"

definition Checkpoint_rec :: "bool \<Rightarrow> digest \<Rightarrow> rec_store \<Rightarrow> rec_checkpoint result" where
  "Checkpoint_rec ctx_done i store =
     (if ctx_done then Inl ContextDone
      else case map_of (rs_checkpoints store) i of
        None \<Rightarrow> Inl (AccountingStorage ErrNotFound_acct) | Some value \<Rightarrow> Inr value)"

definition Publish_rec ::
  "(string \<Rightarrow> digest) \<Rightarrow> bool \<Rightarrow> evidence \<Rightarrow> rec_checkpoint \<Rightarrow> rec_store \<Rightarrow> rec_store \<times> evidence result" where
  "Publish_rec sha ctx_done evidence checkpoint store =
     (if ctx_done then (store, Inl ContextDone)
      else case map_of (rs_by_observation store) (ev_observation evidence) of
        Some current \<Rightarrow>
          if ev_raw current = ev_raw evidence then (store, Inr current)
          else (store, Inl (Reconciliation ErrIdentityCollision_rec))
      | None \<Rightarrow>
      if size_of (rs_by_observation store) \<ge> rs_limit store then (store, Inl (AccountingStorage ErrCapacityExhausted_acct))
      else if rk_checksum (checkpoint_or_zero sha (ev_observation evidence) (ev_id evidence)) \<noteq> rk_checksum checkpoint
      then (store, Inl (Reconciliation ErrInvalidRequest_rec))
      else (store\<lparr>rs_by_observation := put (ev_observation evidence) evidence (rs_by_observation store),
                  rs_checkpoints := put (ev_observation evidence) checkpoint (rs_checkpoints store)\<rparr>, Inr evidence))"

section \<open>The coordinator\<close>

record rec_coord =
  rc_config :: rec_config
  rc_running :: "digest list"
  rc_closed :: bool
  rc_waiting :: int

definition NewReconciliation :: "rec_config \<Rightarrow> rec_coord result" where
  "NewReconciliation config =
     (if rg_max_concurrency config \<le> 0 \<or> rg_max_concurrency config > 64 \<or> rg_timeout config \<le> 0 \<or>
         rg_timeout config > 60000000000 \<or> rg_maximum_age config \<le> 0 \<or> trim_space (rg_policy config) = []
      then Inl (Reconciliation ErrInvalidRequest_rec)
      else Inr \<lparr>rc_config = config, rc_running = [], rc_closed = False, rc_waiting = 0\<rparr>)"

definition StaticBindings_rec ::
  "(string \<Rightarrow> digest) \<Rightarrow> (digest, account_binding) gomap \<Rightarrow> bool \<Rightarrow> digest \<Rightarrow> instant \<Rightarrow> account_binding result" where
  "StaticBindings_rec sha bindings ctx_done portfolio at =
     (if ctx_done then Inl ContextDone
      else case map_of bindings portfolio of
        None \<Rightarrow> Inl (Reconciliation ErrInvalidRequest_rec)
      | Some value \<Rightarrow>
          if AccountBinding_Validate sha value \<noteq> Inr () \<or> ab_valid_from value > at
          then Inl (Reconciliation ErrInvalidRequest_rec) else Inr value)"

text \<open>
  What the handler observes: its context at the lookup, the select, the position store as the first and
  the second read find it, and the context at the publication.
\<close>

record rec_env =
  rv_lookup :: bool
  rv_select :: select_outcome
  rv_first :: "ctx \<times> acct_store"
  rv_second :: "ctx \<times> acct_store"
  rv_publish :: bool

definition valid_mode :: "runtime_mode \<Rightarrow> bool" where
  "valid_mode mode \<longleftrightarrow> mode = ModeOffline \<or> mode = ModePaper \<or> mode = ModeShadow \<or> mode = ModeLiveDisabled"

definition request_valid :: "(string \<Rightarrow> digest) \<Rightarrow> rec_request \<Rightarrow> bool" where
  "request_valid sha request \<longleftrightarrow>
     (case NewBrokerPositionObservation sha (bo_spec (rr_observation request)) of Inl _ \<Rightarrow> False
      | Inr validated \<Rightarrow> bo_id (rr_observation request) \<noteq> 0 \<and> bo_id validated = bo_id (rr_observation request) \<and>
          bo_raw validated = bo_raw (rr_observation request) \<and> rr_evaluated_at request \<noteq> 0 \<and> valid_mode (rr_mode request))"

text \<open>\<open>Revision\<close> and \<open>Checksum\<close> of a position as it was read.\<close>

definition read_head :: "position_snapshot option \<Rightarrow> nat \<times> digest" where
  "read_head p = (case p of None \<Rightarrow> (0, 0) | Some s \<Rightarrow> (pn_revision (ps_spec s), ps_checksum s))"

definition observed_position :: "(string \<Rightarrow> digest) \<Rightarrow> rec_request \<Rightarrow> digest" where
  "observed_position sha request =
     (case NewPositionID sha (digest_string (ab_portfolio (bs_binding (bo_spec (rr_observation request)))))
        (digest_string (bs_instrument (bo_spec (rr_observation request)))) of Inl _ \<Rightarrow> 0 | Inr i \<Rightarrow> i)"

text \<open>From the first read of the position to the evidence that is published.\<close>

definition evaluate :: "(string \<Rightarrow> digest) \<Rightarrow> rec_env \<Rightarrow> rec_config \<Rightarrow> rec_request \<Rightarrow> evidence result" where
  "evaluate sha env config request =
     (let pid = observed_position sha request in
      case Position (fst (rv_first env)) pid (snd (rv_first env)) of
        Inl e \<Rightarrow> if e = AccountingStorage ErrNotFound_acct then Inr (buildEvidence sha pid None request config) else Inl e
      | Inr position \<Rightarrow>
          (case Position (fst (rv_second env)) pid (snd (rv_second env)) of
             Inl _ \<Rightarrow> Inl (Reconciliation ErrPositionChanged)
           | Inr current \<Rightarrow>
               if read_head current \<noteq> read_head position then Inl (Reconciliation ErrPositionChanged)
               else Inr (buildEvidence sha pid position request config)))"

definition Reconcile ::
  "(string \<Rightarrow> digest) \<Rightarrow> (digest \<Rightarrow> instant \<Rightarrow> account_binding result) \<Rightarrow> rec_env \<Rightarrow> rec_request \<Rightarrow> rec_store \<times> rec_coord \<Rightarrow>
   (rec_store \<times> rec_coord) \<times> evidence result" where
  "Reconcile sha resolve env request state =
     (let (store, c) = state; observation = rr_observation request; oid = bo_id observation in
      if \<not> request_valid sha request then (state, Inl (Reconciliation ErrInvalidRequest_rec))
      else case resolve (ab_portfolio (bs_binding (bo_spec observation))) (bs_observed_at (bo_spec observation)) of
        Inl e \<Rightarrow> (state, Inl e)
      | Inr resolved \<Rightarrow>
      if ab_checksum resolved \<noteq> ab_checksum (bs_binding (bo_spec observation))
      then (state, Inl (Reconciliation ErrInvalidRequest_rec))
      else case Evidence (rv_lookup env) oid store of
        Inr existing \<Rightarrow> (state, Inr existing)
      | Inl e \<Rightarrow>
      if e \<noteq> AccountingStorage ErrNotFound_acct then (state, Inl e)
      else if rc_closed c then (state, Inl (Reconciliation ErrShutdown_rec))
      else if oid \<in> set (rc_running c) then (state, Inl (Reconciliation ErrDuplicateInProgress_rec))
      else case rv_select env of
        CallerDone \<Rightarrow> (state, Inl ContextDone)
      | RunnerDone \<Rightarrow> (state, Inl (Reconciliation ErrShutdown_rec))
      | Acquired \<Rightarrow>
      (case evaluate sha env (rc_config c) request of
         Inl e \<Rightarrow> (state, Inl e)
       | Inr evidence \<Rightarrow>
           let (store', answer) = Publish_rec sha (rv_publish env) evidence
                 (checkpoint_or_zero sha oid (ev_id evidence)) store in
           ((store', c), answer)))"

definition Shutdown_rec :: "bool \<Rightarrow> rec_coord \<Rightarrow> rec_coord \<times> unit result option" where
  "Shutdown_rec ctx_done c =
     (let c' = c\<lparr>rc_closed := True\<rparr> in
      (c', if rc_waiting c' = 0 then Some (Inr ()) else if ctx_done then Some (Inl ContextDone) else None))"

section \<open>What the evidence says\<close>

definition broker_fresh :: "rec_config \<Rightarrow> rec_request \<Rightarrow> bool" where
  "broker_fresh config request \<longleftrightarrow>
     bs_observed_at (bo_spec (rr_observation request)) \<le> rr_evaluated_at request \<and>
     rr_evaluated_at request - bs_observed_at (bo_spec (rr_observation request)) \<le> rg_maximum_age config"

definition broker_known :: "rec_request \<Rightarrow> bool" where
  "broker_known request \<longleftrightarrow> comparable (rr_mode request) (bs_scope (bo_spec (rr_observation request))) \<and>
     bs_available (bo_spec (rr_observation request)) \<and> bs_complete (bo_spec (rr_observation request))"

definition local_quantity :: "position_snapshot option \<Rightarrow> int" where
  "local_quantity position = (case position of None \<Rightarrow> 0 | Some p \<Rightarrow> pn_net (ps_spec p))"

lemma sub_time_le: "0 < age \<Longrightarrow> age < max_i64 \<Longrightarrow> u \<le> t \<Longrightarrow> sub_time t u \<le> age \<longleftrightarrow> t - u \<le> age"
  by (auto simp: sub_time_def min_def max_def i64_defs)

lemma buildEvidence_fields:
  fixes sha pid
  assumes "classify config request (local_quantity position) = (class, severity, reason, known, fresh)"
  defines "e \<equiv> buildEvidence sha pid position request config"
  shows "ev_classification e = class" "ev_severity e = severity" "ev_broker_known e = known" "ev_fresh e = fresh"
    "ev_blocked e \<longleftrightarrow> class \<noteq> Match" "ev_observation e = bo_id (rr_observation request)"
    "ev_local e = local_quantity position" "(ev_revision e, ev_checksum e) = read_head position"
  using assms(1) unfolding e_def
  by (simp_all add: buildEvidence_def local_quantity_def Let_def read_head_def split: option.splits)

lemma classify_cases:
  assumes "0 < rg_maximum_age config" "rg_maximum_age config < max_i64"
  shows "fst (classify config request q) =
    (let broker = bs_net (bo_spec (rr_observation request)) in
     if \<not> broker_known request then UnknownClass
     else if \<not> broker_fresh config request then StaleBrokerObservation
     else if q = broker then Match
     else if broker = 0 then LocalOnly
     else if q = 0 then BrokerOnly
     else if (q < 0) \<noteq> (broker < 0) then DirectionMismatch
     else QuantityMismatch)"
    "fst (snd (classify config request q)) =
      (case fst (classify config request q) of Match \<Rightarrow> SeverityHealthy
       | LocalOnly \<Rightarrow> SeverityHigh | DirectionMismatch \<Rightarrow> SeverityHigh | QuantityMismatch \<Rightarrow> SeverityHigh
       | _ \<Rightarrow> SeverityCritical)"
proof -
  let ?o = "bo_spec (rr_observation request)"
  have fresh: "\<not> rr_evaluated_at request < bs_observed_at ?o \<and>
      sub_time (rr_evaluated_at request) (bs_observed_at ?o) \<le> rg_maximum_age config \<longleftrightarrow> broker_fresh config request"
    using sub_time_le [OF assms] by (auto simp: broker_fresh_def not_less)
  show "fst (classify config request q) =
    (let broker = bs_net ?o in
     if \<not> broker_known request then UnknownClass
     else if \<not> broker_fresh config request then StaleBrokerObservation
     else if q = broker then Match
     else if broker = 0 then LocalOnly
     else if q = 0 then BrokerOnly
     else if (q < 0) \<noteq> (broker < 0) then DirectionMismatch
     else QuantityMismatch)"
    using fresh by (auto simp: classify_def Let_def broker_known_def signsDiffer_def)
  show "fst (snd (classify config request q)) =
      (case fst (classify config request q) of Match \<Rightarrow> SeverityHealthy
       | LocalOnly \<Rightarrow> SeverityHigh | DirectionMismatch \<Rightarrow> SeverityHigh | QuantityMismatch \<Rightarrow> SeverityHigh
       | _ \<Rightarrow> SeverityCritical)"
    by (simp add: classify_def Let_def)
qed

section \<open>The evidence store\<close>

definition rec_grows :: "rec_store \<Rightarrow> rec_store \<Rightarrow> bool" where
  "rec_grows s t \<longleftrightarrow> rs_limit s = rs_limit t \<and> map_of (rs_by_observation s) \<subseteq>\<^sub>m map_of (rs_by_observation t)"

definition rec_inv :: "(string \<Rightarrow> digest) \<Rightarrow> rec_store \<Rightarrow> bool" where
  "rec_inv sha s \<longleftrightarrow> size_of (rs_by_observation s) \<le> rs_limit s \<and>
     (\<forall>i e. map_of (rs_by_observation s) i = Some e \<longrightarrow> ev_observation e = i \<and>
        (\<exists>k. map_of (rs_checkpoints s) i = Some k \<and> rk_checksum k = rk_checksum (checkpoint_or_zero sha i (ev_id e))))"

lemma Publish_rec_cases:
  assumes "Publish_rec sha b e k s = (s', x)"
  obtains (unchanged) "s' = s" "\<And>d. x = Inr d \<Longrightarrow> map_of (rs_by_observation s) (ev_observation e) = Some d"
  | (stored) "x = Inr e" "map_of (rs_by_observation s) (ev_observation e) = None"
      "size_of (rs_by_observation s) < rs_limit s"
      "rk_checksum k = rk_checksum (checkpoint_or_zero sha (ev_observation e) (ev_id e))"
      "s' = s\<lparr>rs_by_observation := put (ev_observation e) e (rs_by_observation s),
              rs_checkpoints := put (ev_observation e) k (rs_checkpoints s)\<rparr>"
proof (cases "map_of (rs_by_observation s) (ev_observation e)")
  case None
  show thesis
  proof (cases "b \<or> size_of (rs_by_observation s) \<ge> rs_limit s \<or>
      rk_checksum (checkpoint_or_zero sha (ev_observation e) (ev_id e)) \<noteq> rk_checksum k")
    case True
    with assms None show thesis by (intro unchanged) (auto simp: Publish_rec_def split: if_splits)
  next
    case False
    with assms None show thesis by (intro stored) (auto simp: Publish_rec_def)
  qed
next
  case (Some d)
  with assms show thesis by (intro unchanged) (auto simp: Publish_rec_def split: if_splits)
qed

lemma Publish_rec_keeps:
  assumes "Publish_rec sha b e k s = (s', x)"
  shows "rec_grows s s'" "rec_inv sha s \<Longrightarrow> rec_inv sha s'"
    "x = Inr d \<Longrightarrow> map_of (rs_by_observation s') (ev_observation e) = Some d"
proof -
  show "rec_grows s s'"
    using assms by (rule Publish_rec_cases) (auto simp: rec_grows_def map_le_def)
  show "rec_inv sha s \<Longrightarrow> rec_inv sha s'"
    using assms by (rule Publish_rec_cases) (auto simp: rec_inv_def size_put_le)
  show "x = Inr d \<Longrightarrow> map_of (rs_by_observation s') (ev_observation e) = Some d"
    using assms by (rule Publish_rec_cases) auto
qed

lemma Reconcile_cases:
  assumes "Reconcile sha resolve env request (s, c) = ((s', c'), x)"
  obtains (refused) e where "s' = s" "c' = c" "x = Inl e"
  | (known) d where "s' = s" "c' = c" "x = Inr d" "map_of (rs_by_observation s) (bo_id (rr_observation request)) = Some d"
  | (evaluated) e where "request_valid sha request" "evaluate sha env (rc_config c) request = Inr e" "c' = c"
      "Publish_rec sha (rv_publish env) e (checkpoint_or_zero sha (bo_id (rr_observation request)) (ev_id e)) s = (s', x)"
proof (cases "\<exists>e. s' = s \<and> c' = c \<and> x = Inl e")
  case True
  then show thesis using refused by blast
next
  case ok: False
  show thesis
  proof (cases "map_of (rs_by_observation s) (bo_id (rr_observation request))")
    case (Some d)
    with assms ok show thesis
      by (intro known [of d]) (auto simp: Reconcile_def Let_def Evidence_def split: if_splits sum.splits)
  next
    case None
    have "rv_select env = Acquired"
      using assms ok None
      by (cases "rv_select env") (auto simp: Reconcile_def Let_def Evidence_def split: if_splits sum.splits)
    have "\<exists>e. evaluate sha env (rc_config c) request = Inr e"
    proof (cases "evaluate sha env (rc_config c) request")
      case (Inl a)
      with assms None \<open>rv_select env = Acquired\<close> have "s' = s \<and> c' = c \<and> isl x"
        by (auto simp: Reconcile_def Let_def Evidence_def split: if_splits sum.splits dest: sym [of "Inl a"])
      with ok show ?thesis by (auto simp: isl_def)
    qed simp
    then obtain e where e: "evaluate sha env (rc_config c) request = Inr e" ..
    with \<open>rv_select env = Acquired\<close> show thesis
      using assms ok None
      by (intro evaluated [of e]) (auto simp: Reconcile_def Let_def Evidence_def split: if_splits sum.splits prod.splits)
  qed
qed

text \<open>The observation a piece of evidence is about.\<close>

lemma evaluate_observation:
  assumes "evaluate sha env config request = Inr e"
  shows "ev_observation e = bo_id (rr_observation request)"
  using assms by (auto simp: evaluate_def Let_def buildEvidence_def split: sum.splits if_splits prod.splits)

inductive rec_step :: "(string \<Rightarrow> digest) \<Rightarrow> rec_store \<times> rec_coord \<Rightarrow> rec_store \<times> rec_coord \<Rightarrow> bool" for sha where
  reconcile: "Reconcile sha resolve env request s = (s', x) \<Longrightarrow> rec_step sha s s'"
| stop: "rec_step sha (s, c) (s, fst (Shutdown_rec b c))"

lemma rec_step_keeps:
  assumes "rec_step sha s t"
  shows "rec_grows (fst s) (fst t)" "rec_inv sha (fst s) \<Longrightarrow> rec_inv sha (fst t)"
proof -
  have "rec_grows (fst s) (fst t) \<and> (rec_inv sha (fst s) \<longrightarrow> rec_inv sha (fst t))"
    using assms
  proof cases
    case (reconcile resolve env request x)
    then have "Reconcile sha resolve env request (fst s, snd s) = ((fst t, snd t), x)" by simp
    then show ?thesis
      by (rule Reconcile_cases) (auto simp: rec_grows_def dest: Publish_rec_keeps(1,2))
  next
    case (stop a c b)
    then show ?thesis by (simp add: rec_grows_def)
  qed
  then show "rec_grows (fst s) (fst t)" "rec_inv sha (fst s) \<Longrightarrow> rec_inv sha (fst t)" by auto
qed

interpretation rec_run: step_monotone "rec_step sha" "\<lambda>s. rec_inv sha (fst s)" "\<lambda>s t. rec_grows (fst s) (fst t)" for sha
proof
  show "rec_inv sha (fst t)" if "rec_inv sha (fst s)" "rec_step sha s t" for s t
    using rec_step_keeps(2) [OF that(2,1)] .
  show "rec_grows (fst s) (fst s)" for s :: "rec_store \<times> rec_coord" by (simp add: rec_grows_def)
  show "rec_grows (fst s) (fst u)" if "rec_grows (fst s) (fst t)" "rec_grows (fst t) (fst u)"
    for s t u :: "rec_store \<times> rec_coord"
    using that by (auto simp: rec_grows_def intro: map_le_trans)
  show "rec_grows (fst s) (fst t)" if "rec_step sha s t" for s t
    using rec_step_keeps(1) [OF that] .
qed

lemma NewReconciliationStore_inv: "NewReconciliationStore limit = Inr s \<Longrightarrow> rec_inv sha s"
  by (auto simp: NewReconciliationStore_def rec_inv_def size_of_def split: if_splits)

text \<open>Evidence that was returned is stored, and what is stored is returned again.\<close>

lemma reconciled_stored:
  assumes "Reconcile sha resolve env request (s, c) = ((s', c'), Inr e)"
  shows "map_of (rs_by_observation s') (bo_id (rr_observation request)) = Some e"
  using assms
proof (cases rule: Reconcile_cases)
  case (evaluated d)
  with Publish_rec_keeps(3) [OF evaluated(4)] evaluate_observation [OF evaluated(2)] show ?thesis by simp
qed auto

lemma reconciled_again:
  assumes "Reconcile sha resolve env request (s, c) = ((s', c'), Inr e)" "rec_grows s' t" "\<not> rv_lookup env'"
  shows "Reconcile sha resolve env' request (t, d) = ((t, d), Inr e)"
proof -
  have "map_of (rs_by_observation t) (bo_id (rr_observation request)) = Some e"
    using reconciled_stored [OF assms(1)] assms(2) by (auto simp: rec_grows_def map_le_def dom_def)
  moreover have "request_valid sha request"
    using assms(1) by (auto simp: Reconcile_def Let_def split: if_splits)
  moreover obtain r where "resolve (ab_portfolio (bs_binding (bo_spec (rr_observation request))))
      (bs_observed_at (bo_spec (rr_observation request))) = Inr r"
    "ab_checksum r = ab_checksum (bs_binding (bo_spec (rr_observation request)))"
    using assms(1) by (auto simp: Reconcile_def Let_def split: if_splits sum.splits)
  ultimately show ?thesis using assms(3) by (simp add: Reconcile_def Evidence_def)
qed

end
