(* ===== verification/Claims_Orders.thy ===== *)
theory Claims_Orders
  imports Oms_Runs
begin

text \<open>
  The properties of orders, reports and the order state machine of \<open>internal/execution/model/order.go\<close>,
  over any number of accepted reports, with the concrete orders and reports they are exercised on.
\<close>

section \<open>Sample orders\<close>

definition sample_leg :: order_leg where
  "sample_leg = \<lparr>ol_id = 1, ol_instrument = 11, ol_side = SideBuy, ol_quantity = 10,
     ol_limit_price = \<lparr>price_minor = 100, price_currency = ''INR''\<rparr>, ol_protective = True,
     ol_depends_on = [], ol_reducing = False\<rparr>"

definition sample_spec :: "order_state \<Rightarrow> nat \<Rightarrow> int \<Rightarrow> instant \<Rightarrow> order_spec" where
  "sample_spec state revision filled updated = \<lparr>os_schema = ''order/v1'', os_plan = 1, os_leg = sample_leg,
     os_state = state, os_revision = revision, os_filled = filled, os_broker_order = [],
     os_created_at = 1, os_updated_at = updated\<rparr>"

definition sample_order :: "order_state \<Rightarrow> nat \<Rightarrow> int \<Rightarrow> instant \<Rightarrow> order" where
  "sample_order state revision filled updated = \<lparr>ord_id = 1, ord_client = 1,
     ord_spec = sample_spec state revision filled updated,
     ord_raw = canonicalOrder 1 1 (sample_spec state revision filled updated)\<rparr>"

definition sample_report :: "digest \<Rightarrow> report_type \<Rightarrow> int \<Rightarrow> instant \<Rightarrow> execution_report" where
  "sample_report rid type cumulative received =
     (let spec = \<lparr>ers_schema = ''report/v1'', ers_source = ''paper'', ers_source_event = ''e'', ers_order = 1,
        ers_client = 1, ers_broker_order = [], ers_type = type, ers_reason = expectedReason type,
        ers_cumulative = cumulative, ers_occurred_at = received, ers_received_at = received\<rparr>
      in \<lparr>er_id = rid, er_spec = spec, er_raw = canonicalReport rid spec\<rparr>)"

definition sample_fill :: "digest \<Rightarrow> digest \<Rightarrow> int \<Rightarrow> instant \<Rightarrow> fill" where
  "sample_fill fid rid quantity occurred =
     (let spec = \<lparr>fs_schema = ''fill/v1'', fs_source = ''paper'', fs_source_execution = ''x'', fs_order = 1,
        fs_report = rid, fs_quantity = quantity, fs_price = \<lparr>price_minor = 100, price_currency = ''INR''\<rparr>,
        fs_occurred_at = occurred\<rparr>
      in \<lparr>fl_id = fid, fl_spec = spec, fl_raw = canonicalFill fid spec\<rparr>)"

lemmas sample_defs = sample_order_def sample_spec_def sample_leg_def sample_report_def sample_fill_def Let_def

lemmas report_defs = ApplyExecutionReport_def check_fill_def newOrderValue_def legalTransition_def
  staleTransition_def OrderState_Validate_def

lemma trim_space_order [simp]: "trim_space ''order/v1'' = ''order/v1''" "trim_space [] = []"
  by code_simp+

lemma sample_partial_fill:
  "ApplyExecutionReport (sample_order OrderSubmitted 4 0 2) (sample_report 21 ReportPartialFill 6 5)
     (Some (sample_fill 31 21 6 5)) = Inr (sample_order OrderPartiallyFilled 5 6 5)"
  by (simp add: sample_defs report_defs i64_defs wrap_u64_def)

lemma sample_late_submit:
  "ApplyExecutionReport (sample_order OrderPartiallyFilled 5 6 5) (sample_report 22 ReportSubmitted 6 6) None =
     Inr (sample_order OrderPartiallyFilled 6 6 6)"
  by (simp add: sample_defs report_defs i64_defs wrap_u64_def)

lemma sample_order_ok:
  "order_consistent (sample_order OrderSubmitted 4 0 2)" "order_consistent (sample_order OrderPartiallyFilled 5 6 5)"
  by (simp_all add: sample_defs order_consistent_def order_wf_def unsubmitted_def i64_defs max_u64_def
      OrderState_Validate_def)

lemma sample_run:
  "order_step\<^sup>*\<^sup>* (sample_order OrderSubmitted 4 0 2) (sample_order OrderPartiallyFilled 6 6 6)"
proof -
  have "order_step (sample_order OrderSubmitted 4 0 2) (sample_order OrderPartiallyFilled 5 6 5)"
    by (rule accepted [OF sample_partial_fill]) (simp add: sample_fill_def Let_def i64_defs)
  moreover have "order_step (sample_order OrderPartiallyFilled 5 6 5) (sample_order OrderPartiallyFilled 6 6 6)"
    by (rule accepted [OF sample_late_submit]) simp
  ultimately show ?thesis by simp
qed

section \<open>Sequences of reports\<close>

text \<open>Reports applied in turn, each with its fill if it carries one; the first refusal is returned.\<close>

fun apply_reports :: "order \<Rightarrow> (execution_report \<times> fill option) list \<Rightarrow> order result" where
  "apply_reports ord [] = Inr ord"
| "apply_reports ord ((r, f) # rs) = bind_r (ApplyExecutionReport ord r f) (\<lambda>ord'. apply_reports ord' rs)"

lemma apply_reports_run:
  "apply_reports ord rs = Inr ord' \<Longrightarrow> order_wf ord \<Longrightarrow> \<forall>(r, f) \<in> set rs. in_i64 (fill_quantity f) \<Longrightarrow>
     order_wf ord' \<and> filled_of ord' = filled_of ord + (\<Sum>(r, f) \<leftarrow> rs. fill_quantity f) \<and>
     revision_of ord' = revision_of ord + length rs \<and> order_step\<^sup>*\<^sup>* ord ord'"
proof (induction ord rs rule: apply_reports.induct)
  case (2 ord r f rs)
  then obtain mid where m: "ApplyExecutionReport ord r f = Inr mid" "apply_reports mid rs = Inr ord'" by auto
  have q: "in_i64 (fill_quantity f)" using "2.prems"(3) by simp
  note w = ApplyExecutionReport_wf [OF m(1) "2.prems"(2)] ApplyExecutionReport_conserves [OF m(1) "2.prems"(2) q]
  have "order_step ord mid" using m(1) q by (rule accepted)
  with "2.IH" [OF m(2)] w "2.prems"(3) show ?case by (auto intro: converse_rtranclp_into_rtranclp)
qed simp

text \<open>What the fill of an accepted fill report pins down.\<close>

lemma accepted_fill:
  assumes "ApplyExecutionReport ord r (Some f) = Inr ord'" "order_wf ord" "in_i64 (fill_quantity (Some f))"
  shows "ers_cumulative (er_spec r) = filled_of ord' \<and> filled_of ord' = filled_of ord + fs_quantity (fl_spec f)"
proof -
  from assms(1) have "filled_of ord' = ers_cumulative (er_spec r)" by (rule ApplyExecutionReport_cases)
  with ApplyExecutionReport_conserves [OF assms] show ?thesis by simp
qed

lemma fill_report_refused_after:
  assumes acc: "ApplyExecutionReport ord r (Some f) = Inr ord'" "order_wf ord" "in_i64 (fill_quantity (Some f))"
    and pos: "0 < fs_quantity (fl_spec f)"
    and later: "order_extends ord' ord2" "order_wf ord2"
  shows "ApplyExecutionReport ord2 r (Some f) = Inl (Execution ErrNonMonotonicFill)"
proof -
  note c = accepted_fill [OF acc]
  obtain t where t: "reportTarget (ers_type (er_spec r)) = Some t" "check_fill ord r (Some f) t = Inr ()"
    using acc(1) by (rule ApplyExecutionReport_cases)
  have tt: "t = OrderPartiallyFilled \<or> t = OrderFilled"
    using check_fill_Inr [OF t(2) acc(2,3)] by auto
  have same: "ord_id ord2 = ord_id ord" "ord_client ord2 = ord_client ord" "leg_of ord2 = leg_of ord"
    and grown: "filled_of ord' \<le> filled_of ord2"
    using later(1) ApplyExecutionReport_extends [OF acc(1,2)] by (auto simp: order_extends_def)
  have guards: "ord_id ord \<noteq> 0" "er_id r \<noteq> 0" "ers_order (er_spec r) = ord_id ord"
    "ers_client (er_spec r) = ord_client ord" "ers_cumulative (er_spec r) \<le> quantity_of ord"
    "fs_order (fl_spec f) = ord_id ord" "fs_report (fl_spec f) = er_id r"
    "price_currency (fs_price (fl_spec f)) = price_currency (ol_limit_price (leg_of ord))"
    using acc(1) by (auto simp: ApplyExecutionReport_def Let_def split: option.splits if_splits)
  show ?thesis
  proof (cases "ers_cumulative (er_spec r) < filled_of ord2")
    case True
    with guards same show ?thesis by (simp add: ApplyExecutionReport_def Let_def)
  next
    case False
    then have eq: "filled_of ord2 = ers_cumulative (er_spec r)" using c grown by simp
    have "check_fill ord2 r (Some f) t = Inl (Execution ErrNonMonotonicFill)"
    proof (cases "fs_quantity (fl_spec f) > max_i64 - filled_of ord2")
      case False
      then have "in_i64 (filled_of ord2 + fs_quantity (fl_spec f))"
        using later(2) pos by (auto simp: order_wf_def i64_defs)
      then show ?thesis using tt pos eq False by (auto simp: check_fill_def Let_def)
    qed (use tt in \<open>auto simp: check_fill_def Let_def\<close>)
    with guards same eq t(1) show ?thesis by (simp add: ApplyExecutionReport_def Let_def)
  qed
qed

text \<open>
  What \<open>newOrderValue\<close> checks beyond \<open>order_wf\<close>: fields that no report changes.
\<close>

definition order_named :: "order \<Rightarrow> bool" where
  "order_named ord \<longleftrightarrow> trim_space (os_schema (ord_spec ord)) \<noteq> [] \<and> os_plan (ord_spec ord) \<noteq> 0 \<and>
     os_created_at (ord_spec ord) \<noteq> 0"

text \<open>The report and the fill that complete an order.\<close>

definition completing_report :: "order \<Rightarrow> execution_report" where
  "completing_report ord =
     (let spec = \<lparr>ers_schema = ''report/v1'', ers_source = ''broker'', ers_source_event = ''fill'',
        ers_order = ord_id ord, ers_client = ord_client ord, ers_broker_order = [], ers_type = ReportFill,
        ers_reason = ReasonBrokerFill, ers_cumulative = quantity_of ord,
        ers_occurred_at = os_updated_at (ord_spec ord), ers_received_at = os_updated_at (ord_spec ord)\<rparr>
      in \<lparr>er_id = 1, er_spec = spec, er_raw = canonicalReport 1 spec\<rparr>)"

definition completing_fill :: "order \<Rightarrow> fill" where
  "completing_fill ord =
     (let spec = \<lparr>fs_schema = ''fill/v1'', fs_source = ''broker'', fs_source_execution = ''fill'',
        fs_order = ord_id ord, fs_report = 1, fs_quantity = quantity_of ord - filled_of ord,
        fs_price = ol_limit_price (leg_of ord), fs_occurred_at = os_updated_at (ord_spec ord)\<rparr>
      in \<lparr>fl_id = 1, fl_spec = spec, fl_raw = canonicalFill 1 spec\<rparr>)"

lemma open_may_fill:
  "s \<notin> unsubmitted \<Longrightarrow> \<not> settled s \<Longrightarrow> OrderState_Validate s = Inr () \<Longrightarrow> legalTransition s OrderFilled"
  by (cases s) (auto simp: legalTransition_def unsubmitted_def settled_def OrderState_Validate_def)

lemma completing_accepted:
  assumes "order_wf ord" "order_named ord" "revision_of ord < max_u64"
    "state_of ord \<notin> unsubmitted" "\<not> settled (state_of ord)"
  shows "\<exists>ord'. ApplyExecutionReport ord (completing_report ord) (Some (completing_fill ord)) = Inr ord' \<and>
    state_of ord' = OrderFilled"
proof -
  have legal: "legalTransition (state_of ord) OrderFilled"
    using assms by (intro open_may_fill) (auto simp: order_wf_def)
  have fill: "check_fill ord (completing_report ord) (Some (completing_fill ord)) OrderFilled = Inr ()"
    using assms(1) by (auto simp: check_fill_def completing_report_def completing_fill_def Let_def order_wf_def i64_defs)
  have "wrap_u64 (Suc (revision_of ord)) \<noteq> 0" using assms(3) by (simp add: wrap_u64_Suc)
  with assms(1,2) legal fill show ?thesis
    by (simp add: ApplyExecutionReport_def completing_report_def completing_fill_def Let_def newOrderValue_def
        order_wf_def order_named_def OrderState_Validate_def)
qed

section \<open>Properties\<close>

text \<open>
  C1: over any run of accepted execution reports an order stays consistent: its filled quantity lies
  between zero and the ordered quantity, equals it exactly in state FILLED, is zero while the order was
  never submitted, and identity, client identity, leg and plan never change while filled quantity,
  revision and update time never go back.
\<close>

theorem order_run_consistent:
  assumes "order_step\<^sup>*\<^sup>* ord ord'" "order_consistent ord"
  shows "order_consistent ord' \<and> order_extends ord ord'"
  using assms order_state_run.reach_inv order_run.reach_grows by (auto simp: order_consistent_def)

theorem order_run_consistent_witness:
  "order_consistent (sample_order OrderPartiallyFilled 6 6 6) \<and>
   order_extends (sample_order OrderSubmitted 4 0 2) (sample_order OrderPartiallyFilled 6 6 6)"
  using order_run_consistent [OF sample_run sample_order_ok(1)] .

text \<open>
  C2: conservation. After any sequence of accepted reports the filled quantity is the one the order
  started with plus the quantities of the fills, counted once each, and the revision counts the reports.
\<close>

theorem reports_conserve_fills:
  assumes "apply_reports ord rs = Inr ord'" "order_wf ord" "\<forall>(r, f) \<in> set rs. in_i64 (fill_quantity f)"
  shows "filled_of ord' = filled_of ord + (\<Sum>(r, f) \<leftarrow> rs. fill_quantity f) \<and>
     revision_of ord' = revision_of ord + length rs"
  using apply_reports_run [OF assms] by simp

theorem reports_conserve_fills_witness:
  "filled_of (sample_order OrderPartiallyFilled 6 6 6) = 0 + 6"
  using reports_conserve_fills [of "sample_order OrderSubmitted 4 0 2"
      "[(sample_report 21 ReportPartialFill 6 5, Some (sample_fill 31 21 6 5)), (sample_report 22 ReportSubmitted 6 6, None)]"
      "sample_order OrderPartiallyFilled 6 6 6"] sample_order_ok(1)
  by (simp add: sample_partial_fill sample_late_submit order_consistent_def) (simp add: sample_defs i64_defs)

text \<open>
  C3: exactly once. A report with a fill that was accepted is refused as non-monotonic by the order it
  produced and by every later state of that order, so a broker that repeats a fill never moves the filled
  quantity twice.
\<close>

theorem fill_report_once:
  assumes "ApplyExecutionReport ord r (Some f) = Inr ord'" "order_wf ord" "in_i64 (fs_quantity (fl_spec f))"
    "0 < fs_quantity (fl_spec f)" "order_step\<^sup>*\<^sup>* ord' ord2"
  shows "ApplyExecutionReport ord2 r (Some f) = Inl (Execution ErrNonMonotonicFill)"
proof -
  have wf': "order_wf ord'" using ApplyExecutionReport_wf [OF assms(1,2)] by simp
  show ?thesis
  proof (rule fill_report_refused_after [OF assms(1,2) _ assms(4)])
    show "order_extends ord' ord2" using order_run.reach_grows [OF assms(5) wf'] .
    show "order_wf ord2" using order_run.reach_inv [OF assms(5) wf'] .
  qed (use assms(3) in simp)
qed

theorem fill_report_once_witness:
  "ApplyExecutionReport (sample_order OrderPartiallyFilled 5 6 5) (sample_report 21 ReportPartialFill 6 5)
     (Some (sample_fill 31 21 6 5)) = Inl (Execution ErrNonMonotonicFill)"
proof (rule fill_report_once [OF sample_partial_fill])
  show "order_wf (sample_order OrderSubmitted 4 0 2)" using sample_order_ok(1) by (simp add: order_consistent_def)
qed (simp_all add: sample_fill_def Let_def i64_defs)

text \<open>
  C4: FILLED, REJECTED, EXPIRED and FAILED are never left, and the filled quantity of an order in one of
  them never changes, whatever reports are still accepted.
\<close>

theorem settled_order_kept:
  assumes "order_step\<^sup>*\<^sup>* ord ord'" "order_wf ord" "settled (state_of ord)"
  shows "state_of ord' = state_of ord \<and> filled_of ord' = filled_of ord"
  using settled_run.reach_inv [OF assms(1), of ord] assms(2,3) by (simp add: settled_as_def)

theorem settled_order_kept_witness:
  "state_of (sample_order OrderRejected 6 0 6) = OrderRejected \<and> filled_of (sample_order OrderRejected 6 0 6) = 0"
proof -
  have "ApplyExecutionReport (sample_order OrderRejected 5 0 5) (sample_report 23 ReportSubmitted 0 6) None =
      Inr (sample_order OrderRejected 6 0 6)"
    by (simp add: sample_defs report_defs i64_defs wrap_u64_def)
  then have "order_step (sample_order OrderRejected 5 0 5) (sample_order OrderRejected 6 0 6)"
    by (rule accepted) simp
  then have "order_step\<^sup>*\<^sup>* (sample_order OrderRejected 5 0 5) (sample_order OrderRejected 6 0 6)" by simp
  from settled_order_kept [OF this] show ?thesis
    by (simp add: sample_defs order_wf_def settled_def i64_defs max_u64_def OrderState_Validate_def)
qed

text \<open>
  C5: once an order has been handed to a broker it is never reported as CREATED, PLANNED, EXPIRED or
  FAILED: the states that claim nothing can be working at the broker are out of reach.
\<close>

theorem submitted_never_forgotten:
  assumes "order_step\<^sup>*\<^sup>* ord ord'" "order_wf ord"
    "state_of ord \<notin> {OrderCreated, OrderPlanned, OrderExpired, OrderFailed}"
  shows "state_of ord' \<notin> {OrderCreated, OrderPlanned, OrderExpired, OrderFailed}"
  using submitted_run.reach_inv [OF assms(1)] assms(2,3) by (simp add: submitted_wf_def unsubmitted_def)

theorem submitted_never_forgotten_witness:
  "state_of (sample_order OrderPartiallyFilled 6 6 6) \<notin> {OrderCreated, OrderPlanned, OrderExpired, OrderFailed}"
proof (rule submitted_never_forgotten [OF sample_run])
  show "order_wf (sample_order OrderSubmitted 4 0 2)" using sample_order_ok(1) by (simp add: order_consistent_def)
qed (simp add: sample_defs)

text \<open>
  A cancelled order is only ever reopened by an execution. A report accepted in state CANCELLED either
  leaves state and filled quantity as they are, or carries a fill that moves the order to
  PARTIALLY_FILLED or FILLED with a larger filled quantity.
\<close>

theorem cancelled_left_by_fill:
  assumes "ApplyExecutionReport ord r f = Inr ord'" "order_wf ord" "state_of ord = OrderCancelled"
    "\<forall>x. f = Some x \<longrightarrow> 0 < fs_quantity (fl_spec x) \<and> in_i64 (fs_quantity (fl_spec x))"
  shows "(f = None \<and> state_of ord' = OrderCancelled \<and> filled_of ord' = filled_of ord) \<or>
     (f \<noteq> None \<and> state_of ord' \<in> {OrderPartiallyFilled, OrderFilled} \<and> filled_of ord < filled_of ord')"
proof -
  have q: "in_i64 (fill_quantity f)" using assms(4) by (cases f) auto
  note c = ApplyExecutionReport_conserves [OF assms(1,2) q]
  from assms(1,2) q show ?thesis
  proof (cases rule: ApplyExecutionReport_state)
    case (legal t)
    then have t: "t = OrderPartiallyFilled \<or> t = OrderFilled"
      using assms(3) by (simp add: legal_from_cancelled)
    obtain u where u: "reportTarget (ers_type (er_spec r)) = Some u" "check_fill ord r f u = Inr ()"
      using assms(1) by (rule ApplyExecutionReport_cases)
    have "f \<noteq> None" using check_fill_Inr [OF u(2) assms(2) q] u(1) legal(3) t by auto
    with t legal(2) c assms(4) show ?thesis by auto
  next
    case stale
    with assms(3) show ?thesis by simp
  qed
qed

theorem cancelled_left_by_fill_witness:
  "state_of (sample_order OrderPartiallyFilled 9 6 9) \<in> {OrderPartiallyFilled, OrderFilled} \<and>
   filled_of (sample_order OrderCancelled 8 0 8) < filled_of (sample_order OrderPartiallyFilled 9 6 9)"
proof -
  have "ApplyExecutionReport (sample_order OrderCancelled 8 0 8) (sample_report 24 ReportPartialFill 6 9)
      (Some (sample_fill 34 24 6 9)) = Inr (sample_order OrderPartiallyFilled 9 6 9)"
    by (simp add: sample_defs report_defs i64_defs wrap_u64_def)
  from cancelled_left_by_fill [OF this] show ?thesis
    by (simp add: sample_defs order_wf_def i64_defs max_u64_def OrderState_Validate_def)
qed

text \<open>
  C6: no dead ends. Every order that has reached a broker and is not settled, an order whose outcome is
  UNKNOWN and a CANCELLED one included, accepts the report of a fill of its open quantity and becomes
  FILLED, unless its revision counter is exhausted.
\<close>

theorem open_order_can_fill:
  assumes "order_wf ord" "order_named ord" "revision_of ord < max_u64"
    "state_of ord \<notin> unsubmitted" "\<not> settled (state_of ord)"
  shows "\<exists>r f ord'. ApplyExecutionReport ord r (Some f) = Inr ord' \<and> state_of ord' = OrderFilled \<and>
    fs_quantity (fl_spec f) = quantity_of ord - filled_of ord"
proof -
  have "fs_quantity (fl_spec (completing_fill ord)) = quantity_of ord - filled_of ord"
    by (simp add: completing_fill_def Let_def)
  with completing_accepted [OF assms] show ?thesis by blast
qed

theorem open_order_can_fill_witness:
  "\<exists>r f ord'. ApplyExecutionReport (sample_order OrderUnknown 8 6 8) r (Some f) = Inr ord' \<and>
     state_of ord' = OrderFilled \<and> fs_quantity (fl_spec f) = 4"
  using open_order_can_fill [of "sample_order OrderUnknown 8 6 8"]
  by (simp add: sample_defs order_wf_def order_named_def i64_defs max_u64_def OrderState_Validate_def
      unsubmitted_def settled_def)

end
