(* ===== verification/Claims_Authority.thy ===== *)
theory Claims_Authority
  imports Claims_Orders
begin

text \<open>
  The properties of the path from an approved risk decision to the orders of a plan
  (\<open>intent.go\<close>, \<open>plan.go\<close>), and of the identities and the arithmetic the path rests on.
\<close>

section \<open>From decision to order\<close>

lemma NewOrderPlan_safe:
  assumes "NewOrderPlan sha spec = Inr plan"
  shows "plan_safe (op_legs plan) \<and> distinct (map ol_instrument (op_legs plan)) \<and> \<not> hasCycle (op_legs plan) \<and>
    op_legs plan \<noteq> [] \<and>
    (\<forall>leg \<in> set (op_legs plan). \<exists>d \<in> set (ops_legs spec). draft_authorized (ops_intent spec) d \<and>
       ol_instrument leg = ld_instrument d \<and> ol_side leg = ld_side d \<and> ol_quantity leg = ld_quantity d \<and>
       ol_reducing leg = ld_reducing d)"
  using assms
proof (rule NewOrderPlan_Inr)
  fix ids ps
  assume a: "check_drafts sha (ops_intent spec) None Map.empty [] (sort_key ld_instrument (ops_legs spec)) = Inr (ids, ps)"
    "build_legs sha (ops_intent spec) ids ps (sort_key ld_instrument (ops_legs spec)) = Inr (op_legs plan)"
    "\<not> hasCycle (op_legs plan)" "op_legs plan \<noteq> []"
  show ?thesis using build_legs_safe [OF a(1) _ a(2)] a(3,4) by simp
qed

text \<open>The intent leg a plan leg is authorised by.\<close>

lemma plan_leg_authorized:
  assumes "NewOrderPlan sha spec = Inr plan" "leg \<in> set (op_legs plan)"
  obtains approved where "approved \<in> set (eis_legs (ei_spec (ops_intent spec)))"
    "il_instrument approved = ol_instrument leg" "il_side approved = ol_side leg"
    "il_quantity approved = ol_quantity leg" "il_reducing approved = ol_reducing leg"
  using NewOrderPlan_safe [OF assms(1)] assms(2) unfolding draft_authorized_def by fastforce

lemma intent_leg_within:
  assumes "NewExecutionIntent sha spec = Inr intent"
  obtains approved where "rd_approved (eis_decision spec) = Some approved"
    and "\<And>leg. leg \<in> set (eis_legs (ei_spec intent)) \<Longrightarrow> \<exists>bound \<in> set (ab_leg_bounds approved). leg_within bound leg"
    and "distinct (map il_instrument (eis_legs (ei_spec intent)))"
    and "minor (eis_maximum_capital (ei_spec intent)) \<le> minor (ab_maximum_capital approved)"
    and "eis_expires_at (ei_spec intent) \<le> ab_valid_until approved"
  using assms
proof (rule NewExecutionIntent_Inr)
  fix a
  assume a: "rd_approved (eis_decision spec) = Some a" "eis_expires_at spec \<le> ab_valid_until a"
    "minor (eis_maximum_capital spec) \<le> minor (ab_maximum_capital a)"
    "check_intent_legs (bounds_by_instrument (ab_leg_bounds a)) {} (eis_legs spec) = Inr ()"
    "ei_spec intent = spec\<lparr>eis_schema := trim_space (eis_schema spec), eis_legs := sort_key il_instrument (eis_legs spec)\<rparr>"
  show thesis using check_intent_legs_Inr [OF a(4)] a
    by (intro that [of a]) (auto simp: distinct_map)
qed

section \<open>A sample decision\<close>

definition sample_bound :: allocation_leg_bound where
  "sample_bound = \<lparr>lb_instrument = 11, lb_side = SideBuy, lb_ratio = 1, lb_resolution = QuantityResolved,
     lb_maximum_units = 20, lb_lot_size = 5\<rparr>"

definition sample_decision :: risk_decision where
  "sample_decision = \<lparr>rd_id = 1, rd_checksum = 2, rd_portfolio = 3, rd_outcome = DecisionApproved, rd_expected_revision = 4,
     rd_approved = Some \<lparr>ab_candidate = 1, ab_maximum_capital = \<lparr>minor = 5000, money_currency = ''INR''\<rparr>,
       ab_leg_bounds = [sample_bound], ab_constraints = [], ab_valid_until = 100\<rparr>,
     rd_generated_at = 10, rd_expires_at = 90\<rparr>"

definition sample_intent_leg :: intent_leg where
  "sample_intent_leg = \<lparr>il_instrument = 11, il_side = SideBuy, il_ratio = 1, il_quantity = 10, il_lot_size = 5,
     il_reducing = False\<rparr>"

definition sample_intent_spec :: execution_intent_spec where
  "sample_intent_spec = \<lparr>eis_schema = ''order/v1'', eis_decision = sample_decision,
     eis_maximum_capital = \<lparr>minor = 2000, money_currency = ''INR''\<rparr>, eis_legs = [sample_intent_leg],
     eis_portfolio_revision = 5, eis_created_at = 20, eis_expires_at = 80\<rparr>"

text \<open>A digest function for evaluation; every identity is then 1.\<close>

definition sample_sha :: "string \<Rightarrow> digest" where
  "sample_sha s = 1"

lemma derive_sample_sha [simp]: "derive sample_sha n ps = 1"
  by (simp add: derive_def sample_sha_def)

definition sample_intent :: execution_intent where
  "sample_intent = \<lparr>ei_id = 1, ei_spec = sample_intent_spec, ei_raw = canonicalIntent sample_intent_spec\<rparr>"

lemmas sample_intent_defs = sample_intent_spec_def sample_intent_leg_def sample_decision_def sample_bound_def

lemma sample_intent_built: "NewExecutionIntent sample_sha sample_intent_spec = Inr sample_intent"
proof -
  have "sort_key il_instrument [sample_intent_leg] = [sample_intent_leg]" by simp
  then show ?thesis
    by (simp add: NewExecutionIntent_def sample_intent_def sample_intent_defs Let_def max_u64_def wrap_u64_def
        money_is_zero_value_def bounds_by_instrument_def quantity_is_valid_def rem64_def)
qed

definition sample_draft :: order_leg_draft where
  "sample_draft = \<lparr>ld_instrument = 11, ld_side = SideBuy, ld_quantity = 10,
     ld_limit_price = \<lparr>price_minor = 100, price_currency = ''INR''\<rparr>, ld_protective = True, ld_depends_on = [],
     ld_reducing = False\<rparr>"

definition sample_plan_spec :: order_plan_spec where
  "sample_plan_spec = \<lparr>ops_schema = ''order/v1'', ops_intent = sample_intent, ops_legs = [sample_draft],
     ops_created_at = 30, ops_expires_at = 70\<rparr>"

definition sample_plan :: order_plan where
  "sample_plan = \<lparr>op_id = 1, op_spec = sample_plan_spec, op_legs = [sample_leg],
     op_raw = canonicalPlan sample_plan_spec [sample_leg]\<rparr>"

lemma sample_plan_built: "NewOrderPlan sample_sha sample_plan_spec = Inr sample_plan"
proof -
  have cyc: "\<not> hasCycle [sample_leg]"
    by (simp add: hasCycle_def hasCycle_in_order_def edges_of_def sample_leg_def visit_all.simps successors_def)
  have "check_drafts sample_sha sample_intent None Map.empty [] [sample_draft] = Inr ([11 \<mapsto> 1], [1])"
    by (simp add: sample_draft_def sample_intent_def sample_intent_defs authority_of_def price_is_zero_value_def
        leg_id_def fun_eq_iff)
  moreover have "build_legs sample_sha sample_intent [11 \<mapsto> 1] [1] [sample_draft] = Inr [sample_leg]"
    by (simp add: build_leg_def sample_draft_def sample_leg_def)
  ultimately show ?thesis using cyc
    by (simp add: NewOrderPlan_def sample_plan_def sample_plan_spec_def sample_intent_def sample_intent_spec_def Let_def)
qed

abbreviation sample_created :: order where
  "sample_created \<equiv> sample_order OrderCreated 1 0 1"

lemma sample_created_built: "NewOrder sample_sha sample_plan 1 1 = Inr sample_created"
  by (simp add: NewOrder_def newOrderValue_def sample_plan_def sample_defs OrderState_Validate_def)

section \<open>Properties\<close>

text \<open>
  C7: authority is never exceeded. An order created from a plan for an intent for a risk decision is for
  an instrument, on a side and for a quantity within one of the bounds the decision approved, and over any
  run of accepted reports it never fills more than that bound allows.
\<close>

theorem order_within_authority:
  assumes "NewExecutionIntent sha ispec = Inr intent"
    and "NewOrderPlan sha pspec = Inr plan" "ops_intent pspec = intent"
    and "NewOrder sha plan legID at = Inr ord"
    and "order_step\<^sup>*\<^sup>* ord ord'" "in_i64 (quantity_of ord)"
  shows "\<exists>approved bound. rd_approved (eis_decision ispec) = Some approved \<and> bound \<in> set (ab_leg_bounds approved) \<and>
     ol_instrument (leg_of ord') = lb_instrument bound \<and> ol_side (leg_of ord') = lb_side bound \<and>
     0 \<le> filled_of ord' \<and> filled_of ord' \<le> quantity_of ord' \<and> quantity_of ord' \<le> lb_maximum_units bound"
proof -
  note o = NewOrder_Inr [OF assms(4)]
  then have leg: "leg_of ord \<in> set (op_legs plan)" by simp
  obtain il where il: "il \<in> set (eis_legs (ei_spec intent))" "il_instrument il = ol_instrument (leg_of ord)"
    "il_side il = ol_side (leg_of ord)" "il_quantity il = quantity_of ord"
    by (rule plan_leg_authorized [OF assms(2) leg]) (use assms(3) in simp)
  obtain a where a: "rd_approved (eis_decision ispec) = Some a"
    "\<And>leg. leg \<in> set (eis_legs (ei_spec intent)) \<Longrightarrow> \<exists>bound \<in> set (ab_leg_bounds a). leg_within bound leg"
    by (rule intent_leg_within [OF assms(1)]) blast
  obtain b where b: "b \<in> set (ab_leg_bounds a)" "leg_within b il" using a(2) [OF il(1)] by blast
  have wf: "order_wf ord"
  proof -
    obtain oid cid spec where v: "newOrderValue oid cid spec = Inr ord" and r: "os_revision spec = 1"
      using assms(4) by (auto simp: NewOrder_def Let_def split: if_splits option.splits)
    from newOrderValue_Inr [OF v] have "ord_spec ord = spec\<lparr>os_broker_order := trim_space (os_broker_order spec)\<rparr>"
      by simp
    with assms(6) r show ?thesis by (intro newOrderValue_wf [OF v]) (simp_all add: max_u64_def)
  qed
  have "order_wf ord'" "order_extends ord ord'"
    using order_run.reach_inv [OF assms(5) wf] order_run.reach_grows [OF assms(5) wf] by auto
  with a(1) b il show ?thesis
    by (auto simp: order_extends_def order_wf_def leg_within_def)
qed

theorem order_within_authority_witness:
  "\<exists>approved bound. rd_approved sample_decision = Some approved \<and> bound \<in> set (ab_leg_bounds approved) \<and>
     ol_instrument (leg_of sample_created) = lb_instrument bound \<and> ol_side (leg_of sample_created) = lb_side bound \<and>
     0 \<le> filled_of sample_created \<and> filled_of sample_created \<le> quantity_of sample_created \<and>
     quantity_of sample_created \<le> lb_maximum_units bound"
proof -
  have "ops_intent sample_plan_spec = sample_intent" "in_i64 (quantity_of sample_created)"
    by (simp_all add: sample_plan_spec_def sample_defs i64_defs)
  from order_within_authority [OF sample_intent_built sample_plan_built this(1) sample_created_built _ this(2)]
  show ?thesis by (simp add: sample_intent_spec_def)
qed

text \<open>
  C8: a plan is safe to execute. Its legs are for distinct instruments, depend only on other legs of the
  plan, agree in side, quantity and exposure reduction with the intent, and every SELL leg that does not
  reduce exposure depends on every protective BUY leg, of which there is at least one.
\<close>

theorem plan_is_safe:
  assumes "NewOrderPlan sha spec = Inr plan"
  shows "plan_safe (op_legs plan) \<and> distinct (map ol_instrument (op_legs plan)) \<and>
     (\<forall>leg \<in> set (op_legs plan). \<exists>d \<in> set (ops_legs spec). draft_authorized (ops_intent spec) d \<and>
        ol_instrument leg = ld_instrument d \<and> ol_side leg = ld_side d \<and> ol_quantity leg = ld_quantity d \<and>
        ol_reducing leg = ld_reducing d)"
  using NewOrderPlan_safe [OF assms] by blast

theorem plan_is_safe_witness: "plan_safe (op_legs sample_plan)"
  using plan_is_safe [OF sample_plan_built] by simp

text \<open>
  A plan never gets stuck. Whatever set of legs is completed, if one is missing then some missing leg
  has all its dependencies completed, so a coordinator that runs ready legs completes the plan.
\<close>

theorem plan_progress:
  assumes "NewOrderPlan sha spec = Inr plan" "leg0 \<in> set (op_legs plan)" "ol_id leg0 \<notin> completed"
  shows "\<exists>leg \<in> set (op_legs plan). ol_id leg \<notin> completed \<and> set (ol_depends_on leg) \<subseteq> completed"
  using NewOrderPlan_safe [OF assms(1)] assms(2,3) by (blast intro: acyclic_progress)

theorem plan_progress_witness:
  "\<exists>leg \<in> set (op_legs sample_plan). ol_id leg \<notin> {} \<and> set (ol_depends_on leg) \<subseteq> {}"
  by (rule plan_progress [OF sample_plan_built, of "sample_leg"]) (simp_all add: sample_plan_def)

text \<open>
  C9: cycle detection is correct and does not depend on Go's map iteration order. Started from the keys
  of the edge map in any order, the depth-first search terminates and finds a cycle exactly when the
  dependency relation has one.
\<close>

theorem hasCycle_any_order:
  assumes "set keys = fst ` set (edges_of legs)"
  shows "hasCycle_in_order keys (edges_of legs) = hasCycle legs \<and>
     (hasCycle legs \<longleftrightarrow> (\<exists>x. (x, x) \<in> (dep_rel (edges_of legs))\<^sup>+))"
  using hasCycle_in_order_iff [OF assms] by (simp add: hasCycle_iff)

theorem hasCycle_any_order_witness:
  "hasCycle [sample_leg\<lparr>ol_id := 1, ol_depends_on := [2]\<rparr>, sample_leg\<lparr>ol_id := 2, ol_depends_on := [1]\<rparr>]"
proof -
  let ?legs = "[sample_leg\<lparr>ol_id := 1, ol_depends_on := [2]\<rparr>, sample_leg\<lparr>ol_id := 2, ol_depends_on := [1]\<rparr>]"
  have "(1, 2) \<in> dep_rel (edges_of ?legs)" "(2, 1) \<in> dep_rel (edges_of ?legs)"
    by (simp_all add: dep_rel_iff edges_of_def sample_leg_def)
  then have "(1, 1) \<in> (dep_rel (edges_of ?legs))\<^sup>+" by (meson trancl.simps)
  moreover have "set [2, 1] = fst ` set (edges_of ?legs)" by (auto simp: edges_of_def sample_leg_def)
  ultimately show ?thesis using hasCycle_any_order [of "[2, 1]" ?legs] by blast
qed

text \<open>
  C12: no run-time panic. When the approved bounds passed \<open>AllocationLegBound.Validate\<close>, building an intent
  never divides by a zero lot size, whatever legs are asked for; a refusal is always an error value.
\<close>

theorem intent_no_panic:
  assumes "\<forall>a. rd_approved (eis_decision spec) = Some a \<longrightarrow>
     (\<forall>b \<in> set (ab_leg_bounds a). AllocationLegBound_Validate b = Inr ())"
  shows "NewExecutionIntent sha spec \<noteq> Inl Panic"
  using assms by (intro NewExecutionIntent_no_panic) blast

theorem intent_no_panic_witness: "NewExecutionIntent sample_sha sample_intent_spec \<noteq> Inl Panic"
  by (rule intent_no_panic)
    (simp add: sample_intent_spec_def sample_decision_def sample_bound_def AllocationLegBound_Validate_def
      quantity_is_valid_def rem64_def)

text \<open>
  Identities are collision free up to the digest. The byte strings that two identities are hashed
  from are equal only if namespace and parts are: no concatenation of parts can be read as another.
\<close>

theorem identity_preimage_injective:
  assumes "preimage namespace1 parts1 = preimage namespace2 parts2"
    "length namespace1 < 2 ^ 64" "length namespace2 < 2 ^ 64"
    "\<forall>p \<in> set parts1. length p < 2 ^ 64" "\<forall>p \<in> set parts2. length p < 2 ^ 64"
  shows "namespace1 = namespace2 \<and> parts1 = parts2"
  using preimage_inject [OF assms] .

theorem identity_preimage_injective_witness:
  "preimage ''fill-id/v1'' [''ab'', ''c''] \<noteq> preimage ''fill-id/v1'' [''a'', ''bc'']"
  using identity_preimage_injective [of "''fill-id/v1''" "[''ab'', ''c'']" "''fill-id/v1''" "[''a'', ''bc'']"] by auto

text \<open>Every instrument identity is recovered from its printed form.\<close>

theorem instrument_id_round_trip: "ParseInstrumentID (digest_string d) = Inr d"
  by (rule ParseInstrumentID_print)

text \<open>
  C15: the overflow test of \<open>checkedMultiply\<close> by wrapped product and quotient is exact: it accepts
  precisely the products that an int64 can hold, and then returns the product.
\<close>

theorem checkedMultiply_exact:
  assumes "in_i64 l" "in_i64 r"
  shows "checkedMultiply l r = (v, True) \<longleftrightarrow> in_i64 (l * r) \<and> v = l * r"
  using checkedMultiply_correct [OF assms] .

theorem checkedMultiply_exact_witness:
  "checkedMultiply max_i64 (- 1) = (- max_i64, True) \<and> checkedMultiply 4294967296 4294967296 \<noteq> (0, True)"
  using checkedMultiply_exact [of max_i64 "- 1" "- max_i64"] checkedMultiply_exact [of 4294967296 4294967296 0]
  by (simp add: i64_defs)

text \<open>
  Money arithmetic is exact or refused: sums and differences in one currency are the exact values
  whenever an int64 holds them, an overflow error otherwise, and different currencies never mix.
\<close>

theorem money_add_subtract_exact:
  assumes "money_wf a" "money_wf b"
  shows "CheckedMoneyAdd a b =
      (if money_currency a \<noteq> money_currency b then Inl (Domain ErrCurrencyMismatch)
       else if in_i64 (minor a + minor b) then Inr \<lparr>minor = minor a + minor b, money_currency = money_currency a\<rparr>
       else Inl (Domain ErrMoneyOverflow)) \<and>
     (minor b \<noteq> min_i64 \<longrightarrow> CheckedMoneySubtract a b =
      (if money_currency a \<noteq> money_currency b then Inl (Domain ErrCurrencyMismatch)
       else if in_i64 (minor a - minor b) then Inr \<lparr>minor = minor a - minor b, money_currency = money_currency a\<rparr>
       else Inl (Portfolio ErrArithmeticOverflow)))"
  using Money_Add_iff [of a b] CheckedMoneySubtract_iff [OF assms] assms
  by (simp add: CheckedMoneyAdd_def money_wf_def)

theorem money_add_subtract_exact_witness:
  "CheckedMoneySubtract \<lparr>minor = 5, money_currency = ''INR''\<rparr> \<lparr>minor = 8, money_currency = ''INR''\<rparr> =
     Inr \<lparr>minor = - 3, money_currency = ''INR''\<rparr>"
proof -
  have "NewCurrency ''INR'' = Inr ''INR''" by code_simp
  then show ?thesis
    using money_add_subtract_exact [of "\<lparr>minor = 5, money_currency = ''INR''\<rparr>" "\<lparr>minor = 8, money_currency = ''INR''\<rparr>"]
    by (simp add: money_wf_def i64_defs)
qed

text \<open>C10: a rational is stored in lowest terms and keeps its value.\<close>

theorem rational_lowest_terms:
  assumes "NewRational n d = Inr q"
  shows "coprime (rat_numerator q) (rat_denominator q) \<and> 0 < rat_denominator q \<and>
     rat_numerator q * d = n * rat_denominator q"
  using NewRational_lowest [OF assms] .

theorem rational_lowest_terms_witness:
  "coprime (2::nat) 3 \<and> 2 * 9 = 6 * (3::nat)"
proof -
  have "NewRational 6 9 = Inr \<lparr>rat_numerator = 2, rat_denominator = 3\<rparr>" by code_simp
  from rational_lowest_terms [OF this] show ?thesis by simp
qed

end
