(* ===== verification/Claims_Oms.thy ===== *)
theory Claims_Oms
  imports Claims_Authority
begin

text \<open>
  The properties of the in-memory order store (\<open>internal/adapters/execution/memory/store.go\<close>) over any
  sequence of its operations.
\<close>

section \<open>A sample store\<close>

definition sample_checkpoint :: "order \<Rightarrow> digest \<Rightarrow> digest \<Rightarrow> digest \<Rightarrow> order_checkpoint" where
  "sample_checkpoint ord parent rid fid =
     (let c = \<lparr>oc_order = ord, oc_order_checksum = 1, oc_parent = parent, oc_report = rid, oc_fill = fid,
        oc_checksum = 1, oc_raw = []\<rparr>
      in c\<lparr>oc_raw := canonicalOrderCheckpoint c\<rparr>)"

definition sample_partial :: order_checkpoint where
  "sample_partial = sample_checkpoint (sample_order OrderPartiallyFilled 5 6 5) 1 21 31"

definition sample_reports :: "execution_report list" where
  "sample_reports = [sample_report 21 ReportPartialFill 6 5]"

definition sample_fills :: "fill list" where
  "sample_fills = [sample_fill 31 21 6 5]"

definition sample_store :: oms_store where
  "sample_store = NewStore\<lparr>
     st_plans := [(1, \<lparr>sp_intent = sample_intent, sp_plan = sample_plan,
        sp_canonical = canonicalPlanBundle sample_intent sample_plan [sample_partial] sample_reports sample_fills\<rparr>)],
     st_intents := [(1, sample_intent)], st_current := [(1, 5)], st_checkpoints := [(1, [(5, sample_partial)])],
     st_reports := [(21, sample_report 21 ReportPartialFill 6 5)], st_fills := [(31, sample_fill 31 21 6 5)]\<rparr>"

lemma state_checksum_sample [simp]: "s \<noteq> [] \<Longrightarrow> state_checksum sample_sha s = 1"
  by (simp add: state_checksum_def NewStateChecksum_def)

lemma canonical_nonempty [simp]:
  "canonicalOrder i c spec \<noteq> []" "canonicalOrderCheckpoint cp \<noteq> []" "canonicalOrderPublication p \<noteq> []"
  by (simp_all add: canonicalOrder_def canonicalOrderCheckpoint_def canonicalOrderPublication_def)

lemma sample_checkpoint_simps [simp]:
  "oc_order (sample_checkpoint ord parent rid fid) = ord" "oc_parent (sample_checkpoint ord parent rid fid) = parent"
  "oc_report (sample_checkpoint ord parent rid fid) = rid" "oc_fill (sample_checkpoint ord parent rid fid) = fid"
  "oc_checksum (sample_checkpoint ord parent rid fid) = 1"
  by (simp_all add: sample_checkpoint_def Let_def)

lemma sample_checkpoint_valid:
  "ord_id ord \<noteq> 0 \<Longrightarrow> ord_raw ord \<noteq> [] \<Longrightarrow> revision_of ord \<noteq> 1 \<Longrightarrow> parent \<noteq> 0 \<Longrightarrow> rid \<noteq> 0 \<Longrightarrow>
     NewOrderCheckpoint sample_sha (sample_checkpoint ord parent rid fid) = Inr (sample_checkpoint ord parent rid fid)"
  by (simp add: NewOrderCheckpoint_def sample_checkpoint_def Let_def)
    (simp add: canonicalOrderCheckpoint_def)

lemma sample_order_simps [simp]:
  "ord_id (sample_order s r f u) = 1" "ord_client (sample_order s r f u) = 1" "ord_raw (sample_order s r f u) \<noteq> []"
  "state_of (sample_order s r f u) = s" "revision_of (sample_order s r f u) = r" "filled_of (sample_order s r f u) = f"
  "leg_of (sample_order s r f u) = sample_leg" "os_plan (ord_spec (sample_order s r f u)) = 1"
  "ol_id sample_leg = 1" "ol_quantity sample_leg = 10"
  by (simp_all add: sample_defs)

lemma sample_report_simps [simp]:
  "er_id (sample_report i t c u) = i" "ers_order (er_spec (sample_report i t c u)) = 1"
  "fl_id (sample_fill i r q u) = i" "fs_order (fl_spec (sample_fill i r q u)) = 1"
  "fs_report (fl_spec (sample_fill i r q u)) = r" "fs_quantity (fl_spec (sample_fill i r q u)) = q"
  by (simp_all add: sample_report_def sample_fill_def Let_def)

lemma sample_plan_simps [simp]:
  "op_id sample_plan = 1" "op_legs sample_plan = [sample_leg]" "op_spec sample_plan = sample_plan_spec"
  "ops_intent sample_plan_spec = sample_intent" "ei_id sample_intent = 1"
  by (simp_all add: sample_plan_def sample_plan_spec_def sample_intent_def)

lemma sample_restore:
  "RestorePlan sample_sha (False, False) sample_intent sample_plan [sample_partial] sample_reports sample_fills NewStore =
     (sample_store, Inr RegistrationCommitted)"
proof -
  have cp: "NewOrderCheckpoint sample_sha sample_partial = Inr sample_partial"
    unfolding sample_partial_def by (rule sample_checkpoint_valid) simp_all
  have "restore_reports {1} sample_reports [] = Inr [(21, sample_report 21 ReportPartialFill 6 5)]"
    by (simp add: sample_reports_def put_def)
  moreover have "restore_fills {1} [(21, sample_report 21 ReportPartialFill 6 5)] sample_fills [] [] =
      Inr ([(31, sample_fill 31 21 6 5)], [(1, 6)])"
    by (simp add: sample_fills_def put_def Let_def i64_defs)
  moreover have "restored_checkpoints sample_sha sample_plan [] [sample_partial] = Inr ([1], [sample_partial])"
    by (simp add: cp) (simp add: sample_partial_def)
  moreover have "oc_order sample_partial = sample_order OrderPartiallyFilled 5 6 5" "oc_report sample_partial = 21"
    "oc_fill sample_partial = 31" by (simp_all add: sample_partial_def)
  ultimately show ?thesis
    by (simp add: RestorePlan_def sample_store_def NewStore_def NewStoreInstrumented_def DefaultLimits_def
      size_of_def place_checkpoint_def put_def put_all_def Let_def)
qed

text \<open>The fill that completes the sample order, published against its partially filled checkpoint.\<close>

definition sample_filled :: order where
  "sample_filled = sample_order OrderFilled 6 10 7"

definition sample_publication :: order_publication where
  "sample_publication =
     (let p = \<lparr>pu_id = 41, pu_expected_revision = 5, pu_expected_checkpoint = 1,
        pu_report = sample_report 25 ReportFill 10 7, pu_fill = Some (sample_fill 35 25 4 7),
        pu_next = sample_checkpoint sample_filled 1 25 35, pu_checksum = 1, pu_raw = []\<rparr>
      in p\<lparr>pu_raw := canonicalOrderPublication p\<rparr>)"

lemma sample_publication_simps [simp]:
  "pu_id sample_publication = 41" "pu_expected_revision sample_publication = 5"
  "pu_expected_checkpoint sample_publication = 1" "pu_report sample_publication = sample_report 25 ReportFill 10 7"
  "pu_fill sample_publication = Some (sample_fill 35 25 4 7)"
  "pu_next sample_publication = sample_checkpoint sample_filled 1 25 35"
  by (simp_all add: sample_publication_def Let_def)

lemma sample_publication_valid: "NewOrderPublication sample_sha sample_publication = Inr sample_publication"
  by (simp add: NewOrderPublication_def sample_publication_def sample_filled_def Let_def wrap_u64_def)
    (simp add: canonicalOrderPublication_def)

lemma sample_completion:
  "ApplyExecutionReport (sample_order OrderPartiallyFilled 5 6 5) (sample_report 25 ReportFill 10 7)
     (Some (sample_fill 35 25 4 7)) = Inr sample_filled"
  by (simp add: sample_filled_def sample_defs report_defs i64_defs wrap_u64_def)

lemma sample_store_simps [simp]:
  "st_current sample_store = [(1, 5)]" "st_checkpoints sample_store = [(1, [(5, sample_partial)])]"
  "st_reports sample_store = [(21, sample_report 21 ReportPartialFill 6 5)]"
  "st_fills sample_store = [(31, sample_fill 31 21 6 5)]" "st_publications sample_store = []"
  "st_limits sample_store = DefaultLimits" "\<not> st_fail_before_commit sample_store"
  by (simp_all add: sample_store_def NewStore_def NewStoreInstrumented_def DefaultLimits_def)

lemma sample_admitted: "admit_publication sample_store sample_publication = Inr sample_filled"
proof -
  have "checkpoint_at sample_store 1 5 = sample_partial" by (simp add: checkpoint_at_def get_or_def)
  moreover have "oc_checksum sample_partial = 1" "oc_order sample_partial = sample_order OrderPartiallyFilled 5 6 5"
    by (simp_all add: sample_partial_def)
  ultimately show ?thesis
    by (simp add: admit_publication_def sample_completion size_of_def DefaultLimits_def)
qed

definition sample_after :: oms_store where
  "sample_after = commit_publication sample_store sample_publication sample_filled"

lemma sample_published:
  "PublishOrderEvent sample_sha (False, False) sample_publication sample_store =
     (sample_after, Inr (commit_receipt sample_publication sample_filled))"
  by (simp add: PublishOrderEvent_def sample_publication_valid sample_admitted sample_after_def)

lemma sample_built:
  "order_built (sample_order OrderPartiallyFilled 5 6 5)" "order_built sample_filled"
  by (simp_all add: sample_filled_def order_built_def order_wf_def OrderState_Validate_def i64_defs max_u64_def)
    (simp_all add: sample_defs)

lemma sample_publication_built: "publication_built sample_publication"
  by (simp add: publication_built_def sample_built i64_defs)

lemma sample_steps:
  "oms_step sample_sha NewStore sample_store" "oms_step sample_sha sample_store sample_after"
proof -
  show "oms_step sample_sha NewStore sample_store"
  proof (rule oms_step.restore_plan [OF sample_restore])
    show "\<forall>c \<in> set [sample_partial]. order_built (oc_order c) \<and> \<not> has (st_current NewStore) (ord_id (oc_order c))"
      using sample_built by (simp add: sample_partial_def NewStore_def NewStoreInstrumented_def)
    show "fills_fresh sample_fills NewStore"
      by (simp add: fills_fresh_def sample_fills_def NewStore_def NewStoreInstrumented_def i64_defs)
  qed
  show "oms_step sample_sha sample_store sample_after"
    by (rule oms_step.publish [OF sample_published sample_publication_built])
qed

lemma sample_store_run: "(oms_step sample_sha)\<^sup>*\<^sup>* (NewStoreInstrumented DefaultLimits) sample_after"
  using sample_steps by (metis NewStore_def r_into_rtranclp rtranclp.rtrancl_into_rtrancl)

lemma sample_store_inv: "oms_inv sample_store"
  using oms_run.keep [OF _ sample_steps(1)] NewStoreInstrumented_inv by (simp add: NewStore_def)

text \<open>A late report of the submission, published after the fill: it moves the revision only.\<close>

definition sample_late :: order_publication where
  "sample_late =
     (let p = \<lparr>pu_id = 42, pu_expected_revision = 6, pu_expected_checkpoint = 1,
        pu_report = sample_report 26 ReportSubmitted 10 8, pu_fill = None,
        pu_next = sample_checkpoint (sample_order OrderFilled 7 10 8) 1 26 0, pu_checksum = 1, pu_raw = []\<rparr>
      in p\<lparr>pu_raw := canonicalOrderPublication p\<rparr>)"

lemma sample_late_simps [simp]:
  "pu_id sample_late = 42" "pu_expected_revision sample_late = 6"
  "pu_expected_checkpoint sample_late = 1" "pu_report sample_late = sample_report 26 ReportSubmitted 10 8"
  "pu_fill sample_late = None" "pu_next sample_late = sample_checkpoint (sample_order OrderFilled 7 10 8) 1 26 0"
  by (simp_all add: sample_late_def Let_def)

lemma sample_late_valid: "NewOrderPublication sample_sha sample_late = Inr sample_late"
  by (simp add: NewOrderPublication_def sample_late_def Let_def wrap_u64_def)
    (simp add: canonicalOrderPublication_def)

lemma sample_late_report:
  "ApplyExecutionReport sample_filled (sample_report 26 ReportSubmitted 10 8) None = Inr (sample_order OrderFilled 7 10 8)"
  by (simp add: sample_filled_def sample_defs report_defs i64_defs wrap_u64_def)

lemma sample_after_simps [simp]:
  "map_of (st_current sample_after) 1 = Some 6"
  "checkpoint_at sample_after 1 6 = sample_checkpoint sample_filled 1 25 35"
  "map_of (st_publications sample_after) 42 = None" "map_of (st_reports sample_after) 26 = None"
  "size_of (st_publications sample_after) = 1" "size_of (st_reports sample_after) = 2"
  "st_limits sample_after = DefaultLimits" "\<not> st_fail_before_commit sample_after"
  by (simp_all add: sample_after_def commit_publication_def commit_receipt_def Let_def sample_filled_def
      checkpoint_at_def get_or_def size_of_def put_def)

lemma sample_late_published:
  "PublishOrderEvent sample_sha (False, False) sample_late sample_after =
     (commit_publication sample_after sample_late (sample_order OrderFilled 7 10 8),
      Inr (commit_receipt sample_late (sample_order OrderFilled 7 10 8)))"
  by (simp add: PublishOrderEvent_def sample_late_valid admit_publication_def sample_late_report DefaultLimits_def)

lemma sample_late_built: "publication_built sample_late"
  by (simp add: publication_built_def order_built_def order_wf_def OrderState_Validate_def i64_defs max_u64_def)
    (simp_all add: sample_defs)

section \<open>Committed publications are kept\<close>

lemma commit_receipt_status [simp]: "rc_status (commit_receipt v nx) = RegistrationCommitted"
  by (simp add: commit_receipt_def)

lemma oms_commits_iff: "oms.commits x \<longleftrightarrow> (\<exists>r. x = Inr r \<and> rc_status r = RegistrationCommitted)"
  by (cases x) (simp_all add: oms.commits_def)

lemma oms_step_publications:
  assumes "oms_step sha st st'" "map_of (st_publications st) pid = Some e"
  shows "map_of (st_publications st') pid = Some e"
  using assms(1)
proof cases
  case (register ctx intent plan orders x)
  from register(1) show ?thesis by (rule RegisterPlan_cases) (use assms(2) in simp_all)
next
  case (publish ctx p x)
  from publish(1) show ?thesis
    by (rule PublishOrderEvent_cases) (use assms(2) in \<open>auto simp: commit_publication_def Let_def has_def\<close>)
next
  case (restore_order ctx c reports fills x)
  from restore_order(1) show ?thesis
    by (rule RestoreOrder_cases) (use assms(2) in \<open>simp_all add: place_checkpoint_views\<close>)
next
  case (restore_plan ctx intent plan cs reports fills x)
  from restore_plan(1) show ?thesis by (rule RestorePlan_cases) (use assms(2) in simp_all)
next
  case (set_fail b)
  with assms(2) show ?thesis by (simp add: SetFailBeforeCommitForTest_def)
qed

interpretation oms_publications: step_invariant "oms_step sha" "\<lambda>st. map_of (st_publications st) pid = Some e"
  for sha pid e
  by unfold_locales (rule oms_step_publications)

text \<open>The iteration order of \<open>store.current\<close> does not show in the sorted queries.\<close>

lemma current_orders_ids:
  assumes "oms_inv st" "gomap_wf (st_current st)"
  shows "inj_on ord_id (set (current_orders st))"
proof -
  have "ord_id (oc_order (checkpoint_at st oid n)) = oid" if "(oid, n) \<in> set (st_current st)" for oid n
  proof -
    from that assms(2) have "map_of (st_current st) oid = Some n" by (simp add: gomap_wf_def)
    then have "head_ok st oid n" by (rule oms_invD(2) [OF assms(1)])
    then show ?thesis by (auto simp: head_ok_def oms_history_def checkpoint_at_def)
  qed
  then have "map ord_id (current_orders st) = map fst (st_current st)"
    by (auto simp: current_orders_def)
  with assms(2) show ?thesis by (metis distinct_map gomap_wf_def)
qed

lemma sorted_current_orders:
  assumes "oms_inv st" "gomap_wf (st_current st)" "mset cur = mset (st_current st)"
  shows "sort_key (\<lambda>v. digest_string (ord_id v)) (filter P (current_orders (st\<lparr>st_current := cur\<rparr>))) =
    sort_key (\<lambda>v. digest_string (ord_id v)) (filter P (current_orders st))"
proof (rule sort_distinct_keys [symmetric])
  have "mset (current_orders (st\<lparr>st_current := cur\<rparr>)) = mset (current_orders st)"
    by (simp add: current_orders_def checkpoint_at_def assms(3))
  then show "mset (filter P (current_orders st)) = mset (filter P (current_orders (st\<lparr>st_current := cur\<rparr>)))"
    by simp
  show "inj_on (\<lambda>v. digest_string (ord_id v)) (set (filter P (current_orders st)))"
    using current_orders_ids [OF assms(1,2)] by (auto simp: inj_on_def digest_string_inject)
qed

lemma registered_orders:
  "registered_checkpoints sha plan legs orders = Inr (legs', cs) \<Longrightarrow>
     map oc_order cs = orders \<and> (\<forall>c \<in> set cs. revision_of (oc_order c) = 1)"
  by (induction sha plan legs orders arbitrary: legs' cs rule: registered_checkpoints.induct)
    (auto dest!: NewOrderCheckpoint_Inr simp: genesis_checkpoint_def split: if_splits)

lemma registered_order_read:
  assumes "registered_checkpoints sha plan [] orders = Inr (legs, cs)" "distinct (map ord_id orders)" "ord \<in> set orders"
    "st_current st' = st_current (fold place_checkpoint cs st)"
    "st_checkpoints st' = st_checkpoints (fold place_checkpoint cs st)"
  shows "OMS_Order (False, False) (ord_id ord) st' = Inr ord"
proof -
  note r = registered_orders [OF assms(1)]
  from r assms(3) obtain c where c: "c \<in> set cs" "oc_order c = ord" by (metis (no_types, lifting) in_set_conv_nth length_map nth_map)
  have "distinct (map order_of cs)" using r assms(2) by (metis (no_types, lifting) map_map comp_def map_eq_conv)
  from fold_place_new [OF this c(1), of st "revision_of ord"] c(2)
  show ?thesis
    by (simp add: OMS_Order_def CurrentOrderCheckpoint_def checkpoint_at_def assms(4,5) oms_history_def)
qed

lemma other_order_read:
  assumes "\<forall>c \<in> set cs. \<not> has (st_current st) (order_of c)" "OMS_Order (False, False) oid st = Inr ord"
    "st_current st' = st_current (fold place_checkpoint cs st)"
    "st_checkpoints st' = st_checkpoints (fold place_checkpoint cs st)"
  shows "OMS_Order (False, False) oid st' = Inr ord"
proof -
  from assms(2) obtain n where n: "map_of (st_current st) oid = Some n" "oc_order (checkpoint_at st oid n) = ord"
    by (auto simp: OMS_Order_def CurrentOrderCheckpoint_def split: option.splits)
  then have "oid \<notin> set (map order_of cs)" using assms(1) by (auto simp: has_def)
  note o = fold_place_other [OF this, of st n]
  have "checkpoint_at st' oid n = checkpoint_at st oid n"
    using o by (simp add: checkpoint_at_def oms_history_def assms(4) get_or_def)
  with o n show ?thesis by (simp add: OMS_Order_def CurrentOrderCheckpoint_def assms(3))
qed

subsection \<open>Restored reports\<close>

lemma restore_reports_Inr:
  "restore_reports known reports rm = Inr rm' \<Longrightarrow> \<forall>x. map_of rm i = Some x \<longrightarrow> er_raw x = b \<Longrightarrow>
     (\<forall>r \<in> set reports. er_id r = i \<longrightarrow> er_raw r = b) \<Longrightarrow> has rm i \<or> (\<exists>r \<in> set reports. er_id r = i) \<Longrightarrow>
     \<exists>x. map_of rm' i = Some x \<and> er_raw x = b"
proof (induction known reports rm rule: restore_reports.induct)
  case (2 known r reports rm)
  then have step: "restore_reports known reports (put (er_id r) r rm) = Inr rm'"
    by (auto split: if_splits)
  show ?case
    using "2.prems" by (intro "2.IH" [OF _ _ step]) (auto split: if_splits)
qed (auto simp: has_def)

lemma restore_reports_same:
  "restore_reports known reports rm = Inr rm' \<Longrightarrow> map_of rm (er_id r) = Some x \<Longrightarrow> r \<in> set reports \<Longrightarrow>
     er_raw r = er_raw x"
proof (induction known reports rm arbitrary: x rule: restore_reports.induct)
  case (2 known s reports rm)
  then have step: "restore_reports known reports (put (er_id s) s rm) = Inr rm'"
    and same: "er_id s = er_id r \<Longrightarrow> er_raw x = er_raw s" by (auto split: if_splits option.splits)
  show ?case
  proof (cases "r \<in> set reports")
    case True
    show ?thesis
      using "2.IH" [OF _ _ step _ True, of "if er_id s = er_id r then s else x"] "2.prems" same
      by (auto split: if_splits)
  qed (use "2.prems" same in auto)
qed simp

lemma restore_reports_wf: "restore_reports known reports rm = Inr rm' \<Longrightarrow> gomap_wf rm \<Longrightarrow> gomap_wf rm'"
  by (induction known reports rm rule: restore_reports.induct) (auto split: if_splits)

lemma restore_reports_agree:
  "restore_reports known reports rm = Inr rm' \<Longrightarrow> a \<in> set reports \<Longrightarrow> b \<in> set reports \<Longrightarrow> er_id a = er_id b \<Longrightarrow>
     er_raw a = er_raw b"
proof (induction known reports rm rule: restore_reports.induct)
  case (2 known c reports rm)
  then have step: "restore_reports known reports (put (er_id c) c rm) = Inr rm'"
    and ih: "a \<in> set reports \<Longrightarrow> b \<in> set reports \<Longrightarrow> er_raw a = er_raw b" by (auto split: if_splits)
  have first: "er_raw d = er_raw c" if "d \<in> set reports" "er_id d = er_id c" for d
    using restore_reports_same [OF step, of d c] that by simp
  consider "a = c" "b = c" | "a = c" "b \<in> set reports" | "a \<in> set reports" "b = c" | "a \<in> set reports" "b \<in> set reports"
    using "2.prems"(2,3) by auto
  then show ?case
    using first [of a] first [of b] ih "2.prems"(4) by cases simp_all
qed simp

lemma restored_report_stored:
  assumes "restore_reports known reports [] = Inr rm" "r \<in> set reports"
  shows "\<exists>x. map_of rm (er_id r) = Some x \<and> er_raw x = er_raw r"
proof (rule restore_reports_Inr [OF assms(1)])
  show "\<forall>s \<in> set reports. er_id s = er_id r \<longrightarrow> er_raw s = er_raw r"
    using restore_reports_agree [OF assms(1)] assms(2) by blast
qed (use assms(2) in auto)

section \<open>Samples of restored reports and fills\<close>

definition sample_retry :: order_publication where
  "sample_retry =
     (let p = \<lparr>pu_id = 43, pu_expected_revision = 4, pu_expected_checkpoint = 1,
        pu_report = sample_report 21 ReportPartialFill 6 5, pu_fill = Some (sample_fill 31 21 6 5),
        pu_next = sample_partial, pu_checksum = 1, pu_raw = []\<rparr>
      in p\<lparr>pu_raw := canonicalOrderPublication p\<rparr>)"

lemma sample_retry_valid: "NewOrderPublication sample_sha sample_retry = Inr sample_retry"
  by (simp add: NewOrderPublication_def sample_retry_def sample_partial_def Let_def wrap_u64_def)
    (simp add: canonicalOrderPublication_def)


section \<open>Properties\<close>



text \<open>
  C12: all or nothing. An operation of the store that returns an error leaves the store as it was:
  registering a plan, restoring an order or a plan, and publishing an order event.
\<close>

theorem store_atomic_on_error:
  "(RegisterPlan sha ctx intent plan orders st = (st1, Inl e) \<longrightarrow> st1 = st) \<and>
   (RestoreOrder sha ctx c reports fills st = (st2, Inl e) \<longrightarrow> st2 = st) \<and>
   (RestorePlan sha ctx intent plan cs reports fills st = (st3, Inl e) \<longrightarrow> st3 = st) \<and>
   (PublishOrderEvent sha ctx p st = (st4, Inl e) \<longrightarrow> st4 = st)"
  by (auto elim!: RegisterPlan_cases RestoreOrder_cases RestorePlan_cases PublishOrderEvent_cases)

theorem store_atomic_on_error_witness:
  "PublishOrderEvent sample_sha (False, True) sample_publication sample_store = (sample_store, Inl ContextDone) \<and>
   sample_store = sample_store"
proof -
  have "PublishOrderEvent sample_sha (False, True) sample_publication sample_store = (sample_store, Inl ContextDone)"
    by (simp add: PublishOrderEvent_def sample_publication_valid)
  with store_atomic_on_error [of sample_sha "(False, True)" sample_intent sample_plan "[]" sample_store sample_store
      ContextDone sample_partial "[]" "[]" sample_store "[]" sample_store sample_publication sample_store]
  show ?thesis by blast
qed

text \<open>
  C13: publishing is idempotent for good. Once a publication is committed, publishing it again in any
  later state of the store changes nothing and returns the receipt of the commit, marked idempotent.
\<close>

theorem publish_idempotent:
  assumes "PublishOrderEvent sha ctx p st = (st1, Inr r)" "rc_status r = RegistrationCommitted"
    "(oms_step sha)\<^sup>*\<^sup>* st1 st2"
  shows "PublishOrderEvent sha (False, False) p st2 = (st2, Inr (r\<lparr>rc_status := RegistrationIdempotent\<rparr>))"
  using assms(1)
proof (cases rule: PublishOrderEvent_cases)
  case unchanged
  with assms(2) show ?thesis by auto
next
  case (commit v nx)
  let ?e = "\<lparr>spu_value = v, spu_receipt = r, spu_canonical = pu_raw v\<rparr>"
  have "map_of (st_publications st1) (pu_id v) = Some ?e"
    using commit by (simp add: commit_publication_def Let_def)
  then have "map_of (st_publications st2) (pu_id v) = Some ?e"
    by (rule oms_publications.reach_inv [OF assms(3)])
  with commit(1) show ?thesis by (simp add: PublishOrderEvent_def)
qed

theorem publish_idempotent_witness:
  "PublishOrderEvent sample_sha (False, False) sample_publication sample_after =
     (sample_after, Inr ((commit_receipt sample_publication sample_filled)\<lparr>rc_status := RegistrationIdempotent\<rparr>))"
  by (rule publish_idempotent [OF sample_published]) simp_all

text \<open>
  C14: no lost updates. However competing writers interleave, two committed publications for one order
  were computed from different revisions, the later commit from a later revision: an event computed from
  an outdated order is never committed.
\<close>

theorem publish_no_lost_update:
  assumes "run_ops (\<lambda>(ctx, p). PublishOrderEvent sha ctx p) ps st = (st', xs)" "oms_inv st"
    "\<forall>(ctx, p) \<in> set ps. publication_built p" "i < j" "j < length ps"
    "ers_order (er_spec (pu_report (snd (ps ! i)))) = ers_order (er_spec (pu_report (snd (ps ! j))))"
    "xs ! i = Inr ri" "rc_status ri = RegistrationCommitted" "xs ! j = Inr rj" "rc_status rj = RegistrationCommitted"
  shows "pu_expected_revision (snd (ps ! i)) < pu_expected_revision (snd (ps ! j))"
proof -
  have "(\<lambda>(_, p). pu_expected_revision p) (ps ! i) < (\<lambda>(_, p). pu_expected_revision p) (ps ! j)"
    by (rule oms.no_lost_update [OF assms(1,2) _ assms(4,5)])
      (use assms(3,6-10) in \<open>auto simp: oms_commits_iff split_beta\<close>)
  then show ?thesis by (simp add: split_beta)
qed

theorem publish_no_lost_update_witness:
  "pu_expected_revision (snd ((False, False), sample_publication)) < pu_expected_revision (snd ((False, False), sample_late))"
proof -
  let ?ps = "[((False, False), sample_publication), ((False, False), sample_late)]"
  obtain st where run: "run_ops (\<lambda>(ctx, p). PublishOrderEvent sample_sha ctx p) ?ps sample_store =
      (st, [Inr (commit_receipt sample_publication sample_filled),
            Inr (commit_receipt sample_late (sample_order OrderFilled 7 10 8))])"
    by (simp add: sample_published sample_late_published)
  have "pu_expected_revision (snd (?ps ! 0)) < pu_expected_revision (snd (?ps ! 1))"
    by (rule publish_no_lost_update [OF run sample_store_inv,
        where ri = "commit_receipt sample_publication sample_filled" and
          rj = "commit_receipt sample_late (sample_order OrderFilled 7 10 8)"])
      (simp_all add: sample_publication_built sample_late_built)
  then show ?thesis by simp
qed

text \<open>
  Revisions count commits and history is append only. Over any sequence of publications the current
  revision of an order grows by exactly the number of commits for it, and a checkpoint once stored stays
  what it was.
\<close>

theorem publish_history_append_only:
  assumes "run_ops (\<lambda>(ctx, p). PublishOrderEvent sha ctx p) ps st = (st', xs)" "oms_inv st"
    "\<forall>(ctx, p) \<in> set ps. publication_built p"
  shows "oms_head st' oid = oms_head st oid +
       length (filter (\<lambda>((ctx, p), x). ers_order (er_spec (pu_report p)) = oid \<and>
         (\<exists>r. x = Inr r \<and> rc_status r = RegistrationCommitted)) (zip ps xs)) \<and>
     (\<forall>n c. oms_history st oid n = Some c \<longrightarrow> oms_history st' oid n = Some c)"
proof -
  have adm: "\<forall>p \<in> set ps. (publication_built \<circ> snd) p" using assms(3) by auto
  have "filter (\<lambda>(p, x). (\<lambda>(_, p). ers_order (er_spec (pu_report p))) p = oid \<and>
        oms.commits x) (zip ps xs) =
      filter (\<lambda>((ctx, p), x). ers_order (er_spec (pu_report p)) = oid \<and>
        (\<exists>r. x = Inr r \<and> rc_status r = RegistrationCommitted)) (zip ps xs)"
    by (intro filter_cong) (auto simp: oms_commits_iff)
  with oms.run_head [OF assms(1,2) adm, of oid] oms.run_history [OF assms(1,2) adm, of oid] show ?thesis
    by auto
qed

theorem publish_history_append_only_witness:
  "oms_history sample_store 1 5 = Some sample_partial \<and> oms_history sample_after 1 5 = Some sample_partial"
proof -
  have h: "oms_history sample_store 1 5 = Some sample_partial" by (simp add: oms_history_def get_or_def)
  have "run_ops (\<lambda>(ctx, p). PublishOrderEvent sample_sha ctx p) [((False, False), sample_publication)] sample_store =
      (sample_after, [Inr (commit_receipt sample_publication sample_filled)])"
    by (simp add: sample_published)
  from publish_history_append_only [OF this sample_store_inv] h sample_publication_built show ?thesis by auto
qed

text \<open>
  C15: the configured limits hold in every reachable state: plans, orders, publications, reports and fills
  never exceed what the store was created with.
\<close>

theorem store_limits_hold:
  assumes "(oms_step sha)\<^sup>*\<^sup>* (NewStoreInstrumented lim) st"
  shows "oms_bounded st"
  using oms_limits.reach_inv [OF assms NewStoreInstrumented_bounded] .

theorem store_limits_hold_witness: "oms_bounded sample_after"
  using store_limits_hold [OF sample_store_run] .

text \<open>
  C18: what a registration stores can be read back. After a committed \<open>RegisterPlan\<close> the plan and the
  intent's orders are found under their identities, exactly as given, and every order the store had before
  still reads the same.
\<close>

theorem register_then_read:
  assumes "RegisterPlan sha ctx intent plan orders st = (st', Inr RegistrationCommitted)" "distinct (map ord_id orders)"
  shows "OMS_Plan (False, False) (op_id plan) st' = Inr plan \<and>
     (\<forall>ord \<in> set orders. OMS_Order (False, False) (ord_id ord) st' = Inr ord) \<and>
     (\<forall>oid ord. OMS_Order (False, False) oid st = Inr ord \<longrightarrow> OMS_Order (False, False) oid st' = Inr ord)"
  using assms(1)
proof (cases rule: RegisterPlan_cases)
  case (commit legs cs stored)
  have "OMS_Plan (False, False) (op_id plan) st' = Inr plan" using commit by (simp add: OMS_Plan_def)
  with commit assms(2) show ?thesis by (auto intro: registered_order_read other_order_read)
qed auto

text \<open>Registering the sample plan in an empty store.\<close>

lemma sample_registered:
  "\<exists>st. RegisterPlan sample_sha (False, False) sample_intent sample_plan [sample_created] NewStore =
     (st, Inr RegistrationCommitted)"
  by (simp add: RegisterPlan_def NewOrderCheckpoint_def genesis_checkpoint_def Let_def NewStore_def
      NewStoreInstrumented_def DefaultLimits_def size_of_def)

theorem register_then_read_witness:
  "\<exists>st. OMS_Order (False, False) 1 st = Inr sample_created"
proof -
  obtain st where "RegisterPlan sample_sha (False, False) sample_intent sample_plan [sample_created] NewStore =
     (st, Inr RegistrationCommitted)" using sample_registered by blast
  from register_then_read [OF this] show ?thesis by auto
qed

text \<open>
  The answers of the sorted queries do not depend on the iteration order of Go's maps: whatever order
  the entries of the current-revision map come in, the orders of a plan and the non-terminal orders are
  the same lists.
\<close>

theorem queries_order_independent:
  assumes "oms_inv st" "gomap_wf (st_current st)" "mset cur = mset (st_current st)"
  shows "OrdersForPlan ctx pid (st\<lparr>st_current := cur\<rparr>) = OrdersForPlan ctx pid st \<and>
     NonTerminalOrders ctx limit (st\<lparr>st_current := cur\<rparr>) = NonTerminalOrders ctx limit st"
  by (simp add: OrdersForPlan_def NonTerminalOrders_def sorted_current_orders [OF assms])

theorem queries_order_independent_witness:
  "OrdersForPlan (False, False) 1 (sample_store\<lparr>st_current := [(1, 5)]\<rparr>) = OrdersForPlan (False, False) 1 sample_store"
  using queries_order_independent [OF sample_store_inv, of "[(1, 5)]" "(False, False)" 1]
  by (simp add: gomap_wf_def)

text \<open>
  C16: a deviation from the documented contract. After a plan is restored into an empty store, retrying one
  of the restored reports with its fill under a new publication is refused as an identity collision
  of the fill, although report and fill are byte for byte the restored ones: the receipts of restored
  reports are not rebuilt.
\<close>

theorem restored_report_retry_refused:
  assumes "RestorePlan sha ctx intent plan cs reports fills (NewStoreInstrumented lim) = (st, Inr RegistrationCommitted)"
    and "NewOrderPublication sha p = Inr v" "pu_report v \<in> set reports" "pu_fill v = Some f" "fl_id f \<noteq> 0"
  shows "PublishOrderEvent sha (False, False) p st =
     (st, Inl (Oms (IdentityCollisionError ''fill'' (digest_string (fl_id f)))))"
  using assms(1)
proof (cases rule: RestorePlan_cases)
  case (commit ids vs rm fm tot stored)
  have wf: "gomap_wf rm" using restore_reports_wf [OF commit(17)] by simp
  have "st_reports st = rm" using commit(13) wf by (simp add: NewStoreInstrumented_def put_all_fresh)
  with restored_report_stored [OF commit(17) assms(3)] obtain x where
    "map_of (st_reports st) (er_id (pu_report v)) = Some x" "er_raw x = er_raw (pu_report v)" by blast
  with commit(15,18) assms show ?thesis
    by (simp add: PublishOrderEvent_def replayed_report_def NewStoreInstrumented_def zero_receipt_def get_or_def)
qed simp_all

theorem restored_report_retry_refused_witness:
  "PublishOrderEvent sample_sha (False, False) sample_retry sample_store =
     (sample_store, Inl (Oms (IdentityCollisionError ''fill'' (digest_string 31))))"
proof -
  have f: "pu_report sample_retry \<in> set sample_reports" "pu_fill sample_retry = Some (sample_fill 31 21 6 5)"
    by (simp_all add: sample_retry_def sample_reports_def Let_def)
  have "fl_id (sample_fill 31 21 6 5) \<noteq> 0" by simp
  from restored_report_retry_refused [OF sample_restore [unfolded NewStore_def] sample_retry_valid f this]
  show ?thesis by simp
qed


end
