(* ===== verification/Claims_Accounting.thy ===== *)
theory Claims_Accounting
  imports Acct_Restore Claims_Oms
begin

text \<open>
  The properties of position accounting: the engine against weighted-average-cost accounting over the
  integers, and the position store, its coordinator and the replay of fills.
\<close>

section \<open>Sample fills\<close>

definition sample_afill :: "side \<Rightarrow> digest \<Rightarrow> int \<Rightarrow> int \<Rightarrow> instant \<Rightarrow> accounting_fill" where
  "sample_afill side fid quantity price t =
     (let spec = \<lparr>afs_schema = ''accounting-fill/v1'',
            afs_fill = \<lparr>fl_id = fid, fl_spec = (fl_spec (sample_fill fid 21 quantity t))
                \<lparr>fs_price := \<lparr>price_minor = price, price_currency = ''INR''\<rparr>\<rparr>, fl_raw = ''{}''\<rparr>,
            afs_portfolio = 3, afs_instrument = 4, afs_side = side, afs_received = t\<rparr>
      in \<lparr>af_spec = spec, af_position = 1, af_ordering = \<lparr>ok_occurred = t, ok_received = t, ok_fill = fid\<rparr>,
          af_checksum = 1, af_raw = canonicalAccountingFill spec 1\<rparr>)"

lemma sample_afill_fields [simp]:
  "af_position (sample_afill s i q p t) = 1" "fl_id (af_fill (sample_afill s i q p t)) = i"
  "fill_qty (sample_afill s i q p t) = q" "fill_price (sample_afill s i q p t) = p"
  "fill_currency (sample_afill s i q p t) = ''INR''" "fill_side (sample_afill s i q p t) = s"
  "af_ordering (sample_afill s i q p t) = \<lparr>ok_occurred = t, ok_received = t, ok_fill = i\<rparr>"
  "fill_is_zero (sample_afill s i q p t) \<longleftrightarrow> i = 0"
  by (simp_all add: sample_afill_def sample_fill_def Let_def fill_is_zero_def)

lemma sample_sha_nonzero: "sha_nonzero sample_sha"
  by (simp add: sha_nonzero_def sample_sha_def)

lemma NewCurrency_INR [simp]: "NewCurrency ''INR'' = Inr ''INR''"
  by code_simp

lemma state_checksum_acct_sample:
  "s \<noteq> [] \<Longrightarrow> trim_space d \<noteq> [] \<Longrightarrow> state_checksum_acct sample_sha d s = 1"
  by (simp add: state_checksum_acct_def NewStateChecksum_acct_def)

lemma sample_afill_built:
  assumes "s = SideBuy \<or> s = SideSell" "i \<noteq> 0" "0 < q" "in_i64 q" "0 < p" "in_i64 p" "t \<noteq> 0"
  shows "fill_built sample_sha (sample_afill s i q p t)"
proof -
  have "trim_space ''accounting-fill/v1'' = ''accounting-fill/v1''" "trim_space ''accounting-fill-checksum/v1'' \<noteq> []"
    by code_simp+
  moreover have "digest_string a \<noteq> []" for a
    by (metis length_digest_string list.size(3) numeral_neq_zero)
  ultimately have "NewAccountingFill sample_sha (af_spec (sample_afill s i q p t)) = Inr (sample_afill s i q p t)"
    using assms
    by (auto simp: NewAccountingFill_def sample_afill_def sample_fill_def NewFillOrderingKey_def NewPositionID_def validParts_def
        quantity_is_valid_def price_is_zero_value_def state_checksum_acct_sample canonicalAccountingFill_def Let_def)
  with assms show ?thesis by (auto simp: fill_built_def)
qed

abbreviation sample_buy :: accounting_fill where
  "sample_buy \<equiv> sample_afill SideBuy 1 10 100 5"

abbreviation sample_sell :: accounting_fill where
  "sample_sell \<equiv> sample_afill SideSell 2 4 110 6"

lemma sample_fills_built: "fill_built sample_sha sample_buy" "fill_built sample_sha sample_sell"
  by (simp_all add: sample_afill_built i64_defs)

lemma sample_buy_acceptable: "fill_acceptable None sample_buy"
  by (simp add: fill_acceptable_def check_current_def currency_matches_def base_spec_def opening_spec_def
      money_or_zero_eq fill_fits_def totals_fit_def fill_delta_def signed_quantity_def ledger_step_def ledger_fits_def
      i64_defs max_u64_def)

lemma sample_opened:
  obtains r where "Apply sample_sha None sample_buy = Inr r" "position_ok sample_sha (ar_snapshot r)"
    "pn_net (ps_spec (ar_snapshot r)) = 10" "minor (pn_basis (ps_spec (ar_snapshot r))) = 1000"
    "fill_acceptable (Some (ar_snapshot r)) sample_sell"
proof -
  obtain r where r: "Apply sample_sha None sample_buy = Inr r"
    using Apply_iff [OF sample_sha_nonzero sample_fills_built(1), of None] sample_buy_acceptable
    by (auto simp: current_ok_def)
  have ok: "position_ok sample_sha (ar_snapshot r)" "applied sample_buy (base_spec None sample_buy) (ps_spec (ar_snapshot r))"
    using Apply_ok [OF r sample_fills_built(1)] by (auto simp: current_ok_def)
  let ?s = "ps_spec (ar_snapshot r)"
  have s: "pn_net ?s = 10" "minor (pn_basis ?s) = 1000" "pn_fill_count ?s = 1" "pn_position ?s = 1"
    "pn_last_key ?s = \<lparr>ok_occurred = 5, ok_received = 5, ok_fill = 1\<rparr>" "minor (pn_realized ?s) = 0"
    "pn_sold_quantity ?s = 0" "minor (pn_sold_value ?s) = 0"
    using ok(2) by (auto simp: applied_def base_spec_def opening_spec_def money_or_zero_eq fill_delta_def
        signed_quantity_def ledger_step_def Let_def)
  moreover have "money_currency (pn_basis ?s) = ''INR''"
    using Apply_effect [OF r sample_fills_built(1)] by (simp add: current_ok_def spec_ok_def)
  ultimately have "fill_acceptable (Some (ar_snapshot r)) sample_sell"
    by (simp add: fill_acceptable_def check_current_def currency_matches_def base_spec_def Compare_def
        fill_fits_def totals_fit_def fill_delta_def signed_quantity_def ledger_step_def ledger_fits_def i64_defs max_u64_def)
  with that r ok s show thesis by blast
qed

lemma sample_fills_run:
  "\<exists>ps. apply_fills sample_sha None [sample_buy, sample_sell] = Inr (Some ps)"
proof -
  obtain r where r: "Apply sample_sha None sample_buy = Inr r" "position_ok sample_sha (ar_snapshot r)"
    "fill_acceptable (Some (ar_snapshot r)) sample_sell" by (rule sample_opened)
  obtain r' where "Apply sample_sha (Some (ar_snapshot r)) sample_sell = Inr r'"
    using Apply_iff [OF sample_sha_nonzero sample_fills_built(2), of "Some (ar_snapshot r)"] r(2,3)
    by (auto simp: current_ok_def)
  with r(1) show ?thesis by simp
qed

section \<open>The engine\<close>

text \<open>
  C18: the checked int64 arithmetic of \<open>transition\<close> is weighted-average-cost accounting. For every valid
  input it returns exactly the step of the integer specification when all its amounts fit into an int64,
  and the overflow error otherwise: no intermediate result ever wraps around.
\<close>

theorem transition_is_exact:
  assumes "valid_transition_input net basis side q p"
  shows "transition net basis side q p =
    (let t = ledger_step net basis (signed_quantity side q) p in if ledger_fits p t then Inr t else Inl overflow)"
  using assms by (rule transition_exact)

theorem transition_is_exact_witness:
  "transition 10 1000 SideSell 4 110 = Inr \<lparr>tr_net = 6, tr_basis = 600, tr_closed = 4, tr_opened = 0,
     tr_allocated = 400, tr_realized = 40\<rparr> \<and>
   transition (max_i64 - 1) 1 SideBuy 2 1 = Inl overflow"
proof -
  have "valid_transition_input 10 1000 SideSell 4 110" "valid_transition_input (max_i64 - 1) 1 SideBuy 2 1"
    by (simp_all add: valid_transition_input_def i64_defs)
  from this [THEN transition_is_exact] show ?thesis
    by (simp add: ledger_step_def ledger_fits_def signed_quantity_def i64_defs)
qed

text \<open>
  C19: a position is the exact value of its fills. Whatever sequence of fills is applied from an empty
  position, net quantity, cost and realized amount are those of the specification run on the signed
  quantities and prices, bought and sold value are the sums over the fills, the realized amount is what
  was sold less what was bought plus the signed cost of what is still open, and therefore the whole
  profit when the position is flat.
\<close>

theorem position_refines_ledger:
  assumes "apply_fills sha None fs = Inr res" "fs \<noteq> []" "\<forall>f \<in> set fs. fill_built sha f"
  shows "\<exists>ps. res = Some ps \<and> position_ok sha ps \<and>
    ledger_view (ps_spec ps) = ledger_run (0, 0, 0) (map (\<lambda>f. (fill_delta f, fill_price f)) fs) \<and>
    minor (pn_bought_value (ps_spec ps)) = bought_value fs \<and> minor (pn_sold_value (ps_spec ps)) = sold_value fs \<and>
    pn_fill_count (ps_spec ps) = length fs \<and>
    pn_net (ps_spec ps) = pn_bought_quantity (ps_spec ps) - pn_sold_quantity (ps_spec ps) \<and>
    minor (pn_realized (ps_spec ps)) =
      sold_value fs - bought_value fs + sgn (pn_net (ps_spec ps)) * minor (pn_basis (ps_spec ps)) \<and>
    (pn_net (ps_spec ps) = 0 \<longrightarrow> minor (pn_realized (ps_spec ps)) = sold_value fs - bought_value fs)"
  using apply_fills_run [OF assms] by (auto simp: position_ok_def ledger_ok_def)

theorem position_refines_ledger_witness:
  "\<exists>ps. apply_fills sample_sha None [sample_buy, sample_sell] = Inr (Some ps) \<and>
     ledger_view (ps_spec ps) = (6, 600, 40)"
proof -
  obtain ps where ps: "apply_fills sample_sha None [sample_buy, sample_sell] = Inr (Some ps)" using sample_fills_run by blast
  from position_refines_ledger [OF ps] sample_fills_built
  have "ledger_view (ps_spec ps) = ledger_run (0, 0, 0) [(10, 100), (-4, 110)]"
    by (simp add: fill_delta_def signed_quantity_def)
  with ps show ?thesis by (auto simp: ledger_step_def Let_def)
qed

text \<open>
  C20: a fill is accepted exactly when it continues the position in canonical order and currency and every
  amount of the step fits; in particular nothing but overflow stops a fill that is in order.
\<close>

theorem fill_accepted_iff:
  assumes "sha_nonzero sha" "fill_built sha f" "\<not> fill_is_zero f" "current_ok sha current"
  shows "(\<exists>r. Apply sha current f = Inr r) \<longleftrightarrow> fill_acceptable current f"
  using assms by (rule Apply_iff)

theorem fill_accepted_iff_witness:
  "(\<exists>r. Apply sample_sha None sample_buy = Inr r) \<and> (\<nexists>r. Apply sample_sha None (sample_afill SideBuy 1 max_i64 2 5) = Inr r)"
proof -
  have "current_ok sample_sha None" "fill_built sample_sha (sample_afill SideBuy 1 max_i64 2 5)"
    by (simp_all add: current_ok_def sample_afill_built i64_defs)
  moreover have "\<not> fill_acceptable None (sample_afill SideBuy 1 max_i64 2 5)"
    by (simp add: fill_acceptable_def fill_fits_def totals_fit_def i64_defs Let_def)
  ultimately show ?thesis
    using fill_accepted_iff [OF sample_sha_nonzero, of _ None] sample_fills_built(1) sample_buy_acceptable by simp
qed

lemma apply_fills_last:
  assumes "apply_fills sha (Some c) fs = Inr res" "position_ok sha c" "\<forall>f \<in> set fs. fill_built sha f"
  shows "\<exists>ps. res = Some ps \<and> pn_position (ps_spec ps) = pn_position (ps_spec c) \<and>
    pn_last_key (ps_spec ps) = last (pn_last_key (ps_spec c) # map af_ordering fs) \<and>
    (\<forall>f \<in> set fs. af_position f = pn_position (ps_spec c) \<and> \<not> fill_is_zero f)"
  using assms
proof (induction fs arbitrary: c)
  case (Cons f fs)
  from Cons.prems(1) obtain r where r: "Apply sha (Some c) f = Inr r"
    "apply_fills sha (Some (ar_snapshot r)) fs = Inr res" by auto
  have cur: "current_ok sha (Some c)" and f: "fill_built sha f" using Cons.prems by (auto simp: current_ok_def)
  note k = Apply_key [OF r(1)] and ok = Apply_ok [OF r(1) f cur]
  have "\<not> fill_is_zero f" using r(1) by (auto simp: Apply_def)
  moreover have "pn_position (ps_spec (ar_snapshot r)) = af_position f" by (rule Apply_position [OF r(1) f cur])
  ultimately show ?case using Cons.IH [OF r(2)] ok k Cons.prems(3) by auto
qed auto

lemma refused_again:
  assumes "Compare (af_ordering f) (pn_last_key (ps_spec c)) \<le> 0" "pn_position (ps_spec c) = af_position f"
    "\<not> fill_is_zero f"
  shows "Apply sha (Some c) f = Inl (Accounting ErrOutOfOrderFill)"
  using assms by (simp add: Apply_def check_current_def fill_is_zero_def)

text \<open>
  C21: fills enter a position in strictly increasing canonical order (time of occurrence, time of receipt,
  identity), and none of them is ever accepted again: every fill that was applied is refused as out of
  order by the position it led to.
\<close>

theorem fills_enter_once:
  assumes "apply_fills sha None fs = Inr (Some ps)" "\<forall>f \<in> set fs. fill_built sha f"
  shows "sorted_wrt later fs \<and> (\<forall>f \<in> set fs. Apply sha (Some ps) f = Inl (Accounting ErrOutOfOrderFill))"
proof -
  have sorted: "sorted_wrt later fs" using apply_fills_sorted [OF assms(1)] by blast
  obtain g gs where fs: "fs = g # gs" using assms(1) by (cases fs) auto
  with assms(1) obtain r where r: "Apply sha None g = Inr r"
    "apply_fills sha (Some (ar_snapshot r)) gs = Inr (Some ps)" by auto
  have g: "fill_built sha g" "current_ok sha None" using assms(2) fs by (auto simp: current_ok_def)
  have ok: "position_ok sha (ar_snapshot r)" using Apply_ok [OF r(1) g] by blast
  have first: "pn_position (ps_spec (ar_snapshot r)) = af_position g" "\<not> fill_is_zero g"
    "pn_last_key (ps_spec (ar_snapshot r)) = af_ordering g"
    using Apply_position [OF r(1) g] Apply_key(1) [OF r(1)] r(1) by (auto simp: Apply_def)
  from apply_fills_last [OF r(2) ok] assms(2) fs first
  have last: "pn_last_key (ps_spec ps) = last (map af_ordering fs)" "pn_position (ps_spec ps) = af_position g"
    "\<forall>f \<in> set fs. af_position f = af_position g \<and> \<not> fill_is_zero f" by auto
  have "Compare (af_ordering f) (last (map af_ordering fs)) \<le> 0" if "f \<in> set fs" for f
  proof -
    have "f = last fs \<or> later f (last fs)"
      using that sorted fs by (metis append_butlast_last_id in_set_conv_decomp_last list.distinct(1)
          sorted_wrt_append UnE set_append empty_iff insert_iff list.set(1,2))
    then have "f = last fs \<or> Compare (af_ordering (last fs)) (af_ordering f) > 0" by (simp add: later_def)
    then show ?thesis using fs by (auto simp: last_map Compare_def split: if_splits)
  qed
  with last refused_again sorted show ?thesis by metis
qed

theorem fills_enter_once_witness:
  "\<exists>ps. apply_fills sample_sha None [sample_buy, sample_sell] = Inr (Some ps) \<and>
     Apply sample_sha (Some ps) sample_buy = Inl (Accounting ErrOutOfOrderFill) \<and>
     Apply sample_sha (Some ps) sample_sell = Inl (Accounting ErrOutOfOrderFill)"
proof -
  obtain ps where ps: "apply_fills sample_sha None [sample_buy, sample_sell] = Inr (Some ps)" using sample_fills_run by blast
  from fills_enter_once [OF ps] ps sample_fills_built show ?thesis by auto
qed

section \<open>The coordinator\<close>

lemma coord_reach_inv:
  assumes "NewCoordinator config = Inr c" "(coord_step sha)\<^sup>*\<^sup>* \<lparr>cs_store = empty_acct_store lim, cs_coord = c, cs_calls = []\<rparr> t"
  shows "coord_inv sha t"
  using coord.reach_inv [OF assms(2)] fresh_coord_inv [OF assms(1) empty_acct_store_inv] by blast

text \<open>A coordinator with one prepared call, reached from the empty store.\<close>

definition sample_coordinator :: coordinator where
  "sample_coordinator = \<lparr>co_config = DefaultConfig, co_running = [], co_closed = False, co_in_flight = 0, co_slots = 0\<rparr>"

lemma sample_coordinator_new: "NewCoordinator DefaultConfig = Inr sample_coordinator"
  by (simp add: NewCoordinator_def DefaultConfig_def sample_coordinator_def)

abbreviation sample_start :: coord_state where
  "sample_start \<equiv> \<lparr>cs_store = empty_acct_store DefaultLimits_acct, cs_coord = sample_coordinator, cs_calls = []\<rparr>"

lemma sample_prepared:
  obtains t p where "(coord_step sample_sha)\<^sup>*\<^sup>* sample_start t" "cs_store t = empty_acct_store DefaultLimits_acct"
    "Prepared sample_buy p \<in> set (cs_calls t)"
proof -
  let ?f = sample_buy and ?st = "empty_acct_store DefaultLimits_acct"
  let ?c1 = "sample_coordinator\<lparr>co_running := [(1, af_checksum sample_buy)], co_in_flight := 1\<rparr>"
  let ?s1 = "\<lparr>cs_store = ?st, cs_coord = ?c1, cs_calls = [Reserved ?f None]\<rparr>"
  let ?s2 = "\<lparr>cs_store = ?st, cs_coord = ?c1\<lparr>co_slots := 1\<rparr>, cs_calls = [Holding ?f None]\<rparr>"
  have 1: "coord_step sample_sha sample_start ?s1"
    using coord_step.enter [of ?f sample_start ?c1 sample_sha None] sample_fills_built(1)
    by (simp add: reserve_def sample_coordinator_def put_def)
  have 2: "coord_step sample_sha ?s1 ?s2"
    using coord_step.acquire [of ?s1 "[]" ?f None "[]" sample_sha]
    by (simp add: sample_coordinator_def DefaultConfig_def)
  have none: "current_of ?st 1 = None" by (simp add: current_of_def empty_acct_store_def)
  obtain r where "Apply sample_sha None ?f = Inr r" by (rule sample_opened)
  then obtain p where "prepare_from sample_sha ?f None None = Inr p"
    using prepare_from_succeeds [OF sample_sha_nonzero sample_fills_built(1), of None _ None] by (auto simp: checkpoint_ok_def)
  then have p: "prepare_publication sample_sha False ?f None ?st = Inr p"
    using none by (simp add: prepare_publication_current [OF empty_acct_store_inv])
  have "coord_step sample_sha ?s2 (?s2\<lparr>cs_calls := [Prepared ?f p]\<rparr>)"
    using coord_step.prepare [of ?s2 "[]" ?f None "[]" sample_sha p] p by simp
  with 1 2 have "(coord_step sample_sha)\<^sup>*\<^sup>* sample_start (?s2\<lparr>cs_calls := [Prepared ?f p]\<rparr>)"
    by (meson converse_rtranclp_into_rtranclp r_into_rtranclp)
  then show thesis by (rule that) simp_all
qed

text \<open>
  C22: money is conserved under concurrency. However the handlers of concurrent calls interleave, in every
  reachable state the totals of a position are those of the fills stored for it, its net quantity is what
  was bought less what was sold, and its realized amount is the cash flow plus the signed cost of the
  open quantity.
\<close>

theorem coordinator_conserves:
  assumes "NewCoordinator config = Inr c"
    "(coord_step sha)\<^sup>*\<^sup>* \<lparr>cs_store = empty_acct_store lim, cs_coord = c, cs_calls = []\<rparr> t"
    "Position (False, False) pid (cs_store t) = Inr (Some ps)"
  shows "let s = ps_spec ps; fs = ac_fills (cs_store t) in
    pn_bought_quantity s = fills_sum fill_qty fs pid True \<and> pn_sold_quantity s = fills_sum fill_qty fs pid False \<and>
    minor (pn_bought_value s) = fills_sum fill_value fs pid True \<and>
    minor (pn_sold_value s) = fills_sum fill_value fs pid False \<and>
    pn_net s = fills_sum fill_qty fs pid True - fills_sum fill_qty fs pid False \<and>
    minor (pn_realized s) = fills_sum fill_value fs pid False - fills_sum fill_value fs pid True +
      sgn (pn_net s) * minor (pn_basis s)"
proof -
  note inv = coord_invD(1) [OF coord_reach_inv [OF assms(1,2)]]
  from assms(3) obtain n cp where n: "map_of (ac_current (cs_store t)) pid = Some n"
    "acct_checkpoint (cs_store t) pid n = Some cp" "pc_snapshot cp = ps"
    by (auto simp: Position_def CurrentPositionCheckpoint_def split: option.splits dest!: sym [of "Some _"])
  from acct_invD(2) [OF inv n(1)] n(2,3) have "snapshot_made sha ps" "totals_match (ac_fills (cs_store t)) pid (ps_spec ps)"
    by (auto simp: position_head_ok_def)
  with snapshot_made_ok show ?thesis
    by (auto simp: position_ok_def ledger_ok_def totals_match_def Let_def dest!: snapshot_made_ok)
qed

lemma sample_committed:
  obtains t p r where "(coord_step sample_sha)\<^sup>*\<^sup>* sample_start t"
    "cs_store t = commit_position (empty_acct_store DefaultLimits_acct) p" "pp_fill p = sample_buy"
    "Apply sample_sha None sample_buy = Inr r" "pc_snapshot (pp_next p) = ar_snapshot r"
    "Position (False, False) 1 (cs_store t) = Inr (Some (ar_snapshot r))"
proof -
  let ?st = "empty_acct_store DefaultLimits_acct"
  obtain t p where t: "(coord_step sample_sha)\<^sup>*\<^sup>* sample_start t" "cs_store t = ?st" "Prepared sample_buy p \<in> set (cs_calls t)"
    by (rule sample_prepared)
  note inv = coord_reach_inv [OF sample_coordinator_new t(1)]
  have pf: "prepared_from sample_sha sample_buy None p"
    using coord_invD(4) [OF inv t(3)] by (simp add: t(2) current_of_def empty_acct_store_def)
  then obtain r where r: "Apply sample_sha None sample_buy = Inr r" "pc_snapshot (pp_next p) = ar_snapshot r"
    "pp_fill p = sample_buy" by (auto simp: prepared_from_def)
  have "room_for ?st 1" by (simp add: room_for_def empty_acct_store_def DefaultLimits_acct_def totalRevisions_def size_of_def)
  moreover have "check_ingestion ?st p = Inr ()"
    by (simp add: check_ingestion_def empty_acct_store_def split: option.splits)
  ultimately have "admit_position sample_sha ?st p = Inr ()"
    using publish_prepared(4) [OF inv t(3)] by (simp add: t(2) empty_acct_store_def)
  then have pub: "PublishPosition sample_sha (False, False) p ?st = (commit_position ?st p, Inr (position_receipt_of p))"
    using publish_prepared(1) [OF inv t(3)] by (simp add: PublishPosition_def empty_acct_store_def)
  from t(3) obtain xs ys where "cs_calls t = xs @ Prepared sample_buy p # ys" by (meson split_list)
  from coord_step.publish [OF this pub [folded t(2)]] obtain u where
    u: "coord_step sample_sha t u" "cs_store u = commit_position ?st p" by (auto simp: t(2))
  have "(coord_step sample_sha)\<^sup>*\<^sup>* sample_start u" using t(1) u(1) by simp
  moreover have "Position (False, False) 1 (cs_store u) = Inr (Some (ar_snapshot r))"
    using commit_position_queries(1) [of p ?st] r(2,3) by (simp add: u(2))
  ultimately show thesis using that u(2) r by blast
qed

theorem coordinator_conserves_witness:
  "\<exists>t ps. (coord_step sample_sha)\<^sup>*\<^sup>* sample_start t \<and> Position (False, False) 1 (cs_store t) = Inr (Some ps) \<and>
     pn_bought_quantity (ps_spec ps) = 10 \<and> pn_net (ps_spec ps) = 10"
proof -
  obtain t p and r :: apply_result where t: "(coord_step sample_sha)\<^sup>*\<^sup>* sample_start t"
    "cs_store t = commit_position (empty_acct_store DefaultLimits_acct) p" "pp_fill p = sample_buy"
    "Position (False, False) 1 (cs_store t) = Inr (Some (ar_snapshot r))" by (rule sample_committed)
  have "ac_fills (cs_store t) = [] @ [(1, \<lparr>sf_fill = sample_buy, sf_application = pp_application p\<rparr>)]"
    by (simp add: t(2,3) commit_position_views(4) empty_acct_store_def put_def)
  then have "fills_sum fill_qty (ac_fills (cs_store t)) 1 True = 10" "fills_sum fill_qty (ac_fills (cs_store t)) 1 False = 0"
    by (simp_all only: fills_sum_simps) simp_all
  with coordinator_conserves [OF sample_coordinator_new t(1,4)] t(1,4) show ?thesis by (auto simp: Let_def)
qed

text \<open>
  C23: the coordinator makes conflicts impossible. A publication that a handler has prepared is still based
  on the current checkpoint when it is published, whatever other handlers did in between: it is never
  refused with a revision conflict or as an invalid publication.
\<close>

theorem coordinator_never_conflicts:
  assumes "NewCoordinator config = Inr c"
    "(coord_step sha)\<^sup>*\<^sup>* \<lparr>cs_store = empty_acct_store lim, cs_coord = c, cs_calls = []\<rparr> t"
    "Prepared f p \<in> set (cs_calls t)" "PublishPosition sha ctx p (cs_store t) = (st', x)"
  shows "x \<noteq> Inl (AccountingStorage ErrInvalidPublication_acct) \<and>
    (\<forall>pid i j. x \<noteq> Inl (AccountingStorage (RevisionConflictError_acct pid i j)))"
proof -
  note pub = publish_prepared [OF coord_reach_inv [OF assms(1,2)] assms(3)]
  show ?thesis
    using assms(4) pub(1) pub(2,3)
    by (cases "admit_position sha (cs_store t) p") (auto simp: PublishPosition_def split: if_splits option.splits)
qed

theorem coordinator_never_conflicts_witness:
  "\<exists>t p. (coord_step sample_sha)\<^sup>*\<^sup>* sample_start t \<and> Prepared sample_buy p \<in> set (cs_calls t) \<and>
     snd (PublishPosition sample_sha (False, False) p (cs_store t)) \<noteq> Inl (AccountingStorage ErrInvalidPublication_acct)"
proof -
  obtain t p where t: "(coord_step sample_sha)\<^sup>*\<^sup>* sample_start t" "Prepared sample_buy p \<in> set (cs_calls t)"
    by (rule sample_prepared)
  from coordinator_never_conflicts [OF sample_coordinator_new t surjective_pairing] t show ?thesis by blast
qed

text \<open>
  C28: admission. In every reachable state at most one call per position is under way, the number of calls in
  flight and of reserved positions is what \<open>Health\<close> reports, no more than \<open>MaxConcurrency\<close> calls (at most 64)
  hold a slot, and once the coordinator is closed it stays closed and no further call is admitted.
\<close>

theorem coordinator_admission:
  assumes "NewCoordinator config = Inr c"
    "(coord_step sha)\<^sup>*\<^sup>* \<lparr>cs_store = empty_acct_store lim, cs_coord = c, cs_calls = []\<rparr> t"
  shows "distinct (map call_position (cs_calls t)) \<and>
    Health_coord (cs_coord t) = (co_closed (cs_coord t), int (length (cs_calls t)), int (length (cs_calls t)),
      cc_max_concurrency config) \<and>
    int (length (filter holds_slot (cs_calls t))) \<le> cc_max_concurrency config \<and> cc_max_concurrency config \<le> 64 \<and>
    (co_closed (cs_coord t) \<longrightarrow> (\<forall>u. coord_step sha t u \<longrightarrow>
       co_closed (cs_coord u) \<and> call_position ` set (cs_calls u) \<subseteq> call_position ` set (cs_calls t)))"
proof -
  have conf: "co_config (cs_coord t) = config" "cc_max_concurrency config \<le> 64"
  proof -
    have "co_config (cs_coord t) = co_config (cs_coord \<lparr>cs_store = empty_acct_store lim, cs_coord = c, cs_calls = []\<rparr>)"
      using assms(2) by (rule coord_config_kept)
    then show "co_config (cs_coord t) = config" "cc_max_concurrency config \<le> 64"
      using assms(1) by (auto simp: NewCoordinator_def split: if_splits)
  qed
  have ok: "calls_ok (cs_coord t) (cs_calls t)" using coord_invD(2) [OF coord_reach_inv [OF assms]] .
  have "size_of (co_running (cs_coord t)) = int (length (cs_calls t))"
  proof -
    have "distinct (map fst (co_running (cs_coord t)))" "distinct (map call_position (cs_calls t))"
      "set (map fst (co_running (cs_coord t))) = set (map call_position (cs_calls t))"
      using ok by (simp_all add: calls_ok_def gomap_wf_def)
    then have "length (map fst (co_running (cs_coord t))) = length (map call_position (cs_calls t))"
      using distinct_card by metis
    then show ?thesis by (simp add: size_of_def)
  qed
  with ok conf closed_admits_none show ?thesis by (auto simp: calls_ok_def Health_coord_def)
qed

theorem coordinator_admission_witness:
  "\<exists>t p. (coord_step sample_sha)\<^sup>*\<^sup>* sample_start t \<and> Prepared sample_buy p \<in> set (cs_calls t) \<and>
     distinct (map call_position (cs_calls t))"
proof -
  obtain t p where t: "(coord_step sample_sha)\<^sup>*\<^sup>* sample_start t" "Prepared sample_buy p \<in> set (cs_calls t)"
    by (rule sample_prepared)
  from coordinator_admission [OF sample_coordinator_new t(1)] t show ?thesis by blast
qed

text \<open>
  C24: the handler does its work. A fill that is new and acceptable for its position, sent to an open
  coordinator on which its position is free, over a store with room, is committed: the position becomes what
  the engine computed, the fill and its application can be read back, other positions are as before, and
  the reservation is released.
\<close>

theorem ApplyFill_commits:
  assumes "sha_nonzero sha" "acct_inv sha st" "live_env env" "\<not> co_closed c"
    "map_of (co_running c) (af_position f) = None" "fill_built sha f" "\<not> fill_is_zero f"
    "\<not> has (ac_fills st) (fl_id (af_fill f))" "\<not> has (ac_publications st) (publication_id sha f)"
    "room_for st (af_position f)" "\<not> ac_fail_before_commit st"
    "fill_acceptable (map_option pc_snapshot (current_of st (af_position f))) f"
  shows "\<exists>st' receipt r. ApplyFill sha env f (st, c) = ((st', c), Inr receipt) \<and> pr_status receipt = PublicationCommitted \<and>
    Apply sha (map_option pc_snapshot (current_of st (af_position f))) f = Inr r \<and>
    Position (False, False) (af_position f) st' = Inr (Some (ar_snapshot r)) \<and>
    ApplicationByFill (False, False) (fl_id (af_fill f)) st' = Inr (ar_application r, f) \<and>
    (\<forall>pid. pid \<noteq> af_position f \<longrightarrow> current_of st' pid = current_of st pid) \<and> acct_inv sha st'"
proof -
  obtain p and r :: apply_result where "ApplyFill sha env f (st, c) = ((commit_position st p, c), Inr (position_receipt_of p))"
    "Apply sha (map_option pc_snapshot (current_of st (af_position f))) f = Inr r"
    "pc_snapshot (pp_next p) = ar_snapshot r" "pp_application p = ar_application r" "pp_fill p = f"
    "acct_inv sha (commit_position st p)"
    unfolding ApplyFill_def by (rule applyFill_commits [OF assms, of None]) simp_all
  with commit_position_queries [where v = p and st = st] current_of_commit [where v = p and st = st] show ?thesis
    by (intro exI [of _ "commit_position st p"] exI [of _ "position_receipt_of p"] exI [of _ r])
      (auto simp: position_receipt_of_def)
qed

definition sample_env :: apply_env where
  "sample_env = \<lparr>ae_entry = False, ae_lookup = False, ae_progress = False, ae_receipt = False, ae_select = Acquired,
     ae_read = False, ae_ready = False, ae_publish = (False, False)\<rparr>"

lemma sample_env_live: "live_env sample_env"
  by (simp add: live_env_def sample_env_def)

abbreviation sample_empty :: acct_store where
  "sample_empty \<equiv> empty_acct_store DefaultLimits_acct"

lemma sample_empty_facts:
  "current_of sample_empty pid = None" "room_for sample_empty pid" "\<not> has (ac_fills sample_empty) i"
  "\<not> has (ac_publications sample_empty) i" "\<not> ac_fail_before_commit sample_empty"
  by (simp_all add: current_of_def room_for_def empty_acct_store_def DefaultLimits_acct_def totalRevisions_def size_of_def)

theorem ApplyFill_commits_witness:
  "\<exists>st receipt ps. ApplyFill sample_sha sample_env sample_buy (sample_empty, sample_coordinator) =
       ((st, sample_coordinator), Inr receipt) \<and> pr_status receipt = PublicationCommitted \<and>
     Position (False, False) 1 st = Inr (Some ps) \<and> acct_inv sample_sha st"
proof -
  have "\<exists>st' receipt r. ApplyFill sample_sha sample_env sample_buy (sample_empty, sample_coordinator) =
      ((st', sample_coordinator), Inr receipt) \<and> pr_status receipt = PublicationCommitted \<and>
    Apply sample_sha (map_option pc_snapshot (current_of sample_empty (af_position sample_buy))) sample_buy = Inr r \<and>
    Position (False, False) (af_position sample_buy) st' = Inr (Some (ar_snapshot r)) \<and>
    ApplicationByFill (False, False) (fl_id (af_fill sample_buy)) st' = Inr (ar_application r, sample_buy) \<and>
    (\<forall>pid. pid \<noteq> af_position sample_buy \<longrightarrow> current_of st' pid = current_of sample_empty pid) \<and> acct_inv sample_sha st'"
    by (rule ApplyFill_commits [OF sample_sha_nonzero empty_acct_store_inv [where lim = DefaultLimits_acct] sample_env_live])
      (simp_all add: sample_coordinator_def sample_fills_built(1) sample_empty_facts sample_buy_acceptable)
  then show ?thesis by auto
qed

text \<open>
  C25: retries are harmless. Once a fill is committed, sending the same fill again, at any later moment of any
  interleaving with other calls, changes nothing and returns the original receipt marked as an idempotent
  replay.
\<close>

theorem ApplyFill_idempotent:
  assumes "ApplyFill sha env f (st, c) = ((cs_store s, c'), Inr receipt)" "pr_status receipt = PublicationCommitted"
    "coord_inv sha s" "(coord_step sha)\<^sup>*\<^sup>* s t" "\<not> ae_entry env'" "\<not> ae_lookup env'" "\<not> ae_progress env'" "\<not> ae_receipt env'"
  shows "ApplyFill sha env' f (cs_store t, d) =
    ((cs_store t, d), Inr (receipt\<lparr>pr_status := PublicationIdempotent\<rparr>))"
  unfolding ApplyFill_def
  by (rule applyFill_again [OF assms(1) [unfolded ApplyFill_def] assms(2) coord_grows.reach_grows [OF assms(4,3)] assms(5-8)])

theorem ApplyFill_idempotent_witness:
  "\<exists>st receipt. ApplyFill sample_sha sample_env sample_buy (sample_empty, sample_coordinator) =
       ((st, sample_coordinator), Inr receipt) \<and>
     ApplyFill sample_sha sample_env sample_buy (st, sample_coordinator) =
       ((st, sample_coordinator), Inr (receipt\<lparr>pr_status := PublicationIdempotent\<rparr>))"
proof -
  obtain p where p: "ApplyFill sample_sha sample_env sample_buy (sample_empty, sample_coordinator) =
      ((commit_position sample_empty p, sample_coordinator), Inr (position_receipt_of p))"
    "acct_inv sample_sha (commit_position sample_empty p)"
    unfolding ApplyFill_def by (rule applyFill_commits [OF sample_sha_nonzero empty_acct_store_inv [where lim = DefaultLimits_acct] sample_env_live, of sample_coordinator sample_buy None])
      (simp_all add: sample_coordinator_def sample_fills_built(1) sample_empty_facts sample_buy_acceptable)
  let ?s = "\<lparr>cs_store = commit_position sample_empty p, cs_coord = sample_coordinator, cs_calls = []\<rparr>"
  have "coord_inv sample_sha ?s" by (rule fresh_coord_inv [OF sample_coordinator_new p(2)])
  from ApplyFill_idempotent [of sample_sha sample_env sample_buy sample_empty sample_coordinator ?s, OF _ _ this rtranclp.rtrancl_refl,
      of sample_coordinator "position_receipt_of p" sample_env sample_coordinator] p
  show ?thesis by (auto simp: position_receipt_of_def sample_env_def)
qed

section \<open>The position store\<close>

text \<open>
  Errors are atomic. Whatever error publishing or restoring a position returns (an expired context, an
  invalid publication, a collision, a conflict, exhausted capacity, an injected failure), the store is as it
  was before.
\<close>

theorem position_store_atomic:
  "(PublishPosition sha ctx p st = (st', Inl e) \<longrightarrow> st' = st) \<and>
   (RestorePosition sha b ctx_at ps st = (st', Inl e) \<longrightarrow> st' = st)"
  by (auto elim: PublishPosition_cases RestorePosition_cases)

theorem position_store_atomic_witness:
  "(\<forall>p. PublishPosition sample_sha (True, False) p sample_empty = (sample_empty, Inl ContextDone)) \<and>
   RestorePosition sample_sha False (\<lambda>_. (False, False)) [] sample_empty =
     (sample_empty, Inl (AccountingStorage ErrCorruptCheckpoint_acct))"
proof -
  have "snd (PublishPosition sample_sha (True, False) p sample_empty) = Inl ContextDone" for p
    by (simp add: PublishPosition_def)
  moreover have "snd (RestorePosition sample_sha False (\<lambda>_. (False, False)) [] sample_empty) =
      Inl (AccountingStorage ErrCorruptCheckpoint_acct)"
    by (simp add: RestorePosition_def)
  ultimately show ?thesis using position_store_atomic by (metis prod.collapse)
qed

text \<open>
  C26: a position survives a restart. The publications that \<open>Publications\<close> returns for a position, in any
  order, restored into an empty store, rebuild the store exactly: current revision, checkpoints,
  applications, fills, publications and ingestion progress.
\<close>

theorem position_restore_round_trip:
  assumes "run_ops (\<lambda>(ctx, p). PublishPosition sha ctx p) ps (empty_acct_store lim) = (st, xs)" "ps \<noteq> []"
    "\<forall>(ctx, p) \<in> set ps. publication_made sha p \<and> af_position (pp_fill p) = pid"
    "\<forall>x \<in> set xs. \<exists>r. x = Inr r \<and> pr_status r = PublicationCommitted"
  shows "\<exists>vs. Publications (False, False) pid st = Inr vs \<and> length vs = length ps \<and>
    (\<forall>qs. mset qs = mset vs \<longrightarrow>
       RestorePosition sha False (\<lambda>_. (False, False)) qs (empty_acct_store lim) = (st, Inr ()))"
proof -
  obtain vs where vs: "length vs = length ps" "chain_store lim pid vs st"
    "restore_into sha (\<lambda>_. (False, False)) pid 0 vs (empty_acct_store lim) = Inr st"
    using run_chain [OF assms(1,3,4) chain_store_empty empty_acct_store_inv] by auto
  then have "vs \<noteq> []" using assms(2) by auto
  with vs chain_publications chain_restore show ?thesis by blast
qed

theorem position_restore_round_trip_witness:
  "\<exists>st vs. Publications (False, False) 1 st = Inr vs \<and> length vs = 1 \<and>
     RestorePosition sample_sha False (\<lambda>_. (False, False)) vs sample_empty = (st, Inr ())"
proof -
  obtain t p where t: "(coord_step sample_sha)\<^sup>*\<^sup>* sample_start t" "cs_store t = sample_empty"
    "Prepared sample_buy p \<in> set (cs_calls t)" by (rule sample_prepared)
  note inv = coord_reach_inv [OF sample_coordinator_new t(1)]
  have pf: "prepared_from sample_sha sample_buy (current_of sample_empty 1) p"
    using coord_invD(4) [OF inv t(3)] by (simp add: t(2))
  then have made: "publication_made sample_sha p" "af_position (pp_fill p) = 1"
    using prepared_made [OF empty_acct_store_inv sample_fills_built(1)] by (auto simp: prepared_from_def)
  have "check_ingestion sample_empty p = Inr ()"
    by (simp add: check_ingestion_def empty_acct_store_def split: option.splits)
  then have "admit_position sample_sha sample_empty p = Inr ()"
    using publish_prepared(4) [OF inv t(3)] by (simp add: t(2) sample_empty_facts)
  then have pub: "PublishPosition sample_sha (False, False) p sample_empty =
      (commit_position sample_empty p, Inr (position_receipt_of p))"
    using publish_prepared(1) [OF inv t(3)] by (simp add: PublishPosition_def empty_acct_store_def)
  then have run: "run_ops (\<lambda>(ctx, p). PublishPosition sample_sha ctx p) [((False, False), p)] sample_empty =
      (commit_position sample_empty p, [Inr (position_receipt_of p)])" by simp
  from position_restore_round_trip [OF run] made show ?thesis by (auto simp: position_receipt_of_def)
qed

text \<open>
  The configured limits on positions, revisions, applications and publications hold in every state that
  publications, restores and injected failures can reach.
\<close>

theorem position_limits_hold:
  assumes "NewAcctStore lim = Inr st" "(acct_step sha)\<^sup>*\<^sup>* st st'"
  shows "acct_bounded st'"
  using acct_limited.reach_inv [OF assms(2) NewAcctStore_bounded [OF assms(1)]] .

theorem position_limits_hold_witness:
  "acct_bounded (SetFailBeforeCommit True sample_empty)"
  by (rule position_limits_hold [of DefaultLimits_acct sample_empty sample_sha])
    (auto simp: NewAcctStore_def limits_valid_def DefaultLimits_acct_def intro: acct_step.inject)

section \<open>Replay\<close>

text \<open>
  C27: the result of a replay does not depend on the order in which the fills are given, as long as their
  identities are distinct.
\<close>

theorem replay_any_order:
  assumes "mset fills = mset fills'" "inj_on (\<lambda>f. ok_fill (af_ordering f)) (set fills)"
  shows "Replay sha env_at fills state = Replay sha env_at fills' state"
proof -
  have "inj_on replay_key (set fills)" using assms(2) by (auto simp: inj_on_def replay_key_def)
  with assms(1) have "sort_key replay_key fills = sort_key replay_key fills'" by (rule sort_distinct_keys)
  moreover have "set fills = set fills'" using assms(1) by (rule mset_eq_setD)
  ultimately show ?thesis by (simp add: Replay_def)
qed

theorem replay_any_order_witness:
  "Replay sample_sha (\<lambda>_. sample_env) [sample_buy, sample_sell] (sample_empty, sample_coordinator) =
   Replay sample_sha (\<lambda>_. sample_env) [sample_sell, sample_buy] (sample_empty, sample_coordinator)"
  by (rule replay_any_order) (simp_all add: inj_on_def)

end
