(* ===== verification/Claims_Flow.thy ===== *)
theory Claims_Flow
  imports Acct_Reconciliation Claims_Accounting
begin

text \<open>
  The properties of the flow from the order store into accounting: which fills are ingested, retries, late
  fills, and the reconciliation of positions with a broker's observations.
\<close>

section \<open>A sample request\<close>

definition sample_binding :: account_binding where
  "sample_binding = \<lparr>ab_portfolio = 3, ab_account = ''ACC'', ab_version = ''v1'', ab_valid_from = 1, ab_checksum = 1\<rparr>"

lemma sample_binding_valid: "AccountBinding_Validate sample_sha sample_binding = Inr ()"
proof -
  have "trim_space ''v1'' = ''v1''" "trim_space ''account-binding/v1'' \<noteq> []" by code_simp+
  then show ?thesis
    by (simp add: AccountBinding_Validate_def NewAccountBinding_def sample_binding_def state_checksum_acct_sample Let_def)
qed

definition sample_request :: ing_request where
  "sample_request = \<lparr>iq_fill = sample_fill 31 21 6 5, iq_report = sample_report 21 ReportPartialFill 6 5,
     iq_order = sample_order OrderPartiallyFilled 5 6 5, iq_plan = sample_plan, iq_intent = sample_intent,
     iq_binding = sample_binding, iq_sequence = 1, iq_checkpoint = ''v1'', iq_checksum = 9, iq_received = 5\<rparr>"

definition sample_sources :: "oms_store \<Rightarrow> ing_sources" where
  "sample_sources oms = \<lparr>is_lineage = RepositoryLineage oms (\<lambda>_. (False, False)),
     is_binding = StaticBindings sample_sha [(3, sample_binding)] False, is_known = Known {11} False\<rparr>"

definition sample_lineage :: lineage where
  "sample_lineage = \<lparr>ln_fill = iq_fill sample_request, ln_report = iq_report sample_request,
     ln_order = iq_order sample_request, ln_plan = iq_plan sample_request, ln_intent = iq_intent sample_request\<rparr>"

lemma sample_resolved: "RepositoryLineage sample_store (\<lambda>_. (False, False)) (iq_fill sample_request) = Inr sample_lineage"
  by (simp add: RepositoryLineage_def sample_request_def sample_lineage_def OMS_Order_def OMS_Plan_def OMS_Intent_def
      CurrentOrderCheckpoint_def Fills_def Reports_def sample_store_def sample_partial_def sample_plan_def
      sample_plan_spec_def sample_intent_def sample_defs checkpoint_at_def get_or_def NewStore_def)

definition sample_ingested :: accounting_fill where
  "sample_ingested = (let spec = \<lparr>afs_schema = ''accounting-fill/v1'', afs_fill = sample_fill 31 21 6 5,
       afs_portfolio = 3, afs_instrument = 11, afs_side = SideBuy, afs_received = 5\<rparr>
     in \<lparr>af_spec = spec, af_position = 1, af_ordering = \<lparr>ok_occurred = 5, ok_received = 5, ok_fill = 31\<rparr>,
         af_checksum = 1, af_raw = canonicalAccountingFill spec 1\<rparr>)"

definition sample_metadata :: ingestion_metadata where
  "sample_metadata = \<lparr>im_id = 1, im_sequence = 1, im_checkpoint = ''v1'', im_source_checksum = 9,
     im_binding = sample_binding\<rparr>"

lemma digest_string_nonempty [simp]: "digest_string d \<noteq> []"
  by (metis length_digest_string list.size(3) numeral_neq_zero)

lemma sample_normalized:
  "normalize sample_sha (sample_sources sample_store) False sample_request = Inr (sample_ingested, sample_metadata)"
proof -
  have trim: "trim_space ''accounting-fill/v1'' = ''accounting-fill/v1''" "trim_space ''accounting-fill-checksum/v1'' \<noteq> []"
    "trim_space ''v1'' = ''v1''" by code_simp+
  have fill: "NewAccountingFill sample_sha \<lparr>afs_schema = ''accounting-fill/v1'', afs_fill = sample_fill 31 21 6 5,
      afs_portfolio = 3, afs_instrument = 11, afs_side = SideBuy, afs_received = 5\<rparr> = Inr sample_ingested"
    using trim by (simp add: NewAccountingFill_def sample_ingested_def sample_fill_def NewFillOrderingKey_def NewPositionID_def
        validParts_def quantity_is_valid_def price_is_zero_value_def state_checksum_acct_sample canonicalAccountingFill_def Let_def)
  have meta: "NewIngestionMetadata sample_sha (sample_fill 31 21 6 5) 1 ''v1'' 9 sample_binding = Inr sample_metadata"
    using trim by (simp add: NewIngestionMetadata_def sample_binding_valid sample_metadata_def NewIngestionID_def
        validParts_def sample_fill_def Let_def)
  have "same_lineage sample_lineage sample_request" by (simp add: same_lineage_def sample_lineage_def)
  moreover have "lineage_consistent sample_request" "amounts_consistent sample_request"
    by (simp_all add: lineage_consistent_def amounts_consistent_def sample_request_def sample_plan_def sample_plan_spec_def
        sample_intent_def sample_defs)
  moreover have "is_lineage (sample_sources sample_store) (iq_fill sample_request) = Inr sample_lineage"
    by (simp add: sample_sources_def sample_resolved)
  moreover have "is_binding (sample_sources sample_store) 3 5 = Inr sample_binding"
    "is_known (sample_sources sample_store) 11 = Inr True"
    by (simp_all add: sample_sources_def StaticBindings_def sample_binding_valid Known_def) (simp add: sample_binding_def)
  moreover have "ol_instrument (os_leg (ord_spec (iq_order sample_request))) = 11" "request_portfolio sample_request = 3"
    "ol_side (os_leg (ord_spec (iq_order sample_request))) = SideBuy" "fs_occurred_at (fl_spec (iq_fill sample_request)) = 5"
    by (simp_all add: sample_request_def sample_intent_def sample_intent_spec_def sample_decision_def sample_defs)
  ultimately show ?thesis
    using fill meta sample_binding_valid
    by (simp add: normalize_def Let_def) (simp add: sample_request_def sample_binding_def sample_plan_def sample_intent_def sample_defs)
qed

definition sample_ing_env :: ing_env where
  "sample_ing_env = \<lparr>ie_entry = False, ie_select = Acquired, ie_apply = sample_env\<rparr>"

definition sample_ingestion :: ing_coord where
  "sample_ingestion = \<lparr>ig_config = DefaultConfig_ing, ig_running = [], ig_quarantines = [], ig_closed = False, ig_waiting = 0\<rparr>"

lemma sample_ingestion_new: "NewIngestion DefaultConfig_ing = Inr sample_ingestion"
  by (simp add: NewIngestion_def DefaultConfig_ing_def sample_ingestion_def)

lemma sample_ingested_fields [simp]:
  "af_position sample_ingested = 1" "fl_id (af_fill sample_ingested) = 31" "fill_qty sample_ingested = 6"
  "fill_price sample_ingested = 100" "fill_currency sample_ingested = ''INR''" "fill_side sample_ingested = SideBuy"
  "\<not> fill_is_zero sample_ingested" "afs_portfolio (af_spec sample_ingested) = 3"
  "af_ordering sample_ingested = \<lparr>ok_occurred = 5, ok_received = 5, ok_fill = 31\<rparr>"
  by (simp_all add: sample_ingested_def sample_fill_def Let_def fill_is_zero_def)

lemma sample_ingested_built: "fill_built sample_sha sample_ingested"
  using normalize_Inr(4) [OF sample_normalized] unfolding fill_built_def by (fastforce simp: i64_defs)

lemma sample_ingested_acceptable: "fill_acceptable None sample_ingested"
  by (simp add: fill_acceptable_def check_current_def currency_matches_def base_spec_def opening_spec_def
      money_or_zero_eq fill_fits_def totals_fit_def fill_delta_def signed_quantity_def ledger_step_def ledger_fits_def
      i64_defs max_u64_def)

lemma sample_metadata_ok: "metadata_fits (Some sample_metadata) sample_ingested" "ingestion_new (Some sample_metadata) sample_empty"
  by (simp_all add: metadata_fits_def ingestion_new_def sample_metadata_def sample_binding_def empty_acct_store_def)

lemma sample_ingest:
  obtains p where "applyFill sample_sha sample_env sample_ingested (Some sample_metadata) (sample_empty, sample_coordinator) =
      ((commit_position sample_empty p, sample_coordinator), Inr (position_receipt_of p))"
    "Ingest sample_sha (sample_sources sample_store) sample_ing_env sample_request ((sample_empty, sample_coordinator), sample_ingestion) =
      (((commit_position sample_empty p, sample_coordinator), sample_ingestion),
       \<lparr>ir_receipt = Some (position_receipt_of p), ir_ingestion = 1, ir_rebuild = None\<rparr>, None)"
    "acct_inv sample_sha (commit_position sample_empty p)" "pp_fill p = sample_ingested"
proof -
  obtain p where p: "applyFill sample_sha sample_env sample_ingested (Some sample_metadata) (sample_empty, sample_coordinator) =
      ((commit_position sample_empty p, sample_coordinator), Inr (position_receipt_of p))"
    "acct_inv sample_sha (commit_position sample_empty p)" "pp_fill p = sample_ingested"
    by (rule applyFill_commits [OF sample_sha_nonzero empty_acct_store_inv [where lim = DefaultLimits_acct] sample_env_live,
          of sample_coordinator sample_ingested "Some sample_metadata"])
      (simp_all add: sample_coordinator_def sample_ingested_built sample_empty_facts sample_ingested_acceptable sample_metadata_ok)
  have "reserve_ing 1 9 sample_ingestion = (sample_ingestion\<lparr>ig_running := [(1, 9)], ig_waiting := 1\<rparr>, Inr ())"
    by (simp add: reserve_ing_def sample_ingestion_def)
  moreover from release_reserved_ing(1) [OF this]
  have "release_ing 1 (sample_ingestion\<lparr>ig_running := [(1, 9)], ig_waiting := 1\<rparr>) = sample_ingestion" .
  moreover have "ApplyIngestedFill sample_sha sample_env sample_ingested sample_metadata (sample_empty, sample_coordinator) =
      ((commit_position sample_empty p, sample_coordinator), Inr (position_receipt_of p))"
    using p(1) by (simp add: ApplyIngestedFill_def sample_metadata_def sample_binding_def)
  ultimately have "Ingest sample_sha (sample_sources sample_store) sample_ing_env sample_request
      ((sample_empty, sample_coordinator), sample_ingestion) =
      (((commit_position sample_empty p, sample_coordinator), sample_ingestion),
       \<lparr>ir_receipt = Some (position_receipt_of p), ir_ingestion = 1, ir_rebuild = None\<rparr>, None)"
    using sample_normalized by (simp add: Ingest_def sample_ing_env_def sample_metadata_def)
  with p that show thesis by blast
qed

section \<open>Ingestion\<close>

text \<open>
  C28: only fills of the order store enter accounting. When a request is ingested without error over a
  reachable order store, its fill, report, order, plan and intent are byte for byte those the store holds and
  belong together; the accounted fill has the portfolio of the risk decision, a known instrument, the side of
  the order's leg, the instrument and plan of the stored order, and a quantity within the ordered quantity.
\<close>

theorem ingested_fill_traceable:
  assumes "Ingest sha sources env request (acct, g) = (s', res, None)"
    "is_lineage sources = RepositoryLineage oms ctx_at" "(oms_step sha)\<^sup>*\<^sup>* (NewStoreInstrumented lim) oms"
    "order_built (iq_order request)"
  shows "\<exists>l f m r. ir_receipt res = Some r \<and> lineage_held oms l \<and> same_lineage l request \<and>
    normalize sha sources (ie_entry env) request = Inr (f, m) \<and> af_fill f = iq_fill request \<and>
    fl_id (ln_fill l) = fl_id (af_fill f) \<and>
    afs_portfolio (af_spec f) = rd_portfolio (eis_decision (ei_spec (iq_intent request))) \<and>
    afs_side (af_spec f) = ol_side (os_leg (ord_spec (iq_order request))) \<and>
    afs_instrument (af_spec f) = ol_instrument (os_leg (ord_spec (ln_order l))) \<and>
    is_known sources (afs_instrument (af_spec f)) = Inr True \<and>
    os_plan (ord_spec (ln_order l)) = op_id (iq_plan request) \<and>
    fill_qty f \<le> ol_quantity (os_leg (ord_spec (ln_order l)))"
proof -
  obtain acct' g' where s': "s' = (acct', g')" by fastforce
  from assms(1) [unfolded s'] obtain f m r where n: "normalize sha sources (ie_entry env) request = Inr (f, m)"
    and r: "ir_receipt res = Some r"
    by (rule Ingest_cases) (auto split: sum.splits)
  from repository_lineage.normalized_lineage [OF n assms(2)] obtain l where
    l: "lineage_held oms l" "same_lineage l request" "fl_id (ln_fill l) = fl_id (iq_fill request)" by blast
  note nf = normalized_fill [OF n] and ni = normalize_Inr [OF n]
  have inv: "oms_inv oms" using oms_run.reach_inv [OF assms(3) NewStoreInstrumented_inv] .
  from l(1) obtain oid rv where rv: "map_of (st_current oms) oid = Some rv" "ln_order l = oc_order (checkpoint_at oms oid rv)"
    by (auto simp: lineage_held_def OMS_Order_def CurrentOrderCheckpoint_def split: option.splits)
  from oms_invD(2) [OF inv rv(1)] rv(2) have "order_built (ln_order l)"
    by (auto simp: head_ok_def checkpoint_at_def oms_history_def get_or_def)
  then have same: "ol_instrument (os_leg (ord_spec (ln_order l))) = ol_instrument (os_leg (ord_spec (iq_order request)))"
    "os_plan (ord_spec (ln_order l)) = os_plan (ord_spec (iq_order request))"
    "ol_quantity (os_leg (ord_spec (ln_order l))) = ol_quantity (os_leg (ord_spec (iq_order request)))"
    using l(2) assms(4) canonicalOrder_determines [of "ord_id (ln_order l)" "ord_client (ln_order l)" "ord_spec (ln_order l)"
        "ord_id (iq_order request)" "ord_client (iq_order request)" "ord_spec (iq_order request)"]
    by (auto simp: order_built_def order_wf_def same_lineage_def)
  have "fill_qty f \<le> ol_quantity (os_leg (ord_spec (iq_order request)))"
    using ni(2) nf(1) by (simp add: amounts_consistent_def Let_def)
  moreover have "os_plan (ord_spec (iq_order request)) = op_id (iq_plan request)"
    using ni(1) by (simp add: lineage_consistent_def Let_def)
  ultimately show ?thesis
    using r l n nf ni(7) same by (intro exI [of _ l] exI [of _ f] exI [of _ m] exI [of _ r]) simp
qed

lemma sample_order_built: "order_built (iq_order sample_request)"
  by (simp add: order_built_def sample_request_def sample_defs order_wf_def OrderState_Validate_def i64_defs max_u64_def)

theorem ingested_fill_traceable_witness:
  "\<exists>l. lineage_held sample_store l \<and> same_lineage l sample_request \<and> fl_id (ln_fill l) = 31"
proof -
  obtain p where p: "Ingest sample_sha (sample_sources sample_store) sample_ing_env sample_request
      ((sample_empty, sample_coordinator), sample_ingestion) =
      (((commit_position sample_empty p, sample_coordinator), sample_ingestion),
       \<lparr>ir_receipt = Some (position_receipt_of p), ir_ingestion = 1, ir_rebuild = None\<rparr>, None)" by (rule sample_ingest)
  have "(oms_step sample_sha)\<^sup>*\<^sup>* (NewStoreInstrumented DefaultLimits) sample_store"
    using sample_steps(1) by (simp add: NewStore_def r_into_rtranclp)
  moreover have "is_lineage (sample_sources sample_store) = RepositoryLineage sample_store (\<lambda>_. (False, False))"
    by (simp add: sample_sources_def)
  ultimately obtain l f where
    "lineage_held sample_store l" "same_lineage l sample_request" "fl_id (ln_fill l) = fl_id (af_fill f)" "af_fill f = iq_fill sample_request"
    using ingested_fill_traceable [OF p _ _ sample_order_built] by blast
  moreover have "fl_id (iq_fill sample_request) = 31" by (simp add: sample_request_def sample_fill_def Let_def)
  ultimately show ?thesis by auto
qed

text \<open>
  C29: retries of an ingestion are harmless. When a request was committed, the same request against the same
  sources, at any later moment of accounting, returns the same receipt marked as a replay and changes neither the
  position store nor the coordinators.
\<close>

theorem ingest_idempotent:
  assumes "Ingest sha sources env request ((st, c), g) = (((st', c'), g'), res, None)"
    "ir_receipt res = Some r" "pr_status r = PublicationCommitted" "acct_grows st' st''"
    "ie_entry env' = ie_entry env" "ie_select env' = Acquired" "\<not> ae_entry (ie_apply env')" "\<not> ae_lookup (ie_apply env')"
    "\<not> ae_progress (ie_apply env')" "\<not> ae_receipt (ie_apply env')" "\<not> ig_closed h" "\<not> has (ig_running h) (ir_ingestion res)"
  shows "Ingest sha sources env' request ((st'', d), h) =
    (((st'', d), h), res\<lparr>ir_receipt := Some (r\<lparr>pr_status := PublicationIdempotent\<rparr>)\<rparr>, None)"
proof -
  from assms(1) obtain f m where n: "normalize sha sources (ie_entry env) request = Inr (f, m)" "ir_ingestion res = im_id m"
    and a: "ApplyIngestedFill sha (ie_apply env) f m (st, c) = ((st', c'), Inr r)" "ir_rebuild res = None"
    by (rule Ingest_cases) (use assms(2) in \<open>auto split: sum.splits\<close>)
  have meta: "\<not> (im_id m = 0 \<or> ab_portfolio (im_binding m) \<noteq> afs_portfolio (af_spec f))"
    using a(1) by (auto simp: ApplyIngestedFill_def split: if_splits)
  then have "applyFill sha (ie_apply env) f (Some m) (st, c) = ((st', c'), Inr r)"
    using a(1) by (simp add: ApplyIngestedFill_def)
  from applyFill_again [OF this assms(3,4,7-10)] meta
  have again: "ApplyIngestedFill sha (ie_apply env') f m (st'', d) =
      ((st'', d), Inr (r\<lparr>pr_status := PublicationIdempotent\<rparr>))" by (simp add: ApplyIngestedFill_def)
  have "reserve_ing (im_id m) (im_source_checksum m) h =
      (h\<lparr>ig_running := put (im_id m) (im_source_checksum m) (ig_running h), ig_waiting := ig_waiting h + 1\<rparr>, Inr ())"
    using assms(11,12) n(2) by (simp add: reserve_ing_def has_def)
  with release_reserved_ing(1) [OF this] n again assms(2,5,6) a(2) show ?thesis
    by (cases res) (simp add: Ingest_def)
qed

theorem ingest_idempotent_witness:
  "\<exists>st r. Ingest sample_sha (sample_sources sample_store) sample_ing_env sample_request ((st, sample_coordinator), sample_ingestion) =
     (((st, sample_coordinator), sample_ingestion),
      \<lparr>ir_receipt = Some r, ir_ingestion = 1, ir_rebuild = None\<rparr>, None) \<and> pr_status r = PublicationIdempotent"
proof -
  obtain p where p: "Ingest sample_sha (sample_sources sample_store) sample_ing_env sample_request
      ((sample_empty, sample_coordinator), sample_ingestion) =
      (((commit_position sample_empty p, sample_coordinator), sample_ingestion),
       \<lparr>ir_receipt = Some (position_receipt_of p), ir_ingestion = 1, ir_rebuild = None\<rparr>, None)" by (rule sample_ingest)
  have new: "pr_status (position_receipt_of p) = PublicationCommitted" by (simp add: position_receipt_of_def)
  have "Ingest sample_sha (sample_sources sample_store) sample_ing_env sample_request
      ((commit_position sample_empty p, sample_coordinator), sample_ingestion) =
      (((commit_position sample_empty p, sample_coordinator), sample_ingestion),
       \<lparr>ir_receipt = Some (position_receipt_of p), ir_ingestion = 1, ir_rebuild = None\<rparr>
         \<lparr>ir_receipt := Some ((position_receipt_of p)\<lparr>pr_status := PublicationIdempotent\<rparr>)\<rparr>, None)"
    by (rule ingest_idempotent [OF p _ new acct_grows_refl])
      (simp_all add: sample_ing_env_def sample_env_def sample_ingestion_def)
  then show ?thesis
    by (intro exI [of _ "commit_position sample_empty p"] exI [of _ "(position_receipt_of p)\<lparr>pr_status := PublicationIdempotent\<rparr>"]) simp
qed

text \<open>
  C30: the lineage check refuses exact retries once the order has moved on. Where the order store's current
  order differs from the one in the request, as it does after any further report, the request is refused with
  \<open>ErrInvalidLineage\<close>, whether or not it was committed before; nothing changes.
\<close>

theorem ingest_refused_after_progress:
  assumes "is_lineage sources = RepositoryLineage oms ctx_at"
    "OMS_Order (ctx_at 0) (fs_order (fl_spec (iq_fill request))) oms = Inr current"
    "ord_raw current \<noteq> ord_raw (iq_order request)" "\<not> ie_entry env"
    "fl_id (iq_fill request) \<noteq> 0" "er_id (iq_report request) \<noteq> 0" "ord_id (iq_order request) \<noteq> 0"
    "op_id (iq_plan request) \<noteq> 0" "ei_id (iq_intent request) \<noteq> 0" "iq_received request \<noteq> 0"
  shows "Ingest sha sources env request s =
    (s, \<lparr>ir_receipt = None, ir_ingestion = 0, ir_rebuild = None\<rparr>, Some (Ingestion ErrInvalidLineage))"
proof -
  have "\<not> same_lineage l request" if "RepositoryLineage oms ctx_at (iq_fill request) = Inr l" for l
  proof -
    have "ln_order l = current"
      using that assms(2) by (auto simp: RepositoryLineage_def split: if_splits option.splits)
    with assms(3) show ?thesis by (simp add: same_lineage_def)
  qed
  then have "normalize sha sources (ie_entry env) request = Inl (Ingestion ErrInvalidLineage)"
    using assms by (auto simp: normalize_def Let_def split: sum.splits)
  then show ?thesis by (cases s) (simp add: Ingest_def)
qed

theorem ingest_refused_after_progress_witness:
  "\<forall>s. Ingest sample_sha (sample_sources sample_after) sample_ing_env sample_request s =
     (s, \<lparr>ir_receipt = None, ir_ingestion = 0, ir_rebuild = None\<rparr>, Some (Ingestion ErrInvalidLineage))"
proof (intro allI, rule ingest_refused_after_progress [where current = sample_filled])
  show "is_lineage (sample_sources sample_after) = RepositoryLineage sample_after (\<lambda>_. (False, False))"
    by (simp add: sample_sources_def)
  show "OMS_Order (False, False) (fs_order (fl_spec (iq_fill sample_request))) sample_after = Inr sample_filled"
    by (simp add: OMS_Order_def CurrentOrderCheckpoint_def sample_request_def)
  have "order_built sample_filled"
    by (simp add: order_built_def sample_filled_def sample_defs order_wf_def OrderState_Validate_def i64_defs max_u64_def)
  from built_same_raw(3) [OF this sample_order_built] show "ord_raw sample_filled \<noteq> ord_raw (iq_order sample_request)"
    by (auto simp: sample_filled_def sample_request_def)
qed (simp_all add: sample_ing_env_def sample_request_def sample_fill_def sample_plan_def sample_intent_def Let_def)

text \<open>
  C31: late fills are quarantined, not applied. A fill that is not later than the last fill of its position leaves
  accounting unchanged; the caller gets \<open>ErrRebuildRequired\<close> with the evidence, which is kept as the newest
  entry of the quarantine list, and that list never grows beyond its configured maximum.
\<close>

theorem late_fill_quarantined:
  assumes "normalize sha sources (ie_entry env) request = Inr (f, m)" "acct_inv sha st" "live_env (ie_apply env)"
    "ie_select env = Acquired" "\<not> co_closed c" "map_of (co_running c) (af_position f) = None"
    "\<not> fill_is_zero f" "\<not> has (ac_fills st) (fl_id (af_fill f))" "im_id m \<noteq> 0"
    "Position (False, False) (af_position f) st = Inr (Some ps)" "Compare (af_ordering f) (pn_last_key (ps_spec ps)) \<le> 0"
    "\<not> ig_closed g" "\<not> has (ig_running g) (im_id m)" "quarantine_bounded g"
  shows "\<exists>g' ev res. Ingest sha sources env request ((st, c), g) = (((st, c), g'), res, Some (Ingestion ErrRebuildRequired)) \<and>
    ir_rebuild res = Some ev \<and> re_fill ev = fl_id (af_fill f) \<and> re_position ev = af_position f \<and>
    Quarantines g' \<noteq> [] \<and> last (Quarantines g') = ev \<and> quarantine_bounded g' \<and> ig_running g' = ig_running g"
proof -
  have late: "ApplyIngestedFill sha (ie_apply env) f m (st, c) = ((st, c), Inl (Accounting ErrOutOfOrderFill))"
    by (rule late_fill_refused) (use assms normalized_fill(5) [OF assms(1)] in auto)
  let ?ev = "\<lparr>re_ingestion = im_id m, re_position = af_position f, re_fill = fl_id (af_fill f), re_key = af_ordering f,
     re_reason = ''CANONICAL_PREDECESSOR''\<rparr>"
  have "reserve_ing (im_id m) (im_source_checksum m) g =
      (g\<lparr>ig_running := put (im_id m) (im_source_checksum m) (ig_running g), ig_waiting := ig_waiting g + 1\<rparr>, Inr ())"
    using assms(12,13) by (simp add: reserve_ing_def has_def)
  from this release_reserved_ing(2) [OF this, of ?ev] late assms(1,4)
  have "Ingest sha sources env request ((st, c), g) = (((st, c), quarantine ?ev g),
      \<lparr>ir_receipt = None, ir_ingestion = im_id m, ir_rebuild = Some ?ev\<rparr>, Some (Ingestion ErrRebuildRequired))"
    by (simp add: Ingest_def Let_def)
  with quarantine_keeps_bound [OF assms(14), of ?ev] show ?thesis
    by (intro exI [of _ "quarantine ?ev g"] exI [of _ ?ev]
        exI [of _ "\<lparr>ir_receipt = None, ir_ingestion = im_id m, ir_rebuild = Some ?ev\<rparr>"])
      (simp add: quarantine_def Let_def)
qed

text \<open>A position of the sample request's instrument whose last fill is later.\<close>

theorem late_fill_quarantined_witness:
  "\<exists>st g' res. Ingest sample_sha (sample_sources sample_store) sample_ing_env sample_request
     ((st, sample_coordinator), sample_ingestion) =
     (((st, sample_coordinator), g'), res, Some (Ingestion ErrRebuildRequired)) \<and> Quarantines g' \<noteq> []"
proof -
  let ?late = "sample_afill SideBuy 1 10 100 6"
  have built: "fill_built sample_sha ?late" by (simp add: sample_afill_built i64_defs)
  have acc: "fill_acceptable None ?late"
    by (simp add: fill_acceptable_def check_current_def currency_matches_def base_spec_def opening_spec_def
      money_or_zero_eq fill_fits_def totals_fit_def fill_delta_def signed_quantity_def ledger_step_def ledger_fits_def
      i64_defs max_u64_def)
  obtain p and r :: apply_result where p: "acct_inv sample_sha (commit_position sample_empty p)" "pp_fill p = ?late"
    "pc_snapshot (pp_next p) = ar_snapshot r" "Apply sample_sha None ?late = Inr r"
    by (rule applyFill_commits [OF sample_sha_nonzero empty_acct_store_inv [where lim = DefaultLimits_acct] sample_env_live,
          of sample_coordinator ?late None])
      (simp_all add: sample_coordinator_def built sample_empty_facts acc)
  let ?st = "commit_position sample_empty p"
  have "Position (False, False) (af_position sample_ingested) ?st = Inr (Some (ar_snapshot r))"
    using commit_position_queries(1) [of p sample_empty] p(2,3) by simp
  moreover have "Compare (af_ordering sample_ingested) (pn_last_key (ps_spec (ar_snapshot r))) \<le> 0"
    using Apply_key(1) [OF p(4)] by (simp add: Compare_def)
  moreover have "\<not> has (ac_fills ?st) (fl_id (af_fill sample_ingested))"
    using p(2) by (simp add: commit_position_views(4) empty_acct_store_def)
  moreover have "quarantine_bounded sample_ingestion" by (rule NewIngestion_bounded [OF sample_ingestion_new])
  moreover have "normalize sample_sha (sample_sources sample_store) (ie_entry sample_ing_env) sample_request =
      Inr (sample_ingested, sample_metadata)"
    using sample_normalized by (simp add: sample_ing_env_def)
  ultimately have "\<exists>g' ev res. Ingest sample_sha (sample_sources sample_store) sample_ing_env sample_request
      ((?st, sample_coordinator), sample_ingestion) =
      (((?st, sample_coordinator), g'), res, Some (Ingestion ErrRebuildRequired)) \<and>
    ir_rebuild res = Some ev \<and> re_fill ev = fl_id (af_fill sample_ingested) \<and> re_position ev = af_position sample_ingested \<and>
    Quarantines g' \<noteq> [] \<and> last (Quarantines g') = ev \<and> quarantine_bounded g' \<and> ig_running g' = ig_running sample_ingestion"
    by (intro late_fill_quarantined [where ps = "ar_snapshot r" and f = sample_ingested and m = sample_metadata])
      (simp_all add: p(1) sample_ing_env_def sample_env_live sample_coordinator_def sample_ingestion_def sample_metadata_def)
  then show ?thesis by blast
qed

end
