(* ===== verification/Claims_Reconciliation.thy ===== *)
theory Claims_Reconciliation
  imports Claims_Flow
begin

text \<open>
  The properties of the reconciliation of positions with a broker's observations: when evidence lets trading
  go on, retries, the evidence store, and what the two reads of a position guarantee.
\<close>

section \<open>A sample observation\<close>

definition sample_observation_spec :: "int \<Rightarrow> observation_spec" where
  "sample_observation_spec n = \<lparr>bs_provider = ''P'', bs_binding = sample_binding, bs_instrument = 11, bs_net = n,
     bs_price = None, bs_price_reliable = False, bs_observed_at = 6, bs_ingested_at = 7, bs_snapshot = ''S'',
     bs_snapshot_version = ''v1'', bs_complete = True, bs_available = True, bs_scope = ScopePaper, bs_checksum = 9\<rparr>"

definition sample_rec_request :: "int \<Rightarrow> rec_request" where
  "sample_rec_request n = \<lparr>rr_observation = \<lparr>bo_id = 1, bo_spec = sample_observation_spec n,
       bo_raw = canonicalObservation (sample_observation_spec n)\<rparr>, rr_mode = ModePaper, rr_evaluated_at = 8\<rparr>"

definition sample_rec_env :: "acct_store \<Rightarrow> acct_store \<Rightarrow> rec_env" where
  "sample_rec_env s t = \<lparr>rv_lookup = False, rv_select = Acquired, rv_first = ((False, False), s),
     rv_second = ((False, False), t), rv_publish = False\<rparr>"

definition sample_rec :: rec_coord where
  "sample_rec = \<lparr>rc_config = DefaultConfig_rec, rc_running = [], rc_closed = False, rc_waiting = 0\<rparr>"

definition sample_evidence_store :: rec_store where
  "sample_evidence_store = \<lparr>rs_limit = 10, rs_by_observation = [], rs_checkpoints = []\<rparr>"

abbreviation sample_resolve :: "digest \<Rightarrow> instant \<Rightarrow> account_binding result" where
  "sample_resolve \<equiv> StaticBindings_rec sample_sha [(3, sample_binding)] False"

lemma sample_rec_new: "NewReconciliation DefaultConfig_rec = Inr sample_rec" "NewReconciliationStore 10 = Inr sample_evidence_store"
proof -
  have "trim_space ''position-reconciliation/v1'' \<noteq> []" by code_simp
  then show "NewReconciliation DefaultConfig_rec = Inr sample_rec"
    by (simp add: NewReconciliation_def DefaultConfig_rec_def sample_rec_def)
  show "NewReconciliationStore 10 = Inr sample_evidence_store"
    by (simp add: NewReconciliationStore_def sample_evidence_store_def)
qed

lemma sample_rec_request_valid: "0 \<le> n \<Longrightarrow> request_valid sample_sha (sample_rec_request n)"
proof -
  assume n: "0 \<le> n"
  have trim: "trim_space ''P'' = ''P''" "trim_space ''S'' = ''S''" "trim_space ''v1'' = ''v1''"
    "trim_space ''broker-position-observation/v1'' \<noteq> []" by code_simp+
  with n have "NewBrokerPositionObservation sample_sha (sample_observation_spec n) = Inr (rr_observation (sample_rec_request n))"
    by (simp add: NewBrokerPositionObservation_def sample_observation_spec_def sample_rec_request_def Let_def
        sample_binding_valid i64_defs)
      (simp add: state_checksum_acct_sample canonicalObservation_def)
  then show ?thesis
    by (simp add: request_valid_def) (simp add: sample_rec_request_def valid_mode_def)
qed

lemma sample_rec_fields [simp]:
  "rr_observation (sample_rec_request n) = \<lparr>bo_id = 1, bo_spec = sample_observation_spec n,
     bo_raw = canonicalObservation (sample_observation_spec n)\<rparr>"
  "rr_mode (sample_rec_request n) = ModePaper" "rr_evaluated_at (sample_rec_request n) = 8"
  "bs_net (sample_observation_spec n) = n" "bs_scope (sample_observation_spec n) = ScopePaper"
  "bs_observed_at (sample_observation_spec n) = 6" "bs_binding (sample_observation_spec n) = sample_binding"
  "bs_complete (sample_observation_spec n)" "bs_available (sample_observation_spec n)"
  "rc_config sample_rec = DefaultConfig_rec"
  by (simp_all add: sample_rec_request_def sample_observation_spec_def sample_rec_def)

lemma sample_observed: "observed_position sample_sha (sample_rec_request n) = 1"
  by (simp add: observed_position_def NewPositionID_def validParts_def sample_observation_spec_def sample_binding_def)

lemma sample_resolved_rec: "sample_resolve (ab_portfolio sample_binding) 6 = Inr sample_binding"
  by (simp add: StaticBindings_rec_def sample_binding_valid) (simp add: sample_binding_def)

lemma sample_evaluate:
  assumes "Position (False, False) 1 s = Inl (AccountingStorage ErrNotFound_acct)"
  shows "evaluate sample_sha (sample_rec_env s t) DefaultConfig_rec (sample_rec_request n) =
    Inr (buildEvidence sample_sha 1 None (sample_rec_request n) DefaultConfig_rec)"
  using assms by (simp add: evaluate_def sample_observed) (simp add: sample_rec_env_def)

lemma sample_absent: "Position (False, False) 1 sample_empty = Inl (AccountingStorage ErrNotFound_acct)"
  by (simp add: Position_def CurrentPositionCheckpoint_def empty_acct_store_def)

text \<open>The call on a fresh evidence store where there is no position.\<close>

abbreviation sample_verdict :: "int \<Rightarrow> evidence" where
  "sample_verdict n \<equiv> buildEvidence sample_sha 1 None (sample_rec_request n) DefaultConfig_rec"

lemma sample_verdict_fields [simp]: "ev_local (sample_verdict n) = 0" "ev_observation (sample_verdict n) = 1"
  by (simp_all add: buildEvidence_def Let_def split: prod.splits)

lemma sample_reconciled:
  fixes n :: int
  assumes "0 \<le> n"
  obtains t where "Reconcile sample_sha sample_resolve (sample_rec_env sample_empty sample_empty) (sample_rec_request n)
    (sample_evidence_store, sample_rec) = ((t, sample_rec), Inr (sample_verdict n))"
proof -
  obtain t where "Publish_rec sample_sha False (sample_verdict n) (checkpoint_or_zero sample_sha 1 (ev_id (sample_verdict n)))
      sample_evidence_store = (t, Inr (sample_verdict n))"
    by (simp add: Publish_rec_def sample_evidence_store_def size_of_def)
  moreover have "evaluate sample_sha (sample_rec_env sample_empty sample_empty) (rc_config sample_rec) (sample_rec_request n) =
      Inr (sample_verdict n)" using sample_evaluate [OF sample_absent] by simp
  moreover have "Evidence False 1 sample_evidence_store = Inl (AccountingStorage ErrNotFound_acct)" "\<not> rc_closed sample_rec"
    "rc_running sample_rec = []" by (simp_all add: Evidence_def sample_evidence_store_def sample_rec_def)
  moreover have "rv_select (sample_rec_env sample_empty sample_empty) = Acquired"
    "\<not> rv_lookup (sample_rec_env sample_empty sample_empty)" "\<not> rv_publish (sample_rec_env sample_empty sample_empty)"
    by (simp_all add: sample_rec_env_def)
  ultimately have "Reconcile sample_sha sample_resolve (sample_rec_env sample_empty sample_empty) (sample_rec_request n)
      (sample_evidence_store, sample_rec) = ((t, sample_rec), Inr (sample_verdict n))"
    using sample_rec_request_valid [OF assms] sample_resolved_rec by (simp add: Reconcile_def)
  then show thesis by (rule that)
qed

section \<open>When trading may go on\<close>

text \<open>
  C32: reconciliation fails closed. Fresh evidence leaves trading unblocked, with severity HEALTHY, exactly when the
  broker's observation can be compared in this mode, is available and complete, is not older than the configured age
  nor from the future, and its quantity is the local one; everything else is blocked. The local quantity is that of
  the position as it was read, at a revision that a second read found unchanged, or 0 where there was no position.
\<close>

theorem reconciliation_fails_closed:
  fixes request :: rec_request
  assumes "Reconcile sha resolve env request (s, c) = ((s', c'), Inr e)"
    "map_of (rs_by_observation s) (bo_id (rr_observation request)) = None"
    "NewReconciliation (rc_config c) = Inr d" "rg_maximum_age (rc_config c) < max_i64"
  shows "(\<not> ev_blocked e \<longleftrightarrow> broker_known request \<and> broker_fresh (rc_config c) request \<and>
        ev_local e = bs_net (bo_spec (rr_observation request))) \<and>
    (ev_severity e = SeverityHealthy \<longleftrightarrow> \<not> ev_blocked e) \<and>
    (\<exists>position. ev_local e = local_quantity position \<and> (ev_revision e, ev_checksum e) = read_head position \<and>
       (case Position (fst (rv_first env)) (observed_position sha request) (snd (rv_first env)) of
          Inl err \<Rightarrow> err = AccountingStorage ErrNotFound_acct \<and> position = None
        | Inr p \<Rightarrow> position = p \<and> (\<exists>q. read_head q = read_head p \<and>
            Position (fst (rv_second env)) (observed_position sha request) (snd (rv_second env)) = Inr q)))"
proof -
  let ?pid = "observed_position sha request"
  have ev: "evaluate sha env (rc_config c) request = Inr e"
    using assms(1)
  proof (cases rule: Reconcile_cases)
    case (evaluated e')
    from evaluated(4) evaluate_observation [OF evaluated(2)] assms(2) have "e' = e"
      by (auto simp: Publish_rec_def split: if_splits)
    with evaluated show ?thesis by simp
  qed (use assms(2) in auto)
  then obtain position where p: "e = buildEvidence sha ?pid position request (rc_config c)"
    and reads: "case Position (fst (rv_first env)) ?pid (snd (rv_first env)) of
          Inl err \<Rightarrow> err = AccountingStorage ErrNotFound_acct \<and> position = None
        | Inr p \<Rightarrow> position = p \<and> (\<exists>q. read_head q = read_head p \<and>
            Position (fst (rv_second env)) ?pid (snd (rv_second env)) = Inr q)"
    by (auto simp: evaluate_def Let_def split: sum.splits if_splits)
  obtain cl sev reason known fresh where
    k: "classify (rc_config c) request (local_quantity position) = (cl, sev, reason, known, fresh)"
    by (metis prod_cases5)
  note fields = buildEvidence_fields [OF k, of sha ?pid, folded p]
  have age: "0 < rg_maximum_age (rc_config c)"
    using assms(3) by (auto simp: NewReconciliation_def split: if_splits)
  note cs = classify_cases [OF age assms(4), of request "local_quantity position", unfolded k fst_conv snd_conv]
  have "cl = Match \<longleftrightarrow> broker_known request \<and> broker_fresh (rc_config c) request \<and>
      local_quantity position = bs_net (bo_spec (rr_observation request))"
    using cs(1) by (auto simp: Let_def)
  moreover have "sev = SeverityHealthy \<longleftrightarrow> cl = Match"
    using cs(2) by (cases cl) simp_all
  ultimately show ?thesis using fields reads by (intro conjI exI [of _ position]) auto
qed

theorem reconciliation_fails_closed_witness:
  "\<exists>t e. Reconcile sample_sha sample_resolve (sample_rec_env sample_empty sample_empty) (sample_rec_request 5)
      (sample_evidence_store, sample_rec) = ((t, sample_rec), Inr e) \<and> ev_blocked e \<and> ev_severity e \<noteq> SeverityHealthy"
proof -
  let ?e = "sample_verdict 5"
  obtain t where t: "Reconcile sample_sha sample_resolve (sample_rec_env sample_empty sample_empty) (sample_rec_request 5)
      (sample_evidence_store, sample_rec) = ((t, sample_rec), Inr ?e)"
    by (rule sample_reconciled [of 5]) simp_all
  have "ev_local ?e = 0" by simp
  with reconciliation_fails_closed [OF t] t sample_rec_new(1) show ?thesis
    by (simp add: sample_evidence_store_def DefaultConfig_rec_def i64_defs)
qed

section \<open>Retries and the evidence store\<close>

text \<open>
  C33: an observation is reconciled once. When evidence was returned for an observation, the same request at any later
  moment, whatever happened to the position or to the evidence of other observations, returns the same evidence and
  changes nothing.
\<close>

theorem reconcile_idempotent:
  assumes "Reconcile sha resolve env request (s, c) = ((s', c'), Inr e)" "rec_inv sha s'"
    "(rec_step sha)\<^sup>*\<^sup>* (s', c') (t, d)" "\<not> rv_lookup env'"
  shows "Reconcile sha resolve env' request (t, d) = ((t, d), Inr e)"
  using reconciled_again [OF assms(1) _ assms(4)] rec_run.reach_grows [OF assms(3)] assms(2) by simp

theorem reconcile_idempotent_witness:
  "\<exists>t e. Reconcile sample_sha sample_resolve (sample_rec_env sample_empty sample_empty) (sample_rec_request 5)
      (t, sample_rec) = ((t, sample_rec), Inr e) \<and> ev_local e = 0"
proof -
  let ?e = "sample_verdict 5"
  let ?env = "sample_rec_env sample_empty sample_empty"
  obtain t where t: "Reconcile sample_sha sample_resolve ?env (sample_rec_request 5)
      (sample_evidence_store, sample_rec) = ((t, sample_rec), Inr ?e)"
    by (rule sample_reconciled [of 5]) simp_all
  have "rec_inv sample_sha t"
    using rec_step_keeps(2) [OF rec_step.reconcile [OF t]] NewReconciliationStore_inv [OF sample_rec_new(2)] by simp
  then have "Reconcile sample_sha sample_resolve ?env (sample_rec_request 5) (t, sample_rec) = ((t, sample_rec), Inr ?e)"
    using reconcile_idempotent [OF t _ rtranclp.rtrancl_refl, of ?env] by (simp add: sample_rec_env_def)
  moreover have "ev_local ?e = 0" by simp
  ultimately show ?thesis by blast
qed

text \<open>
  C34: evidence is kept. In every run of the coordinator from a new evidence store the number of pieces of evidence
  stays within the limit; whatever is stored under an observation at some moment is about that observation and can be
  read back at every later moment, together with a checkpoint that binds it to the observation.
\<close>

theorem evidence_kept:
  assumes "NewReconciliationStore limit = Inr s0" "(rec_step sha)\<^sup>*\<^sup>* (s0, c0) (s, c)" "(rec_step sha)\<^sup>*\<^sup>* (s, c) (t, d)"
  shows "size_of (rs_by_observation t) \<le> limit \<and>
    (\<forall>i e. Evidence False i s = Inr e \<longrightarrow> ev_observation e = i \<and> Evidence False i t = Inr e \<and>
       (\<exists>k. Checkpoint_rec False i t = Inr k \<and> rk_checksum k = rk_checksum (checkpoint_or_zero sha i (ev_id e))))"
proof -
  have inv: "rec_inv sha s0" using NewReconciliationStore_inv [OF assms(1)] .
  then have invs: "rec_inv sha s" "rec_inv sha t"
    using rec_run.reach_inv [OF assms(2)] rec_run.reach_inv [OF assms(3)] by simp_all
  have grows: "rec_grows s0 s" "rec_grows s t"
    using rec_run.reach_grows [OF assms(2)] rec_run.reach_grows [OF assms(3)] inv invs by simp_all
  have "rs_limit s0 = limit" using assms(1) by (auto simp: NewReconciliationStore_def split: if_splits)
  then have "size_of (rs_by_observation t) \<le> limit" using grows invs(2) by (simp add: rec_grows_def rec_inv_def)
  moreover have "ev_observation e = i \<and> Evidence False i t = Inr e \<and>
       (\<exists>k. Checkpoint_rec False i t = Inr k \<and> rk_checksum k = rk_checksum (checkpoint_or_zero sha i (ev_id e)))"
    if "Evidence False i s = Inr e" for i e
  proof -
    have "map_of (rs_by_observation s) i = Some e" using that by (auto simp: Evidence_def split: option.splits)
    moreover from this have "map_of (rs_by_observation t) i = Some e"
      using grows(2) by (auto simp: rec_grows_def map_le_def dom_def)
    ultimately show ?thesis using invs by (fastforce simp: rec_inv_def Evidence_def Checkpoint_rec_def)
  qed
  ultimately show ?thesis by blast
qed

theorem evidence_kept_witness:
  "\<exists>t e. (rec_step sample_sha)\<^sup>*\<^sup>* (sample_evidence_store, sample_rec) (t, sample_rec) \<and> Evidence False 1 t = Inr e \<and>
     ev_observation e = 1 \<and> size_of (rs_by_observation t) \<le> 10"
proof -
  let ?e = "sample_verdict 5"
  obtain t where t: "Reconcile sample_sha sample_resolve (sample_rec_env sample_empty sample_empty) (sample_rec_request 5)
      (sample_evidence_store, sample_rec) = ((t, sample_rec), Inr ?e)"
    by (rule sample_reconciled [of 5]) simp_all
  have run: "(rec_step sample_sha)\<^sup>*\<^sup>* (sample_evidence_store, sample_rec) (t, sample_rec)"
    using rec_step.reconcile [OF t] by blast
  have "Evidence False 1 t = Inr ?e" using reconciled_stored [OF t] by (simp add: Evidence_def)
  with evidence_kept [OF sample_rec_new(2) run rtranclp.rtrancl_refl] run show ?thesis by blast
qed

section \<open>The gap between the two reads\<close>

text \<open>
  C35: a position that is opened while the evidence is built goes unnoticed. Only a position that the first read
  found is read again; where the first read finds none, the evidence says that the local quantity is 0 at revision 0,
  whatever the position store holds when it is published.
\<close>

theorem reconcile_misses_opening:
  assumes "Reconcile sha resolve env request (s, c) = ((s', c'), Inr e)"
    "map_of (rs_by_observation s) (bo_id (rr_observation request)) = None"
    "Position (fst (rv_first env)) (observed_position sha request) (snd (rv_first env)) = Inl (AccountingStorage ErrNotFound_acct)"
  shows "Reconcile sha resolve (env\<lparr>rv_second := (ctx, held)\<rparr>) request (s, c) = ((s', c'), Inr e) \<and>
    ev_local e = 0 \<and> ev_revision e = 0"
proof -
  have same: "evaluate sha (env\<lparr>rv_second := (ctx, held)\<rparr>) (rc_config c) request = evaluate sha env (rc_config c) request"
    "evaluate sha env (rc_config c) request = Inr (buildEvidence sha (observed_position sha request) None request (rc_config c))"
    using assms(3) by (simp_all add: evaluate_def)
  have kept: "rv_lookup (env\<lparr>rv_second := (ctx, held)\<rparr>) = rv_lookup env" "rv_select (env\<lparr>rv_second := (ctx, held)\<rparr>) = rv_select env"
    "rv_publish (env\<lparr>rv_second := (ctx, held)\<rparr>) = rv_publish env" by simp_all
  have "Reconcile sha resolve (env\<lparr>rv_second := (ctx, held)\<rparr>) request (s, c) = Reconcile sha resolve env request (s, c)"
    unfolding Reconcile_def by (simp only: Let_def prod.case same(1) kept)
  moreover have "e = buildEvidence sha (observed_position sha request) None request (rc_config c)"
    using assms(1)
  proof (cases rule: Reconcile_cases)
    case (evaluated e')
    from evaluated(4) evaluate_observation [OF evaluated(2)] assms(2) have "e' = e"
      by (auto simp: Publish_rec_def split: if_splits)
    with evaluated same show ?thesis by simp
  qed (use assms(2) in auto)
  ultimately show ?thesis using assms(1) by (simp add: buildEvidence_def Let_def split: prod.splits)
qed

text \<open>
  In the witness the broker reports no position; the fill of the sample request is ingested between the two reads, so
  that the store holds six units, and the evidence nevertheless reports agreement.
\<close>

theorem reconcile_misses_opening_witness:
  "\<exists>held t e ps. Position (False, False) 1 held = Inr (Some ps) \<and> pn_net (ps_spec ps) = 6 \<and>
     Reconcile sample_sha sample_resolve (sample_rec_env sample_empty held) (sample_rec_request 0)
       (sample_evidence_store, sample_rec) = ((t, sample_rec), Inr e) \<and> ev_local e = 0 \<and> \<not> ev_blocked e"
proof -
  obtain p and r :: apply_result where p: "applyFill sample_sha sample_env sample_ingested (Some sample_metadata)
      (sample_empty, sample_coordinator) = ((commit_position sample_empty p, sample_coordinator), Inr (position_receipt_of p))"
    "Apply sample_sha None sample_ingested = Inr r" "pc_snapshot (pp_next p) = ar_snapshot r" "pp_fill p = sample_ingested"
    by (rule applyFill_commits [OF sample_sha_nonzero empty_acct_store_inv [where lim = DefaultLimits_acct] sample_env_live,
          of sample_coordinator sample_ingested "Some sample_metadata"])
      (simp_all add: sample_coordinator_def sample_ingested_built sample_empty_facts sample_ingested_acceptable sample_metadata_ok)
  let ?held = "commit_position sample_empty p"
  have held: "Position (False, False) 1 ?held = Inr (Some (ar_snapshot r))"
    using commit_position_queries [where v = p and st = sample_empty] p(3,4) by simp
  have net: "pn_net (ps_spec (ar_snapshot r)) = 6"
    using Apply_ok [OF p(2) sample_ingested_built]
    by (auto simp: current_ok_def applied_def base_spec_def opening_spec_def money_or_zero_eq fill_delta_def
        signed_quantity_def ledger_step_def Let_def)
  let ?e = "sample_verdict 0"
  obtain t where t: "Reconcile sample_sha sample_resolve (sample_rec_env sample_empty sample_empty) (sample_rec_request 0)
      (sample_evidence_store, sample_rec) = ((t, sample_rec), Inr ?e)"
    by (rule sample_reconciled [of 0]) simp_all
  have env: "(sample_rec_env sample_empty sample_empty)\<lparr>rv_second := ((False, False), ?held)\<rparr> = sample_rec_env sample_empty ?held"
    by (simp add: sample_rec_env_def)
  have "\<not> ev_blocked ?e"
    by (simp add: buildEvidence_def classify_def comparable_def signsDiffer_def sub_time_def i64_defs DefaultConfig_rec_def Let_def)
  moreover have "Reconcile sample_sha sample_resolve (sample_rec_env sample_empty ?held) (sample_rec_request 0)
      (sample_evidence_store, sample_rec) = ((t, sample_rec), Inr ?e) \<and> ev_local ?e = 0 \<and> ev_revision ?e = 0"
    unfolding env [symmetric]
    by (rule reconcile_misses_opening [OF t])
      (simp_all add: sample_evidence_store_def sample_observed, simp add: sample_rec_env_def sample_absent)
  ultimately show ?thesis using held net by blast
qed

end
