(* ===== verification/Exec_Sample.thy ===== *)
theory Exec_Sample
  imports Exec_System Claims_Reconciliation
begin

text \<open>
  A coordinator, a store and a broker on which the properties of the execution coordinator are applied: the sample
  plan with its one order, and a broker that accepts every submission.
\<close>

definition sample_alone :: "nat \<Rightarrow> unit exec_env" where
  "sample_alone k = \<lparr>xe_ctx = (\<lambda>n. (k \<le> n, k \<le> n)), xe_others = (\<lambda>n w. (w_store w, w_broker w)), xe_busy = (\<lambda>_ _. False),
     xe_select = Acquired\<rparr>"

definition sample_snapshot :: order_snapshot where
  "sample_snapshot = \<lparr>sn_client = 1, sn_broker_order = ''B'', sn_instrument = 11, sn_side = SideBuy, sn_quantity = 10,
     sn_limit_price = \<lparr>price_minor = 100, price_currency = ''INR''\<rparr>, sn_state = OrderSubmitted, sn_cumulative = 0,
     sn_fills = [], sn_updated_at = 30\<rparr>"

definition sample_port :: "unit port" where
  "sample_port = \<lparr>port_submit = (\<lambda>d r b. (b, Inr \<lparr>sr_status = SubmissionAccepted, sr_broker_order = ''B''\<rparr>)),
     port_lookup = (\<lambda>d c b. (b, Inr sample_snapshot)), port_cancel = (\<lambda>d r b. (b, Inr True)),
     port_events = (\<lambda>d c n b. (b, Inr \<lparr>eb_events = [], eb_next = c, eb_complete = True\<rparr>)),
     port_snapshot = (\<lambda>d n b. (b, Inr \<lparr>bk_orders = [sample_snapshot], bk_complete = True, bk_cursor = 0, bk_observed_at = 30\<rparr>))\<rparr>"

definition sample_live :: "order_state \<Rightarrow> oms_store" where
  "sample_live s = NewStore\<lparr>st_plans := [(1, \<lparr>sp_intent = sample_intent, sp_plan = sample_plan, sp_canonical = []\<rparr>)],
     st_intents := [(1, sample_intent)], st_current := [(1, 2)],
     st_checkpoints := [(1, [(2, sample_checkpoint (sample_order s 2 0 5) 1 21 0)])]\<rparr>"

definition sample_exec :: exec_coord where
  "sample_exec = \<lparr>xc_config = DefaultConfig_exec, xc_plans = [], xc_orders = [], xc_closed = False, xc_waiting = 0, xc_cursor = 0\<rparr>"

definition sample_world :: "order_state \<Rightarrow> unit world" where
  "sample_world s = \<lparr>w_store = sample_live s, w_broker = (), w_coord = sample_exec, w_now = 0, w_sent = []\<rparr>"

lemma sample_exec_new: "NewExecCoordinator DefaultConfig_exec = Inr sample_exec"
  by (simp add: NewExecCoordinator_def DefaultConfig_exec_def sample_exec_def)

lemma sample_alone_alone: "alone (sample_alone k)"
  by (simp add: alone_def sample_alone_def)

lemma sample_tick: "tick (sample_alone k) w = w\<lparr>w_now := Suc (w_now w)\<rparr>"
  by (simp add: tick_def sample_alone_def)

lemma sample_live_inv:
  assumes "s \<in> {OrderPlanned, OrderSubmissionPending, OrderUnknown}"
  shows "live_inv sample_sha (sample_live s)"
proof -
  have built: "order_built (sample_order s 2 0 5)"
    using assms by (auto simp: order_built_def order_wf_def OrderState_Validate_def i64_defs max_u64_def) (simp_all add: sample_defs)
  then have "oms_inv (sample_live s)"
    by (auto simp: oms_inv_def head_ok_def sample_live_def oms_history_def oms_head_def get_or_def NewStore_def NewStoreInstrumented_def)
  then show ?thesis
    by (simp add: live_inv_def sample_live_def NewStore_def NewStoreInstrumented_def gomap_wf_def)
qed

lemma sample_sane: "s \<in> {OrderPlanned, OrderSubmissionPending, OrderUnknown} \<Longrightarrow> sane sample_sha (sample_world s)"
  using sample_live_inv by (simp add: sane_def sample_world_def one_attempt_def)

lemma sample_report_new:
  assumes "expectedReason kind = reason" "reportTarget kind = Some t" "validTransitionReason reason"
    "\<forall>c \<in> set key. \<not> space_byte c" "length key \<le> 1000"
  obtains r where "NewExecutionReport sample_sha \<lparr>ers_schema = ''execution-report/v1'', ers_source = ''COORDINATOR'',
        ers_source_event = digest_string 1 @ CHR ''-'' # key, ers_order = 1,
        ers_client = 1, ers_broker_order = b, ers_type = kind, ers_reason = reason,
        ers_cumulative = 0, ers_occurred_at = 40, ers_received_at = 40\<rparr> = Inr r"
    "er_id r = 1" "ers_order (er_spec r) = 1" "ers_client (er_spec r) = 1" "ers_type (er_spec r) = kind" "ers_cumulative (er_spec r) = 0"
    "ers_received_at (er_spec r) = 40"
proof -
  have trim: "trim_space ''execution-report/v1'' = ''execution-report/v1''" "trim_space ''COORDINATOR'' = ''COORDINATOR''" by code_simp+
  have "\<not> space_byte c" if "c \<in> set (digest_string 1)" for c using that by (auto simp: digest_string_def digit_not_space)
  moreover have "\<not> space_byte CHR ''-''" by code_simp
  ultimately have "\<forall>c \<in> set (digest_string 1 @ CHR ''-'' # key). \<not> space_byte c" using assms(4) by auto
  then have ev: "trim_space (digest_string 1 @ CHR ''-'' # key) = digest_string 1 @ CHR ''-'' # key" by (rule trim_space_id)
  show thesis
    using assms that by (simp add: NewExecutionReport_def trim ev NewExecutionReportID_def newID_def validParts_def Let_def)
qed

lemma sample_internal:
  assumes "w_store w = sample_live s" "w_now w + 2 \<le> k" "expectedReason kind = reason" "reportTarget kind = Some t"
    "validTransitionReason reason" "legalTransition s t" "t \<in> {OrderSubmissionPending, OrderUnknown, OrderSubmitted}"
    "\<forall>c \<in> set key. \<not> space_byte c" "length key \<le> 1000"
  shows "\<exists>nx st'. publishInternalWithBroker sample_sha (sample_alone k) (sample_order s 2 0 5) kind reason 40 key b w =
     (Inr nx, w\<lparr>w_store := st', w_now := w_now w + 2\<rparr>) \<and> state_of nx = t \<and> ord_id nx = 1 \<and> leg_of nx = sample_leg \<and> ord_client nx = 1 \<and> filled_of nx = 0"
proof -
  obtain r where r: "NewExecutionReport sample_sha \<lparr>ers_schema = ''execution-report/v1'', ers_source = ''COORDINATOR'',
        ers_source_event = digest_string 1 @ CHR ''-'' # key, ers_order = 1,
        ers_client = 1, ers_broker_order = b, ers_type = kind, ers_reason = reason,
        ers_cumulative = 0, ers_occurred_at = 40, ers_received_at = 40\<rparr> = Inr r"
    "er_id r = 1" "ers_order (er_spec r) = 1" "ers_client (er_spec r) = 1" "ers_type (er_spec r) = kind" "ers_cumulative (er_spec r) = 0"
    "ers_received_at (er_spec r) = 40"
    by (rule sample_report_new [OF assms(3,4,5,8,9)])
  obtain nx where nx: "ApplyExecutionReport (sample_order s 2 0 5) r None = Inr nx" "state_of nx = t" "ord_id nx = 1" "leg_of nx = sample_leg"
    "ord_client nx = 1" "filled_of nx = 0" "revision_of nx = 3" "ord_raw nx \<noteq> []"
    using assms(4,6,7) r(2-7)
    by (auto simp: ApplyExecutionReport_def check_fill_def newOrderValue_def OrderState_Validate_def i64_defs wrap_u64_def Let_def) (simp_all add: sample_defs)
  let ?c = "sample_checkpoint (sample_order s 2 0 5) 1 21 0" and ?w = "tick (sample_alone k) w"
  have cp: "CurrentOrderCheckpoint (xe_ctx (sample_alone k) (w_now w)) 1 (w_store ?w) = Inr ?c"
    using assms(1,2) by (simp add: CurrentOrderCheckpoint_def sample_alone_def tick_def sample_live_def checkpoint_at_def get_or_def)
  have pid: "NewPublicationID sample_sha [digest_string 1, digest_string (1::digest)] = Inr 1"
    by (simp add: NewPublicationID_def newID_def validParts_def)
  obtain p where p: "prepare_order sample_sha 1 ?c r None = Inr (nx, p)" "NewOrderPublication sample_sha p = Inr p"
    "pu_id p = 1" "pu_report p = r" "pu_fill p = None" "pu_expected_revision p = 2" "pu_expected_checkpoint p = 1"
    "oc_order (pu_next p) = nx" "oc_parent (pu_next p) = 1"
    using nx r(2-4)
    by (simp add: prepare_order_def NewOrderCheckpoint_def next_checkpoint_def NewOrderPublication_def publication_of_def pid
        id_or_zero_def wrap_u64_def Let_def) (simp add: canonicalOrderPublication_def)
  have "PublishOrderEvent sample_sha (xe_ctx (sample_alone k) (w_now ?w)) p (sample_live s) =
      (commit_publication (sample_live s) p nx, Inr (commit_receipt p nx))"
    using assms(2) nx r(2-4) p
    by (simp add: PublishOrderEvent_def admit_publication_def sample_alone_def tick_def sample_live_def NewStore_def NewStoreInstrumented_def
        checkpoint_at_def get_or_def size_of_def DefaultLimits_def Let_def)
  then have "publish sample_sha (sample_alone k) 1 r None w =
      (Inr nx, w\<lparr>w_store := commit_publication (sample_live s) p nx, w_now := w_now w + 2\<rparr>)"
    using cp p(1) assms(1)
    by (simp add: publish_def bind_op_def andThen_def query_def access_def lift_r_def ret_def sample_tick Let_def)
  with r(1) nx(2-6) show ?thesis
    by (auto simp: publishInternalWithBroker_def bind_op_def andThen_def lift_r_def)
qed

lemma sample_alone_fields [simp]:
  "xe_ctx (sample_alone k) n = (k \<le> n, k \<le> n)" "xe_busy (sample_alone k) n i = False" "xe_select (sample_alone k) = Acquired"
  by (simp_all add: sample_alone_def)

lemma sample_query: "query (sample_alone k) f w = (f (k \<le> w_now w, k \<le> w_now w) (w_store w), w\<lparr>w_now := Suc (w_now w)\<rparr>)"
  by (simp add: query_def access_def sample_tick Let_def)

lemma sample_queries:
  "OMS_Plan (False, False) 1 (sample_live s) = Inr sample_plan" "OMS_Intent (False, False) 1 (sample_live s) = Inr sample_intent"
  "OrdersForPlan (False, False) 1 (sample_live s) = Inr [sample_order s 2 0 5]"
  "OMS_Order (False, False) 1 (sample_live s) = Inr (sample_order s 2 0 5)"
  by (simp_all add: OMS_Plan_def OMS_Intent_def OMS_Order_def CurrentOrderCheckpoint_def OrdersForPlan_def current_orders_def sample_live_def NewStore_def
      NewStoreInstrumented_def checkpoint_at_def get_or_def Let_def)

lemmas sample_ops = bind_op_def andThen_def ret_def fail_def sample_query

lemma sample_ready:
  assumes "w_store w = sample_live s" "w_now w + 3 \<le> k"
  shows "plan_ready (sample_alone k) 1 40 w = (Inr (sample_plan, [sample_order s 2 0 5]), w\<lparr>w_now := w_now w + 3\<rparr>)"
  using assms by (simp add: plan_ready_def sample_ops sample_queries sample_intent_spec_def sample_plan_spec_def)

lemma sample_drain:
  assumes "xc_cursor (w_coord w) = 0"
  shows "drain_tolerant sample_sha sample_port (sample_alone k) 40 w = (Inr (), w\<lparr>w_now := Suc (w_now w)\<rparr>)"
proof -
  have "w\<lparr>w_now := Suc (w_now w), w_coord := (w_coord w)\<lparr>xc_cursor := 0\<rparr>\<rparr> = w\<lparr>w_now := Suc (w_now w)\<rparr>"
    using assms by (cases w; cases "w_coord w") simp
  moreover have "w\<lparr>w_broker := w_broker w\<rparr> = w" for w :: "unit world" by simp
  ultimately show ?thesis using assms
    by (simp add: drain_tolerant_def DrainEvents_def invokeEvents_def invoke_def sample_tick sample_port_def bind_op_def andThen_def ret_def fail_def Let_def)
qed

lemma sample_submit:
  assumes "w_store w = sample_live OrderPlanned" "w_now w = 5" "w_sent w = []" "\<not> xc_closed (w_coord w)" "xc_orders (w_coord w) = []"
  shows "\<exists>st request st'. submit sample_sha sample_port (sample_alone 9) (sample_order OrderPlanned 2 0 5) 40 w =
    (Inl ContextDone, w\<lparr>w_store := st, w_now := 10, w_sent := [(request, st')]\<rparr>) \<and> sb_order request = 1"
proof -
  let ?att = "attempt_id sample_sha 1 (sample_order OrderPlanned 2 0 5) 40" and ?env = "sample_alone 9"
  let ?w = "w\<lparr>w_coord := (w_coord w)\<lparr>xc_orders := [(1, True)]\<rparr>, w_now := 6\<rparr>"
  have space: "\<not> space_byte c" if "c \<in> set (digest_string d)" for c d using that by (auto simp: digest_string_def digit_not_space)
  have "list_all (\<lambda>c. \<not> space_byte c) (''-pending'' @ ''-submitted'')" by code_simp
  then have keys: "\<forall>c \<in> set (digest_string ?att @ ''-pending''). \<not> space_byte c" "\<forall>c \<in> set (digest_string ?att @ ''-submitted''). \<not> space_byte c"
    using space by (auto simp: list_all_iff)
  obtain nx st where nx: "publishInternalWithBroker sample_sha ?env (sample_order OrderPlanned 2 0 5) ReportSubmissionPending
      ReasonSubmissionStarted 40 (digest_string ?att @ ''-pending'') [] ?w = (Inr nx, ?w\<lparr>w_store := st, w_now := 8\<rparr>)"
    "ord_id nx = 1" "ord_client nx = 1" "filled_of nx = 0"
    using sample_internal [of ?w OrderPlanned 9 ReportSubmissionPending ReasonSubmissionStarted OrderSubmissionPending
        "digest_string ?att @ ''-pending''" "[]"] keys(1) assms(1)
    by (auto simp: legalTransition_def validTransitionReason_def)
  obtain r where r: "NewExecutionReport sample_sha \<lparr>ers_schema = ''execution-report/v1'', ers_source = ''COORDINATOR'',
        ers_source_event = digest_string 1 @ CHR ''-'' # (digest_string ?att @ ''-submitted''), ers_order = 1,
        ers_client = 1, ers_broker_order = ''B'', ers_type = ReportSubmitted, ers_reason = ReasonBrokerAccepted,
        ers_cumulative = 0, ers_occurred_at = 40, ers_received_at = 40\<rparr> = Inr r"
    using sample_report_new [of ReportSubmitted ReasonBrokerAccepted OrderSubmitted "digest_string ?att @ ''-submitted''" "''B''"] keys(2) by (auto simp: validTransitionReason_def)
  let ?r = "submission_of ?att nx 40"
  have sent: "submit_attempts sample_port ?env ?r n (?w\<lparr>w_store := st, w_now := 8\<rparr>) =
      (Inr \<lparr>sr_status = SubmissionAccepted, sr_broker_order = ''B''\<rparr>, ?w\<lparr>w_store := st, w_now := 9, w_sent := [(?r, st)]\<rparr>)" for n
    using assms(3) by (subst submit_attempts.simps) (auto simp: invokeSubmit_def invoke_def sample_tick sample_port_def andThen_def lift_r_def Let_def split: nat.splits)
  have settle: "settle_submission sample_sha sample_port ?env ?att nx 40 (Inr \<lparr>sr_status = SubmissionAccepted, sr_broker_order = ''B''\<rparr>)
      (?w\<lparr>w_store := st, w_now := 9, w_sent := [(?r, st)]\<rparr>) = (Inl ContextDone, ?w\<lparr>w_store := st, w_now := 10, w_sent := [(?r, st)]\<rparr>)"
    using r nx(2-4) by (simp add: settle_submission_def publishInternalWithBroker_def publish_def sample_ops lift_r_def CurrentOrderCheckpoint_def)
  have body: "(let attemptID = ?att in bind_op (publishInternal sample_sha ?env (sample_order OrderPlanned 2 0 5) ReportSubmissionPending
      ReasonSubmissionStarted 40 (digest_string attemptID @ ''-pending'')) (\<lambda>pending w.
       andThen (submit_attempts sample_port ?env (submission_of attemptID pending 40) (nat (xg_retries (xc_config (w_coord w)))))
         (settle_submission sample_sha sample_port ?env attemptID pending 40) w)) ?w =
       (Inl ContextDone, ?w\<lparr>w_store := st, w_now := 10, w_sent := [(?r, st)]\<rparr>)"
    using nx(1) sent settle by (simp add: publishInternal_def bind_op_def andThen_def sample_defs Let_def)
  have "reserveOrder ?env 1 w = (True, w\<lparr>w_coord := (w_coord w)\<lparr>xc_orders := [(1, True)]\<rparr>\<rparr>)"
    using assms(4,5) by (simp add: reserveOrder_def get_or_def put_def Let_def)
  moreover have "releaseOrder 1 (?w\<lparr>w_store := st, w_now := 10, w_sent := [(?r, st)]\<rparr>) = w\<lparr>w_store := st, w_now := 10, w_sent := [(?r, st)]\<rparr>"
    using assms(5) by (cases w; cases "w_coord w") (simp add: releaseOrder_def)
  moreover have "bind_op (query ?env (\<lambda>ctx. OMS_Order ctx 1)) f (w\<lparr>w_coord := c\<rparr>) = f (sample_order OrderPlanned 2 0 5) (w\<lparr>w_coord := c, w_now := 6\<rparr>)"
    for f :: "order \<Rightarrow> (unit, order_receipt) op" and c
    using assms(1,2) by (simp add: sample_ops sample_queries)
  ultimately have "submit sample_sha sample_port ?env (sample_order OrderPlanned 2 0 5) 40 w =
      (Inl ContextDone, w\<lparr>w_store := st, w_now := 10, w_sent := [(?r, st)]\<rparr>)"
    using body by (simp add: submit_def reserving_def releasing_def del: Let_def)
  moreover have "sb_order ?r = 1" using nx(2) by (simp add: submission_of_def)
  ultimately show ?thesis by blast
qed

lemma sample_execution:
  "\<exists>x w' request st. ExecutePlan 9 sample_sha sample_port (sample_alone 9) 1 40 (sample_world OrderPlanned) = Some (x, w') \<and>
     w_sent w' = [(request, st)] \<and> sb_order request = 1"
proof -
  let ?env = "sample_alone 9" and ?w = "sample_world OrderPlanned"
  have w: "w_store ?w = sample_live OrderPlanned" "w_now ?w = 0" "w_coord ?w = sample_exec" "w_sent ?w = []"
    by (simp_all add: sample_world_def)
  define c where "c = fst (reservePlan 1 (digest_string 1 @ ''|'' @ rfc3339_nano 40) sample_exec)"
  have c: "reservePlan 1 (digest_string 1 @ ''|'' @ rfc3339_nano 40) sample_exec = (c, NoOutcome)" "xc_cursor c = 0" "xc_orders c = []" "\<not> xc_closed c"
    by (simp_all add: c_def reservePlan_def sample_exec_def)
  let ?v = "?w\<lparr>w_coord := c, w_now := 5\<rparr>"
  obtain st request st' where sub: "submit sample_sha sample_port ?env (sample_order OrderPlanned 2 0 5) 40 ?v =
      (Inl ContextDone, ?v\<lparr>w_store := st, w_now := 10, w_sent := [(request, st')]\<rparr>)" "sb_order request = 1"
    using sample_submit [of ?v] w c by auto
  have "by_leg [sample_order OrderPlanned 2 0 5] = [(1, sample_order OrderPlanned 2 0 5)]" by (simp add: by_leg_def put_def)
  then have "legs_loop sample_sha sample_port ?env 40 [sample_leg] (by_leg [sample_order OrderPlanned 2 0 5], False) ?v =
      (Inl ContextDone, ?v\<lparr>w_store := st, w_now := 10, w_sent := [(request, st')]\<rparr>)"
    using sub(1) by (simp add: leg_step_def sample_ops get_or_def dependenciesFilled_def Let_def) (simp add: sample_leg_def)
  then have "round_step sample_sha sample_port ?env 40 sample_plan (?w\<lparr>w_coord := c, w_now := 4\<rparr>) =
      (Inl ContextDone, ?v\<lparr>w_store := st, w_now := 10, w_sent := [(request, st')]\<rparr>)"
    using w by (simp add: round_step_def sample_ops sample_queries)
  then have "run_plan 9 sample_sha sample_port ?env 40 sample_plan receipt (?w\<lparr>w_now := 3, w_coord := c\<rparr>) =
      Some ((receipt, Some ContextDone), ?v\<lparr>w_store := st, w_now := 10, w_sent := [(request, st')]\<rparr>)" for receipt
    using sample_drain [of "?w\<lparr>w_now := 3, w_coord := c\<rparr>" 9] c(2) by (simp add: run_plan_def eval_nat_numeral)
  then show ?thesis
    using sample_ready [of ?w OrderPlanned 9] w c(1) sub(2)
    by (simp add: ExecutePlan_def allFilled_def reserved_run_def Let_def)
qed


lemma sample_recovery:
  assumes "w_store w = sample_live OrderUnknown" "w_now w + 3 \<le> k"
  shows "\<exists>nx w'. recoverUnknown sample_sha sample_port (sample_alone k) (sample_order OrderUnknown 2 0 5) 40 w = (Inr nx, w') \<and>
    w_coord w' = w_coord w"
proof -
  have key: "list_all (\<lambda>c. \<not> space_byte c) ''recovered-B''" by code_simp
  have terms: "same_terms sample_snapshot sample_leg" by (simp add: same_terms_def sample_snapshot_def sample_leg_def)
  have look: "invokeLookup sample_port (sample_alone k) 1 w = (Inr sample_snapshot, w\<lparr>w_now := Suc (w_now w)\<rparr>)"
    by (simp add: invokeLookup_def invoke_def sample_tick sample_port_def Let_def)
  obtain nx st where "publishInternalWithBroker sample_sha (sample_alone k) (sample_order OrderUnknown 2 0 5) ReportSubmitted
      ReasonBrokerAccepted 40 ''recovered-B'' ''B'' (w\<lparr>w_now := Suc (w_now w)\<rparr>) = (Inr nx, w\<lparr>w_store := st, w_now := w_now w + 3\<rparr>)"
    using sample_internal [of "w\<lparr>w_now := Suc (w_now w)\<rparr>" OrderUnknown k ReportSubmitted ReasonBrokerAccepted OrderSubmitted
        "''recovered-B''" "''B''"] assms key
    by (auto simp: legalTransition_def validTransitionReason_def list_all_iff numeral_3_eq_3)
  then show ?thesis using terms look
    by (auto simp: recoverUnknown_def bind_op_def andThen_def sample_snapshot_def)
qed

end
