(* ===== verification/Claims_Execution.thy ===== *)
theory Claims_Execution
  imports Exec_Sample
begin

text \<open>
  The properties of the execution coordinator (\<open>internal/execution/coordinator/coordinator.go\<close>), whatever the broker
  answers.
\<close>

text \<open>The order of a leg of the plan is FILLED.\<close>

definition filled_leg :: "order_plan \<Rightarrow> oms_store \<Rightarrow> digest \<Rightarrow> bool" where
  "filled_leg plan st d \<longleftrightarrow> (\<exists>b. order_at st (ord_id b) = Some b \<and> os_plan (ord_spec b) = op_id plan \<and>
     ol_id (leg_of b) = d \<and> state_of b = OrderFilled)"

lemma submitted_leg_filled:
  "submitted_leg plan (request, st) \<longleftrightarrow> (\<exists>leg \<in> set (op_legs plan). \<exists>a. order_at st (sb_order request) = Some a \<and>
     ol_id (leg_of a) = ol_id leg \<and> os_plan (ord_spec a) = op_id plan \<and> (\<forall>d \<in> set (ol_depends_on leg). filled_leg plan st d))"
  by (simp add: submitted_leg_def filled_leg_def)

section \<open>Properties\<close>

text \<open>
  C36: submissions wait for their dependencies. Whatever the broker answers and whatever other goroutines do to the orders
  the call does not hold, every submission that \<open>ExecutePlan\<close> or \<open>ResumePlan\<close> sends is for a leg of the
  stored plan, carries the terms of the order that is SUBMISSION_PENDING in the store at that moment, and is sent when the orders of
  all legs that leg depends on are FILLED. For a plan the constructor accepted, a leg that sells without reducing exposure is thus sent only
  after every protective leg is filled.
\<close>

theorem submissions_after_dependencies:
  assumes "env_ok sha env" "sane sha w" "ExecutePlan fuel sha port env pid at w = Some (x, w')"
  shows "\<exists>es. w_sent w' = w_sent w @ es \<and> (\<forall>(request, st) \<in> set es. \<exists>ctx plan. \<exists>leg \<in> set (op_legs plan). \<exists>a.
     OMS_Plan ctx pid (w_store (tick env w)) = Inr plan \<and> order_at st (sb_order request) = Some a \<and>
     os_plan (ord_spec a) = op_id plan \<and> ol_id (leg_of a) = ol_id leg \<and> state_of a = OrderSubmissionPending \<and>
     request = submission_of (sb_attempt request) a (sb_submitted_at request) \<and>
     (\<forall>d \<in> set (ol_depends_on leg). filled_leg plan st d) \<and>
     (NewOrderPlan sha spec = Inr plan \<and> ol_side leg = SideSell \<and> \<not> ol_reducing leg \<longrightarrow>
        (\<exists>p \<in> set (op_legs plan). ol_protective p) \<and> (\<forall>p \<in> set (op_legs plan). ol_protective p \<longrightarrow> filled_leg plan st (ol_id p))))"
proof -
  from movesD [OF ExecutePlan_moves [OF assms(1,3)] assms(2)] obtain es where es: "w_sent w' = w_sent w @ es" "sane sha w'"
    "\<forall>e \<in> set es. \<exists>plan ctx st. OMS_Plan ctx pid st = Inr plan \<and> st = w_store (tick env w) \<and> submitted_leg plan e" by blast
  have "\<exists>ctx plan. \<exists>leg \<in> set (op_legs plan). \<exists>a.
     OMS_Plan ctx pid (w_store (tick env w)) = Inr plan \<and> order_at st (sb_order request) = Some a \<and>
     os_plan (ord_spec a) = op_id plan \<and> ol_id (leg_of a) = ol_id leg \<and> state_of a = OrderSubmissionPending \<and>
     request = submission_of (sb_attempt request) a (sb_submitted_at request) \<and>
     (\<forall>d \<in> set (ol_depends_on leg). filled_leg plan st d) \<and>
     (NewOrderPlan sha spec = Inr plan \<and> ol_side leg = SideSell \<and> \<not> ol_reducing leg \<longrightarrow>
        (\<exists>p \<in> set (op_legs plan). ol_protective p) \<and> (\<forall>p \<in> set (op_legs plan). ol_protective p \<longrightarrow> filled_leg plan st (ol_id p)))"
    if e: "(request, st) \<in> set es" for request st
  proof -
    from es(3) e obtain plan ctx leg a where p: "OMS_Plan ctx pid (w_store (tick env w)) = Inr plan" "leg \<in> set (op_legs plan)"
      "order_at st (sb_order request) = Some a" "ol_id (leg_of a) = ol_id leg" "os_plan (ord_spec a) = op_id plan"
      "\<forall>d \<in> set (ol_depends_on leg). filled_leg plan st d" by (fastforce simp: submitted_leg_filled)
    from es(1,2) e have "entry_ok sha (w_store w') (request, st)" by (simp add: sane_def)
    with p(3) have q: "state_of a = OrderSubmissionPending" "request = submission_of (sb_attempt request) a (sb_submitted_at request)"
      unfolding entry_ok_def by auto
    have "(\<exists>p \<in> set (op_legs plan). ol_protective p) \<and> (\<forall>p \<in> set (op_legs plan). ol_protective p \<longrightarrow> ol_id p \<in> set (ol_depends_on leg))"
      if "NewOrderPlan sha spec = Inr plan" "ol_side leg = SideSell" "\<not> ol_reducing leg"
      using NewOrderPlan_safe [OF that(1)] that(2,3) p(2) unfolding plan_safe_def by blast
    with p q show ?thesis by blast
  qed
  with es(1) show ?thesis by blast
qed

theorem submissions_after_dependencies_witness:
  "\<exists>x w' request st a. ExecutePlan 9 sample_sha sample_port (sample_alone 9) 1 40 (sample_world OrderPlanned) = Some (x, w') \<and>
     w_sent w' = [(request, st)] \<and> order_at st 1 = Some a \<and> state_of a = OrderSubmissionPending \<and> sb_quantity request = quantity_of a"
proof -
  obtain x w' request st where run: "ExecutePlan 9 sample_sha sample_port (sample_alone 9) 1 40 (sample_world OrderPlanned) = Some (x, w')"
    "w_sent w' = [(request, st)]" "sb_order request = 1" using sample_execution by blast
  have sent: "w_sent (sample_world OrderPlanned) = []" by (simp add: sample_world_def)
  from submissions_after_dependencies [OF alone_ok [OF sample_alone_alone] sample_sane run(1)] run(2,3) sent
  obtain a where "order_at st 1 = Some a" "state_of a = OrderSubmissionPending" "request = submission_of (sb_attempt request) a (sb_submitted_at request)"
    by fastforce
  moreover from this(3) have "sb_quantity request = quantity_of a" by (metis submission_of_def submission.select_convs(6))
  ultimately show ?thesis using run by blast
qed

text \<open>
  C37: one attempt for each order. Over any run of the system - executions and resumptions of plans, cancellations, events,
  restarts that lose the coordinator's memory, and whatever the broker and other users of the order store do - every
  submission ever sent for an order belongs to the same attempt, carries the terms of that order, and is sent while the
  order is SUBMISSION_PENDING, so that a restart never submits an order anew.
\<close>

theorem one_submission_attempt:
  assumes "(exec_step sha)\<^sup>*\<^sup>* w w'" "live_inv sha (w_store w)" "w_sent w = []"
  shows "(\<forall>(request, st) \<in> set (w_sent w'). \<exists>a. order_at st (sb_order request) = Some a \<and>
        state_of a = OrderSubmissionPending \<and> request = submission_of (sb_attempt request) a (sb_submitted_at request)) \<and>
     (\<forall>(request, st) \<in> set (w_sent w'). \<forall>(request', st') \<in> set (w_sent w'). sb_order request = sb_order request' \<longrightarrow>
        sb_attempt request = sb_attempt request' \<and> sb_client request = sb_client request' \<and>
        sb_quantity request = sb_quantity request')"
proof -
  have "sane sha w" using assms(2,3) by (simp add: sane_def one_attempt_def)
  then have sane: "sane sha w'" by (rule exec_run.reach_inv [OF assms(1)])
  have entry: "entry_ok sha (w_store w') e" if "e \<in> set (w_sent w')" for e using sane that by (simp add: sane_def)
  have same: "sb_attempt r = sb_attempt r' \<and> sb_client r = sb_client r' \<and> sb_quantity r = sb_quantity r'"
    if e: "(r, s) \<in> set (w_sent w')" "(r', s') \<in> set (w_sent w')" "sb_order r = sb_order r'" for r s r' s'
  proof -
    from entry [OF e(1)] entry [OF e(2)] e(3) obtain a a' where a: "order_at s (sb_order r) = Some a" "r = submission_of (sb_attempt r) a (sb_submitted_at r)"
      "order_at s' (sb_order r) = Some a'" "r' = submission_of (sb_attempt r') a' (sb_submitted_at r')"
      "live_inv sha s" "live_inv sha s'" "(live_step sha)\<^sup>*\<^sup>* s (w_store w')" "(live_step sha)\<^sup>*\<^sup>* s' (w_store w')"
      unfolding entry_ok_def by auto
    from live_growsD [OF live_run.reach_grows [OF a(7,5)] a(1)] live_growsD [OF live_run.reach_grows [OF a(8,6)] a(3)]
    obtain b where "order_later a b" "order_later a' b" by auto
    then have "ord_client a = ord_client a'" "quantity_of a = quantity_of a'" unfolding order_later_def by auto
    moreover have "sb_client r = ord_client a" "sb_quantity r = quantity_of a" by (subst a(2), simp add: submission_of_def)+
    moreover have "sb_client r' = ord_client a'" "sb_quantity r' = quantity_of a'" by (subst a(4), simp add: submission_of_def)+
    moreover have "sb_attempt r = sb_attempt r'" using sane e unfolding sane_def one_attempt_def by fastforce
    ultimately show ?thesis by simp
  qed
  have pending: "\<exists>a. order_at st (sb_order r) = Some a \<and> state_of a = OrderSubmissionPending \<and>
      r = submission_of (sb_attempt r) a (sb_submitted_at r)" if "(r, st) \<in> set (w_sent w')" for r st
    using entry [OF that] unfolding entry_ok_def by auto
  show ?thesis
  proof (intro conjI ballI)
    fix e assume "e \<in> set (w_sent w')"
    with pending show "case e of (request, st) \<Rightarrow> \<exists>a. order_at st (sb_order request) = Some a \<and>
        state_of a = OrderSubmissionPending \<and> request = submission_of (sb_attempt request) a (sb_submitted_at request)"
      by (cases e) blast
  next
    fix e assume "e \<in> set (w_sent w')"
    with same show "case e of (request, st) \<Rightarrow> \<forall>(request', st') \<in> set (w_sent w'). sb_order request = sb_order request' \<longrightarrow>
        sb_attempt request = sb_attempt request' \<and> sb_client request = sb_client request' \<and> sb_quantity request = sb_quantity request'"
      by (cases e) blast
  qed
qed

theorem one_submission_attempt_witness:
  "\<exists>w' request st a. (exec_step sample_sha)\<^sup>*\<^sup>* (sample_world OrderPlanned) w' \<and> w_sent w' = [(request, st)] \<and>
     order_at st 1 = Some a \<and> state_of a = OrderSubmissionPending"
proof -
  obtain x w' request st where run: "ExecutePlan 9 sample_sha sample_port (sample_alone 9) 1 40 (sample_world OrderPlanned) = Some (x, w')"
    "w_sent w' = [(request, st)]" "sb_order request = 1" using sample_execution by blast
  have step: "(exec_step sample_sha)\<^sup>*\<^sup>* (sample_world OrderPlanned) w'"
    using exec_step.execute [OF alone_ok [OF sample_alone_alone] run(1)] by blast
  have "live_inv sample_sha (w_store (sample_world OrderPlanned))" "w_sent (sample_world OrderPlanned) = []"
    using sample_live_inv [of OrderPlanned] by (simp_all add: sample_world_def)
  from one_submission_attempt [OF step this] run(2,3) step show ?thesis by fastforce
qed

text \<open>
  C38: the execution of a plan ends. The loop of \<open>execute\<close> has no bound of its own; for a coordinator on its own, and
  whatever the broker answers, a number of rounds quadratic in the number of stored orders is enough.
\<close>

theorem execute_ends:
  assumes "alone env" "sane sha w"
    and "\<And>plan ctx. OMS_Plan ctx pid (w_store w) = Inr plan \<Longrightarrow> distinct (map ol_id (op_legs plan))"
    and "(2 * card (dom (map_of (st_current (w_store w)))) + 1) ^ 2 \<le> fuel"
  shows "\<exists>receipt err w'. ExecutePlan fuel sha port env pid at w = Some ((receipt, err), w')"
  using ExecutePlan_ends [OF assms] by fastforce

theorem execute_ends_witness:
  "\<exists>receipt err w'. ExecutePlan 9 sample_sha sample_port (sample_alone 1000) 1 40 (sample_world OrderUnknown) = Some ((receipt, err), w')"
proof (rule execute_ends [OF sample_alone_alone sample_sane])
  show "distinct (map ol_id (op_legs plan))" if "OMS_Plan ctx 1 (w_store (sample_world OrderUnknown)) = Inr plan" for plan ctx
    using that by (auto simp: OMS_Plan_def sample_world_def sample_live_def split: if_splits)
  show "(2 * card (dom (map_of (st_current (w_store (sample_world OrderUnknown))))) + 1) ^ 2 \<le> 9"
    by (simp add: sample_world_def sample_live_def)
qed simp



text \<open>
  C40: an order is recovered at most once. The report of a recovery is identified by the order and the broker's
  identity of it alone; once an UNKNOWN order was recovered, any later recovery of it is refused, so that an order that
  becomes UNKNOWN again, after a cancellation whose outcome is unknown, stays so.
\<close>

theorem recovery_not_repeated:
  assumes "env_ok sha env" "sane sha w" "held w (ord_id ord)" "names_order port (ord_client ord) brokerID"
    and "recoverUnknown sha port env ord at w = (Inr nx, w1)" "(exec_step sha)\<^sup>*\<^sup>* w1 w2"
    and "env_ok sha env'" "held w2 (ord_id ord')" "names_order port' (ord_client ord') brokerID" "ord_id ord' = ord_id ord"
    and "recoverUnknown sha port' env' ord' at' w2 = (y, w3)"
  shows "\<exists>e. y = Inl e"
proof (cases y)
  case (Inr ny)
  have m: "moves sha (\<lambda>_. True) w w1" by (rule keepsD [OF keeps_recover [OF assms(1)] assms(5)])
  have s1: "sane sha w1" using movesD(1) [OF m assms(2)] .
  have s2: "sane sha w2" by (rule exec_run.reach_inv [OF assms(6) s1])
  have "has (st_publications (w_store w2)) (internal_publication sha (ord_id ord) (''recovered-'' @ brokerID))"
    by (rule grows_has [OF exec_run.reach_grows [OF assms(6) s1] recover_new(2) [OF assms(1-5)]])
  with recover_new(1) [OF assms(7) s2 assms(8,9) assms(11) [unfolded Inr]] assms(10) show ?thesis by simp
qed simp

theorem recovery_not_repeated_witness:
  "\<exists>nx w1 e w3. recoverUnknown sample_sha sample_port (sample_alone 1000) (sample_order OrderUnknown 2 0 5) 40
        ((sample_world OrderUnknown)\<lparr>w_coord := sample_exec\<lparr>xc_orders := [(1, True)]\<rparr>\<rparr>) = (Inr nx, w1) \<and>
     recoverUnknown sample_sha sample_port (sample_alone 1000) (sample_order OrderUnknown 2 0 5) 50 w1 = (Inl e, w3)"
proof -
  let ?w = "(sample_world OrderUnknown)\<lparr>w_coord := sample_exec\<lparr>xc_orders := [(1, True)]\<rparr>\<rparr>" and ?o = "sample_order OrderUnknown 2 0 5"
  have w: "w_store ?w = sample_live OrderUnknown" "w_now ?w + 3 \<le> 1000" by (simp_all add: sample_world_def)
  obtain nx w1 where first: "recoverUnknown sample_sha sample_port (sample_alone 1000) ?o 40 ?w = (Inr nx, w1)" "w_coord w1 = w_coord ?w"
    using sample_recovery [OF w] by blast
  obtain y w3 where second: "recoverUnknown sample_sha sample_port (sample_alone 1000) ?o 50 w1 = (y, w3)" by fastforce
  have names: "names_order sample_port client ''B''" for client by (simp add: names_order_def sample_port_def sample_snapshot_def)
  have sane: "sane sample_sha ?w" using sample_sane [of OrderUnknown] by (simp add: sane_def)
  have "\<exists>e. y = Inl e"
    by (rule recovery_not_repeated [OF alone_ok [OF sample_alone_alone] sane _ names first(1) rtranclp.rtrancl_refl
          alone_ok [OF sample_alone_alone] _ names refl second]) (simp_all add: first(2) get_or_def)
  with first second show ?thesis by blast
qed

end
