(* ===== verification/Canonicaljson.thy ===== *)
theory Canonicaljson
  imports Errors Canonical
begin

text \<open>
  \<open>internal/canonicaljson\<close>: the canonical form of configuration documents. \<open>ObjectBounded\<close> reads one JSON object
  token by token, refuses duplicate and empty keys, numbers that are not integers and documents over the
  limits, and writes the tree back with sorted keys. \<open>json.Decoder.Token\<close> is modelled as far as it is used:
  the grammar it enforces, \<open>UseNumber\<close>, and the decoding of strings with escapes, surrogates and invalid UTF-8.
  The lemmas show that the recursion ends and that canonical documents are fixed points.
\<close>

section \<open>Strings\<close>

definition hex_digit :: "char \<Rightarrow> nat option" where
  "hex_digit c =
     (let n = of_char c :: nat in
      if 48 \<le> n \<and> n \<le> 57 then Some (n - 48)
      else if 97 \<le> n \<and> n \<le> 102 then Some (n - 87)
      else if 65 \<le> n \<and> n \<le> 70 then Some (n - 55)
      else None)"

fun hex4 :: "string \<Rightarrow> (nat \<times> string) option" where
  "hex4 (a # b # c # d # r) =
     (case (hex_digit a, hex_digit b, hex_digit c, hex_digit d) of
        (Some w, Some x, Some y, Some z) \<Rightarrow> Some (4096 * w + 256 * x + 16 * y + z, r)
      | _ \<Rightarrow> None)"
| "hex4 _ = None"

text \<open>\<open>utf8.EncodeRune\<close> for the runes that are not surrogates.\<close>

definition encode_rune :: "nat \<Rightarrow> string" where
  "encode_rune n =
     (if n < 128 then [char_of n]
      else if n < 2048 then [char_of (192 + n div 64), char_of (128 + n mod 64)]
      else if n < 65536 then
        [char_of (224 + n div 4096), char_of (128 + n div 64 mod 64), char_of (128 + n mod 64)]
      else [char_of (240 + n div 262144), char_of (128 + n div 4096 mod 64),
            char_of (128 + n div 64 mod 64), char_of (128 + n mod 64)])"

definition replacement_rune :: string where
  "replacement_rune = [CHR 0xEF, CHR 0xBF, CHR 0xBD]"

definition simple_escape :: "char \<Rightarrow> char option" where
  "simple_escape c =
     (if c = CHR 0x22 \<or> c = CHR 0x5C \<or> c = CHR ''/'' then Some c
      else if c = CHR ''b'' then Some (CHR 0x08)
      else if c = CHR ''f'' then Some (CHR 0x0C)
      else if c = CHR ''n'' then Some (CHR 0x0A)
      else if c = CHR ''r'' then Some (CHR 0x0D)
      else if c = CHR ''t'' then Some (CHR 0x09)
      else None)"

definition put_before :: "string \<Rightarrow> (string \<times> string) option \<Rightarrow> (string \<times> string) option" where
  "put_before w res = map_option (\<lambda>(s, r). (w @ s, r)) res"

text \<open>
  The rune of a \<open>\u\<close> escape with code \<open>u\<close> and the text after it: a high surrogate takes the low surrogate that
  follows, any other surrogate is replaced.
\<close>

definition escaped_rune :: "nat \<Rightarrow> string \<Rightarrow> string \<times> string" where
  "escaped_rune u r =
     (if u < 55296 \<or> 57343 < u then (encode_rune u, r)
      else case r of
        a # b # q \<Rightarrow>
          (if a = CHR 0x5C \<and> b = CHR ''u'' then
             (case hex4 q of
                Some (v, q') \<Rightarrow>
                  (if u < 56320 \<and> 56320 \<le> v \<and> v < 57344
                   then (encode_rune (65536 + 1024 * (u - 55296) + (v - 56320)), q')
                   else (replacement_rune, r))
              | None \<Rightarrow> (replacement_rune, r))
           else (replacement_rune, r))
      | _ \<Rightarrow> (replacement_rune, r))"

lemma hex4_shorter: "hex4 s = Some (n, r) \<Longrightarrow> length r < length s"
  by (induction s rule: hex4.induct) (auto split: option.splits)

lemma escaped_rune_shorter: "length (snd (escaped_rune u r)) \<le> length r"
proof (cases r)
  case (Cons a r')
  show ?thesis
  proof (cases r')
    case (Cons b q)
    with \<open>r = a # r'\<close> hex4_shorter [of q] show ?thesis
      by (auto simp: escaped_rune_def split: option.splits)
  qed (use \<open>r = a # r'\<close> in \<open>auto simp: escaped_rune_def\<close>)
qed (auto simp: escaped_rune_def)

text \<open>The contents of a string literal after its opening quote, and what follows its closing quote.\<close>

function read_string :: "string \<Rightarrow> (string \<times> string) option" where
  "read_string [] = None"
| "read_string (c # s) =
     (if c = CHR 0x22 then Some ([], s)
      else if c = CHR 0x5C then
        (case s of
           [] \<Rightarrow> None
         | e # r \<Rightarrow>
             (if e = CHR ''u'' then
                (case hex4 r of
                   None \<Rightarrow> None
                 | Some (u, q) \<Rightarrow> put_before (fst (escaped_rune u q)) (read_string (snd (escaped_rune u q))))
              else case simple_escape e of
                None \<Rightarrow> None
              | Some x \<Rightarrow> put_before [x] (read_string r)))
      else if (of_char c :: nat) < 32 then None
      else if (of_char c :: nat) < 128 then put_before [c] (read_string s)
      else if utf8_len (c # s) = 0 then put_before replacement_rune (read_string s)
      else put_before (take (utf8_len (c # s)) (c # s)) (read_string (drop (utf8_len (c # s) - 1) s)))"
  by pat_completeness auto
termination
proof (relation "measure length", goal_cases)
  case (2 c s e r x2 u q)
  then have "length (snd (escaped_rune u q)) < length r"
    using hex4_shorter [of r u q] escaped_rune_shorter [of u q] by simp
  with 2 show ?case by simp
qed auto

declare read_string.simps(2) [simp del]

section \<open>Numbers\<close>

definition is_digit :: "char \<Rightarrow> bool" where
  "is_digit c \<longleftrightarrow> CHR ''0'' \<le> c \<and> c \<le> CHR ''9''"

text \<open>
  The number literal a text starts with; a fraction or an exponent makes the literal one that \<open>validInteger\<close>
  refuses, whatever its digits.
\<close>

definition read_number :: "string \<Rightarrow> (string \<times> string) option" where
  "read_number s =
     (let sign = (if s \<noteq> [] \<and> hd s = CHR ''-'' then ''-'' else []);
          d = drop (length sign) s;
          ds = takeWhile is_digit d;
          int_part = (if ds \<noteq> [] \<and> hd ds = CHR ''0'' then ''0'' else ds);
          r = drop (length int_part) d in
      if ds = [] then None
      else if r \<noteq> [] \<and> hd r \<in> {CHR ''.'', CHR ''e'', CHR ''E''} then None
      else Some (sign @ int_part, r))"

definition validInteger :: "string \<Rightarrow> bool" where
  "validInteger value =
     (if value = ''0'' then True
      else
        let negative = prefix ''-'' value;
            value = (if negative then tl value else value) in
        if value = [] \<or> hd value = CHR ''0'' \<or> (negative \<and> value = ''0'') then False
        else list_all is_digit value)"

section \<open>Values\<close>

datatype jtree =
    TNull
  | TBool bool
  | TNumber string
  | TString string
  | TArray "jtree list"
  | TObject "(string \<times> jtree) list"

record canonical_limits =
  cl_bytes :: int
  cl_depth :: int
  cl_collection :: int

definition json_space :: "char \<Rightarrow> bool" where
  "json_space c \<longleftrightarrow> c \<in> {CHR '' '', CHR 0x09, CHR 0x0A, CHR 0x0D}"

definition skip_space :: "string \<Rightarrow> string" where
  "skip_space = dropWhile json_space"

definition read_scalar :: "string \<Rightarrow> (jtree \<times> string) result" where
  "read_scalar s =
     (if prefix [CHR 0x22] s then
        (case read_string (tl s) of None \<Rightarrow> Inl CanonicalJSON | Some (t, r) \<Rightarrow> Inr (TString t, r))
      else if prefix ''true'' s then Inr (TBool True, drop 4 s)
      else if prefix ''false'' s then Inr (TBool False, drop 5 s)
      else if prefix ''null'' s then Inr (TNull, drop 4 s)
      else case read_number s of
        None \<Rightarrow> Inl CanonicalJSON
      | Some (t, r) \<Rightarrow> if validInteger t then Inr (TNumber t, r) else Inl CanonicalJSON)"

text \<open>The key of the next member: a comma before every member but the first, the key, a colon.\<close>

definition read_key :: "bool \<Rightarrow> (string \<times> jtree) list \<Rightarrow> string \<Rightarrow> (string \<times> string) result" where
  "read_key first members s =
     (let s = skip_space (if first then s else tl s) in
      if \<not> prefix [CHR 0x22] s then Inl CanonicalJSON
      else case read_string (tl s) of
        None \<Rightarrow> Inl CanonicalJSON
      | Some (key, r) \<Rightarrow>
          if key = [] \<or> key \<in> fst ` set members then Inl CanonicalJSON
          else if prefix '':'' (skip_space r) then Inr (key, tl (skip_space r))
          else Inl CanonicalJSON)"

text \<open>
  \<open>decodeValue\<close> is called for a value, and in its loops over the members of an object and the elements of an
  array; a \<open>position\<close> says which, with the depth and what the loop has read. The three bodies take the recursive
  call as an argument, and \<open>decode\<close> closes the recursion with a bound on its depth; \<open>decode_fuel\<close> below shows
  that twice the length of the text is enough.
\<close>

datatype position =
    AtValue int
  | InObject int "(string \<times> jtree) list"
  | InArray int "jtree list"

type_synonym decoder = "position \<Rightarrow> string \<Rightarrow> (jtree \<times> string) result"

definition decodeValue :: "canonical_limits \<Rightarrow> decoder \<Rightarrow> int \<Rightarrow> string \<Rightarrow> (jtree \<times> string) result" where
  "decodeValue lim again depth text =
     (if cl_depth lim > 0 \<and> depth > cl_depth lim then Inl CanonicalJSON
      else
        let s = skip_space text in
        if prefix ''{'' s then again (InObject depth []) (tl s)
        else if prefix ''['' s then again (InArray depth []) (tl s)
        else read_scalar s)"

definition decodeMembers ::
  "canonical_limits \<Rightarrow> decoder \<Rightarrow> int \<Rightarrow> (string \<times> jtree) list \<Rightarrow> string \<Rightarrow> (jtree \<times> string) result" where
  "decodeMembers lim again depth members text =
     (let s = skip_space text in
      if s = [] \<or> prefix '']'' s then Inl CanonicalJSON
      else if prefix ''}'' s then Inr (TObject members, tl s)
      else if cl_collection lim > 0 \<and> int (length members) \<ge> cl_collection lim then Inl CanonicalJSON
      else if members \<noteq> [] \<and> \<not> prefix '','' s then Inl CanonicalJSON
      else case read_key (members = []) members s of
        Inl e \<Rightarrow> Inl e
      | Inr (key, r) \<Rightarrow>
          (case again (AtValue (depth + 1)) r of
             Inl e \<Rightarrow> Inl e
           | Inr (v, q) \<Rightarrow> again (InObject depth (members @ [(key, v)])) q))"

definition decodeElements ::
  "canonical_limits \<Rightarrow> decoder \<Rightarrow> int \<Rightarrow> jtree list \<Rightarrow> string \<Rightarrow> (jtree \<times> string) result" where
  "decodeElements lim again depth elements text =
     (let s = skip_space text in
      if s = [] \<or> prefix ''}'' s then Inl CanonicalJSON
      else if prefix '']'' s then Inr (TArray elements, tl s)
      else if cl_collection lim > 0 \<and> int (length elements) \<ge> cl_collection lim then Inl CanonicalJSON
      else if elements \<noteq> [] \<and> \<not> prefix '','' s then Inl CanonicalJSON
      else case again (AtValue (depth + 1)) (if elements = [] then s else tl s) of
        Inl e \<Rightarrow> Inl e
      | Inr (v, q) \<Rightarrow> again (InArray depth (elements @ [v])) q)"

primrec decode :: "nat \<Rightarrow> canonical_limits \<Rightarrow> position \<Rightarrow> string \<Rightarrow> (jtree \<times> string) result" where
  "decode 0 lim p text = Inl Panic"
| "decode (Suc k) lim p text =
     (case p of
        AtValue depth \<Rightarrow> decodeValue lim (decode k lim) depth text
      | InObject depth members \<Rightarrow> decodeMembers lim (decode k lim) depth members text
      | InArray depth elements \<Rightarrow> decodeElements lim (decode k lim) depth elements text)"

fun encode_tree :: "jtree \<Rightarrow> string" where
  "encode_tree TNull = ''null''"
| "encode_tree (TBool b) = (if b then ''true'' else ''false'')"
| "encode_tree (TNumber t) = t"
| "encode_tree (TString s) = json_string s"
| "encode_tree (TArray xs) = CHR ''['' # commas (map encode_tree xs) @ '']''"
| "encode_tree (TObject ms) =
     CHR ''{'' # commas (map (\<lambda>(k, t). json_string k @ CHR '':'' # t)
       (sort_key fst (map (\<lambda>(k, v). (k, encode_tree v)) ms))) @ ''}''"

definition decodeObject :: "canonical_limits \<Rightarrow> string \<Rightarrow> jtree result" where
  "decodeObject lim raw =
     (if raw = [] \<or> cl_bytes lim \<le> 0 \<or> int (length raw) > cl_bytes lim then Inl CanonicalJSON
      else case decode (Suc (2 * length raw)) lim (AtValue 1) raw of
        Inl e \<Rightarrow> Inl e
      | Inr (v, r) \<Rightarrow>
          (case v of
             TObject ms \<Rightarrow> if skip_space r \<noteq> [] then Inl CanonicalJSON else Inr v
           | _ \<Rightarrow> Inl CanonicalJSON))"

definition ObjectBounded :: "string \<Rightarrow> canonical_limits \<Rightarrow> string result" where
  "ObjectBounded raw lim = bind_r (decodeObject lim raw) (\<lambda>v. Inr (encode_tree v))"

definition Object :: "string \<Rightarrow> int \<Rightarrow> string result" where
  "Object raw maximumBytes = ObjectBounded raw \<lparr>cl_bytes = maximumBytes, cl_depth = 0, cl_collection = 0\<rparr>"


section \<open>The recursion ends\<close>

lemma skip_space_length: "length (skip_space s) \<le> length s"
  by (simp add: skip_space_def length_dropWhile_le)

lemma put_before_Some: "put_before w res = Some (t, r) \<longleftrightarrow> (\<exists>t'. res = Some (t', r) \<and> t = w @ t')"
  by (auto simp: put_before_def)

lemma read_string_shorter: "read_string s = Some (t, r) \<Longrightarrow> length r < length s"
proof (induction s arbitrary: t r rule: read_string.induct)
  case (2 c s)
  show ?case
  proof (cases "c = CHR 0x5C")
    case True
    then obtain e q where s: "s = e # q"
      using "2.prems" by (cases s) (auto simp: read_string.simps(2) split: if_splits)
    show ?thesis
    proof (cases "e = CHR ''u''")
      case True
      with \<open>c = CHR 0x5C\<close> s "2.prems" obtain u q' t' where h: "hex4 q = Some (u, q')"
        "read_string (snd (escaped_rune u q')) = Some (t', r)"
        by (auto simp: read_string.simps(2) put_before_Some split: option.splits if_splits)
      have "length r < length (snd (escaped_rune u q'))"
        using "2.IH"(1) [OF _ \<open>c = CHR 0x5C\<close> s True h(1) _ h(2)] \<open>c = CHR 0x5C\<close> by auto
      with hex4_shorter [OF h(1)] escaped_rune_shorter [of u q'] s show ?thesis by simp
    next
      case False
      with \<open>c = CHR 0x5C\<close> s "2.prems" obtain x t' where h: "simple_escape e = Some x" "read_string q = Some (t', r)"
        by (auto simp: read_string.simps(2) put_before_Some split: option.splits if_splits)
      then have "length r < length q" using "2.IH"(2) [OF _ \<open>c = CHR 0x5C\<close> s False h(1) h(2)] \<open>c = CHR 0x5C\<close> by simp
      with s show ?thesis by simp
    qed
  next
    case False
    with 2 show ?thesis
      by (auto simp: read_string.simps(2) put_before_Some split: if_splits)
  qed
qed simp

lemma read_number_shorter: "read_number s = Some (t, r) \<Longrightarrow> length r < length s"
  by (auto simp: read_number_def Let_def takeWhile_eq_Nil_iff split: if_splits)

lemma read_scalar_shorter: "read_scalar s = Inr (v, r) \<Longrightarrow> length r < length s"
  by (auto simp: read_scalar_def prefix_def dest: read_string_shorter read_number_shorter
      split: if_splits option.splits)

lemma read_key_shorter: "read_key first ms s = Inr (key, r) \<Longrightarrow> length r < length s"
proof -
  assume a: "read_key first ms s = Inr (key, r)"
  define s' where "s' = skip_space (if first then s else tl s)"
  from a obtain q where q: "prefix [CHR 0x22] s'" "read_string (tl s') = Some (key, q)" "r = tl (skip_space q)"
    by (auto simp: read_key_def Let_def s'_def split: if_splits option.splits)
  have "length s' \<le> length s"
    unfolding s'_def using skip_space_length [of s] skip_space_length [of "tl s"]
    by (auto intro: le_trans)
  with q(1) read_string_shorter [OF q(2)] skip_space_length [of q] q(3) show ?thesis
    by (auto simp: prefix_def)
qed

lemma decode_rest: "decode k lim p raw = Inr (v, q) \<Longrightarrow> length q < length raw"
proof (induction k arbitrary: p raw v q)
  case (Suc k)
  have sk: "length (skip_space raw) \<le> length raw" by (rule skip_space_length)
  show ?case
  proof (cases p)
    case (AtValue depth)
    with Suc.prems sk show ?thesis
      by (auto simp: decodeValue_def Let_def prefix_def dest!: Suc.IH read_scalar_shorter split: if_splits)
  next
    case (InObject depth members)
    show ?thesis
    proof (cases "prefix ''}'' (skip_space raw)")
      case True
      with Suc.prems InObject sk show ?thesis
        by (auto simp: decodeMembers_def Let_def prefix_def)
    next
      case False
      with Suc.prems InObject obtain key r w q' where h:
        "read_key (members = []) members (skip_space raw) = Inr (key, r)"
        "decode k lim (AtValue (depth + 1)) r = Inr (w, q')"
        "decode k lim (InObject depth (members @ [(key, w)])) q' = Inr (v, q)"
        by (auto simp: decodeMembers_def Let_def split: if_splits sum.splits)
      from read_key_shorter [OF h(1)] Suc.IH [OF h(2)] Suc.IH [OF h(3)] sk show ?thesis by simp
    qed
  next
    case (InArray depth elements)
    show ?thesis
    proof (cases "prefix '']'' (skip_space raw)")
      case True
      with Suc.prems InArray sk show ?thesis
        by (auto simp: decodeElements_def Let_def prefix_def)
    next
      case False
      with Suc.prems InArray obtain w q' where h:
        "decode k lim (AtValue (depth + 1)) (if elements = [] then skip_space raw else tl (skip_space raw)) = Inr (w, q')"
        "decode k lim (InArray depth (elements @ [w])) q' = Inr (v, q)"
        by (auto simp: decodeElements_def Let_def split: if_splits sum.splits)
      from Suc.IH [OF h(1)] Suc.IH [OF h(2)] sk show ?thesis by (auto split: if_splits)
    qed
  qed
qed simp

text \<open>A bound above twice the length of the text is never reached.\<close>

definition decode_weight :: "position \<Rightarrow> string \<Rightarrow> nat" where
  "decode_weight p raw = 2 * length raw + (case p of AtValue _ \<Rightarrow> 0 | _ \<Rightarrow> 1)"

lemma decode_fuel:
  "decode_weight p raw < k \<Longrightarrow> decode k lim p raw \<noteq> Inl Panic \<and> (\<forall>j \<ge> k. decode j lim p raw = decode k lim p raw)"
proof (induction k arbitrary: p raw)
  case (Suc k)
  have sk: "length (skip_space raw) \<le> length raw" by (rule skip_space_length)
  have weight: "decode_weight p' s < k" if "decode_weight p' s < decode_weight p raw" for p' s
    using that Suc.prems by simp
  have scalar: "read_scalar s \<noteq> Inl Panic" for s by (auto simp: read_scalar_def split: option.splits if_splits)
  have key: "read_key f ms s \<noteq> Inl Panic" for f ms s
    by (auto simp: read_key_def Let_def split: option.splits if_splits)
  have step: "decode (Suc k) lim p raw \<noteq> Inl Panic \<and> decode (Suc j) lim p raw = decode (Suc k) lim p raw"
    if j: "k \<le> j" for j
  proof -
  have again: "decode k lim p' s \<noteq> Inl Panic \<and> decode j lim p' s = decode k lim p' s"
    if "decode_weight p' s < decode_weight p raw" for p' s
    using Suc.IH [OF weight [OF that]] j by blast
  show ?thesis
  proof (cases p)
    case (AtValue depth)
    have "decode_weight (InObject d ms) (tl (skip_space raw)) < decode_weight p raw"
      "decode_weight (InArray d es) (tl (skip_space raw)) < decode_weight p raw" if "skip_space raw \<noteq> []" for d ms es
      using that sk AtValue by (cases "skip_space raw"; simp add: decode_weight_def)+
    with again AtValue scalar show ?thesis
      by (auto simp: decodeValue_def Let_def prefix_def)
  next
    case (InObject depth members)
    {
      fix key r assume r: "read_key (members = []) members (skip_space raw) = Inr (key, r)"
      then have "decode_weight (AtValue (depth + 1)) r < decode_weight p raw"
        using read_key_shorter [OF r] sk InObject by (simp add: decode_weight_def)
      note 1 = again [OF this]
      {
        fix w q assume "decode k lim (AtValue (depth + 1)) r = Inr (w, q)"
        then have "decode_weight (InObject depth (members @ [(key, w)])) q < decode_weight p raw"
          using read_key_shorter [OF r] sk InObject by (auto simp: decode_weight_def dest: decode_rest)
        note again [OF this]
      }
      note 1 this
    }
    note rec = this
    show ?thesis
      using InObject key rec
      by (auto simp: decodeMembers_def Let_def split: sum.splits)
  next
    case (InArray depth elements)
    define s where "s = (if elements = [] then skip_space raw else tl (skip_space raw))"
    have "decode_weight (AtValue (depth + 1)) s < decode_weight p raw"
      using sk InArray by (auto simp: decode_weight_def s_def)
    note 1 = again [OF this]
    {
      fix w q assume "decode k lim (AtValue (depth + 1)) s = Inr (w, q)"
      then have "length q < length s" by (rule decode_rest)
      then have "decode_weight (InArray depth (elements @ [w])) q < decode_weight p raw"
        using sk InArray by (simp add: decode_weight_def s_def split: if_splits)
      note again [OF this]
    }
    note 2 = this
    show ?thesis
      using InArray 1 2 unfolding s_def
      by (cases "elements = []") (auto simp: decodeElements_def Let_def split: sum.splits)
  qed
  qed
  then show ?case
    by (metis Suc_le_D Suc_le_mono le_refl)
qed (simp add: decode_weight_def)

section \<open>Reading back what was written\<close>

text \<open>Text in which every multi-byte sequence is the encoding of a rune.\<close>

function valid_utf8 :: "string \<Rightarrow> bool" where
  "valid_utf8 [] = True"
| "valid_utf8 (c # s) =
     (if (of_char c :: nat) < 128 then valid_utf8 s
      else utf8_len (c # s) \<noteq> 0 \<and> valid_utf8 (drop (utf8_len (c # s) - 1) s))"
  by pat_completeness auto
termination
  by (relation "measure length") auto

declare valid_utf8.simps(2) [simp del]

lemma valid_utf8_ascii: "(of_char c :: nat) < 128 \<Longrightarrow> valid_utf8 (c # s) = valid_utf8 s"
  by (simp add: valid_utf8.simps(2))

lemma utf8_len_cases: "utf8_len s \<in> {0, 2, 3, 4}" "utf8_len s \<le> length s"
  by (auto simp: utf8_len_def Let_def split: if_splits)

lemma utf8_len_prefix:
  assumes "utf8_len s = n" "n \<noteq> 0"
  shows "utf8_len (take n s @ t) = n"
proof -
  have len: "n \<le> length s" using utf8_len_cases(2) [of s] assms by simp
  consider "n = 2" | "n = 3" | "n = 4" using utf8_len_cases(1) [of s] assms by auto
  then show ?thesis
  proof cases
    case 1
    then obtain m where "length s = Suc (Suc m)" using len by (metis Suc_le_D Suc_le_mono numeral_2_eq_2)
    then obtain a b r where s: "s = a # b # r" by (auto simp: length_Suc_conv)
    have "194 \<le> (of_char a :: nat)" "(of_char a :: nat) \<le> 223" "128 \<le> (of_char b :: nat)" "(of_char b :: nat) < 192"
      using 1 assms(1) s by (simp_all add: utf8_len_def Let_def split: if_split_asm)
    with 1 s show ?thesis by (simp add: utf8_len_def)
  next
    case 2
    then obtain m where "length s = Suc (Suc (Suc m))" using len by (metis Suc_le_D Suc_le_mono numeral_3_eq_3)
    then obtain a b c r where s: "s = a # b # c # r" by (auto simp: length_Suc_conv)
    have "224 \<le> (of_char a :: nat)" "(of_char a :: nat) \<le> 239" "128 \<le> (of_char b :: nat)" "(of_char b :: nat) < 192"
      "128 \<le> (of_char c :: nat)" "(of_char c :: nat) < 192"
      "(of_char a :: nat) = 224 \<longrightarrow> 160 \<le> (of_char b :: nat)" "(of_char a :: nat) = 237 \<longrightarrow> (of_char b :: nat) < 160"
      using 2 assms(1) s by (simp_all add: utf8_len_def Let_def split: if_split_asm)
    with 2 s show ?thesis by (simp add: utf8_len_def)
  next
    case 3
    obtain m where "length s = n + m" using len le_Suc_ex by blast
    with 3 have "length s = Suc (Suc (Suc (Suc m)))" by simp
    then obtain a b c d r where s: "s = a # b # c # d # r" by (auto simp: length_Suc_conv)
    have "240 \<le> (of_char a :: nat)" "(of_char a :: nat) \<le> 244" "128 \<le> (of_char b :: nat)" "(of_char b :: nat) < 192"
      "128 \<le> (of_char c :: nat)" "(of_char c :: nat) < 192" "128 \<le> (of_char d :: nat)" "(of_char d :: nat) < 192"
      "(of_char a :: nat) = 240 \<longrightarrow> 144 \<le> (of_char b :: nat)" "(of_char a :: nat) = 244 \<longrightarrow> (of_char b :: nat) < 144"
      using 3 assms(1) s by (simp_all add: utf8_len_def Let_def split: if_split_asm)
    with 3 s show ?thesis by (simp add: utf8_len_def)
  qed
qed

lemma valid_utf8_rune:
  assumes "utf8_len s = n" "n \<noteq> 0" "valid_utf8 t" "\<not> (of_char (hd s) :: nat) < 128"
  shows "valid_utf8 (take n s @ t)"
proof -
  have len: "n \<le> length s" using utf8_len_cases(2) [of s] assms by simp
  with assms(2) obtain c r where s: "s = c # r" by (cases s) auto
  then have take: "take n s @ t = c # (take (n - 1) r @ t)" using assms(2) by (cases n) auto
  moreover have "utf8_len (c # (take (n - 1) r @ t)) = n"
    using utf8_len_prefix [OF assms(1,2), of t] take by simp
  moreover have "drop (n - 1) (take (n - 1) r @ t) = t" using len s by simp
  ultimately show ?thesis using assms s by (simp add: valid_utf8.simps(2))
qed

lemma encode_rune_len:
  assumes "128 \<le> n" "n < 1114112" "n < 55296 \<or> 57343 < n"
  shows "utf8_len (encode_rune n) = length (encode_rune n) \<and> \<not> (of_char (hd (encode_rune n)) :: nat) < 128"
proof -
  have q: "n div 4096 = n div 64 div 64" "n div 262144 = n div 4096 div 64" by (simp_all add: div_mult2_eq [symmetric])
  have r1: "n div 64 = 64 * (n div 4096) + n div 64 mod 64"
    and r2: "n div 4096 = 64 * (n div 262144) + n div 4096 mod 64" unfolding q by simp_all
  consider "n < 2048" | "2048 \<le> n" "n < 65536" | "65536 \<le> n" by linarith
  then show ?thesis
  proof cases
    case 1
    then have "n div 64 < 32" "2 \<le> n div 64" using assms(1) by auto
    with 1 assms(1) show ?thesis by (simp add: encode_rune_def utf8_len_def)
  next
    case 2
    have "n div 4096 < 16" using 2 by auto
    moreover have "n div 4096 = 0 \<Longrightarrow> 32 \<le> n div 64 mod 64" using 2 r1 by linarith
    moreover have "n div 64 mod 64 < 32" if "n div 4096 = 13"
    proof -
      from that assms(3) have "n < 55296" by auto
      then have "n div 64 < 864" by auto
      with that r1 show ?thesis by linarith
    qed
    ultimately show ?thesis using 2 by (auto simp: encode_rune_def utf8_len_def Let_def)
  next
    case 3
    have "n div 262144 \<le> 4" using assms(2) by auto
    moreover have "16 \<le> n div 4096" using 3 by auto
    then have "n div 262144 = 0 \<Longrightarrow> 16 \<le> n div 4096 mod 64" using r2 by linarith
    moreover have "n div 4096 < 272" using assms(2) by auto
    then have "n div 262144 = 4 \<Longrightarrow> n div 4096 mod 64 < 16" using r2 by linarith
    ultimately show ?thesis using 3 by (auto simp: encode_rune_def utf8_len_def Let_def)
  qed
qed

lemma encode_rune_valid:
  assumes "n < 1114112" "n < 55296 \<or> 57343 < n" "valid_utf8 t"
  shows "valid_utf8 (encode_rune n @ t)"
proof (cases "n < 128")
  case True
  with assms show ?thesis by (simp add: encode_rune_def valid_utf8_ascii)
next
  case False
  then have l: "utf8_len (encode_rune n) = length (encode_rune n) \<and> \<not> (of_char (hd (encode_rune n)) :: nat) < 128"
    using assms(1,2) by (intro encode_rune_len) auto
  moreover have "length (encode_rune n) \<noteq> 0" by (simp add: encode_rune_def)
  ultimately show ?thesis using valid_utf8_rune [of "encode_rune n" "length (encode_rune n)" t] assms(3) by simp
qed

lemma replacement_valid: "valid_utf8 t \<Longrightarrow> valid_utf8 (replacement_rune @ t)"
proof -
  have "map of_char (encode_rune 65533) = (map of_char replacement_rune :: nat list)"
    by (simp add: encode_rune_def replacement_rune_def)
  then have "encode_rune 65533 = replacement_rune" by (simp add: inj_map_eq_map inj_of_char)
  then show "valid_utf8 t \<Longrightarrow> valid_utf8 (replacement_rune @ t)" using encode_rune_valid [of 65533 t] by simp
qed

lemma hex_digit_bound: "hex_digit c = Some n \<Longrightarrow> n < 16"
  by (auto simp: hex_digit_def Let_def split: if_splits)

lemma hex4_bound: "hex4 s = Some (n, r) \<Longrightarrow> n < 65536"
proof (induction s rule: hex4.induct)
  case (1 a b c d q)
  then obtain w x y z where "hex_digit a = Some w" "hex_digit b = Some x" "hex_digit c = Some y" "hex_digit d = Some z"
    "n = 4096 * w + 256 * x + 16 * y + z" by (auto split: option.splits)
  then show ?case using hex_digit_bound [of a w] hex_digit_bound [of b x] hex_digit_bound [of c y] hex_digit_bound [of d z]
    by linarith
qed auto

lemma escaped_rune_valid:
  assumes "u < 65536" "valid_utf8 t"
  shows "valid_utf8 (fst (escaped_rune u q) @ t)"
proof -
  show ?thesis
  proof (cases "u < 55296 \<or> 57343 < u")
    case True
    with encode_rune_valid [of u t] assms show ?thesis by (simp add: escaped_rune_def)
  next
    case False
    have "fst (escaped_rune u q) = replacement_rune \<or> u < 56320 \<and> (\<exists>v. 56320 \<le> v \<and> v < 57344 \<and>
        fst (escaped_rune u q) = encode_rune (65536 + 1024 * (u - 55296) + (v - 56320)))"
      using False by (auto simp: escaped_rune_def split: list.splits option.splits)
    then show ?thesis
    proof (elim disjE conjE exE)
      fix v assume "u < 56320" "56320 \<le> v" "v < 57344"
        "fst (escaped_rune u q) = encode_rune (65536 + 1024 * (u - 55296) + (v - 56320))"
      moreover from this have "65536 + 1024 * (u - 55296) + (v - 56320) < 1114112" by linarith
      ultimately show ?thesis using encode_rune_valid [of "65536 + 1024 * (u - 55296) + (v - 56320)" t] assms(2) by simp
    qed (use replacement_valid [OF assms(2)] in simp)
  qed
qed

lemma simple_escape_ascii: "simple_escape c = Some x \<Longrightarrow> (of_char x :: nat) < 128"
  by (auto simp: simple_escape_def split: if_splits)

lemma read_string_valid: "read_string s = Some (t, r) \<Longrightarrow> valid_utf8 t"
proof (induction s arbitrary: t r rule: read_string.induct)
  case (2 c s)
  consider "c = CHR 0x22" | "c = CHR 0x5C" | "c \<noteq> CHR 0x22" "c \<noteq> CHR 0x5C" "(of_char c :: nat) < 128"
    | "c \<noteq> CHR 0x22" "c \<noteq> CHR 0x5C" "\<not> (of_char c :: nat) < 128" by blast
  then show ?case
  proof cases
    case 1
    with "2.prems" show ?thesis by (simp add: read_string.simps(2))
  next
    case c: 2
    then obtain e q where s: "s = e # q"
      using "2.prems" by (cases s) (auto simp: read_string.simps(2) split: if_splits)
    have nq: "c \<noteq> CHR 0x22" using c by simp
    show ?thesis
    proof (cases "e = CHR ''u''")
      case True
      with c s "2.prems" obtain u q' t' where h: "hex4 q = Some (u, q')"
        "read_string (snd (escaped_rune u q')) = Some (t', r)" "t = fst (escaped_rune u q') @ t'"
        by (auto simp: read_string.simps(2) put_before_Some split: option.splits if_splits)
      have "valid_utf8 t'" using "2.IH"(1) [OF nq c s True h(1) _ h(2)] by simp
      with h(3) escaped_rune_valid hex4_bound [OF h(1)] show ?thesis by simp
    next
      case False
      with c s "2.prems" obtain x t' where h: "simple_escape e = Some x" "read_string q = Some (t', r)" "t = x # t'"
        by (auto simp: read_string.simps(2) put_before_Some split: option.splits if_splits)
      have "valid_utf8 t'" using "2.IH"(2) [OF nq c s False h(1,2)] .
      with h simple_escape_ascii show ?thesis by (simp add: valid_utf8_ascii)
    qed
  next
    case 3
    with 2 show ?thesis
      by (auto simp: read_string.simps(2) put_before_Some valid_utf8_ascii split: if_splits)
  next
    case c: 4
    show ?thesis
    proof (cases "utf8_len (c # s) = 0")
      case True
      with c 2 show ?thesis
        by (auto simp: read_string.simps(2) put_before_Some replacement_valid split: if_splits)
    next
      case False
      with c "2.prems" obtain t' where t': "read_string (drop (utf8_len (c # s) - 1) s) = Some (t', r)"
        "t = take (utf8_len (c # s)) (c # s) @ t'"
        by (auto simp: read_string.simps(2) put_before_Some simp del: take_Cons' split: if_splits)
      have "valid_utf8 t'" using "2.IH"(5) [OF c(1,2) _ c(3) False t'(1)] c(3) by simp
      with valid_utf8_rune [of "c # s" _ t'] False c(3) t'(2) show ?thesis by (simp del: take_Cons')
    qed
  qed
qed simp

lemma hex_digit_char: "n < 16 \<Longrightarrow> hex_digit (digit_char n) = Some n"
proof -
  have "list_all (\<lambda>n. hex_digit (digit_char n) = Some n) [0..<16]" by code_simp
  then show "n < 16 \<Longrightarrow> hex_digit (digit_char n) = Some n" by (auto simp: list_all_iff)
qed

lemma read_json_char:
  assumes c: "(of_char c :: nat) < 128"
  shows "read_string (json_char c @ r) = put_before [c] (read_string r)"
proof -
  let ?n = "of_char c :: nat"
  consider "c = CHR 0x22 \<or> c = CHR 0x5C" | "?n \<in> {8, 9, 10, 12, 13}"
    | "c \<noteq> CHR 0x22" "c \<noteq> CHR 0x5C" "?n \<notin> {8, 9, 10, 12, 13}" "?n < 32 \<or> c = CHR ''<'' \<or> c = CHR ''>'' \<or> c = CHR ''&''"
    | "c \<noteq> CHR 0x22" "c \<noteq> CHR 0x5C" "?n \<notin> {8, 9, 10, 12, 13}" "\<not> ?n < 32" "c \<noteq> CHR ''<''" "c \<noteq> CHR ''>''" "c \<noteq> CHR ''&''"
    by blast
  then show ?thesis
  proof cases
    case 1
    then show ?thesis by (auto simp: json_char_def Let_def read_string.simps(2) simple_escape_def)
  next
    case 2
    have char: "c = char_of ?n" by simp
    have "c \<in> {CHR 0x08, CHR 0x09, CHR 0x0A, CHR 0x0C, CHR 0x0D}"
    proof -
      from 2 have "?n = of_char (CHR 0x08) \<or> ?n = of_char (CHR 0x09) \<or> ?n = of_char (CHR 0x0A) \<or>
          ?n = of_char (CHR 0x0C) \<or> ?n = of_char (CHR 0x0D)"
        by (simp del: of_char_eq_iff)
      then show ?thesis unfolding of_char_eq_iff by blast
    qed
    then show ?thesis
      by (elim insertE) (simp_all add: json_char_def Let_def read_string.simps(2) simple_escape_def)
  next
    case 3
    have h: "hex_digit (digit_char (?n div 16)) = Some (?n div 16)" "hex_digit (digit_char (?n mod 16)) = Some (?n mod 16)"
      using c by (simp_all add: hex_digit_char)
    have "hex_digit (CHR ''0'') = Some 0" by code_simp
    with h have h4: "hex4 (CHR ''0'' # CHR ''0'' # digit_char (?n div 16) # digit_char (?n mod 16) # r) = Some (?n, r)"
      by simp
    have "escaped_rune ?n r = ([c], r)" using c by (simp add: escaped_rune_def encode_rune_def)
    with 3 h4 show ?thesis by (simp add: json_char_def Let_def read_string.simps(2) del: hex4.simps)
  next
    case 4
    with c show ?thesis by (simp add: json_char_def Let_def read_string.simps(2))
  qed
qed

lemma line_separators:
  "hex4 (CHR ''2'' # CHR ''0'' # CHR ''2'' # CHR ''8'' # x) = Some (8232, x)"
  "hex4 (CHR ''2'' # CHR ''0'' # CHR ''2'' # CHR ''9'' # x) = Some (8233, x)"
  "escaped_rune 8232 x = ([CHR 0xE2, CHR 0x80, CHR 0xA8], x)"
  "escaped_rune 8233 x = ([CHR 0xE2, CHR 0x80, CHR 0xA9], x)"
proof -
  have d: "hex_digit (CHR ''0'') = Some 0" "hex_digit (CHR ''2'') = Some 2" "hex_digit (CHR ''8'') = Some 8"
    "hex_digit (CHR ''9'') = Some 9" by code_simp+
  show "hex4 (CHR ''2'' # CHR ''0'' # CHR ''2'' # CHR ''8'' # x) = Some (8232, x)"
    "hex4 (CHR ''2'' # CHR ''0'' # CHR ''2'' # CHR ''9'' # x) = Some (8233, x)" by (simp_all add: d)
  have "map of_char (encode_rune 8232) = (map of_char [CHR 0xE2, CHR 0x80, CHR 0xA8] :: nat list)"
    "map of_char (encode_rune 8233) = (map of_char [CHR 0xE2, CHR 0x80, CHR 0xA9] :: nat list)"
    by (simp_all add: encode_rune_def)
  then have "encode_rune 8232 = [CHR 0xE2, CHR 0x80, CHR 0xA8]" "encode_rune 8233 = [CHR 0xE2, CHR 0x80, CHR 0xA9]"
    by (simp_all only: inj_map_eq_map [OF inj_of_char])
  then show "escaped_rune 8232 x = ([CHR 0xE2, CHR 0x80, CHR 0xA8], x)"
    "escaped_rune 8233 x = ([CHR 0xE2, CHR 0x80, CHR 0xA9], x)" by (simp_all add: escaped_rune_def)
qed

lemma read_json_body: "valid_utf8 s \<Longrightarrow> read_string (json_body s @ CHR 0x22 # r) = Some (s, r)"
proof (induction s rule: json_body.induct)
  case 1
  show ?case by (simp add: read_string.simps(2))
next
  case (2 c s)
  let ?n = "utf8_len (c # s)"
  show ?case
  proof (cases "(of_char c :: nat) < 128")
    case True
    then have "read_string (json_body s @ CHR 0x22 # r) = Some (s, r)"
      using "2.IH"(1) "2.prems" by (simp add: valid_utf8_ascii)
    with True show ?thesis by (simp add: json_body.simps(2) read_json_char put_before_def)
  next
    case False
    then have n: "?n \<noteq> 0" and v: "valid_utf8 (drop (?n - 1) s)" using "2.prems" by (simp_all add: valid_utf8.simps(2))
    have sep: ?thesis if "json_body (c # s) = CHR 0x5C # w @ json_body (drop 2 s)" "take 3 (c # s) = [CHR 0xE2, CHR 0x80, d]"
        "w = ''u2028'' \<and> d = CHR 0xA8 \<or> w = ''u2029'' \<and> d = CHR 0xA9"
        "valid_utf8 (drop 2 s) \<Longrightarrow> read_string (json_body (drop 2 s) @ CHR 0x22 # r) = Some (drop 2 s, r)" for w d
    proof -
      from that(2) obtain q where cs: "c = CHR 0xE2" "s = CHR 0x80 # d # q"
        by (cases s; cases "tl s") auto
      from that(3) have "?n = 3" using cs by (auto simp: utf8_len_def)
      with v cs that(4) have rec: "read_string (json_body q @ CHR 0x22 # r) = Some (q, r)" by simp
      have "read_string (CHR 0x5C # w @ x) = put_before [CHR 0xE2, CHR 0x80, d] (read_string x)" for x
        using that(3) by (elim disjE conjE) (simp_all add: read_string.simps(2) line_separators del: hex4.simps)
      with that(1) cs rec show ?thesis by (simp add: put_before_def)
    qed
    consider "take 3 (c # s) = [CHR 0xE2, CHR 0x80, CHR 0xA8]"
      | "take 3 (c # s) \<noteq> [CHR 0xE2, CHR 0x80, CHR 0xA8]" "take 3 (c # s) = [CHR 0xE2, CHR 0x80, CHR 0xA9]"
      | "take 3 (c # s) \<noteq> [CHR 0xE2, CHR 0x80, CHR 0xA8]" "take 3 (c # s) \<noteq> [CHR 0xE2, CHR 0x80, CHR 0xA9]"
      by blast
    then show ?thesis
    proof cases
      case 1
      have "json_body (c # s) = CHR 0x5C # ''u2028'' @ json_body (drop 2 s)"
        unfolding json_body.simps(2) using False n 1 by presburger
      with 1 sep "2.IH"(3) [OF False n 1] show ?thesis by blast
    next
      case 2
      have "json_body (c # s) = CHR 0x5C # ''u2029'' @ json_body (drop 2 s)"
        unfolding json_body.simps(2) using False n 2 by presburger
      with 2 sep "2.IH"(4) [OF False n 2] show ?thesis by blast
    next
      case 3
      have body: "json_body (c # s) = take ?n (c # s) @ json_body (drop (?n - 1) s)"
        unfolding json_body.simps(2) using False n 3 by presburger
      have rec: "read_string (json_body (drop (?n - 1) s) @ CHR 0x22 # r) = Some (drop (?n - 1) s, r)"
        using "2.IH"(5) [OF False n 3 v] .
      have take: "take ?n (c # s) = c # take (?n - 1) s" using n by (cases ?n) auto
      have len: "?n - 1 \<le> length s" using utf8_len_cases(2) [of "c # s"] by simp
      have "utf8_len (c # (take (?n - 1) s @ x)) = ?n" for x
        using utf8_len_prefix [OF refl n, of x] take by simp
      then have "read_string (take ?n (c # s) @ x) = put_before (c # take (?n - 1) s) (read_string x)" for x
        using False n len unfolding take by (cases "?n") (auto simp: read_string.simps(2))
      with body rec take show ?thesis
        by (simp add: put_before_def)
    qed
  qed
qed

text \<open>What can follow a value inside a document.\<close>

definition closes :: "string \<Rightarrow> bool" where
  "closes r \<longleftrightarrow> r = [] \<or> hd r \<in> {CHR '','', CHR ''}'', CHR '']''}"

lemma closes_digit: "closes r \<Longrightarrow> r \<noteq> [] \<Longrightarrow> \<not> is_digit (hd r) \<and> hd r \<notin> {CHR ''.'', CHR ''e'', CHR ''E''}"
proof -
  have "\<not> is_digit (CHR '','')" "\<not> is_digit (CHR ''}'')" "\<not> is_digit (CHR '']'')" by code_simp+
  then show "closes r \<Longrightarrow> r \<noteq> [] \<Longrightarrow> \<not> is_digit (hd r) \<and> hd r \<notin> {CHR ''.'', CHR ''e'', CHR ''E''}"
    by (auto simp: closes_def)
qed

lemma read_number_back:
  assumes "validInteger t" "closes r"
  shows "read_number (t @ r) = Some (t, r)"
proof -
  have run: "takeWhile is_digit (u @ r) = u" if "list_all is_digit u" for u
    using that closes_digit [OF assms(2)]
    by (induction u) (cases r; auto)+
  have zero: "is_digit (CHR ''0'')" "\<not> is_digit (CHR ''-'')" by code_simp+
  show ?thesis
  proof (cases "t = ''0''")
    case True
    then have t: "t @ r = CHR ''0'' # r" by simp
    have "takeWhile is_digit (CHR ''0'' # r) = ''0''" using run [of "''0''"] zero by simp
    with t True closes_digit [OF assms(2)] show ?thesis by (auto simp: read_number_def)
  next
    case False
    define u where "u = (if prefix ''-'' t then tl t else t)"
    have u: "u \<noteq> []" "hd u \<noteq> CHR ''0''" "list_all is_digit u"
      using assms(1) False by (auto simp: validInteger_def u_def Let_def split: if_splits)
    then have "hd u \<noteq> CHR ''-''" using zero by (cases u) auto
    then have t: "t = (if prefix ''-'' t then ''-'' else []) @ u" "prefix ''-'' t \<longleftrightarrow> hd (t @ r) = CHR ''-''"
      using u(1) by (auto simp: u_def prefix_def split: if_splits)
    show ?thesis
      using u t run [OF u(3)] closes_digit [OF assms(2)] 
      by (cases "prefix ''-'' t") (auto simp: read_number_def Let_def)
  qed
qed

definition depth_ok :: "canonical_limits \<Rightarrow> int \<Rightarrow> bool" where
  "depth_ok lim d \<longleftrightarrow> (cl_depth lim > 0 \<longrightarrow> d \<le> cl_depth lim)"

definition count_ok :: "canonical_limits \<Rightarrow> nat \<Rightarrow> bool" where
  "count_ok lim n \<longleftrightarrow> (cl_collection lim > 0 \<longrightarrow> int n \<le> cl_collection lim)"

text \<open>The trees a decoder within the limits returns.\<close>

fun tree_ok :: "canonical_limits \<Rightarrow> int \<Rightarrow> jtree \<Rightarrow> bool" where
  "tree_ok lim d TNull = depth_ok lim d"
| "tree_ok lim d (TBool b) = depth_ok lim d"
| "tree_ok lim d (TNumber t) = (depth_ok lim d \<and> validInteger t)"
| "tree_ok lim d (TString s) = (depth_ok lim d \<and> valid_utf8 s)"
| "tree_ok lim d (TArray xs) =
     (depth_ok lim d \<and> count_ok lim (length xs) \<and> (\<forall>x \<in> set xs. tree_ok lim (d + 1) x))"
| "tree_ok lim d (TObject ms) =
     (depth_ok lim d \<and> count_ok lim (length ms) \<and> distinct (map fst ms) \<and>
      (\<forall>m \<in> set ms. fst m \<noteq> [] \<and> valid_utf8 (fst m) \<and> tree_ok lim (d + 1) (snd m)))"

definition offset_ok :: "canonical_limits \<Rightarrow> position \<Rightarrow> bool" where
  "offset_ok lim p \<longleftrightarrow> (case p of AtValue d \<Rightarrow> True | InObject d ms \<Rightarrow> tree_ok lim d (TObject ms)
     | InArray d xs \<Rightarrow> tree_ok lim d (TArray xs))"

definition position_depth :: "position \<Rightarrow> int" where
  "position_depth p = (case p of AtValue d \<Rightarrow> d | InObject d ms \<Rightarrow> d | InArray d xs \<Rightarrow> d)"

lemma read_scalar_ok: "read_scalar s = Inr (v, r) \<Longrightarrow> depth_ok lim d \<Longrightarrow> tree_ok lim d v"
  by (auto simp: read_scalar_def dest: read_string_valid split: if_splits option.splits)

lemma read_key_ok:
  "read_key first ms s = Inr (key, r) \<Longrightarrow> key \<noteq> [] \<and> valid_utf8 key \<and> key \<notin> fst ` set ms"
  by (auto simp: read_key_def Let_def dest: read_string_valid split: if_splits option.splits)
    (metis fst_conv image_eqI)+

lemma decode_ok:
  "decode k lim p raw = Inr (v, q) \<Longrightarrow> offset_ok lim p \<Longrightarrow> tree_ok lim (position_depth p) v"
proof (induction k arbitrary: p raw v q)
  case (Suc k)
  show ?case
  proof (cases p)
    case (AtValue d)
    show ?thesis
    proof (cases "depth_ok lim d")
      case True
      with Suc.prems(1) AtValue show ?thesis
        using Suc.IH [of "InObject d []"] Suc.IH [of "InArray d []"]
        by (auto simp: decodeValue_def Let_def offset_ok_def position_depth_def count_ok_def
            dest: read_scalar_ok split: if_splits)
    next
      case False
      with Suc.prems(1) AtValue show ?thesis by (auto simp: decodeValue_def depth_ok_def)
    qed
  next
    case (InObject d members)
    show ?thesis
    proof (cases "prefix ''}'' (skip_space raw)")
      case True
      with Suc.prems InObject show ?thesis
        by (auto simp: decodeMembers_def offset_ok_def position_depth_def Let_def)
    next
      case False
      with Suc.prems(1) InObject obtain key r w q' where h:
        "read_key (members = []) members (skip_space raw) = Inr (key, r)"
        "decode k lim (AtValue (d + 1)) r = Inr (w, q')"
        "decode k lim (InObject d (members @ [(key, w)])) q' = Inr (v, q)"
        "\<not> (cl_collection lim > 0 \<and> int (length members) \<ge> cl_collection lim)"
        by (auto simp: decodeMembers_def Let_def split: if_splits sum.splits)
      have w: "tree_ok lim (d + 1) w" using Suc.IH [OF h(2)] by (simp add: offset_ok_def position_depth_def)
      have "offset_ok lim (InObject d (members @ [(key, w)]))"
        using Suc.prems(2) InObject w read_key_ok [OF h(1)] h(4) by (auto simp: offset_ok_def count_ok_def)
      from Suc.IH [OF h(3) this] InObject show ?thesis by (simp add: position_depth_def)
    qed
  next
    case (InArray d elements)
    show ?thesis
    proof (cases "prefix '']'' (skip_space raw)")
      case True
      with Suc.prems InArray show ?thesis
        by (auto simp: decodeElements_def offset_ok_def position_depth_def Let_def prefix_def split: if_splits)
    next
      case False
      with Suc.prems(1) InArray obtain w q' s where h:
        "decode k lim (AtValue (d + 1)) s = Inr (w, q')"
        "decode k lim (InArray d (elements @ [w])) q' = Inr (v, q)"
        "\<not> (cl_collection lim > 0 \<and> int (length elements) \<ge> cl_collection lim)"
        by (auto simp: decodeElements_def Let_def split: if_splits sum.splits)
      have w: "tree_ok lim (d + 1) w" using Suc.IH [OF h(1)] by (simp add: offset_ok_def position_depth_def)
      have "offset_ok lim (InArray d (elements @ [w]))"
        using Suc.prems(2) InArray w h(3) by (auto simp: offset_ok_def count_ok_def)
      from Suc.IH [OF h(2) this] InArray show ?thesis by (simp add: position_depth_def)
    qed
  qed
qed simp

text \<open>The tree with the members of every object in the order of their keys.\<close>

fun by_keys :: "jtree \<Rightarrow> jtree" where
  "by_keys (TArray xs) = TArray (map by_keys xs)"
| "by_keys (TObject ms) = TObject (sort_key fst (map (\<lambda>(k, v). (k, by_keys v)) ms))"
| "by_keys v = v"

definition member_text :: "string \<times> jtree \<Rightarrow> string" where
  "member_text m = json_string (fst m) @ CHR '':'' # encode_tree (snd m)"

lemma insort_key_map: "insort_key f (g x) (map g xs) = map g (insort_key (\<lambda>x. f (g x)) x xs)"
  by (induction xs) auto

lemma sort_key_map: "sort_key f (map g xs) = map g (sort_key (\<lambda>x. f (g x)) xs)"
  by (induction xs) (simp_all add: insort_key_map)

lemma encode_object: "encode_tree (TObject ms) = CHR ''{'' # commas (map member_text (sort_key fst ms)) @ ''}''"
  by (simp add: sort_key_map case_prod_beta' member_text_def [abs_def] comp_def)

lemma by_keys_object: "by_keys (TObject ms) = TObject (map (\<lambda>m. (fst m, by_keys (snd m))) (sort_key fst ms))"
  by (simp add: sort_key_map case_prod_beta')

lemma encode_by_keys: "encode_tree (by_keys v) = encode_tree v"
proof (induction v)
  case (TArray xs)
  then show ?case by (simp cong: map_cong)
next
  case (TObject ms)
  have "member_text (fst m, by_keys (snd m)) = member_text m" if "m \<in> set ms" for m
    using TObject that by (cases m) (simp add: member_text_def)
  then have "map member_text (map (\<lambda>m. (fst m, by_keys (snd m))) (sort_key fst ms)) = map member_text (sort_key fst ms)"
    by simp
  then show ?case
    unfolding by_keys_object encode_object
    by (simp add: sort_key_map sort_key_id_if_sorted del: map_map)
qed simp_all

text \<open>The values of a list after its first, each with its comma.\<close>

definition commas_more :: "string list \<Rightarrow> string" where
  "commas_more xs = concat (map (\<lambda>x. CHR '','' # x) xs)"

lemma commas_Cons: "commas (x # xs) = x @ commas_more xs"
  by (induction xs arbitrary: x) (auto simp: commas_more_def)

definition decodes :: "canonical_limits \<Rightarrow> position \<Rightarrow> string \<Rightarrow> jtree \<Rightarrow> string \<Rightarrow> bool" where
  "decodes lim p s v r \<longleftrightarrow> (\<forall>k > decode_weight p s. decode k lim p s = Inr (v, r))"

lemma decodesI: "(\<And>k. decode_weight p s \<le> k \<Longrightarrow> decode (Suc k) lim p s = Inr (v, r)) \<Longrightarrow> decodes lim p s v r"
proof (unfold decodes_def, intro allI impI)
  fix k assume step: "\<And>k. decode_weight p s \<le> k \<Longrightarrow> decode (Suc k) lim p s = Inr (v, r)" and "decode_weight p s < k"
  then obtain j where "k = Suc j" "decode_weight p s \<le> j" by (cases k) auto
  with step show "decode k lim p s = Inr (v, r)" by simp
qed

lemma decodesD: "decodes lim p s v r \<Longrightarrow> decode_weight p s < k \<Longrightarrow> decode k lim p s = Inr (v, r)"
  by (simp add: decodes_def)

lemma skip_space_id: "s = [] \<or> \<not> json_space (hd s) \<Longrightarrow> skip_space s = s"
  by (cases s) (auto simp: skip_space_def)

lemma decode_member:
  assumes m: "fst m \<noteq> []" "valid_utf8 (fst m)" "fst m \<notin> fst ` set acc" and room: "count_ok lim (Suc (length acc))"
    and val: "decodes lim (AtValue (d + 1)) (encode_tree (snd m) @ s) w s"
    and more: "decodes lim (InObject d (acc @ [(fst m, w)])) s v r"
  shows "decodes lim (InObject d acc) ((if acc = [] then [] else '','') @ member_text m @ s) v r"
proof (rule decodesI)
  fix k
  let ?s = "(if acc = [] then [] else '','') @ member_text m @ s"
  assume k: "decode_weight (InObject d acc) ?s \<le> k"
  have space: "\<not> json_space (CHR '','')" "\<not> json_space (CHR 0x22)" "\<not> json_space (CHR '':'')" by code_simp+
  have mt: "member_text m @ s = CHR 0x22 # json_body (fst m) @ CHR 0x22 # CHR '':'' # encode_tree (snd m) @ s"
    by (simp add: member_text_def json_string_def)
  have skip: "skip_space ?s = ?s" using space mt by (intro skip_space_id) auto
  have "skip_space (if acc = [] then ?s else tl ?s) = member_text m @ s"
    using space mt by (auto intro: skip_space_id)
  then have key: "read_key (acc = []) acc ?s = Inr (fst m, encode_tree (snd m) @ s)"
    using m space by (auto simp: read_key_def mt read_json_body skip_space_id)
  have "decode_weight (AtValue (d + 1)) (encode_tree (snd m) @ s) < k" "decode_weight (InObject d (acc @ [(fst m, w)])) s < k"
    using k by (auto simp: decode_weight_def mt)
  with val more have "decode k lim (AtValue (d + 1)) (encode_tree (snd m) @ s) = Inr (w, s)"
    "decode k lim (InObject d (acc @ [(fst m, w)])) s = Inr (v, r)" by (simp_all add: decodesD)
  with key skip room show "decode (Suc k) lim (InObject d acc) ?s = Inr (v, r)"
    by (auto simp: decodeMembers_def Let_def mt count_ok_def)
qed

lemma decode_element:
  assumes room: "count_ok lim (Suc (length acc))"
    and start: "encode_tree x \<noteq> []" "\<not> json_space (hd (encode_tree x))" "hd (encode_tree x) \<notin> {CHR ''}'', CHR '']''}"
    and val: "decodes lim (AtValue (d + 1)) (encode_tree x @ s) w s"
    and more: "decodes lim (InArray d (acc @ [w])) s v r"
  shows "decodes lim (InArray d acc) ((if acc = [] then [] else '','') @ encode_tree x @ s) v r"
proof (rule decodesI)
  fix k
  let ?s = "(if acc = [] then [] else '','') @ encode_tree x @ s"
  assume k: "decode_weight (InArray d acc) ?s \<le> k"
  have space: "\<not> json_space (CHR '','')" by code_simp
  have skip: "skip_space ?s = ?s" using space start by (intro skip_space_id) auto
  have s': "(if acc = [] then ?s else tl ?s) = encode_tree x @ s" by simp
  have "decode_weight (AtValue (d + 1)) (encode_tree x @ s) < k" "decode_weight (InArray d (acc @ [w])) s < k"
    using k start(1) by (auto simp: decode_weight_def neq_Nil_conv)
  with val more have "decode k lim (AtValue (d + 1)) (encode_tree x @ s) = Inr (w, s)"
    "decode k lim (InArray d (acc @ [w])) s = Inr (v, r)" by (simp_all add: decodesD)
  moreover obtain c e where "encode_tree x = c # e" using start(1) by (cases "encode_tree x") auto
  ultimately show "decode (Suc k) lim (InArray d acc) ?s = Inr (v, r)"
    using skip room start by (cases "acc = []") (auto simp: decodeElements_def Let_def count_ok_def)
qed

lemma encode_tree_start:
  assumes "tree_ok lim d v"
  shows "encode_tree v \<noteq> [] \<and> \<not> json_space (hd (encode_tree v)) \<and> hd (encode_tree v) \<notin> {CHR ''}'', CHR '']''}"
proof -
  have chars: "\<not> json_space (CHR ''n'')" "\<not> json_space (CHR ''t'')" "\<not> json_space (CHR ''f'')" "\<not> json_space (CHR 0x22)"
    "\<not> json_space (CHR ''['')" "\<not> json_space (CHR ''{'')" "\<not> json_space (CHR ''-'')" "\<not> json_space (CHR ''0'')"
    "\<not> is_digit (CHR ''}'')" "\<not> is_digit (CHR '']'')" by code_simp+
  have digit: "\<not> json_space c" if "is_digit c" for c
  proof -
    have "\<not> is_digit (CHR '' '')" "\<not> is_digit (CHR 0x09)" "\<not> is_digit (CHR 0x0A)" "\<not> is_digit (CHR 0x0D)" by code_simp+
    with that show ?thesis by (auto simp: json_space_def)
  qed
  show ?thesis
  proof (cases v)
    case (TNumber t)
    with assms have "validInteger t" by simp
    then have "t \<noteq> [] \<and> (is_digit (hd t) \<or> hd t = CHR ''-'' \<or> t = ''0'')"
      by (cases t) (auto simp: validInteger_def Let_def split: if_splits)
    with TNumber chars digit show ?thesis by auto
  qed (use chars in \<open>auto simp: json_string_def\<close>)
qed

lemma closes_simps [simp]: "closes (CHR '','' # s)" "closes (CHR ''}'' # s)" "closes (CHR '']'' # s)" "closes []"
  by (simp_all add: closes_def)

lemma closes_more: "closes s \<Longrightarrow> closes (commas_more xs @ s)"
  by (cases xs) (auto simp: commas_more_def)

lemma commas_more_simps [simp]: "commas_more [] = []" "commas_more (x # xs) = CHR '','' # x @ commas_more xs"
  by (simp_all add: commas_more_def)

lemma decode_members:
  assumes "\<forall>m \<in> set ms. fst m \<noteq> [] \<and> valid_utf8 (fst m) \<and>
      (\<forall>s. closes s \<longrightarrow> decodes lim (AtValue (d + 1)) (encode_tree (snd m) @ s) (g (snd m)) s)"
    and "distinct (map fst acc @ map fst ms)" "count_ok lim (length acc + length ms)"
  shows "decodes lim (InObject d acc)
     ((if acc = [] then commas (map member_text ms) else commas_more (map member_text ms)) @ CHR ''}'' # r)
     (TObject (acc @ map (\<lambda>m. (fst m, g (snd m))) ms)) r"
  using assms
proof (induction ms arbitrary: acc)
  case Nil
  show ?case
  proof (rule decodesI)
    fix k
    have "\<not> json_space (CHR ''}'')" by code_simp
    then show "decode (Suc k) lim (InObject d acc)
       ((if acc = [] then commas (map member_text []) else commas_more (map member_text [])) @ CHR ''}'' # r) =
       Inr (TObject (acc @ map (\<lambda>m. (fst m, g (snd m))) []), r)"
      by (simp add: decodeMembers_def skip_space_id Let_def)
  qed
next
  case (Cons m ms)
  let ?s = "commas_more (map member_text ms) @ CHR ''}'' # r"
  let ?acc = "acc @ [(fst m, g (snd m))]"
  have "decodes lim (InObject d ?acc) ?s (TObject (?acc @ map (\<lambda>m. (fst m, g (snd m))) ms)) r"
    using Cons.IH [of ?acc] Cons.prems by simp
  moreover have "closes ?s" by (intro closes_more) simp
  moreover have "count_ok lim (Suc (length acc))" using Cons.prems(3) by (auto simp: count_ok_def)
  moreover have "fst m \<notin> fst ` set acc" using Cons.prems(2) by auto
  ultimately have "decodes lim (InObject d acc) ((if acc = [] then [] else '','') @ member_text m @ ?s)
      (TObject (?acc @ map (\<lambda>m. (fst m, g (snd m))) ms)) r"
    using Cons.prems(1) by (intro decode_member [where w = "g (snd m)"]) auto
  then show ?case by (cases "acc = []") (simp_all add: commas_Cons)
qed

lemma decode_elements:
  assumes "\<forall>x \<in> set xs. tree_ok lim (d + 1) x \<and>
      (\<forall>s. closes s \<longrightarrow> decodes lim (AtValue (d + 1)) (encode_tree x @ s) (g x) s)"
    and "count_ok lim (length acc + length xs)"
  shows "decodes lim (InArray d acc)
     ((if acc = [] then commas (map encode_tree xs) else commas_more (map encode_tree xs)) @ CHR '']'' # r)
     (TArray (acc @ map g xs)) r"
  using assms
proof (induction xs arbitrary: acc)
  case Nil
  show ?case
  proof (rule decodesI)
    fix k
    have "\<not> json_space (CHR '']'')" by code_simp
    then show "decode (Suc k) lim (InArray d acc)
       ((if acc = [] then commas (map encode_tree []) else commas_more (map encode_tree [])) @ CHR '']'' # r) =
       Inr (TArray (acc @ map g []), r)"
      by (simp add: decodeElements_def skip_space_id Let_def)
  qed
next
  case (Cons x xs)
  let ?s = "commas_more (map encode_tree xs) @ CHR '']'' # r"
  have "decodes lim (InArray d (acc @ [g x])) ?s (TArray ((acc @ [g x]) @ map g xs)) r"
    using Cons.IH [of "acc @ [g x]"] Cons.prems by simp
  moreover have "closes ?s" by (intro closes_more) simp
  moreover have "count_ok lim (Suc (length acc))" using Cons.prems(2) by (auto simp: count_ok_def)
  ultimately have "decodes lim (InArray d acc) ((if acc = [] then [] else '','') @ encode_tree x @ ?s)
      (TArray ((acc @ [g x]) @ map g xs)) r"
    using Cons.prems(1) encode_tree_start [of lim "d + 1" x] by (intro decode_element [where w = "g x"]) auto
  then show ?case by (cases "acc = []") (simp_all add: commas_Cons)
qed

lemma decode_value_open:
  assumes "depth_ok lim d" and c: "c = CHR ''{'' \<and> p = InObject d [] \<or> c = CHR ''['' \<and> p = InArray d []"
    and "decodes lim p s v r"
  shows "decodes lim (AtValue d) (c # s) v r"
proof (rule decodesI)
  fix k assume "decode_weight (AtValue d) (c # s) \<le> k"
  with c have "decode_weight p s < k" by (auto simp: decode_weight_def)
  with assms(3) have "decode k lim p s = Inr (v, r)" by (rule decodesD)
  moreover have "\<not> json_space (CHR ''{'')" "\<not> json_space (CHR ''['')" by code_simp+
  ultimately show "decode (Suc k) lim (AtValue d) (c # s) = Inr (v, r)"
    using c assms(1) by (auto simp: decodeValue_def Let_def skip_space_id depth_ok_def)
qed

lemma decode_value_scalar:
  assumes "depth_ok lim d" "read_scalar s = Inr (v, r)" "s \<noteq> []" "\<not> json_space (hd s)" "hd s \<notin> {CHR ''{'', CHR ''[''}"
  shows "decodes lim (AtValue d) s v r"
proof (rule decodesI)
  fix k
  show "decode (Suc k) lim (AtValue d) s = Inr (v, r)"
    using assms by (auto simp: decodeValue_def Let_def skip_space_id depth_ok_def prefix_def)
qed

lemma prefix_start: "prefix (c # p) (d # s) \<longleftrightarrow> c = d \<and> prefix p s"
  by auto

lemma read_scalar_back:
  assumes "tree_ok lim d v" "closes s" "\<forall>xs. v \<noteq> TArray xs" "\<forall>ms. v \<noteq> TObject ms"
  shows "read_scalar (encode_tree v @ s) = Inr (v, s)"
proof (cases v)
  case (TNumber t)
  with assms have t: "validInteger t" by simp
  have "\<not> is_digit (CHR 0x22)" "\<not> is_digit (CHR ''t'')" "\<not> is_digit (CHR ''f'')" "\<not> is_digit (CHR ''n'')" by code_simp+
  moreover have "t \<noteq> [] \<and> (is_digit (hd t) \<or> hd t = CHR ''-'' \<or> t = ''0'')"
    using t by (cases t) (auto simp: validInteger_def Let_def split: if_splits)
  then obtain c r where "t = c # r" "is_digit c \<or> c = CHR ''-'' \<or> c = CHR ''0''" by (cases t) auto
  ultimately have "\<not> prefix [CHR 0x22] (t @ s)" "\<not> prefix ''true'' (t @ s)" "\<not> prefix ''false'' (t @ s)"
    "\<not> prefix ''null'' (t @ s)" by auto
  with TNumber t read_number_back [OF t assms(2)] show ?thesis by (simp add: read_scalar_def del: prefix_Cons)
qed (use assms in \<open>auto simp: read_scalar_def json_string_def read_json_body\<close>)

lemma decode_encode: "tree_ok lim d v \<Longrightarrow> closes s \<Longrightarrow> decodes lim (AtValue d) (encode_tree v @ s) (by_keys v) s"
proof (induction v arbitrary: d s)
  case (TObject ms)
  have "decodes lim (AtValue (d + 1)) (encode_tree (snd m) @ q) (by_keys (snd m)) q" if "m \<in> set ms" "closes q" for m q
    using TObject that by (cases m) auto
  then have "decodes lim (InObject d []) (commas (map member_text (sort_key fst ms)) @ CHR ''}'' # s)
      (TObject (map (\<lambda>m. (fst m, by_keys (snd m))) (sort_key fst ms))) s"
    using decode_members [of "sort_key fst ms" lim d by_keys "[]" s] TObject.prems by (auto simp: distinct_map)
  then show ?case
    using TObject.prems unfolding by_keys_object encode_object by (auto intro!: decode_value_open)
next
  case (TArray xs)
  have "decodes lim (InArray d []) (commas (map encode_tree xs) @ CHR '']'' # s) (TArray (map by_keys xs)) s"
    using decode_elements [of xs lim d by_keys "[]" s] TArray by auto
  then show ?case using TArray.prems by (auto intro!: decode_value_open)
next
  case (TNumber t)
  have "\<not> is_digit (CHR ''{'')" "\<not> is_digit (CHR ''['')" by code_simp+
  moreover have "t \<noteq> [] \<and> (is_digit (hd t) \<or> hd t = CHR ''-'' \<or> t = ''0'')"
    using TNumber by (cases t) (auto simp: validInteger_def Let_def split: if_splits)
  ultimately have "hd t \<noteq> CHR ''{''" "hd t \<noteq> CHR ''[''" "t \<noteq> []" by auto
  with TNumber encode_tree_start [OF TNumber.prems(1)] read_scalar_back [OF TNumber.prems] show ?case
    by (auto intro!: decode_value_scalar)
next
  case (TString t)
  have "\<not> json_space (CHR 0x22)" by code_simp
  with TString read_scalar_back [OF TString.prems] show ?case
    by (intro decode_value_scalar) (simp_all add: json_string_def)
next
  case (TBool b)
  have "\<not> json_space (CHR ''t'')" "\<not> json_space (CHR ''f'')" by code_simp+
  with TBool read_scalar_back [OF TBool.prems] show ?case
    by (intro decode_value_scalar) auto
next
  case TNull
  have "\<not> json_space (CHR ''n'')" by code_simp
  with TNull read_scalar_back [OF TNull.prems] show ?case
    by (intro decode_value_scalar) auto
qed

section \<open>Canonical documents\<close>

lemma decodeObject_by_keys:
  assumes "decodeObject lim raw = Inr v" "int (length (encode_tree v)) \<le> cl_bytes lim"
  shows "decodeObject lim (encode_tree v) = Inr (by_keys v)"
proof -
  from assms(1) obtain ms q where v: "v = TObject ms" "decode (Suc (2 * length raw)) lim (AtValue 1) raw = Inr (v, q)"
    and bytes: "cl_bytes lim > 0"
    by (auto simp: decodeObject_def split: if_splits sum.splits jtree.splits)
  have "tree_ok lim 1 v" using decode_ok [OF v(2)] by (simp add: offset_ok_def position_depth_def)
  from decode_encode [OF this, of "[]"]
  have "decode (Suc (2 * length (encode_tree v))) lim (AtValue 1) (encode_tree v) = Inr (by_keys v, [])"
    by (intro decodesD) (simp_all add: decode_weight_def)
  moreover have "encode_tree v \<noteq> []" using v(1) by simp
  ultimately show ?thesis using assms(2) bytes v(1) by (simp add: decodeObject_def by_keys_object skip_space_def)
qed

lemma decodeObject_no_panic: "decodeObject lim raw \<noteq> Inl Panic"
proof -
  have "decode_weight (AtValue 1) raw < Suc (2 * length raw)" by (simp add: decode_weight_def)
  then have "decode (Suc (2 * length raw)) lim (AtValue 1) raw \<noteq> Inl Panic" using decode_fuel by blast
  then show ?thesis by (auto simp: decodeObject_def split: sum.splits jtree.splits)
qed

lemma ObjectBounded_stable:
  assumes "ObjectBounded raw lim = Inr c" "int (length c) \<le> cl_bytes lim"
  shows "ObjectBounded c lim = Inr c"
proof -
  from assms(1) obtain v where v: "decodeObject lim raw = Inr v" "c = encode_tree v"
    by (auto simp: ObjectBounded_def bind_r_def split: sum.splits)
  with decodeObject_by_keys [OF v(1)] assms(2) show ?thesis
    by (simp add: ObjectBounded_def bind_r_def encode_by_keys)
qed

end
