(* ===== verification/Strategy_Proposal.thy ===== *)
theory Strategy_Proposal
  imports Arithmetic Canonicaljson
begin

text \<open>
  \<open>internal/strategy/model/proposal.go\<close> with the parts of \<open>identity.go\<close> and \<open>observation.go\<close> it uses: the trade
  proposals that strategies emit and portfolio allocation reads. The lemmas say what a validated draft
  satisfies: distinct instruments in a fixed order, ratios without a common divisor, a bounded validity.
\<close>

section \<open>Codes and identities\<close>

text \<open>The regular expression \<open>^[A-Z][A-Z0-9_]{lo,hi}$\<close> that codes of the strategy, portfolio and risk packages match.\<close>

definition code_char :: "char \<Rightarrow> bool" where
  "code_char c \<longleftrightarrow> is_upper_ascii c \<or> is_digit c \<or> c = CHR ''_''"

definition code_pattern :: "nat \<Rightarrow> nat \<Rightarrow> string \<Rightarrow> bool" where
  "code_pattern lo hi s =
     (case s of
        [] \<Rightarrow> False
      | c # r \<Rightarrow> is_upper_ascii c \<and> lo \<le> length r \<and> length r \<le> hi \<and> list_all code_char r)"

definition stableCodePattern :: "string \<Rightarrow> bool" where
  "stableCodePattern = code_pattern 0 63"

text \<open>\<open>^[a-z0-9](?:[a-z0-9-]{0,62})$\<close>\<close>

definition definition_char :: "char \<Rightarrow> bool" where
  "definition_char c \<longleftrightarrow> CHR ''a'' \<le> c \<and> c \<le> CHR ''z'' \<or> is_digit c"

definition NewDefinitionID :: "string \<Rightarrow> string result" where
  "NewDefinitionID value =
     (let value = trim_space value in
      case value of
        [] \<Rightarrow> Inl (Strategy ErrInvalidStrategyIdentity)
      | c # r \<Rightarrow>
          if definition_char c \<and> length r \<le> 62 \<and> list_all (\<lambda>c. definition_char c \<or> c = CHR ''-'') r
          then Inr value else Inl (Strategy ErrInvalidStrategyIdentity))"

definition newDigest :: "(string \<Rightarrow> digest) \<Rightarrow> string \<Rightarrow> digest result" where
  "newDigest sha key =
     (let key = trim_space key in
      if key = [] then Inl (Strategy ErrInvalidStrategyIdentity) else Inr (sha key))"

definition NewProposalID :: "(string \<Rightarrow> digest) \<Rightarrow> string \<Rightarrow> digest result" where
  "NewProposalID = newDigest"

definition stableKey :: "string \<Rightarrow> string list \<Rightarrow> string" where
  "stableKey schema values =
     schema @ concat (map (\<lambda>value. ''|'' @ dec_int (int (length value)) @ '':'' @ value) values)"

section \<open>Drafts\<close>

datatype sizing_kind = SizingStrategyBudgetBPS | OtherSizing string

definition sizing_kind_string :: "sizing_kind \<Rightarrow> string" where
  "sizing_kind_string k = (case k of SizingStrategyBudgetBPS \<Rightarrow> ''STRATEGY_BUDGET_BPS'' | OtherSizing s \<Rightarrow> s)"

record sizing_intent =
  si_kind :: sizing_kind
  si_value_bps :: int

definition SizingIntent_Validate :: "sizing_intent \<Rightarrow> unit result" where
  "SizingIntent_Validate i =
     (if si_kind i \<noteq> SizingStrategyBudgetBPS \<or> si_value_bps i \<le> 0 \<or> si_value_bps i > 10000
      then Inl (Strategy ErrInvalidTradeProposal) else Inr ())"

record proposal_leg =
  prl_instrument :: digest
  prl_side :: side
  prl_ratio :: nat
  prl_reference_price :: price
  prl_max_deviation_bps :: int

definition ProposalLeg_Validate :: "proposal_leg \<Rightarrow> unit result" where
  "ProposalLeg_Validate leg =
     (if prl_instrument leg = 0 \<or> (prl_side leg \<noteq> SideBuy \<and> prl_side leg \<noteq> SideSell) \<or> prl_ratio leg = 0 \<or>
         price_is_zero_value (prl_reference_price leg) \<or> prl_max_deviation_bps leg < 0 \<or>
         prl_max_deviation_bps leg > 10000
      then Inl (Strategy ErrInvalidTradeProposal) else Inr ())"

record risk_hint =
  rh_code :: string
  rh_value :: int
  rh_unit :: string

definition RiskHint_Validate :: "risk_hint \<Rightarrow> unit result" where
  "RiskHint_Validate hint =
     (if \<not> stableCodePattern (rh_code hint) \<or> trim_space (rh_unit hint) = []
      then Inl (Strategy ErrInvalidTradeProposal) else Inr ())"

record strategy_evidence =
  sve_code :: string
  sve_events :: "digest list"
  sve_value :: int
  sve_unit :: string
  sve_explanation :: string

definition Evidence_Validate :: "strategy_evidence \<Rightarrow> unit result" where
  "Evidence_Validate e =
     (if \<not> stableCodePattern (sve_code e) \<or> sve_events e = [] \<or> trim_space (sve_unit e) = [] \<or>
         trim_space (sve_explanation e) = [] \<or> length (sve_explanation e) > 4096
      then Inl (Strategy ErrInvalidObservation_strategy)
      else if 0 \<in> set (sve_events e) then Inl (Strategy ErrInvalidObservation_strategy)
      else Inr ())"

record proposal_draft =
  pd_schema :: string
  pd_legs :: "proposal_leg list"
  pd_sizing :: sizing_intent
  pd_valid_from :: instant
  pd_expires_at :: instant
  pd_rationale :: string
  pd_explanation :: string
  pd_evidence :: "strategy_evidence list"
  pd_confidence :: "int option"
  pd_hints :: "risk_hint list"
  pd_exit_policy :: string

definition greatestCommonDivisor :: "nat \<Rightarrow> nat \<Rightarrow> nat" where
  "greatestCommonDivisor left right = (if left = 0 then right else gcd_loop left right)"

text \<open>The leg loop: \<open>seen\<close> instruments and the divisor of the ratios so far.\<close>

fun leg_divisor :: "digest set \<Rightarrow> nat \<Rightarrow> proposal_leg list \<Rightarrow> nat result" where
  "leg_divisor seen divisor [] = Inr divisor"
| "leg_divisor seen divisor (leg # legs) =
     (case ProposalLeg_Validate leg of
        Inl e \<Rightarrow> Inl e
      | Inr _ \<Rightarrow>
          if prl_instrument leg \<in> seen then Inl (Strategy ErrInvalidTradeProposal)
          else leg_divisor (insert (prl_instrument leg) seen)
                 (greatestCommonDivisor divisor (prl_ratio leg)) legs)"

fun validate_all :: "('a \<Rightarrow> unit result) \<Rightarrow> 'a list \<Rightarrow> unit result" where
  "validate_all f [] = Inr ()"
| "validate_all f (x # xs) = (case f x of Inl e \<Rightarrow> Inl e | Inr _ \<Rightarrow> validate_all f xs)"

definition hint_key :: "risk_hint \<Rightarrow> string" where
  "hint_key hint = rh_code hint @ ''|'' @ rh_unit hint"

fun check_hints :: "string set \<Rightarrow> risk_hint list \<Rightarrow> unit result" where
  "check_hints seen [] = Inr ()"
| "check_hints seen (hint # hints) =
     (case RiskHint_Validate hint of
        Inl e \<Rightarrow> Inl e
      | Inr _ \<Rightarrow>
          if hint_key hint \<in> seen then Inl (Strategy ErrInvalidTradeProposal)
          else check_hints (insert (hint_key hint) seen) hints)"

definition leg_key :: "proposal_leg \<Rightarrow> string" where
  "leg_key leg = digest_string (prl_instrument leg) @ ''|'' @ side_string (prl_side leg)"

definition NewProposalDraft :: "proposal_draft \<Rightarrow> proposal_draft result" where
  "NewProposalDraft input =
     (if trim_space (pd_schema input) = [] \<or> pd_legs input = [] \<or> length (pd_legs input) > 8 \<or>
         SizingIntent_Validate (pd_sizing input) \<noteq> Inr () \<or>
         pd_valid_from input = 0 \<or> \<not> pd_expires_at input > pd_valid_from input \<or>
         pd_expires_at input - pd_valid_from input > 900000000000 \<or>
         \<not> stableCodePattern (pd_rationale input) \<or> trim_space (pd_explanation input) = [] \<or>
         length (pd_explanation input) > 4096 \<or> pd_evidence input = [] \<or> length (pd_evidence input) > 64 \<or>
         length (pd_hints input) > 8 \<or> trim_space (pd_exit_policy input) = []
      then Inl (Strategy ErrInvalidTradeProposal)
      else if (case pd_confidence input of None \<Rightarrow> False | Some c \<Rightarrow> c < 0 \<or> c > 10000)
      then Inl (Strategy ErrInvalidTradeProposal)
      else bind_r (leg_divisor {} 0 (pd_legs input)) (\<lambda>divisor.
        let legs = sort_key leg_key
              (map (\<lambda>leg. leg\<lparr>prl_ratio := prl_ratio leg div divisor\<rparr>) (pd_legs input)) in
        bind_r (validate_all Evidence_Validate (pd_evidence input)) (\<lambda>_.
        bind_r (check_hints {} (pd_hints input)) (\<lambda>_.
          Inr (input\<lparr>pd_schema := trim_space (pd_schema input), pd_legs := legs,
                 pd_hints := sort_key hint_key (pd_hints input)\<rparr>)))))"

section \<open>Proposals\<close>

record proposal_metadata =
  pmd_definition :: string
  pmd_version :: digest
  pmd_instance :: string
  pmd_instance_revision :: digest
  pmd_evaluation :: digest
  pmd_frame :: digest
  pmd_generated_at :: instant
  pmd_source_events :: "digest list"
  pmd_instruments :: "digest list"

record trade_proposal =
  tp_id :: digest
  tp_metadata :: proposal_metadata
  tp_draft :: proposal_draft

definition proposal_parts :: "proposal_metadata \<Rightarrow> proposal_draft \<Rightarrow> string list" where
  "proposal_parts metadata draft =
     [pmd_definition metadata, digest_string (pmd_version metadata), pmd_instance metadata,
      digest_string (pmd_instance_revision metadata), digest_string (pmd_evaluation metadata),
      digest_string (pmd_frame metadata), rfc3339_nano (pmd_generated_at metadata)] @
     concat (map (\<lambda>i. [''event'', digest_string i]) (pmd_source_events metadata)) @
     concat (map (\<lambda>i. [''instrument'', digest_string i]) (pmd_instruments metadata)) @
     [pd_schema draft, rfc3339_nano (pd_valid_from draft), rfc3339_nano (pd_expires_at draft),
      sizing_kind_string (si_kind (pd_sizing draft)), dec_int (si_value_bps (pd_sizing draft)), pd_rationale draft,
      pd_exit_policy draft, pd_explanation draft] @
     (case pd_confidence draft of None \<Rightarrow> [] | Some c \<Rightarrow> [''confidence'', dec_int c]) @
     concat (map (\<lambda>leg. [''leg'', digest_string (prl_instrument leg), side_string (prl_side leg),
         dec_int (int (prl_ratio leg)), dec_int (price_minor (prl_reference_price leg)),
         price_currency (prl_reference_price leg), dec_int (prl_max_deviation_bps leg)]) (pd_legs draft)) @
     concat (map (\<lambda>e. [''evidence'', sve_code e, dec_int (sve_value e), sve_unit e, sve_explanation e] @
         concat (map (\<lambda>i. [''evidence-event'', digest_string i]) (sve_events e))) (pd_evidence draft)) @
     concat (map (\<lambda>h. [''risk-hint'', rh_code h, dec_int (rh_value h), rh_unit h]) (pd_hints draft))"

definition NewTradeProposal ::
  "(string \<Rightarrow> digest) \<Rightarrow> proposal_metadata \<Rightarrow> proposal_draft \<Rightarrow> trade_proposal result" where
  "NewTradeProposal sha metadata draft =
     (case NewProposalDraft draft of
        Inl _ \<Rightarrow> Inl (Strategy ErrInvalidTradeProposal)
      | Inr validated \<Rightarrow>
          if isl (NewDefinitionID (pmd_definition metadata)) \<or> pmd_version metadata = 0 \<or>
             trim_space (pmd_instance metadata) = [] \<or> pmd_instance_revision metadata = 0 \<or>
             pmd_evaluation metadata = 0 \<or> pmd_frame metadata = 0 \<or> pmd_generated_at metadata = 0 \<or>
             pmd_source_events metadata = [] \<or> pmd_instruments metadata = []
          then Inl (Strategy ErrInvalidTradeProposal)
          else if 0 \<in> set (pmd_source_events metadata) \<or> \<not> distinct (pmd_source_events metadata)
          then Inl (Strategy ErrInvalidTradeProposal)
          else if 0 \<in> set (pmd_instruments metadata) \<or> \<not> distinct (pmd_instruments metadata)
          then Inl (Strategy ErrInvalidTradeProposal)
          else
            let metadata = metadata\<lparr>pmd_source_events := sort_key digest_string (pmd_source_events metadata),
                  pmd_instruments := sort_key digest_string (pmd_instruments metadata)\<rparr>;
                key = stableKey ''strategy-trade-proposal/v1'' (proposal_parts metadata validated);
                id = (case NewProposalID sha key of Inl _ \<Rightarrow> 0 | Inr d \<Rightarrow> d)
            in Inr \<lparr>tp_id = id, tp_metadata = metadata, tp_draft = validated\<rparr>)"

definition proposal_is_zero :: "trade_proposal \<Rightarrow> bool" where
  "proposal_is_zero p \<longleftrightarrow> tp_id p = 0"

section \<open>What a validated draft satisfies\<close>

lemma distinct_map_sort_key: "distinct (map f (sort_key g xs)) = distinct (map f xs)"
  by (simp add: distinct_map)

lemma greatestCommonDivisor_gcd: "greatestCommonDivisor a b = gcd a b"
  by (simp add: greatestCommonDivisor_def gcd_loop_gcd)

lemma leg_divisor_Inr:
  "leg_divisor seen d legs = Inr e \<Longrightarrow>
     e = Gcd (insert d (prl_ratio ` set legs)) \<and> distinct (map prl_instrument legs) \<and>
     prl_instrument ` set legs \<inter> seen = {} \<and> (\<forall>leg \<in> set legs. ProposalLeg_Validate leg = Inr ())"
proof (induction seen d legs rule: leg_divisor.induct)
  case (2 seen d leg legs)
  then obtain u where u: "ProposalLeg_Validate leg = Inr u" "prl_instrument leg \<notin> seen"
    "leg_divisor (insert (prl_instrument leg) seen) (greatestCommonDivisor d (prl_ratio leg)) legs = Inr e"
    by (auto split: sum.splits if_splits)
  with 2 show ?case
    by (auto simp: greatestCommonDivisor_gcd Gcd_insert gcd.assoc)
qed simp

lemma validated_leg: "ProposalLeg_Validate leg = Inr () \<Longrightarrow> prl_ratio leg > 0 \<and> prl_instrument leg \<noteq> 0 \<and>
    valid_side (prl_side leg) \<and> \<not> price_is_zero_value (prl_reference_price leg)"
  by (auto simp: ProposalLeg_Validate_def valid_side_def split: if_splits)

lemma NewProposalDraft_Inr:
  assumes "NewProposalDraft input = Inr draft"
  obtains divisor where
    "leg_divisor {} 0 (pd_legs input) = Inr divisor"
    "pd_legs draft = sort_key leg_key (map (\<lambda>leg. leg\<lparr>prl_ratio := prl_ratio leg div divisor\<rparr>) (pd_legs input))"
    "pd_legs input \<noteq> []" "length (pd_legs input) \<le> 8" "SizingIntent_Validate (pd_sizing input) = Inr ()"
    "pd_sizing draft = pd_sizing input" "pd_valid_from draft = pd_valid_from input" "pd_expires_at draft = pd_expires_at input"
    "pd_valid_from input < pd_expires_at input" "pd_expires_at input - pd_valid_from input \<le> 900000000000"
    "pd_valid_from input \<noteq> 0"
  using assms
  by (auto simp: NewProposalDraft_def bind_r_def Let_def split: if_splits sum.splits)

lemma proposal_draft_legs:
  assumes "NewProposalDraft input = Inr draft"
  shows "Gcd (prl_ratio ` set (pd_legs draft)) = 1" "distinct (map prl_instrument (pd_legs draft))"
    "set (map prl_instrument (pd_legs draft)) = set (map prl_instrument (pd_legs input))"
    "\<forall>leg \<in> set (pd_legs draft). ProposalLeg_Validate leg = Inr ()"
    "length (pd_legs draft) = length (pd_legs input)"
proof -
  from assms obtain d where d: "leg_divisor {} 0 (pd_legs input) = Inr d"
    "pd_legs draft = sort_key leg_key (map (\<lambda>leg. leg\<lparr>prl_ratio := prl_ratio leg div d\<rparr>) (pd_legs input))"
    "pd_legs input \<noteq> []"
    by (rule NewProposalDraft_Inr)
  note legs = leg_divisor_Inr [OF d(1)]
  then have dv: "d = Gcd (prl_ratio ` set (pd_legs input))" by simp
  obtain leg where leg: "leg \<in> set (pd_legs input)" using d(3) by (cases "pd_legs input") auto
  then have "prl_ratio leg > 0" using legs validated_leg by blast
  with leg dv have pos: "d \<noteq> 0" by auto
  have ratios: "prl_ratio ` set (pd_legs draft) = (\<lambda>r. r div d) ` (prl_ratio ` set (pd_legs input))"
    using d(2) by (auto simp: image_image)
  have "Gcd ((\<lambda>r. r div d) ` (prl_ratio ` set (pd_legs input))) = 1"
  proof -
    let ?S = "prl_ratio ` set (pd_legs input)"
    have "?S = (*) d ` ((\<lambda>r. r div d) ` ?S)"
      using dv by (force simp: image_image intro!: image_cong [where g = "\<lambda>x. x", simplified, symmetric])
    then have "Gcd ?S = d * Gcd ((\<lambda>r. r div d) ` ?S)" by (metis Gcd_mult normalize_nat_def id_apply)
    with dv pos show ?thesis by simp
  qed
  with ratios show "Gcd (prl_ratio ` set (pd_legs draft)) = 1" by simp
  have "distinct (map prl_instrument (map (\<lambda>leg. leg\<lparr>prl_ratio := prl_ratio leg div d\<rparr>) (pd_legs input)))"
    using legs by (simp add: comp_def)
  then show "distinct (map prl_instrument (pd_legs draft))"
    unfolding d(2) by (simp only: distinct_map_sort_key)
  show "set (map prl_instrument (pd_legs draft)) = set (map prl_instrument (pd_legs input))"
    "length (pd_legs draft) = length (pd_legs input)"
    using d(2) by (simp_all add: image_image)
  have "ProposalLeg_Validate (leg\<lparr>prl_ratio := prl_ratio leg div d\<rparr>) = Inr ()" if "leg \<in> set (pd_legs input)" for leg
  proof -
    from that dv have "d dvd prl_ratio leg" by simp
    moreover have v: "ProposalLeg_Validate leg = Inr ()" using legs that by simp
    ultimately have "prl_ratio leg div d \<noteq> 0" using pos validated_leg [OF v] by (auto simp: dvd_div_eq_0_iff)
    with v show ?thesis by (auto simp: ProposalLeg_Validate_def split: if_splits)
  qed
  then show "\<forall>leg \<in> set (pd_legs draft). ProposalLeg_Validate leg = Inr ()" using d(2) by auto
qed

end
