(* ===== verification/Port_Model.thy ===== *)
theory Port_Model
  imports Strategy_Proposal
begin

text \<open>
  \<open>internal/portfolio/model\<close>: identities, exposure records and their projection, kill switches and circuit
  breakers. The lemmas say what a validated record satisfies and that a projection adds the known amounts
  exactly or is refused.
\<close>

section \<open>Identities\<close>

definition NewCapitalReservationID :: "(string \<Rightarrow> digest) \<Rightarrow> string list \<Rightarrow> digest result" where
  "NewCapitalReservationID sha parts =
     (if \<not> validParts parts then Inl (Portfolio ErrInvalidIdentity_port)
      else Inr (derive sha ''capital-reservation-id/v1'' parts))"

definition NewAllocationCandidateID :: "(string \<Rightarrow> digest) \<Rightarrow> string list \<Rightarrow> digest result" where
  "NewAllocationCandidateID sha parts =
     (if \<not> validParts parts then Inl (Portfolio ErrInvalidIdentity_port)
      else Inr (derive sha ''allocation-candidate-id/v1'' parts))"

definition deriveSnapshotID :: "(string \<Rightarrow> digest) \<Rightarrow> string list \<Rightarrow> digest" where
  "deriveSnapshotID sha parts = derive sha ''portfolio-snapshot-id/v1'' parts"

definition NewStateChecksum_port :: "(string \<Rightarrow> digest) \<Rightarrow> string \<Rightarrow> digest result" where
  "NewStateChecksum_port sha canonical =
     (if canonical = [] then Inl (Portfolio ErrInvalidIdentity_port)
      else Inr (derive sha ''portfolio-state-checksum/v1'' [canonical]))"

text \<open>Callers discard the error of an identity constructor and keep the zero identity.\<close>

definition or_zero :: "digest result \<Rightarrow> digest" where
  "or_zero r = (case r of Inl _ \<Rightarrow> 0 | Inr d \<Rightarrow> d)"

lemma or_zero_Inr [simp]: "or_zero (Inr d) = d" "or_zero (Inl e) = 0"
  by (simp_all add: or_zero_def)

section \<open>Exposure\<close>

datatype availability =
    AvailabilityKnown | AvailabilityUnknown | AvailabilityNotApplicable | AvailabilityUnavailable
  | OtherAvailability string

definition availability_string :: "availability \<Rightarrow> string" where
  "availability_string a = (case a of AvailabilityKnown \<Rightarrow> ''KNOWN'' | AvailabilityUnknown \<Rightarrow> ''UNKNOWN''
     | AvailabilityNotApplicable \<Rightarrow> ''NOT_APPLICABLE'' | AvailabilityUnavailable \<Rightarrow> ''UNAVAILABLE''
     | OtherAvailability s \<Rightarrow> s)"

definition valid_availability :: "availability \<Rightarrow> bool" where
  "valid_availability a \<longleftrightarrow> (case a of OtherAvailability _ \<Rightarrow> False | _ \<Rightarrow> True)"

datatype exposure_dimension =
    ExposureInstrument | ExposureUnderlying | ExposureStrategy | ExposureGroup | ExposureExpiry
  | ExposurePortfolioWide | OtherDimension string

definition dimension_string :: "exposure_dimension \<Rightarrow> string" where
  "dimension_string d = (case d of ExposureInstrument \<Rightarrow> ''INSTRUMENT'' | ExposureUnderlying \<Rightarrow> ''UNDERLYING''
     | ExposureStrategy \<Rightarrow> ''STRATEGY'' | ExposureGroup \<Rightarrow> ''EXPOSURE_GROUP'' | ExposureExpiry \<Rightarrow> ''EXPIRY''
     | ExposurePortfolioWide \<Rightarrow> ''PORTFOLIO'' | OtherDimension s \<Rightarrow> s)"

definition valid_dimension :: "exposure_dimension \<Rightarrow> bool" where
  "valid_dimension d \<longleftrightarrow> (case d of OtherDimension _ \<Rightarrow> False | _ \<Rightarrow> True)"

record measured_money =
  mm_availability :: availability
  mm_value :: money

definition NewKnownMoney :: "money \<Rightarrow> measured_money result" where
  "NewKnownMoney value =
     (if money_is_zero_value value then Inl (Portfolio ErrInvalidExposure)
      else Inr \<lparr>mm_availability = AvailabilityKnown, mm_value = value\<rparr>)"

definition NewUnavailableMoney :: "availability \<Rightarrow> measured_money result" where
  "NewUnavailableMoney state =
     (if state \<noteq> AvailabilityUnknown \<and> state \<noteq> AvailabilityNotApplicable \<and> state \<noteq> AvailabilityUnavailable
      then Inl (Portfolio ErrInvalidExposure)
      else Inr \<lparr>mm_availability = state, mm_value = zero_money\<rparr>)"

definition zero_measured :: measured_money where
  "zero_measured = \<lparr>mm_availability = OtherAvailability [], mm_value = zero_money\<rparr>"

definition or_zero_measured :: "measured_money result \<Rightarrow> measured_money" where
  "or_zero_measured r = (case r of Inl _ \<Rightarrow> zero_measured | Inr m \<Rightarrow> m)"

definition known_value :: "measured_money \<Rightarrow> money option" where
  "known_value m = (if mm_availability m = AvailabilityKnown then Some (mm_value m) else None)"

definition MeasuredMoney_Validate :: "measured_money \<Rightarrow> unit result" where
  "MeasuredMoney_Validate m =
     (if \<not> valid_availability (mm_availability m) then Inl (Portfolio ErrInvalidExposure)
      else if mm_availability m = AvailabilityKnown \<and> money_is_zero_value (mm_value m)
      then Inl (Portfolio ErrInvalidExposure)
      else if mm_availability m \<noteq> AvailabilityKnown \<and> \<not> money_is_zero_value (mm_value m)
      then Inl (Portfolio ErrInvalidExposure)
      else Inr ())"

datatype loss_bound = LossBoundKnown | LossBoundUnknown | LossBoundUnbounded | OtherLossBound string

definition loss_bound_string :: "loss_bound \<Rightarrow> string" where
  "loss_bound_string b = (case b of LossBoundKnown \<Rightarrow> ''KNOWN'' | LossBoundUnknown \<Rightarrow> ''UNKNOWN''
     | LossBoundUnbounded \<Rightarrow> ''UNBOUNDED'' | OtherLossBound s \<Rightarrow> s)"

record exposure_record =
  ex_dimension :: exposure_dimension
  ex_subject :: string
  ex_gross :: measured_money
  ex_net :: measured_money
  ex_premium_at_risk :: measured_money
  ex_long :: measured_money
  ex_short :: measured_money
  ex_premium_paid :: measured_money
  ex_premium_received :: measured_money
  ex_maximum_loss :: measured_money
  ex_loss_bound :: loss_bound
  ex_overnight :: bool

text \<open>The first known currency is kept, and every later known amount must have it.\<close>

fun validateExposureCurrencies :: "currency \<Rightarrow> measured_money list \<Rightarrow> unit result" where
  "validateExposureCurrencies currency [] = Inr ()"
| "validateExposureCurrencies currency (m # ms) =
     (case known_value m of
        None \<Rightarrow> validateExposureCurrencies currency ms
      | Some money \<Rightarrow>
          if currency = [] then validateExposureCurrencies (money_currency money) ms
          else if currency \<noteq> money_currency money then Inl (Domain ErrCurrencyMismatch)
          else validateExposureCurrencies currency ms)"

definition exposure_values :: "exposure_record \<Rightarrow> measured_money list" where
  "exposure_values e = [ex_gross e, ex_net e, ex_premium_at_risk e, ex_long e, ex_short e, ex_premium_paid e,
     ex_premium_received e, ex_maximum_loss e]"

definition loss_bound_ok :: "exposure_record \<Rightarrow> bool" where
  "loss_bound_ok e = (case ex_loss_bound e of
     LossBoundKnown \<Rightarrow> mm_availability (ex_maximum_loss e) = AvailabilityKnown \<and> minor (mm_value (ex_maximum_loss e)) \<ge> 0
   | LossBoundUnknown \<Rightarrow> mm_availability (ex_maximum_loss e) \<noteq> AvailabilityKnown
   | LossBoundUnbounded \<Rightarrow> mm_availability (ex_maximum_loss e) \<noteq> AvailabilityKnown
   | OtherLossBound _ \<Rightarrow> False)"

definition negative_known :: "measured_money \<Rightarrow> bool" where
  "negative_known m = (case known_value m of None \<Rightarrow> False | Some money \<Rightarrow> minor money < 0)"

definition NewExposureRecord :: "exposure_record \<Rightarrow> exposure_record result" where
  "NewExposureRecord spec0 =
     (let spec = spec0\<lparr>ex_subject := trim_space (ex_subject spec0)\<rparr> in
      if \<not> valid_dimension (ex_dimension spec) \<or> ex_subject spec = [] \<or> length (ex_subject spec) > 128
      then Inl (Portfolio ErrInvalidExposure)
      else if list_ex (\<lambda>m. MeasuredMoney_Validate m \<noteq> Inr ()) (exposure_values spec)
      then Inl (Portfolio ErrInvalidExposure)
      else if \<not> loss_bound_ok spec then Inl (Portfolio ErrInvalidExposure)
      else bind_r (validateExposureCurrencies [] (exposure_values spec)) (\<lambda>_.
        if list_ex negative_known [ex_gross spec, ex_premium_at_risk spec, ex_long spec, ex_short spec,
             ex_premium_paid spec, ex_premium_received spec]
        then Inl (Portfolio ErrInvalidExposure)
        else Inr spec))"

definition addMeasured :: "measured_money \<Rightarrow> measured_money \<Rightarrow> measured_money result" where
  "addMeasured left right =
     (if mm_availability left \<noteq> AvailabilityKnown \<or> mm_availability right \<noteq> AvailabilityKnown
      then NewUnavailableMoney
             (if mm_availability left = AvailabilityUnavailable \<or> mm_availability right = AvailabilityUnavailable
              then AvailabilityUnavailable else AvailabilityUnknown)
      else case Money_Add (mm_value left) (mm_value right) of
        Inl e \<Rightarrow> Inl (if e = Domain ErrMoneyOverflow then Portfolio ErrArithmeticOverflow else e)
      | Inr value \<Rightarrow> NewKnownMoney value)"

definition ProjectExposure :: "exposure_record \<Rightarrow> exposure_record \<Rightarrow> exposure_record result" where
  "ProjectExposure current incremental =
     (if ex_dimension current \<noteq> ex_dimension incremental \<or> ex_subject current \<noteq> ex_subject incremental
      then Inl (Portfolio ErrInvalidExposure)
      else
        bind_r (addMeasured (ex_gross current) (ex_gross incremental)) (\<lambda>gross.
        bind_r (addMeasured (ex_net current) (ex_net incremental)) (\<lambda>net.
        bind_r (addMeasured (ex_premium_at_risk current) (ex_premium_at_risk incremental)) (\<lambda>premium.
        bind_r (addMeasured (ex_long current) (ex_long incremental)) (\<lambda>long.
        bind_r (addMeasured (ex_short current) (ex_short incremental)) (\<lambda>short.
        bind_r (addMeasured (ex_premium_paid current) (ex_premium_paid incremental)) (\<lambda>paid.
        bind_r (addMeasured (ex_premium_received current) (ex_premium_received incremental)) (\<lambda>received.
        bind_r (if ex_loss_bound current = LossBoundKnown \<and> ex_loss_bound incremental = LossBoundKnown
                then bind_r (addMeasured (ex_maximum_loss current) (ex_maximum_loss incremental))
                       (\<lambda>loss. Inr (loss, LossBoundKnown))
                else Inr (or_zero_measured (NewUnavailableMoney AvailabilityUnknown),
                       if ex_loss_bound current = LossBoundUnbounded \<or> ex_loss_bound incremental = LossBoundUnbounded
                       then LossBoundUnbounded else LossBoundUnknown)) (\<lambda>(loss, bound).
          NewExposureRecord (current\<lparr>ex_gross := gross, ex_net := net, ex_premium_at_risk := premium, ex_long := long,
            ex_short := short, ex_premium_paid := paid, ex_premium_received := received, ex_maximum_loss := loss,
            ex_loss_bound := bound, ex_overnight := ex_overnight current \<or> ex_overnight incremental\<rparr>))))))))))"

definition exposure_key :: "exposure_record \<Rightarrow> string" where
  "exposure_key e = dimension_string (ex_dimension e) @ ''|'' @ ex_subject e"

text \<open>The loop over the records: each is validated, then its key must be new.\<close>

fun check_exposures :: "string set \<Rightarrow> exposure_record list \<Rightarrow> unit result" where
  "check_exposures seen [] = Inr ()"
| "check_exposures seen (e # es) =
     (case NewExposureRecord e of
        Inl err \<Rightarrow> Inl err
      | Inr _ \<Rightarrow>
          if exposure_key e \<in> seen then Inl (Portfolio ErrInvalidExposure)
          else check_exposures (insert (exposure_key e) seen) es)"

definition normalizeExposures :: "exposure_record list \<Rightarrow> exposure_record list result" where
  "normalizeExposures values =
     (if length values > 100 then Inl (Portfolio ErrInvalidExposure)
      else bind_r (check_exposures {} values) (\<lambda>_. Inr (sort_key exposure_key values)))"

definition measuredKey :: "measured_money \<Rightarrow> string" where
  "measuredKey m =
     (case known_value m of
        None \<Rightarrow> availability_string (mm_availability m)
      | Some money \<Rightarrow> money_currency money @ '':'' @ dec_int (minor money))"

section \<open>Controls\<close>

definition NewControlReason :: "string \<Rightarrow> string result" where
  "NewControlReason value =
     (let value = trim_space value in
      if \<not> code_pattern 2 127 value then Inl (Portfolio ErrInvalidControlState) else Inr value)"

definition control_reason_or_empty :: "string \<Rightarrow> string" where
  "control_reason_or_empty value = (case NewControlReason value of Inl _ \<Rightarrow> [] | Inr r \<Rightarrow> r)"

datatype control_scope =
    ScopeGlobal | ScopePortfolio | ScopeStrategyDefinition | ScopeStrategyInstance | ScopeInstrument
  | ScopeUnderlying | ScopeExposureGroup | OtherScope string

definition control_scope_string :: "control_scope \<Rightarrow> string" where
  "control_scope_string s = (case s of ScopeGlobal \<Rightarrow> ''GLOBAL'' | ScopePortfolio \<Rightarrow> ''PORTFOLIO''
     | ScopeStrategyDefinition \<Rightarrow> ''STRATEGY_DEFINITION'' | ScopeStrategyInstance \<Rightarrow> ''STRATEGY_INSTANCE''
     | ScopeInstrument \<Rightarrow> ''INSTRUMENT'' | ScopeUnderlying \<Rightarrow> ''UNDERLYING'' | ScopeExposureGroup \<Rightarrow> ''EXPOSURE_GROUP''
     | OtherScope x \<Rightarrow> x)"

definition valid_scope :: "control_scope \<Rightarrow> bool" where
  "valid_scope s \<longleftrightarrow> (case s of OtherScope _ \<Rightarrow> False | _ \<Rightarrow> True)"

datatype kill_switch_state =
    KillSwitchInactive | KillSwitchActive | KillSwitchRecoveryPending | KillSwitchDisabledByConfiguration
  | OtherKillSwitch string

definition kill_switch_state_string :: "kill_switch_state \<Rightarrow> string" where
  "kill_switch_state_string s = (case s of KillSwitchInactive \<Rightarrow> ''INACTIVE'' | KillSwitchActive \<Rightarrow> ''ACTIVE''
     | KillSwitchRecoveryPending \<Rightarrow> ''RECOVERY_PENDING''
     | KillSwitchDisabledByConfiguration \<Rightarrow> ''DISABLED_BY_CONFIGURATION'' | OtherKillSwitch x \<Rightarrow> x)"

record kill_switch =
  ks_id :: digest
  ks_scope :: control_scope
  ks_subject :: string
  ks_state :: kill_switch_state
  ks_reason :: string
  ks_evidence :: digest
  ks_activated_at :: instant
  ks_expires_at :: instant
  ks_configuration :: digest
  ks_configuration_hash :: digest
  ks_revision :: nat
  ks_schema :: string

definition NewKillSwitch :: "kill_switch \<Rightarrow> kill_switch result" where
  "NewKillSwitch spec0 =
     (let reason = NewControlReason (ks_reason spec0);
          spec = spec0\<lparr>ks_subject := trim_space (ks_subject spec0),
            ks_reason := control_reason_or_empty (ks_reason spec0)\<rparr> in
      if ks_id spec = 0 \<or> \<not> valid_scope (ks_scope spec) \<or> ks_subject spec = [] \<or> length (ks_subject spec) > 128 \<or>
         isl reason \<or> ks_configuration spec = 0 \<or> ks_configuration_hash spec = 0 \<or> ks_revision spec = 0 \<or>
         trim_space (ks_schema spec) = []
      then Inl (Portfolio ErrInvalidControlState)
      else if ks_state spec = KillSwitchInactive \<or> ks_state spec = KillSwitchDisabledByConfiguration then
        (if ks_activated_at spec \<noteq> 0 \<or> ks_evidence spec \<noteq> 0 \<or> ks_expires_at spec \<noteq> 0
         then Inl (Portfolio ErrInvalidControlState) else Inr spec)
      else if ks_state spec = KillSwitchActive \<or> ks_state spec = KillSwitchRecoveryPending then
        (if ks_activated_at spec = 0 \<or> ks_evidence spec = 0 \<or>
            (ks_expires_at spec \<noteq> 0 \<and> \<not> ks_expires_at spec > ks_activated_at spec)
         then Inl (Portfolio ErrInvalidControlState) else Inr spec)
      else Inl (Portfolio ErrInvalidControlState))"

definition KillSwitch_Blocks :: "kill_switch \<Rightarrow> bool" where
  "KillSwitch_Blocks k \<longleftrightarrow> ks_state k = KillSwitchActive \<or> ks_state k = KillSwitchRecoveryPending"

datatype circuit_breaker_state =
    CircuitBreakerClosed | CircuitBreakerOpen | CircuitBreakerHalfOpen | CircuitBreakerDisabled
  | OtherCircuitBreaker string

definition circuit_breaker_state_string :: "circuit_breaker_state \<Rightarrow> string" where
  "circuit_breaker_state_string s = (case s of CircuitBreakerClosed \<Rightarrow> ''CLOSED'' | CircuitBreakerOpen \<Rightarrow> ''OPEN''
     | CircuitBreakerHalfOpen \<Rightarrow> ''HALF_OPEN'' | CircuitBreakerDisabled \<Rightarrow> ''DISABLED'' | OtherCircuitBreaker x \<Rightarrow> x)"

record circuit_breaker =
  cb_id :: digest
  cb_scope :: control_scope
  cb_subject :: string
  cb_state :: circuit_breaker_state
  cb_reason :: string
  cb_evidence :: digest
  cb_changed_at :: instant
  cb_configuration :: digest
  cb_configuration_hash :: digest
  cb_revision :: nat
  cb_schema :: string

definition NewCircuitBreaker :: "circuit_breaker \<Rightarrow> circuit_breaker result" where
  "NewCircuitBreaker spec0 =
     (let reason = NewControlReason (cb_reason spec0);
          spec = spec0\<lparr>cb_subject := trim_space (cb_subject spec0),
            cb_reason := control_reason_or_empty (cb_reason spec0)\<rparr> in
      if cb_id spec = 0 \<or> \<not> valid_scope (cb_scope spec) \<or> cb_subject spec = [] \<or> length (cb_subject spec) > 128 \<or>
         isl reason \<or> cb_configuration spec = 0 \<or> cb_configuration_hash spec = 0 \<or> cb_revision spec = 0 \<or>
         trim_space (cb_schema spec) = []
      then Inl (Portfolio ErrInvalidControlState)
      else if cb_state spec = CircuitBreakerClosed \<or> cb_state spec = CircuitBreakerDisabled then Inr spec
      else if cb_state spec = CircuitBreakerOpen \<or> cb_state spec = CircuitBreakerHalfOpen then
        (if cb_changed_at spec = 0 \<or> cb_evidence spec = 0 then Inl (Portfolio ErrInvalidControlState) else Inr spec)
      else Inl (Portfolio ErrInvalidControlState))"

definition CircuitBreaker_Blocks :: "circuit_breaker \<Rightarrow> bool" where
  "CircuitBreaker_Blocks b \<longleftrightarrow> cb_state b = CircuitBreakerOpen \<or> cb_state b = CircuitBreakerHalfOpen"

end
