(* ===== verification/Port_Allocation.thy ===== *)
theory Port_Allocation
  imports Port_Model Intent
begin

text \<open>
  \<open>internal/portfolio/model/allocation.go\<close>: the allocation candidate, the bounded proposal of capital and
  leg quantities that the risk rules judge. The lemmas say what a validated candidate satisfies, and that a
  candidate whose canonical form is longer than one identity part may be gets the zero identity.
\<close>

section \<open>Reasons, constraints, rounding\<close>

definition allocation_reasons :: "string list" where
  "allocation_reasons =
     [''INSUFFICIENT_AVAILABLE_CAPITAL'', ''STRATEGY_ALLOCATION_EXHAUSTED'', ''PORTFOLIO_ALLOCATION_EXHAUSTED'',
      ''INSTRUMENT_LIMIT_EXCEEDED'', ''UNDERLYING_LIMIT_EXCEEDED'', ''EXPOSURE_GROUP_LIMIT_EXCEEDED'',
      ''RESERVE_REQUIREMENT_NOT_MET'', ''INVALID_SIZING_INTENT'', ''MISSING_INSTRUMENT_METADATA'',
      ''UNSUPPORTED_PROPOSAL_STRUCTURE'', ''UNKNOWN_MAXIMUM_LOSS'', ''CONFIGURATION_DISABLED'', ''STRATEGY_DISABLED'',
      ''PORTFOLIO_DISABLED'', ''POLICY_NOT_EFFECTIVE'', ''STALE_PORTFOLIO_SNAPSHOT'', ''ARITHMETIC_OVERFLOW'']"

definition AllocationReason_Validate :: "string \<Rightarrow> unit result" where
  "AllocationReason_Validate value =
     (if value \<in> set allocation_reasons then Inr () else Inl (Portfolio ErrInvalidAllocationCandidate))"

definition AllocationConstraint_Validate :: "allocation_constraint \<Rightarrow> unit result" where
  "AllocationConstraint_Validate c =
     (if AllocationReason_Validate (ac_code c) \<noteq> Inr () \<or> money_is_zero_value (ac_before c) \<or>
         money_is_zero_value (ac_after c) \<or> money_currency (ac_before c) \<noteq> money_currency (ac_after c) \<or>
         minor (ac_before c) < 0 \<or> minor (ac_after c) < 0 \<or> minor (ac_after c) > minor (ac_before c) \<or>
         trim_space (ac_explanation c) = [] \<or> length (ac_explanation c) > 1024
      then Inl (Portfolio ErrInvalidAllocationCandidate) else Inr ())"

definition resolution_string :: "quantity_resolution \<Rightarrow> string" where
  "resolution_string r = (case r of QuantityResolved \<Rightarrow> ''RESOLVED'' | QuantityUnavailable \<Rightarrow> ''UNAVAILABLE''
     | QuantityNotApplicable \<Rightarrow> ''NOT_APPLICABLE'' | OtherResolution x \<Rightarrow> x)"

record rounding_evidence =
  re_requested :: int
  re_approved :: int
  re_remainder :: int
  re_method :: string

definition RoundingEvidence_Validate :: "rounding_evidence \<Rightarrow> unit result" where
  "RoundingEvidence_Validate r =
     (if re_requested r < 0 \<or> re_approved r < 0 \<or> re_approved r > re_requested r \<or>
         re_remainder r \<noteq> wrap64 (re_requested r - re_approved r) \<or> re_method r \<noteq> ''FLOOR_TO_BOUNDED_UNITS''
      then Inl (Portfolio ErrInvalidAllocationCandidate) else Inr ())"

fun check_reasons :: "string set \<Rightarrow> string list \<Rightarrow> unit result" where
  "check_reasons seen [] = Inr ()"
| "check_reasons seen (r # rs) =
     (if AllocationReason_Validate r \<noteq> Inr () \<or> r \<in> seen then Inl (Portfolio ErrInvalidAllocationCandidate)
      else check_reasons (insert r seen) rs)"

definition normalizeAllocationReasons :: "string list \<Rightarrow> string list result" where
  "normalizeAllocationReasons values = bind_r (check_reasons {} values) (\<lambda>_. Inr (sort values))"

section \<open>Candidates\<close>

record candidate_spec =
  cs_schema :: string
  cs_proposal :: trade_proposal
  cs_portfolio :: digest
  cs_snapshot :: digest
  cs_portfolio_revision :: nat
  cs_strategy_allocation :: digest
  cs_policy :: digest
  cs_policy_version :: nat
  cs_sizing :: sizing_intent
  cs_capital :: money
  cs_premium :: measured_money
  cs_risk_budget :: measured_money
  cs_leg_bounds :: "allocation_leg_bound list"
  cs_incremental :: "exposure_record list"
  cs_projected :: "exposure_record list"
  cs_reserve_impact :: money
  cs_rounding :: rounding_evidence
  cs_constraints :: "allocation_constraint list"
  cs_reasons :: "string list"
  cs_configuration_hash :: digest
  cs_generated_at :: instant
  cs_valid_from :: instant
  cs_expires_at :: instant

record allocation_candidate =
  ca_id :: digest
  ca_spec :: candidate_spec
  ca_raw :: string

definition money_json :: "money \<Rightarrow> json" where
  "money_json m = JObj [(''minor'', JInt (minor m)), (''currency'', JStr (money_currency m))]"

definition leg_json :: "allocation_leg_bound \<Rightarrow> json" where
  "leg_json leg = JObj
     [(''InstrumentID'', JStr (digest_string (lb_instrument leg))), (''Side'', JStr (side_string (lb_side leg))),
      (''Resolution'', JStr (resolution_string (lb_resolution leg))), (''Ratio'', JInt (int (lb_ratio leg))),
      (''MaximumUnits'', JInt (lb_maximum_units leg)), (''LotSize'', JInt (lb_lot_size leg))]"

definition constraint_json :: "allocation_constraint \<Rightarrow> json" where
  "constraint_json c = JObj
     [(''Code'', JStr (ac_code c)), (''Explanation'', JStr (ac_explanation c)),
      (''Before'', money_json (ac_before c)), (''After'', money_json (ac_after c))]"

fun join :: "string \<Rightarrow> string list \<Rightarrow> string" where
  "join sep [] = []"
| "join sep [x] = x"
| "join sep (x # y # xs) = x @ sep @ join sep (y # xs)"

definition exposureRecordKey :: "exposure_record \<Rightarrow> string" where
  "exposureRecordKey e = join ''|''
     [dimension_string (ex_dimension e), ex_subject e, measuredKey (ex_gross e), measuredKey (ex_net e),
      measuredKey (ex_premium_at_risk e), measuredKey (ex_long e), measuredKey (ex_short e),
      measuredKey (ex_premium_paid e), measuredKey (ex_premium_received e), measuredKey (ex_maximum_loss e),
      loss_bound_string (ex_loss_bound e), if ex_overnight e then ''true'' else ''false'']"

definition canonicalAllocationCandidate :: "candidate_spec \<Rightarrow> string" where
  "canonicalAllocationCandidate spec = marshal (JObj
     [(''SchemaVersion'', JStr (cs_schema spec)),
      (''ProposalID'', JStr (digest_string (tp_id (cs_proposal spec)))),
      (''PortfolioID'', JStr (digest_string (cs_portfolio spec))),
      (''SnapshotID'', JStr (digest_string (cs_snapshot spec))),
      (''StrategyAllocationID'', JStr (digest_string (cs_strategy_allocation spec))),
      (''PolicyID'', JStr (digest_string (cs_policy spec))),
      (''ConfigurationHash'', JStr (digest_string (cs_configuration_hash spec))),
      (''GeneratedAt'', JStr (rfc3339_nano (cs_generated_at spec))),
      (''ValidFrom'', JStr (rfc3339_nano (cs_valid_from spec))),
      (''ExpiresAt'', JStr (rfc3339_nano (cs_expires_at spec))),
      (''PortfolioRevision'', JInt (int (cs_portfolio_revision spec))),
      (''PolicyVersion'', JInt (int (cs_policy_version spec))),
      (''SizingKind'', JStr (sizing_kind_string (si_kind (cs_sizing spec)))),
      (''SizingBPS'', JInt (si_value_bps (cs_sizing spec))),
      (''CandidateCapital'', money_json (cs_capital spec)),
      (''ReserveImpact'', money_json (cs_reserve_impact spec)),
      (''CandidatePremium'', JStr (measuredKey (cs_premium spec))),
      (''CandidateRiskBudget'', JStr (measuredKey (cs_risk_budget spec))),
      (''Legs'', JArr (map leg_json (cs_leg_bounds spec))),
      (''Reasons'', JArr (map JStr (cs_reasons spec))),
      (''Constraints'', JArr (map constraint_json (cs_constraints spec))),
      (''IncrementalExposure'', JArr (map (\<lambda>e. JStr (exposureRecordKey e)) (cs_incremental spec))),
      (''ProjectedExposure'', JArr (map (\<lambda>e. JStr (exposureRecordKey e)) (cs_projected spec))),
      (''Rounding'', JObj
         [(''RequestedMinor'', JInt (re_requested (cs_rounding spec))),
          (''ApprovedMinor'', JInt (re_approved (cs_rounding spec))),
          (''RemainderMinor'', JInt (re_remainder (cs_rounding spec))),
          (''Method'', JStr (re_method (cs_rounding spec)))])])"

text \<open>The leg loop: each leg is validated, then its instrument must be new.\<close>

fun check_leg_bounds :: "digest set \<Rightarrow> allocation_leg_bound list \<Rightarrow> unit result" where
  "check_leg_bounds seen [] = Inr ()"
| "check_leg_bounds seen (leg # legs) =
     (if AllocationLegBound_Validate leg \<noteq> Inr () \<or> lb_instrument leg \<in> seen
      then Inl (Portfolio ErrInvalidAllocationCandidate)
      else check_leg_bounds (insert (lb_instrument leg) seen) legs)"

definition leg_bound_key :: "allocation_leg_bound \<Rightarrow> string" where
  "leg_bound_key leg = digest_string (lb_instrument leg)"

definition candidate_fields_invalid :: "candidate_spec \<Rightarrow> bool" where
  "candidate_fields_invalid spec \<longleftrightarrow>
     cs_schema spec = [] \<or> proposal_is_zero (cs_proposal spec) \<or> cs_portfolio spec = 0 \<or> cs_snapshot spec = 0 \<or>
     cs_portfolio_revision spec = 0 \<or> cs_strategy_allocation spec = 0 \<or> cs_policy spec = 0 \<or>
     cs_policy_version spec = 0 \<or> SizingIntent_Validate (cs_sizing spec) \<noteq> Inr () \<or>
     money_is_zero_value (cs_capital spec) \<or> minor (cs_capital spec) < 0 \<or>
     MeasuredMoney_Validate (cs_premium spec) \<noteq> Inr () \<or> MeasuredMoney_Validate (cs_risk_budget spec) \<noteq> Inr () \<or>
     money_is_zero_value (cs_reserve_impact spec) \<or> minor (cs_reserve_impact spec) < 0 \<or>
     money_currency (cs_reserve_impact spec) \<noteq> money_currency (cs_capital spec) \<or>
     RoundingEvidence_Validate (cs_rounding spec) \<noteq> Inr () \<or> cs_configuration_hash spec = 0 \<or>
     cs_generated_at spec = 0 \<or> cs_valid_from spec = 0 \<or> \<not> cs_expires_at spec > cs_valid_from spec \<or>
     cs_generated_at spec < cs_valid_from spec \<or> \<not> cs_generated_at spec < cs_expires_at spec \<or>
     cs_leg_bounds spec = [] \<or> length (cs_leg_bounds spec) > 8 \<or> length (cs_constraints spec) > 32 \<or>
     length (cs_reasons spec) > 16"

definition exposure_subjects :: "exposure_record list \<Rightarrow> (exposure_dimension \<times> string) list" where
  "exposure_subjects es = map (\<lambda>e. (ex_dimension e, ex_subject e)) es"

definition NewAllocationCandidate :: "(string \<Rightarrow> digest) \<Rightarrow> candidate_spec \<Rightarrow> allocation_candidate result" where
  "NewAllocationCandidate sha spec0 =
     (let spec = spec0\<lparr>cs_schema := trim_space (cs_schema spec0)\<rparr>;
          proposal = cs_proposal spec;
          invalid = Inl (Portfolio ErrInvalidAllocationCandidate) in
      if candidate_fields_invalid spec then invalid
      else if pmd_instance_revision (tp_metadata proposal) = 0 \<or>
              cs_valid_from spec < pd_valid_from (tp_draft proposal) \<or>
              cs_expires_at spec > pd_expires_at (tp_draft proposal)
      then invalid
      else bind_r (check_leg_bounds {} (cs_leg_bounds spec)) (\<lambda>_.
        bind_r (normalizeExposures (cs_incremental spec)) (\<lambda>incremental.
          (case normalizeExposures (cs_projected spec) of
             Inl _ \<Rightarrow> invalid
           | Inr projected \<Rightarrow>
               if length incremental \<noteq> length projected then invalid
               else if exposure_subjects incremental \<noteq> exposure_subjects projected then invalid
               else if list_ex (\<lambda>c. AllocationConstraint_Validate c \<noteq> Inr ()) (cs_constraints spec) then invalid
               else bind_r (normalizeAllocationReasons (cs_reasons spec)) (\<lambda>reasons.
                 let spec = spec\<lparr>cs_leg_bounds := sort_key leg_bound_key (cs_leg_bounds spec),
                       cs_incremental := incremental, cs_projected := projected,
                       cs_constraints := sort_key ac_code (cs_constraints spec), cs_reasons := reasons\<rparr>;
                     raw = canonicalAllocationCandidate spec;
                     id = or_zero (NewAllocationCandidateID sha
                       [digest_string (tp_id proposal), digest_string (cs_snapshot spec),
                        dec_int (int (cs_portfolio_revision spec)), digest_string (cs_policy spec),
                        dec_int (int (cs_policy_version spec)), raw])
                 in Inr \<lparr>ca_id = id, ca_spec = spec, ca_raw = raw\<rparr>)))))"

section \<open>What a candidate satisfies\<close>

lemma NewAllocationCandidate_Inr:
  assumes "NewAllocationCandidate sha spec = Inr c"
  shows "cs_capital (ca_spec c) = cs_capital spec" "cs_leg_bounds (ca_spec c) = sort_key leg_bound_key (cs_leg_bounds spec)"
    "check_leg_bounds {} (cs_leg_bounds spec) = Inr ()" "cs_proposal (ca_spec c) = cs_proposal spec"
    "cs_expires_at (ca_spec c) = cs_expires_at spec" "cs_valid_from (ca_spec c) = cs_valid_from spec"
    "cs_expires_at spec \<le> pd_expires_at (tp_draft (cs_proposal spec))"
    "cs_valid_from spec < cs_expires_at spec" "0 \<le> minor (cs_capital spec)"
    "cs_portfolio (ca_spec c) = cs_portfolio spec" "cs_snapshot (ca_spec c) = cs_snapshot spec"
    "cs_portfolio_revision (ca_spec c) = cs_portfolio_revision spec"
    "cs_strategy_allocation (ca_spec c) = cs_strategy_allocation spec"
    "normalizeExposures (cs_projected spec) = Inr (cs_projected (ca_spec c))"
    "ca_raw c = canonicalAllocationCandidate (ca_spec c)"
    "ca_id c = or_zero (NewAllocationCandidateID sha
       [digest_string (tp_id (cs_proposal spec)), digest_string (cs_snapshot spec), dec_int (int (cs_portfolio_revision spec)),
        digest_string (cs_policy spec), dec_int (int (cs_policy_version spec)), ca_raw c])"
    "cs_leg_bounds spec \<noteq> []"
  using assms
  by (auto simp: NewAllocationCandidate_def candidate_fields_invalid_def bind_r_def Let_def
      split: if_splits sum.splits)

lemma check_leg_bounds_Inr:
  "check_leg_bounds seen legs = Inr () \<longleftrightarrow>
     (\<forall>leg \<in> set legs. AllocationLegBound_Validate leg = Inr ()) \<and> distinct (map lb_instrument legs) \<and>
     lb_instrument ` set legs \<inter> seen = {}"
  by (induction seen legs rule: check_leg_bounds.induct) (auto split: if_splits)

lemma oversized_candidate:
  assumes "NewAllocationCandidate sha spec = Inr c" "length (ca_raw c) > 4096"
  shows "ca_id c = 0"
  using NewAllocationCandidate_Inr(16) [OF assms(1)] assms(2)
  by (simp add: NewAllocationCandidateID_def validParts_def)

end
