(* ===== verification/Port_Snapshot.thy ===== *)
theory Port_Snapshot
  imports Port_Allocation
begin

text \<open>
  \<open>internal/portfolio/model/snapshot.go\<close> and \<open>reservation.go\<close>: the capital of a portfolio, the allocations of
  its strategies, the immutable snapshot and the reservation a decision makes. The lemmas say that a validated
  capital state splits its total exactly, and that a validated snapshot has one.
\<close>

section \<open>Capital\<close>

datatype portfolio_state =
  PortfolioEnabled | PortfolioDisabled | PortfolioRecovering | PortfolioInconsistent | OtherPortfolioState string

definition portfolio_state_string :: "portfolio_state \<Rightarrow> string" where
  "portfolio_state_string s = (case s of PortfolioEnabled \<Rightarrow> ''ENABLED'' | PortfolioDisabled \<Rightarrow> ''DISABLED''
     | PortfolioRecovering \<Rightarrow> ''RECOVERING'' | PortfolioInconsistent \<Rightarrow> ''INCONSISTENT'' | OtherPortfolioState x \<Rightarrow> x)"

definition valid_portfolio_state :: "portfolio_state \<Rightarrow> bool" where
  "valid_portfolio_state s \<longleftrightarrow> (case s of OtherPortfolioState _ \<Rightarrow> False | _ \<Rightarrow> True)"

record capital_state =
  cap_total :: money
  cap_available :: money
  cap_reserved :: money
  cap_deployed :: money

definition NewCapitalState :: "money \<Rightarrow> money \<Rightarrow> money \<Rightarrow> money \<Rightarrow> capital_state result" where
  "NewCapitalState whole available reserved deployed =
     (if list_ex (\<lambda>v. money_is_zero_value v \<or> minor v < 0 \<or> money_currency v \<noteq> money_currency whole)
           [whole, available, reserved, deployed]
      then Inl (Portfolio ErrInvalidPortfolioSnapshot)
      else bind_r (Money_Add available reserved) (\<lambda>sum.
        case Money_Add sum deployed of
          Inl _ \<Rightarrow> Inl (Portfolio ErrInvalidPortfolioSnapshot)
        | Inr sum \<Rightarrow>
            if minor sum \<noteq> minor whole then Inl (Portfolio ErrInvalidPortfolioSnapshot)
            else Inr \<lparr>cap_total = whole, cap_available = available, cap_reserved = reserved,
              cap_deployed = deployed\<rparr>))"

section \<open>Strategy allocations\<close>

datatype strategy_allocation_state =
    StrategyAllocationEnabled | StrategyAllocationDisabled | StrategyAllocationExhausted
  | StrategyAllocationExpired | OtherAllocationState string

definition allocation_state_string :: "strategy_allocation_state \<Rightarrow> string" where
  "allocation_state_string s = (case s of StrategyAllocationEnabled \<Rightarrow> ''ENABLED'' | StrategyAllocationDisabled \<Rightarrow> ''DISABLED''
     | StrategyAllocationExhausted \<Rightarrow> ''EXHAUSTED'' | StrategyAllocationExpired \<Rightarrow> ''EXPIRED'' | OtherAllocationState x \<Rightarrow> x)"

record strategy_allocation =
  sa_id :: digest
  sa_definition :: string
  sa_version :: digest
  sa_instance :: string
  sa_instance_revision :: digest
  sa_policy :: digest
  sa_policy_version :: nat
  sa_limit :: money
  sa_deployed :: money
  sa_reserved :: money
  sa_remaining :: money
  sa_daily_loss :: money
  sa_state :: strategy_allocation_state
  sa_effective_from :: instant
  sa_effective_until :: instant
  sa_configuration_hash :: digest
  sa_schema :: string

definition NewStrategyAllocation :: "strategy_allocation \<Rightarrow> strategy_allocation result" where
  "NewStrategyAllocation spec =
     (let invalid = Inl (Portfolio ErrInvalidPortfolioSnapshot) in
      if sa_id spec = 0 \<or> sa_definition spec = [] \<or> sa_version spec = 0 \<or> trim_space (sa_instance spec) = [] \<or>
         sa_instance_revision spec = 0 \<or> sa_policy spec = 0 \<or> sa_policy_version spec = 0 \<or>
         sa_configuration_hash spec = 0 \<or> trim_space (sa_schema spec) = [] \<or> sa_effective_from spec = 0 \<or>
         \<not> sa_effective_until spec > sa_effective_from spec
      then invalid
      else if list_ex (\<lambda>v. money_is_zero_value v \<or> money_currency v \<noteq> money_currency (sa_limit spec) \<or> minor v < 0)
                [sa_limit spec, sa_deployed spec, sa_reserved spec, sa_remaining spec] \<or>
              money_is_zero_value (sa_daily_loss spec) \<or>
              money_currency (sa_daily_loss spec) \<noteq> money_currency (sa_limit spec)
      then invalid
      else bind_r (Money_Add (sa_deployed spec) (sa_reserved spec)) (\<lambda>used.
        case Money_Add used (sa_remaining spec) of
          Inl _ \<Rightarrow> invalid
        | Inr used \<Rightarrow>
            if minor used \<noteq> minor (sa_limit spec) then invalid
            else if (case sa_state spec of OtherAllocationState _ \<Rightarrow> True | _ \<Rightarrow> False) then invalid
            else if sa_state spec = StrategyAllocationExhausted \<and> minor (sa_remaining spec) \<noteq> 0 then invalid
            else Inr spec))"

section \<open>Snapshots\<close>

record snapshot_spec =
  pss_schema :: string
  pss_portfolio :: digest
  pss_revision :: nat
  pss_as_of :: instant
  pss_generated_at :: instant
  pss_trading_date :: civil_date
  pss_base_currency :: currency
  pss_state :: portfolio_state
  pss_configuration :: digest
  pss_configuration_version :: nat
  pss_configuration_hash :: digest
  pss_capital :: capital_state
  pss_realized :: money
  pss_unrealized :: money
  pss_daily_realized :: money
  pss_daily_unrealized :: money
  pss_weekly_realized :: money
  pss_high_water :: money
  pss_equity :: money
  pss_allocations :: "strategy_allocation list"
  pss_exposures :: "exposure_record list"
  pss_kill_switches :: "kill_switch list"
  pss_circuit_breakers :: "circuit_breaker list"
  pss_source_checksum :: digest

record portfolio_snapshot =
  psn_id :: digest
  psn_spec :: snapshot_spec
  psn_raw :: string

fun check_allocations :: "currency \<Rightarrow> digest set \<Rightarrow> strategy_allocation list \<Rightarrow> unit result" where
  "check_allocations currency seen [] = Inr ()"
| "check_allocations currency seen (a # as) =
     (case NewStrategyAllocation a of
        Inl _ \<Rightarrow> Inl (Portfolio ErrInvalidPortfolioSnapshot)
      | Inr validated \<Rightarrow>
          if money_currency (sa_limit validated) \<noteq> currency \<or> sa_id a \<in> seen
          then Inl (Portfolio ErrInvalidPortfolioSnapshot)
          else check_allocations currency (insert (sa_id a) seen) as)"

definition allocation_key :: "strategy_allocation \<Rightarrow> string" where
  "allocation_key a = digest_string (sa_id a)"

definition normalizeStrategyAllocations ::
  "strategy_allocation list \<Rightarrow> currency \<Rightarrow> strategy_allocation list result" where
  "normalizeStrategyAllocations values currency =
     (if length values > 20 then Inl (Portfolio ErrInvalidPortfolioSnapshot)
      else bind_r (check_allocations currency {} values) (\<lambda>_. Inr (sort_key allocation_key values)))"

definition allocation_json :: "strategy_allocation \<Rightarrow> json" where
  "allocation_json a = JObj
     [(''ID'', JStr (digest_string (sa_id a))), (''DefinitionID'', JStr (sa_definition a)),
      (''VersionID'', JStr (digest_string (sa_version a))), (''InstanceID'', JStr (sa_instance a)),
      (''InstanceRevisionID'', JStr (digest_string (sa_instance_revision a))),
      (''PolicyID'', JStr (digest_string (sa_policy a))),
      (''ConfigurationHash'', JStr (digest_string (sa_configuration_hash a))),
      (''State'', JStr (allocation_state_string (sa_state a))),
      (''EffectiveFrom'', JStr (rfc3339_nano (sa_effective_from a))),
      (''EffectiveUntil'', JStr (rfc3339_nano (sa_effective_until a))),
      (''PolicyVersion'', JInt (int (sa_policy_version a))), (''Limit'', money_json (sa_limit a)),
      (''Deployed'', money_json (sa_deployed a)), (''Reserved'', money_json (sa_reserved a)),
      (''Remaining'', money_json (sa_remaining a)), (''DailyLoss'', money_json (sa_daily_loss a))]"

definition exposure_json :: "exposure_record \<Rightarrow> json" where
  "exposure_json e = JObj
     [(''Dimension'', JStr (dimension_string (ex_dimension e))), (''Subject'', JStr (ex_subject e)),
      (''LossBound'', JStr (loss_bound_string (ex_loss_bound e))), (''Gross'', JStr (measuredKey (ex_gross e))),
      (''Net'', JStr (measuredKey (ex_net e))), (''Premium'', JStr (measuredKey (ex_premium_at_risk e))),
      (''Long'', JStr (measuredKey (ex_long e))), (''Short'', JStr (measuredKey (ex_short e))),
      (''Paid'', JStr (measuredKey (ex_premium_paid e))), (''Received'', JStr (measuredKey (ex_premium_received e))),
      (''MaxLoss'', JStr (measuredKey (ex_maximum_loss e))), (''Overnight'', JBool (ex_overnight e))]"

definition kill_switch_json :: "kill_switch \<Rightarrow> json" where
  "kill_switch_json k = JObj
     [(''ID'', JStr (digest_string (ks_id k))), (''Scope'', JStr (control_scope_string (ks_scope k))),
      (''Subject'', JStr (ks_subject k)), (''State'', JStr (kill_switch_state_string (ks_state k))),
      (''Reason'', JStr (ks_reason k)), (''Evidence'', JStr (digest_string (ks_evidence k))),
      (''ChangedAt'', JStr (rfc3339_nano (ks_activated_at k))), (''ExpiresAt'', JStr (rfc3339_nano (ks_expires_at k))),
      (''ConfigurationID'', JStr (digest_string (ks_configuration k))),
      (''ConfigurationHash'', JStr (digest_string (ks_configuration_hash k))),
      (''SchemaVersion'', JStr (ks_schema k)), (''StateRevision'', JInt (int (ks_revision k)))]"

definition circuit_breaker_json :: "circuit_breaker \<Rightarrow> json" where
  "circuit_breaker_json b = JObj
     [(''ID'', JStr (digest_string (cb_id b))), (''Scope'', JStr (control_scope_string (cb_scope b))),
      (''Subject'', JStr (cb_subject b)), (''State'', JStr (circuit_breaker_state_string (cb_state b))),
      (''Reason'', JStr (cb_reason b)), (''Evidence'', JStr (digest_string (cb_evidence b))),
      (''ChangedAt'', JStr (rfc3339_nano (cb_changed_at b))), (''ExpiresAt'', JStr []),
      (''ConfigurationID'', JStr (digest_string (cb_configuration b))),
      (''ConfigurationHash'', JStr (digest_string (cb_configuration_hash b))),
      (''SchemaVersion'', JStr (cb_schema b)), (''StateRevision'', JInt (int (cb_revision b)))]"

definition canonicalSnapshot :: "snapshot_spec \<Rightarrow> string" where
  "canonicalSnapshot spec = marshal (JObj
     [(''SchemaVersion'', JStr (pss_schema spec)), (''PortfolioID'', JStr (digest_string (pss_portfolio spec))),
      (''AsOfExchangeTime'', JStr (rfc3339_nano (pss_as_of spec))),
      (''GeneratedAt'', JStr (rfc3339_nano (pss_generated_at spec))),
      (''TradingDate'', JStr (civil_date_string (pss_trading_date spec))),
      (''BaseCurrency'', JStr (pss_base_currency spec)), (''State'', JStr (portfolio_state_string (pss_state spec))),
      (''ConfigurationID'', JStr (digest_string (pss_configuration spec))),
      (''ConfigurationHash'', JStr (digest_string (pss_configuration_hash spec))),
      (''SourceChecksum'', JStr (digest_string (pss_source_checksum spec))),
      (''Revision'', JInt (int (pss_revision spec))),
      (''ConfigurationVersion'', JInt (int (pss_configuration_version spec))),
      (''Total'', money_json (cap_total (pss_capital spec))), (''Available'', money_json (cap_available (pss_capital spec))),
      (''Reserved'', money_json (cap_reserved (pss_capital spec))), (''Deployed'', money_json (cap_deployed (pss_capital spec))),
      (''RealizedPnL'', money_json (pss_realized spec)), (''UnrealizedPnL'', money_json (pss_unrealized spec)),
      (''DailyRealizedPnL'', money_json (pss_daily_realized spec)),
      (''DailyUnrealizedPnL'', money_json (pss_daily_unrealized spec)),
      (''WeeklyRealizedPnL'', money_json (pss_weekly_realized spec)),
      (''HighWaterMark'', money_json (pss_high_water spec)), (''CurrentEquity'', money_json (pss_equity spec)),
      (''Allocations'', JArr (map allocation_json (pss_allocations spec))),
      (''Exposures'', JArr (map exposure_json (pss_exposures spec))),
      (''KillSwitches'', JArr (map kill_switch_json (pss_kill_switches spec))),
      (''CircuitBreakers'', JArr (map circuit_breaker_json (pss_circuit_breakers spec)))])"

definition snapshot_money :: "snapshot_spec \<Rightarrow> money list" where
  "snapshot_money spec =
     [cap_total (pss_capital spec), cap_available (pss_capital spec), cap_reserved (pss_capital spec),
      cap_deployed (pss_capital spec), pss_realized spec, pss_unrealized spec, pss_daily_realized spec,
      pss_daily_unrealized spec, pss_weekly_realized spec, pss_high_water spec, pss_equity spec]"

lemma snapshot_money_schema [simp]: "snapshot_money (spec\<lparr>pss_schema := x\<rparr>) = snapshot_money spec"
  by (simp add: snapshot_money_def)

definition NewPortfolioSnapshot :: "(string \<Rightarrow> digest) \<Rightarrow> snapshot_spec \<Rightarrow> portfolio_snapshot result" where
  "NewPortfolioSnapshot sha spec0 =
     (let spec = spec0\<lparr>pss_schema := trim_space (pss_schema spec0)\<rparr>;
          capital = pss_capital spec;
          invalid = Inl (Portfolio ErrInvalidPortfolioSnapshot) in
      if pss_schema spec = [] \<or> pss_portfolio spec = 0 \<or> pss_revision spec = 0 \<or> pss_as_of spec = 0 \<or>
         pss_generated_at spec = 0 \<or> date_is_zero (pss_trading_date spec) \<or> pss_base_currency spec = [] \<or>
         \<not> valid_portfolio_state (pss_state spec) \<or> pss_configuration spec = 0 \<or>
         pss_configuration_version spec = 0 \<or> pss_configuration_hash spec = 0 \<or> pss_source_checksum spec = 0
      then invalid
      else if list_ex (\<lambda>v. money_is_zero_value v \<or> money_currency v \<noteq> pss_base_currency spec) (snapshot_money spec)
      then invalid
      else bind_r (NewCapitalState (cap_total capital) (cap_available capital) (cap_reserved capital)
          (cap_deployed capital)) (\<lambda>_.
        bind_r (Money_Add (cap_total capital) (pss_realized spec)) (\<lambda>partial.
          (case Money_Add partial (pss_unrealized spec) of
             Inl _ \<Rightarrow> invalid
           | Inr expected \<Rightarrow>
               if minor expected \<noteq> minor (pss_equity spec) \<or> minor (pss_equity spec) < 0 \<or>
                  minor (pss_high_water spec) < minor (pss_equity spec)
               then invalid
               else bind_r (normalizeStrategyAllocations (pss_allocations spec) (pss_base_currency spec)) (\<lambda>allocations.
                 bind_r (normalizeExposures (pss_exposures spec)) (\<lambda>exposures.
                   if length (pss_kill_switches spec) > 64 \<or> length (pss_circuit_breakers spec) > 64 then invalid
                   else if 0 \<in> ks_id ` set (pss_kill_switches spec) \<or> \<not> distinct (map ks_id (pss_kill_switches spec))
                   then invalid
                   else if 0 \<in> cb_id ` set (pss_circuit_breakers spec) \<or>
                           \<not> distinct (map cb_id (pss_circuit_breakers spec))
                   then invalid
                   else
                     let spec = spec\<lparr>pss_allocations := allocations, pss_exposures := exposures,
                           pss_kill_switches := sort_key (\<lambda>k. digest_string (ks_id k)) (pss_kill_switches spec),
                           pss_circuit_breakers := sort_key (\<lambda>b. digest_string (cb_id b)) (pss_circuit_breakers spec)\<rparr>;
                         raw = canonicalSnapshot spec
                     in if length raw > 1048576 then invalid
                        else Inr \<lparr>psn_id = deriveSnapshotID sha
                            [digest_string (pss_portfolio spec), dec_int (int (pss_revision spec)), raw,
                             digest_string (pss_source_checksum spec)],
                          psn_spec = spec, psn_raw = raw\<rparr>))))))"

record drawdown =
  dd_amount :: money
  dd_bps :: int

definition wrap32 :: "int \<Rightarrow> int" where
  "wrap32 x = (x + 2147483648) mod 4294967296 - 2147483648"

text \<open>The quotient is taken in \<open>math/big\<close>; its conversions keep the low 64 and then the low 32 bits.\<close>

definition Snapshot_Drawdown :: "portfolio_snapshot \<Rightarrow> drawdown" where
  "Snapshot_Drawdown s =
     (let high = pss_high_water (psn_spec s);
          amount = (case CheckedMoneySubtract high (pss_equity (psn_spec s)) of Inl _ \<Rightarrow> zero_money | Inr m \<Rightarrow> m) in
      \<lparr>dd_amount = amount,
       dd_bps = (if minor high > 0
         then (case NewBasisPoints (wrap32 (wrap64 (quo (minor amount * 10000) (minor high)))) of
                 Inl _ \<Rightarrow> 0 | Inr b \<Rightarrow> b)
         else 0)\<rparr>)"

section \<open>Reservations\<close>

record capital_reservation_spec =
  crs_schema :: string
  crs_id :: digest
  crs_portfolio :: digest
  crs_revision :: nat
  crs_candidate :: digest
  crs_strategy_allocation :: digest
  crs_amount :: money
  crs_created_at :: instant
  crs_expires_at :: instant

record capital_reservation =
  cr_spec :: capital_reservation_spec
  cr_raw :: string

definition NewCapitalReservation :: "capital_reservation_spec \<Rightarrow> capital_reservation result" where
  "NewCapitalReservation spec0 =
     (let spec = spec0\<lparr>crs_schema := trim_space (crs_schema spec0)\<rparr> in
      if crs_schema spec = [] \<or> crs_id spec = 0 \<or> crs_portfolio spec = 0 \<or> crs_revision spec = 0 \<or>
         crs_candidate spec = 0 \<or> crs_strategy_allocation spec = 0 \<or> money_is_zero_value (crs_amount spec) \<or>
         minor (crs_amount spec) \<le> 0 \<or> crs_created_at spec = 0 \<or> \<not> crs_expires_at spec > crs_created_at spec
      then Inl (Portfolio ErrInvalidCapitalReservation)
      else Inr \<lparr>cr_spec = spec, cr_raw = marshal (JObj
        [(''SchemaVersion'', JStr (crs_schema spec)), (''ID'', JStr (digest_string (crs_id spec))),
         (''PortfolioID'', JStr (digest_string (crs_portfolio spec))),
         (''CandidateID'', JStr (digest_string (crs_candidate spec))),
         (''StrategyAllocationID'', JStr (digest_string (crs_strategy_allocation spec))),
         (''PortfolioRevision'', JInt (int (crs_revision spec))), (''AmountMinor'', JInt (minor (crs_amount spec))),
         (''Currency'', JStr (money_currency (crs_amount spec))),
         (''CreatedAt'', JStr (rfc3339_nano (crs_created_at spec))),
         (''ExpiresAt'', JStr (rfc3339_nano (crs_expires_at spec)))])\<rparr>)"

section \<open>Capital is split exactly\<close>

definition capital_split :: "capital_state \<Rightarrow> bool" where
  "capital_split c \<longleftrightarrow> 0 \<le> minor (cap_available c) \<and> 0 \<le> minor (cap_reserved c) \<and> 0 \<le> minor (cap_deployed c) \<and>
     minor (cap_available c) + minor (cap_reserved c) + minor (cap_deployed c) = minor (cap_total c)"

lemma Money_Add_value: "Money_Add a b = Inr c \<Longrightarrow>
    minor c = wrap64 (minor a + minor b) \<and> money_currency c = money_currency a \<and>
    money_currency b = money_currency a \<and> money_currency a \<noteq> [] \<and>
    (0 < minor b \<longrightarrow> minor a + minor b \<le> max_i64) \<and> (minor b < 0 \<longrightarrow> min_i64 \<le> minor a + minor b)"
  by (auto simp: Money_Add_def split: if_splits)

lemma Money_Add_nonneg:
  assumes "Money_Add a b = Inr c" "0 \<le> minor a" "0 \<le> minor b" "minor a \<le> max_i64"
  shows "minor c = minor a + minor b" "minor c \<le> max_i64"
proof -
  have "in_i64 (minor a + minor b)"
    using Money_Add_value [OF assms(1)] assms(2-4) by (cases "minor b = 0") (auto simp: i64_defs)
  then show "minor c = minor a + minor b" "minor c \<le> max_i64"
    using Money_Add_value [OF assms(1)] by (auto simp: i64_defs)
qed

lemma NewCapitalState_Inr:
  assumes "NewCapitalState whole available reserved deployed = Inr c" "minor available \<le> max_i64"
  shows "capital_split c" "c = \<lparr>cap_total = whole, cap_available = available, cap_reserved = reserved, cap_deployed = deployed\<rparr>"
    "money_currency available = money_currency whole" "money_currency reserved = money_currency whole"
    "money_currency deployed = money_currency whole" "minor whole \<le> max_i64"
proof -
  from assms(1) obtain s t where st: "Money_Add available reserved = Inr s" "Money_Add s deployed = Inr t" "minor t = minor whole"
    and c: "c = \<lparr>cap_total = whole, cap_available = available, cap_reserved = reserved, cap_deployed = deployed\<rparr>"
    and nn: "0 \<le> minor available" "0 \<le> minor reserved" "0 \<le> minor deployed"
    and cur: "money_currency available = money_currency whole" "money_currency reserved = money_currency whole"
      "money_currency deployed = money_currency whole"
    by (auto simp: NewCapitalState_def bind_r_def split: if_splits sum.splits)
  have s: "minor s = minor available + minor reserved" "minor s \<le> max_i64"
    using Money_Add_nonneg [OF st(1) nn(1,2) assms(2)] by simp_all
  then have t: "minor t = minor s + minor deployed" "minor t \<le> max_i64"
    using Money_Add_nonneg [OF st(2) _ nn(3)] nn by simp_all
  with s st(3) nn c show "capital_split c" by (simp add: capital_split_def)
  from c cur t st(3) show "c = \<lparr>cap_total = whole, cap_available = available, cap_reserved = reserved, cap_deployed = deployed\<rparr>"
    "money_currency available = money_currency whole" "money_currency reserved = money_currency whole"
    "money_currency deployed = money_currency whole" "minor whole \<le> max_i64" by simp_all
qed

lemma NewPortfolioSnapshot_Inr:
  assumes "NewPortfolioSnapshot sha spec = Inr s"
  shows "pss_capital (psn_spec s) = pss_capital spec" "pss_portfolio (psn_spec s) = pss_portfolio spec"
    "pss_revision (psn_spec s) = pss_revision spec"
    "\<exists>c. NewCapitalState (cap_total (pss_capital spec)) (cap_available (pss_capital spec))
       (cap_reserved (pss_capital spec)) (cap_deployed (pss_capital spec)) = Inr c"
    "normalizeStrategyAllocations (pss_allocations spec) (pss_base_currency spec) = Inr (pss_allocations (psn_spec s))"
    "pss_base_currency (psn_spec s) = pss_base_currency spec"
    "set (pss_kill_switches (psn_spec s)) = set (pss_kill_switches spec)"
    "set (pss_circuit_breakers (psn_spec s)) = set (pss_circuit_breakers spec)"
    "psn_raw s = canonicalSnapshot (psn_spec s)"
    "psn_id s = deriveSnapshotID sha [digest_string (pss_portfolio spec), dec_int (int (pss_revision spec)), psn_raw s,
       digest_string (pss_source_checksum spec)]"
    "pss_state (psn_spec s) = pss_state spec" "pss_revision spec \<noteq> 0"
    "\<forall>v \<in> set (snapshot_money spec). money_currency v = pss_base_currency spec"
  using assms
  by (auto simp: NewPortfolioSnapshot_def bind_r_def Let_def list_ex_iff split: if_splits sum.splits)

end
