(* ===== verification/Risk_Evidence.thy ===== *)
theory Risk_Evidence
  imports Port_Snapshot
begin

text \<open>
  \<open>internal/risk/model/identity.go\<close>, \<open>policy.go\<close> and \<open>evidence.go\<close>: the identities, rule configurations and
  policies of portfolio risk, and the evidence and results that a rule returns. The lemmas say which effect and
  which adjustment go with the status of a validated result, and that a validated policy numbers its rules.
\<close>

section \<open>Identities\<close>

definition risk_part :: "string \<Rightarrow> bool" where
  "risk_part part \<longleftrightarrow> trim_space part \<noteq> [] \<and> length part \<le> 4096"

definition validParts_risk :: "string list \<Rightarrow> bool" where
  "validParts_risk parts \<longleftrightarrow> parts \<noteq> [] \<and> length parts \<le> 256 \<and> list_all risk_part parts"

definition risk_identity :: "(string \<Rightarrow> digest) \<Rightarrow> string \<Rightarrow> string list \<Rightarrow> digest result" where
  "risk_identity sha namespace parts =
     (if \<not> validParts_risk parts then Inl (Risk ErrInvalidRiskIdentity) else Inr (derive sha namespace parts))"

definition NewRiskEvaluationID :: "(string \<Rightarrow> digest) \<Rightarrow> string list \<Rightarrow> digest result" where
  "NewRiskEvaluationID sha parts = risk_identity sha ''risk-evaluation-id/v1'' parts"

definition NewRiskViolationID :: "(string \<Rightarrow> digest) \<Rightarrow> string list \<Rightarrow> digest result" where
  "NewRiskViolationID sha parts = risk_identity sha ''risk-violation-id/v1'' parts"

definition NewPortfolioRiskDecisionID :: "(string \<Rightarrow> digest) \<Rightarrow> string list \<Rightarrow> digest result" where
  "NewPortfolioRiskDecisionID sha parts = risk_identity sha ''portfolio-risk-decision-id/v1'' parts"

definition NewDecisionTriggerID :: "(string \<Rightarrow> digest) \<Rightarrow> string list \<Rightarrow> digest result" where
  "NewDecisionTriggerID sha parts = risk_identity sha ''portfolio-risk-trigger-id/v1'' parts"

definition risk_checksum :: "(string \<Rightarrow> digest) \<Rightarrow> string \<Rightarrow> string \<Rightarrow> digest result" where
  "risk_checksum sha namespace canonical =
     (if canonical = [] then Inl (Risk ErrInvalidRiskIdentity) else Inr (derive sha namespace [canonical]))"

definition NewEvidenceChecksum :: "(string \<Rightarrow> digest) \<Rightarrow> string \<Rightarrow> digest result" where
  "NewEvidenceChecksum sha canonical = risk_checksum sha ''risk-evidence-checksum/v1'' canonical"

definition NewDecisionChecksum :: "(string \<Rightarrow> digest) \<Rightarrow> string \<Rightarrow> digest result" where
  "NewDecisionChecksum sha canonical = risk_checksum sha ''risk-decision-checksum/v1'' canonical"

definition NewRiskConfigurationHash :: "(string \<Rightarrow> digest) \<Rightarrow> string \<Rightarrow> digest result" where
  "NewRiskConfigurationHash sha canonical = risk_checksum sha ''risk-configuration-hash/v1'' canonical"

text \<open>\<open>^[A-Z][A-Z0-9_]{2,63}$\<close>\<close>

definition rulePattern :: "string \<Rightarrow> bool" where
  "rulePattern = code_pattern 2 63"

definition NewRiskRuleID :: "string \<Rightarrow> string result" where
  "NewRiskRuleID value =
     (let value = trim_space value in
      if \<not> rulePattern value then Inl (Risk ErrInvalidRiskIdentity) else Inr value)"

section \<open>Policies\<close>

datatype rule_severity = SeverityInfo | SeverityWarning | SeverityBlocking | SeverityCritical | OtherSeverity string

definition rule_severity_string :: "rule_severity \<Rightarrow> string" where
  "rule_severity_string s = (case s of SeverityInfo \<Rightarrow> ''INFO'' | SeverityWarning \<Rightarrow> ''WARNING''
     | SeverityBlocking \<Rightarrow> ''BLOCKING'' | SeverityCritical \<Rightarrow> ''CRITICAL'' | OtherSeverity x \<Rightarrow> x)"

definition valid_severity :: "rule_severity \<Rightarrow> bool" where
  "valid_severity s \<longleftrightarrow> (case s of OtherSeverity _ \<Rightarrow> False | _ \<Rightarrow> True)"

datatype rule_effect =
    EffectNone | EffectModify | EffectDefer | EffectReject | EffectTripCircuitBreaker
  | EffectActivateKillSwitch | OtherEffect string

definition effect_string :: "rule_effect \<Rightarrow> string" where
  "effect_string e = (case e of EffectNone \<Rightarrow> ''NONE'' | EffectModify \<Rightarrow> ''MODIFY'' | EffectDefer \<Rightarrow> ''DEFER''
     | EffectReject \<Rightarrow> ''REJECT'' | EffectTripCircuitBreaker \<Rightarrow> ''TRIP_CIRCUIT_BREAKER''
     | EffectActivateKillSwitch \<Rightarrow> ''ACTIVATE_KILL_SWITCH'' | OtherEffect x \<Rightarrow> x)"

definition valid_effect :: "rule_effect \<Rightarrow> bool" where
  "valid_effect e \<longleftrightarrow> (case e of OtherEffect _ \<Rightarrow> False | _ \<Rightarrow> True)"

datatype fail_posture = FailClosed | OtherPosture string

datatype policy_lifecycle = PolicyActive | PolicyDisabled | PolicyRetired | OtherLifecycle string

record rule_descriptor =
  rrd_id :: string
  rrd_version :: nat
  rrd_name :: string
  rrd_description :: string
  rrd_schema :: string

definition RiskRuleDescriptor_Validate :: "rule_descriptor \<Rightarrow> unit result" where
  "RiskRuleDescriptor_Validate d =
     (if isl (NewRiskRuleID (rrd_id d)) \<or> rrd_version d = 0 \<or> trim_space (rrd_name d) = [] \<or>
         length (rrd_name d) > 128 \<or> trim_space (rrd_description d) = [] \<or> length (rrd_description d) > 2048 \<or>
         trim_space (rrd_schema d) = []
      then Inl (Risk ErrInvalidRiskPolicy) else Inr ())"

record rule_configuration =
  rrc_descriptor :: rule_descriptor
  rrc_order :: nat
  rrc_severity :: rule_severity
  rrc_effect :: rule_effect
  rrc_hash :: digest
  rrc_json :: string

definition rule_limits :: canonical_limits where
  "rule_limits = \<lparr>cl_bytes = 65536, cl_depth = 8, cl_collection = 64\<rparr>"

definition NewRiskRuleConfiguration :: "(string \<Rightarrow> digest) \<Rightarrow> rule_configuration \<Rightarrow> rule_configuration result" where
  "NewRiskRuleConfiguration sha input =
     (if RiskRuleDescriptor_Validate (rrc_descriptor input) \<noteq> Inr () \<or> rrc_order input = 0 \<or>
         \<not> valid_severity (rrc_severity input) \<or> \<not> valid_effect (rrc_effect input) \<or> rrc_hash input = 0 \<or>
         rrc_json input = [] \<or> length (rrc_json input) > 65536
      then Inl (Risk ErrInvalidRiskPolicy)
      else case ObjectBounded (rrc_json input) rule_limits of
        Inl _ \<Rightarrow> Inl (Risk ErrInvalidRiskPolicy)
      | Inr canonical \<Rightarrow>
          if rrc_hash input \<noteq> or_zero (NewRiskConfigurationHash sha canonical)
          then Inl (Risk ErrInvalidRiskPolicy)
          else Inr (input\<lparr>rrc_json := canonical\<rparr>))"

record risk_policy =
  rpo_id :: digest
  rpo_version :: nat
  rpo_schema :: string
  rpo_lifecycle :: policy_lifecycle
  rpo_posture :: fail_posture
  rpo_from :: instant
  rpo_until :: instant
  rpo_rules :: "rule_configuration list"
  rpo_hash :: digest

text \<open>The rule loop: each configuration is validated, then its identity and its order must be new.\<close>

fun check_rules ::
  "(string \<Rightarrow> digest) \<Rightarrow> string set \<Rightarrow> nat set \<Rightarrow> rule_configuration list \<Rightarrow> rule_configuration list result" where
  "check_rules sha ids orders [] = Inr []"
| "check_rules sha ids orders (r # rs) =
     bind_r (NewRiskRuleConfiguration sha r) (\<lambda>v.
       if rrd_id (rrc_descriptor v) \<in> ids then Inl (Risk ErrInvalidRiskPolicy)
       else if rrc_order v \<in> orders then Inl (Risk ErrInvalidRiskPolicy)
       else bind_r (check_rules sha (insert (rrd_id (rrc_descriptor v)) ids) (insert (rrc_order v) orders) rs)
         (\<lambda>vs. Inr (v # vs)))"

definition NewRiskPolicy :: "(string \<Rightarrow> digest) \<Rightarrow> risk_policy \<Rightarrow> risk_policy result" where
  "NewRiskPolicy sha spec =
     (if rpo_id spec = 0 \<or> rpo_version spec = 0 \<or> trim_space (rpo_schema spec) = [] \<or>
         rpo_posture spec \<noteq> FailClosed \<or> rpo_from spec = 0 \<or> \<not> rpo_until spec > rpo_from spec \<or>
         rpo_hash spec = 0 \<or> rpo_rules spec = [] \<or> length (rpo_rules spec) > 50
      then Inl (Risk ErrInvalidRiskPolicy)
      else if (case rpo_lifecycle spec of OtherLifecycle _ \<Rightarrow> True | _ \<Rightarrow> False) then Inl (Risk ErrInvalidRiskPolicy)
      else bind_r (check_rules sha {} {} (rpo_rules spec)) (\<lambda>rules.
        let rules = sort_key rrc_order rules in
        if map rrc_order rules \<noteq> [1..<Suc (length rules)] then Inl (Risk ErrInvalidRiskPolicy)
        else Inr (spec\<lparr>rpo_rules := rules\<rparr>)))"

section \<open>Evidence\<close>

datatype comparison_operator =
    CompareEqual | CompareNotEqual | CompareLessThan | CompareLessOrEqual | CompareGreaterThan
  | CompareGreaterOrEqual | CompareAvailability | OtherComparison string

definition comparison_string :: "comparison_operator \<Rightarrow> string" where
  "comparison_string c = (case c of CompareEqual \<Rightarrow> ''EQUAL'' | CompareNotEqual \<Rightarrow> ''NOT_EQUAL''
     | CompareLessThan \<Rightarrow> ''LESS_THAN'' | CompareLessOrEqual \<Rightarrow> ''LESS_OR_EQUAL''
     | CompareGreaterThan \<Rightarrow> ''GREATER_THAN'' | CompareGreaterOrEqual \<Rightarrow> ''GREATER_OR_EQUAL''
     | CompareAvailability \<Rightarrow> ''AVAILABILITY'' | OtherComparison x \<Rightarrow> x)"

datatype evidence_kind =
    EvidenceMoney | EvidenceInteger | EvidenceBasisPoints | EvidenceRational | EvidenceState
  | EvidenceTimestamp | EvidenceIdentity | OtherEvidence string

definition evidence_kind_string :: "evidence_kind \<Rightarrow> string" where
  "evidence_kind_string k = (case k of EvidenceMoney \<Rightarrow> ''MONEY'' | EvidenceInteger \<Rightarrow> ''INTEGER''
     | EvidenceBasisPoints \<Rightarrow> ''BASIS_POINTS'' | EvidenceRational \<Rightarrow> ''RATIONAL'' | EvidenceState \<Rightarrow> ''STATE''
     | EvidenceTimestamp \<Rightarrow> ''TIMESTAMP'' | EvidenceIdentity \<Rightarrow> ''IDENTITY'' | OtherEvidence x \<Rightarrow> x)"

record evidence_value =
  ev_kind :: evidence_kind
  ev_availability :: availability
  ev_money :: money
  ev_integer :: int
  ev_numerator :: nat
  ev_denominator :: nat
  ev_text :: string
  ev_timestamp :: instant

definition EvidenceValue_Validate :: "evidence_value \<Rightarrow> unit result" where
  "EvidenceValue_Validate v =
     (let invalid = Inl (Risk ErrInvalidRiskEvidence);
          no_money = money_is_zero_value (ev_money v); no_integer = (ev_integer v = 0);
          no_ratio = (ev_numerator v = 0 \<and> ev_denominator v = 0); no_text = (ev_text v = []);
          no_time = (ev_timestamp v = 0);
          accept = (\<lambda>ok. if ok then Inr () else invalid) in
      if \<not> valid_availability (ev_availability v) then invalid
      else if (case ev_kind v of OtherEvidence _ \<Rightarrow> True | _ \<Rightarrow> False) then invalid
      else if ev_availability v \<noteq> AvailabilityKnown
      then accept (no_money \<and> no_integer \<and> no_ratio \<and> no_text \<and> no_time)
      else case ev_kind v of
        EvidenceMoney \<Rightarrow> accept (\<not> no_money \<and> no_integer \<and> no_ratio \<and> no_text \<and> no_time)
      | EvidenceInteger \<Rightarrow> accept (no_money \<and> no_ratio \<and> no_text \<and> no_time)
      | EvidenceBasisPoints \<Rightarrow>
          accept (no_money \<and> 0 \<le> ev_integer v \<and> ev_integer v \<le> 10000 \<and> no_ratio \<and> no_text \<and> no_time)
      | EvidenceRational \<Rightarrow> accept (no_money \<and> no_integer \<and> ev_denominator v \<noteq> 0 \<and> no_text \<and> no_time)
      | EvidenceTimestamp \<Rightarrow> accept (no_money \<and> no_integer \<and> no_ratio \<and> no_text \<and> \<not> no_time)
      | _ \<Rightarrow> accept (no_money \<and> no_integer \<and> no_ratio \<and> trim_space (ev_text v) \<noteq> [] \<and>
          length (ev_text v) \<le> 256 \<and> no_time))"

datatype evidence_subject =
    SubjectPortfolio | SubjectStrategy | SubjectInstrument | SubjectUnderlying | SubjectExposureGroup
  | SubjectProposal | SubjectAllocation | SubjectRule | OtherSubject string

definition subject_string :: "evidence_subject \<Rightarrow> string" where
  "subject_string s = (case s of SubjectPortfolio \<Rightarrow> ''PORTFOLIO'' | SubjectStrategy \<Rightarrow> ''STRATEGY''
     | SubjectInstrument \<Rightarrow> ''INSTRUMENT'' | SubjectUnderlying \<Rightarrow> ''UNDERLYING''
     | SubjectExposureGroup \<Rightarrow> ''EXPOSURE_GROUP'' | SubjectProposal \<Rightarrow> ''PROPOSAL''
     | SubjectAllocation \<Rightarrow> ''ALLOCATION'' | SubjectRule \<Rightarrow> ''RULE'' | OtherSubject x \<Rightarrow> x)"

record risk_evidence_spec =
  res_code :: string
  res_observed :: evidence_value
  res_limit :: evidence_value
  res_projected :: evidence_value
  res_headroom :: evidence_value
  res_unit :: string
  res_comparison :: comparison_operator
  res_subject_type :: evidence_subject
  res_subject :: string
  res_snapshot :: digest
  res_proposal :: digest
  res_formula :: string
  res_at :: instant
  res_explanation :: string

record risk_evidence =
  rev_spec :: risk_evidence_spec
  rev_raw :: string

definition evidenceValue :: "evidence_value \<Rightarrow> json" where
  "evidenceValue v =
     (let known = \<not> money_is_zero_value (ev_money v) in
      JObj [(''Kind'', JStr (evidence_kind_string (ev_kind v))),
        (''Availability'', JStr (availability_string (ev_availability v))),
        (''Currency'', JStr (if known then money_currency (ev_money v) else [])), (''Text'', JStr (ev_text v)),
        (''Timestamp'', JStr (if ev_timestamp v \<noteq> 0 then rfc3339_nano (ev_timestamp v) else [])),
        (''MoneyMinor'', JInt (if known then minor (ev_money v) else 0)), (''Integer'', JInt (ev_integer v)),
        (''Numerator'', JInt (int (ev_numerator v))), (''Denominator'', JInt (int (ev_denominator v)))])"

definition canonicalEvidence :: "risk_evidence_spec \<Rightarrow> string" where
  "canonicalEvidence spec = marshal (JObj
     [(''Code'', JStr (res_code spec)), (''Unit'', JStr (res_unit spec)),
      (''Comparison'', JStr (comparison_string (res_comparison spec))),
      (''SubjectType'', JStr (subject_string (res_subject_type spec))), (''SubjectIdentity'', JStr (res_subject spec)),
      (''SnapshotID'', JStr (digest_string (res_snapshot spec))), (''ProposalID'', JStr (digest_string (res_proposal spec))),
      (''FormulaVersion'', JStr (res_formula spec)), (''EvidenceAt'', JStr (rfc3339_nano (res_at spec))),
      (''Explanation'', JStr (res_explanation spec)), (''Observed'', evidenceValue (res_observed spec)),
      (''Limit'', evidenceValue (res_limit spec)), (''Projected'', evidenceValue (res_projected spec)),
      (''Remaining'', evidenceValue (res_headroom spec))])"

definition NewRiskEvidence :: "risk_evidence_spec \<Rightarrow> risk_evidence result" where
  "NewRiskEvidence spec0 =
     (let spec = spec0\<lparr>res_code := trim_space (res_code spec0), res_unit := trim_space (res_unit spec0),
            res_subject := trim_space (res_subject spec0), res_formula := trim_space (res_formula spec0),
            res_explanation := trim_space (res_explanation spec0)\<rparr> in
      if \<not> rulePattern (res_code spec) \<or> EvidenceValue_Validate (res_observed spec) \<noteq> Inr () \<or>
         EvidenceValue_Validate (res_limit spec) \<noteq> Inr () \<or> EvidenceValue_Validate (res_projected spec) \<noteq> Inr () \<or>
         EvidenceValue_Validate (res_headroom spec) \<noteq> Inr () \<or> res_unit spec = [] \<or> length (res_unit spec) > 32 \<or>
         res_subject spec = [] \<or> length (res_subject spec) > 256 \<or> res_snapshot spec = 0 \<or> res_proposal spec = 0 \<or>
         res_formula spec = [] \<or> length (res_formula spec) > 64 \<or> res_at spec = 0 \<or> res_explanation spec = [] \<or>
         length (res_explanation spec) > 1024
      then Inl (Risk ErrInvalidRiskEvidence)
      else if (case res_comparison spec of OtherComparison _ \<Rightarrow> True | _ \<Rightarrow> False) then Inl (Risk ErrInvalidRiskEvidence)
      else if (case res_subject_type spec of OtherSubject _ \<Rightarrow> True | _ \<Rightarrow> False) then Inl (Risk ErrInvalidRiskEvidence)
      else
        let raw = canonicalEvidence spec in
        if length raw > 65536 then Inl (Risk ErrInvalidRiskEvidence)
        else Inr \<lparr>rev_spec = spec, rev_raw = raw\<rparr>)"

section \<open>Results\<close>

datatype rule_result_status =
  RulePass | RuleViolation | RuleModificationRequired | RuleDefer | RuleError | OtherRuleStatus string

definition rule_status_string :: "rule_result_status \<Rightarrow> string" where
  "rule_status_string s = (case s of RulePass \<Rightarrow> ''PASS'' | RuleViolation \<Rightarrow> ''VIOLATION''
     | RuleModificationRequired \<Rightarrow> ''MODIFICATION_REQUIRED'' | RuleDefer \<Rightarrow> ''DEFER'' | RuleError \<Rightarrow> ''ERROR''
     | OtherRuleStatus x \<Rightarrow> x)"

record rule_adjustment =
  rja_capital :: money
  rja_legs :: "allocation_leg_bound list"
  rja_constraints :: "allocation_constraint list"
  rja_until :: instant

definition RuleAdjustment_Validate :: "rule_adjustment \<Rightarrow> unit result" where
  "RuleAdjustment_Validate a =
     (if money_is_zero_value (rja_capital a) \<or> minor (rja_capital a) < 0 \<or> rja_legs a = [] \<or>
         length (rja_legs a) > 8 \<or> rja_constraints a = [] \<or> length (rja_constraints a) > 32 \<or> rja_until a = 0
      then Inl (Risk ErrInvalidRiskEvidence)
      else if list_ex (\<lambda>leg. AllocationLegBound_Validate leg \<noteq> Inr ()) (rja_legs a)
      then Inl (Risk ErrInvalidRiskEvidence)
      else if list_ex (\<lambda>c. AllocationConstraint_Validate c \<noteq> Inr ()) (rja_constraints a)
      then Inl (Risk ErrInvalidRiskEvidence)
      else Inr ())"

record rule_result =
  rrs_rule :: string
  rrs_version :: nat
  rrs_hash :: digest
  rrs_status :: rule_result_status
  rrs_reason :: string
  rrs_severity :: rule_severity
  rrs_effect :: rule_effect
  rrs_evidence :: "risk_evidence list"
  rrs_adjustment :: "rule_adjustment option"
  rrs_at :: instant

definition status_effect_ok :: "rule_result \<Rightarrow> bool" where
  "status_effect_ok spec \<longleftrightarrow>
     (case rrs_status spec of
        RulePass \<Rightarrow> rrs_effect spec = EffectNone \<and> rrs_adjustment spec = None
      | RuleViolation \<Rightarrow> rrs_effect spec \<in> {EffectReject, EffectTripCircuitBreaker, EffectActivateKillSwitch} \<and>
          rrs_adjustment spec = None
      | RuleModificationRequired \<Rightarrow> rrs_effect spec = EffectModify \<and>
          (case rrs_adjustment spec of None \<Rightarrow> False | Some a \<Rightarrow> RuleAdjustment_Validate a = Inr ())
      | RuleDefer \<Rightarrow> rrs_effect spec = EffectDefer \<and> rrs_adjustment spec = None
      | RuleError \<Rightarrow> rrs_effect spec = EffectDefer \<and> rrs_adjustment spec = None
      | OtherRuleStatus _ \<Rightarrow> False)"

fun check_evidence :: "string set \<Rightarrow> risk_evidence list \<Rightarrow> unit result" where
  "check_evidence seen [] = Inr ()"
| "check_evidence seen (e # es) =
     (if rev_raw e = [] then Inl (Risk ErrInvalidRiskEvidence)
      else if res_code (rev_spec e) \<in> seen then Inl (Risk ErrInvalidRiskEvidence)
      else check_evidence (insert (res_code (rev_spec e)) seen) es)"

text \<open>The adjustment in canonical order; equal neighbours after sorting are equal elements.\<close>

definition sorted_adjustment :: "rule_adjustment \<Rightarrow> rule_adjustment result" where
  "sorted_adjustment a =
     (if \<not> distinct (map lb_instrument (rja_legs a)) then Inl (Risk ErrInvalidRiskEvidence)
      else if \<not> distinct (map ac_code (rja_constraints a)) then Inl (Risk ErrInvalidRiskEvidence)
      else Inr (a\<lparr>rja_legs := sort_key leg_bound_key (rja_legs a),
                  rja_constraints := sort_key ac_code (rja_constraints a)\<rparr>))"

definition NewRuleResult :: "rule_result \<Rightarrow> rule_result result" where
  "NewRuleResult spec0 =
     (let spec = spec0\<lparr>rrs_reason := trim_space (rrs_reason spec0)\<rparr> in
      if isl (NewRiskRuleID (rrs_rule spec)) \<or> rrs_version spec = 0 \<or> rrs_hash spec = 0 \<or>
         \<not> rulePattern (rrs_reason spec) \<or> \<not> valid_severity (rrs_severity spec) \<or> \<not> valid_effect (rrs_effect spec) \<or>
         rrs_at spec = 0 \<or> length (rrs_evidence spec) > 32
      then Inl (Risk ErrInvalidRiskEvidence)
      else if \<not> status_effect_ok spec then Inl (Risk ErrInvalidRiskEvidence)
      else bind_r (check_evidence {} (rrs_evidence spec)) (\<lambda>_.
        bind_r (case rrs_adjustment spec of None \<Rightarrow> Inr None
                | Some a \<Rightarrow> bind_r (sorted_adjustment a) (\<lambda>a. Inr (Some a))) (\<lambda>adjustment.
          Inr (spec\<lparr>rrs_evidence := sort_key (\<lambda>e. res_code (rev_spec e)) (rrs_evidence spec),
                    rrs_adjustment := adjustment\<rparr>))))"

section \<open>Inputs of a rule\<close>

record rule_input =
  rri_schema :: string
  rri_proposal :: trade_proposal
  rri_snapshot :: portfolio_snapshot
  rri_candidate :: allocation_candidate
  rri_allocation :: strategy_allocation
  rri_trading_date :: civil_date
  rri_session :: string
  rri_policy :: digest
  rri_policy_version :: nat
  rri_configuration :: rule_configuration
  rri_at :: instant

definition NewRiskRuleInput :: "(string \<Rightarrow> digest) \<Rightarrow> rule_input \<Rightarrow> rule_input result" where
  "NewRiskRuleInput sha spec =
     (if trim_space (rri_schema spec) = [] \<or> proposal_is_zero (rri_proposal spec) \<or> psn_id (rri_snapshot spec) = 0 \<or>
         ca_id (rri_candidate spec) = 0 \<or> sa_id (rri_allocation spec) = 0 \<or> date_is_zero (rri_trading_date spec) \<or>
         trim_space (rri_session spec) = [] \<or> length (rri_session spec) > 128 \<or> rri_policy spec = 0 \<or>
         rri_policy_version spec = 0 \<or> rri_at spec = 0 \<or>
         tp_id (cs_proposal (ca_spec (rri_candidate spec))) \<noteq> tp_id (rri_proposal spec) \<or>
         cs_snapshot (ca_spec (rri_candidate spec)) \<noteq> psn_id (rri_snapshot spec) \<or>
         cs_portfolio_revision (ca_spec (rri_candidate spec)) \<noteq> pss_revision (psn_spec (rri_snapshot spec))
      then Inl (Risk ErrInvalidRiskEvidence)
      else bind_r (NewRiskRuleConfiguration sha (rri_configuration spec)) (\<lambda>configuration.
        Inr (spec\<lparr>rri_configuration := configuration\<rparr>)))"

section \<open>What a validated result and a validated policy satisfy\<close>

lemma NewRuleResult_Inr:
  assumes "NewRuleResult spec = Inr r"
  shows "rrs_status r = rrs_status spec" "rrs_effect r = rrs_effect spec" "status_effect_ok spec"
    "rrs_rule r = rrs_rule spec" "rrs_version r = rrs_version spec" "rrs_hash r = rrs_hash spec" "rrs_at r = rrs_at spec"
    "set (rrs_evidence r) = set (rrs_evidence spec)"
    "case rrs_adjustment spec of None \<Rightarrow> rrs_adjustment r = None
       | Some a \<Rightarrow> \<exists>b. sorted_adjustment a = Inr b \<and> rrs_adjustment r = Some b"
proof -
  have same: "status_effect_ok (spec\<lparr>rrs_reason := x\<rparr>) = status_effect_ok spec" for x
    by (cases "rrs_status spec") (simp_all add: status_effect_ok_def)
  from assms obtain adjustment where
    adj: "(case rrs_adjustment spec of None \<Rightarrow> Inr None
       | Some a \<Rightarrow> bind_r (sorted_adjustment a) (\<lambda>a. Inr (Some a))) = Inr adjustment"
    and ok: "status_effect_ok spec"
    and r: "r = spec\<lparr>rrs_reason := trim_space (rrs_reason spec),
      rrs_evidence := sort_key (\<lambda>e. res_code (rev_spec e)) (rrs_evidence spec), rrs_adjustment := adjustment\<rparr>"
    unfolding NewRuleResult_def Let_def same
    by (simp add: bind_r_def split: if_splits sum.splits)
  show "status_effect_ok spec" by (rule ok)
  show "rrs_status r = rrs_status spec" "rrs_effect r = rrs_effect spec"
    "rrs_rule r = rrs_rule spec" "rrs_version r = rrs_version spec" "rrs_hash r = rrs_hash spec" "rrs_at r = rrs_at spec"
    "set (rrs_evidence r) = set (rrs_evidence spec)"
    by (simp_all add: r)
  show "case rrs_adjustment spec of None \<Rightarrow> rrs_adjustment r = None
       | Some a \<Rightarrow> \<exists>b. sorted_adjustment a = Inr b \<and> rrs_adjustment r = Some b"
    using adj by (cases "rrs_adjustment spec") (auto simp: r bind_r_def split: sum.splits)
qed

lemma check_rules_Inr:
  "check_rules sha ids orders rs = Inr vs \<Longrightarrow>
     list_all2 (\<lambda>r v. NewRiskRuleConfiguration sha r = Inr v) rs vs \<and>
     distinct (map (\<lambda>v. rrd_id (rrc_descriptor v)) vs) \<and> (\<lambda>v. rrd_id (rrc_descriptor v)) ` set vs \<inter> ids = {}"
proof (induction rs arbitrary: ids orders vs)
  case (Cons r rs)
  then obtain v ws where h: "NewRiskRuleConfiguration sha r = Inr v" "rrd_id (rrc_descriptor v) \<notin> ids"
    "check_rules sha (insert (rrd_id (rrc_descriptor v)) ids) (insert (rrc_order v) orders) rs = Inr ws" "vs = v # ws"
    by (auto simp: bind_r_def split: sum.splits if_splits)
  show ?case using Cons.IH [OF h(3)] h(1,2,4) by auto
qed simp

lemma NewRiskPolicy_Inr:
  assumes "NewRiskPolicy sha spec = Inr p"
  shows "map rrc_order (rpo_rules p) = [1..<Suc (length (rpo_rules p))]" "rpo_rules p \<noteq> []"
    "length (rpo_rules p) = length (rpo_rules spec)" "distinct (map (\<lambda>v. rrd_id (rrc_descriptor v)) (rpo_rules p))"
    "rpo_posture p = FailClosed"
proof -
  from assms obtain rules where h: "check_rules sha {} {} (rpo_rules spec) = Inr rules"
    "map rrc_order (sort_key rrc_order rules) = [1..<Suc (length rules)]"
    "p = spec\<lparr>rpo_rules := sort_key rrc_order rules\<rparr>" "rpo_rules spec \<noteq> []" "rpo_posture spec = FailClosed"
    by (auto simp: NewRiskPolicy_def Let_def bind_r_def split: if_splits sum.splits)
  note c = check_rules_Inr [OF h(1)]
  then have len: "length rules = length (rpo_rules spec)" by (auto dest: list_all2_lengthD)
  show "map rrc_order (rpo_rules p) = [1..<Suc (length (rpo_rules p))]" using h(2,3) by simp
  show "length (rpo_rules p) = length (rpo_rules spec)" using h(3) len by simp
  then show "rpo_rules p \<noteq> []" using h(4) by auto
  show "rpo_posture p = FailClosed" using h(3,5) by simp
  show "distinct (map (\<lambda>v. rrd_id (rrc_descriptor v)) (rpo_rules p))"
    using c h(3) by (simp add: distinct_map_sort_key)
qed

end
