(* ===== verification/Risk_Decision.thy ===== *)
theory Risk_Decision
  imports Risk_Evidence
begin

text \<open>
  \<open>internal/risk/model/evaluation.go\<close> and \<open>decision.go\<close>: the evaluation that collects the results of all rules,
  and the decision on a candidate. The lemmas say which outcome a decision may have for the statuses of the rules,
  and that an approved allocation is within its candidate.
\<close>

section \<open>Violations\<close>

record violation_spec =
  rvs_schema :: string
  rvs_evaluation :: digest
  rvs_rule :: string
  rvs_version :: nat
  rvs_reason :: string
  rvs_severity :: rule_severity
  rvs_effect :: rule_effect
  rvs_evidence :: "risk_evidence list"
  rvs_generated_at :: instant
  rvs_hash :: digest

record risk_violation =
  rvi_id :: digest
  rvi_spec :: violation_spec
  rvi_raw :: string

definition NewViolationReason :: "string \<Rightarrow> string result" where
  "NewViolationReason value =
     (let value = trim_space value in
      if \<not> rulePattern value then Inl (Risk ErrInvalidRiskEvaluation) else Inr value)"

definition canonicalViolation :: "violation_spec \<Rightarrow> string" where
  "canonicalViolation spec = marshal (JObj
     [(''SchemaVersion'', JStr (rvs_schema spec)), (''EvaluationID'', JStr (digest_string (rvs_evaluation spec))),
      (''RuleID'', JStr (rvs_rule spec)), (''ReasonCode'', JStr (rvs_reason spec)),
      (''Severity'', JStr (rule_severity_string (rvs_severity spec))), (''Effect'', JStr (effect_string (rvs_effect spec))),
      (''RuleVersion'', JInt (int (rvs_version spec))), (''Evidence'', JArr (map (\<lambda>e. JRaw (rev_raw e)) (rvs_evidence spec))),
      (''GeneratedAt'', JStr (rfc3339_nano (rvs_generated_at spec))),
      (''ConfigurationHash'', JStr (digest_string (rvs_hash spec)))])"

definition NewRiskViolation :: "(string \<Rightarrow> digest) \<Rightarrow> violation_spec \<Rightarrow> risk_violation result" where
  "NewRiskViolation sha spec0 =
     (if trim_space (rvs_schema spec0) = [] \<or> rvs_evaluation spec0 = 0 \<or> isl (NewRiskRuleID (rvs_rule spec0)) \<or>
         rvs_version spec0 = 0 \<or> \<not> valid_severity (rvs_severity spec0) \<or> \<not> valid_effect (rvs_effect spec0) \<or>
         rvs_generated_at spec0 = 0 \<or> rvs_hash spec0 = 0 \<or> rvs_evidence spec0 = [] \<or> length (rvs_evidence spec0) > 32
      then Inl (Risk ErrInvalidRiskEvaluation)
      else if isl (NewViolationReason (rvs_reason spec0)) \<or> rvs_effect spec0 = EffectNone
      then Inl (Risk ErrInvalidRiskEvaluation)
      else
        let spec = spec0\<lparr>rvs_evidence := sort_key (\<lambda>e. res_code (rev_spec e)) (rvs_evidence spec0)\<rparr>;
            raw = canonicalViolation spec;
            id = or_zero (NewRiskViolationID sha [digest_string (rvs_evaluation spec), rvs_rule spec,
              dec_int (int (rvs_version spec)), rvs_reason spec, raw])
        in Inr \<lparr>rvi_id = id, rvi_spec = spec, rvi_raw = raw\<rparr>)"

section \<open>Evaluations\<close>

datatype technical_code =
    TechnicalRuleFailure | TechnicalRuleCancelled | TechnicalUnavailableInput | TechnicalInvalidRuleOutput
  | OtherTechnical string

definition technical_string :: "technical_code \<Rightarrow> string" where
  "technical_string c = (case c of TechnicalRuleFailure \<Rightarrow> ''RULE_FAILURE'' | TechnicalRuleCancelled \<Rightarrow> ''RULE_CANCELLED''
     | TechnicalUnavailableInput \<Rightarrow> ''UNAVAILABLE_INPUT'' | TechnicalInvalidRuleOutput \<Rightarrow> ''INVALID_RULE_OUTPUT''
     | OtherTechnical x \<Rightarrow> x)"

record technical_error =
  ter_rule :: string
  ter_version :: nat
  ter_code :: technical_code
  ter_at :: instant

definition TechnicalRuleError_Validate :: "technical_error \<Rightarrow> unit result" where
  "TechnicalRuleError_Validate t =
     (if isl (NewRiskRuleID (ter_rule t)) \<or> ter_version t = 0 \<or> ter_at t = 0 then Inl (Risk ErrInvalidRiskEvaluation)
      else case ter_code t of OtherTechnical _ \<Rightarrow> Inl (Risk ErrInvalidRiskEvaluation) | _ \<Rightarrow> Inr ())"

record evaluation_spec =
  rvl_schema :: string
  rvl_id :: digest
  rvl_proposal :: digest
  rvl_candidate :: digest
  rvl_snapshot :: digest
  rvl_revision :: nat
  rvl_policy :: digest
  rvl_policy_version :: nat
  rvl_hash :: digest
  rvl_results :: "rule_result list"
  rvl_violations :: "risk_violation list"
  rvl_technical :: "technical_error list"
  rvl_started_at :: instant
  rvl_completed_at :: instant

record risk_evaluation =
  rva_spec :: evaluation_spec
  rva_checksum :: digest
  rva_raw :: string

definition canonicalAdjustment :: "rule_adjustment \<Rightarrow> string" where
  "canonicalAdjustment a = join ''|''
     ([money_currency (rja_capital a) @ '':'' @ dec_int (minor (rja_capital a)), rfc3339_nano (rja_until a)] @
      map (\<lambda>leg. digest_string (lb_instrument leg) @ '':'' @ side_string (lb_side leg) @ '':'' @
          dec_int (int (lb_ratio leg)) @ '':'' @ resolution_string (lb_resolution leg) @ '':'' @
          dec_int (lb_maximum_units leg) @ '':'' @ dec_int (lb_lot_size leg)) (rja_legs a) @
      map (\<lambda>c. ac_code c @ '':'' @ dec_int (minor (ac_before c)) @ '':'' @ dec_int (minor (ac_after c)) @ '':'' @
          ac_explanation c) (rja_constraints a))"

definition evidence_checksum :: "(string \<Rightarrow> digest) \<Rightarrow> risk_evidence \<Rightarrow> digest" where
  "evidence_checksum sha e = or_zero (NewEvidenceChecksum sha (rev_raw e))"

definition evaluation_parts :: "(string \<Rightarrow> digest) \<Rightarrow> evaluation_spec \<Rightarrow> string list" where
  "evaluation_parts sha spec =
     [trim_space (rvl_schema spec), digest_string (rvl_proposal spec), digest_string (rvl_candidate spec),
      digest_string (rvl_snapshot spec), dec_int (int (rvl_revision spec)), digest_string (rvl_policy spec),
      dec_int (int (rvl_policy_version spec)), digest_string (rvl_hash spec), rfc3339_nano (rvl_started_at spec),
      rfc3339_nano (rvl_completed_at spec)] @
     concat (map (\<lambda>r. [rrs_rule r, dec_int (int (rrs_version r)), rule_status_string (rrs_status r), rrs_reason r,
         effect_string (rrs_effect r), digest_string (rrs_hash r)] @
         (case rrs_adjustment r of None \<Rightarrow> [] | Some a \<Rightarrow> [canonicalAdjustment a]) @
         concat (map (\<lambda>e. [res_code (rev_spec e), digest_string (evidence_checksum sha e)]) (rrs_evidence r)))
       (rvl_results spec)) @
     concat (map (\<lambda>t. [ter_rule t, dec_int (int (ter_version t)), technical_string (ter_code t), rfc3339_nano (ter_at t)])
       (rvl_technical spec))"

definition DeriveRiskEvaluationID :: "(string \<Rightarrow> digest) \<Rightarrow> evaluation_spec \<Rightarrow> digest result" where
  "DeriveRiskEvaluationID sha spec =
     (if trim_space (rvl_schema spec) = [] \<or> rvl_proposal spec = 0 \<or> rvl_candidate spec = 0 \<or> rvl_snapshot spec = 0 \<or>
         rvl_revision spec = 0 \<or> rvl_policy spec = 0 \<or> rvl_policy_version spec = 0 \<or> rvl_hash spec = 0 \<or>
         rvl_started_at spec = 0 \<or> rvl_completed_at spec < rvl_started_at spec \<or> rvl_results spec = [] \<or>
         length (rvl_results spec) > 50
      then Inl (Risk ErrInvalidRiskEvaluation)
      else if list_ex (\<lambda>key. trim_space key = []) (evaluation_parts sha spec) then Inl (Risk ErrInvalidRiskIdentity)
      else NewRiskEvaluationID sha (evaluation_parts sha spec))"

fun equalEvidence :: "(string \<Rightarrow> digest) \<Rightarrow> risk_evidence list \<Rightarrow> risk_evidence list \<Rightarrow> bool" where
  "equalEvidence sha [] [] = True"
| "equalEvidence sha (l # ls) (r # rs) \<longleftrightarrow>
     evidence_checksum sha l = evidence_checksum sha r \<and> equalEvidence sha ls rs"
| "equalEvidence sha _ _ = False"

fun ruleOrder :: "rule_result list \<Rightarrow> string \<Rightarrow> nat" where
  "ruleOrder [] i = 0"
| "ruleOrder (r # rs) i = (if rrs_rule r = i then 0 else Suc (ruleOrder rs i))"

definition violation_matches :: "(string \<Rightarrow> digest) \<Rightarrow> rule_result list \<Rightarrow> risk_violation \<Rightarrow> bool" where
  "violation_matches sha results v =
     (case find (\<lambda>r. rrs_rule r = rvs_rule (rvi_spec v)) results of
        None \<Rightarrow> False
      | Some m \<Rightarrow>
          (rrs_status m = RuleViolation \<or> rrs_status m = RuleModificationRequired) \<and>
          rrs_version m = rvs_version (rvi_spec v) \<and> rrs_hash m = rvs_hash (rvi_spec v) \<and>
          rrs_reason m = rvs_reason (rvi_spec v) \<and> rrs_severity m = rvs_severity (rvi_spec v) \<and>
          rrs_effect m = rvs_effect (rvi_spec v) \<and> equalEvidence sha (rrs_evidence m) (rvs_evidence (rvi_spec v)))"

fun check_violations ::
  "(string \<Rightarrow> digest) \<Rightarrow> evaluation_spec \<Rightarrow> digest set \<Rightarrow> risk_violation list \<Rightarrow> unit result" where
  "check_violations sha spec seen [] = Inr ()"
| "check_violations sha spec seen (v # vs) =
     (if rvs_evaluation (rvi_spec v) \<noteq> rvl_id spec then Inl (Risk ErrInvalidRiskEvaluation)
      else if rvi_id v \<in> seen then Inl (Risk ErrInvalidRiskEvaluation)
      else if \<not> violation_matches sha (rvl_results spec) v then Inl (Risk ErrInvalidRiskEvaluation)
      else check_violations sha spec (insert (rvi_id v) seen) vs)"

definition canonicalEvaluation :: "(string \<Rightarrow> digest) \<Rightarrow> evaluation_spec \<Rightarrow> string" where
  "canonicalEvaluation sha spec = marshal (JObj
     [(''SchemaVersion'', JStr (rvl_schema spec)), (''ID'', JStr (digest_string (rvl_id spec))),
      (''ProposalID'', JStr (digest_string (rvl_proposal spec))), (''CandidateID'', JStr (digest_string (rvl_candidate spec))),
      (''SnapshotID'', JStr (digest_string (rvl_snapshot spec))), (''PolicyID'', JStr (digest_string (rvl_policy spec))),
      (''ConfigurationHash'', JStr (digest_string (rvl_hash spec))),
      (''PortfolioRevision'', JInt (int (rvl_revision spec))), (''PolicyVersion'', JInt (int (rvl_policy_version spec))),
      (''Results'', JArr (map (\<lambda>r. JObj
         [(''RuleID'', JStr (rrs_rule r)), (''Status'', JStr (rule_status_string (rrs_status r))),
          (''Reason'', JStr (rrs_reason r)), (''Severity'', JStr (rule_severity_string (rrs_severity r))),
          (''Effect'', JStr (effect_string (rrs_effect r))), (''ConfigurationHash'', JStr (digest_string (rrs_hash r))),
          (''Adjustment'', JStr (case rrs_adjustment r of None \<Rightarrow> [] | Some a \<Rightarrow> canonicalAdjustment a)),
          (''RuleVersion'', JInt (int (rrs_version r))),
          (''EvidenceChecksums'', JArr (map (\<lambda>e. JStr (digest_string (evidence_checksum sha e))) (rrs_evidence r)))])
        (rvl_results spec))),
      (''Violations'', JArr (map (\<lambda>v. JStr (digest_string (rvi_id v))) (rvl_violations spec))),
      (''TechnicalErrors'', JArr (map (\<lambda>t. JObj
         [(''RuleID'', JStr (ter_rule t)), (''Code'', JStr (technical_string (ter_code t))),
          (''OccurredAt'', JStr (rfc3339_nano (ter_at t))), (''RuleVersion'', JInt (int (ter_version t)))])
        (rvl_technical spec))),
      (''StartedAt'', JStr (rfc3339_nano (rvl_started_at spec))),
      (''CompletedAt'', JStr (rfc3339_nano (rvl_completed_at spec)))])"

definition NewRiskEvaluation :: "(string \<Rightarrow> digest) \<Rightarrow> evaluation_spec \<Rightarrow> risk_evaluation result" where
  "NewRiskEvaluation sha spec0 =
     (let spec = spec0\<lparr>rvl_schema := trim_space (rvl_schema spec0)\<rparr>;
          invalid = Inl (Risk ErrInvalidRiskEvaluation) in
      (case DeriveRiskEvaluationID sha spec of
         Inl _ \<Rightarrow> invalid
       | Inr expected \<Rightarrow>
           if rvl_schema spec = [] \<or> rvl_id spec \<noteq> expected \<or> length (rvl_violations spec) > 50 \<or>
              length (rvl_technical spec) > 50
           then invalid
           else if \<not> distinct (map rrs_rule (rvl_results spec)) then invalid
           else bind_r (check_violations sha spec {} (rvl_violations spec)) (\<lambda>_.
             if list_ex (\<lambda>t. TechnicalRuleError_Validate t \<noteq> Inr ()) (rvl_technical spec) then invalid
             else
               let spec = spec\<lparr>rvl_violations := sort_key (\<lambda>v. ruleOrder (rvl_results spec) (rvs_rule (rvi_spec v)))
                       (sort_key (\<lambda>v. digest_string (rvi_id v)) (rvl_violations spec)),
                     rvl_technical := sort_key ter_rule (rvl_technical spec)\<rparr>;
                   raw = canonicalEvaluation sha spec in
               if length raw > 262144 then invalid
               else Inr \<lparr>rva_spec = spec, rva_checksum = or_zero (NewEvidenceChecksum sha raw), rva_raw = raw\<rparr>)))"

section \<open>Decisions\<close>

definition outcome_string :: "decision_outcome \<Rightarrow> string" where
  "outcome_string c = (case c of DecisionApproved \<Rightarrow> ''APPROVED'' | DecisionRejected \<Rightarrow> ''REJECTED''
     | DecisionModified \<Rightarrow> ''MODIFIED'' | DecisionDeferred \<Rightarrow> ''DEFERRED'' | OtherDecision x \<Rightarrow> x)"

definition decision_reasons :: "string list" where
  "decision_reasons =
     [''ALL_RULES_PASSED'', ''ALLOCATION_MODIFIED'', ''RISK_VIOLATION'', ''RISK_DATA_UNAVAILABLE'', ''RULE_ERROR'',
      ''CONFIGURATION_DISABLED'', ''PORTFOLIO_DISABLED'', ''KILL_SWITCH_ACTIVE'', ''CIRCUIT_BREAKER_OPEN'',
      ''PORTFOLIO_REVISION_STALE'']"

definition newApprovedBounds ::
  "approved_allocation_bounds \<Rightarrow> allocation_candidate \<Rightarrow> approved_allocation_bounds result" where
  "newApprovedBounds input candidate =
     (let capital = cs_capital (ca_spec candidate); invalid = Inl (Risk ErrInvalidPortfolioRiskDecision) in
      if ab_candidate input = 0 \<or> ab_candidate input \<noteq> ca_id candidate \<or> money_is_zero_value (ab_maximum_capital input) \<or>
         minor (ab_maximum_capital input) < 0 \<or> money_currency (ab_maximum_capital input) \<noteq> money_currency capital \<or>
         minor (ab_maximum_capital input) > minor capital \<or> ab_valid_until input = 0 \<or> ab_leg_bounds input = [] \<or>
         length (ab_leg_bounds input) > 8 \<or> length (ab_constraints input) > 32
      then invalid
      else if list_ex (\<lambda>leg. AllocationLegBound_Validate leg \<noteq> Inr ()) (ab_leg_bounds input) then invalid
      else if list_ex (\<lambda>c. AllocationConstraint_Validate c \<noteq> Inr ()) (ab_constraints input) then invalid
      else Inr (input\<lparr>ab_leg_bounds := sort_key leg_bound_key (ab_leg_bounds input),
             ab_constraints := sort_key ac_code (ab_constraints input)\<rparr>))"

definition leg_within_candidate :: "allocation_leg_bound \<Rightarrow> allocation_leg_bound \<Rightarrow> bool" where
  "leg_within_candidate approved leg \<longleftrightarrow>
     lb_instrument approved = lb_instrument leg \<and> lb_side approved = lb_side leg \<and> lb_ratio approved = lb_ratio leg \<and>
     lb_resolution approved = lb_resolution leg \<and> lb_lot_size approved = lb_lot_size leg \<and>
     \<not> lb_maximum_units approved > lb_maximum_units leg"

text \<open>The pair of \<open>equal\<close> and \<open>strictlySmaller\<close>.\<close>

definition approvedBoundsWithinCandidate :: "approved_allocation_bounds \<Rightarrow> allocation_candidate \<Rightarrow> bool \<times> bool" where
  "approvedBoundsWithinCandidate bounds candidate =
     (let spec = ca_spec candidate; legs = ab_leg_bounds bounds in
      if length legs \<noteq> length (cs_leg_bounds spec) then (False, False)
      else if \<not> list_all2 leg_within_candidate legs (cs_leg_bounds spec) then (False, False)
      else
        let changed = \<not> list_all2 (\<lambda>a c. lb_maximum_units a = lb_maximum_units c) legs (cs_leg_bounds spec) in
        (minor (ab_maximum_capital bounds) = minor (cs_capital spec) \<and> \<not> changed,
         minor (ab_maximum_capital bounds) < minor (cs_capital spec) \<or> changed))"

definition evaluationSupportsOutcome :: "risk_evaluation \<Rightarrow> decision_outcome \<Rightarrow> bool" where
  "evaluationSupportsOutcome evaluation outcome =
     (let statuses = map rrs_status (rvl_results (rva_spec evaluation));
          modification = (RuleModificationRequired \<in> set statuses); violation = (RuleViolation \<in> set statuses);
          deferred = (rvl_technical (rva_spec evaluation) \<noteq> [] \<or> RuleDefer \<in> set statuses \<or> RuleError \<in> set statuses) in
      if list_ex (\<lambda>s. case s of OtherRuleStatus _ \<Rightarrow> True | _ \<Rightarrow> False) statuses then False
      else case outcome of
        DecisionApproved \<Rightarrow> \<not> modification \<and> \<not> violation \<and> \<not> deferred
      | DecisionModified \<Rightarrow> modification \<and> \<not> violation \<and> \<not> deferred
      | DecisionRejected \<Rightarrow> violation \<and> \<not> deferred
      | DecisionDeferred \<Rightarrow> deferred
      | OtherDecision _ \<Rightarrow> False)"

record decision_spec =
  ds_schema :: string
  ds_proposal :: trade_proposal
  ds_portfolio :: digest
  ds_snapshot :: digest
  ds_expected_revision :: nat
  ds_candidate :: allocation_candidate
  ds_evaluation :: risk_evaluation
  ds_outcome :: decision_outcome
  ds_primary :: string
  ds_secondary :: "string list"
  ds_violations :: "risk_violation list"
  ds_sizing :: sizing_intent
  ds_approved :: "approved_allocation_bounds option"
  ds_configuration :: digest
  ds_configuration_hash :: digest
  ds_policy :: digest
  ds_policy_version :: nat
  ds_risk_hash :: digest
  ds_generated_at :: instant
  ds_expires_at :: instant
  ds_evidence :: digest

record portfolio_risk_decision =
  prd_id :: digest
  prd_checksum :: digest
  prd_spec :: decision_spec
  prd_raw :: string

fun check_decision_reasons :: "string set \<Rightarrow> string list \<Rightarrow> unit result" where
  "check_decision_reasons seen [] = Inr ()"
| "check_decision_reasons seen (r # rs) =
     (if r \<notin> set decision_reasons then Inl (Risk ErrInvalidPortfolioRiskDecision)
      else if r \<in> seen then Inl (Risk ErrInvalidPortfolioRiskDecision)
      else check_decision_reasons (insert r seen) rs)"

definition normalizeDecisionReasons :: "string list \<Rightarrow> string \<Rightarrow> string list result" where
  "normalizeDecisionReasons values primary =
     bind_r (check_decision_reasons {primary} values) (\<lambda>_. Inr (sort values))"

definition approved_json :: "approved_allocation_bounds option \<Rightarrow> json" where
  "approved_json approved =
     (case approved of
        None \<Rightarrow> JNull
      | Some b \<Rightarrow> JObj
          [(''CandidateID'', JStr (digest_string (ab_candidate b))), (''MaximumCapital'', money_json (ab_maximum_capital b)),
           (''LegBounds'', JArr (map leg_json (ab_leg_bounds b))),
           (''Constraints'', JArr (map constraint_json (ab_constraints b))),
           (''ValidUntil'', JStr (rfc3339_nano (ab_valid_until b)))])"

definition canonicalDecision :: "decision_spec \<Rightarrow> string" where
  "canonicalDecision spec = marshal (JObj
     [(''SchemaVersion'', JStr (ds_schema spec)), (''ProposalID'', JStr (digest_string (tp_id (ds_proposal spec)))),
      (''PortfolioID'', JStr (digest_string (ds_portfolio spec))), (''SnapshotID'', JStr (digest_string (ds_snapshot spec))),
      (''CandidateID'', JStr (digest_string (ca_id (ds_candidate spec)))),
      (''EvaluationID'', JStr (digest_string (rvl_id (rva_spec (ds_evaluation spec))))),
      (''Outcome'', JStr (outcome_string (ds_outcome spec))), (''PrimaryReason'', JStr (ds_primary spec)),
      (''SecondaryReasons'', JArr (map JStr (ds_secondary spec))),
      (''Violations'', JArr (map (\<lambda>v. JStr (digest_string (rvi_id v))) (ds_violations spec))),
      (''ExpectedRevision'', JInt (int (ds_expected_revision spec))),
      (''SizingKind'', JStr (sizing_kind_string (si_kind (ds_sizing spec)))),
      (''SizingBPS'', JInt (si_value_bps (ds_sizing spec))), (''Approved'', approved_json (ds_approved spec)),
      (''PortfolioConfigurationID'', JStr (digest_string (ds_configuration spec))),
      (''PortfolioConfigurationHash'', JStr (digest_string (ds_configuration_hash spec))),
      (''RiskPolicyID'', JStr (digest_string (ds_policy spec))),
      (''RiskConfigurationHash'', JStr (digest_string (ds_risk_hash spec))),
      (''EvidenceChecksum'', JStr (digest_string (ds_evidence spec))),
      (''RiskPolicyVersion'', JInt (int (ds_policy_version spec))),
      (''GeneratedAt'', JStr (rfc3339_nano (ds_generated_at spec))),
      (''ExpiresAt'', JStr (rfc3339_nano (ds_expires_at spec)))])"

definition decision_fields_invalid :: "decision_spec \<Rightarrow> bool" where
  "decision_fields_invalid spec \<longleftrightarrow>
     (let candidate = ca_spec (ds_candidate spec); evaluation = rva_spec (ds_evaluation spec) in
      ds_schema spec = [] \<or> proposal_is_zero (ds_proposal spec) \<or> ds_portfolio spec = 0 \<or> ds_snapshot spec = 0 \<or>
      ds_expected_revision spec = 0 \<or> ca_id (ds_candidate spec) = 0 \<or> rvl_id evaluation = 0 \<or>
      ds_primary spec \<notin> set decision_reasons \<or> SizingIntent_Validate (ds_sizing spec) \<noteq> Inr () \<or>
      ds_configuration spec = 0 \<or> ds_configuration_hash spec = 0 \<or> ds_policy spec = 0 \<or> ds_policy_version spec = 0 \<or>
      ds_risk_hash spec = 0 \<or> ds_generated_at spec = 0 \<or> \<not> ds_expires_at spec > ds_generated_at spec \<or>
      ds_evidence spec = 0 \<or> length (ds_secondary spec) > 16 \<or> length (ds_violations spec) > 50 \<or>
      tp_id (cs_proposal candidate) \<noteq> tp_id (ds_proposal spec) \<or> cs_portfolio candidate \<noteq> ds_portfolio spec \<or>
      cs_snapshot candidate \<noteq> ds_snapshot spec \<or> cs_portfolio_revision candidate \<noteq> ds_expected_revision spec \<or>
      rvl_proposal evaluation \<noteq> tp_id (ds_proposal spec) \<or> rvl_candidate evaluation \<noteq> ca_id (ds_candidate spec) \<or>
      rvl_snapshot evaluation \<noteq> ds_snapshot spec \<or> rvl_revision evaluation \<noteq> ds_expected_revision spec \<or>
      rvl_policy evaluation \<noteq> ds_policy spec \<or> rvl_policy_version evaluation \<noteq> ds_policy_version spec \<or>
      rvl_hash evaluation \<noteq> ds_risk_hash spec \<or> ds_sizing spec \<noteq> pd_sizing (tp_draft (ds_proposal spec)) \<or>
      ds_generated_at spec < cs_valid_from candidate \<or> ds_expires_at spec > pd_expires_at (tp_draft (ds_proposal spec)) \<or>
      ds_expires_at spec > cs_expires_at candidate \<or> \<not> evaluationSupportsOutcome (ds_evaluation spec) (ds_outcome spec) \<or>
      rva_checksum (ds_evaluation spec) \<noteq> ds_evidence spec)"

text \<open>The switch on the outcome: the approved bounds that the decision keeps.\<close>

definition outcome_bounds :: "decision_spec \<Rightarrow> approved_allocation_bounds option result" where
  "outcome_bounds spec =
     (let invalid = Inl (Risk ErrInvalidPortfolioRiskDecision) in
      case ds_outcome spec of
        DecisionApproved \<Rightarrow>
          if ds_primary spec \<noteq> ''ALL_RULES_PASSED'' then invalid
          else (case ds_approved spec of
             None \<Rightarrow> invalid
           | Some input \<Rightarrow>
               (case newApprovedBounds input (ds_candidate spec) of
                  Inl _ \<Rightarrow> invalid
                | Inr v \<Rightarrow>
                    if \<not> fst (approvedBoundsWithinCandidate v (ds_candidate spec)) \<or> ab_constraints v \<noteq> [] \<or>
                       ab_valid_until v \<noteq> ds_expires_at spec
                    then invalid else Inr (Some v)))
      | DecisionModified \<Rightarrow>
          if ds_primary spec \<noteq> ''ALLOCATION_MODIFIED'' then invalid
          else (case ds_approved spec of
             None \<Rightarrow> invalid
           | Some input \<Rightarrow>
               (case newApprovedBounds input (ds_candidate spec) of
                  Inl _ \<Rightarrow> invalid
                | Inr v \<Rightarrow>
                    if \<not> snd (approvedBoundsWithinCandidate v (ds_candidate spec)) \<or> ab_constraints v = [] \<or>
                       ab_valid_until v > ds_expires_at spec
                    then invalid else Inr (Some v)))
      | DecisionRejected \<Rightarrow> if ds_approved spec \<noteq> None \<or> ds_violations spec = [] then invalid else Inr None
      | DecisionDeferred \<Rightarrow> if ds_approved spec \<noteq> None then invalid else Inr None
      | OtherDecision _ \<Rightarrow> invalid)"

definition NewPortfolioRiskDecision :: "(string \<Rightarrow> digest) \<Rightarrow> decision_spec \<Rightarrow> portfolio_risk_decision result" where
  "NewPortfolioRiskDecision sha spec0 =
     (let spec = spec0\<lparr>ds_schema := trim_space (ds_schema spec0)\<rparr>; invalid = Inl (Risk ErrInvalidPortfolioRiskDecision) in
      if decision_fields_invalid spec then invalid
      else bind_r (normalizeDecisionReasons (ds_secondary spec) (ds_primary spec)) (\<lambda>secondary.
        if map rvi_id (ds_violations spec) \<noteq> map rvi_id (rvl_violations (rva_spec (ds_evaluation spec))) then invalid
        else bind_r (outcome_bounds spec) (\<lambda>approved.
          let spec = spec\<lparr>ds_secondary := secondary, ds_approved := approved\<rparr>;
              raw = canonicalDecision spec in
          if length raw > 262144 then invalid
          else Inr \<lparr>prd_id = or_zero (NewPortfolioRiskDecisionID sha
                 [digest_string (tp_id (ds_proposal spec)), digest_string (ds_portfolio spec),
                  digest_string (ds_snapshot spec), dec_int (int (ds_expected_revision spec)),
                  digest_string (ca_id (ds_candidate spec)), digest_string (rvl_id (rva_spec (ds_evaluation spec))), raw]),
               prd_checksum = or_zero (NewDecisionChecksum sha raw), prd_spec = spec, prd_raw = raw\<rparr>)))"

text \<open>What execution reads of a decision.\<close>

definition decision_view :: "portfolio_risk_decision \<Rightarrow> risk_decision" where
  "decision_view d = \<lparr>rd_id = prd_id d, rd_checksum = prd_checksum d, rd_portfolio = ds_portfolio (prd_spec d),
     rd_outcome = ds_outcome (prd_spec d), rd_expected_revision = ds_expected_revision (prd_spec d),
     rd_approved = ds_approved (prd_spec d), rd_generated_at = ds_generated_at (prd_spec d),
     rd_expires_at = ds_expires_at (prd_spec d)\<rparr>"

section \<open>What a decision approves\<close>

lemma newApprovedBounds_Inr:
  assumes "newApprovedBounds input candidate = Inr v"
  shows "minor (ab_maximum_capital v) \<le> minor (cs_capital (ca_spec candidate))" "0 \<le> minor (ab_maximum_capital v)"
    "ab_maximum_capital v = ab_maximum_capital input"
    "money_currency (ab_maximum_capital v) = money_currency (cs_capital (ca_spec candidate))"
    "ab_leg_bounds v = sort_key leg_bound_key (ab_leg_bounds input)" "ab_valid_until v = ab_valid_until input"
    "\<forall>leg \<in> set (ab_leg_bounds v). AllocationLegBound_Validate leg = Inr ()"
  using assms by (auto simp: newApprovedBounds_def Let_def list_ex_iff split: if_splits)

lemma within_candidate:
  "fst (approvedBoundsWithinCandidate b c) \<or> snd (approvedBoundsWithinCandidate b c) \<Longrightarrow>
     list_all2 leg_within_candidate (ab_leg_bounds b) (cs_leg_bounds (ca_spec c))"
  by (auto simp: approvedBoundsWithinCandidate_def Let_def split: if_splits)

lemma outcome_bounds_Some:
  assumes "outcome_bounds spec = Inr (Some v)"
  shows "\<exists>input. ds_approved spec = Some input \<and> newApprovedBounds input (ds_candidate spec) = Inr v"
    "list_all2 leg_within_candidate (ab_leg_bounds v) (cs_leg_bounds (ca_spec (ds_candidate spec)))"
    "ds_outcome spec = DecisionApproved \<or> ds_outcome spec = DecisionModified" "ab_valid_until v \<le> ds_expires_at spec"
    "ds_outcome spec = DecisionApproved \<Longrightarrow> fst (approvedBoundsWithinCandidate v (ds_candidate spec))"
  using assms
  by (auto simp: outcome_bounds_def Let_def within_candidate split: decision_outcome.splits if_splits option.splits sum.splits)

lemma outcome_bounds_None:
  "outcome_bounds spec = Inr None \<Longrightarrow> ds_outcome spec = DecisionRejected \<or> ds_outcome spec = DecisionDeferred"
  by (auto simp: outcome_bounds_def Let_def split: decision_outcome.splits if_splits option.splits sum.splits)

lemma NewPortfolioRiskDecision_Inr:
  assumes "NewPortfolioRiskDecision sha spec0 = Inr d"
  obtains spec where "spec = spec0\<lparr>ds_schema := trim_space (ds_schema spec0)\<rparr>" "\<not> decision_fields_invalid spec"
    "outcome_bounds spec = Inr (ds_approved (prd_spec d))" "ds_outcome (prd_spec d) = ds_outcome spec0"
    "ds_candidate (prd_spec d) = ds_candidate spec0" "ds_evaluation (prd_spec d) = ds_evaluation spec0"
    "ds_expires_at (prd_spec d) = ds_expires_at spec0" "ds_violations (prd_spec d) = ds_violations spec0"
    "ds_proposal (prd_spec d) = ds_proposal spec0" "ds_portfolio (prd_spec d) = ds_portfolio spec0"
    "ds_expected_revision (prd_spec d) = ds_expected_revision spec0"
    "ds_snapshot (prd_spec d) = ds_snapshot spec0"
    "prd_raw d = canonicalDecision (prd_spec d)"
  using assms
  by (auto simp: NewPortfolioRiskDecision_def Let_def bind_r_def split: if_splits sum.splits)

end
