(* ===== verification/Risk_Store.thy ===== *)
theory Risk_Store
  imports Risk_Decision Repository
begin

text \<open>
  \<open>internal/risk/storage/runtime.go\<close> and \<open>internal/adapters/riskruntime/memory/store.go\<close>: portfolio checkpoints,
  the atomic publication of a decision, and the in-memory store that publishes them. The store is a revisioned
  repository in the sense of the locale \<open>repository\<close>, as the order store and the position store are.
\<close>

section \<open>Checkpoints and publications\<close>

record portfolio_checkpoint =
  pck_snapshot :: portfolio_snapshot
  pck_snapshot_checksum :: digest
  pck_parent_snapshot :: digest
  pck_parent_checksum :: digest
  pck_trigger :: digest
  pck_proposal :: digest
  pck_decision :: digest
  pck_reservation :: digest
  pck_checksum :: digest
  pck_raw :: string

abbreviation pck_revision :: "portfolio_checkpoint \<Rightarrow> nat" where
  "pck_revision c \<equiv> pss_revision (psn_spec (pck_snapshot c))"

abbreviation pck_portfolio :: "portfolio_checkpoint \<Rightarrow> digest" where
  "pck_portfolio c \<equiv> pss_portfolio (psn_spec (pck_snapshot c))"

definition canonicalCheckpoint :: "portfolio_checkpoint \<Rightarrow> string" where
  "canonicalCheckpoint v = marshal (JObj
     [(''PortfolioID'', JStr (digest_string (pck_portfolio v))), (''SnapshotID'', JStr (digest_string (psn_id (pck_snapshot v)))),
      (''SnapshotChecksum'', JStr (digest_string (pck_snapshot_checksum v))),
      (''ParentSnapshotID'', JStr (digest_string (pck_parent_snapshot v))),
      (''ParentChecksum'', JStr (digest_string (pck_parent_checksum v))), (''TriggerID'', JStr (digest_string (pck_trigger v))),
      (''ProposalID'', JStr (digest_string (pck_proposal v))), (''DecisionID'', JStr (digest_string (pck_decision v))),
      (''ReservationID'', JStr (digest_string (pck_reservation v))), (''Revision'', JInt (int (pck_revision v)))])"

definition NewPortfolioCheckpoint :: "(string \<Rightarrow> digest) \<Rightarrow> portfolio_checkpoint \<Rightarrow> portfolio_checkpoint result" where
  "NewPortfolioCheckpoint sha v =
     (let corrupt = Inl (RiskStorage ErrCorruptPortfolioCheckpoint) in
      if psn_id (pck_snapshot v) = 0 \<or> pck_revision v = 0 then corrupt
      else
        let snapshot_checksum = or_zero (NewStateChecksum_port sha (psn_raw (pck_snapshot v))) in
        if pck_snapshot_checksum v \<noteq> 0 \<and> pck_snapshot_checksum v \<noteq> snapshot_checksum then corrupt
        else
          let v = v\<lparr>pck_snapshot_checksum := snapshot_checksum\<rparr> in
          if (if pck_revision v = 1
              then pck_parent_snapshot v \<noteq> 0 \<or> pck_parent_checksum v \<noteq> 0 \<or> pck_trigger v \<noteq> 0 \<or>
                   pck_proposal v \<noteq> 0 \<or> pck_decision v \<noteq> 0 \<or> pck_reservation v \<noteq> 0
              else pck_parent_snapshot v = 0 \<or> pck_parent_checksum v = 0 \<or> pck_trigger v = 0 \<or>
                   pck_proposal v = 0 \<or> pck_decision v = 0)
          then corrupt
          else
            let raw = canonicalCheckpoint v; checksum = or_zero (NewStateChecksum_port sha raw) in
            if pck_checksum v \<noteq> 0 \<and> pck_checksum v \<noteq> checksum then corrupt
            else Inr (v\<lparr>pck_checksum := checksum, pck_raw := raw\<rparr>))"

record decision_publication =
  dpb_trigger :: digest
  dpb_portfolio :: digest
  dpb_expected_snapshot :: digest
  dpb_expected_revision :: nat
  dpb_expected_checkpoint :: digest
  dpb_candidate :: allocation_candidate
  dpb_evaluation :: risk_evaluation
  dpb_decision :: portfolio_risk_decision
  dpb_reservation :: "capital_reservation option"
  dpb_next :: portfolio_checkpoint
  dpb_checksum :: digest
  dpb_raw :: string

definition publication_fields_invalid :: "decision_publication \<Rightarrow> bool" where
  "publication_fields_invalid v \<longleftrightarrow>
     (let next_spec = psn_spec (pck_snapshot (dpb_next v)); decision = prd_spec (dpb_decision v) in
      dpb_trigger v = 0 \<or> dpb_portfolio v = 0 \<or> dpb_expected_snapshot v = 0 \<or> dpb_expected_revision v = 0 \<or>
      dpb_expected_checkpoint v = 0 \<or> ca_id (dpb_candidate v) = 0 \<or> rvl_id (rva_spec (dpb_evaluation v)) = 0 \<or>
      prd_id (dpb_decision v) = 0 \<or> psn_id (pck_snapshot (dpb_next v)) = 0 \<or>
      pss_portfolio next_spec \<noteq> dpb_portfolio v \<or> pss_revision next_spec \<noteq> wrap_u64 (dpb_expected_revision v + 1) \<or>
      ds_expected_revision decision \<noteq> dpb_expected_revision v \<or> ds_snapshot decision \<noteq> dpb_expected_snapshot v \<or>
      ca_id (ds_candidate decision) \<noteq> ca_id (dpb_candidate v) \<or>
      rvl_id (rva_spec (ds_evaluation decision)) \<noteq> rvl_id (rva_spec (dpb_evaluation v)) \<or>
      pck_trigger (dpb_next v) \<noteq> dpb_trigger v \<or>
      pck_proposal (dpb_next v) \<noteq> tp_id (cs_proposal (ca_spec (dpb_candidate v))) \<or>
      pck_decision (dpb_next v) \<noteq> prd_id (dpb_decision v) \<or>
      pck_parent_snapshot (dpb_next v) \<noteq> dpb_expected_snapshot v \<or>
      pck_parent_checksum (dpb_next v) \<noteq> dpb_expected_checkpoint v)"

definition canonicalPublication_risk :: "decision_publication \<Rightarrow> string" where
  "canonicalPublication_risk v = marshal (JObj
     [(''TriggerID'', JStr (digest_string (dpb_trigger v))), (''PortfolioID'', JStr (digest_string (dpb_portfolio v))),
      (''ExpectedSnapshotID'', JStr (digest_string (dpb_expected_snapshot v))),
      (''ExpectedCheckpoint'', JStr (digest_string (dpb_expected_checkpoint v))),
      (''ExpectedRevision'', JInt (int (dpb_expected_revision v))), (''Candidate'', JRaw (ca_raw (dpb_candidate v))),
      (''Evaluation'', JRaw (rva_raw (dpb_evaluation v))), (''Decision'', JRaw (prd_raw (dpb_decision v))),
      (''Reservation'', JRaw (case dpb_reservation v of None \<Rightarrow> ''null'' | Some r \<Rightarrow> cr_raw r)),
      (''NextCheckpoint'', JRaw (pck_raw (dpb_next v)))])"

definition NewPortfolioDecisionPublication ::
  "(string \<Rightarrow> digest) \<Rightarrow> decision_publication \<Rightarrow> decision_publication result" where
  "NewPortfolioDecisionPublication sha v =
     (let invalid = Inl (RiskStorage ErrInvalidPortfolioPublication) in
      if publication_fields_invalid v then invalid
      else if (case dpb_reservation v of
          None \<Rightarrow> pck_reservation (dpb_next v) \<noteq> 0
        | Some r \<Rightarrow> crs_revision (cr_spec r) \<noteq> wrap_u64 (dpb_expected_revision v + 1) \<or>
            pck_reservation (dpb_next v) \<noteq> crs_id (cr_spec r))
      then invalid
      else
        let raw = canonicalPublication_risk v; checksum = or_zero (NewStateChecksum_port sha raw) in
        if dpb_checksum v \<noteq> 0 \<and> dpb_checksum v \<noteq> checksum then invalid
        else Inr (v\<lparr>dpb_checksum := checksum, dpb_raw := raw\<rparr>))"

datatype runtime_status = RuntimePublicationCommitted | RuntimePublicationIdempotent

record runtime_receipt =
  rtr_status :: runtime_status
  rtr_trigger :: digest
  rtr_decision :: digest
  rtr_snapshot :: digest
  rtr_revision :: nat
  rtr_reservation :: digest
  rtr_checksum :: digest

section \<open>The store\<close>

record risk_limits =
  rl_portfolios :: int
  rl_publications :: int

definition DefaultLimits_risk :: risk_limits where
  "DefaultLimits_risk = \<lparr>rl_portfolios = 16, rl_publications = 10000\<rparr>"

record stored_decision =
  sdp_value :: decision_publication
  sdp_receipt :: runtime_receipt
  sdp_canonical :: string

record risk_store =
  rst_limits :: risk_limits
  rst_current :: "(digest, nat) gomap"
  rst_checkpoints :: "(digest, (nat, portfolio_checkpoint) gomap) gomap"
  rst_publications :: "(digest, stored_decision) gomap"
  rst_decisions :: "(digest, portfolio_risk_decision) gomap"
  rst_candidates :: "(digest, allocation_candidate) gomap"
  rst_evaluations :: "(digest, risk_evaluation) gomap"
  rst_reservations :: "(digest, capital_reservation) gomap"
  rst_fail_before_commit :: bool

definition NewStoreWithLimits_risk :: "risk_limits \<Rightarrow> risk_store" where
  "NewStoreWithLimits_risk limits =
     \<lparr>rst_limits = (if rl_portfolios limits \<le> 0 \<or> rl_publications limits \<le> 0 then DefaultLimits_risk else limits),
      rst_current = [], rst_checkpoints = [], rst_publications = [], rst_decisions = [], rst_candidates = [],
      rst_evaluations = [], rst_reservations = [], rst_fail_before_commit = False\<rparr>"

definition NewStore_risk :: risk_store where
  "NewStore_risk = NewStoreWithLimits_risk DefaultLimits_risk"

definition SetFailBeforeCommitForTest_risk :: "bool \<Rightarrow> risk_store \<Rightarrow> risk_store" where
  "SetFailBeforeCommitForTest_risk value store = store\<lparr>rst_fail_before_commit := value\<rparr>"

text \<open>\<open>store.checkpoints[id][revision]\<close>; None where the code reads a zero checkpoint.\<close>

definition risk_checkpoint :: "risk_store \<Rightarrow> digest \<Rightarrow> nat \<Rightarrow> portfolio_checkpoint option" where
  "risk_checkpoint store pid revision = map_of (get_or [] (rst_checkpoints store) pid) revision"

datatype risk_registration = RegistrationCommitted | RegistrationIdempotent

abbreviation risk_collision :: "string \<Rightarrow> string \<Rightarrow> error" where
  "risk_collision kind identity \<equiv> RiskStorage (IdentityCollisionError_risk kind identity)"

definition install_checkpoint :: "risk_store \<Rightarrow> portfolio_checkpoint \<Rightarrow> risk_store" where
  "install_checkpoint store c =
     store\<lparr>rst_checkpoints := put (pck_portfolio c) [(pck_revision c, c)] (rst_checkpoints store),
           rst_current := put (pck_portfolio c) (pck_revision c) (rst_current store)\<rparr>"

definition InitializePortfolio ::
  "(string \<Rightarrow> digest) \<Rightarrow> ctx \<Rightarrow> portfolio_checkpoint \<Rightarrow> risk_store \<Rightarrow> risk_store \<times> risk_registration result" where
  "InitializePortfolio sha ctx checkpoint store =
     (if fst ctx then (store, Inl ContextDone)
      else case NewPortfolioCheckpoint sha checkpoint of
        Inl _ \<Rightarrow> (store, Inl (RiskStorage ErrCorruptPortfolioCheckpoint))
      | Inr validated \<Rightarrow>
          let portfolio = pck_portfolio validated in
          if pck_revision validated \<noteq> 1 then (store, Inl (RiskStorage ErrCorruptPortfolioCheckpoint))
          else if snd ctx then (store, Inl ContextDone)
          else case map_of (rst_current store) portfolio of
            Some revision \<Rightarrow>
              if (case risk_checkpoint store portfolio revision of
                    None \<Rightarrow> [] | Some existing \<Rightarrow> pck_raw existing) = pck_raw validated
              then (store, Inr RegistrationIdempotent)
              else (store, Inl (risk_collision ''portfolio_genesis'' (digest_string portfolio)))
          | None \<Rightarrow>
              if size_of (rst_current store) \<ge> rl_portfolios (rst_limits store)
              then (store, Inl (RiskStorage ErrCapacityExhausted_risk))
              else (install_checkpoint store validated, Inr RegistrationCommitted))"

definition RestorePortfolioCheckpoint ::
  "(string \<Rightarrow> digest) \<Rightarrow> bool \<Rightarrow> portfolio_checkpoint \<Rightarrow> risk_store \<Rightarrow> risk_store \<times> risk_registration result" where
  "RestorePortfolioCheckpoint sha ctx_done checkpoint store =
     (if ctx_done then (store, Inl ContextDone)
      else case NewPortfolioCheckpoint sha checkpoint of
        Inl _ \<Rightarrow> (store, Inl (RiskStorage ErrCorruptPortfolioCheckpoint))
      | Inr validated \<Rightarrow>
          if has (rst_current store) (pck_portfolio validated)
          then (store, Inl (risk_collision ''portfolio_restore'' (digest_string (pck_portfolio validated))))
          else if size_of (rst_current store) \<ge> rl_portfolios (rst_limits store)
          then (store, Inl (RiskStorage ErrCapacityExhausted_risk))
          else (install_checkpoint store validated, Inr RegistrationCommitted))"

definition CurrentPortfolioCheckpoint :: "bool \<Rightarrow> digest \<Rightarrow> risk_store \<Rightarrow> portfolio_checkpoint option result" where
  "CurrentPortfolioCheckpoint ctx_done pid store =
     (if ctx_done then Inl ContextDone
      else case map_of (rst_current store) pid of
        None \<Rightarrow> Inl (RiskStorage ErrNotFound_risk) | Some revision \<Rightarrow> Inr (risk_checkpoint store pid revision))"

definition PortfolioCheckpoint :: "bool \<Rightarrow> digest \<Rightarrow> nat \<Rightarrow> risk_store \<Rightarrow> portfolio_checkpoint result" where
  "PortfolioCheckpoint ctx_done pid revision store =
     (if ctx_done then Inl ContextDone
      else case risk_checkpoint store pid revision of
        None \<Rightarrow> Inl (RiskStorage ErrNotFound_risk) | Some c \<Rightarrow> Inr c)"

definition CommittedPublication_risk :: "bool \<Rightarrow> digest \<Rightarrow> risk_store \<Rightarrow> runtime_receipt result" where
  "CommittedPublication_risk ctx_done trigger store =
     (if ctx_done then Inl ContextDone
      else case map_of (rst_publications store) trigger of
        None \<Rightarrow> Inl (RiskStorage ErrNotFound_risk) | Some v \<Rightarrow> Inr (sdp_receipt v))"

text \<open>The checks between the replay of a known trigger and the first write.\<close>

definition admit_decision :: "risk_store \<Rightarrow> decision_publication \<Rightarrow> unit result" where
  "admit_decision store v =
     (case map_of (rst_current store) (dpb_portfolio v) of
        None \<Rightarrow> Inl (RiskStorage ErrNotFound_risk)
      | Some actual \<Rightarrow>
          let conflict = Inl (RiskStorage (PortfolioRevisionConflictError (dpb_portfolio v) (dpb_expected_revision v) actual)) in
          (case risk_checkpoint store (dpb_portfolio v) actual of
             None \<Rightarrow> conflict
           | Some current \<Rightarrow>
               if actual \<noteq> dpb_expected_revision v \<or> psn_id (pck_snapshot current) \<noteq> dpb_expected_snapshot v \<or>
                  pck_checksum current \<noteq> dpb_expected_checkpoint v
               then conflict
               else if pck_parent_snapshot (dpb_next v) \<noteq> psn_id (pck_snapshot current) \<or>
                       pck_parent_checksum (dpb_next v) \<noteq> pck_checksum current
               then Inl (RiskStorage ErrCorruptPortfolioCheckpoint)
               else if size_of (rst_publications store) \<ge> rl_publications (rst_limits store)
               then Inl (RiskStorage ErrCapacityExhausted_risk)
               else if rst_fail_before_commit store then Inl (RiskStorage ErrInternal_risk)
               else Inr ()))"

definition decision_receipt :: "decision_publication \<Rightarrow> runtime_receipt" where
  "decision_receipt v = \<lparr>rtr_status = RuntimePublicationCommitted, rtr_trigger = dpb_trigger v,
     rtr_decision = prd_id (dpb_decision v), rtr_snapshot = psn_id (pck_snapshot (dpb_next v)),
     rtr_revision = pck_revision (dpb_next v),
     rtr_reservation = (case dpb_reservation v of None \<Rightarrow> 0 | Some r \<Rightarrow> crs_id (cr_spec r)),
     rtr_checksum = dpb_checksum v\<rparr>"

definition commit_decision :: "risk_store \<Rightarrow> decision_publication \<Rightarrow> risk_store" where
  "commit_decision store v =
     store\<lparr>rst_checkpoints := put (dpb_portfolio v) (put (pck_revision (dpb_next v)) (dpb_next v)
               (get_or [] (rst_checkpoints store) (dpb_portfolio v))) (rst_checkpoints store),
           rst_current := put (dpb_portfolio v) (pck_revision (dpb_next v)) (rst_current store),
           rst_decisions := put (prd_id (dpb_decision v)) (dpb_decision v) (rst_decisions store),
           rst_candidates := put (ca_id (dpb_candidate v)) (dpb_candidate v) (rst_candidates store),
           rst_evaluations := put (rvl_id (rva_spec (dpb_evaluation v))) (dpb_evaluation v) (rst_evaluations store),
           rst_reservations := (case dpb_reservation v of None \<Rightarrow> rst_reservations store
             | Some r \<Rightarrow> put (crs_id (cr_spec r)) r (rst_reservations store)),
           rst_publications := put (dpb_trigger v)
             \<lparr>sdp_value = v, sdp_receipt = decision_receipt v, sdp_canonical = dpb_raw v\<rparr> (rst_publications store)\<rparr>"

definition PublishPortfolioDecision ::
  "(string \<Rightarrow> digest) \<Rightarrow> ctx \<Rightarrow> decision_publication \<Rightarrow> risk_store \<Rightarrow> risk_store \<times> runtime_receipt result" where
  "PublishPortfolioDecision sha ctx publication store =
     (if fst ctx then (store, Inl ContextDone)
      else case NewPortfolioDecisionPublication sha publication of
        Inl e \<Rightarrow> (store, Inl e)
      | Inr validated \<Rightarrow>
          if snd ctx then (store, Inl ContextDone)
          else case map_of (rst_publications store) (dpb_trigger validated) of
            Some existing \<Rightarrow>
              if sdp_canonical existing = dpb_raw validated
              then (store, Inr ((sdp_receipt existing)\<lparr>rtr_status := RuntimePublicationIdempotent\<rparr>))
              else (store, Inl (risk_collision ''decision_trigger'' (digest_string (dpb_trigger validated))))
          | None \<Rightarrow>
              (case admit_decision store validated of
                 Inl e \<Rightarrow> (store, Inl e)
               | Inr _ \<Rightarrow> (commit_decision store validated, Inr (decision_receipt validated))))"

definition stored_value :: "bool \<Rightarrow> (digest, 'v) gomap \<Rightarrow> digest \<Rightarrow> 'v result" where
  "stored_value ctx_done m i =
     (if ctx_done then Inl ContextDone
      else case map_of m i of None \<Rightarrow> Inl (RiskStorage ErrNotFound_risk) | Some v \<Rightarrow> Inr v)"

definition Store_Decision :: "bool \<Rightarrow> digest \<Rightarrow> risk_store \<Rightarrow> portfolio_risk_decision result" where
  "Store_Decision ctx_done i store = stored_value ctx_done (rst_decisions store) i"

definition Store_Candidate :: "bool \<Rightarrow> digest \<Rightarrow> risk_store \<Rightarrow> allocation_candidate result" where
  "Store_Candidate ctx_done i store = stored_value ctx_done (rst_candidates store) i"

definition Store_Evaluation :: "bool \<Rightarrow> digest \<Rightarrow> risk_store \<Rightarrow> risk_evaluation result" where
  "Store_Evaluation ctx_done i store = stored_value ctx_done (rst_evaluations store) i"

definition Store_Reservation :: "bool \<Rightarrow> digest \<Rightarrow> risk_store \<Rightarrow> capital_reservation result" where
  "Store_Reservation ctx_done i store = stored_value ctx_done (rst_reservations store) i"

definition RecentDecisions :: "bool \<Rightarrow> digest \<Rightarrow> int \<Rightarrow> risk_store \<Rightarrow> portfolio_risk_decision list result" where
  "RecentDecisions ctx_done portfolio limit store =
     (if ctx_done then Inl ContextDone
      else if limit \<le> 0 \<or> limit > 100 then Inl (RiskStorage ErrInternal_risk)
      else
        let values = map (\<lambda>(_, p). dpb_decision (sdp_value p))
              (filter (\<lambda>(_, p). dpb_portfolio (sdp_value p) = portfolio) (rst_publications store)) in
        Inr (take (nat limit) (rev (sort_key (\<lambda>d. ds_expected_revision (prd_spec d))
          (rev (sort_key (\<lambda>d. digest_string (prd_id d)) values))))))"

section \<open>The invariant\<close>

text \<open>
  A snapshot can only come from its constructor, and its amounts are \<open>int64\<close> values.
\<close>

definition snapshot_built :: "(string \<Rightarrow> digest) \<Rightarrow> portfolio_snapshot \<Rightarrow> bool" where
  "snapshot_built sha s \<longleftrightarrow> (\<exists>spec. NewPortfolioSnapshot sha spec = Inr s) \<and>
     minor (cap_available (pss_capital (psn_spec s))) \<le> max_i64"

definition decision_built :: "(string \<Rightarrow> digest) \<Rightarrow> decision_publication \<Rightarrow> bool" where
  "decision_built sha p \<longleftrightarrow> snapshot_built sha (pck_snapshot (dpb_next p)) \<and> dpb_expected_revision p \<le> max_u64"

definition risk_head :: "risk_store \<Rightarrow> digest \<Rightarrow> nat" where
  "risk_head st pid = get_or 0 (rst_current st) pid"

definition risk_inv :: "(string \<Rightarrow> digest) \<Rightarrow> risk_store \<Rightarrow> bool" where
  "risk_inv sha st \<longleftrightarrow>
     (\<forall>pid n. map_of (rst_current st) pid = Some n \<longrightarrow> 0 < n \<and> (\<exists>c. risk_checkpoint st pid n = Some c)) \<and>
     (\<forall>pid n c. risk_checkpoint st pid n = Some c \<longrightarrow>
        n \<le> risk_head st pid \<and> pck_portfolio c = pid \<and> pck_revision c = n \<and> snapshot_built sha (pck_snapshot c)) \<and>
     (\<forall>pid n c c'. risk_checkpoint st pid n = Some c \<longrightarrow> risk_checkpoint st pid (Suc n) = Some c' \<longrightarrow>
        pck_parent_checksum c' = pck_checksum c \<and> pck_parent_snapshot c' = psn_id (pck_snapshot c))"

lemma snapshot_built_capital:
  assumes "snapshot_built sha s"
  shows "capital_split (pss_capital (psn_spec s))" "pss_revision (psn_spec s) \<noteq> 0"
proof -
  from assms obtain spec where s: "NewPortfolioSnapshot sha spec = Inr s"
    and le: "minor (cap_available (pss_capital (psn_spec s))) \<le> max_i64" by (auto simp: snapshot_built_def)
  note f = NewPortfolioSnapshot_Inr [OF s]
  from f(4) obtain c where c: "NewCapitalState (cap_total (pss_capital spec)) (cap_available (pss_capital spec))
      (cap_reserved (pss_capital spec)) (cap_deployed (pss_capital spec)) = Inr c" by blast
  have "minor (cap_available (pss_capital spec)) \<le> max_i64" using le f(1) by simp
  with NewCapitalState_Inr(1,2) [OF c] f(1) show "capital_split (pss_capital (psn_spec s))" by (simp add: capital_split_def)
  show "pss_revision (psn_spec s) \<noteq> 0" using f(3,12) by simp
qed

lemma NewPortfolioDecisionPublication_Inr:
  assumes "NewPortfolioDecisionPublication sha p = Inr v"
  shows "v = p\<lparr>dpb_checksum := dpb_checksum v, dpb_raw := dpb_raw v\<rparr>" "\<not> publication_fields_invalid p"
    "dpb_raw v = canonicalPublication_risk p"
  using assms by (auto simp: NewPortfolioDecisionPublication_def Let_def split: if_splits option.splits)

lemma PublishPortfolioDecision_cases:
  assumes "PublishPortfolioDecision sha ctx p st = (st', x)"
  obtains (unchanged) "st' = st" "\<And>r. x = Inr r \<Longrightarrow> rtr_status r = RuntimePublicationIdempotent"
  | (commit) v where "NewPortfolioDecisionPublication sha p = Inr v" "admit_decision st v = Inr ()"
      "map_of (rst_publications st) (dpb_trigger v) = None"
      "st' = commit_decision st v" "x = Inr (decision_receipt v)"
proof -
  note pub = assms [unfolded PublishPortfolioDecision_def]
  show thesis
  proof (cases "fst ctx")
    case True
    with pub show ?thesis by (intro unchanged) auto
  next
    case ready: False
    show ?thesis
    proof (cases "NewPortfolioDecisionPublication sha p")
      case (Inl e)
      with pub ready show ?thesis by (intro unchanged) auto
    next
      case v: (Inr v)
      show ?thesis
      proof (cases "snd ctx \<or> map_of (rst_publications st) (dpb_trigger v) \<noteq> None")
        case True
        with pub ready v show ?thesis by (intro unchanged) (auto split: if_splits)
      next
        case fresh: False
        show ?thesis
        proof (cases "admit_decision st v")
          case (Inl e)
          with pub ready v fresh show ?thesis by (intro unchanged) simp_all
        next
          case (Inr u)
          with pub ready v fresh show ?thesis by (intro commit [of v]) simp_all
        qed
      qed
    qed
  qed
qed

lemma admit_decision_Inr:
  assumes "admit_decision st v = Inr ()"
  obtains c where "map_of (rst_current st) (dpb_portfolio v) = Some (dpb_expected_revision v)"
    "risk_checkpoint st (dpb_portfolio v) (dpb_expected_revision v) = Some c"
    "pck_parent_checksum (dpb_next v) = pck_checksum c" "pck_parent_snapshot (dpb_next v) = psn_id (pck_snapshot c)"
  using assms by (auto simp: admit_decision_def Let_def split: option.splits if_splits)

lemma next_revision:
  assumes "decision_built sha p" "\<not> publication_fields_invalid p"
  shows "pck_revision (dpb_next p) = Suc (dpb_expected_revision p)" "pck_portfolio (dpb_next p) = dpb_portfolio p"
proof -
  have "pck_revision (dpb_next p) \<noteq> 0" using assms(1) snapshot_built_capital(2) by (auto simp: decision_built_def)
  moreover have "pck_revision (dpb_next p) = wrap_u64 (Suc (dpb_expected_revision p))"
    using assms(2) by (simp add: publication_fields_invalid_def Let_def)
  ultimately show "pck_revision (dpb_next p) = Suc (dpb_expected_revision p)"
    using assms(1) by (simp add: decision_built_def wrap_u64_Suc split: if_splits)
  show "pck_portfolio (dpb_next p) = dpb_portfolio p"
    using assms(2) by (simp add: publication_fields_invalid_def Let_def)
qed

lemma checkpoint_commit:
  "risk_checkpoint (commit_decision st v) pid n =
     (if pid = dpb_portfolio v \<and> n = pck_revision (dpb_next v) then Some (dpb_next v) else risk_checkpoint st pid n)"
  by (simp add: risk_checkpoint_def commit_decision_def)

lemma head_commit:
  "risk_head (commit_decision st v) pid = (if pid = dpb_portfolio v then pck_revision (dpb_next v) else risk_head st pid)"
  by (simp add: risk_head_def commit_decision_def)

lemma committed_facts:
  assumes "decision_built sha p" "NewPortfolioDecisionPublication sha p = Inr v" "admit_decision st v = Inr ()"
  obtains c where "risk_head st (dpb_portfolio p) = dpb_expected_revision p"
    "map_of (rst_current st) (dpb_portfolio p) = Some (dpb_expected_revision p)"
    "risk_checkpoint st (dpb_portfolio p) (dpb_expected_revision p) = Some c"
    "pck_parent_checksum (dpb_next p) = pck_checksum c" "pck_parent_snapshot (dpb_next p) = psn_id (pck_snapshot c)"
    "pck_revision (dpb_next p) = Suc (dpb_expected_revision p)" "pck_portfolio (dpb_next p) = dpb_portfolio p"
    "dpb_portfolio v = dpb_portfolio p" "dpb_next v = dpb_next p" "dpb_expected_revision v = dpb_expected_revision p"
proof -
  note v = NewPortfolioDecisionPublication_Inr [OF assms(2)]
  have same: "dpb_portfolio v = dpb_portfolio p" "dpb_next v = dpb_next p" "dpb_expected_revision v = dpb_expected_revision p"
    by (subst v(1), simp)+
  from assms(3) obtain c where c: "map_of (rst_current st) (dpb_portfolio v) = Some (dpb_expected_revision v)"
    "risk_checkpoint st (dpb_portfolio v) (dpb_expected_revision v) = Some c"
    "pck_parent_checksum (dpb_next v) = pck_checksum c" "pck_parent_snapshot (dpb_next v) = psn_id (pck_snapshot c)"
    by (rule admit_decision_Inr)
  then show thesis
    using that [of c] next_revision [OF assms(1) v(2)] same by (simp add: risk_head_def)
qed

lemma commit_decision_inv:
  assumes inv: "risk_inv sha st" and p: "decision_built sha p" "NewPortfolioDecisionPublication sha p = Inr v"
    "admit_decision st v = Inr ()"
  shows "risk_inv sha (commit_decision st v)"
proof -
  from p obtain c where f: "risk_head st (dpb_portfolio p) = dpb_expected_revision p"
    "map_of (rst_current st) (dpb_portfolio p) = Some (dpb_expected_revision p)"
    "risk_checkpoint st (dpb_portfolio p) (dpb_expected_revision p) = Some c"
    "pck_parent_checksum (dpb_next p) = pck_checksum c" "pck_parent_snapshot (dpb_next p) = psn_id (pck_snapshot c)"
    "pck_revision (dpb_next p) = Suc (dpb_expected_revision p)" "pck_portfolio (dpb_next p) = dpb_portfolio p"
    "dpb_portfolio v = dpb_portfolio p" "dpb_next v = dpb_next p" "dpb_expected_revision v = dpb_expected_revision p"
    by (rule committed_facts)
  have cur: "map_of (rst_current (commit_decision st v)) pid =
      (if pid = dpb_portfolio p then Some (Suc (dpb_expected_revision p)) else map_of (rst_current st) pid)" for pid
    using f(6,8,9) by (simp add: commit_decision_def)
  have cp: "risk_checkpoint (commit_decision st v) pid n =
      (if pid = dpb_portfolio p \<and> n = Suc (dpb_expected_revision p) then Some (dpb_next p) else risk_checkpoint st pid n)" for pid n
    using f(6,8,9) by (simp add: checkpoint_commit)
  have hd: "risk_head (commit_decision st v) pid =
      (if pid = dpb_portfolio p then Suc (dpb_expected_revision p) else risk_head st pid)" for pid
    using f(6,8,9) by (simp add: head_commit)
  have i1: "0 < n \<and> (\<exists>c. risk_checkpoint st pid n = Some c)" if "map_of (rst_current st) pid = Some n" for pid n
    using inv that by (auto simp: risk_inv_def)
  have i2: "n \<le> risk_head st pid \<and> pck_portfolio c = pid \<and> pck_revision c = n \<and> snapshot_built sha (pck_snapshot c)"
    if "risk_checkpoint st pid n = Some c" for pid n c
    using inv that by (auto simp: risk_inv_def)
  have i3: "pck_parent_checksum c' = pck_checksum c \<and> pck_parent_snapshot c' = psn_id (pck_snapshot c)"
    if "risk_checkpoint st pid n = Some c" "risk_checkpoint st pid (Suc n) = Some c'" for pid n c c'
    using inv that unfolding risk_inv_def by blast
  have new: "snapshot_built sha (pck_snapshot (dpb_next p))" using p(1) by (simp add: decision_built_def)
  show ?thesis
    unfolding risk_inv_def
  proof (intro conjI allI impI, goal_cases)
    case (1 pid n)
    then show ?case using i1 by (auto simp: cur split: if_splits)
  next
    case (2 pid n)
    then show ?case using i1 by (auto simp: cur cp split: if_splits)
  next
    case (3 pid n c')
    then show ?case using i2 [of pid n c'] f(1) by (auto simp: cp hd split: if_splits)
  next
    case (4 pid n c')
    then show ?case using i2 [of pid n c'] f(7) by (auto simp: cp split: if_splits)
  next
    case (5 pid n c')
    then show ?case using i2 [of pid n c'] f(6) by (auto simp: cp split: if_splits)
  next
    case (6 pid n c')
    then show ?case using i2 [of pid n c'] new by (auto simp: cp split: if_splits)
  next
    case (7 pid n c1 c2)
    then show ?case using i3 [of pid n c1 c2] i2 [of pid "Suc n" c2] i2 [of pid n c1] f(1,3,4) by (auto simp: cp split: if_splits)
  next
    case (8 pid n c1 c2)
    then show ?case using i3 [of pid n c1 c2] i2 [of pid "Suc n" c2] i2 [of pid n c1] f(1,3,5) by (auto simp: cp split: if_splits)
  qed
qed

interpretation risk: repository "risk_inv sha" "decision_built sha \<circ> snd" risk_head risk_checkpoint
  "\<lambda>(ctx, p). PublishPortfolioDecision sha ctx p" "\<lambda>(_, p). dpb_portfolio p" "\<lambda>(_, p). dpb_expected_revision p"
  "\<lambda>r. rtr_status r = RuntimePublicationCommitted" for sha
proof (unfold_locales, goal_cases)
  case (1 s cp s' x)
  then obtain ctx p where cp: "cp = (ctx, p)" and pub: "PublishPortfolioDecision sha ctx p s = (s', x)" by (cases cp) auto
  from pub show ?case
    by (rule PublishPortfolioDecision_cases) (use 1 cp in \<open>auto intro: commit_decision_inv\<close>)
next
  case (2 cp s s' e)
  then obtain ctx p where pub: "PublishPortfolioDecision sha ctx p s = (s', Inl e)" by (cases cp) auto
  then show ?case by (rule PublishPortfolioDecision_cases) auto
next
  case (3 cp s s' r)
  then obtain ctx p where pub: "PublishPortfolioDecision sha ctx p s = (s', Inr r)" by (cases cp) auto
  then show ?case by (rule PublishPortfolioDecision_cases) (use 3 in \<open>auto simp: decision_receipt_def\<close>)
next
  case (4 s cp s' r)
  then obtain ctx p where cp: "cp = (ctx, p)" and pub: "PublishPortfolioDecision sha ctx p s = (s', Inr r)"
    and built: "decision_built sha p" by (cases cp) auto
  from pub show ?case
  proof (cases rule: PublishPortfolioDecision_cases)
    case unchanged
    with 4 show ?thesis by simp
  next
    case (commit v)
    from committed_facts [OF built commit(1,2)] show ?thesis
      by (rule committed_facts [OF built commit(1,2)]) (simp add: cp commit(4) head_commit)
  qed
next
  case (5 s cp s' x k)
  then obtain ctx p where cp: "cp = (ctx, p)" and pub: "PublishPortfolioDecision sha ctx p s = (s', x)"
    and built: "decision_built sha p" by (cases cp) auto
  from pub show ?case
  proof (cases rule: PublishPortfolioDecision_cases)
    case (commit v)
    show ?thesis
      by (rule committed_facts [OF built commit(1,2)]) (use 5 cp commit(4) in \<open>simp add: head_commit\<close>)
  qed simp
next
  case (6 s cp s' x k n c)
  then obtain ctx p where cp: "cp = (ctx, p)" and pub: "PublishPortfolioDecision sha ctx p s = (s', x)"
    and built: "decision_built sha p" by (cases cp) auto
  from pub show ?case
  proof (cases rule: PublishPortfolioDecision_cases)
    case (commit v)
    have le: "n \<le> risk_head s k" using 6(1,4) unfolding risk_inv_def by blast
    show ?thesis
      by (rule committed_facts [OF built commit(1,2)]) (use 6(4) le commit(4) in \<open>auto simp: checkpoint_commit\<close>)
  qed (use 6 in simp)
qed

lemma install_inv:
  assumes "risk_inv sha st" "NewPortfolioCheckpoint sha v = Inr c" "snapshot_built sha (pck_snapshot v)"
    "map_of (rst_current st) (pck_portfolio c) = None"
  shows "risk_inv sha (install_checkpoint st c)"
proof -
  have c: "pck_snapshot c = pck_snapshot v" "pck_revision c \<noteq> 0"
    using assms(2) by (auto simp: NewPortfolioCheckpoint_def Let_def split: if_splits)
  have cp: "risk_checkpoint (install_checkpoint st c) pid n =
      (if pid = pck_portfolio c then if n = pck_revision c then Some c else None else risk_checkpoint st pid n)" for pid n
    by (auto simp: risk_checkpoint_def install_checkpoint_def)
  have hd: "risk_head (install_checkpoint st c) pid = (if pid = pck_portfolio c then pck_revision c else risk_head st pid)" for pid
    by (simp add: risk_head_def install_checkpoint_def)
  have cur: "map_of (rst_current (install_checkpoint st c)) pid =
      (if pid = pck_portfolio c then Some (pck_revision c) else map_of (rst_current st) pid)" for pid
    by (simp add: install_checkpoint_def)
  from assms(1) show ?thesis
    unfolding risk_inv_def cp hd cur
    using c assms(3) by (auto split: if_splits)
qed

lemma InitializePortfolio_inv:
  assumes "risk_inv sha st" "snapshot_built sha (pck_snapshot c)" "InitializePortfolio sha ctx c st = (st', x)"
  shows "risk_inv sha st'"
  using assms install_inv [OF assms(1) _ assms(2)]
  by (auto simp: InitializePortfolio_def Let_def split: if_splits sum.splits option.splits)

lemma RestorePortfolioCheckpoint_inv:
  assumes "risk_inv sha st" "snapshot_built sha (pck_snapshot c)" "RestorePortfolioCheckpoint sha done c st = (st', x)"
  shows "risk_inv sha st'"
  using assms install_inv [OF assms(1) _ assms(2)]
  by (auto simp: RestorePortfolioCheckpoint_def has_def Let_def split: if_splits sum.splits)

lemma NewStore_inv: "risk_inv sha (NewStoreWithLimits_risk limits)"
  by (simp add: risk_inv_def NewStoreWithLimits_risk_def risk_checkpoint_def get_or_def)

end
