(* ===== verification/Risk_Rules.thy ===== *)
theory Risk_Rules
  imports Risk_Evidence
begin

text \<open>
  \<open>internal/risk/rules\<close>: the registry of rules and the ten rules of the production catalog. A rule is a function
  of its input; a division by zero in it is the error \<open>Panic\<close>. The lemmas say what a passing rule has checked, and
  that an adjustment only shrinks what was asked.
\<close>

section \<open>The catalog and the registry\<close>

definition newProductionRule :: "string \<Rightarrow> string \<Rightarrow> rule_descriptor" where
  "newProductionRule i name = \<lparr>rrd_id = i, rrd_version = 1, rrd_name = name,
     rrd_description = ''Pure deterministic Phase 3 production-style risk control'', rrd_schema = ''risk-rule/v1''\<rparr>"

definition ProductionCatalog :: "rule_descriptor list" where
  "ProductionCatalog =
     [newProductionRule ''PORTFOLIO_CAPITAL_LIMIT'' ''Portfolio capital limit'',
      newProductionRule ''STRATEGY_ALLOCATION_LIMIT'' ''Strategy allocation limit'',
      newProductionRule ''DAILY_LOSS_LIMIT'' ''Daily loss limit'',
      newProductionRule ''DRAWDOWN_LIMIT'' ''Drawdown limit'',
      newProductionRule ''INSTRUMENT_EXPOSURE_LIMIT'' ''Instrument exposure limit'',
      newProductionRule ''UNDERLYING_EXPOSURE_LIMIT'' ''Underlying exposure limit'',
      newProductionRule ''MAXIMUM_OPEN_EXPOSURE'' ''Maximum open exposure'',
      newProductionRule ''RESERVE_CAPITAL'' ''Reserve capital'',
      newProductionRule ''KILL_SWITCH'' ''Kill switch'',
      newProductionRule ''CIRCUIT_BREAKER'' ''Circuit breaker'']"

text \<open>The entries of a registry; two production rules are equal when their descriptors are.\<close>

type_synonym registry = "string \<rightharpoonup> rule_descriptor"

definition Register :: "rule_descriptor \<Rightarrow> registry \<Rightarrow> registry result" where
  "Register d entries =
     (if RiskRuleDescriptor_Validate d \<noteq> Inr () then Inl (Risk ErrRuleNotRegistered)
      else case entries (rrd_id d) of
        Some existing \<Rightarrow> if existing = d then Inr entries else Inl (Risk ErrRuleNotRegistered)
      | None \<Rightarrow> Inr (entries(rrd_id d \<mapsto> d)))"

fun register_all :: "rule_descriptor list \<Rightarrow> registry \<Rightarrow> registry result" where
  "register_all [] entries = Inr entries"
| "register_all (d # ds) entries = bind_r (Register d entries) (register_all ds)"

definition RegisterProduction :: "registry \<Rightarrow> registry result" where
  "RegisterProduction = register_all ProductionCatalog"

definition Resolve :: "registry \<Rightarrow> rule_configuration \<Rightarrow> rule_descriptor result" where
  "Resolve entries configuration =
     (case entries (rrd_id (rrc_descriptor configuration)) of
        None \<Rightarrow> Inl (Risk ErrRuleNotRegistered)
      | Some d \<Rightarrow> if d \<noteq> rrc_descriptor configuration then Inl (Risk ErrRuleNotRegistered) else Inr d)"

definition ValidateProductionPolicy :: "risk_policy \<Rightarrow> unit result" where
  "ValidateProductionPolicy policy =
     (if length (rpo_rules policy) \<noteq> length ProductionCatalog then Inl (Risk ErrInvalidProductionPolicy)
      else if list_all2 (\<lambda>(n, d) r. rrc_order r = n \<and> rrc_descriptor r = d)
                (zip [1..<Suc (length ProductionCatalog)] ProductionCatalog) (rpo_rules policy)
      then Inr () else Inl (Risk ErrInvalidProductionPolicy))"

section \<open>The configuration of a production rule\<close>

record production_config =
  pc_limit_minor :: "int option"
  pc_loss_limit_minor :: "int option"
  pc_limit_bps :: "int option"
  pc_threshold :: "int option"
  pc_reset_threshold :: "int option"
  pc_currency :: string
  pc_exposure_group :: string

definition empty_config :: production_config where
  "empty_config = \<lparr>pc_limit_minor = None, pc_loss_limit_minor = None, pc_limit_bps = None, pc_threshold = None,
     pc_reset_threshold = None, pc_currency = [], pc_exposure_group = []\<rparr>"

text \<open>
  \<open>encoding/json\<close> matches a key with a field name up to case; two non-ASCII runes fold to ASCII letters, the long
  s (U+017F) and the Kelvin sign (U+212A).
\<close>

fun fold_name :: "string \<Rightarrow> string" where
  "fold_name [] = []"
| "fold_name (c # s) =
     (if prefix [CHR 0xC5, CHR 0xBF] (c # s) then CHR ''S'' # fold_name (drop 1 s)
      else if prefix [CHR 0xE2, CHR 0x84, CHR 0xAA] (c # s) then CHR ''K'' # fold_name (drop 2 s)
      else (if CHR ''a'' \<le> c \<and> c \<le> CHR ''z'' then char_of (of_char c - 32 :: nat) else c) # fold_name s)"

definition number_of :: "string \<Rightarrow> int" where
  "number_of t =
     (let value = foldl (\<lambda>n c. 10 * n + (of_char c - 48)) (0 :: int) in
      if prefix ''-'' t then - value (tl t) else value t)"

text \<open>A number field: null clears it, a number out of range or a value of another type is an error.\<close>

definition number_field :: "int \<Rightarrow> int \<Rightarrow> jtree \<Rightarrow> int option option" where
  "number_field lo hi v =
     (case v of
        TNull \<Rightarrow> Some None
      | TNumber t \<Rightarrow> if lo \<le> number_of t \<and> number_of t \<le> hi then Some (Some (number_of t)) else None
      | _ \<Rightarrow> None)"

definition set_number ::
  "(int option \<Rightarrow> production_config) \<Rightarrow> production_config \<times> bool \<Rightarrow> int option option \<Rightarrow> production_config \<times> bool" where
  "set_number upd acc v = (case v of None \<Rightarrow> (fst acc, False) | Some n \<Rightarrow> (upd n, snd acc))"

text \<open>A member of the object: unknown names are skipped; an error is remembered and the rest is still decoded.\<close>

definition config_member :: "production_config \<times> bool \<Rightarrow> string \<times> jtree \<Rightarrow> production_config \<times> bool" where
  "config_member acc member =
     (let (name, v) = member; name = fold_name name; config = fst acc;
          string_field = (\<lambda>upd. case v of TString s \<Rightarrow> (upd s, snd acc) | TNull \<Rightarrow> acc | _ \<Rightarrow> (config, False));
          i64 = number_field min_i64 max_i64 v; i32 = number_field (-2147483648) 2147483647 v;
          u64 = number_field 0 (int max_u64) v in
      if name = ''LIMIT_MINOR'' then set_number (\<lambda>n. config\<lparr>pc_limit_minor := n\<rparr>) acc i64
      else if name = ''LOSS_LIMIT_MINOR'' then set_number (\<lambda>n. config\<lparr>pc_loss_limit_minor := n\<rparr>) acc i64
      else if name = ''LIMIT_BPS'' then set_number (\<lambda>n. config\<lparr>pc_limit_bps := n\<rparr>) acc i32
      else if name = ''THRESHOLD'' then set_number (\<lambda>n. config\<lparr>pc_threshold := n\<rparr>) acc u64
      else if name = ''RESET_THRESHOLD'' then set_number (\<lambda>n. config\<lparr>pc_reset_threshold := n\<rparr>) acc u64
      else if name = ''CURRENCY'' then string_field (\<lambda>s. config\<lparr>pc_currency := s\<rparr>)
      else if name = ''EXPOSURE_GROUP'' then string_field (\<lambda>s. config\<lparr>pc_exposure_group := s\<rparr>)
      else acc)"

text \<open>\<open>json.Unmarshal\<close> of the canonical bytes of a validated configuration, which are one object of integers.\<close>

definition unmarshal_config :: "string \<Rightarrow> production_config option" where
  "unmarshal_config raw =
     (case decodeObject \<lparr>cl_bytes = int (length raw), cl_depth = 0, cl_collection = 0\<rparr> raw of
        Inr (TObject ms) \<Rightarrow>
          (case foldl config_member (empty_config, True) ms of (config, ok) \<Rightarrow> if ok then Some config else None)
      | _ \<Rightarrow> None)"

section \<open>Results and evidence of a rule\<close>

definition zero_rule_result :: rule_result where
  "zero_rule_result = \<lparr>rrs_rule = [], rrs_version = 0, rrs_hash = 0, rrs_status = OtherRuleStatus [], rrs_reason = [],
     rrs_severity = OtherSeverity [], rrs_effect = OtherEffect [], rrs_evidence = [], rrs_adjustment = None, rrs_at = 0\<rparr>"

definition rule_result_of ::
  "rule_descriptor \<Rightarrow> rule_input \<Rightarrow> rule_result_status \<Rightarrow> string \<Rightarrow> rule_effect \<Rightarrow> risk_evidence list \<Rightarrow>
     rule_adjustment option \<Rightarrow> rule_result" where
  "rule_result_of rule input status reason effect evidence adjustment =
     (let spec = \<lparr>rrs_rule = rrd_id rule, rrs_version = rrd_version rule,
            rrs_hash = rrc_hash (rri_configuration input), rrs_status = status, rrs_reason = reason,
            rrs_severity = rrc_severity (rri_configuration input), rrs_effect = effect, rrs_evidence = evidence,
            rrs_adjustment = adjustment, rrs_at = rri_at input\<rparr> in
      case NewRuleResult spec of
        Inr r \<Rightarrow> r
      | Inl _ \<Rightarrow>
          (case NewRuleResult (spec\<lparr>rrs_status := RuleError, rrs_reason := ''RULE_RESULT_INVALID'',
                 rrs_effect := EffectDefer, rrs_evidence := [], rrs_adjustment := None\<rparr>) of
             Inr r \<Rightarrow> r | Inl _ \<Rightarrow> zero_rule_result))"

definition failClosed :: "rule_descriptor \<Rightarrow> rule_input \<Rightarrow> string \<Rightarrow> rule_result" where
  "failClosed rule input reason = rule_result_of rule input RuleDefer reason EffectDefer [] None"

definition violationEffect :: "rule_configuration \<Rightarrow> rule_effect" where
  "violationEffect configuration =
     (if rrc_effect configuration \<in> {EffectReject, EffectTripCircuitBreaker, EffectActivateKillSwitch}
      then rrc_effect configuration else EffectReject)"

definition money_of :: "int \<Rightarrow> string \<Rightarrow> money" where
  "money_of v currency = (case NewMoney v currency of Inl _ \<Rightarrow> zero_money | Inr m \<Rightarrow> m)"

definition plain_value :: "evidence_kind \<Rightarrow> evidence_value" where
  "plain_value kind = \<lparr>ev_kind = kind, ev_availability = AvailabilityKnown, ev_money = zero_money, ev_integer = 0,
     ev_numerator = 0, ev_denominator = 0, ev_text = [], ev_timestamp = 0\<rparr>"

definition knownMoney :: "money \<Rightarrow> evidence_value" where
  "knownMoney m = (plain_value EvidenceMoney)\<lparr>ev_money := m\<rparr>"

definition input_snapshot :: "rule_input \<Rightarrow> snapshot_spec" where
  "input_snapshot input = psn_spec (rri_snapshot input)"

definition input_candidate :: "rule_input \<Rightarrow> candidate_spec" where
  "input_candidate input = ca_spec (rri_candidate input)"

definition portfolio_subject :: "rule_input \<Rightarrow> string" where
  "portfolio_subject input = digest_string (pss_portfolio (input_snapshot input))"

definition moneyEvidence ::
  "rule_input \<Rightarrow> string \<Rightarrow> evidence_subject \<Rightarrow> string \<Rightarrow> money \<Rightarrow> money \<Rightarrow> money \<Rightarrow> risk_evidence list" where
  "moneyEvidence input code subject_type subject observed projected limit =
     (case NewMoney (wrap64 (minor limit - minor projected)) (money_currency limit) of
        Inl _ \<Rightarrow> []
      | Inr remaining \<Rightarrow>
          (case NewRiskEvidence
             \<lparr>res_code = code, res_observed = knownMoney observed, res_limit = knownMoney limit,
              res_projected = knownMoney projected, res_headroom = knownMoney remaining, res_unit = ''MINOR_UNITS'',
              res_comparison = CompareLessOrEqual, res_subject_type = subject_type, res_subject = subject,
              res_snapshot = psn_id (rri_snapshot input), res_proposal = tp_id (rri_proposal input),
              res_formula = ''phase-3-m3/v1'', res_at = rri_at input,
              res_explanation = ''deterministic checked integer comparison against configured risk limit''\<rparr> of
             Inl _ \<Rightarrow> [] | Inr e \<Rightarrow> [e]))"

definition basis_points :: "int \<Rightarrow> evidence_value" where
  "basis_points n = (plain_value EvidenceBasisPoints)\<lparr>ev_integer := n\<rparr>"

definition bpsEvidence :: "rule_input \<Rightarrow> string \<Rightarrow> int \<Rightarrow> int \<Rightarrow> risk_evidence result" where
  "bpsEvidence input code observed limit = NewRiskEvidence
     \<lparr>res_code = code, res_observed = basis_points observed, res_limit = basis_points limit,
      res_projected = basis_points observed, res_headroom = basis_points (max 0 (wrap64 (limit - observed))),
      res_unit = ''BASIS_POINTS'', res_comparison = CompareLessOrEqual, res_subject_type = SubjectPortfolio,
      res_subject = portfolio_subject input, res_snapshot = psn_id (rri_snapshot input),
      res_proposal = tp_id (rri_proposal input), res_formula = ''phase-3-m3/v1'', res_at = rri_at input,
      res_explanation = ''deterministic integer basis-point drawdown comparison''\<rparr>"

definition known_state :: "string \<Rightarrow> evidence_value" where
  "known_state t = (plain_value EvidenceState)\<lparr>ev_text := t\<rparr>"

definition stateEvidence :: "rule_input \<Rightarrow> string \<Rightarrow> string \<Rightarrow> string \<Rightarrow> string \<Rightarrow> risk_evidence result" where
  "stateEvidence input code state scope subject = NewRiskEvidence
     \<lparr>res_code = code, res_observed = known_state state, res_limit = known_state ''NON_BLOCKING'',
      res_projected = known_state state, res_headroom = known_state ''NOT_APPLICABLE'', res_unit = ''CONTROL_STATE'',
      res_comparison = CompareEqual, res_subject_type = SubjectPortfolio, res_subject = scope @ '':'' @ subject,
      res_snapshot = psn_id (rri_snapshot input), res_proposal = tp_id (rri_proposal input),
      res_formula = ''phase-3-m3/v1'', res_at = rri_at input,
      res_explanation = ''immutable portfolio control state enforced fail closed''\<rparr>"

section \<open>Reducing a candidate\<close>

fun scale_legs :: "int \<Rightarrow> int \<Rightarrow> allocation_leg_bound list \<Rightarrow> (allocation_leg_bound list \<times> bool) option result" where
  "scale_legs maximum capital [] = Inr (Some ([], False))"
| "scale_legs maximum capital (leg # legs) =
     (if lb_resolution leg \<noteq> QuantityResolved then Inr None
      else
        let scaled = quo (wrap64 (lb_maximum_units leg * maximum)) capital in
        if lb_lot_size leg = 0 then Inl Panic
        else
          let scaled = wrap64 (scaled - rem64 scaled (lb_lot_size leg)) in
          if scaled \<le> 0 then Inr None
          else bind_r (scale_legs maximum capital legs) (\<lambda>rest.
            case rest of
              None \<Rightarrow> Inr None
            | Some (legs, strict) \<Rightarrow>
                Inr (Some (leg\<lparr>lb_maximum_units := (case NewQuantity scaled of Inl _ \<Rightarrow> 0 | Inr q \<Rightarrow> q)\<rparr> # legs,
                  strict \<or> scaled < lb_maximum_units leg))))"

definition modification :: "rule_input \<Rightarrow> int \<Rightarrow> string \<Rightarrow> rule_adjustment option result" where
  "modification input maximum reason =
     (let candidate = input_candidate input; capital = cs_capital candidate in
      if maximum \<le> 0 \<or> minor capital \<le> 0 then Inr None
      else
        let maximum_money = money_of maximum (money_currency capital) in
        bind_r (scale_legs maximum (minor capital) (cs_leg_bounds candidate)) (\<lambda>scaled.
          case scaled of
            None \<Rightarrow> Inr None
          | Some (legs, strict) \<Rightarrow>
              if \<not> strict then Inr None
              else Inr (Some \<lparr>rja_capital = maximum_money, rja_legs = legs,
                rja_constraints = [\<lparr>ac_code = reason, ac_before = capital, ac_after = maximum_money,
                  ac_explanation = ''risk rule reduced candidate to deterministic safe headroom''\<rparr>],
                rja_until = cs_expires_at candidate\<rparr>)))"

definition reduce_or_violate ::
  "rule_descriptor \<Rightarrow> rule_input \<Rightarrow> int \<Rightarrow> string \<Rightarrow> string \<Rightarrow> string \<Rightarrow> risk_evidence list \<Rightarrow> rule_result result" where
  "reduce_or_violate rule input headroom reason reduced violated evidence =
     (let violation = rule_result_of rule input RuleViolation violated
            (violationEffect (rri_configuration input)) evidence None in
      if headroom > 0 \<and> headroom < minor (cs_capital (input_candidate input))
      then bind_r (modification input headroom reason) (\<lambda>adjustment.
        case adjustment of
          Some a \<Rightarrow> Inr (rule_result_of rule input RuleModificationRequired reduced EffectModify evidence (Some a))
        | None \<Rightarrow> Inr violation)
      else Inr violation)"

definition boundedMoney ::
  "rule_descriptor \<Rightarrow> rule_input \<Rightarrow> string \<Rightarrow> evidence_subject \<Rightarrow> string \<Rightarrow> money \<Rightarrow> money \<Rightarrow> money \<Rightarrow> string \<Rightarrow>
     rule_result result" where
  "boundedMoney rule input code subject_type subject observed projected limit reason =
     (let evidence = moneyEvidence input code subject_type subject observed projected limit in
      if minor projected \<le> minor limit
      then Inr (rule_result_of rule input RulePass (code @ ''_WITHIN_LIMIT'') EffectNone evidence None)
      else reduce_or_violate rule input (wrap64 (minor limit - minor observed)) reason (code @ ''_REDUCTION_REQUIRED'')
        (code @ ''_LIMIT_EXCEEDED'') evidence)"

section \<open>The rules\<close>

definition configuredMoney :: "production_config \<Rightarrow> currency \<Rightarrow> bool \<Rightarrow> money option" where
  "configuredMoney config currency loss =
     (case (if loss then pc_loss_limit_minor config else pc_limit_minor config) of
        None \<Rightarrow> None
      | Some v \<Rightarrow>
          if v < 0 \<or> (loss \<and> v = 0) \<or> pc_currency config \<noteq> currency then None
          else (case NewMoney v currency of Inl _ \<Rightarrow> None | Inr m \<Rightarrow> Some m))"

text \<open>What is used and what would be with the candidate; a refused addition fails the rule closed.\<close>

definition with_used ::
  "rule_descriptor \<Rightarrow> rule_input \<Rightarrow> string \<Rightarrow> money \<Rightarrow> money \<Rightarrow> (money \<Rightarrow> money \<Rightarrow> rule_result result) \<Rightarrow> rule_result result" where
  "with_used rule input overflow deployed reserved f =
     (case CheckedMoneyAdd deployed reserved of
        Inl _ \<Rightarrow> Inr (failClosed rule input overflow)
      | Inr used \<Rightarrow>
          (case CheckedMoneyAdd used (cs_capital (input_candidate input)) of
             Inl _ \<Rightarrow> Inr (failClosed rule input overflow)
           | Inr projected \<Rightarrow> f used projected))"

definition portfolioCapital :: "rule_descriptor \<Rightarrow> rule_input \<Rightarrow> production_config \<Rightarrow> rule_result result" where
  "portfolioCapital rule input config =
     (case configuredMoney config (pss_base_currency (input_snapshot input)) False of
        None \<Rightarrow> Inr (failClosed rule input ''CAPITAL_LIMIT_UNAVAILABLE'')
      | Some limit \<Rightarrow>
          with_used rule input ''CAPITAL_ARITHMETIC_OVERFLOW'' (cap_deployed (pss_capital (input_snapshot input)))
            (cap_reserved (pss_capital (input_snapshot input))) (\<lambda>used projected.
              boundedMoney rule input ''PORTFOLIO_CAPITAL'' SubjectPortfolio (portfolio_subject input) used projected limit
                ''PORTFOLIO_ALLOCATION_EXHAUSTED''))"

definition strategyAllocation :: "rule_descriptor \<Rightarrow> rule_input \<Rightarrow> production_config \<Rightarrow> rule_result result" where
  "strategyAllocation rule input config =
     (let allocation = rri_allocation input; limit = sa_limit allocation;
          bounded = (\<lambda>limit. with_used rule input ''STRATEGY_ARITHMETIC_OVERFLOW'' (sa_deployed allocation)
            (sa_reserved allocation) (\<lambda>used projected.
              boundedMoney rule input ''STRATEGY_ALLOCATION'' SubjectStrategy (digest_string (sa_id allocation))
                used projected limit ''STRATEGY_ALLOCATION_EXHAUSTED'')) in
      if pc_limit_minor config = None then bounded limit
      else case configuredMoney config (money_currency limit) False of
        None \<Rightarrow> Inr (failClosed rule input ''STRATEGY_LIMIT_UNAVAILABLE'')
      | Some configured \<Rightarrow> bounded (if minor configured < minor limit then configured else limit))"

definition dailyLoss :: "rule_descriptor \<Rightarrow> rule_input \<Rightarrow> production_config \<Rightarrow> rule_result" where
  "dailyLoss rule input config =
     (let snapshot = input_snapshot input in
      case configuredMoney config (pss_base_currency snapshot) True of
        None \<Rightarrow> failClosed rule input ''DAILY_LOSS_LIMIT_UNAVAILABLE''
      | Some limit \<Rightarrow>
          (case CheckedMoneyAdd (pss_daily_realized snapshot) (pss_daily_unrealized snapshot) of
             Inl _ \<Rightarrow> failClosed rule input ''DAILY_LOSS_ARITHMETIC_OVERFLOW''
           | Inr pnl \<Rightarrow>
               if minor pnl = min_i64 then failClosed rule input ''DAILY_LOSS_ARITHMETIC_OVERFLOW''
               else
                 let loss = money_of (if minor pnl < 0 then - minor pnl else 0) (pss_base_currency snapshot);
                     evidence = moneyEvidence input ''DAILY_LOSS'' SubjectPortfolio (portfolio_subject input) loss loss limit in
                 if minor loss \<ge> minor limit
                 then rule_result_of rule input RuleViolation ''DAILY_LOSS_LIMIT_REACHED''
                        (violationEffect (rri_configuration input)) evidence None
                 else rule_result_of rule input RulePass ''DAILY_LOSS_WITHIN_LIMIT'' EffectNone evidence None))"

definition drawdown_rule :: "rule_descriptor \<Rightarrow> rule_input \<Rightarrow> production_config \<Rightarrow> rule_result" where
  "drawdown_rule rule input config =
     (let dd = Snapshot_Drawdown (rri_snapshot input); snapshot = input_snapshot input;
          finish = (\<lambda>evidence violation.
            if evidence = [] then failClosed rule input ''DRAWDOWN_LIMIT_UNAVAILABLE''
            else if violation then rule_result_of rule input RuleViolation ''DRAWDOWN_LIMIT_REACHED''
                   (violationEffect (rri_configuration input)) evidence None
            else rule_result_of rule input RulePass ''DRAWDOWN_WITHIN_LIMIT'' EffectNone evidence None);
          by_bps = (\<lambda>evidence violation.
            case pc_limit_bps config of
              None \<Rightarrow> finish evidence violation
            | Some bps \<Rightarrow>
                (case bpsEvidence input ''DRAWDOWN_BPS'' (dd_bps dd) bps of
                   Inl _ \<Rightarrow> failClosed rule input ''DRAWDOWN_EVIDENCE_INVALID''
                 | Inr item \<Rightarrow> finish (evidence @ [item]) (violation \<or> dd_bps dd \<ge> bps))) in
      if pc_loss_limit_minor config = None then by_bps [] False
      else case configuredMoney config (pss_base_currency snapshot) True of
        None \<Rightarrow> failClosed rule input ''DRAWDOWN_LIMIT_UNAVAILABLE''
      | Some limit \<Rightarrow>
          by_bps (moneyEvidence input ''DRAWDOWN_AMOUNT'' SubjectPortfolio (portfolio_subject input)
              (dd_amount dd) (dd_amount dd) limit) (minor (dd_amount dd) \<ge> minor limit))"

text \<open>The loop over the exposures of the dimension: the largest gross, or none when one is not known.\<close>

fun worst_exposure :: "currency \<Rightarrow> money \<times> string \<Rightarrow> exposure_record list \<Rightarrow> (money \<times> string) option" where
  "worst_exposure currency worst [] = Some worst"
| "worst_exposure currency worst (e # es) =
     (case known_value (ex_gross e) of
        None \<Rightarrow> None
      | Some gross \<Rightarrow>
          if money_currency gross \<noteq> currency then None
          else worst_exposure currency
            (if money_is_zero_value (fst worst) \<or> minor gross > minor (fst worst) then (gross, ex_subject e) else worst) es)"

definition trim_suffix :: "string \<Rightarrow> string \<Rightarrow> string" where
  "trim_suffix s suf = (if suffix suf s then take (length s - length suf) s else s)"

definition exposure_rule ::
  "rule_descriptor \<Rightarrow> rule_input \<Rightarrow> production_config \<Rightarrow> exposure_dimension \<Rightarrow> rule_result result" where
  "exposure_rule rule input config dimension =
     (case configuredMoney config (pss_base_currency (input_snapshot input)) False of
        None \<Rightarrow> Inr (failClosed rule input ''EXPOSURE_LIMIT_UNAVAILABLE'')
      | Some limit \<Rightarrow>
          let matching = filter (\<lambda>e. ex_dimension e = dimension) (cs_projected (input_candidate input)) in
          if matching = [] then Inr (failClosed rule input ''PROJECTED_EXPOSURE_MISSING'')
          else (case worst_exposure (money_currency limit) (zero_money, []) (sort_key ex_subject matching) of
             None \<Rightarrow> Inr (failClosed rule input ''PROJECTED_EXPOSURE_UNKNOWN'')
           | Some (worst, subject) \<Rightarrow>
               let (subject_type, reason) =
                     (if dimension = ExposureUnderlying then (SubjectUnderlying, ''UNDERLYING_LIMIT_EXCEEDED'')
                      else if dimension = ExposurePortfolioWide then (SubjectPortfolio, ''PORTFOLIO_ALLOCATION_EXHAUSTED'')
                      else (SubjectInstrument, ''INSTRUMENT_LIMIT_EXCEEDED'')) in
               boundedMoney rule input (trim_suffix (rrd_id rule) ''_LIMIT'') subject_type subject
                 (money_of 0 (money_currency limit)) worst limit reason))"

definition boundedAvailable :: "rule_descriptor \<Rightarrow> rule_input \<Rightarrow> money \<Rightarrow> money \<Rightarrow> rule_result result" where
  "boundedAvailable rule input projected required =
     (let available = cap_available (pss_capital (input_snapshot input)) in
      case CheckedMoneySubtract projected required of
        Inl _ \<Rightarrow> Inr (failClosed rule input ''RESERVE_ARITHMETIC_OVERFLOW'')
      | Inr headroom \<Rightarrow>
          (case NewRiskEvidence
             \<lparr>res_code = ''RESERVE_CAPITAL'', res_observed = knownMoney available, res_limit = knownMoney required,
              res_projected = knownMoney projected, res_headroom = knownMoney headroom, res_unit = ''MINOR_UNITS'',
              res_comparison = CompareGreaterOrEqual, res_subject_type = SubjectPortfolio,
              res_subject = portfolio_subject input, res_snapshot = psn_id (rri_snapshot input),
              res_proposal = tp_id (rri_proposal input), res_formula = ''phase-3-m3/v1'', res_at = rri_at input,
              res_explanation = ''projected available capital must preserve configured reserve''\<rparr> of
             Inl _ \<Rightarrow> Inr (failClosed rule input ''RESERVE_EVIDENCE_INVALID'')
           | Inr evidence \<Rightarrow>
               if minor projected \<ge> minor required
               then Inr (rule_result_of rule input RulePass ''RESERVE_CAPITAL_PRESERVED'' EffectNone [evidence] None)
               else reduce_or_violate rule input (wrap64 (minor available - minor required))
                 ''RESERVE_REQUIREMENT_NOT_MET'' ''RESERVE_CAPITAL_REDUCTION_REQUIRED'' ''RESERVE_CAPITAL_NOT_PRESERVED''
                 [evidence]))"

definition reserve_required :: "int \<Rightarrow> int \<Rightarrow> int" where
  "reserve_required whole bps = quo (wrap64 (wrap64 (whole * bps) + 9999)) 10000"

text \<open>The guard divides by the configured basis points before it compares them with zero.\<close>

definition reserve_rule :: "rule_descriptor \<Rightarrow> rule_input \<Rightarrow> production_config \<Rightarrow> rule_result result" where
  "reserve_rule rule input config =
     (case pc_limit_bps config of
        None \<Rightarrow> Inr (failClosed rule input ''RESERVE_LIMIT_UNAVAILABLE'')
      | Some bps \<Rightarrow>
          if bps < 0 \<or> bps > 10000 then Inr (failClosed rule input ''RESERVE_LIMIT_UNAVAILABLE'')
          else
            let capital = pss_capital (input_snapshot input) in
            if bps = 0 then Inl Panic
            else if minor (cap_total capital) > quo max_i64 bps
            then Inr (failClosed rule input ''RESERVE_ARITHMETIC_OVERFLOW'')
            else
              let required = money_of (reserve_required (minor (cap_total capital)) bps) (money_currency (cap_total capital)) in
              (case CheckedMoneySubtract (cap_available capital) (cs_capital (input_candidate input)) of
                 Inl _ \<Rightarrow> Inr (failClosed rule input ''RESERVE_ARITHMETIC_OVERFLOW'')
               | Inr projected \<Rightarrow> boundedAvailable rule input projected required))"

definition controlApplies :: "control_scope \<Rightarrow> string \<Rightarrow> rule_input \<Rightarrow> bool" where
  "controlApplies scope subject input =
     (let projected = (\<lambda>dimension. list_ex (\<lambda>e. ex_dimension e = dimension \<and> ex_subject e = subject)
            (cs_projected (input_candidate input))) in
      case scope of
        ScopeGlobal \<Rightarrow> True
      | ScopePortfolio \<Rightarrow> subject = portfolio_subject input
      | ScopeStrategyDefinition \<Rightarrow> subject = pmd_definition (tp_metadata (rri_proposal input))
      | ScopeStrategyInstance \<Rightarrow> subject = pmd_instance (tp_metadata (rri_proposal input))
      | ScopeInstrument \<Rightarrow>
          list_ex (\<lambda>leg. subject = digest_string (prl_instrument leg)) (pd_legs (tp_draft (rri_proposal input)))
      | ScopeUnderlying \<Rightarrow> projected ExposureUnderlying
      | ScopeExposureGroup \<Rightarrow> projected ExposureGroup
      | OtherScope _ \<Rightarrow> False)"

text \<open>The loop of both control rules: the first control that applies and blocks, and whether any applied.\<close>

definition control_rule ::
  "rule_descriptor \<Rightarrow> rule_input \<Rightarrow> string \<Rightarrow> string \<Rightarrow> ('c \<Rightarrow> control_scope) \<Rightarrow> ('c \<Rightarrow> string) \<Rightarrow> ('c \<Rightarrow> string) \<Rightarrow>
     ('c \<Rightarrow> bool) \<Rightarrow> 'c list \<Rightarrow> rule_result" where
  "control_rule rule input name clear scope subject state blocks controls =
     (let applicable = filter (\<lambda>c. controlApplies (scope c) (subject c) input) controls;
          invalid = failClosed rule input (name @ ''_EVIDENCE_INVALID'') in
      if controls = [] then failClosed rule input (name @ ''_STATE_MISSING'')
      else case find blocks applicable of
        Some c \<Rightarrow>
          (case stateEvidence input (name @ ''_STATE'') (state c) (control_scope_string (scope c)) (subject c) of
             Inl _ \<Rightarrow> invalid
           | Inr item \<Rightarrow> rule_result_of rule input RuleViolation (name @ ''_BLOCKING'')
               (violationEffect (rri_configuration input)) [item] None)
      | None \<Rightarrow>
          if applicable = [] then failClosed rule input (name @ ''_STATE_MISSING'')
          else (case stateEvidence input (name @ ''_STATE'') clear ''ALL'' ''portfolio-controls'' of
             Inl _ \<Rightarrow> invalid
           | Inr item \<Rightarrow> rule_result_of rule input RulePass (name @ ''_CLEAR'') EffectNone [item] None))"

definition killSwitch :: "rule_descriptor \<Rightarrow> rule_input \<Rightarrow> rule_result" where
  "killSwitch rule input = control_rule rule input ''KILL_SWITCH'' ''INACTIVE'' ks_scope ks_subject
     (\<lambda>k. kill_switch_state_string (ks_state k)) KillSwitch_Blocks (pss_kill_switches (input_snapshot input))"

definition circuitBreaker :: "rule_descriptor \<Rightarrow> rule_input \<Rightarrow> rule_result" where
  "circuitBreaker rule input = control_rule rule input ''CIRCUIT_BREAKER'' ''CLOSED'' cb_scope cb_subject
     (\<lambda>b. circuit_breaker_state_string (cb_state b)) CircuitBreaker_Blocks (pss_circuit_breakers (input_snapshot input))"

definition Rule_Evaluate :: "bool \<Rightarrow> rule_descriptor \<Rightarrow> rule_input \<Rightarrow> rule_result result" where
  "Rule_Evaluate cancelled rule input =
     (if cancelled then Inr (rule_result_of rule input RuleDefer ''CONTEXT_CANCELLED'' EffectDefer [] None)
      else case unmarshal_config (rrc_json (rri_configuration input)) of
        None \<Rightarrow> Inr (rule_result_of rule input RuleError ''INVALID_RULE_CONFIGURATION'' EffectDefer [] None)
      | Some config \<Rightarrow>
          if rrd_id rule = ''PORTFOLIO_CAPITAL_LIMIT'' then portfolioCapital rule input config
          else if rrd_id rule = ''STRATEGY_ALLOCATION_LIMIT'' then strategyAllocation rule input config
          else if rrd_id rule = ''DAILY_LOSS_LIMIT'' then Inr (dailyLoss rule input config)
          else if rrd_id rule = ''DRAWDOWN_LIMIT'' then Inr (drawdown_rule rule input config)
          else if rrd_id rule = ''INSTRUMENT_EXPOSURE_LIMIT'' then exposure_rule rule input config ExposureInstrument
          else if rrd_id rule = ''UNDERLYING_EXPOSURE_LIMIT'' then exposure_rule rule input config ExposureUnderlying
          else if rrd_id rule = ''MAXIMUM_OPEN_EXPOSURE'' then exposure_rule rule input config ExposurePortfolioWide
          else if rrd_id rule = ''RESERVE_CAPITAL'' then reserve_rule rule input config
          else if rrd_id rule = ''KILL_SWITCH'' then Inr (killSwitch rule input)
          else Inr (circuitBreaker rule input))"

section \<open>Results\<close>

lemma rule_result_status:
  "rrs_status (rule_result_of rule input status reason effect evidence adjustment) \<in> {status, RuleError, OtherRuleStatus []}"
  using NewRuleResult_Inr(1) by (fastforce simp: rule_result_of_def Let_def zero_rule_result_def split: sum.splits)

lemma rule_result_pass:
  "rrs_status (rule_result_of rule input status reason effect evidence adjustment) = RulePass \<Longrightarrow> status = RulePass"
  "rrs_status (rule_result_of rule input status reason effect evidence adjustment) = RuleModificationRequired \<Longrightarrow>
     status = RuleModificationRequired"
  using rule_result_status [of rule input status reason effect evidence adjustment] by auto

lemma failClosed_status: "rrs_status (failClosed rule input reason) \<in> {RuleDefer, RuleError, OtherRuleStatus []}"
  using rule_result_status by (simp add: failClosed_def)

lemma failClosed_no_pass [simp]: "rrs_status (failClosed rule input reason) \<noteq> RulePass"
  "rrs_status (failClosed rule input reason) \<noteq> RuleModificationRequired"
  using failClosed_status [of rule input reason] by auto

lemma rule_result_adjustment:
  assumes "rrs_adjustment (rule_result_of rule input status reason effect evidence adjustment) = Some b"
  shows "\<exists>a. adjustment = Some a \<and> sorted_adjustment a = Inr b"
proof (cases adjustment)
  case None
  then show ?thesis
    using assms NewRuleResult_Inr(9)
    by (fastforce simp: rule_result_of_def Let_def zero_rule_result_def split: sum.splits)
next
  case (Some a)
  then show ?thesis
    using assms NewRuleResult_Inr(9)
    by (fastforce simp: rule_result_of_def Let_def zero_rule_result_def split: sum.splits)
qed

section \<open>Controls fail closed\<close>

lemma control_rule_pass:
  assumes "rrs_status (control_rule rule input name clear scope subject state blocks controls) = RulePass"
  shows "(\<exists>c \<in> set controls. controlApplies (scope c) (subject c) input) \<and>
     (\<forall>c \<in> set controls. controlApplies (scope c) (subject c) input \<longrightarrow> \<not> blocks c)"
  using assms
  by (auto simp: control_rule_def Let_def find_None_iff filter_empty_conv dest: rule_result_pass
      split: if_splits option.splits sum.splits)

section \<open>Reductions\<close>

definition leg_scaled :: "int \<Rightarrow> int \<Rightarrow> allocation_leg_bound \<Rightarrow> allocation_leg_bound \<Rightarrow> bool" where
  "leg_scaled maximum capital leg l \<longleftrightarrow>
     l = leg\<lparr>lb_maximum_units := lb_maximum_units l\<rparr> \<and> 0 < lb_maximum_units l \<and>
     lb_maximum_units l * capital \<le> lb_maximum_units leg * maximum \<and> lb_lot_size leg dvd lb_maximum_units l"

lemma wrap64_le: "0 \<le> x \<Longrightarrow> wrap64 x \<le> x"
  by (simp add: wrap64_def) (smt (verit) zmod_le_nonneg_dividend pos_mod_sign)

lemma scaled_units:
  assumes "0 \<le> u" "0 \<le> m" "0 < capital" "0 < lot"
    "s = wrap64 (quo (wrap64 (u * m)) capital - rem64 (quo (wrap64 (u * m)) capital) lot)" "0 < s"
  shows "s * capital \<le> u * m" "lot dvd s"
proof -
  define q where "q = quo (wrap64 (u * m)) capital"
  have "\<bar>wrap64 (u * m)\<bar> \<le> 9223372036854775808"
    using in_i64_wrap64 [of "u * m"] by (auto simp: in_i64_def min_i64_def max_i64_def)
  then have small: "\<bar>wrap64 (u * m)\<bar> div \<bar>capital\<bar> \<le> 9223372036854775808"
    using assms(3) by (smt (verit) div_by_1 zdiv_mono2)
  have "0 \<le> q"
  proof (rule ccontr)
    assume neg: "\<not> 0 \<le> q"
    then have "q \<ge> -9223372036854775808"
      using small assms(3) by (cases "wrap64 (u * m) < 0") (simp_all add: q_def quo_def pos_imp_zdiv_nonneg_iff)
    moreover have "q - rem64 q lot = - (\<bar>q\<bar> - \<bar>q\<bar> mod lot)" using neg assms(4) by (simp add: rem64_def)
    moreover have "\<bar>q\<bar> mod lot \<le> \<bar>q\<bar>" "0 \<le> \<bar>q\<bar> mod lot" using assms(4) by (simp_all add: zmod_le_nonneg_dividend)
    ultimately have "in_i64 (q - rem64 q lot)" "q - rem64 q lot \<le> 0" using neg by (auto simp: i64_defs)
    with assms(5,6) show False by (simp add: q_def)
  qed
  moreover from this have rem: "rem64 q lot = q mod lot" using assms(4) by (simp add: rem64_def)
  moreover have "q mod lot \<le> q" "0 \<le> q mod lot" using \<open>0 \<le> q\<close> assms(4) by (simp_all add: zmod_le_nonneg_dividend)
  moreover have w: "0 \<le> wrap64 (u * m) \<or> q = 0"
    using \<open>0 \<le> q\<close> assms(3) by (auto simp: q_def quo_def split: if_splits)
       (smt (verit) pos_imp_zdiv_nonneg_iff)
  then have q: "q = wrap64 (u * m) div capital \<and> 0 \<le> wrap64 (u * m) \<or> q = 0"
    using assms(3) by (auto simp: q_def quo_nonneg)
  then have "q \<le> max_i64"
    using small assms(3) in_i64_wrap64 [of "u * m"]
    by (auto simp: max_i64_def in_i64_def) (smt (verit) div_by_1 zdiv_mono2)
  ultimately have s: "s = q - q mod lot" using assms(5) by (simp add: q_def [symmetric] in_i64_def min_i64_def)
  then show "lot dvd s" by (simp add: minus_mod_eq_mult_div)
  have "0 < q" using s assms(6) \<open>0 \<le> q mod lot\<close> by simp
  then have "q * capital \<le> wrap64 (u * m)"
    using q assms(3) by (auto simp: minus_mod_eq_div_mult [symmetric])
  also have "\<dots> \<le> u * m" using assms(1,2) by (simp add: wrap64_le)
  finally have "q * capital \<le> u * m" .
  moreover have "s * capital \<le> q * capital" using s \<open>0 \<le> q mod lot\<close> assms(3) by (simp add: mult_right_mono)
  ultimately show "s * capital \<le> u * m" by linarith
qed

lemma scale_legs_Inr:
  assumes "scale_legs maximum capital legs = Inr (Some (ls, strict))" "0 \<le> maximum" "0 < capital"
    "\<forall>leg \<in> set legs. AllocationLegBound_Validate leg = Inr ()"
  shows "list_all2 (leg_scaled maximum capital) legs ls"
  using assms
proof (induction maximum capital legs arbitrary: ls strict rule: scale_legs.induct)
  case (2 maximum capital leg legs)
  define s where "s = wrap64 (quo (wrap64 (lb_maximum_units leg * maximum)) capital -
      rem64 (quo (wrap64 (lb_maximum_units leg * maximum)) capital) (lb_lot_size leg))"
  from "2.prems"(1) obtain ls' strict' where h: "lb_resolution leg = QuantityResolved" "lb_lot_size leg \<noteq> 0" "0 < s"
    "scale_legs maximum capital legs = Inr (Some (ls', strict'))"
    "ls = leg\<lparr>lb_maximum_units := s\<rparr> # ls'"
    by (auto simp: Let_def s_def [symmetric] bind_r_def NewQuantity_def split: if_splits sum.splits option.splits)
  have valid: "0 < lb_maximum_units leg" "0 < lb_lot_size leg"
    using "2.prems"(4) h(1) by (auto simp: AllocationLegBound_Validate_def quantity_is_valid_def split: if_splits)
  have "list_all2 (leg_scaled maximum capital) legs ls'"
    using "2.IH" [OF _ refl h(2) refl _ h(4)] h "2.prems" by (simp add: s_def)
  moreover have "s * capital \<le> lb_maximum_units leg * maximum" "lb_lot_size leg dvd s"
    using scaled_units [OF _ "2.prems"(2,3) valid(2) s_def h(3)] valid by simp_all
  then have "leg_scaled maximum capital leg (leg\<lparr>lb_maximum_units := s\<rparr>)" using h(3) by (simp add: leg_scaled_def)
  ultimately show ?case using h(5) by simp
qed simp

text \<open>What the adjustment of a rule says about the candidate and the headroom \<open>maximum\<close>.\<close>

definition reduces :: "rule_input \<Rightarrow> int \<Rightarrow> rule_adjustment \<Rightarrow> bool" where
  "reduces input maximum a \<longleftrightarrow>
     0 < maximum \<and> maximum < minor (cs_capital (input_candidate input)) \<and> minor (rja_capital a) \<le> maximum \<and>
     (\<exists>legs. list_all2 (leg_scaled maximum (minor (cs_capital (input_candidate input))))
         (cs_leg_bounds (input_candidate input)) legs \<and> rja_legs a = sort_key leg_bound_key legs)"

lemma reduce_or_violate_no_pass:
  "reduce_or_violate rule input headroom reason reduced violated evidence = Inr r \<Longrightarrow> rrs_status r \<noteq> RulePass"
  by (auto simp: reduce_or_violate_def bind_r_def Let_def dest: rule_result_pass split: if_splits sum.splits option.splits)

lemma reduce_or_violate_reduces:
  assumes "reduce_or_violate rule input headroom reason reduced violated evidence = Inr r" "rrs_adjustment r = Some b"
    "\<forall>leg \<in> set (cs_leg_bounds (input_candidate input)). AllocationLegBound_Validate leg = Inr ()"
  shows "reduces input headroom b"
proof -
  from assms(1,2) obtain a where h: "headroom > 0" "headroom < minor (cs_capital (input_candidate input))"
    "modification input headroom reason = Inr (Some a)" "sorted_adjustment a = Inr b"
    by (auto simp: reduce_or_violate_def bind_r_def Let_def dest: rule_result_adjustment
        split: if_splits sum.splits option.splits)
  from h(3) obtain legs strict where m: "minor (cs_capital (input_candidate input)) > 0"
    "scale_legs headroom (minor (cs_capital (input_candidate input))) (cs_leg_bounds (input_candidate input)) = Inr (Some (legs, strict))"
    "rja_legs a = legs" "rja_capital a = money_of headroom (money_currency (cs_capital (input_candidate input)))"
    by (auto simp: modification_def Let_def bind_r_def split: if_splits sum.splits option.splits)
  have "minor (rja_capital a) \<le> headroom"
    using h(1) m(4) by (auto simp: money_of_def NewMoney_def bind_r_def zero_money_def split: sum.splits)
  then show ?thesis
    using scale_legs_Inr [OF m(2) _ m(1) assms(3)] h m(3) by (auto simp: reduces_def sorted_adjustment_def split: if_splits)
qed

end
