(* ===== verification/Port_Engine.thy ===== *)
theory Port_Engine
  imports Port_Snapshot Gomap
begin

text \<open>
  \<open>internal/portfolio/allocation/engine.go\<close>: sizing a proposal. \<open>Evaluate\<close> takes the smallest of the limits,
  prices one package of the proposed legs with the reference prices, and allocates as many whole packages as fit.
  The lemmas show that a candidate costs exactly its capital, that the capital respects every limit and the
  reserve, and that all legs are the same number of packages.
\<close>

section \<open>Inputs\<close>

record allocation_limits =
  al_total :: money
  al_reserve_bps :: int
  al_emergency_bps :: int
  al_strategy :: money
  al_instrument :: money
  al_underlying :: money
  al_group :: money

record allocation_policy =
  apl_id :: digest
  apl_version :: nat
  apl_enabled :: bool
  apl_from :: instant
  apl_until :: instant
  apl_limits :: allocation_limits
  apl_hash :: digest

text \<open>Of the instrument master: its version and the instruments by identity.\<close>

record instrument_master =
  im_version :: string
  im_instruments :: "(digest, instrument) gomap"

definition Master_Instrument :: "instrument_master \<Rightarrow> digest \<Rightarrow> instrument option" where
  "Master_Instrument m i = map_of (im_instruments m) i"

record allocation_input =
  ain_proposal :: trade_proposal
  ain_snapshot :: portfolio_snapshot
  ain_policy :: allocation_policy
  ain_master :: instrument_master
  ain_time :: instant

definition checkedMul :: "int \<Rightarrow> int \<Rightarrow> int \<times> bool" where
  "checkedMul left right =
     (if left < 0 \<or> right < 0 \<or> (left \<noteq> 0 \<and> right > quo max_i64 left) then (0, False)
      else (wrap64 (left * right), True))"

definition mul :: "int \<Rightarrow> int \<Rightarrow> int result" where
  "mul left right =
     (case checkedMul left right of (v, ok) \<Rightarrow> if ok then Inr v else Inl (Portfolio ErrArithmeticOverflow))"

definition allocation_failed :: "'a result" where
  "allocation_failed = Inl (Portfolio ErrAllocationFailed)"

section \<open>Exposure\<close>

record exposure_totals =
  et_gross :: int
  et_net :: int
  et_paid :: int
  et_received :: int
  et_short :: bool

definition zero_totals :: exposure_totals where
  "zero_totals = \<lparr>et_gross = 0, et_net = 0, et_paid = 0, et_received = 0, et_short = False\<rparr>"

text \<open>The key of a total is the pair of dimension and subject that the code joins with a bar and splits again.\<close>

type_synonym totals_map = "(exposure_dimension \<times> string, exposure_totals) gomap"

definition add_exposure ::
  "exposure_dimension \<Rightarrow> string \<Rightarrow> int \<Rightarrow> side \<Rightarrow> totals_map \<Rightarrow> totals_map result" where
  "add_exposure dimension subject amount side values =
     (let v = get_or zero_totals values (dimension, subject);
          overflow = Inl (Portfolio ErrArithmeticOverflow) in
      if et_gross v > max_i64 - amount then overflow
      else
        let v = v\<lparr>et_gross := wrap64 (et_gross v + amount)\<rparr> in
        if side = SideBuy then
          (if et_net v > max_i64 - amount \<or> et_paid v > max_i64 - amount then overflow
           else Inr (put (dimension, subject)
             (v\<lparr>et_net := wrap64 (et_net v + amount), et_paid := wrap64 (et_paid v + amount)\<rparr>) values))
        else
          (if et_net v < min_i64 + amount \<or> et_received v > max_i64 - amount then overflow
           else Inr (put (dimension, subject)
             (v\<lparr>et_net := wrap64 (et_net v - amount), et_received := wrap64 (et_received v + amount),
                et_short := True\<rparr>) values)))"

fun leg_totals ::
  "allocation_input \<Rightarrow> proposal_leg list \<Rightarrow> allocation_leg_bound list \<Rightarrow> totals_map \<Rightarrow> totals_map result" where
  "leg_totals input (leg # legs) (b # bs) values =
     bind_r (mul (price_minor (prl_reference_price leg)) (lb_maximum_units b)) (\<lambda>v.
       case Master_Instrument (ain_master input) (prl_instrument leg) of
         None \<Rightarrow> allocation_failed
       | Some instrument \<Rightarrow>
           bind_r (add_exposure ExposurePortfolioWide
               (digest_string (pss_portfolio (psn_spec (ain_snapshot input)))) v (prl_side leg) values) (\<lambda>values.
           bind_r (add_exposure ExposureInstrument (digest_string (prl_instrument leg)) v (prl_side leg) values) (\<lambda>values.
           bind_r (add_exposure ExposureUnderlying (ins_underlying instrument) v (prl_side leg) values) (\<lambda>values.
             leg_totals input legs bs values))))"
| "leg_totals input _ _ values = Inr values"

definition known_minor :: "currency \<Rightarrow> int \<Rightarrow> measured_money" where
  "known_minor currency v =
     or_zero_measured (NewKnownMoney (case NewMoney v currency of Inl _ \<Rightarrow> zero_money | Inr m \<Rightarrow> m))"

definition incremental_exposure ::
  "currency \<Rightarrow> (exposure_dimension \<times> string) \<times> exposure_totals \<Rightarrow> exposure_record result" where
  "incremental_exposure currency entry =
     (case entry of ((dimension, subject), v) \<Rightarrow>
        NewExposureRecord \<lparr>ex_dimension = dimension, ex_subject = subject, ex_gross = known_minor currency (et_gross v),
          ex_net = known_minor currency (et_net v), ex_premium_at_risk = known_minor currency (et_paid v),
          ex_long = known_minor currency (et_paid v), ex_short = known_minor currency (et_received v),
          ex_premium_paid = known_minor currency (et_paid v), ex_premium_received = known_minor currency (et_received v),
          ex_maximum_loss = (if et_short v then or_zero_measured (NewUnavailableMoney AvailabilityUnknown)
            else known_minor currency (et_gross v)),
          ex_loss_bound = (if et_short v then LossBoundUnbounded else LossBoundKnown), ex_overnight = False\<rparr>)"

definition no_exposure :: "currency \<Rightarrow> exposure_record \<Rightarrow> exposure_record result" where
  "no_exposure currency e =
     (let zero = known_minor currency 0 in
      NewExposureRecord \<lparr>ex_dimension = ex_dimension e, ex_subject = ex_subject e, ex_gross = zero, ex_net = zero,
        ex_premium_at_risk = zero, ex_long = zero, ex_short = zero, ex_premium_paid = zero, ex_premium_received = zero,
        ex_maximum_loss = zero, ex_loss_bound = LossBoundKnown, ex_overnight = False\<rparr>)"

definition same_subject :: "exposure_record \<Rightarrow> exposure_record \<Rightarrow> bool" where
  "same_subject a b \<longleftrightarrow> ex_dimension a = ex_dimension b \<and> ex_subject a = ex_subject b"

fun project_all ::
  "currency \<Rightarrow> exposure_record list \<Rightarrow> totals_map \<Rightarrow> (exposure_record list \<times> exposure_record list) result" where
  "project_all currency existing [] = Inr ([], [])"
| "project_all currency existing (entry # entries) =
     bind_r (incremental_exposure currency entry) (\<lambda>incremental.
     bind_r (no_exposure currency incremental) (\<lambda>zero.
     bind_r (ProjectExposure (case find (\<lambda>e. same_subject e incremental) existing of None \<Rightarrow> zero | Some e \<Rightarrow> e)
               incremental) (\<lambda>projected.
     bind_r (project_all currency existing entries) (\<lambda>(is, ps).
       Inr (incremental # is, projected # ps)))))"

definition exposure_of ::
  "allocation_input \<Rightarrow> allocation_leg_bound list \<Rightarrow> (exposure_record list \<times> exposure_record list) result" where
  "exposure_of input bounds =
     bind_r (leg_totals input (pd_legs (tp_draft (ain_proposal input))) bounds []) (\<lambda>values.
       project_all (pss_base_currency (psn_spec (ain_snapshot input)))
         (pss_exposures (psn_spec (ain_snapshot input))) values)"

section \<open>Sizing\<close>

text \<open>The first loop over the legs: the bounds without their units, and the cost of one package.\<close>

fun price_legs ::
  "allocation_input \<Rightarrow> int \<Rightarrow> proposal_leg list \<Rightarrow> (int \<times> allocation_leg_bound list) result" where
  "price_legs input cost [] = Inr (cost, [])"
| "price_legs input cost (leg # legs) =
     (case Master_Instrument (ain_master input) (prl_instrument leg) of
        None \<Rightarrow> allocation_failed
      | Some instrument \<Rightarrow>
          if ins_currency instrument \<noteq> pss_base_currency (psn_spec (ain_snapshot input)) then allocation_failed
          else bind_r (mul (int (prl_ratio leg)) (ins_lot_size instrument)) (\<lambda>units.
            bind_r (mul (price_minor (prl_reference_price leg)) units) (\<lambda>leg_cost.
              if cost > max_i64 - leg_cost then Inl (Portfolio ErrArithmeticOverflow)
              else bind_r (price_legs input (wrap64 (cost + leg_cost)) legs) (\<lambda>(total_cost, bounds).
                Inr (total_cost,
                  \<lparr>lb_instrument = prl_instrument leg, lb_side = prl_side leg, lb_ratio = prl_ratio leg,
                   lb_resolution = QuantityResolved, lb_maximum_units = 0,
                   lb_lot_size = ins_lot_size instrument\<rparr> # bounds)))))"

text \<open>The second loop: the units of every leg for a number of packages. An unknown instrument has lot size zero.\<close>

fun size_legs ::
  "allocation_input \<Rightarrow> int \<Rightarrow> proposal_leg list \<Rightarrow> allocation_leg_bound list \<Rightarrow> allocation_leg_bound list result" where
  "size_legs input packages (leg # legs) (b # bs) =
     bind_r (mul (wrap64 (int (prl_ratio leg) *
         (case Master_Instrument (ain_master input) (prl_instrument leg) of None \<Rightarrow> 0 | Some i \<Rightarrow> ins_lot_size i)))
         packages) (\<lambda>units.
       case NewQuantity units of
         Inl _ \<Rightarrow> allocation_failed
       | Inr q \<Rightarrow> bind_r (size_legs input packages legs bs) (\<lambda>bs. Inr (b\<lparr>lb_maximum_units := q\<rparr> # bs)))"
| "size_legs input packages _ bs = Inr bs"

definition find_allocation :: "allocation_input \<Rightarrow> strategy_allocation option" where
  "find_allocation input =
     find (\<lambda>a. sa_instance a = pmd_instance (tp_metadata (ain_proposal input)) \<and>
         sa_instance_revision a = pmd_instance_revision (tp_metadata (ain_proposal input)))
       (pss_allocations (psn_spec (ain_snapshot input)))"

definition requested_minor :: "allocation_input \<Rightarrow> strategy_allocation \<Rightarrow> int result" where
  "requested_minor input a =
     bind_r (mul (minor (sa_limit a)) (si_value_bps (pd_sizing (tp_draft (ain_proposal input)))))
       (\<lambda>v. Inr (quo v 10000))"

definition required_reserve :: "allocation_input \<Rightarrow> int result" where
  "required_reserve input =
     (let limits = apl_limits (ain_policy input) in
      bind_r (mul (minor (al_total limits)) (al_reserve_bps limits + al_emergency_bps limits))
        (\<lambda>v. Inr (quo v 10000)))"

definition available_after :: "allocation_input \<Rightarrow> int \<Rightarrow> int" where
  "available_after input reserve =
     (let v = wrap64 (minor (cap_available (pss_capital (psn_spec (ain_snapshot input)))) - reserve) in
      if v < 0 then 0 else v)"

definition capital_bounds :: "allocation_input \<Rightarrow> strategy_allocation \<Rightarrow> int \<Rightarrow> int list" where
  "capital_bounds input a reserve =
     (let limits = apl_limits (ain_policy input) in
      [minor (sa_remaining a), available_after input reserve, minor (al_strategy limits), minor (al_instrument limits),
       minor (al_underlying limits), minor (al_group limits)])"

definition capital_bound :: "int \<Rightarrow> int list \<Rightarrow> int" where
  "capital_bound requested bounds = fold (\<lambda>v bound. if v < bound then v else bound) bounds requested"

definition Evaluate :: "(string \<Rightarrow> digest) \<Rightarrow> allocation_input \<Rightarrow> allocation_candidate result" where
  "Evaluate sha input =
     (let proposal = ain_proposal input; snapshot = psn_spec (ain_snapshot input); policy = ain_policy input;
          draft = tp_draft proposal in
      if proposal_is_zero proposal \<or> psn_id (ain_snapshot input) = 0 \<or> im_version (ain_master input) = [] \<or>
         ain_time input = 0 \<or> \<not> apl_enabled policy \<or> ain_time input < apl_from policy \<or>
         \<not> ain_time input < apl_until policy \<or> pss_state snapshot \<noteq> PortfolioEnabled
      then allocation_failed
      else case find_allocation input of
        None \<Rightarrow> allocation_failed
      | Some allocation \<Rightarrow>
          if sa_id allocation = 0 \<or> sa_state allocation \<noteq> StrategyAllocationEnabled then allocation_failed
          else
            bind_r (requested_minor input allocation) (\<lambda>requested.
            bind_r (required_reserve input) (\<lambda>reserve.
              let bound = capital_bound requested (capital_bounds input allocation reserve) in
              if bound \<le> 0 then allocation_failed
              else bind_r (price_legs input 0 (pd_legs draft)) (\<lambda>(package_cost, unsized).
                if package_cost \<le> 0 then allocation_failed
                else
                  let packages = quo bound package_cost in
                  if packages \<le> 0 then allocation_failed
                  else bind_r (mul package_cost packages) (\<lambda>approved.
                    bind_r (size_legs input packages (pd_legs draft) unsized) (\<lambda>bounds.
                      let capital = (case NewMoney approved (pss_base_currency snapshot) of
                              Inl _ \<Rightarrow> zero_money | Inr m \<Rightarrow> m) in
                      bind_r (exposure_of input bounds) (\<lambda>(incremental, projected).
                        NewAllocationCandidate sha
                          \<lparr>cs_schema = ''allocation-candidate/v2'', cs_proposal = proposal,
                           cs_portfolio = pss_portfolio snapshot, cs_snapshot = psn_id (ain_snapshot input),
                           cs_portfolio_revision = pss_revision snapshot, cs_strategy_allocation = sa_id allocation,
                           cs_policy = apl_id policy, cs_policy_version = apl_version policy,
                           cs_sizing = pd_sizing draft, cs_capital = capital,
                           cs_premium = or_zero_measured (NewKnownMoney capital),
                           cs_risk_budget = or_zero_measured (NewUnavailableMoney AvailabilityUnknown),
                           cs_leg_bounds = bounds, cs_incremental = incremental, cs_projected = projected,
                           cs_reserve_impact = capital,
                           cs_rounding = \<lparr>re_requested = requested, re_approved = approved,
                             re_remainder = wrap64 (requested - approved), re_method = ''FLOOR_TO_BOUNDED_UNITS''\<rparr>,
                           cs_constraints = [], cs_reasons = [], cs_configuration_hash = apl_hash policy,
                           cs_generated_at = ain_time input, cs_valid_from = pd_valid_from draft,
                           cs_expires_at = pd_expires_at draft\<rparr>)))))))"

section \<open>Exact and bounded\<close>

lemma mul_Inr: "mul a b = Inr c \<Longrightarrow> c = a * b \<and> 0 \<le> a \<and> 0 \<le> b \<and> 0 \<le> c \<and> c \<le> max_i64"
proof -
  assume m: "mul a b = Inr c"
  then have ab: "0 \<le> a" "0 \<le> b" "a \<noteq> 0 \<longrightarrow> b \<le> quo max_i64 a" "c = wrap64 (a * b)"
    by (auto simp: mul_def checkedMul_def split: if_splits)
  have "a * b \<le> max_i64"
  proof (cases "a = 0")
    case False
    with ab have "b \<le> max_i64 div a" by (simp add: quo_nonneg max_i64_def)
    then have "a * b \<le> a * (max_i64 div a)" using ab(1) by (simp add: mult_left_mono)
    also have "\<dots> \<le> max_i64" using False ab(1)
      by (metis (no_types) minus_mod_eq_mult_div diff_le_eq le_add_same_cancel1 less_le pos_mod_sign)
    finally show ?thesis .
  qed (simp add: max_i64_def)
  moreover have "0 \<le> a * b" using ab by simp
  ultimately have "in_i64 (a * b)" by (simp add: in_i64_def min_i64_def)
  with ab \<open>a * b \<le> max_i64\<close> \<open>0 \<le> a * b\<close> show ?thesis by simp
qed

definition lot_of :: "allocation_input \<Rightarrow> proposal_leg \<Rightarrow> int" where
  "lot_of input leg =
     (case Master_Instrument (ain_master input) (prl_instrument leg) of None \<Rightarrow> 0 | Some i \<Rightarrow> ins_lot_size i)"

text \<open>The bound of a leg in \<open>n\<close> packages, and what one package costs at the reference prices.\<close>

definition packed_leg :: "allocation_input \<Rightarrow> int \<Rightarrow> proposal_leg \<Rightarrow> allocation_leg_bound" where
  "packed_leg input n leg =
     \<lparr>lb_instrument = prl_instrument leg, lb_side = prl_side leg, lb_ratio = prl_ratio leg,
      lb_resolution = QuantityResolved, lb_maximum_units = n * (int (prl_ratio leg) * lot_of input leg),
      lb_lot_size = lot_of input leg\<rparr>"

definition package_cost :: "allocation_input \<Rightarrow> int" where
  "package_cost input = (\<Sum>leg \<leftarrow> pd_legs (tp_draft (ain_proposal input)).
     price_minor (prl_reference_price leg) * (int (prl_ratio leg) * lot_of input leg))"

lemma price_legs_Inr:
  assumes "price_legs input cost legs = Inr (t, bs)" "0 \<le> cost" "cost \<le> max_i64"
  shows "t = cost + (\<Sum>leg \<leftarrow> legs. price_minor (prl_reference_price leg) * (int (prl_ratio leg) * lot_of input leg)) \<and>
     t \<le> max_i64 \<and> bs = map (packed_leg input 0) legs \<and>
     (\<forall>leg \<in> set legs. 0 \<le> int (prl_ratio leg) * lot_of input leg \<and> int (prl_ratio leg) * lot_of input leg \<le> max_i64)"
  using assms
proof (induction input cost legs arbitrary: t bs rule: price_legs.induct)
  case (2 input cost leg legs)
  from "2.prems"(1) obtain i u c t' bs' where h:
    "Master_Instrument (ain_master input) (prl_instrument leg) = Some i"
    "mul (int (prl_ratio leg)) (ins_lot_size i) = Inr u"
    "mul (price_minor (prl_reference_price leg)) u = Inr c" "\<not> cost > max_i64 - c"
    "price_legs input (wrap64 (cost + c)) legs = Inr (t', bs')"
    "t = t'" "ins_currency i = pss_base_currency (psn_spec (ain_snapshot input))"
    "bs = \<lparr>lb_instrument = prl_instrument leg, lb_side = prl_side leg, lb_ratio = prl_ratio leg,
       lb_resolution = QuantityResolved, lb_maximum_units = 0, lb_lot_size = ins_lot_size i\<rparr> # bs'"
    by (auto simp: allocation_failed_def bind_r_def split: option.splits if_splits sum.splits prod.splits)
  note u = mul_Inr [OF h(2)] and c = mul_Inr [OF h(3)]
  have sum: "0 \<le> cost + c" "cost + c \<le> max_i64" using h(4) c "2.prems"(2) by auto
  then have w: "wrap64 (cost + c) = cost + c" by (simp add: in_i64_def min_i64_def)
  have lot: "lot_of input leg = ins_lot_size i" using h(1) by (simp add: lot_of_def)
  have "t' = cost + c + (\<Sum>leg \<leftarrow> legs. price_minor (prl_reference_price leg) * (int (prl_ratio leg) * lot_of input leg)) \<and>
     t' \<le> max_i64 \<and> bs' = map (packed_leg input 0) legs \<and>
     (\<forall>leg \<in> set legs. 0 \<le> int (prl_ratio leg) * lot_of input leg \<and> int (prl_ratio leg) * lot_of input leg \<le> max_i64)"
    using "2.IH" [OF h(1) _ h(4) h(5)] h(7) sum by (simp only: w) auto
  with h(6,8) lot u c show ?case by (auto simp: packed_leg_def)
qed simp

lemma size_legs_Inr:
  assumes "size_legs input n legs (map (packed_leg input 0) legs) = Inr bs"
    "\<forall>leg \<in> set legs. 0 \<le> int (prl_ratio leg) * lot_of input leg \<and> int (prl_ratio leg) * lot_of input leg \<le> max_i64"
  shows "bs = map (packed_leg input n) legs"
  using assms
proof (induction legs arbitrary: bs)
  case (Cons leg legs)
  define u where "u = int (prl_ratio leg) * lot_of input leg"
  have "in_i64 u" using Cons.prems(2) by (simp add: u_def in_i64_def min_i64_def)
  then have w: "wrap64 (int (prl_ratio leg) * (case Master_Instrument (ain_master input) (prl_instrument leg) of
      None \<Rightarrow> 0 | Some i \<Rightarrow> ins_lot_size i)) = u"
    by (simp add: u_def lot_of_def)
  from Cons.prems(1) obtain units q ws where h: "mul u n = Inr units" "NewQuantity units = Inr q"
    "size_legs input n legs (map (packed_leg input 0) legs) = Inr ws"
    "bs = (packed_leg input 0 leg)\<lparr>lb_maximum_units := q\<rparr> # ws"
    by (auto simp: w bind_r_def allocation_failed_def split: sum.splits)
  have "q = n * u" using mul_Inr [OF h(1)] h(2) by (simp add: NewQuantity_def mult.commute split: if_splits)
  with Cons.IH [OF h(3)] Cons.prems(2) h(4) show ?case by (simp add: packed_leg_def u_def)
qed simp

lemma capital_bound_le: "capital_bound r vs \<le> r \<and> (\<forall>v \<in> set vs. capital_bound r vs \<le> v)"
proof -
  have min: "(\<lambda>v bound. if v < bound then v else bound) = (min :: int \<Rightarrow> int \<Rightarrow> int)"
    by (auto simp: min_def fun_eq_iff)
  have "fold min vs r \<le> r \<and> (\<forall>v \<in> set vs. fold min vs r \<le> v)"
    by (induction vs arbitrary: r) fastforce+
  then show ?thesis by (simp add: capital_bound_def min)
qed

text \<open>Every candidate is a positive number of whole packages, priced exactly, as many as the bound allows.\<close>

lemma Evaluate_Inr:
  assumes "Evaluate sha input = Inr c"
  obtains a n requested reserve where "find_allocation input = Some a" "sa_state a = StrategyAllocationEnabled"
    "requested_minor input a = Inr requested" "required_reserve input = Inr reserve"
    "0 < n" "0 < package_cost input" "minor (cs_capital (ca_spec c)) = n * package_cost input"
    "cs_leg_bounds (ca_spec c) =
       sort_key leg_bound_key (map (packed_leg input n) (pd_legs (tp_draft (ain_proposal input))))"
    "n * package_cost input \<le> capital_bound requested (capital_bounds input a reserve)"
    "capital_bound requested (capital_bounds input a reserve) < (n + 1) * package_cost input"
    "pss_state (psn_spec (ain_snapshot input)) = PortfolioEnabled" "apl_enabled (ain_policy input)"
    "apl_from (ain_policy input) \<le> ain_time input" "ain_time input < apl_until (ain_policy input)"
proof -
  let ?legs = "pd_legs (tp_draft (ain_proposal input))"
  from assms have ready: "pss_state (psn_spec (ain_snapshot input)) = PortfolioEnabled" "apl_enabled (ain_policy input)"
    "apl_from (ain_policy input) \<le> ain_time input" "ain_time input < apl_until (ain_policy input)"
    by (auto simp: Evaluate_def Let_def allocation_failed_def split: if_splits)
  from assms obtain a where a: "find_allocation input = Some a" "sa_state a = StrategyAllocationEnabled"
    by (cases "find_allocation input") (auto simp: Evaluate_def Let_def allocation_failed_def split: if_splits)
  from assms a obtain requested reserve where r: "requested_minor input a = Inr requested" "required_reserve input = Inr reserve"
    by (auto simp: Evaluate_def Let_def allocation_failed_def bind_r_def split: if_splits sum.splits)
  define bound where "bound = capital_bound requested (capital_bounds input a reserve)"
  from assms a r obtain cost unsized where p: "0 < bound" "price_legs input 0 ?legs = Inr (cost, unsized)" "0 < cost"
    by (auto simp: Evaluate_def Let_def allocation_failed_def bind_r_def bound_def split: if_splits sum.splits)
  define n where "n = quo bound cost"
  from assms a r p obtain approved bounds where s: "0 < n" "mul cost n = Inr approved" "size_legs input n ?legs unsized = Inr bounds"
    by (auto simp: Evaluate_def Let_def allocation_failed_def bind_r_def bound_def [symmetric] n_def [symmetric]
        split: if_splits sum.splits)
  from assms a r p s obtain incremental projected where e: "exposure_of input bounds = Inr (incremental, projected)"
    by (auto simp: Evaluate_def Let_def allocation_failed_def bind_r_def bound_def [symmetric] n_def [symmetric]
        split: if_splits sum.splits)
  from assms a r p s e obtain spec where c: "NewAllocationCandidate sha spec = Inr c" "cs_leg_bounds spec = bounds"
    "cs_capital spec = (case NewMoney approved (pss_base_currency (psn_spec (ain_snapshot input))) of
       Inl _ \<Rightarrow> zero_money | Inr m \<Rightarrow> m)"
    by (simp add: Evaluate_def Let_def allocation_failed_def bind_r_def bound_def [symmetric] n_def [symmetric]
        split: if_splits)
  have price: "cost = package_cost input" "unsized = map (packed_leg input 0) ?legs"
    "\<forall>leg \<in> set ?legs. 0 \<le> int (prl_ratio leg) * lot_of input leg \<and> int (prl_ratio leg) * lot_of input leg \<le> max_i64"
    using price_legs_Inr [OF p(2)] by (auto simp: package_cost_def max_i64_def)
  have legs: "bounds = map (packed_leg input n) ?legs" using size_legs_Inr [OF s(3) [unfolded price(2)] price(3)] .
  have "\<not> money_is_zero_value (cs_capital spec)"
    using c(1) by (auto simp: NewAllocationCandidate_def candidate_fields_invalid_def Let_def split: if_splits)
  with c(3) have "minor (cs_capital spec) = approved"
    by (auto simp: NewMoney_def bind_r_def zero_money_def money_is_zero_value_def split: sum.splits)
  then have "minor (cs_capital (ca_spec c)) = n * package_cost input"
    using NewAllocationCandidate_Inr(1) [OF c(1)] mul_Inr [OF s(2)] price(1) by (simp add: mult.commute)
  moreover have "n = bound div cost" using p by (simp add: n_def quo_nonneg)
  then have "n * package_cost input \<le> bound" "bound < (n + 1) * package_cost input"
  proof -
    have "n * package_cost input + bound mod package_cost input = bound"
      using \<open>n = bound div cost\<close> price(1) by simp
    moreover have "0 \<le> bound mod package_cost input" "bound mod package_cost input < package_cost input"
      using p(3) price(1) by simp_all
    ultimately show "n * package_cost input \<le> bound" "bound < (n + 1) * package_cost input"
      by (simp_all only: distrib_right mult_1)
  qed
  ultimately show thesis
    using that [OF a r s(1)] p(3) price(1) NewAllocationCandidate_Inr(2) [OF c(1)] c(2) legs ready
    by (simp add: bound_def)
qed

end
