(* ===== verification/Risk_Runner.thy ===== *)
theory Risk_Runner
  imports Risk_Store Risk_Rules Port_Engine
begin

text \<open>
  \<open>internal/risk/runner\<close>: from a proposal to a published decision. \<open>helpers.go\<close> builds the evaluation, the
  decision and the next checkpoint; \<open>runner.go\<close> loads the inputs, admits one decision per portfolio at a time,
  runs the allocator and the rules, and publishes. The sources of proposals, configurations, policies and
  instrument masters, the allocator and the rules are interfaces of the code, and arguments here.
\<close>

section \<open>Building the evaluation\<close>

definition buildEvaluation ::
  "(string \<Rightarrow> digest) \<Rightarrow> instant \<Rightarrow> trade_proposal \<Rightarrow> portfolio_snapshot \<Rightarrow> allocation_candidate \<Rightarrow> risk_policy \<Rightarrow>
     rule_result list \<Rightarrow> technical_error list \<Rightarrow> risk_evaluation result" where
  "buildEvaluation sha logical proposal snapshot candidate policy results technical =
     (let spec = \<lparr>rvl_schema = ''risk-evaluation/v2'', rvl_id = 0, rvl_proposal = tp_id proposal,
            rvl_candidate = ca_id candidate, rvl_snapshot = psn_id snapshot,
            rvl_revision = pss_revision (psn_spec snapshot), rvl_policy = rpo_id policy,
            rvl_policy_version = rpo_version policy, rvl_hash = rpo_hash policy, rvl_results = results,
            rvl_violations = [], rvl_technical = technical, rvl_started_at = logical, rvl_completed_at = logical\<rparr> in
      bind_r (DeriveRiskEvaluationID sha spec) (\<lambda>id.
        let violation_of = (\<lambda>r. bind_r (NewViolationReason (rrs_reason r)) (\<lambda>reason. NewRiskViolation sha
              \<lparr>rvs_schema = ''risk-violation/v2'', rvs_evaluation = id, rvs_rule = rrs_rule r,
               rvs_version = rrs_version r, rvs_reason = reason, rvs_severity = rrs_severity r,
               rvs_effect = rrs_effect r, rvs_evidence = rrs_evidence r, rvs_generated_at = logical,
               rvs_hash = rrs_hash r\<rparr>));
            violations = foldl (\<lambda>acc r. bind_r acc (\<lambda>vs.
                if rrs_status r \<noteq> RuleViolation \<and> rrs_status r \<noteq> RuleModificationRequired then Inr vs
                else bind_r (violation_of r) (\<lambda>v. Inr (vs @ [v])))) (Inr []) results in
        bind_r violations (\<lambda>vs. NewRiskEvaluation sha (spec\<lparr>rvl_id := id, rvl_violations := vs\<rparr>))))"

section \<open>Building the decision\<close>

text \<open>The leg loop of \<open>intersectAdjustment\<close>: a leg may only shrink.\<close>

fun intersect_legs ::
  "allocation_leg_bound list \<Rightarrow> allocation_leg_bound list \<Rightarrow> allocation_leg_bound list result" where
  "intersect_legs (left # ls) (right # rs) =
     (if lb_instrument left \<noteq> lb_instrument right \<or> lb_side left \<noteq> lb_side right \<or> lb_ratio left \<noteq> lb_ratio right \<or>
         lb_resolution left \<noteq> lb_resolution right \<or> lb_lot_size left \<noteq> lb_lot_size right \<or>
         lb_maximum_units right > lb_maximum_units left
      then Inl (RiskRunner ErrInvalidOutput)
      else bind_r (intersect_legs ls rs) (\<lambda>legs.
        Inr ((if lb_maximum_units right < lb_maximum_units left
              then left\<lparr>lb_maximum_units := lb_maximum_units right\<rparr> else left) # legs)))"
| "intersect_legs ls _ = Inr ls"

definition intersectAdjustment ::
  "approved_allocation_bounds option \<Rightarrow> rule_adjustment option \<Rightarrow> approved_allocation_bounds result" where
  "intersectAdjustment current adjustment =
     (case (current, adjustment) of
        (Some c, Some a) \<Rightarrow>
          if RuleAdjustment_Validate a \<noteq> Inr () \<or>
             money_currency (rja_capital a) \<noteq> money_currency (ab_maximum_capital c)
          then Inl (RiskRunner ErrInvalidOutput)
          else if length (rja_legs a) \<noteq> length (ab_leg_bounds c) then Inl (RiskRunner ErrInvalidOutput)
          else bind_r (intersect_legs (ab_leg_bounds c) (rja_legs a)) (\<lambda>legs.
            Inr (c\<lparr>ab_maximum_capital := (if minor (rja_capital a) < minor (ab_maximum_capital c)
                     then rja_capital a else ab_maximum_capital c),
                   ab_leg_bounds := legs,
                   ab_constraints := sort_key ac_code (ab_constraints c @ rja_constraints a),
                   ab_valid_until := (if rja_until a < ab_valid_until c then rja_until a else ab_valid_until c)\<rparr>))
      | _ \<Rightarrow> Inl (RiskRunner ErrInvalidOutput))"

type_synonym verdict = "decision_outcome \<times> string \<times> approved_allocation_bounds option"

text \<open>One turn of the loop over the results.\<close>

definition decide :: "verdict \<Rightarrow> rule_result \<Rightarrow> verdict result" where
  "decide v r =
     (let (outcome, primary, approved) = v in
      case rrs_status r of
        RuleError \<Rightarrow> Inr (DecisionDeferred, ''RISK_DATA_UNAVAILABLE'', None)
      | RuleDefer \<Rightarrow> Inr (DecisionDeferred, ''RISK_DATA_UNAVAILABLE'', None)
      | RuleViolation \<Rightarrow>
          if outcome \<noteq> DecisionDeferred then Inr (DecisionRejected, ''RISK_VIOLATION'', None) else Inr v
      | RuleModificationRequired \<Rightarrow>
          if outcome = DecisionApproved \<or> outcome = DecisionModified
          then bind_r (intersectAdjustment approved (rrs_adjustment r)) (\<lambda>b.
            Inr (DecisionModified, ''ALLOCATION_MODIFIED'', Some b))
          else Inr v
      | _ \<Rightarrow> Inr v)"

fun decide_all :: "verdict \<Rightarrow> rule_result list \<Rightarrow> verdict result" where
  "decide_all v [] = Inr v"
| "decide_all v (r # rs) = bind_r (decide v r) (\<lambda>v. decide_all v rs)"

definition candidate_bounds :: "allocation_candidate \<Rightarrow> approved_allocation_bounds" where
  "candidate_bounds candidate =
     \<lparr>ab_candidate = ca_id candidate, ab_maximum_capital = cs_capital (ca_spec candidate),
      ab_leg_bounds = cs_leg_bounds (ca_spec candidate), ab_constraints = [],
      ab_valid_until = cs_expires_at (ca_spec candidate)\<rparr>"

definition buildDecision ::
  "(string \<Rightarrow> digest) \<Rightarrow> instant \<Rightarrow> trade_proposal \<Rightarrow> portfolio_snapshot \<Rightarrow> digest \<Rightarrow> risk_policy \<Rightarrow>
     allocation_candidate \<Rightarrow> risk_evaluation \<Rightarrow> portfolio_risk_decision result" where
  "buildDecision sha logical proposal snapshot configuration policy candidate evaluation =
     bind_r (decide_all (DecisionApproved, ''ALL_RULES_PASSED'', Some (candidate_bounds candidate))
       (rvl_results (rva_spec evaluation))) (\<lambda>(outcome, primary, approved).
       NewPortfolioRiskDecision sha
         \<lparr>ds_schema = ''portfolio-risk-decision/v2'', ds_proposal = proposal,
          ds_portfolio = pss_portfolio (psn_spec snapshot), ds_snapshot = psn_id snapshot,
          ds_expected_revision = pss_revision (psn_spec snapshot), ds_candidate = candidate,
          ds_evaluation = evaluation, ds_outcome = outcome, ds_primary = primary, ds_secondary = [],
          ds_violations = rvl_violations (rva_spec evaluation), ds_sizing = pd_sizing (tp_draft proposal),
          ds_approved = approved, ds_configuration = configuration,
          ds_configuration_hash = pss_configuration_hash (psn_spec snapshot), ds_policy = rpo_id policy,
          ds_policy_version = rpo_version policy, ds_risk_hash = rpo_hash policy, ds_generated_at = logical,
          ds_expires_at = (case approved of
             Some b \<Rightarrow> if ab_valid_until b < cs_expires_at (ca_spec candidate) then ab_valid_until b
                       else cs_expires_at (ca_spec candidate)
           | None \<Rightarrow> cs_expires_at (ca_spec candidate)),
          ds_evidence = rva_checksum evaluation\<rparr>)"

section \<open>The next checkpoint\<close>

definition mergeExposures :: "exposure_record list \<Rightarrow> exposure_record list \<Rightarrow> exposure_record list" where
  "mergeExposures current projected =
     foldl (\<lambda>result update.
       case find (\<lambda>i. same_subject (result ! i) update) [0..<length result] of
         Some i \<Rightarrow> result[i := update]
       | None \<Rightarrow> result @ [update]) current projected"

text \<open>The loop over the strategy allocations; the flag says whether one had the identity.\<close>

fun reserve_allocation ::
  "digest \<Rightarrow> money \<Rightarrow> strategy_allocation list \<Rightarrow> (strategy_allocation list \<times> bool) result" where
  "reserve_allocation target amount [] = Inr ([], False)"
| "reserve_allocation target amount (a # as) =
     (if sa_id a \<noteq> target then bind_r (reserve_allocation target amount as) (\<lambda>(as, found). Inr (a # as, found))
      else case CheckedMoneySubtract (sa_remaining a) amount of
        Inl _ \<Rightarrow> Inl (RiskRunner ErrInvalidOutput)
      | Inr remaining \<Rightarrow>
          if minor remaining < 0 then Inl (RiskRunner ErrInvalidOutput)
          else bind_r (CheckedMoneyAdd (sa_reserved a) amount) (\<lambda>reserved.
            bind_r (NewStrategyAllocation (a\<lparr>sa_remaining := remaining, sa_reserved := reserved,
                sa_state := (if minor remaining = 0 then StrategyAllocationExhausted else sa_state a)\<rparr>)) (\<lambda>item.
              bind_r (reserve_allocation target amount as) (\<lambda>(as, _). Inr (item # as, True)))))"

definition controlEffectApplies :: "control_scope \<Rightarrow> string \<Rightarrow> portfolio_risk_decision \<Rightarrow> bool" where
  "controlEffectApplies scope subject decision =
     (let spec = prd_spec decision;
          projected = (\<lambda>dimension. list_ex (\<lambda>e. ex_dimension e = dimension \<and> ex_subject e = subject)
            (cs_projected (ca_spec (ds_candidate spec)))) in
      case scope of
        ScopeGlobal \<Rightarrow> True
      | ScopePortfolio \<Rightarrow> subject = digest_string (ds_portfolio spec)
      | ScopeStrategyDefinition \<Rightarrow> subject = pmd_definition (tp_metadata (ds_proposal spec))
      | ScopeStrategyInstance \<Rightarrow> subject = pmd_instance (tp_metadata (ds_proposal spec))
      | ScopeInstrument \<Rightarrow>
          list_ex (\<lambda>leg. subject = digest_string (prl_instrument leg)) (pd_legs (tp_draft (ds_proposal spec)))
      | ScopeUnderlying \<Rightarrow> projected ExposureUnderlying
      | ScopeExposureGroup \<Rightarrow> projected ExposureGroup
      | OtherScope _ \<Rightarrow> False)"

text \<open>The loop over the controls of one kind: those that apply are switched, and one must.\<close>

fun switch_controls :: "('c \<Rightarrow> bool) \<Rightarrow> ('c \<Rightarrow> 'c result) \<Rightarrow> 'c list \<Rightarrow> ('c list \<times> bool) result" where
  "switch_controls applies switch [] = Inr ([], False)"
| "switch_controls applies switch (c # cs) =
     (if \<not> applies c then bind_r (switch_controls applies switch cs) (\<lambda>(cs, updated). Inr (c # cs, updated))
      else case switch c of
        Inl _ \<Rightarrow> Inl (RiskRunner ErrInvalidOutput)
      | Inr c \<Rightarrow> bind_r (switch_controls applies switch cs) (\<lambda>(cs, _). Inr (c # cs, True)))"

definition switched :: "bool \<Rightarrow> ('c \<Rightarrow> bool) \<Rightarrow> ('c \<Rightarrow> 'c result) \<Rightarrow> 'c list \<Rightarrow> 'c list result" where
  "switched wanted applies switch controls =
     (if \<not> wanted then Inr controls
      else bind_r (switch_controls applies switch controls) (\<lambda>(cs, updated).
        if \<not> updated then Inl (RiskRunner ErrInvalidOutput) else Inr cs))"

definition applyControlEffects ::
  "(string \<Rightarrow> digest) \<Rightarrow> instant \<Rightarrow> portfolio_risk_decision \<Rightarrow> snapshot_spec \<Rightarrow> snapshot_spec result" where
  "applyControlEffects sha logical decision snapshot =
     (let evidence = or_zero (NewStateChecksum_port sha (prd_raw decision));
          violations = ds_violations (prd_spec decision);
          switching = filter (\<lambda>v. rvs_effect (rvi_spec v) \<in> {EffectActivateKillSwitch, EffectTripCircuitBreaker}) violations;
          reason = (case find (\<lambda>r. r \<noteq> []) (map (\<lambda>v. control_reason_or_empty (rvs_reason (rvi_spec v))) switching) of
            None \<Rightarrow> [] | Some r \<Rightarrow> r);
          kill = list_ex (\<lambda>v. rvs_effect (rvi_spec v) = EffectActivateKillSwitch) violations;
          trip = list_ex (\<lambda>v. rvs_effect (rvi_spec v) = EffectTripCircuitBreaker) violations in
      bind_r (switched kill
          (\<lambda>k. controlEffectApplies (ks_scope k) (ks_subject k) decision \<and> ks_state k \<noteq> KillSwitchDisabledByConfiguration)
          (\<lambda>k. NewKillSwitch (k\<lparr>ks_state := KillSwitchActive, ks_reason := reason, ks_evidence := evidence,
             ks_activated_at := logical, ks_expires_at := 0, ks_revision := wrap_u64 (ks_revision k + 1)\<rparr>))
          (pss_kill_switches snapshot)) (\<lambda>kill_switches.
      bind_r (switched trip
          (\<lambda>b. controlEffectApplies (cb_scope b) (cb_subject b) decision \<and> cb_state b \<noteq> CircuitBreakerDisabled)
          (\<lambda>b. NewCircuitBreaker (b\<lparr>cb_state := CircuitBreakerOpen, cb_reason := reason, cb_evidence := evidence,
             cb_changed_at := logical, cb_revision := wrap_u64 (cb_revision b + 1)\<rparr>))
          (pss_circuit_breakers snapshot)) (\<lambda>circuit_breakers.
        Inr (snapshot\<lparr>pss_kill_switches := kill_switches, pss_circuit_breakers := circuit_breakers\<rparr>))))"

text \<open>The part of \<open>nextCheckpoint\<close> that an approved allocation changes: the capital, the allocation, the exposures.\<close>

definition reserve_capital ::
  "snapshot_spec \<Rightarrow> allocation_candidate \<Rightarrow> money \<Rightarrow> snapshot_spec result" where
  "reserve_capital spec candidate amount =
     (case CheckedMoneySubtract (cap_available (pss_capital spec)) amount of
        Inl _ \<Rightarrow> Inl (RiskRunner ErrInvalidOutput)
      | Inr available \<Rightarrow>
          if minor available < 0 then Inl (RiskRunner ErrInvalidOutput)
          else bind_r (CheckedMoneyAdd (cap_reserved (pss_capital spec)) amount) (\<lambda>reserved.
            bind_r (NewCapitalState (cap_total (pss_capital spec)) available reserved (cap_deployed (pss_capital spec)))
              (\<lambda>capital.
            bind_r (reserve_allocation (cs_strategy_allocation (ca_spec candidate)) amount (pss_allocations spec))
              (\<lambda>(allocations, found).
                if \<not> found then Inl (RiskRunner ErrInvalidOutput)
                else Inr (spec\<lparr>pss_capital := capital, pss_allocations := allocations,
                  pss_exposures := mergeExposures (pss_exposures spec) (cs_projected (ca_spec candidate))\<rparr>)))))"

text \<open>Capital is reserved when the decision has approved bounds.\<close>

definition reserve_decision ::
  "(string \<Rightarrow> digest) \<Rightarrow> instant \<Rightarrow> allocation_candidate \<Rightarrow> portfolio_risk_decision \<Rightarrow> digest \<Rightarrow> snapshot_spec \<Rightarrow>
     (capital_reservation option \<times> snapshot_spec) result" where
  "reserve_decision sha logical candidate decision trigger spec =
     (case ds_approved (prd_spec decision) of
        None \<Rightarrow> Inr (None, spec)
      | Some bounds \<Rightarrow>
          bind_r (reserve_capital spec candidate (ab_maximum_capital bounds)) (\<lambda>spec.
            bind_r (NewCapitalReservation
              \<lparr>crs_schema = ''capital-reservation/v1'',
               crs_id = or_zero (NewCapitalReservationID sha [digest_string trigger, digest_string (prd_id decision),
                 digest_string (ca_id candidate), dec_int (int (pss_revision spec))]),
               crs_portfolio = pss_portfolio spec, crs_revision = pss_revision spec, crs_candidate = ca_id candidate,
               crs_strategy_allocation = cs_strategy_allocation (ca_spec candidate),
               crs_amount = ab_maximum_capital bounds, crs_created_at = logical,
               crs_expires_at = ab_valid_until bounds\<rparr>) (\<lambda>reservation. Inr (Some reservation, spec))))"

definition nextCheckpoint ::
  "(string \<Rightarrow> digest) \<Rightarrow> instant \<Rightarrow> portfolio_checkpoint \<Rightarrow> allocation_candidate \<Rightarrow> portfolio_risk_decision \<Rightarrow> digest \<Rightarrow>
     (capital_reservation option \<times> portfolio_checkpoint) result" where
  "nextCheckpoint sha logical current candidate decision trigger =
     (let spec = (psn_spec (pck_snapshot current))\<lparr>pss_revision := wrap_u64 (pck_revision current + 1),
            pss_generated_at := logical, pss_as_of := logical\<rparr> in
      bind_r (reserve_decision sha logical candidate decision trigger spec) (\<lambda>(reservation, spec).
        bind_r (applyControlEffects sha logical decision spec) (\<lambda>spec.
          let source = or_zero (NewStateChecksum_port sha (join ''|''
                [digest_string (psn_id (pck_snapshot current)), digest_string (pck_checksum current),
                 digest_string (prd_id decision)])) in
          bind_r (NewPortfolioSnapshot sha (spec\<lparr>pss_source_checksum := source\<rparr>)) (\<lambda>snapshot.
            bind_r (NewPortfolioCheckpoint sha
              \<lparr>pck_snapshot = snapshot, pck_snapshot_checksum = 0,
               pck_parent_snapshot = psn_id (pck_snapshot current), pck_parent_checksum = pck_checksum current,
               pck_trigger = trigger, pck_proposal = tp_id (ds_proposal (prd_spec decision)),
               pck_decision = prd_id decision,
               pck_reservation = (case reservation of None \<Rightarrow> 0 | Some r \<Rightarrow> crs_id (cr_spec r)),
               pck_checksum = 0, pck_raw = []\<rparr>) (\<lambda>c. Inr (reservation, c))))))"

section \<open>What the results decide\<close>

lemma decide_outcome:
  assumes "decide (outcome, primary, approved) r = Inr (outcome', primary', approved')"
  shows "outcome' = (if rrs_status r \<in> {RuleError, RuleDefer} then DecisionDeferred
     else if rrs_status r = RuleViolation \<and> outcome \<noteq> DecisionDeferred then DecisionRejected
     else if rrs_status r = RuleModificationRequired \<and> outcome \<in> {DecisionApproved, DecisionModified} then DecisionModified
     else outcome)"
  using assms by (cases "rrs_status r") (auto simp: decide_def bind_r_def split: if_splits sum.splits)

definition verdict_of :: "decision_outcome \<Rightarrow> rule_result_status set \<Rightarrow> decision_outcome" where
  "verdict_of outcome statuses =
     (if outcome = DecisionDeferred \<or> RuleError \<in> statuses \<or> RuleDefer \<in> statuses then DecisionDeferred
      else if outcome = DecisionRejected \<or> RuleViolation \<in> statuses then DecisionRejected
      else if outcome = DecisionModified \<or> RuleModificationRequired \<in> statuses then DecisionModified
      else DecisionApproved)"

lemma verdict_of_step:
  assumes "outcome' = (if status \<in> {RuleError, RuleDefer} then DecisionDeferred
     else if status = RuleViolation \<and> outcome \<noteq> DecisionDeferred then DecisionRejected
     else if status = RuleModificationRequired \<and> outcome \<in> {DecisionApproved, DecisionModified} then DecisionModified
     else outcome)"
    "outcome = DecisionApproved \<or> outcome = DecisionModified \<or> outcome = DecisionRejected \<or> outcome = DecisionDeferred"
  shows "verdict_of outcome' S = verdict_of outcome (insert status S)"
  using assms(2) unfolding assms(1)
  by (elim disjE; cases status) (simp_all add: verdict_of_def)

lemma decide_all_outcome:
  assumes "decide_all (outcome, primary, approved) rs = Inr (outcome', primary', approved')"
    "outcome \<in> {DecisionApproved, DecisionModified, DecisionRejected, DecisionDeferred}"
  shows "outcome' = verdict_of outcome (rrs_status ` set rs)"
  using assms
proof (induction rs arbitrary: outcome primary approved)
  case (Cons r rs)
  then obtain o1 p1 a1 where h: "decide (outcome, primary, approved) r = Inr (o1, p1, a1)"
    "decide_all (o1, p1, a1) rs = Inr (outcome', primary', approved')"
    by (auto simp: bind_r_def split: sum.splits)
  note o1 = decide_outcome [OF h(1)]
  then have "o1 \<in> {DecisionApproved, DecisionModified, DecisionRejected, DecisionDeferred}"
    using Cons.prems(2) by auto
  from Cons.IH [OF h(2) this] verdict_of_step [OF o1] Cons.prems(2) show ?case by simp
qed (auto simp: verdict_of_def)

lemma intersect_legs_Inr:
  assumes "intersect_legs ls rs = Inr legs" "length rs = length ls"
  shows "list_all2 leg_within_candidate legs ls \<and> list_all2 (\<lambda>l r. lb_maximum_units l = lb_maximum_units r) legs rs"
  using assms
proof (induction ls rs arbitrary: legs rule: intersect_legs.induct)
  case (1 left ls right rs)
  then obtain ms where h: "intersect_legs ls rs = Inr ms" "lb_maximum_units right \<le> lb_maximum_units left"
    "legs = (if lb_maximum_units right < lb_maximum_units left
       then left\<lparr>lb_maximum_units := lb_maximum_units right\<rparr> else left) # ms"
    by (auto simp: not_less)
  have "list_all2 leg_within_candidate ms ls \<and> list_all2 (\<lambda>l r. lb_maximum_units l = lb_maximum_units r) ms rs"
    using 1 h(1) by auto
  moreover have "leg_within_candidate (hd legs) left" "lb_maximum_units (hd legs) = lb_maximum_units right"
    using h(2,3) by (auto simp: leg_within_candidate_def)
  ultimately show ?case using h(3) by auto
qed auto

text \<open>A second reduction must be at least as strict as the first in every leg, or there is no decision.\<close>

lemma intersect_looser:
  assumes "lb_instrument left = lb_instrument right" "lb_maximum_units left < lb_maximum_units right"
  shows "intersect_legs (left # ls) (right # rs) = Inl (RiskRunner ErrInvalidOutput)"
  using assms by simp

section \<open>Capital is conserved\<close>

lemma CheckedMoneySubtract_Inr:
  assumes "CheckedMoneySubtract a b = Inr c" "in_i64 (minor a)" "in_i64 (minor b)"
  shows "minor c = minor a - minor b" "money_currency c = money_currency a"
proof -
  from assms(1) obtain m where m: "minor b \<noteq> min_i64" "NewMoney (wrap64 (- minor b)) (money_currency b) = Inr m"
    "Money_Add a m = Inr c"
    by (auto simp: CheckedMoneySubtract_def bind_r_def split: if_splits sum.splits)
  have neg: "in_i64 (- minor b)" using m(1) assms(3) by (auto simp: i64_defs)
  then have "minor m = - minor b" using m(2) by (auto simp: NewMoney_def bind_r_def split: sum.splits)
  moreover have "minor c = wrap64 (minor a + minor m)" "money_currency c = money_currency a"
    "0 < minor m \<longrightarrow> minor a + minor m \<le> max_i64" "minor m < 0 \<longrightarrow> min_i64 \<le> minor a + minor m"
    using Money_Add_value [OF m(3)] by auto
  ultimately have "in_i64 (minor a - minor b)"
    using assms(2) by (cases "minor b = 0"; cases "minor b < 0") (auto simp: i64_defs)
  with \<open>minor m = - minor b\<close> \<open>minor c = wrap64 (minor a + minor m)\<close> show "minor c = minor a - minor b" by simp
  show "money_currency c = money_currency a" by (rule \<open>money_currency c = money_currency a\<close>)
qed

definition moved :: "int \<Rightarrow> capital_state \<Rightarrow> capital_state \<Rightarrow> bool" where
  "moved amount c c' \<longleftrightarrow>
     minor (cap_total c') = minor (cap_total c) \<and> minor (cap_deployed c') = minor (cap_deployed c) \<and>
     minor (cap_available c') = minor (cap_available c) - amount \<and>
     minor (cap_reserved c') = minor (cap_reserved c) + amount"

lemma reserve_capital_Inr:
  assumes "reserve_capital spec candidate amount = Inr spec'" "capital_split (pss_capital spec)"
    "minor (cap_total (pss_capital spec)) \<le> max_i64" "0 \<le> minor amount" "minor amount \<le> max_i64"
  shows "moved (minor amount) (pss_capital spec) (pss_capital spec')" "minor amount \<le> minor (cap_available (pss_capital spec))"
    "pss_exposures spec' = mergeExposures (pss_exposures spec) (cs_projected (ca_spec candidate))"
    "\<exists>as. reserve_allocation (cs_strategy_allocation (ca_spec candidate)) amount (pss_allocations spec) = Inr (as, True) \<and>
       pss_allocations spec' = as"
proof -
  let ?c = "pss_capital spec"
  from assms(1) obtain available reserved capital as where h:
    "CheckedMoneySubtract (cap_available ?c) amount = Inr available" "\<not> minor available < 0"
    "CheckedMoneyAdd (cap_reserved ?c) amount = Inr reserved"
    "NewCapitalState (cap_total ?c) available reserved (cap_deployed ?c) = Inr capital"
    "reserve_allocation (cs_strategy_allocation (ca_spec candidate)) amount (pss_allocations spec) = Inr (as, True)"
    "spec' = spec\<lparr>pss_capital := capital, pss_allocations := as,
       pss_exposures := mergeExposures (pss_exposures spec) (cs_projected (ca_spec candidate))\<rparr>"
    by (auto simp: reserve_capital_def bind_r_def split: sum.splits if_splits)
  have range: "in_i64 (minor (cap_available ?c))" "0 \<le> minor (cap_reserved ?c)" "minor (cap_reserved ?c) \<le> max_i64"
    "0 \<le> minor (cap_available ?c)" "minor (cap_available ?c) \<le> max_i64"
    using assms(2,3) by (auto simp: capital_split_def i64_defs)
  have "in_i64 (minor amount)" using assms(4,5) by (simp add: in_i64_def min_i64_def)
  then have av: "minor available = minor (cap_available ?c) - minor amount"
    using CheckedMoneySubtract_Inr [OF h(1) range(1)] by simp
  have rs: "minor reserved = minor (cap_reserved ?c) + minor amount"
    using Money_Add_nonneg(1) [OF h(3) [unfolded CheckedMoneyAdd_def] range(2) assms(4) range(3)] .
  have "minor available \<le> max_i64" using av range(5) assms(4) by simp
  then have "capital = \<lparr>cap_total = cap_total ?c, cap_available = available, cap_reserved = reserved,
      cap_deployed = cap_deployed ?c\<rparr>"
    using NewCapitalState_Inr(2) [OF h(4)] by simp
  then show "moved (minor amount) ?c (pss_capital spec')" using h(6) av rs by (simp add: moved_def)
  show "minor amount \<le> minor (cap_available ?c)" using av h(2) by simp
  show "pss_exposures spec' = mergeExposures (pss_exposures spec) (cs_projected (ca_spec candidate))" using h(6) by simp
  show "\<exists>as. reserve_allocation (cs_strategy_allocation (ca_spec candidate)) amount (pss_allocations spec) = Inr (as, True) \<and>
       pss_allocations spec' = as"
    using h(5,6) by simp
qed

lemma applyControlEffects_same:
  assumes "applyControlEffects sha logical decision spec = Inr spec'"
  shows "pss_capital spec' = pss_capital spec" "pss_allocations spec' = pss_allocations spec"
    "pss_exposures spec' = pss_exposures spec" "pss_portfolio spec' = pss_portfolio spec"
    "pss_revision spec' = pss_revision spec"
  using assms by (auto simp: applyControlEffects_def Let_def bind_r_def split: sum.splits)

lemma reserve_capital_same:
  assumes "reserve_capital spec candidate amount = Inr spec'"
  shows "pss_portfolio spec' = pss_portfolio spec" "pss_revision spec' = pss_revision spec"
    "pss_kill_switches spec' = pss_kill_switches spec"
  using assms by (auto simp: reserve_capital_def bind_r_def split: sum.splits if_splits)

lemma bind_r_pair:
  "bind_r m (\<lambda>(a, b). f a b) = Inr y \<longleftrightarrow> (\<exists>a b. m = Inr (a, b) \<and> f a b = Inr y)"
  by (cases m) (auto split: prod.splits)

lemma reserve_decision_Inr:
  assumes "reserve_decision sha logical candidate decision trigger spec = Inr (reservation, spec')"
  shows "case ds_approved (prd_spec decision) of
       None \<Rightarrow> spec' = spec \<and> reservation = None
     | Some b \<Rightarrow> reserve_capital spec candidate (ab_maximum_capital b) = Inr spec' \<and>
         (\<exists>r. reservation = Some r \<and> crs_amount (cr_spec r) = ab_maximum_capital b \<and>
            crs_expires_at (cr_spec r) = ab_valid_until b)"
  using assms
  by (auto simp: reserve_decision_def NewCapitalReservation_def Let_def split: option.splits if_splits)

text \<open>The steps of \<open>nextCheckpoint\<close>.\<close>

lemma nextCheckpoint_Inr:
  assumes "nextCheckpoint sha logical current candidate decision trigger = Inr (reservation, c)"
  obtains spec0 spec1 spec2 source where
    "spec0 = (psn_spec (pck_snapshot current))\<lparr>pss_revision := wrap_u64 (pck_revision current + 1),
       pss_generated_at := logical, pss_as_of := logical\<rparr>"
    "reserve_decision sha logical candidate decision trigger spec0 = Inr (reservation, spec1)"
    "applyControlEffects sha logical decision spec1 = Inr spec2"
    "NewPortfolioSnapshot sha (spec2\<lparr>pss_source_checksum := source\<rparr>) = Inr (pck_snapshot c)"
    "pck_parent_checksum c = pck_checksum current" "pck_parent_snapshot c = psn_id (pck_snapshot current)"
    "pck_trigger c = trigger" "pck_decision c = prd_id decision"
proof -
  define spec0 where "spec0 = (psn_spec (pck_snapshot current))\<lparr>pss_revision := wrap_u64 (pck_revision current + 1),
       pss_generated_at := logical, pss_as_of := logical\<rparr>"
  define source where "source = or_zero (NewStateChecksum_port sha (join ''|''
                [digest_string (psn_id (pck_snapshot current)), digest_string (pck_checksum current),
                 digest_string (prd_id decision)]))"
  from assms obtain spec1 spec2 snapshot where h:
    "reserve_decision sha logical candidate decision trigger spec0 = Inr (reservation, spec1)"
    "applyControlEffects sha logical decision spec1 = Inr spec2"
    "NewPortfolioSnapshot sha (spec2\<lparr>pss_source_checksum := source\<rparr>) = Inr snapshot"
    "NewPortfolioCheckpoint sha
              \<lparr>pck_snapshot = snapshot, pck_snapshot_checksum = 0,
               pck_parent_snapshot = psn_id (pck_snapshot current), pck_parent_checksum = pck_checksum current,
               pck_trigger = trigger, pck_proposal = tp_id (ds_proposal (prd_spec decision)),
               pck_decision = prd_id decision,
               pck_reservation = (case reservation of None \<Rightarrow> 0 | Some r \<Rightarrow> crs_id (cr_spec r)),
               pck_checksum = 0, pck_raw = []\<rparr> = Inr c"
    unfolding nextCheckpoint_def Let_def spec0_def [symmetric] source_def [symmetric] bind_r_pair
    by (simp only: bind_r_Inr sum.inject prod.inject) blast
  have "pck_snapshot c = snapshot" "pck_parent_checksum c = pck_checksum current"
    "pck_parent_snapshot c = psn_id (pck_snapshot current)" "pck_trigger c = trigger" "pck_decision c = prd_id decision"
    using h(4) by (auto simp: NewPortfolioCheckpoint_def Let_def split: if_splits)
  with h(3) show thesis by (intro that [OF spec0_def h(1,2)]) auto
qed

lemma nextCheckpoint_capital:
  assumes "nextCheckpoint sha logical current candidate decision trigger = Inr (reservation, c)"
    "capital_split (pss_capital (psn_spec (pck_snapshot current)))"
    "minor (cap_total (pss_capital (psn_spec (pck_snapshot current)))) \<le> max_i64"
    "\<forall>b. ds_approved (prd_spec decision) = Some b \<longrightarrow> 0 \<le> minor (ab_maximum_capital b) \<and> minor (ab_maximum_capital b) \<le> max_i64"
  shows "moved (case ds_approved (prd_spec decision) of None \<Rightarrow> 0 | Some b \<Rightarrow> minor (ab_maximum_capital b))
     (pss_capital (psn_spec (pck_snapshot current))) (pss_capital (psn_spec (pck_snapshot c)))"
proof -
  from assms(1) obtain spec0 spec1 spec2 source where h:
    "spec0 = (psn_spec (pck_snapshot current))\<lparr>pss_revision := wrap_u64 (pck_revision current + 1),
       pss_generated_at := logical, pss_as_of := logical\<rparr>"
    "reserve_decision sha logical candidate decision trigger spec0 = Inr (reservation, spec1)"
    "applyControlEffects sha logical decision spec1 = Inr spec2"
    "NewPortfolioSnapshot sha (spec2\<lparr>pss_source_checksum := source\<rparr>) = Inr (pck_snapshot c)"
    by (rule nextCheckpoint_Inr)
  have cap: "pss_capital (psn_spec (pck_snapshot c)) = pss_capital spec1"
    using NewPortfolioSnapshot_Inr(1) [OF h(4)] applyControlEffects_same(1) [OF h(3)] by simp
  show ?thesis
  proof (cases "ds_approved (prd_spec decision)")
    case None
    with reserve_decision_Inr [OF h(2)] h(1) cap show ?thesis by (simp add: moved_def)
  next
    case (Some b)
    with reserve_decision_Inr [OF h(2)] have r: "reserve_capital spec0 candidate (ab_maximum_capital b) = Inr spec1" by simp
    have "moved (minor (ab_maximum_capital b)) (pss_capital spec0) (pss_capital spec1)"
      by (rule reserve_capital_Inr(1) [OF r]) (use h(1) assms(2-4) Some in auto)
    then show ?thesis using Some cap h(1) by simp
  qed
qed

section \<open>An activated kill switch blocks\<close>

definition switched_to :: "('c \<Rightarrow> bool) \<Rightarrow> ('c \<Rightarrow> 'c result) \<Rightarrow> 'c \<Rightarrow> 'c \<Rightarrow> bool" where
  "switched_to applies switch c d \<longleftrightarrow> (if applies c then switch c = Inr d else d = c)"

lemma switch_controls_Inr:
  assumes "switch_controls applies switch cs = Inr (ds, u)"
  shows "list_all2 (switched_to applies switch) cs ds"
  using assms
proof (induction cs arbitrary: ds u)
  case (Cons c cs)
  show ?case
  proof (cases "applies c")
    case True
    with Cons.prems obtain d es v where "switch c = Inr d" "switch_controls applies switch cs = Inr (es, v)" "ds = d # es"
      by (auto split: sum.splits)
    with Cons.IH True show ?thesis by (simp add: switched_to_def)
  next
    case False
    with Cons.prems obtain es v where "switch_controls applies switch cs = Inr (es, v)" "ds = c # es" by auto
    with Cons.IH False show ?thesis by (simp add: switched_to_def)
  qed
qed simp

lemma activated:
  assumes "NewKillSwitch (k\<lparr>ks_state := KillSwitchActive, ks_reason := reason, ks_evidence := evidence,
    ks_activated_at := logical, ks_expires_at := 0, ks_revision := n\<rparr>) = Inr k'"
  shows "KillSwitch_Blocks k'" "ks_scope k' = ks_scope k" "ks_subject k' = trim_space (ks_subject k)"
  using assms by (auto simp: NewKillSwitch_def Let_def KillSwitch_Blocks_def split: if_splits)

lemma applyControlEffects_kill:
  assumes "applyControlEffects sha logical decision spec = Inr spec'"
    "v \<in> set (ds_violations (prd_spec decision))" "rvs_effect (rvi_spec v) = EffectActivateKillSwitch"
    "k \<in> set (pss_kill_switches spec)" "controlEffectApplies (ks_scope k) (ks_subject k) decision"
    "ks_state k \<noteq> KillSwitchDisabledByConfiguration"
  shows "\<exists>k' \<in> set (pss_kill_switches spec'). KillSwitch_Blocks k' \<and> ks_scope k' = ks_scope k \<and>
     ks_subject k' = trim_space (ks_subject k)"
proof -
  let ?applies = "\<lambda>k. controlEffectApplies (ks_scope k) (ks_subject k) decision \<and> ks_state k \<noteq> KillSwitchDisabledByConfiguration"
  from assms(2,3) have kill: "list_ex (\<lambda>v. rvs_effect (rvi_spec v) = EffectActivateKillSwitch) (ds_violations (prd_spec decision))"
    by (auto simp: list_ex_iff)
  from assms(1) obtain reason evidence u where
    "switch_controls ?applies
       (\<lambda>k. NewKillSwitch (k\<lparr>ks_state := KillSwitchActive, ks_reason := reason, ks_evidence := evidence,
             ks_activated_at := logical, ks_expires_at := 0, ks_revision := wrap_u64 (ks_revision k + 1)\<rparr>))
       (pss_kill_switches spec) = Inr (pss_kill_switches spec', u)"
    unfolding applyControlEffects_def Let_def switched_def by (auto simp: kill bind_r_pair)
  from list_all2_in_left [OF switch_controls_Inr [OF this] assms(4)] obtain k' where
    "k' \<in> set (pss_kill_switches spec')" "NewKillSwitch (k\<lparr>ks_state := KillSwitchActive, ks_reason := reason,
       ks_evidence := evidence, ks_activated_at := logical, ks_expires_at := 0, ks_revision := wrap_u64 (ks_revision k + 1)\<rparr>) = Inr k'"
    using assms(5,6) by (auto simp: switched_to_def)
  with activated show ?thesis by blast
qed

text \<open>A kill switch that reaches the portfolio: every proposal on the next snapshot is stopped by its rule.\<close>

definition portfolio_wide :: "digest \<Rightarrow> kill_switch \<Rightarrow> bool" where
  "portfolio_wide portfolio k \<longleftrightarrow> ks_state k \<noteq> KillSwitchDisabledByConfiguration \<and>
     (ks_scope k = ScopeGlobal \<or> ks_scope k = ScopePortfolio \<and> ks_subject k = digest_string portfolio)"

lemma activated_kill_switch_blocks:
  assumes "nextCheckpoint sha logical current candidate decision trigger = Inr (reservation, c)"
    "v \<in> set (ds_violations (prd_spec decision))" "rvs_effect (rvi_spec v) = EffectActivateKillSwitch"
    "k \<in> set (pss_kill_switches (psn_spec (pck_snapshot current)))" "portfolio_wide (pck_portfolio current) k"
    "ds_portfolio (prd_spec decision) = pck_portfolio current" "rri_snapshot input = pck_snapshot c"
  shows "rrs_status (killSwitch rule input) \<noteq> RulePass"
proof -
  from assms(1) obtain spec0 spec1 spec2 source where h:
    "spec0 = (psn_spec (pck_snapshot current))\<lparr>pss_revision := wrap_u64 (pck_revision current + 1),
       pss_generated_at := logical, pss_as_of := logical\<rparr>"
    "reserve_decision sha logical candidate decision trigger spec0 = Inr (reservation, spec1)"
    "applyControlEffects sha logical decision spec1 = Inr spec2"
    "NewPortfolioSnapshot sha (spec2\<lparr>pss_source_checksum := source\<rparr>) = Inr (pck_snapshot c)"
    by (rule nextCheckpoint_Inr)
  have "pss_kill_switches spec1 = pss_kill_switches spec0 \<and> pss_portfolio spec1 = pss_portfolio spec0"
    using reserve_decision_Inr [OF h(2)] reserve_capital_same by (cases "ds_approved (prd_spec decision)") auto
  then have s1: "k \<in> set (pss_kill_switches spec1)" "pss_portfolio spec1 = pck_portfolio current" using assms(4) h(1) by simp_all
  have "controlEffectApplies (ks_scope k) (ks_subject k) decision" "ks_state k \<noteq> KillSwitchDisabledByConfiguration"
    using assms(5,6) by (auto simp: portfolio_wide_def controlEffectApplies_def Let_def)
  from applyControlEffects_kill [OF h(3) assms(2,3) s1(1) this] obtain k' where
    k': "k' \<in> set (pss_kill_switches spec2)" "KillSwitch_Blocks k'" "ks_scope k' = ks_scope k" "ks_subject k' = trim_space (ks_subject k)"
    by blast
  have "k' \<in> set (pss_kill_switches (input_snapshot input))"
    using k'(1) NewPortfolioSnapshot_Inr(7) [OF h(4)] assms(7) by (simp add: input_snapshot_def)
  moreover have "pss_portfolio (input_snapshot input) = pck_portfolio current"
    using NewPortfolioSnapshot_Inr(2) [OF h(4)] applyControlEffects_same(4) [OF h(3)] s1(2) assms(7)
    by (simp add: input_snapshot_def)
  then have "controlApplies (ks_scope k') (ks_subject k') input"
    using k'(3,4) assms(5) by (auto simp: controlApplies_def Let_def portfolio_wide_def portfolio_subject_def)
  ultimately show ?thesis using k'(2) control_rule_pass unfolding killSwitch_def by metis
qed

end
