(* ===== verification/Risk_Run.thy ===== *)
theory Risk_Run
  imports Risk_Runner
begin

text \<open>
  \<open>internal/risk/runner/runner.go\<close> and \<open>internal/risk/replay\<close>: one call of \<open>EvaluateProposal\<close> against the
  store, with the guard that admits one decision per portfolio at a time, and the replay of a list of requests.
  What the call observes of contexts, deadlines and the concurrency limit is the argument \<open>env\<close>.
\<close>

section \<open>Requests, receipts, dependencies\<close>

datatype runner_outcome =
    NoOutcome | OutcomeApproved | OutcomeModified | OutcomeRejected | OutcomeDeferred | OutcomeDuplicateCommitted
  | OutcomeDuplicateInProgress | OutcomePortfolioBusy | OutcomeRevisionConflict | OutcomeAllocationFailure
  | OutcomeRuleFailure | OutcomeInvalidOutput | OutcomeTimedOut | OutcomeCancelled | OutcomePanic
  | OutcomePublicationFailure | OutcomeShutdown

record runner_request =
  prq_portfolio :: digest
  prq_proposal :: digest
  prq_revision :: nat
  prq_policy :: digest
  prq_master :: string
  prq_time :: instant

record runner_receipt =
  prr_outcome :: runner_outcome
  prr_trigger :: digest
  prr_proposal :: digest
  prr_portfolio :: digest
  prr_expected :: nat
  prr_committed :: nat
  prr_decision :: digest
  prr_snapshot :: digest
  prr_reservation :: digest
  prr_checksum :: digest

text \<open>Of a portfolio configuration, its identity and its hash.\<close>

record runner_deps =
  rdp_proposal :: "digest \<Rightarrow> trade_proposal result"
  rdp_configuration :: "digest \<Rightarrow> (digest \<times> digest) result"
  rdp_allocation_policy :: "digest \<Rightarrow> allocation_policy result"
  rdp_policy :: "digest \<Rightarrow> risk_policy result"
  rdp_master :: "string \<Rightarrow> instrument_master result"
  rdp_allocate :: "allocation_input \<Rightarrow> allocation_candidate result"
  rdp_rules :: registry
  rdp_rule :: "bool \<Rightarrow> rule_descriptor \<Rightarrow> rule_input \<Rightarrow> rule_result result"

record runner_state =
  rns_running :: "(digest, digest) gomap"
  rns_closed :: bool

datatype deadline = DeadlineExceeded | CallerCancelled

record runner_env =
  ren_entry :: bool
  ren_checkpoint :: bool
  ren_conflict :: bool
  ren_committed :: bool
  ren_current :: bool
  ren_select :: select_outcome
  ren_allocated :: "deadline option"
  ren_rule :: "nat \<Rightarrow> bool"
  ren_ruled :: "nat \<Rightarrow> deadline option"
  ren_built :: "deadline option"
  ren_publish :: ctx
  ren_published :: "deadline option"

definition start_receipt :: "runner_request \<Rightarrow> runner_receipt" where
  "start_receipt request =
     \<lparr>prr_outcome = NoOutcome, prr_trigger = 0, prr_proposal = prq_proposal request,
      prr_portfolio = prq_portfolio request, prr_expected = prq_revision request, prr_committed = 0,
      prr_decision = 0, prr_snapshot = 0, prr_reservation = 0, prr_checksum = 0\<rparr>"

record runner_config =
  rcf_max_concurrency :: int
  rcf_timeout :: int

definition DefaultConfig_risk :: runner_config where
  "DefaultConfig_risk = \<lparr>rcf_max_concurrency = 4, rcf_timeout = 100000000\<rparr>"

definition NewRunner :: "runner_config \<Rightarrow> runner_state result" where
  "NewRunner config =
     (if rcf_max_concurrency config \<le> 0 \<or> rcf_max_concurrency config > 64 \<or> rcf_timeout config \<le> 0 \<or>
         rcf_timeout config > 60000000000
      then Inl (RiskRunner ErrInvalidOutput)
      else Inr \<lparr>rns_running = [], rns_closed = False\<rparr>)"

section \<open>The guard\<close>

definition reserve_portfolio :: "digest \<Rightarrow> digest \<Rightarrow> runner_state \<Rightarrow> runner_state \<times> runner_outcome" where
  "reserve_portfolio portfolio trigger runner =
     (if rns_closed runner then (runner, OutcomeShutdown)
      else case map_of (rns_running runner) portfolio of
        Some running \<Rightarrow> (runner, if running = trigger then OutcomeDuplicateInProgress else OutcomePortfolioBusy)
      | None \<Rightarrow> (runner\<lparr>rns_running := put portfolio trigger (rns_running runner)\<rparr>, NoOutcome))"

definition release_portfolio :: "digest \<Rightarrow> runner_state \<Rightarrow> runner_state" where
  "release_portfolio portfolio runner = runner\<lparr>rns_running := filter (\<lambda>e. fst e \<noteq> portfolio) (rns_running runner)\<rparr>"

text \<open>Every guarded portfolio is a running call; None while the caller still waits for them.\<close>

definition Shutdown_risk :: "bool \<Rightarrow> runner_state \<Rightarrow> runner_state \<times> unit result option" where
  "Shutdown_risk ctx_done runner =
     (runner\<lparr>rns_closed := True\<rparr>,
      if rns_running runner = [] then Some (Inr ()) else if ctx_done then Some (Inl ContextDone) else None)"

section \<open>Loading\<close>

text \<open>A step that fails ends the call with a receipt and an error.\<close>

type_synonym 'a attempt = "(runner_receipt \<times> error) + 'a"

definition attempt :: "runner_receipt \<Rightarrow> 'a result \<Rightarrow> ('a \<Rightarrow> 'b attempt) \<Rightarrow> 'b attempt" where
  "attempt receipt m f = (case m of Inl e \<Rightarrow> Inl (receipt, e) | Inr x \<Rightarrow> f x)"

record loaded =
  ld_proposal :: trade_proposal
  ld_checkpoint :: portfolio_checkpoint
  ld_configuration :: digest
  ld_allocation_policy :: allocation_policy
  ld_policy :: risk_policy
  ld_master :: instrument_master
  ld_trigger :: digest

definition conflict_error :: "runner_request \<Rightarrow> portfolio_checkpoint option \<Rightarrow> error" where
  "conflict_error request current = RiskStorage (PortfolioRevisionConflictError (prq_portfolio request)
     (prq_revision request) (case current of None \<Rightarrow> 0 | Some c \<Rightarrow> pck_revision c))"

definition trigger_parts ::
  "runner_request \<Rightarrow> trade_proposal \<Rightarrow> portfolio_checkpoint \<Rightarrow> digest \<Rightarrow> allocation_policy \<Rightarrow> risk_policy \<Rightarrow>
     instrument_master \<Rightarrow> string list" where
  "trigger_parts request proposal checkpoint configuration_hash allocation_policy policy master =
     [''portfolio-risk-runner/v1'', digest_string (tp_id proposal), digest_string (psn_id (pck_snapshot checkpoint)),
      dec_int (int (pck_revision checkpoint)), digest_string configuration_hash,
      digest_string (apl_hash allocation_policy), digest_string (rpo_id policy), digest_string (rpo_hash policy),
      im_version master, rfc3339_nano (prq_time request)]"

definition load_inputs ::
  "(string \<Rightarrow> digest) \<Rightarrow> runner_deps \<Rightarrow> runner_env \<Rightarrow> runner_request \<Rightarrow> risk_store \<Rightarrow> loaded attempt" where
  "load_inputs sha deps env request store =
     (let receipt = start_receipt request; invalid = RiskRunner ErrInvalidOutput in
      if ren_entry env then Inl (receipt\<lparr>prr_outcome := OutcomeCancelled\<rparr>, ContextDone)
      else if prq_portfolio request = 0 \<or> prq_proposal request = 0 \<or> prq_revision request = 0 \<or>
              prq_policy request = 0 \<or> prq_master request = [] \<or> prq_time request = 0
      then Inl (receipt, invalid)
      else attempt receipt (rdp_proposal deps (prq_proposal request)) (\<lambda>proposal.
        if tp_id proposal \<noteq> prq_proposal request then Inl (receipt, invalid)
        else case PortfolioCheckpoint (ren_checkpoint env) (prq_portfolio request) (prq_revision request) store of
          Inl e \<Rightarrow>
            (case CurrentPortfolioCheckpoint (ren_conflict env) (prq_portfolio request) store of
               Inr current \<Rightarrow> Inl (receipt\<lparr>prr_outcome := OutcomeRevisionConflict\<rparr>, conflict_error request current)
             | Inl _ \<Rightarrow> Inl (receipt, e))
        | Inr checkpoint \<Rightarrow>
            let spec = psn_spec (pck_snapshot checkpoint) in
            attempt receipt (rdp_configuration deps (pss_configuration spec)) (\<lambda>(configuration, configuration_hash).
              if configuration_hash \<noteq> pss_configuration_hash spec then Inl (receipt, invalid)
              else
                let allocation = (case find (\<lambda>a. sa_instance a = pmd_instance (tp_metadata proposal)) (pss_allocations spec) of
                       None \<Rightarrow> 0 | Some a \<Rightarrow> sa_policy a) in
                attempt receipt (rdp_allocation_policy deps allocation) (\<lambda>allocation_policy.
                attempt receipt (rdp_policy deps (prq_policy request)) (\<lambda>policy.
                attempt receipt (rdp_master deps (prq_master request)) (\<lambda>master.
                attempt receipt (NewDecisionTriggerID sha
                    (trigger_parts request proposal checkpoint configuration_hash allocation_policy policy master)) (\<lambda>trigger.
                  Inr \<lparr>ld_proposal = proposal, ld_checkpoint = checkpoint, ld_configuration = configuration,
                    ld_allocation_policy = allocation_policy, ld_policy = policy, ld_master = master,
                    ld_trigger = trigger\<rparr>)))))))"

section \<open>Allocating and judging\<close>

definition timeoutReceipt :: "runner_receipt \<Rightarrow> deadline \<Rightarrow> runner_receipt \<times> error" where
  "timeoutReceipt receipt d =
     (case d of
        DeadlineExceeded \<Rightarrow> (receipt\<lparr>prr_outcome := OutcomeTimedOut\<rparr>, RiskRunner ErrTimeout)
      | CallerCancelled \<Rightarrow> (receipt\<lparr>prr_outcome := OutcomeCancelled\<rparr>, ContextDone))"

definition allocationFor :: "allocation_candidate \<Rightarrow> portfolio_snapshot \<Rightarrow> strategy_allocation option" where
  "allocationFor candidate snapshot =
     find (\<lambda>a. sa_id a = cs_strategy_allocation (ca_spec candidate)) (pss_allocations (psn_spec snapshot))"

definition run_allocator ::
  "runner_deps \<Rightarrow> runner_env \<Rightarrow> runner_request \<Rightarrow> runner_receipt \<Rightarrow> loaded \<Rightarrow> allocation_candidate attempt" where
  "run_allocator deps env request receipt ld =
     (case rdp_allocate deps \<lparr>ain_proposal = ld_proposal ld, ain_snapshot = pck_snapshot (ld_checkpoint ld),
             ain_policy = ld_allocation_policy ld, ain_master = ld_master ld, ain_time = prq_time request\<rparr> of
        Inl e \<Rightarrow>
          if e = Panic then Inl (receipt\<lparr>prr_outcome := OutcomePanic\<rparr>, RiskRunner ErrPanic)
          else Inl (receipt\<lparr>prr_outcome := OutcomeAllocationFailure\<rparr>, RiskRunner ErrAllocation)
      | Inr candidate \<Rightarrow>
          (case ren_allocated env of Some d \<Rightarrow> Inl (timeoutReceipt receipt d) | None \<Rightarrow> Inr candidate))"

definition rule_input_for ::
  "runner_request \<Rightarrow> loaded \<Rightarrow> allocation_candidate \<Rightarrow> strategy_allocation \<Rightarrow> rule_configuration \<Rightarrow> rule_input" where
  "rule_input_for request ld candidate allocation configured =
     \<lparr>rri_schema = ''risk-rule-input/v2'', rri_proposal = ld_proposal ld,
      rri_snapshot = pck_snapshot (ld_checkpoint ld), rri_candidate = candidate, rri_allocation = allocation,
      rri_trading_date = pss_trading_date (psn_spec (pck_snapshot (ld_checkpoint ld))),
      rri_session = ''PORTFOLIO_DECISION'', rri_policy = rpo_id (ld_policy ld),
      rri_policy_version = rpo_version (ld_policy ld), rri_configuration = configured, rri_at = prq_time request\<rparr>"

definition run_rule ::
  "(string \<Rightarrow> digest) \<Rightarrow> runner_deps \<Rightarrow> runner_env \<Rightarrow> runner_request \<Rightarrow> runner_receipt \<Rightarrow> loaded \<Rightarrow>
     allocation_candidate \<Rightarrow> nat \<Rightarrow> rule_configuration \<Rightarrow> rule_result attempt" where
  "run_rule sha deps env request receipt ld candidate i configured =
     (case Resolve (rdp_rules deps) configured of
        Inl e \<Rightarrow> Inl (receipt\<lparr>prr_outcome := OutcomeRuleFailure\<rparr>, e)
      | Inr rule \<Rightarrow>
          (case allocationFor candidate (pck_snapshot (ld_checkpoint ld)) of
             None \<Rightarrow> Inl (receipt\<lparr>prr_outcome := OutcomeInvalidOutput\<rparr>, RiskRunner ErrInvalidOutput)
           | Some allocation \<Rightarrow>
               attempt receipt (NewRiskRuleInput sha (rule_input_for request ld candidate allocation configured)) (\<lambda>input.
                 case rdp_rule deps (ren_rule env i) rule input of
                   Inl _ \<Rightarrow> Inl (receipt\<lparr>prr_outcome := OutcomePanic\<rparr>, RiskRunner ErrPanic)
                 | Inr result \<Rightarrow>
                     (case ren_ruled env i of
                        Some d \<Rightarrow> Inl (timeoutReceipt receipt d)
                      | None \<Rightarrow>
                          let invalid = Inl (receipt\<lparr>prr_outcome := OutcomeInvalidOutput\<rparr>, RiskRunner ErrInvalidOutput) in
                          (case NewRuleResult result of
                             Inl _ \<Rightarrow> invalid
                           | Inr validated \<Rightarrow>
                               if rrs_rule validated \<noteq> rrd_id (rrc_descriptor configured) \<or>
                                  rrs_version validated \<noteq> rrd_version (rrc_descriptor configured) \<or>
                                  rrs_hash validated \<noteq> rrc_hash configured \<or> rrs_at validated \<noteq> prq_time request
                               then invalid else Inr validated)))))"

fun run_rules ::
  "(nat \<Rightarrow> rule_configuration \<Rightarrow> rule_result attempt) \<Rightarrow> nat \<Rightarrow> rule_configuration list \<Rightarrow> rule_result list attempt" where
  "run_rules judge i [] = Inr []"
| "run_rules judge i (c # cs) =
     (case judge i c of
        Inl e \<Rightarrow> Inl e
      | Inr r \<Rightarrow> (case run_rules judge (Suc i) cs of Inl e \<Rightarrow> Inl e | Inr rs \<Rightarrow> Inr (r # rs)))"

definition technical_errors :: "instant \<Rightarrow> rule_result list \<Rightarrow> technical_error list" where
  "technical_errors at results =
     map (\<lambda>r. \<lparr>ter_rule = rrs_rule r, ter_version = rrs_version r, ter_code = TechnicalRuleFailure, ter_at = at\<rparr>)
       (filter (\<lambda>r. rrs_status r = RuleError) results)"

text \<open>From the admitted trigger to the publication that is offered to the store.\<close>

definition prepare_decision ::
  "(string \<Rightarrow> digest) \<Rightarrow> runner_deps \<Rightarrow> runner_env \<Rightarrow> runner_request \<Rightarrow> runner_receipt \<Rightarrow> loaded \<Rightarrow>
     decision_publication attempt" where
  "prepare_decision sha deps env request receipt ld =
     (case run_allocator deps env request receipt ld of
        Inl e \<Rightarrow> Inl e
      | Inr candidate \<Rightarrow>
          (case run_rules (run_rule sha deps env request receipt ld candidate) 0 (rpo_rules (ld_policy ld)) of
             Inl e \<Rightarrow> Inl e
           | Inr results \<Rightarrow>
               let snapshot = pck_snapshot (ld_checkpoint ld); at = prq_time request in
               attempt receipt (buildEvaluation sha at (ld_proposal ld) snapshot candidate (ld_policy ld) results
                   (technical_errors at results)) (\<lambda>evaluation.
               attempt receipt (buildDecision sha at (ld_proposal ld) snapshot (ld_configuration ld) (ld_policy ld)
                   candidate evaluation) (\<lambda>decision.
               attempt receipt (nextCheckpoint sha at (ld_checkpoint ld) candidate decision (ld_trigger ld))
                 (\<lambda>(reservation, next_checkpoint).
               attempt receipt (NewPortfolioDecisionPublication sha
                 \<lparr>dpb_trigger = ld_trigger ld, dpb_portfolio = prq_portfolio request,
                  dpb_expected_snapshot = psn_id snapshot, dpb_expected_revision = pck_revision (ld_checkpoint ld),
                  dpb_expected_checkpoint = pck_checksum (ld_checkpoint ld), dpb_candidate = candidate,
                  dpb_evaluation = evaluation, dpb_decision = decision, dpb_reservation = reservation,
                  dpb_next = next_checkpoint, dpb_checksum = 0, dpb_raw = []\<rparr>) (\<lambda>publication.
                 case ren_built env of Some d \<Rightarrow> Inl (timeoutReceipt receipt d) | None \<Rightarrow> Inr publication))))))"

section \<open>The call\<close>

definition receiptFromPublication :: "runner_receipt \<Rightarrow> runtime_receipt \<Rightarrow> runner_outcome \<Rightarrow> runner_receipt" where
  "receiptFromPublication base v outcome =
     base\<lparr>prr_outcome := outcome, prr_trigger := rtr_trigger v, prr_committed := rtr_revision v,
          prr_decision := rtr_decision v, prr_snapshot := rtr_snapshot v, prr_reservation := rtr_reservation v,
          prr_checksum := rtr_checksum v\<rparr>"

definition outcomeForDecision :: "decision_outcome \<Rightarrow> runner_outcome" where
  "outcomeForDecision o' = (case o' of DecisionApproved \<Rightarrow> OutcomeApproved | DecisionModified \<Rightarrow> OutcomeModified
     | DecisionRejected \<Rightarrow> OutcomeRejected | _ \<Rightarrow> OutcomeDeferred)"

definition publish_decision ::
  "(string \<Rightarrow> digest) \<Rightarrow> runner_env \<Rightarrow> runner_receipt \<Rightarrow> decision_publication \<Rightarrow> risk_store \<Rightarrow>
     risk_store \<times> runner_receipt \<times> error option" where
  "publish_decision sha env receipt publication store =
     (case PublishPortfolioDecision sha (ren_publish env) publication store of
        (store', Inr published) \<Rightarrow>
          (store', receiptFromPublication receipt published
             (if rtr_status published = RuntimePublicationIdempotent then OutcomeDuplicateCommitted
              else outcomeForDecision (ds_outcome (prd_spec (dpb_decision publication)))), None)
      | (store', Inl e) \<Rightarrow>
          (case ren_published env of
             Some d \<Rightarrow> (store', fst (timeoutReceipt receipt d), Some (snd (timeoutReceipt receipt d)))
           | None \<Rightarrow>
               (store', receipt\<lparr>prr_outcome := (case e of
                    RiskStorage (PortfolioRevisionConflictError _ _ _) \<Rightarrow> OutcomeRevisionConflict
                  | _ \<Rightarrow> OutcomePublicationFailure)\<rparr>, Some e)))"

definition same_checkpoint :: "runner_request \<Rightarrow> portfolio_checkpoint \<Rightarrow> portfolio_checkpoint option \<Rightarrow> bool" where
  "same_checkpoint request checkpoint current \<longleftrightarrow>
     (case current of
        None \<Rightarrow> False
      | Some c \<Rightarrow> pck_revision c = prq_revision request \<and> psn_id (pck_snapshot c) = psn_id (pck_snapshot checkpoint) \<and>
          pck_checksum c = pck_checksum checkpoint)"

definition EvaluateProposal ::
  "(string \<Rightarrow> digest) \<Rightarrow> runner_deps \<Rightarrow> runner_env \<Rightarrow> runner_request \<Rightarrow> risk_store \<times> runner_state \<Rightarrow>
     (risk_store \<times> runner_state) \<times> runner_receipt \<times> error option" where
  "EvaluateProposal sha deps env request state =
     (let (store, runner) = state in
      case load_inputs sha deps env request store of
        Inl (receipt, e) \<Rightarrow> (state, receipt, Some e)
      | Inr ld \<Rightarrow>
          let receipt = (start_receipt request)\<lparr>prr_trigger := ld_trigger ld\<rparr>;
              stop = (\<lambda>outcome e. (state, receipt\<lparr>prr_outcome := outcome\<rparr>, Some e)) in
          (case CommittedPublication_risk (ren_committed env) (ld_trigger ld) store of
             Inr committed \<Rightarrow> (state, receiptFromPublication receipt committed OutcomeDuplicateCommitted, None)
           | Inl e \<Rightarrow>
               if e \<noteq> RiskStorage ErrNotFound_risk then stop NoOutcome e
               else case CurrentPortfolioCheckpoint (ren_current env) (prq_portfolio request) store of
                 Inl e \<Rightarrow> stop NoOutcome e
               | Inr current \<Rightarrow>
                   if \<not> same_checkpoint request (ld_checkpoint ld) current
                   then stop OutcomeRevisionConflict (conflict_error request current)
                   else
                     let (held, outcome) = reserve_portfolio (prq_portfolio request) (ld_trigger ld) runner in
                     if outcome = OutcomeShutdown then stop outcome (RiskRunner ErrShutdown_risk)
                     else if outcome = OutcomeDuplicateInProgress then stop outcome (RiskRunner ErrDuplicateInProgress_risk)
                     else if outcome \<noteq> NoOutcome then stop outcome (RiskRunner ErrPortfolioBusy)
                     else
                       let released = release_portfolio (prq_portfolio request) held;
                           fail = (\<lambda>receipt e. ((store, released), receipt, Some e)) in
                       (case ren_select env of
                          CallerDone \<Rightarrow> fail (receipt\<lparr>prr_outcome := OutcomeCancelled\<rparr>) ContextDone
                        | RunnerDone \<Rightarrow> fail (receipt\<lparr>prr_outcome := OutcomeShutdown\<rparr>) (RiskRunner ErrShutdown_risk)
                        | Acquired \<Rightarrow>
                            (case prepare_decision sha deps env request receipt ld of
                               Inl (receipt, e) \<Rightarrow> fail receipt e
                             | Inr publication \<Rightarrow>
                                 (case publish_decision sha env receipt publication store of
                                    (store', receipt, e) \<Rightarrow> ((store', released), receipt, e))))))"

section \<open>Replay\<close>

fun replay_requests ::
  "(string \<Rightarrow> digest) \<Rightarrow> runner_deps \<Rightarrow> (bool \<times> runner_env \<times> runner_request) list \<Rightarrow> risk_store \<times> runner_state \<Rightarrow>
     (risk_store \<times> runner_state) \<times> runner_receipt list result" where
  "replay_requests sha deps [] state = (state, Inr [])"
| "replay_requests sha deps ((ctx_done, env, request) # rest) state =
     (if ctx_done then (state, Inl ContextDone)
      else case EvaluateProposal sha deps env request state of
        (state', receipt, Some e) \<Rightarrow> (state', Inl e)
      | (state', receipt, None) \<Rightarrow>
          (case replay_requests sha deps rest state' of
             (state'', Inl e) \<Rightarrow> (state'', Inl e)
           | (state'', Inr receipts) \<Rightarrow> (state'', Inr (receipt # receipts))))"

end
