(* ===== verification/Risk_Runs.thy ===== *)
theory Risk_Runs
  imports Risk_Run
begin

text \<open>
  Runs of \<open>EvaluateProposal\<close>: every call keeps the invariant of the store, its checkpoints form a contiguous
  history in which each decision moves exactly the capital of its reservation, and a decided request is answered
  from the store when it comes again.
\<close>

section \<open>What a publication was built from\<close>

lemma attempt_Inr [simp]: "attempt receipt m f = Inr y \<longleftrightarrow> (\<exists>x. m = Inr x \<and> f x = Inr y)"
  by (cases m) (simp_all add: attempt_def)

lemma attempt_pair: "attempt receipt m (\<lambda>(a, b). f a b) = Inr y \<longleftrightarrow> (\<exists>a b. m = Inr (a, b) \<and> f a b = Inr y)"
  by (auto split: prod.splits)

lemma load_inputs_Inr:
  assumes "load_inputs sha deps env request store = Inr ld"
  shows "PortfolioCheckpoint (ren_checkpoint env) (prq_portfolio request) (prq_revision request) store = Inr (ld_checkpoint ld)"
    "\<not> ren_entry env"
proof -
  show "\<not> ren_entry env" using assms by (auto simp: load_inputs_def)
  show "PortfolioCheckpoint (ren_checkpoint env) (prq_portfolio request) (prq_revision request) store = Inr (ld_checkpoint ld)"
  proof (cases "PortfolioCheckpoint (ren_checkpoint env) (prq_portfolio request) (prq_revision request) store")
    case (Inl e)
    with assms show ?thesis by (auto simp: load_inputs_def Let_def split: if_splits sum.splits)
  next
    case (Inr c)
    with assms show ?thesis by (auto simp: load_inputs_def Let_def attempt_pair split: if_splits)
  qed
qed

definition reserved_amount :: "decision_publication \<Rightarrow> int" where
  "reserved_amount p = (case dpb_reservation p of None \<Rightarrow> 0 | Some r \<Rightarrow> minor (crs_amount (cr_spec r)))"

lemma prepare_decision_Inr:
  assumes "prepare_decision sha deps env request receipt ld = Inr p"
  obtains candidate results evaluation decision reservation next_checkpoint where
    "rdp_allocate deps \<lparr>ain_proposal = ld_proposal ld, ain_snapshot = pck_snapshot (ld_checkpoint ld),
       ain_policy = ld_allocation_policy ld, ain_master = ld_master ld, ain_time = prq_time request\<rparr> = Inr candidate"
    "run_rules (run_rule sha deps env request receipt ld candidate) 0 (rpo_rules (ld_policy ld)) = Inr results"
    "buildEvaluation sha (prq_time request) (ld_proposal ld) (pck_snapshot (ld_checkpoint ld)) candidate (ld_policy ld)
       results (technical_errors (prq_time request) results) = Inr evaluation"
    "buildDecision sha (prq_time request) (ld_proposal ld) (pck_snapshot (ld_checkpoint ld)) (ld_configuration ld)
       (ld_policy ld) candidate evaluation = Inr decision"
    "nextCheckpoint sha (prq_time request) (ld_checkpoint ld) candidate decision (ld_trigger ld) =
       Inr (reservation, next_checkpoint)"
    "dpb_next p = next_checkpoint" "dpb_reservation p = reservation" "dpb_decision p = decision"
    "dpb_candidate p = candidate" "dpb_evaluation p = evaluation" "dpb_trigger p = ld_trigger ld"
    "dpb_portfolio p = prq_portfolio request" "dpb_expected_revision p = pck_revision (ld_checkpoint ld)"
    "dpb_expected_checkpoint p = pck_checksum (ld_checkpoint ld)"
    "NewPortfolioDecisionPublication sha (p\<lparr>dpb_checksum := 0, dpb_raw := []\<rparr>) = Inr p"
proof -
  from assms obtain candidate where c: "run_allocator deps env request receipt ld = Inr candidate"
    by (auto simp: prepare_decision_def split: sum.splits)
  with assms obtain results where r: "run_rules (run_rule sha deps env request receipt ld candidate) 0 (rpo_rules (ld_policy ld)) = Inr results"
    by (auto simp: prepare_decision_def split: sum.splits)
  from assms c r obtain evaluation decision reservation next_checkpoint where
    e: "buildEvaluation sha (prq_time request) (ld_proposal ld) (pck_snapshot (ld_checkpoint ld)) candidate (ld_policy ld)
       results (technical_errors (prq_time request) results) = Inr evaluation"
    "buildDecision sha (prq_time request) (ld_proposal ld) (pck_snapshot (ld_checkpoint ld)) (ld_configuration ld)
       (ld_policy ld) candidate evaluation = Inr decision"
    "nextCheckpoint sha (prq_time request) (ld_checkpoint ld) candidate decision (ld_trigger ld) =
       Inr (reservation, next_checkpoint)"
    and n: "NewPortfolioDecisionPublication sha
         \<lparr>dpb_trigger = ld_trigger ld, dpb_portfolio = prq_portfolio request,
          dpb_expected_snapshot = psn_id (pck_snapshot (ld_checkpoint ld)),
          dpb_expected_revision = pck_revision (ld_checkpoint ld),
          dpb_expected_checkpoint = pck_checksum (ld_checkpoint ld), dpb_candidate = candidate,
          dpb_evaluation = evaluation, dpb_decision = decision, dpb_reservation = reservation,
          dpb_next = next_checkpoint, dpb_checksum = 0, dpb_raw = []\<rparr> = Inr p"
    by (auto simp: prepare_decision_def Let_def attempt_pair split: option.splits)
  have "rdp_allocate deps \<lparr>ain_proposal = ld_proposal ld, ain_snapshot = pck_snapshot (ld_checkpoint ld),
       ain_policy = ld_allocation_policy ld, ain_master = ld_master ld, ain_time = prq_time request\<rparr> = Inr candidate"
    using c by (auto simp: run_allocator_def split: sum.splits if_splits option.splits)
  moreover note p = NewPortfolioDecisionPublication_Inr(1) [OF n]
  moreover from p have "p\<lparr>dpb_checksum := 0, dpb_raw := []\<rparr> =
      \<lparr>dpb_trigger = ld_trigger ld, dpb_portfolio = prq_portfolio request,
          dpb_expected_snapshot = psn_id (pck_snapshot (ld_checkpoint ld)),
          dpb_expected_revision = pck_revision (ld_checkpoint ld),
          dpb_expected_checkpoint = pck_checksum (ld_checkpoint ld), dpb_candidate = candidate,
          dpb_evaluation = evaluation, dpb_decision = decision, dpb_reservation = reservation,
          dpb_next = next_checkpoint, dpb_checksum = 0, dpb_raw = []\<rparr>"
    by (cases p) simp
  ultimately show thesis
    using n by (intro that [OF _ r e]) (simp_all, (cases p, simp)+)
qed

section \<open>A decision keeps within its candidate\<close>

lemma decision_approved:
  assumes "NewPortfolioRiskDecision sha spec = Inr d" "ds_approved (prd_spec d) = Some b"
  shows "0 \<le> minor (ab_maximum_capital b)"
    "minor (ab_maximum_capital b) \<le> minor (cs_capital (ca_spec (ds_candidate spec)))"
    "list_all2 leg_within_candidate (ab_leg_bounds b) (cs_leg_bounds (ca_spec (ds_candidate spec)))"
    "ds_outcome spec = DecisionApproved \<or> ds_outcome spec = DecisionModified"
    "ab_valid_until b \<le> ds_expires_at spec"
proof -
  from assms(1) obtain spec' where h: "spec' = spec\<lparr>ds_schema := trim_space (ds_schema spec)\<rparr>"
    "outcome_bounds spec' = Inr (ds_approved (prd_spec d))"
    by (rule NewPortfolioRiskDecision_Inr)
  note o' = outcome_bounds_Some [OF h(2) [unfolded assms(2)]]
  from o'(1) obtain input where "newApprovedBounds input (ds_candidate spec') = Inr b" by blast
  from newApprovedBounds_Inr [OF this] o' h(1) show "0 \<le> minor (ab_maximum_capital b)"
    "minor (ab_maximum_capital b) \<le> minor (cs_capital (ca_spec (ds_candidate spec)))"
    "list_all2 leg_within_candidate (ab_leg_bounds b) (cs_leg_bounds (ca_spec (ds_candidate spec)))"
    "ds_outcome spec = DecisionApproved \<or> ds_outcome spec = DecisionModified"
    "ab_valid_until b \<le> ds_expires_at spec"
    by simp_all
qed

lemma buildDecision_Inr:
  assumes "buildDecision sha logical proposal snapshot configuration policy candidate evaluation = Inr d"
  obtains spec where "NewPortfolioRiskDecision sha spec = Inr d" "ds_candidate spec = candidate"
    "ds_proposal spec = proposal" "ds_portfolio spec = pss_portfolio (psn_spec snapshot)"
    "ds_evaluation spec = evaluation"
    "ds_outcome spec = verdict_of DecisionApproved (rrs_status ` set (rvl_results (rva_spec evaluation)))"
proof -
  from assms obtain v where v: "decide_all (DecisionApproved, ''ALL_RULES_PASSED'', Some (candidate_bounds candidate))
      (rvl_results (rva_spec evaluation)) = Inr v"
    by (auto simp: buildDecision_def)
  obtain outcome primary approved where eq: "v = (outcome, primary, approved)" by (cases v) auto
  from decide_all_outcome [OF v [unfolded eq]]
  have "outcome = verdict_of DecisionApproved (rrs_status ` set (rvl_results (rva_spec evaluation)))" by simp
  with assms v eq show thesis
    by (auto simp: buildDecision_def intro!: that)
qed

section \<open>One call\<close>

text \<open>The allocator answers with \<open>int64\<close> capital.\<close>

definition allocates_i64 :: "runner_deps \<Rightarrow> bool" where
  "allocates_i64 deps \<longleftrightarrow> (\<forall>input c. rdp_allocate deps input = Inr c \<longrightarrow> minor (cs_capital (ca_spec c)) \<le> max_i64)"

definition decided_from ::
  "(string \<Rightarrow> digest) \<Rightarrow> runner_deps \<Rightarrow> runner_env \<Rightarrow> runner_request \<Rightarrow> risk_store \<Rightarrow> loaded \<Rightarrow> decision_publication \<Rightarrow> bool" where
  "decided_from sha deps env request st ld p \<longleftrightarrow>
     load_inputs sha deps env request st = Inr ld \<and>
     prepare_decision sha deps env request ((start_receipt request)\<lparr>prr_trigger := ld_trigger ld\<rparr>) ld = Inr p"

lemma publish_decision_store:
  "publish_decision sha env receipt p st = (st', rcpt, e) \<Longrightarrow> \<exists>x. PublishPortfolioDecision sha (ren_publish env) p st = (st', x)"
  by (auto simp: publish_decision_def split: prod.splits sum.splits option.splits)

lemma EvaluateProposal_store:
  assumes "EvaluateProposal sha deps env request (st, r) = ((st', r'), rcpt, e)"
  obtains (unchanged) "st' = st"
  | (offered) ld p x where "decided_from sha deps env request st ld p"
      "PublishPortfolioDecision sha (ren_publish env) p st = (st', x)"
proof (cases "st' = st")
  case False
  from assms False obtain ld where ld: "load_inputs sha deps env request st = Inr ld"
    by (auto simp: EvaluateProposal_def split: sum.splits)
  let ?receipt = "(start_receipt request)\<lparr>prr_trigger := ld_trigger ld\<rparr>"
  from assms False ld obtain p where p: "prepare_decision sha deps env request ?receipt ld = Inr p"
    by (auto simp: EvaluateProposal_def Let_def split: sum.splits prod.splits if_splits select_outcome.splits)
  from assms False ld p have "\<exists>e' rcpt'. publish_decision sha env ?receipt p st = (st', rcpt', e')"
    by (auto simp: EvaluateProposal_def Let_def split: sum.splits prod.splits if_splits select_outcome.splits)
  then obtain x where "PublishPortfolioDecision sha (ren_publish env) p st = (st', x)"
    using publish_decision_store by blast
  with ld p show thesis by (intro offered) (auto simp: decided_from_def)
qed (rule unchanged)

lemma decided_facts:
  assumes "decided_from sha deps env request st ld p" "risk_inv sha st" "allocates_i64 deps" "prq_revision request \<le> max_u64"
  shows "decision_built sha p" "dpb_portfolio p = prq_portfolio request" "dpb_expected_revision p = prq_revision request"
    "risk_checkpoint st (prq_portfolio request) (prq_revision request) = Some (ld_checkpoint ld)"
    "moved (reserved_amount p) (pss_capital (psn_spec (pck_snapshot (ld_checkpoint ld))))
       (pss_capital (psn_spec (pck_snapshot (dpb_next p))))"
    "0 \<le> reserved_amount p" "pck_trigger (dpb_next p) = ld_trigger ld" "dpb_trigger p = ld_trigger ld"
proof -
  have load: "load_inputs sha deps env request st = Inr ld" using assms(1) by (simp add: decided_from_def)
  show cp: "risk_checkpoint st (prq_portfolio request) (prq_revision request) = Some (ld_checkpoint ld)"
    using load_inputs_Inr(1) [OF load] by (auto simp: PortfolioCheckpoint_def split: if_splits option.splits)
  with assms(2) have ck: "pck_revision (ld_checkpoint ld) = prq_revision request" "snapshot_built sha (pck_snapshot (ld_checkpoint ld))"
    unfolding risk_inv_def by blast+
  from assms(1) [unfolded decided_from_def] obtain candidate results evaluation decision reservation next_checkpoint where h:
    "rdp_allocate deps \<lparr>ain_proposal = ld_proposal ld, ain_snapshot = pck_snapshot (ld_checkpoint ld),
       ain_policy = ld_allocation_policy ld, ain_master = ld_master ld, ain_time = prq_time request\<rparr> = Inr candidate"
    "buildDecision sha (prq_time request) (ld_proposal ld) (pck_snapshot (ld_checkpoint ld)) (ld_configuration ld)
       (ld_policy ld) candidate evaluation = Inr decision"
    "nextCheckpoint sha (prq_time request) (ld_checkpoint ld) candidate decision (ld_trigger ld) =
       Inr (reservation, next_checkpoint)"
    "dpb_next p = next_checkpoint" "dpb_reservation p = reservation" "dpb_trigger p = ld_trigger ld"
    "dpb_portfolio p = prq_portfolio request" "dpb_expected_revision p = pck_revision (ld_checkpoint ld)"
    by (auto elim!: prepare_decision_Inr)
  show "dpb_portfolio p = prq_portfolio request" "dpb_expected_revision p = prq_revision request"
    "dpb_trigger p = ld_trigger ld" using h ck by simp_all
  from h(2) obtain spec where d: "NewPortfolioRiskDecision sha spec = Inr decision" "ds_candidate spec = candidate"
    by (rule buildDecision_Inr)
  have cap: "minor (cs_capital (ca_spec candidate)) \<le> max_i64" using h(1) assms(3) by (auto simp: allocates_i64_def)
  have bounds: "\<forall>b. ds_approved (prd_spec decision) = Some b \<longrightarrow> 0 \<le> minor (ab_maximum_capital b) \<and> minor (ab_maximum_capital b) \<le> max_i64"
    using decision_approved(1,2) [OF d(1)] d(2) cap by fastforce
  note split = snapshot_built_capital(1) [OF ck(2)]
  from ck(2) obtain ss where ss: "NewPortfolioSnapshot sha ss = Inr (pck_snapshot (ld_checkpoint ld))"
    "minor (cap_available (pss_capital (psn_spec (pck_snapshot (ld_checkpoint ld))))) \<le> max_i64"
    by (auto simp: snapshot_built_def)
  have tot: "minor (cap_total (pss_capital (psn_spec (pck_snapshot (ld_checkpoint ld))))) \<le> max_i64"
    using NewPortfolioSnapshot_Inr(1,4) [OF ss(1)] ss(2) NewCapitalState_Inr(6) by fastforce
  from h(3) obtain spec0 spec1 spec2 source where n:
    "reserve_decision sha (prq_time request) candidate decision (ld_trigger ld) spec0 = Inr (reservation, spec1)"
    "NewPortfolioSnapshot sha (spec2\<lparr>pss_source_checksum := source\<rparr>) = Inr (pck_snapshot next_checkpoint)"
    "pck_trigger next_checkpoint = ld_trigger ld"
    by (rule nextCheckpoint_Inr)
  show "pck_trigger (dpb_next p) = ld_trigger ld" using n(3) h(4) by simp
  have amount: "reserved_amount p = (case ds_approved (prd_spec decision) of None \<Rightarrow> 0 | Some b \<Rightarrow> minor (ab_maximum_capital b))"
    using reserve_decision_Inr [OF n(1)] h(5)
    by (cases "ds_approved (prd_spec decision)") (auto simp: reserved_amount_def)
  then show "0 \<le> reserved_amount p" using bounds by (auto split: option.splits)
  from nextCheckpoint_capital [OF h(3) split tot bounds] amount h(4)
  show mv: "moved (reserved_amount p) (pss_capital (psn_spec (pck_snapshot (ld_checkpoint ld))))
       (pss_capital (psn_spec (pck_snapshot (dpb_next p))))" by simp
  have "minor (cap_available (pss_capital (psn_spec (pck_snapshot (dpb_next p))))) \<le> max_i64"
    using mv \<open>0 \<le> reserved_amount p\<close> ss(2) by (simp add: moved_def)
  then show "decision_built sha p"
    using n(2) h(4) \<open>dpb_expected_revision p = prq_revision request\<close> assms(4)
    by (auto simp: decision_built_def snapshot_built_def)
qed

section \<open>The history of a portfolio\<close>

definition accounts_for :: "risk_store \<Rightarrow> portfolio_checkpoint \<Rightarrow> portfolio_checkpoint \<Rightarrow> bool" where
  "accounts_for st c c' \<longleftrightarrow> (\<exists>s. map_of (rst_publications st) (pck_trigger c') = Some s \<and> dpb_next (sdp_value s) = c' \<and>
     0 \<le> reserved_amount (sdp_value s) \<and>
     moved (reserved_amount (sdp_value s)) (pss_capital (psn_spec (pck_snapshot c))) (pss_capital (psn_spec (pck_snapshot c'))))"

definition risk_ledger :: "risk_store \<Rightarrow> bool" where
  "risk_ledger st \<longleftrightarrow>
     (\<forall>pid n c. risk_checkpoint st pid n = Some c \<longrightarrow> n < risk_head st pid \<longrightarrow> (\<exists>c'. risk_checkpoint st pid (Suc n) = Some c')) \<and>
     (\<forall>pid n c c'. risk_checkpoint st pid n = Some c \<longrightarrow> risk_checkpoint st pid (Suc n) = Some c' \<longrightarrow> accounts_for st c c')"

lemma accounts_for_commit:
  "accounts_for st c c' \<Longrightarrow> map_of (rst_publications st) (dpb_trigger v) = None \<Longrightarrow> accounts_for (commit_decision st v) c c'"
  by (auto simp: accounts_for_def commit_decision_def)

lemma commit_ledger:
  assumes inv: "risk_inv sha st" "risk_ledger st" and d: "decided_from sha deps env request st ld p"
    and deps: "allocates_i64 deps" "prq_revision request \<le> max_u64"
    and v: "NewPortfolioDecisionPublication sha p = Inr v" "admit_decision st v = Inr ()"
      "map_of (rst_publications st) (dpb_trigger v) = None"
  shows "risk_ledger (commit_decision st v)"
proof -
  note f = decided_facts [OF d inv(1) deps]
  from committed_facts [OF f(1) v(1,2)] obtain c where g: "risk_head st (dpb_portfolio p) = dpb_expected_revision p"
    "risk_checkpoint st (dpb_portfolio p) (dpb_expected_revision p) = Some c"
    "pck_revision (dpb_next p) = Suc (dpb_expected_revision p)"
    "dpb_portfolio v = dpb_portfolio p" "dpb_next v = dpb_next p"
    by metis
  have c: "c = ld_checkpoint ld" using g(2) f(2-4) by simp
  have cp: "risk_checkpoint (commit_decision st v) pid n =
      (if pid = dpb_portfolio p \<and> n = Suc (dpb_expected_revision p) then Some (dpb_next p) else risk_checkpoint st pid n)" for pid n
    using g(3-5) by (simp add: checkpoint_commit)
  have hd: "risk_head (commit_decision st v) pid =
      (if pid = dpb_portfolio p then Suc (dpb_expected_revision p) else risk_head st pid)" for pid
    using g(3-5) by (simp add: head_commit)
  have bound: "n \<le> risk_head st pid" if "risk_checkpoint st pid n = Some c'" for pid n c'
    using inv(1) that unfolding risk_inv_def by blast
  have same: "dpb_trigger v = dpb_trigger p" "reserved_amount v = reserved_amount p"
    by (subst NewPortfolioDecisionPublication_Inr(1) [OF v(1)], simp add: reserved_amount_def)+
  have new: "accounts_for (commit_decision st v) c (dpb_next p)"
    using f(5-8) c same g(5) by (simp add: accounts_for_def commit_decision_def)
  show ?thesis
    unfolding risk_ledger_def
  proof (intro conjI allI impI, goal_cases)
    case (1 pid n c1)
    show ?case
    proof (cases "pid = dpb_portfolio p \<and> n = dpb_expected_revision p")
      case True
      then show ?thesis by (simp add: cp)
    next
      case False
      with 1 bound [of pid n c1] g(1) have "risk_checkpoint st pid n = Some c1" "n < risk_head st pid"
        by (auto simp: cp hd split: if_splits)
      with inv(2) show ?thesis by (auto simp: cp risk_ledger_def)
    qed
  next
    case (2 pid n c1 c2)
    show ?case
    proof (cases "pid = dpb_portfolio p \<and> n = dpb_expected_revision p")
      case True
      with 2 g(2) new show ?thesis by (auto simp: cp)
    next
      case False
      with 2 bound [of pid "Suc n" c2] g(1) have "risk_checkpoint st pid n = Some c1" "risk_checkpoint st pid (Suc n) = Some c2"
        by (auto simp: cp split: if_splits)
      with inv(2) have "accounts_for st c1 c2" by (auto simp: risk_ledger_def)
      then show ?thesis using v(3) by (rule accounts_for_commit)
    qed
  qed
qed

lemma snapshot_built_revision: "snapshot_built sha s \<Longrightarrow> pss_revision (psn_spec s) \<noteq> 0"
  using NewPortfolioSnapshot_Inr(3) by (fastforce simp: snapshot_built_def NewPortfolioSnapshot_def Let_def split: if_splits)

text \<open>A portfolio that is initialized or restored starts a history of its own.\<close>

lemma installed:
  assumes "map_of (rst_current st) (pck_portfolio v) = None" "risk_inv sha st"
  shows "risk_ledger st \<Longrightarrow> risk_ledger (install_checkpoint st v)"
    "risk_checkpoint st pid n = Some c \<Longrightarrow> risk_checkpoint (install_checkpoint st v) pid n = Some c"
proof -
  have none: "risk_checkpoint st (pck_portfolio v) n = None" for n
  proof (rule ccontr)
    assume "risk_checkpoint st (pck_portfolio v) n \<noteq> None"
    with assms(2) have "n \<le> risk_head st (pck_portfolio v)" "pck_revision (the (risk_checkpoint st (pck_portfolio v) n)) = n"
      "snapshot_built sha (pck_snapshot (the (risk_checkpoint st (pck_portfolio v) n)))"
      unfolding risk_inv_def by force+
    with assms(1) show False
      using snapshot_built_revision by (fastforce simp: risk_head_def get_or_def)
  qed
  have cp: "risk_checkpoint (install_checkpoint st v) pid n =
      (if pid = pck_portfolio v then if n = pck_revision v then Some v else None else risk_checkpoint st pid n)" for pid n
    by (auto simp: risk_checkpoint_def install_checkpoint_def)
  have hd: "risk_head (install_checkpoint st v) pid = (if pid = pck_portfolio v then pck_revision v else risk_head st pid)" for pid
    by (simp add: risk_head_def install_checkpoint_def)
  have pub: "rst_publications (install_checkpoint st v) = rst_publications st" by (simp add: install_checkpoint_def)
  show "risk_ledger st \<Longrightarrow> risk_ledger (install_checkpoint st v)"
    unfolding risk_ledger_def cp hd accounts_for_def pub by (auto split: if_splits)
  show "risk_checkpoint st pid n = Some c \<Longrightarrow> risk_checkpoint (install_checkpoint st v) pid n = Some c"
    using none by (auto simp: cp)
qed

lemma initialized:
  assumes "InitializePortfolio sha ctx c st = (st', x) \<or> RestorePortfolioCheckpoint sha done c st = (st', y)"
  shows "st' = st \<or> (\<exists>v. st' = install_checkpoint st v \<and> map_of (rst_current st) (pck_portfolio v) = None)"
  using assms
  by (auto simp: InitializePortfolio_def RestorePortfolioCheckpoint_def has_def Let_def
      split: if_splits sum.splits option.splits)

section \<open>Runs\<close>

text \<open>
  The steps of a store and its runner: a call, a portfolio that is initialized or restored from a validated
  snapshot, the test hook of the store, a shutdown.
\<close>

inductive risk_step :: "(string \<Rightarrow> digest) \<Rightarrow> risk_store \<times> runner_state \<Rightarrow> risk_store \<times> runner_state \<Rightarrow> bool" for sha where
  call: "EvaluateProposal sha deps env request s = (s', rcpt, e) \<Longrightarrow> allocates_i64 deps \<Longrightarrow>
    prq_revision request \<le> max_u64 \<Longrightarrow> risk_step sha s s'"
| initialize: "InitializePortfolio sha ctx c st = (st', x) \<Longrightarrow> snapshot_built sha (pck_snapshot c) \<Longrightarrow>
    risk_step sha (st, r) (st', r)"
| restore: "RestorePortfolioCheckpoint sha ctx_done c st = (st', x) \<Longrightarrow> snapshot_built sha (pck_snapshot c) \<Longrightarrow>
    risk_step sha (st, r) (st', r)"
| hook: "risk_step sha (st, r) (SetFailBeforeCommitForTest_risk b st, r)"
| stop: "risk_step sha (st, r) (st, fst (Shutdown_risk b r))"

definition risk_ok :: "(string \<Rightarrow> digest) \<Rightarrow> risk_store \<times> runner_state \<Rightarrow> bool" where
  "risk_ok sha s \<longleftrightarrow> risk_inv sha (fst s) \<and> risk_ledger (fst s)"

lemma EvaluateProposal_ok:
  assumes "risk_inv sha st" "risk_ledger st" "EvaluateProposal sha deps env request (st, r) = ((st', r'), rcpt, e)"
    "allocates_i64 deps" "prq_revision request \<le> max_u64"
  shows "risk_inv sha st' \<and> risk_ledger st'"
  using assms(3)
proof (cases rule: EvaluateProposal_store)
  case unchanged
  with assms show ?thesis by simp
next
  case (offered ld p x)
  from offered(2) show ?thesis
  proof (cases rule: PublishPortfolioDecision_cases)
    case unchanged
    with assms show ?thesis by simp
  next
    case (commit v)
    have "risk_inv sha st'"
      using commit_decision_inv [OF assms(1) decided_facts(1) [OF offered(1) assms(1,4,5)] commit(1,2)] commit(4) by simp
    moreover have "risk_ledger st'"
      using commit_ledger [OF assms(1,2) offered(1) assms(4,5) commit(1-3)] commit(4) by simp
    ultimately show ?thesis by simp
  qed
qed

lemma hook_reads:
  "risk_checkpoint (SetFailBeforeCommitForTest_risk b st) = risk_checkpoint st"
  "risk_head (SetFailBeforeCommitForTest_risk b st) = risk_head st"
  "rst_current (SetFailBeforeCommitForTest_risk b st) = rst_current st"
  "rst_publications (SetFailBeforeCommitForTest_risk b st) = rst_publications st"
  by (auto simp: fun_eq_iff SetFailBeforeCommitForTest_risk_def risk_checkpoint_def risk_head_def)

lemma risk_step_ok:
  assumes "risk_ok sha s" "risk_step sha s s'"
  shows "risk_ok sha s'"
  using assms(2,1)
proof (cases rule: risk_step.cases)
  case (call deps env request rcpt e)
  obtain st r st' r' where "s = (st, r)" "s' = (st', r')" by (cases s, cases s') auto
  with call assms(1) show ?thesis using EvaluateProposal_ok by (simp add: risk_ok_def) blast
next
  case (initialize ctx c st st' x r)
  have inv: "risk_inv sha st" "risk_ledger st" using assms(1) initialize(1) by (simp_all add: risk_ok_def)
  have "risk_ledger st'" using initialized [OF disjI1 [OF initialize(3)]] installed(1) [OF _ inv(1)] inv(2) by blast
  then show ?thesis using InitializePortfolio_inv [OF inv(1) initialize(4,3)] initialize(2) by (simp add: risk_ok_def)
next
  case (restore ctx_done c st st' x r)
  have inv: "risk_inv sha st" "risk_ledger st" using assms(1) restore(1) by (simp_all add: risk_ok_def)
  have "risk_ledger st'" using initialized [OF disjI2 [OF restore(3)]] installed(1) [OF _ inv(1)] inv(2) by blast
  then show ?thesis using RestorePortfolioCheckpoint_inv [OF inv(1) restore(4,3)] restore(2) by (simp add: risk_ok_def)
next
  case (hook st r b)
  with assms(1) show ?thesis
    by (simp add: risk_ok_def risk_inv_def risk_ledger_def accounts_for_def hook_reads)
next
  case (stop st r b)
  with assms(1) show ?thesis by (simp add: risk_ok_def)
qed

interpretation risk_calls: step_invariant "risk_step sha" "risk_ok sha" for sha
  by unfold_locales (rule risk_step_ok)

text \<open>What the decision at a revision reserved.\<close>

definition reserved_at :: "risk_store \<Rightarrow> digest \<Rightarrow> nat \<Rightarrow> int" where
  "reserved_at st pid n =
     (case risk_checkpoint st pid n of
        None \<Rightarrow> 0
      | Some c \<Rightarrow> (case map_of (rst_publications st) (pck_trigger c) of None \<Rightarrow> 0 | Some s \<Rightarrow> reserved_amount (sdp_value s)))"

lemma ledger_sum:
  assumes "risk_ledger st" "risk_checkpoint st pid m = Some c" "m + k \<le> risk_head st pid"
  shows "\<exists>d. risk_checkpoint st pid (m + k) = Some d \<and>
     moved (\<Sum>i \<leftarrow> [Suc m..<Suc (m + k)]. reserved_at st pid i) (pss_capital (psn_spec (pck_snapshot c)))
       (pss_capital (psn_spec (pck_snapshot d))) \<and> (\<forall>i. m < i \<and> i \<le> m + k \<longrightarrow> 0 \<le> reserved_at st pid i)"
  using assms(3)
proof (induction k)
  case 0
  show ?case using assms(2) by (simp add: moved_def)
next
  case (Suc k)
  then obtain d where d: "risk_checkpoint st pid (m + k) = Some d"
    "moved (\<Sum>i \<leftarrow> [Suc m..<Suc (m + k)]. reserved_at st pid i) (pss_capital (psn_spec (pck_snapshot c)))
       (pss_capital (psn_spec (pck_snapshot d)))" "\<forall>i. m < i \<and> i \<le> m + k \<longrightarrow> 0 \<le> reserved_at st pid i" by auto
  have "m + k < risk_head st pid" using Suc.prems by simp
  with d(1) assms(1) obtain d' where d': "risk_checkpoint st pid (Suc (m + k)) = Some d'"
    unfolding risk_ledger_def by blast
  from d(1) d' assms(1) have "accounts_for st d d'" by (auto simp: risk_ledger_def)
  then have "moved (reserved_at st pid (Suc (m + k))) (pss_capital (psn_spec (pck_snapshot d)))
      (pss_capital (psn_spec (pck_snapshot d'))) \<and> 0 \<le> reserved_at st pid (Suc (m + k))"
    using d' by (auto simp: accounts_for_def reserved_at_def)
  then show ?case using d d' by (auto simp: moved_def le_Suc_eq)
qed

section \<open>What is decided stays decided\<close>

definition risk_grows :: "risk_store \<times> runner_state \<Rightarrow> risk_store \<times> runner_state \<Rightarrow> bool" where
  "risk_grows s s' \<longleftrightarrow>
     (\<forall>t v. map_of (rst_publications (fst s)) t = Some v \<longrightarrow> map_of (rst_publications (fst s')) t = Some v) \<and>
     (\<forall>pid n c. risk_checkpoint (fst s) pid n = Some c \<longrightarrow> risk_checkpoint (fst s') pid n = Some c)"

lemma risk_grows_refl: "risk_grows s s"
  by (simp add: risk_grows_def)

lemma commit_grows:
  assumes "risk_inv sha st" "decision_built sha p" "NewPortfolioDecisionPublication sha p = Inr v" "admit_decision st v = Inr ()"
    "map_of (rst_publications st) (dpb_trigger v) = None"
  shows "risk_grows (st, r) (commit_decision st v, r')"
proof -
  from committed_facts [OF assms(2-4)] have f: "risk_head st (dpb_portfolio p) = dpb_expected_revision p"
    "pck_revision (dpb_next v) = Suc (dpb_expected_revision p)" "dpb_portfolio v = dpb_portfolio p"
    by metis+
  have "n \<le> risk_head st pid" if "risk_checkpoint st pid n = Some c" for pid n c
    using assms(1) that unfolding risk_inv_def by blast
  then have "\<not> (pid = dpb_portfolio v \<and> n = pck_revision (dpb_next v))" if "risk_checkpoint st pid n = Some c" for pid n c
    using that f by fastforce
  moreover have "map_of (rst_publications (commit_decision st v)) t = Some w" if "map_of (rst_publications st) t = Some w" for t w
    using that assms(5) by (auto simp: commit_decision_def)
  ultimately show ?thesis by (auto simp: risk_grows_def checkpoint_commit)
qed

lemma EvaluateProposal_grows:
  assumes "risk_inv sha st" "EvaluateProposal sha deps env request (st, r) = ((st', r'), rcpt, e)"
    "allocates_i64 deps" "prq_revision request \<le> max_u64"
  shows "risk_grows (st, r) (st', r')"
  using assms(2)
proof (cases rule: EvaluateProposal_store)
  case unchanged
  then show ?thesis by (simp add: risk_grows_def)
next
  case (offered ld p x)
  from offered(2) show ?thesis
  proof (cases rule: PublishPortfolioDecision_cases)
    case unchanged
    then show ?thesis by (simp add: risk_grows_def)
  next
    case (commit v)
    from commit_grows [OF assms(1) decided_facts(1) [OF offered(1) assms(1,3,4)] commit(1-3)] commit(4)
    show ?thesis by simp
  qed
qed

lemma installed_grows:
  assumes "InitializePortfolio sha ctx c st = (st', x) \<or> RestorePortfolioCheckpoint sha done c st = (st', y)" "risk_inv sha st"
  shows "risk_grows (st, r) (st', r')"
proof -
  from initialized [OF assms(1)] show ?thesis
  proof
    assume "st' = st"
    then show ?thesis by (simp add: risk_grows_def)
  next
    assume "\<exists>v. st' = install_checkpoint st v \<and> map_of (rst_current st) (pck_portfolio v) = None"
    then obtain v where "st' = install_checkpoint st v" "map_of (rst_current st) (pck_portfolio v) = None" by blast
    with installed(2) [OF _ assms(2)] show ?thesis by (simp add: risk_grows_def) (simp add: install_checkpoint_def)
  qed
qed

lemma risk_step_grows:
  assumes "risk_ok sha s" "risk_step sha s s'"
  shows "risk_grows s s'"
  using assms(2,1)
proof (cases rule: risk_step.cases)
  case (call deps env request rcpt e)
  obtain st r st' r' where "s = (st, r)" "s' = (st', r')" by (cases s, cases s') auto
  with call assms(1) show ?thesis using EvaluateProposal_grows by (simp add: risk_ok_def) blast
next
  case (initialize ctx c st st' x r)
  with assms(1) show ?thesis using installed_grows [OF disjI1 [OF initialize(3)]] by (simp add: risk_ok_def)
next
  case (restore ctx_done c st st' x r)
  with assms(1) show ?thesis using installed_grows [OF disjI2 [OF restore(3)]] by (simp add: risk_ok_def)
qed (simp_all add: risk_grows_def hook_reads)

interpretation risk_growth: step_monotone "risk_step sha" "risk_ok sha" risk_grows for sha
  by unfold_locales (auto simp: risk_grows_refl risk_step_grows, simp add: risk_grows_def)

text \<open>The contexts a resubmission needs to be alive.\<close>

definition answers :: "runner_env \<Rightarrow> bool" where
  "answers env \<longleftrightarrow> \<not> ren_entry env \<and> \<not> ren_checkpoint env \<and> \<not> ren_committed env"

lemma load_inputs_again:
  assumes "load_inputs sha deps env request st = Inr ld" "answers env'"
    "risk_checkpoint st' (prq_portfolio request) (prq_revision request) = Some (ld_checkpoint ld)"
  shows "load_inputs sha deps env' request st' = Inr ld"
proof -
  have again: "PortfolioCheckpoint (ren_checkpoint env') (prq_portfolio request) (prq_revision request) st' = Inr (ld_checkpoint ld)"
    using assms(2,3) by (simp add: PortfolioCheckpoint_def answers_def)
  from assms(1) show ?thesis
    unfolding load_inputs_def load_inputs_Inr(1) [OF assms(1)] again Let_def
    using load_inputs_Inr(2) [OF assms(1)] assms(2) by (auto simp: answers_def attempt_pair split: if_splits)
qed

lemma published_receipt:
  assumes "EvaluateProposal sha deps env request (st, r) = ((st', r'), rcpt, None)" "risk_ok sha (st, r)"
    "allocates_i64 deps" "prq_revision request \<le> max_u64"
  obtains ld s where "load_inputs sha deps env request st = Inr ld"
    "map_of (rst_publications st') (ld_trigger ld) = Some s"
    "rcpt\<lparr>prr_outcome := OutcomeDuplicateCommitted\<rparr> =
       receiptFromPublication ((start_receipt request)\<lparr>prr_trigger := ld_trigger ld\<rparr>) (sdp_receipt s) OutcomeDuplicateCommitted"
proof -
  from assms(1) obtain ld where ld: "load_inputs sha deps env request st = Inr ld"
    by (auto simp: EvaluateProposal_def split: sum.splits)
  let ?receipt = "(start_receipt request)\<lparr>prr_trigger := ld_trigger ld\<rparr>"
  have inv: "risk_inv sha st" using assms(2) by (simp add: risk_ok_def)
  show thesis
  proof (cases "CommittedPublication_risk (ren_committed env) (ld_trigger ld) st")
    case (Inr c)
    with assms(1) ld have "st' = st" "rcpt = receiptFromPublication ?receipt c OutcomeDuplicateCommitted"
      by (auto simp: EvaluateProposal_def Let_def)
    moreover from Inr obtain s where "map_of (rst_publications st) (ld_trigger ld) = Some s" "sdp_receipt s = c"
      by (auto simp: CommittedPublication_risk_def split: if_splits option.splits)
    ultimately show thesis using that [OF ld] by (auto simp: receiptFromPublication_def)
  next
    case (Inl e0)
    with assms(1) ld have e0: "e0 = RiskStorage ErrNotFound_risk"
      by (auto simp: EvaluateProposal_def Let_def split: if_splits)
    with Inl have fresh: "map_of (rst_publications st) (ld_trigger ld) = None"
      by (auto simp: CommittedPublication_risk_def split: if_splits option.splits)
    from assms(1) ld Inl e0 obtain p where p: "prepare_decision sha deps env request ?receipt ld = Inr p"
      by (auto simp: EvaluateProposal_def Let_def split: sum.splits prod.splits if_splits select_outcome.splits)
    from assms(1) ld Inl e0 p have pub: "publish_decision sha env ?receipt p st = (st', rcpt, None)"
      by (auto simp: EvaluateProposal_def Let_def split: sum.splits prod.splits if_splits select_outcome.splits)
    then obtain published where x: "PublishPortfolioDecision sha (ren_publish env) p st = (st', Inr published)"
      "rcpt\<lparr>prr_outcome := OutcomeDuplicateCommitted\<rparr> = receiptFromPublication ?receipt published OutcomeDuplicateCommitted"
      by (auto simp: publish_decision_def receiptFromPublication_def split: prod.splits sum.splits option.splits)
    have d: "decided_from sha deps env request st ld p" using ld p by (simp add: decided_from_def)
    from x(1) show thesis
    proof (cases rule: PublishPortfolioDecision_cases)
      case unchanged
      have "\<not> isl (NewPortfolioDecisionPublication sha p)"
        using x(1) by (auto simp: PublishPortfolioDecision_def split: if_splits sum.splits)
      then obtain v where v: "NewPortfolioDecisionPublication sha p = Inr v" by (cases "NewPortfolioDecisionPublication sha p") auto
      have "dpb_trigger v = ld_trigger ld"
        using decided_facts(8) [OF d inv assms(3,4)] by (subst NewPortfolioDecisionPublication_Inr(1) [OF v]) simp
      then have "rtr_status published = RuntimePublicationCommitted"
        using x(1) v fresh by (auto simp: PublishPortfolioDecision_def decision_receipt_def split: if_splits sum.splits)
      with unchanged(2) [OF refl] show thesis by simp
    next
      case (commit v)
      have "dpb_trigger v = ld_trigger ld"
        using decided_facts(8) [OF d inv assms(3,4)] by (subst NewPortfolioDecisionPublication_Inr(1) [OF commit(1)]) simp
      with commit(4,5) x(2) show thesis using that [OF ld] by (auto simp: commit_decision_def)
    qed
  qed
qed

lemma resubmitted:
  assumes "EvaluateProposal sha deps env request (st, r) = ((st', r'), rcpt, None)" "risk_ok sha (st, r)"
    "allocates_i64 deps" "prq_revision request \<le> max_u64" "(risk_step sha)\<^sup>*\<^sup>* (st', r') (st'', r'')" "answers env'"
  shows "EvaluateProposal sha deps env' request (st'', r'') =
     ((st'', r''), rcpt\<lparr>prr_outcome := OutcomeDuplicateCommitted\<rparr>, None)"
proof -
  from published_receipt [OF assms(1-4)] obtain ld s where h: "load_inputs sha deps env request st = Inr ld"
    "map_of (rst_publications st') (ld_trigger ld) = Some s"
    "rcpt\<lparr>prr_outcome := OutcomeDuplicateCommitted\<rparr> =
       receiptFromPublication ((start_receipt request)\<lparr>prr_trigger := ld_trigger ld\<rparr>) (sdp_receipt s) OutcomeDuplicateCommitted"
    by blast
  have step: "risk_step sha (st, r) (st', r')" using assms(1,3,4) by (rule risk_step.call)
  have g1: "risk_grows (st, r) (st', r')" using risk_step_grows [OF assms(2) step] .
  have ok: "risk_ok sha (st', r')" using risk_step_ok [OF assms(2) step] .
  have g2: "risk_grows (st', r') (st'', r'')" using risk_growth.reach_grows [OF assms(5) ok] .
  have "risk_checkpoint st (prq_portfolio request) (prq_revision request) = Some (ld_checkpoint ld)"
    using load_inputs_Inr(1) [OF h(1)] by (auto simp: PortfolioCheckpoint_def split: if_splits option.splits)
  with g1 g2 have "risk_checkpoint st'' (prq_portfolio request) (prq_revision request) = Some (ld_checkpoint ld)"
    by (auto simp: risk_grows_def)
  from load_inputs_again [OF h(1) assms(6) this] have ld: "load_inputs sha deps env' request st'' = Inr ld" .
  have "CommittedPublication_risk (ren_committed env') (ld_trigger ld) st'' = Inr (sdp_receipt s)"
    using h(2) g2 assms(6) by (simp add: CommittedPublication_risk_def risk_grows_def answers_def)
  with ld show ?thesis by (simp add: EvaluateProposal_def Let_def h(3))
qed

section \<open>Candidates without an identity\<close>

lemma decided_candidate:
  assumes "prepare_decision sha deps env request receipt ld = Inr p"
  shows "ca_id (dpb_candidate p) \<noteq> 0"
  using assms
proof (rule prepare_decision_Inr)
  assume "NewPortfolioDecisionPublication sha (p\<lparr>dpb_checksum := 0, dpb_raw := []\<rparr>) = Inr p"
  from NewPortfolioDecisionPublication_Inr(2) [OF this] show ?thesis
    by (simp add: publication_fields_invalid_def Let_def)
qed

lemma NewStore_ledger: "risk_ledger (NewStoreWithLimits_risk limits)"
  by (simp add: risk_ledger_def NewStoreWithLimits_risk_def risk_checkpoint_def get_or_def)

end
