(* ===== verification/Risk_Sample.thy ===== *)
theory Risk_Sample
  imports Risk_Runs Claims_Authority
begin

text \<open>
  A portfolio, a proposal, a policy and a runner on which the properties of the risk components are applied: the
  allocator of \<open>Port_Engine\<close> sizes a proposal to buy one instrument, and the kill switch rule of the
  production catalog judges it.
\<close>

definition inr_money :: "int \<Rightarrow> money" where
  "inr_money n = \<lparr>minor = n, money_currency = ''INR''\<rparr>"

definition risk_switch :: kill_switch where
  "risk_switch = \<lparr>ks_id = 1, ks_scope = ScopeGlobal, ks_subject = ''ALL'', ks_state = KillSwitchInactive, ks_reason = ''NORMAL'',
     ks_evidence = 0, ks_activated_at = 0, ks_expires_at = 0, ks_configuration = 1, ks_configuration_hash = 1,
     ks_revision = 1, ks_schema = ''k''\<rparr>"

definition risk_allocation :: "int \<Rightarrow> strategy_allocation" where
  "risk_allocation r = \<lparr>sa_id = 1, sa_definition = ''D'', sa_version = 1, sa_instance = ''i'', sa_instance_revision = 1,
     sa_policy = 1, sa_policy_version = 1, sa_limit = inr_money 50000, sa_deployed = inr_money 0,
     sa_reserved = inr_money r, sa_remaining = inr_money (50000 - r), sa_daily_loss = inr_money 0,
     sa_state = StrategyAllocationEnabled, sa_effective_from = 1, sa_effective_until = 100,
     sa_configuration_hash = 1, sa_schema = ''a''\<rparr>"

text \<open>The portfolio at revision \<open>n\<close> and time \<open>t\<close> with \<open>r\<close> reserved and the exposures \<open>es\<close>.\<close>

definition risk_state :: "nat \<Rightarrow> instant \<Rightarrow> int \<Rightarrow> exposure_record list \<Rightarrow> snapshot_spec" where
  "risk_state n t r es = \<lparr>pss_schema = ''s'', pss_portfolio = 3, pss_revision = n, pss_as_of = t,
     pss_generated_at = t, pss_trading_date = \<lparr>cd_year = 2024, cd_month = 1, cd_day = 2\<rparr>,
     pss_base_currency = ''INR'', pss_state = PortfolioEnabled, pss_configuration = 1,
     pss_configuration_version = 1, pss_configuration_hash = 1,
     pss_capital = \<lparr>cap_total = inr_money 100000, cap_available = inr_money (100000 - r), cap_reserved = inr_money r,
       cap_deployed = inr_money 0\<rparr>,
     pss_realized = inr_money 0, pss_unrealized = inr_money 0, pss_daily_realized = inr_money 0,
     pss_daily_unrealized = inr_money 0, pss_weekly_realized = inr_money 0, pss_high_water = inr_money 100000,
     pss_equity = inr_money 100000, pss_allocations = [risk_allocation r], pss_exposures = es,
     pss_kill_switches = [risk_switch], pss_circuit_breakers = [], pss_source_checksum = 1\<rparr>"

definition risk_snapshot :: portfolio_snapshot where
  "risk_snapshot = projr (NewPortfolioSnapshot sample_sha (risk_state 1 10 0 []))"

definition risk_genesis :: portfolio_checkpoint where
  "risk_genesis = \<lparr>pck_snapshot = risk_snapshot, pck_snapshot_checksum = 0, pck_parent_snapshot = 0,
     pck_parent_checksum = 0, pck_trigger = 0, pck_proposal = 0, pck_decision = 0, pck_reservation = 0,
     pck_checksum = 0, pck_raw = []\<rparr>"

definition risk_opened :: risk_store where
  "risk_opened = fst (InitializePortfolio sample_sha (False, False) risk_genesis (NewStoreWithLimits_risk DefaultLimits_risk))"

definition risk_draft :: proposal_draft where
  "risk_draft = \<lparr>pd_schema = ''d'',
     pd_legs = [\<lparr>prl_instrument = 11, prl_side = SideBuy, prl_ratio = 1,
       prl_reference_price = \<lparr>price_minor = 1000, price_currency = ''INR''\<rparr>, prl_max_deviation_bps = 50\<rparr>],
     pd_sizing = \<lparr>si_kind = SizingStrategyBudgetBPS, si_value_bps = 10000\<rparr>, pd_valid_from = 10,
     pd_expires_at = 90, pd_rationale = ''ENTRY'', pd_explanation = ''e'',
     pd_evidence = [\<lparr>sve_code = ''SIGNAL'', sve_events = [1], sve_value = 1, sve_unit = ''u'', sve_explanation = ''e''\<rparr>],
     pd_confidence = None, pd_hints = [], pd_exit_policy = ''x''\<rparr>"

definition risk_metadata :: proposal_metadata where
  "risk_metadata = \<lparr>pmd_definition = ''mean-reversion'', pmd_version = 1, pmd_instance = ''i'', pmd_instance_revision = 1,
     pmd_evaluation = 1, pmd_frame = 1, pmd_generated_at = 10, pmd_source_events = [1], pmd_instruments = [11]\<rparr>"

definition risk_proposal :: trade_proposal where
  "risk_proposal = projr (NewTradeProposal sample_sha risk_metadata risk_draft)"

definition risk_limits_of :: "int \<Rightarrow> allocation_limits" where
  "risk_limits_of n = \<lparr>al_total = inr_money 100000, al_reserve_bps = 1000, al_emergency_bps = 500,
     al_strategy = inr_money n, al_instrument = inr_money n, al_underlying = inr_money n, al_group = inr_money n\<rparr>"

definition risk_allocation_policy :: allocation_policy where
  "risk_allocation_policy = \<lparr>apl_id = 1, apl_version = 1, apl_enabled = True, apl_from = 1, apl_until = 100,
     apl_limits = risk_limits_of 35000, apl_hash = 1\<rparr>"

definition risk_instrument :: instrument where
  "risk_instrument = \<lparr>ins_id = 11, ins_exchange = ''NSE'', ins_segment = SegmentCash, ins_underlying = ''U'',
     ins_type = InstrumentEquity, ins_symbol = ''S'', ins_expiry = zero_date, ins_strike = zero_price,
     ins_option_type = OptionNone, ins_lot_size = 5, ins_tick_size = \<lparr>price_minor = 5, price_currency = ''INR''\<rparr>,
     ins_currency = ''INR''\<rparr>"

definition risk_rule :: "nat \<Rightarrow> string \<Rightarrow> rule_configuration" where
  "risk_rule n i = \<lparr>rrc_descriptor = newProductionRule i i, rrc_order = n, rrc_severity = SeverityBlocking,
     rrc_effect = EffectActivateKillSwitch, rrc_hash = 1, rrc_json = ''{}''\<rparr>"

definition risk_policy_of :: "rule_configuration list \<Rightarrow> risk_policy" where
  "risk_policy_of rules = \<lparr>rpo_id = 1, rpo_version = 1, rpo_schema = ''p'', rpo_lifecycle = PolicyActive,
     rpo_posture = FailClosed, rpo_from = 1, rpo_until = 100, rpo_rules = rules, rpo_hash = 1\<rparr>"

definition risk_deps :: runner_deps where
  "risk_deps = \<lparr>rdp_proposal = (\<lambda>_. Inr risk_proposal), rdp_configuration = (\<lambda>_. Inr (1, 1)),
     rdp_allocation_policy = (\<lambda>_. Inr risk_allocation_policy),
     rdp_policy = (\<lambda>_. Inr (risk_policy_of [risk_rule 1 ''KILL_SWITCH''])),
     rdp_master = (\<lambda>_. Inr \<lparr>im_version = ''m1'', im_instruments = [(11, risk_instrument)]\<rparr>),
     rdp_allocate = Evaluate sample_sha, rdp_rules = [''KILL_SWITCH'' \<mapsto> newProductionRule ''KILL_SWITCH'' ''KILL_SWITCH''],
     rdp_rule = Rule_Evaluate\<rparr>"

definition risk_request :: runner_request where
  "risk_request = \<lparr>prq_portfolio = 3, prq_proposal = 1, prq_revision = 1, prq_policy = 1, prq_master = ''m1'', prq_time = 20\<rparr>"

definition risk_alive :: runner_env where
  "risk_alive = \<lparr>ren_entry = False, ren_checkpoint = False, ren_conflict = False, ren_committed = False, ren_current = False,
     ren_select = Acquired, ren_allocated = None, ren_rule = (\<lambda>_. False), ren_ruled = (\<lambda>_. None), ren_built = None,
     ren_publish = (False, False), ren_published = None\<rparr>"

definition risk_idle :: runner_state where
  "risk_idle = \<lparr>rns_running = [], rns_closed = False\<rparr>"


section \<open>Lengths of canonical forms\<close>

fun solid_char :: "char \<Rightarrow> bool" where
  "solid_char (Char b0 b1 b2 b3 b4 b5 b6 b7) \<longleftrightarrow>
     \<not> b7 \<and> (b6 \<and> (b5 \<or> \<not> (b4 \<and> b3 \<and> b2 \<and> \<not> b1 \<and> \<not> b0)) \<or> \<not> b6 \<and> b5 \<and> (b4 \<and> \<not> (b3 \<and> b2) \<or> \<not> b4 \<and> (b3 \<or> b0 \<and> b2)))"

lemma solid_char_json: "solid_char c \<Longrightarrow> (of_char c :: nat) < 128 \<and> json_char c = [c] \<and> \<not> space_byte c"
proof -
  have "list_all (\<lambda>n. solid_char (char_of n) \<longrightarrow> n < 128 \<and> json_char (char_of n) = [char_of n] \<and> \<not> space_byte (char_of n)) [0..<256]"
    by code_simp
  moreover have "(of_char c :: nat) \<in> set [0..<256]" by simp
  moreover assume "solid_char c"
  ultimately show ?thesis unfolding list_all_iff by (metis char_of_char)
qed

lemma json_body_solid_char [simp]: "solid_char c \<Longrightarrow> json_body (c # s) = c # json_body s"
  using solid_char_json [of c] by (simp add: json_body.simps(2))

lemma json_body_solid: "list_all solid_char s \<Longrightarrow> json_body (s @ r) = s @ json_body r"
  by (induction s) simp_all

lemma digest_solid: "list_all solid_char (digest_string d)"
proof -
  have "list_all (\<lambda>n. solid_char (digit_char n)) [0..<16]" by code_simp
  then show ?thesis by (auto simp: digest_string_def list_all_iff)
qed

lemma json_body_digest [simp]: "json_body (digest_string d) = digest_string d"
  using json_body_solid [OF digest_solid, of d "[]"] by simp

lemma trim_space_keeps: "c \<in> set s \<Longrightarrow> \<not> space_byte c \<Longrightarrow> trim_space s \<noteq> []"
proof -
  have left: "c \<in> set (trim_left runes s)" if "c \<in> set s" "\<forall>r \<in> set runes. c \<notin> set r" for runes s
    using that
  proof (induction runes s rule: trim_left.induct)
    case (1 runes s)
    show ?case
    proof (cases "find (\<lambda>r. r \<noteq> [] \<and> prefix r s) runes")
      case None
      with 1 show ?thesis by (simp add: trim_left.simps [of runes s])
    next
      case (Some r)
      then have r: "r \<in> set runes" "prefix r s" by (auto simp: find_Some_iff)
      then obtain t where t: "s = r @ t" by (auto simp: prefix_def)
      with 1 r have "c \<in> set t" by auto
      with 1 Some t have "c \<in> set (trim_left runes t)" by simp
      with Some t show ?thesis by (subst trim_left.simps) simp
    qed
  qed
  assume "c \<in> set s" "\<not> space_byte c"
  then have "c \<in> set (trim_space s)" by (auto simp: trim_space_def space_byte_def intro!: left)
  then show ?thesis by auto
qed

lemma trim_space_solid [simp]: "solid_char c \<Longrightarrow> trim_space (c # s) \<noteq> []"
  using trim_space_keeps [of c] solid_char_json by auto

lemma solid_dec_nat: "\<exists>c s. dec_nat n = c # s \<and> solid_char c"
proof (induction n rule: dec_nat.induct)
  case (1 n)
  have digits: "list_all (\<lambda>n. solid_char (digit_char n)) [0..<10]" by code_simp
  show ?case
  proof (cases "n < 10")
    case True
    with digits show ?thesis by (simp add: dec_nat.simps [of n] list_all_iff)
  next
    case False
    with 1 show ?thesis by (auto simp: dec_nat.simps [of n])
  qed
qed

lemma solid_parts [simp]:
  "trim_space (dec_int (int n)) \<noteq> []" "trim_space (marshal (JObj fs)) \<noteq> []" "digest_string d \<noteq> []"
proof -
  show "trim_space (dec_int (int n)) \<noteq> []"
    using solid_dec_nat [of n] by (auto simp: dec_int_def)
  have "solid_char CHR ''{''" by simp
  then show "trim_space (marshal (JObj fs)) \<noteq> []" by (simp add: marshal.simps(6))
  show "digest_string d \<noteq> []" by (metis length_digest_string list.size(3) numeral_neq_zero)
qed

lemma length_commas: "length (commas xs) = (\<Sum>x \<leftarrow> xs. length x) + (length xs - 1)"
  by (induction xs rule: commas.induct) simp_all

lemma sample_times:
  "rfc3339_nano 0 = ''0001-01-01T00:00:00Z''" "rfc3339_nano 1 = ''0001-01-01T00:00:00.000000001Z''"
  "rfc3339_nano 10 = ''0001-01-01T00:00:00.00000001Z''" "rfc3339_nano 20 = ''0001-01-01T00:00:00.00000002Z''"
  "rfc3339_nano 90 = ''0001-01-01T00:00:00.00000009Z''" "rfc3339_nano 100 = ''0001-01-01T00:00:00.0000001Z''"
  by code_simp+

lemmas marshal_lengths = marshal.simps json_string_def length_commas sample_times dec_int_def dec_nat.simps digit_char_def
  money_json_def

end
