(* ===== verification/Risk_Trace.thy ===== *)
theory Risk_Trace
  imports Risk_Sample
begin

text \<open>
  The first half of a call of the runner on the sample: the snapshot is valid, the proposal is built, and the
  allocation engine sizes it to the candidate that is decided in \<open>Risk_Decided\<close>.
\<close>

section \<open>The snapshot\<close>

lemma sample_money [simp]: "money_is_zero_value (inr_money n) = False" "minor (inr_money n) = n" "money_currency (inr_money n) = ''INR''"
  by (simp_all add: money_is_zero_value_def inr_money_def)

lemma inr_money_add [simp]: "Money_Add (inr_money a) (inr_money b) =
    (if 0 < b \<and> a > max_i64 - b \<or> b < 0 \<and> a < min_i64 - b then Inl (Domain ErrMoneyOverflow) else Inr (inr_money (wrap64 (a + b))))"
  by (simp add: Money_Add_def inr_money_def)

definition risk_exposure :: "exposure_dimension \<Rightarrow> string \<Rightarrow> exposure_record" where
  "risk_exposure d s = (let k = (\<lambda>n. \<lparr>mm_availability = AvailabilityKnown, mm_value = inr_money n\<rparr>) in
     \<lparr>ex_dimension = d, ex_subject = s, ex_gross = k 35000, ex_net = k 35000, ex_premium_at_risk = k 35000, ex_long = k 35000,
      ex_short = k 0, ex_premium_paid = k 35000, ex_premium_received = k 0, ex_maximum_loss = k 35000,
      ex_loss_bound = LossBoundKnown, ex_overnight = False\<rparr>)"

definition risk_exposures :: "exposure_record list" where
  "risk_exposures = [risk_exposure ExposureInstrument (digest_string 11), risk_exposure ExposurePortfolioWide (digest_string 3),
     risk_exposure ExposureUnderlying ''U'']"

lemma snapshot_accepted:
  assumes "trim_space (pss_schema spec) = pss_schema spec" "pss_schema spec \<noteq> []"
    "pss_portfolio spec \<noteq> 0" "pss_revision spec \<noteq> 0" "pss_as_of spec \<noteq> 0" "pss_generated_at spec \<noteq> 0"
    "\<not> date_is_zero (pss_trading_date spec)" "pss_base_currency spec \<noteq> []" "valid_portfolio_state (pss_state spec)"
    "pss_configuration spec \<noteq> 0" "pss_configuration_version spec \<noteq> 0" "pss_configuration_hash spec \<noteq> 0"
    "pss_source_checksum spec \<noteq> 0"
    "\<not> list_ex (\<lambda>v. money_is_zero_value v \<or> money_currency v \<noteq> pss_base_currency spec) (snapshot_money spec)"
    "NewCapitalState (cap_total (pss_capital spec)) (cap_available (pss_capital spec)) (cap_reserved (pss_capital spec))
       (cap_deployed (pss_capital spec)) = Inr c"
    "Money_Add (cap_total (pss_capital spec)) (pss_realized spec) = Inr p" "Money_Add p (pss_unrealized spec) = Inr e"
    "minor e = minor (pss_equity spec)" "0 \<le> minor (pss_equity spec)" "minor (pss_equity spec) \<le> minor (pss_high_water spec)"
    "normalizeStrategyAllocations (pss_allocations spec) (pss_base_currency spec) = Inr (pss_allocations spec)"
    "normalizeExposures (pss_exposures spec) = Inr (pss_exposures spec)"
    "length (pss_kill_switches spec) \<le> 64" "0 \<notin> ks_id ` set (pss_kill_switches spec)" "distinct (map ks_id (pss_kill_switches spec))"
    "sort_key (\<lambda>k. digest_string (ks_id k)) (pss_kill_switches spec) = pss_kill_switches spec"
    "length (pss_circuit_breakers spec) \<le> 64" "0 \<notin> cb_id ` set (pss_circuit_breakers spec)"
    "distinct (map cb_id (pss_circuit_breakers spec))"
    "sort_key (\<lambda>b. digest_string (cb_id b)) (pss_circuit_breakers spec) = pss_circuit_breakers spec"
    "length (canonicalSnapshot spec) \<le> 1048576"
  shows "NewPortfolioSnapshot sha spec = Inr \<lparr>psn_id = deriveSnapshotID sha
     [digest_string (pss_portfolio spec), dec_int (int (pss_revision spec)), canonicalSnapshot spec,
      digest_string (pss_source_checksum spec)], psn_spec = spec, psn_raw = canonicalSnapshot spec\<rparr>"
proof -
  have same: "spec\<lparr>pss_schema := pss_schema spec\<rparr> = spec" by simp
  show ?thesis
    unfolding NewPortfolioSnapshot_def Let_def assms(1) same
    using assms(2-) by simp
qed

lemma trim_short [simp]: "trim_space ''s'' = ''s''" "trim_space ''d'' = ''d''"
  by code_simp+

lemma risk_raw: "length (canonicalSnapshot (risk_state 1 10 0 [])) \<le> 1048576"
  "length (canonicalSnapshot (risk_state 2 20 35000 risk_exposures)) \<le> 1048576"
  unfolding canonicalSnapshot_def
  by (simp_all add: risk_state_def risk_allocation_def risk_switch_def inr_money_def marshal_lengths allocation_json_def kill_switch_json_def
      allocation_state_string_def exposure_json_def risk_exposures_def risk_exposure_def measuredKey_def known_value_def
      dimension_string_def loss_bound_string_def
      kill_switch_state_string_def control_scope_string_def portfolio_state_string_def civil_date_string_def date_is_zero_def
      pad_int_def pad_dec_def)

lemma measured_ok: "MeasuredMoney_Validate \<lparr>mm_availability = AvailabilityKnown, mm_value = inr_money n\<rparr> = Inr ()"
  by (simp add: MeasuredMoney_Validate_def valid_availability_def)

lemma trim_U [simp]: "trim_space ''U'' = ''U''"
  by code_simp

lemma risk_exposure_new: "trim_space s = s \<Longrightarrow> s \<noteq> [] \<Longrightarrow> length s \<le> 128 \<Longrightarrow> valid_dimension d \<Longrightarrow>
    NewExposureRecord (risk_exposure d s) = Inr (risk_exposure d s)"
  by (simp add: NewExposureRecord_def risk_exposure_def exposure_values_def measured_ok loss_bound_ok_def negative_known_def known_value_def
      bind_r_def Let_def)

lemma risk_exposures_normal: "normalizeExposures risk_exposures = Inr risk_exposures"
proof -
  have keys: "map exposure_key risk_exposures = [''INSTRUMENT|'' @ digest_string 11, ''PORTFOLIO|'' @ digest_string 3, ''UNDERLYING|U'']"
    by (simp add: risk_exposures_def exposure_key_def risk_exposure_def dimension_string_def Let_def)
  have "sorted (map exposure_key risk_exposures)" unfolding keys by (simp add: Cons_le_Cons less_char_def)
  then have "sort_key exposure_key risk_exposures = risk_exposures" by (rule sort_key_id_if_sorted)
  moreover have "check_exposures {} risk_exposures = Inr ()"
    using keys by (simp add: risk_exposures_def risk_exposure_new valid_dimension_def)
  ultimately show ?thesis by (simp add: normalizeExposures_def risk_exposures_def)
qed

lemma risk_state_new:
  assumes "n \<noteq> 0" "t \<noteq> 0" "0 \<le> r" "r \<le> 35000" "length (canonicalSnapshot (risk_state n t r es)) \<le> 1048576"
    "normalizeExposures es = Inr es"
  shows "NewPortfolioSnapshot sample_sha (risk_state n t r es) =
    Inr \<lparr>psn_id = 1, psn_spec = risk_state n t r es, psn_raw = canonicalSnapshot (risk_state n t r es)\<rparr>"
proof -
  let ?s = "risk_state n t r es"
  have f: "pss_schema ?s = ''s''" "pss_portfolio ?s = 3" "pss_revision ?s = n" "pss_as_of ?s = t" "pss_generated_at ?s = t"
    "pss_trading_date ?s = \<lparr>cd_year = 2024, cd_month = 1, cd_day = 2\<rparr>" "pss_base_currency ?s = ''INR''"
    "pss_state ?s = PortfolioEnabled" "pss_configuration ?s = 1" "pss_configuration_version ?s = 1"
    "pss_configuration_hash ?s = 1" "pss_source_checksum ?s = 1" "pss_realized ?s = inr_money 0" "pss_unrealized ?s = inr_money 0"
    "pss_high_water ?s = inr_money 100000" "pss_equity ?s = inr_money 100000"
    "pss_daily_realized ?s = inr_money 0" "pss_daily_unrealized ?s = inr_money 0" "pss_weekly_realized ?s = inr_money 0"
    "pss_capital ?s = \<lparr>cap_total = inr_money 100000, cap_available = inr_money (100000 - r), cap_reserved = inr_money r,
       cap_deployed = inr_money 0\<rparr>" "pss_allocations ?s = [risk_allocation r]" "pss_exposures ?s = es"
    "pss_kill_switches ?s = [risk_switch]" "pss_circuit_breakers ?s = []"
    by (simp_all add: risk_state_def)
  have "normalizeStrategyAllocations [risk_allocation r] ''INR'' = Inr [risk_allocation r]"
    using assms(3,4)
    by (simp add: normalizeStrategyAllocations_def NewStrategyAllocation_def risk_allocation_def i64_defs bind_r_def)
  moreover have "\<exists>c. NewCapitalState (inr_money 100000) (inr_money (100000 - r)) (inr_money r) (inr_money 0) = Inr c"
    using assms(3,4) by (simp add: NewCapitalState_def i64_defs bind_r_def)
  ultimately show ?thesis
    using assms
    by (elim exE, subst snapshot_accepted [where p = "inr_money 100000" and e = "inr_money 100000"])
      (simp_all add: f valid_portfolio_state_def date_is_zero_def snapshot_money_def i64_defs risk_switch_def deriveSnapshotID_def)
qed


section \<open>The proposal\<close>

lemma trim_words [simp]: "trim_space ''i'' = ''i''" "trim_space ''x'' = ''x''" "trim_space ''e'' = ''e''" "trim_space ''u'' = ''u''"
  "trim_space ''mean-reversion'' = ''mean-reversion''"
  by code_simp+

lemma risk_proposal_eq: "risk_proposal = \<lparr>tp_id = 1, tp_metadata = risk_metadata, tp_draft = risk_draft\<rparr>"
proof -
  have codes: "stableCodePattern ''ENTRY''" "stableCodePattern ''SIGNAL''" "\<not> isl (NewDefinitionID ''mean-reversion'')"
    by code_simp+
  have draft: "NewProposalDraft risk_draft = Inr risk_draft"
    using codes by (simp add: NewProposalDraft_def risk_draft_def SizingIntent_Validate_def ProposalLeg_Validate_def
        price_is_zero_value_def greatestCommonDivisor_def bind_r_def Evidence_Validate_def Let_def)
  have "trim_space (stableKey ''strategy-trade-proposal/v1'' ps) \<noteq> []" for ps
    by (simp add: stableKey_def)
  then show ?thesis
    unfolding risk_proposal_def NewTradeProposal_def draft
    using codes by (simp add: risk_metadata_def NewProposalID_def newDigest_def sample_sha_def Let_def)
qed

section \<open>The candidate\<close>

definition risk_input :: allocation_input where
  "risk_input = \<lparr>ain_proposal = risk_proposal, ain_snapshot = risk_snapshot, ain_policy = risk_allocation_policy,
     ain_master = \<lparr>im_version = ''m1'', im_instruments = [(11, risk_instrument)]\<rparr>, ain_time = 20\<rparr>"

definition risk_bound :: allocation_leg_bound where
  "risk_bound = \<lparr>lb_instrument = 11, lb_side = SideBuy, lb_ratio = 1, lb_resolution = QuantityResolved,
     lb_maximum_units = 35, lb_lot_size = 5\<rparr>"

definition risk_known :: "int \<Rightarrow> measured_money" where
  "risk_known n = \<lparr>mm_availability = AvailabilityKnown, mm_value = inr_money n\<rparr>"

definition risk_candidate_spec :: candidate_spec where
  "risk_candidate_spec = \<lparr>cs_schema = ''allocation-candidate/v2'', cs_proposal = risk_proposal, cs_portfolio = 3,
     cs_snapshot = 1, cs_portfolio_revision = 1, cs_strategy_allocation = 1, cs_policy = 1, cs_policy_version = 1,
     cs_sizing = \<lparr>si_kind = SizingStrategyBudgetBPS, si_value_bps = 10000\<rparr>, cs_capital = inr_money 35000,
     cs_premium = risk_known 35000, cs_risk_budget = \<lparr>mm_availability = AvailabilityUnknown, mm_value = zero_money\<rparr>,
     cs_leg_bounds = [risk_bound], cs_incremental = risk_exposures, cs_projected = risk_exposures,
     cs_reserve_impact = inr_money 35000,
     cs_rounding = \<lparr>re_requested = 50000, re_approved = 35000, re_remainder = 15000, re_method = ''FLOOR_TO_BOUNDED_UNITS''\<rparr>,
     cs_constraints = [], cs_reasons = [], cs_configuration_hash = 1, cs_generated_at = 20, cs_valid_from = 10, cs_expires_at = 90\<rparr>"

definition risk_candidate :: allocation_candidate where
  "risk_candidate = \<lparr>ca_id = 1, ca_spec = risk_candidate_spec, ca_raw = canonicalAllocationCandidate risk_candidate_spec\<rparr>"

lemma risk_snapshot_eq: "risk_snapshot = \<lparr>psn_id = 1, psn_spec = risk_state 1 10 0 [], psn_raw = canonicalSnapshot (risk_state 1 10 0 [])\<rparr>"
proof -
  have "normalizeExposures [] = Inr []" by (simp add: normalizeExposures_def bind_r_def)
  from risk_state_new [OF _ _ _ _ risk_raw(1) this] show ?thesis by (simp add: risk_snapshot_def)
qed

lemma risk_input_fields [simp]: "ain_proposal risk_input = risk_proposal" "psn_id (ain_snapshot risk_input) = 1"
  "psn_spec (ain_snapshot risk_input) = risk_state 1 10 0 []" "ain_time risk_input = 20"
  "im_version (ain_master risk_input) = ''m1''" "Master_Instrument (ain_master risk_input) 11 = Some risk_instrument"
  "ain_policy risk_input = risk_allocation_policy" "tp_draft risk_proposal = risk_draft" "tp_metadata risk_proposal = risk_metadata"
  "tp_id risk_proposal = 1" "proposal_is_zero risk_proposal = False"
  by (simp_all add: risk_input_def risk_snapshot_eq Master_Instrument_def risk_proposal_eq proposal_is_zero_def)

lemma risk_limits_found:
  "find_allocation risk_input = Some (risk_allocation 0)" "requested_minor risk_input (risk_allocation 0) = Inr 50000"
  "required_reserve risk_input = Inr 15000"
  "capital_bound 50000 (capital_bounds risk_input (risk_allocation 0) 15000) = 35000"
  by (simp_all add: find_allocation_def risk_state_def risk_allocation_def risk_metadata_def requested_minor_def required_reserve_def
      mul_def checkedMul_def i64_defs quo_def bind_r_def risk_allocation_policy_def risk_limits_of_def risk_draft_def
      capital_bounds_def capital_bound_def available_after_def Let_def)

lemma risk_sized:
  "price_legs risk_input 0 (pd_legs risk_draft) = Inr (5000, [risk_bound\<lparr>lb_maximum_units := 0\<rparr>])"
  "size_legs risk_input 7 (pd_legs risk_draft) [risk_bound\<lparr>lb_maximum_units := 0\<rparr>] = Inr [risk_bound]"
  by (simp_all add: risk_draft_def risk_instrument_def risk_state_def mul_def checkedMul_def i64_defs quo_def bind_r_def risk_bound_def
      NewQuantity_def)

definition risk_totals :: exposure_totals where
  "risk_totals = \<lparr>et_gross = 35000, et_net = 35000, et_paid = 35000, et_received = 0, et_short = False\<rparr>"


lemma sample_currency [simp]: "NewMoney n ''INR'' = Inr (inr_money n)"
proof -
  have "NewCurrency ''INR'' = Inr ''INR''" by code_simp
  then show ?thesis by (simp add: NewMoney_def bind_r_def inr_money_def)
qed

lemma risk_known_minor [simp]: "known_minor ''INR'' n = risk_known n"
  by (simp add: known_minor_def NewKnownMoney_def or_zero_measured_def risk_known_def)

lemma risk_known_fields [simp]: "mm_availability (risk_known n) = AvailabilityKnown" "mm_value (risk_known n) = inr_money n"
  "known_value (risk_known n) = Some (inr_money n)" "MeasuredMoney_Validate (risk_known n) = Inr ()"
  by (simp_all add: risk_known_def known_value_def MeasuredMoney_Validate_def valid_availability_def)

lemma risk_exposure_eq: "risk_exposure d s =
   \<lparr>ex_dimension = d, ex_subject = s, ex_gross = risk_known 35000, ex_net = risk_known 35000, ex_premium_at_risk = risk_known 35000,
      ex_long = risk_known 35000, ex_short = risk_known 0, ex_premium_paid = risk_known 35000, ex_premium_received = risk_known 0,
      ex_maximum_loss = risk_known 35000, ex_loss_bound = LossBoundKnown, ex_overnight = False\<rparr>"
  by (simp add: risk_exposure_def risk_known_def Let_def)

lemma risk_projected:
  assumes "trim_space s = s" "s \<noteq> []" "length s \<le> 128" "valid_dimension d"
  shows "incremental_exposure ''INR'' ((d, s), risk_totals) = Inr (risk_exposure d s)"
    "bind_r (no_exposure ''INR'' (risk_exposure d s)) (\<lambda>zero. ProjectExposure zero (risk_exposure d s)) = Inr (risk_exposure d s)"
proof -
  note new = risk_exposure_new [OF assms]
  show "incremental_exposure ''INR'' ((d, s), risk_totals) = Inr (risk_exposure d s)"
    using new by (simp add: incremental_exposure_def risk_totals_def risk_exposure_eq)
  show "bind_r (no_exposure ''INR'' (risk_exposure d s)) (\<lambda>zero. ProjectExposure zero (risk_exposure d s)) = Inr (risk_exposure d s)"
    using new assms by (simp add: no_exposure_def risk_exposure_eq NewExposureRecord_def exposure_values_def loss_bound_ok_def negative_known_def
        bind_r_def ProjectExposure_def addMeasured_def NewKnownMoney_def risk_known_def [symmetric] i64_defs Let_def)
qed

lemma risk_totalled: "leg_totals risk_input (pd_legs risk_draft) [risk_bound] [] =
   Inr [((ExposurePortfolioWide, digest_string 3), risk_totals), ((ExposureInstrument, digest_string 11), risk_totals),
     ((ExposureUnderlying, ''U''), risk_totals)]"
  by (simp add: risk_draft_def risk_bound_def mul_def checkedMul_def i64_defs quo_def bind_r_def risk_state_def risk_instrument_def
      add_exposure_def get_or_def zero_totals_def put_def risk_totals_def Let_def)

definition risk_unsorted :: "exposure_record list" where
  "risk_unsorted = [risk_exposure ExposurePortfolioWide (digest_string 3), risk_exposure ExposureInstrument (digest_string 11),
     risk_exposure ExposureUnderlying ''U'']"

lemma risk_exposed: "exposure_of risk_input [risk_bound] = Inr (risk_unsorted, risk_unsorted)"
proof -
  have step: "project_all ''INR'' [] (((d, s), risk_totals) # rest) =
      bind_r (project_all ''INR'' [] rest) (\<lambda>(is, ps). Inr (risk_exposure d s # is, risk_exposure d s # ps))"
    if "trim_space s = s" "s \<noteq> []" "length s \<le> 128" "valid_dimension d" for d s rest
    using risk_projected [OF that] by (auto simp: bind_r_def split: sum.splits)
  have "pss_base_currency (risk_state 1 10 0 []) = ''INR''" "pss_exposures (risk_state 1 10 0 []) = []"
    by (simp_all add: risk_state_def)
  then show ?thesis
    by (simp add: exposure_of_def risk_totalled step valid_dimension_def risk_unsorted_def del: project_all.simps(2))
qed

lemma risk_unsorted_normal: "normalizeExposures risk_unsorted = Inr risk_exposures"
proof -
  have keys: "exposure_key (risk_exposure ExposureInstrument (digest_string 11)) = ''INSTRUMENT|'' @ digest_string 11"
    "exposure_key (risk_exposure ExposurePortfolioWide (digest_string 3)) = ''PORTFOLIO|'' @ digest_string 3"
    "exposure_key (risk_exposure ExposureUnderlying ''U'') = ''UNDERLYING|U''"
    by (simp_all add: exposure_key_def risk_exposure_def dimension_string_def Let_def)
  have "sort_key exposure_key risk_unsorted = risk_exposures"
    by (simp add: risk_unsorted_def risk_exposures_def keys Cons_le_Cons less_char_def)
  moreover have "check_exposures {} risk_unsorted = Inr ()"
    by (simp add: risk_unsorted_def risk_exposure_new valid_dimension_def keys)
  ultimately show ?thesis by (simp add: normalizeExposures_def risk_unsorted_def)
qed

lemma risk_candidate_raw: "length (canonicalAllocationCandidate risk_candidate_spec) \<le> 4096"
  unfolding canonicalAllocationCandidate_def
  by (simp add: risk_candidate_spec_def marshal_lengths inr_money_def leg_json_def risk_bound_def risk_exposures_def exposureRecordKey_def
      risk_exposure_eq measuredKey_def dimension_string_def loss_bound_string_def side_string_def resolution_string_def
      sizing_kind_string_def known_value_def availability_string_def json_body_solid [OF digest_solid])

lemma risk_candidate_new:
  "NewAllocationCandidate sample_sha (risk_candidate_spec\<lparr>cs_incremental := risk_unsorted, cs_projected := risk_unsorted\<rparr>) = Inr risk_candidate"
proof -
  let ?s = "risk_candidate_spec\<lparr>cs_incremental := risk_unsorted, cs_projected := risk_unsorted\<rparr>"
  have trim: "trim_space ''allocation-candidate/v2'' = ''allocation-candidate/v2''" by code_simp
  have zero: "money_is_zero_value zero_money" "money_currency zero_money = []" by (simp_all add: money_is_zero_value_def zero_money_def)
  have f: "\<not> candidate_fields_invalid ?s"
    by (simp add: candidate_fields_invalid_def risk_candidate_spec_def SizingIntent_Validate_def RoundingEvidence_Validate_def zero
        MeasuredMoney_Validate_def [of "\<lparr>mm_availability = AvailabilityUnknown, mm_value = zero_money\<rparr>"] valid_availability_def
        i64_defs)
  have b: "check_leg_bounds {} [risk_bound] = Inr ()"
    by (simp add: risk_bound_def AllocationLegBound_Validate_def quantity_is_valid_def valid_side_def rem64_def)
  have solid: "trim_space (canonicalAllocationCandidate risk_candidate_spec) \<noteq> []"
    by (simp add: canonicalAllocationCandidate_def)
  have dec_1: "length (dec_int 1) \<le> 4096" by (simp add: marshal_lengths)
  have id: "or_zero (NewAllocationCandidateID sample_sha
                       [digest_string 1, digest_string 1, dec_int 1, digest_string 1, dec_int 1, canonicalAllocationCandidate risk_candidate_spec]) = 1"
    using risk_candidate_raw solid_parts(1) [of 1] dec_1 solid
    by (simp add: NewAllocationCandidateID_def validParts_def or_zero_def del: One_nat_def)
  have fields: "?s\<lparr>cs_schema := ''allocation-candidate/v2''\<rparr> = ?s" "cs_schema ?s = ''allocation-candidate/v2''"
    "cs_leg_bounds ?s = [risk_bound]" "cs_constraints ?s = []" "cs_reasons ?s = []"  "cs_proposal ?s = risk_proposal"
    "cs_valid_from ?s = 10" "cs_expires_at ?s = 90" "cs_incremental ?s = risk_unsorted" "cs_projected ?s = risk_unsorted"
    "cs_snapshot risk_candidate_spec = 1" "cs_portfolio_revision risk_candidate_spec = 1" "cs_policy risk_candidate_spec = 1"
    "cs_policy_version risk_candidate_spec = 1"
    by (simp_all add: risk_candidate_spec_def)
  have same: "?s\<lparr>cs_leg_bounds := [risk_bound], cs_incremental := risk_exposures, cs_projected := risk_exposures,
     cs_constraints := [], cs_reasons := []\<rparr> = risk_candidate_spec"
    by (simp add: risk_candidate_spec_def)
  show ?thesis
    unfolding NewAllocationCandidate_def Let_def fields trim
    using f b
    by (simp add: risk_unsorted_normal bind_r_def normalizeAllocationReasons_def risk_metadata_def risk_draft_def)
      (simp add: same [simplified] fields id risk_candidate_def)
qed

lemma risk_evaluated: "Evaluate sample_sha risk_input = Inr risk_candidate"
proof -
  have f: "pss_state (risk_state 1 10 0 []) = PortfolioEnabled" "pss_base_currency (risk_state 1 10 0 []) = ''INR''"
    "pss_portfolio (risk_state 1 10 0 []) = 3" "pss_revision (risk_state 1 10 0 []) = 1"
    by (simp_all add: risk_state_def)
  have spec: "risk_candidate_spec\<lparr>cs_incremental := risk_unsorted, cs_projected := risk_unsorted\<rparr> =
     \<lparr>cs_schema = ''allocation-candidate/v2'', cs_proposal = risk_proposal, cs_portfolio = 3,
     cs_snapshot = 1, cs_portfolio_revision = 1, cs_strategy_allocation = 1, cs_policy = 1, cs_policy_version = 1,
     cs_sizing = \<lparr>si_kind = SizingStrategyBudgetBPS, si_value_bps = 10000\<rparr>, cs_capital = inr_money 35000,
     cs_premium = risk_known 35000, cs_risk_budget = \<lparr>mm_availability = AvailabilityUnknown, mm_value = zero_money\<rparr>,
     cs_leg_bounds = [risk_bound], cs_incremental = risk_unsorted, cs_projected = risk_unsorted,
     cs_reserve_impact = inr_money 35000,
     cs_rounding = \<lparr>re_requested = 50000, re_approved = 35000, re_remainder = 15000, re_method = ''FLOOR_TO_BOUNDED_UNITS''\<rparr>,
     cs_constraints = [], cs_reasons = [], cs_configuration_hash = 1, cs_generated_at = 20, cs_valid_from = 10, cs_expires_at = 90\<rparr>"
    by (simp add: risk_candidate_spec_def)
  note new = risk_candidate_new [unfolded spec]
  have d: "pd_sizing risk_draft = \<lparr>si_kind = SizingStrategyBudgetBPS, si_value_bps = 10000\<rparr>" "pd_valid_from risk_draft = 10"
    "pd_expires_at risk_draft = 90" by (simp_all add: risk_draft_def)
  have a: "sa_id (risk_allocation 0) = 1" "sa_state (risk_allocation 0) = StrategyAllocationEnabled" by (simp_all add: risk_allocation_def)
  have p: "apl_enabled risk_allocation_policy" "apl_from risk_allocation_policy = 1" "apl_until risk_allocation_policy = 100"
    "apl_id risk_allocation_policy = 1" "apl_version risk_allocation_policy = 1" "apl_hash risk_allocation_policy = 1"
    by (simp_all add: risk_allocation_policy_def)
  have k: "or_zero_measured (NewKnownMoney (inr_money n)) = risk_known n" for n
    by (simp add: NewKnownMoney_def or_zero_measured_def risk_known_def)
  have u: "or_zero_measured (NewUnavailableMoney AvailabilityUnknown) = \<lparr>mm_availability = AvailabilityUnknown, mm_value = zero_money\<rparr>"
    by (simp add: NewUnavailableMoney_def or_zero_measured_def)
  have m: "mul 5000 7 = Inr 35000" "quo 35000 5000 = 7" "wrap64 15000 = 15000"
    by (simp_all add: mul_def checkedMul_def i64_defs quo_def)
  show ?thesis
    by (simp add: Evaluate_def Let_def f a p d k u m risk_limits_found risk_sized risk_exposed bind_r_def new del: One_nat_def)
qed

end
