(* ===== verification/Risk_Decided.thy ===== *)
theory Risk_Decided
  imports Risk_Trace
begin

text \<open>
  The second half of a call of the runner on the sample: the kill switch rule passes, the evaluation and the
  decision are built, the next checkpoint reserves the capital, and the store commits the publication.
\<close>

section \<open>The verdict of the kill switch rule\<close>

definition risk_configured :: rule_configuration where
  "risk_configured = risk_rule 1 ''KILL_SWITCH''"

definition risk_judge :: rule_descriptor where
  "risk_judge = newProductionRule ''KILL_SWITCH'' ''KILL_SWITCH''"

definition risk_rule_input :: rule_input where
  "risk_rule_input = \<lparr>rri_schema = ''risk-rule-input/v2'', rri_proposal = risk_proposal, rri_snapshot = risk_snapshot,
     rri_candidate = risk_candidate, rri_allocation = risk_allocation 0,
     rri_trading_date = \<lparr>cd_year = 2024, cd_month = 1, cd_day = 2\<rparr>, rri_session = ''PORTFOLIO_DECISION'',
     rri_policy = 1, rri_policy_version = 1, rri_configuration = risk_configured, rri_at = 20\<rparr>"

definition risk_item_spec :: risk_evidence_spec where
  "risk_item_spec = \<lparr>res_code = ''KILL_SWITCH_STATE'', res_observed = known_state ''INACTIVE'', res_limit = known_state ''NON_BLOCKING'',
      res_projected = known_state ''INACTIVE'', res_headroom = known_state ''NOT_APPLICABLE'', res_unit = ''CONTROL_STATE'',
      res_comparison = CompareEqual, res_subject_type = SubjectPortfolio, res_subject = ''ALL:portfolio-controls'',
      res_snapshot = 1, res_proposal = 1, res_formula = ''phase-3-m3/v1'', res_at = 20,
      res_explanation = ''immutable portfolio control state enforced fail closed''\<rparr>"

definition risk_item :: risk_evidence where
  "risk_item = \<lparr>rev_spec = risk_item_spec, rev_raw = canonicalEvidence risk_item_spec\<rparr>"

definition risk_verdict :: rule_result where
  "risk_verdict = \<lparr>rrs_rule = ''KILL_SWITCH'', rrs_version = 1, rrs_hash = 1, rrs_status = RulePass, rrs_reason = ''KILL_SWITCH_CLEAR'',
     rrs_severity = SeverityBlocking, rrs_effect = EffectNone, rrs_evidence = [risk_item], rrs_adjustment = None, rrs_at = 20\<rparr>"

lemma risk_texts [simp]:
  "trim_space ''KILL_SWITCH_STATE'' = ''KILL_SWITCH_STATE''" "trim_space ''CONTROL_STATE'' = ''CONTROL_STATE''"
  "trim_space ''ALL:portfolio-controls'' = ''ALL:portfolio-controls''" "trim_space ''phase-3-m3/v1'' = ''phase-3-m3/v1''"
  "trim_space ''immutable portfolio control state enforced fail closed'' = ''immutable portfolio control state enforced fail closed''"
  "trim_space ''KILL_SWITCH_CLEAR'' = ''KILL_SWITCH_CLEAR''" "trim_space ''KILL_SWITCH'' = ''KILL_SWITCH''"
  by code_simp+

lemma risk_patterns [simp]: "rulePattern ''KILL_SWITCH_STATE''" "rulePattern ''KILL_SWITCH_CLEAR''" "rulePattern ''KILL_SWITCH''"
  by code_simp+

lemma json_body_space [simp]: "json_body (CHR 0x20 # s) = CHR 0x20 # json_body s"
  by (simp add: json_body.simps(2) json_char_def)

lemma risk_evidenced: "NewRiskEvidence risk_item_spec = Inr risk_item"
proof -
  have state: "EvidenceValue_Validate (known_state s) = Inr ()" if "trim_space s \<noteq> []" "length s \<le> 256" for s
    using that by (simp add: EvidenceValue_Validate_def known_state_def plain_value_def valid_availability_def money_is_zero_value_def zero_money_def Let_def)
  have raw: "length (canonicalEvidence risk_item_spec) \<le> 65536"
    unfolding canonicalEvidence_def
    by (simp add: risk_item_spec_def marshal_lengths comparison_string_def subject_string_def evidenceValue_def known_state_def plain_value_def
      money_is_zero_value_def zero_money_def evidence_kind_string_def availability_string_def Let_def)
  have same: "risk_item_spec\<lparr>res_code := ''KILL_SWITCH_STATE'', res_unit := ''CONTROL_STATE'', res_subject := ''ALL:portfolio-controls'',
     res_formula := ''phase-3-m3/v1'', res_explanation := ''immutable portfolio control state enforced fail closed''\<rparr> = risk_item_spec"
    by (simp add: risk_item_spec_def)
  have f: "res_code risk_item_spec = ''KILL_SWITCH_STATE''" "res_unit risk_item_spec = ''CONTROL_STATE''"
    "res_subject risk_item_spec = ''ALL:portfolio-controls''" "res_formula risk_item_spec = ''phase-3-m3/v1''"
    "res_explanation risk_item_spec = ''immutable portfolio control state enforced fail closed''"
    "res_comparison risk_item_spec = CompareEqual" "res_subject_type risk_item_spec = SubjectPortfolio" "res_snapshot risk_item_spec = 1"
    "res_proposal risk_item_spec = 1" "res_at risk_item_spec = 20" "res_observed risk_item_spec = known_state ''INACTIVE''"
    "res_limit risk_item_spec = known_state ''NON_BLOCKING''" "res_projected risk_item_spec = known_state ''INACTIVE''"
    "res_headroom risk_item_spec = known_state ''NOT_APPLICABLE''"
    by (simp_all add: risk_item_spec_def)
  show ?thesis
    unfolding NewRiskEvidence_def Let_def f risk_texts same
    using raw by (simp add: state risk_item_def)
qed

lemma risk_item_raw: "rev_raw risk_item \<noteq> []" "res_code (rev_spec risk_item) = ''KILL_SWITCH_STATE''"
  by (simp_all add: risk_item_def canonicalEvidence_def risk_item_spec_def)

lemma risk_verdict_new: "NewRuleResult risk_verdict = Inr risk_verdict"
  by (simp add: NewRuleResult_def risk_verdict_def NewRiskRuleID_def valid_severity_def valid_effect_def status_effect_ok_def
      risk_item_raw bind_r_def Let_def)

lemma risk_configured_new: "NewRiskRuleConfiguration sample_sha risk_configured = Inr risk_configured"
proof -
  have json: "ObjectBounded ''{}'' rule_limits = Inr ''{}''" by code_simp
  have texts: "trim_space ''Pure deterministic Phase 3 production-style risk control'' \<noteq> []" "trim_space ''risk-rule/v1'' \<noteq> []"
    by simp_all
  show ?thesis
    by (simp add: NewRiskRuleConfiguration_def risk_configured_def risk_rule_def newProductionRule_def RiskRuleDescriptor_Validate_def
        NewRiskRuleID_def texts valid_severity_def valid_effect_def json NewRiskConfigurationHash_def risk_checksum_def or_zero_def Let_def)
qed

lemma risk_rule_input_new: "NewRiskRuleInput sample_sha risk_rule_input = Inr risk_rule_input"
proof -
  have s: "psn_id risk_snapshot = 1" "pss_revision (psn_spec risk_snapshot) = 1" "ca_id risk_candidate = 1"
    "cs_proposal (ca_spec risk_candidate) = risk_proposal" "cs_snapshot (ca_spec risk_candidate) = 1"
    "cs_portfolio_revision (ca_spec risk_candidate) = 1" "sa_id (risk_allocation 0) = 1"
    by (simp_all add: risk_snapshot_eq risk_state_def risk_candidate_def risk_candidate_spec_def risk_allocation_def)
  show ?thesis
    by (simp add: NewRiskRuleInput_def risk_rule_input_def s risk_configured_new bind_r_def date_is_zero_def)
qed

lemma risk_judged: "Rule_Evaluate False risk_judge risk_rule_input = Inr risk_verdict"
proof -
  have config: "unmarshal_config (rrc_json (rri_configuration risk_rule_input)) = Some empty_config"
  proof -
    have "unmarshal_config ''{}'' = Some empty_config" by code_simp
    then show ?thesis by (simp add: risk_rule_input_def risk_configured_def risk_rule_def)
  qed
  have item: "stateEvidence risk_rule_input ''KILL_SWITCH_STATE'' ''INACTIVE'' ''ALL'' ''portfolio-controls'' = Inr risk_item"
    using risk_evidenced by (simp add: stateEvidence_def risk_rule_input_def risk_snapshot_eq risk_item_spec_def)
  have verdict: "rule_result_of risk_judge risk_rule_input RulePass ''KILL_SWITCH_CLEAR'' EffectNone [risk_item] None = risk_verdict"
    using risk_verdict_new by (simp add: rule_result_of_def risk_judge_def newProductionRule_def risk_rule_input_def risk_configured_def risk_rule_def
        risk_verdict_def Let_def)
  have switches: "pss_kill_switches (input_snapshot risk_rule_input) = [risk_switch]"
    by (simp add: input_snapshot_def risk_rule_input_def risk_snapshot_eq risk_state_def)
  have applies: "controlApplies (ks_scope risk_switch) (ks_subject risk_switch) risk_rule_input" "\<not> KillSwitch_Blocks risk_switch"
    by (simp_all add: controlApplies_def risk_switch_def KillSwitch_Blocks_def)
  have "rrd_id risk_judge = ''KILL_SWITCH''" by (simp add: risk_judge_def newProductionRule_def)
  then show ?thesis
    using item verdict applies by (simp add: Rule_Evaluate_def config killSwitch_def control_rule_def switches Let_def)
qed

section \<open>The evaluation\<close>

definition risk_eval_spec :: evaluation_spec where
  "risk_eval_spec = \<lparr>rvl_schema = ''risk-evaluation/v2'', rvl_id = 1, rvl_proposal = 1, rvl_candidate = 1, rvl_snapshot = 1,
     rvl_revision = 1, rvl_policy = 1, rvl_policy_version = 1, rvl_hash = 1, rvl_results = [risk_verdict], rvl_violations = [],
     rvl_technical = [], rvl_started_at = 20, rvl_completed_at = 20\<rparr>"

definition risk_eval :: risk_evaluation where
  "risk_eval = \<lparr>rva_spec = risk_eval_spec, rva_checksum = 1, rva_raw = canonicalEvaluation sample_sha risk_eval_spec\<rparr>"

lemma trim_evaluation [simp]: "trim_space ''risk-evaluation/v2'' = ''risk-evaluation/v2''"
  by code_simp

lemma risk_eval_id: "DeriveRiskEvaluationID sample_sha (risk_eval_spec\<lparr>rvl_id := i\<rparr>) = Inr 1"
proof -
  have parts: "evaluation_parts sample_sha (risk_eval_spec\<lparr>rvl_id := i\<rparr>) =
     [''risk-evaluation/v2'', digest_string 1, digest_string 1, digest_string 1, dec_int (int 1), digest_string 1, dec_int (int 1),
      digest_string 1, rfc3339_nano 20, rfc3339_nano 20, ''KILL_SWITCH'', dec_int (int 1), ''PASS'', ''KILL_SWITCH_CLEAR'', ''NONE'',
      digest_string 1, ''KILL_SWITCH_STATE'', digest_string 1]"
    using risk_item_raw by (simp add: evaluation_parts_def risk_eval_spec_def risk_verdict_def rule_status_string_def effect_string_def
        evidence_checksum_def NewEvidenceChecksum_def risk_checksum_def or_zero_def)
  have "length (dec_int (int 1)) \<le> 4096" "length (rfc3339_nano 20) \<le> 4096" "trim_space (rfc3339_nano 20) \<noteq> []" "trim_space (dec_int 1) \<noteq> []"
    by (simp_all add: marshal_lengths)
  then show ?thesis
    unfolding DeriveRiskEvaluationID_def parts NewRiskEvaluationID_def risk_identity_def validParts_risk_def risk_part_def 
    by (simp add: risk_eval_spec_def del: of_nat_1)
qed

lemma risk_eval_raw: "length (canonicalEvaluation sample_sha risk_eval_spec) \<le> 262144"
  unfolding canonicalEvaluation_def
  by (simp add: risk_eval_spec_def risk_verdict_def marshal_lengths rule_status_string_def rule_severity_string_def effect_string_def
      evidence_checksum_def NewEvidenceChecksum_def risk_checksum_def or_zero_def risk_item_raw)

definition risk_checked_policy :: risk_policy where
  "risk_checked_policy = risk_policy_of [risk_rule 1 ''KILL_SWITCH'']"

lemma risk_built_evaluation:
  "buildEvaluation sample_sha 20 risk_proposal risk_snapshot risk_candidate risk_checked_policy [risk_verdict] [] = Inr risk_eval"
proof -
  have f: "tp_id risk_proposal = 1" "ca_id risk_candidate = 1" "psn_id risk_snapshot = 1" "pss_revision (psn_spec risk_snapshot) = 1"
    "rpo_id risk_checked_policy = 1" "rpo_version risk_checked_policy = 1" "rpo_hash risk_checked_policy = 1"
    by (simp_all add: risk_candidate_def risk_snapshot_eq risk_state_def risk_checked_policy_def risk_policy_of_def)
  have spec: "\<lparr>rvl_schema = ''risk-evaluation/v2'', rvl_id = i, rvl_proposal = 1, rvl_candidate = 1, rvl_snapshot = 1,
     rvl_revision = 1, rvl_policy = 1, rvl_policy_version = 1, rvl_hash = 1, rvl_results = [risk_verdict], rvl_violations = [],
     rvl_technical = [], rvl_started_at = 20, rvl_completed_at = 20\<rparr> = risk_eval_spec\<lparr>rvl_id := i\<rparr>" for i
    by (simp add: risk_eval_spec_def)
  have same: "risk_eval_spec\<lparr>rvl_id := 1, rvl_violations := []\<rparr> = risk_eval_spec"
    "risk_eval_spec\<lparr>rvl_schema := ''risk-evaluation/v2''\<rparr> = risk_eval_spec"
    "risk_eval_spec\<lparr>rvl_violations := [], rvl_technical := []\<rparr> = risk_eval_spec"
    by (simp_all add: risk_eval_spec_def)
  have g: "rvl_schema risk_eval_spec = ''risk-evaluation/v2''" "rvl_violations risk_eval_spec = []" "rvl_technical risk_eval_spec = []"
    "rvl_results risk_eval_spec = [risk_verdict]" "rvl_id risk_eval_spec = 1"
    by (simp_all add: risk_eval_spec_def)
  have id: "DeriveRiskEvaluationID sample_sha risk_eval_spec = Inr 1"
    using risk_eval_id [of "rvl_id risk_eval_spec"] by simp
  have new: "NewRiskEvaluation sample_sha risk_eval_spec = Inr risk_eval"
    unfolding NewRiskEvaluation_def Let_def g trim_evaluation same id
    using risk_eval_raw by (simp add: same g risk_eval_def NewEvidenceChecksum_def risk_checksum_def or_zero_def canonicalEvaluation_def)
  have "rrs_status risk_verdict = RulePass" by (simp add: risk_verdict_def)
  then show ?thesis
    unfolding buildEvaluation_def Let_def f spec risk_eval_id
    using new by (simp add: same)
qed

section \<open>The decision\<close>

definition risk_decision_spec :: decision_spec where
  "risk_decision_spec = \<lparr>ds_schema = ''portfolio-risk-decision/v2'', ds_proposal = risk_proposal, ds_portfolio = 3, ds_snapshot = 1,
     ds_expected_revision = 1, ds_candidate = risk_candidate, ds_evaluation = risk_eval, ds_outcome = DecisionApproved,
     ds_primary = ''ALL_RULES_PASSED'', ds_secondary = [], ds_violations = [],
     ds_sizing = \<lparr>si_kind = SizingStrategyBudgetBPS, si_value_bps = 10000\<rparr>, ds_approved = Some (candidate_bounds risk_candidate),
     ds_configuration = 1, ds_configuration_hash = 1, ds_policy = 1, ds_policy_version = 1, ds_risk_hash = 1, ds_generated_at = 20,
     ds_expires_at = 90, ds_evidence = 1\<rparr>"

definition risk_decided :: portfolio_risk_decision where
  "risk_decided = \<lparr>prd_id = 1, prd_checksum = 1, prd_spec = risk_decision_spec, prd_raw = canonicalDecision risk_decision_spec\<rparr>"

lemma risk_candidate_fields [simp]: "ca_id risk_candidate = 1" "ca_spec risk_candidate = risk_candidate_spec"
  "cs_capital risk_candidate_spec = inr_money 35000" "cs_leg_bounds risk_candidate_spec = [risk_bound]"
  "cs_expires_at risk_candidate_spec = 90" "cs_valid_from risk_candidate_spec = 10" "cs_proposal risk_candidate_spec = risk_proposal"
  "cs_portfolio risk_candidate_spec = 3" "cs_snapshot risk_candidate_spec = 1" "cs_portfolio_revision risk_candidate_spec = 1"
  "cs_strategy_allocation risk_candidate_spec = 1" "cs_projected risk_candidate_spec = risk_exposures"
  by (simp_all add: risk_candidate_def risk_candidate_spec_def)

lemma risk_snapshot_fields [simp]: "psn_id risk_snapshot = 1" "psn_spec risk_snapshot = risk_state 1 10 0 []"
  "pss_portfolio (risk_state n t r es) = 3" "pss_revision (risk_state n t r es) = n" "pss_configuration_hash (risk_state n t r es) = 1"
  "pss_configuration (risk_state n t r es) = 1" "pss_allocations (risk_state n t r es) = [risk_allocation r]"
  "pss_exposures (risk_state n t r es) = es" "pss_kill_switches (risk_state n t r es) = [risk_switch]"
  "pss_circuit_breakers (risk_state n t r es) = []"
  by (simp_all add: risk_snapshot_eq risk_state_def)

lemma risk_decision_fields:
  "ds_schema risk_decision_spec = ''portfolio-risk-decision/v2''" "ds_proposal risk_decision_spec = risk_proposal"
  "ds_portfolio risk_decision_spec = 3" "ds_snapshot risk_decision_spec = 1" "ds_expected_revision risk_decision_spec = 1"
  "ds_candidate risk_decision_spec = risk_candidate" "ds_evaluation risk_decision_spec = risk_eval"
  "ds_outcome risk_decision_spec = DecisionApproved" "ds_primary risk_decision_spec = ''ALL_RULES_PASSED''"
  "ds_secondary risk_decision_spec = []" "ds_violations risk_decision_spec = []"
  "ds_sizing risk_decision_spec = \<lparr>si_kind = SizingStrategyBudgetBPS, si_value_bps = 10000\<rparr>"
  "ds_approved risk_decision_spec = Some (candidate_bounds risk_candidate)" "ds_configuration risk_decision_spec = 1"
  "ds_configuration_hash risk_decision_spec = 1" "ds_policy risk_decision_spec = 1" "ds_policy_version risk_decision_spec = 1"
  "ds_risk_hash risk_decision_spec = 1" "ds_generated_at risk_decision_spec = 20" "ds_expires_at risk_decision_spec = 90"
  "ds_evidence risk_decision_spec = 1"
  by (simp_all add: risk_decision_spec_def)

lemma risk_eval_fields:
  "rvl_id (rva_spec risk_eval) = 1" "rvl_proposal (rva_spec risk_eval) = 1" "rvl_candidate (rva_spec risk_eval) = 1"
  "rvl_snapshot (rva_spec risk_eval) = 1" "rvl_revision (rva_spec risk_eval) = 1" "rvl_policy (rva_spec risk_eval) = 1"
  "rvl_policy_version (rva_spec risk_eval) = 1" "rvl_hash (rva_spec risk_eval) = 1" "rvl_results (rva_spec risk_eval) = [risk_verdict]"
  "rvl_violations (rva_spec risk_eval) = []" "rvl_technical (rva_spec risk_eval) = []" "rva_checksum risk_eval = 1"
  by (simp_all add: risk_eval_def risk_eval_spec_def)

lemma risk_decision_raw: "length (canonicalDecision risk_decision_spec) \<le> 4096"
  unfolding canonicalDecision_def
  by (simp add: risk_decision_fields risk_eval_fields marshal_lengths outcome_string_def approved_json_def candidate_bounds_def leg_json_def risk_bound_def
      inr_money_def side_string_def resolution_string_def sizing_kind_string_def)

lemma risk_bounds_kept: "outcome_bounds risk_decision_spec = Inr (Some (candidate_bounds risk_candidate))"
proof -
  have leg: "AllocationLegBound_Validate risk_bound = Inr ()"
    by (simp add: risk_bound_def AllocationLegBound_Validate_def quantity_is_valid_def valid_side_def rem64_def)
  have same: "(candidate_bounds risk_candidate)\<lparr>ab_leg_bounds := [risk_bound], ab_constraints := []\<rparr> = candidate_bounds risk_candidate"
    by (simp add: candidate_bounds_def)
  have new: "newApprovedBounds (candidate_bounds risk_candidate) risk_candidate = Inr (candidate_bounds risk_candidate)"
    using leg same by (simp add: newApprovedBounds_def candidate_bounds_def Let_def)
  have "approvedBoundsWithinCandidate (candidate_bounds risk_candidate) risk_candidate = (True, False)"
    by (simp add: approvedBoundsWithinCandidate_def candidate_bounds_def leg_within_candidate_def Let_def)
  then show ?thesis
    using new by (simp add: outcome_bounds_def risk_decision_fields candidate_bounds_def Let_def)
qed

lemma risk_decision_new: "NewPortfolioRiskDecision sample_sha risk_decision_spec = Inr risk_decided"
proof -
  have trim: "trim_space ''portfolio-risk-decision/v2'' = ''portfolio-risk-decision/v2''" by code_simp
  have same: "risk_decision_spec\<lparr>ds_schema := ''portfolio-risk-decision/v2''\<rparr> = risk_decision_spec"
    "risk_decision_spec\<lparr>ds_secondary := [], ds_approved := Some (candidate_bounds risk_candidate)\<rparr> = risk_decision_spec"
    by (simp_all add: risk_decision_spec_def)
  have draft: "pd_sizing risk_draft = \<lparr>si_kind = SizingStrategyBudgetBPS, si_value_bps = 10000\<rparr>" "pd_expires_at risk_draft = 90"
    by (simp_all add: risk_draft_def)
  have ok: "\<not> decision_fields_invalid risk_decision_spec"
    by (simp add: decision_fields_invalid_def risk_decision_fields risk_eval_fields decision_reasons_def SizingIntent_Validate_def draft
        evaluationSupportsOutcome_def risk_verdict_def Let_def)
  have reasons: "normalizeDecisionReasons [] primary = Inr []" for primary
    by (simp add: normalizeDecisionReasons_def bind_r_def)
  have parts: "validParts_risk [digest_string 1, digest_string 3, digest_string 1, dec_int (int 1), digest_string 1, digest_string 1,
      canonicalDecision risk_decision_spec]"
  proof -
    have "length (dec_int (int 1)) \<le> 4096" by (simp add: marshal_lengths)
    moreover have "trim_space (canonicalDecision risk_decision_spec) \<noteq> []" by (simp add: canonicalDecision_def)
    ultimately show ?thesis
      using risk_decision_raw solid_parts(1) [of 1] by (simp add: validParts_risk_def risk_part_def del: of_nat_1)
  qed
  have checksum: "NewDecisionChecksum sample_sha (canonicalDecision risk_decision_spec) = Inr 1"
    by (simp add: NewDecisionChecksum_def risk_checksum_def canonicalDecision_def)
  show ?thesis
    unfolding NewPortfolioRiskDecision_def Let_def risk_decision_fields trim same
    using ok risk_decision_raw parts checksum
    by (simp add: bind_r_def reasons risk_bounds_kept risk_decision_fields risk_eval_fields same NewPortfolioRiskDecisionID_def
        risk_identity_def risk_decided_def or_zero_def del: of_nat_1 One_nat_def)
qed

lemma risk_built_decision:
  "buildDecision sample_sha 20 risk_proposal risk_snapshot 1 risk_checked_policy risk_candidate risk_eval = Inr risk_decided"
proof -
  have "decide_all (DecisionApproved, ''ALL_RULES_PASSED'', Some (candidate_bounds risk_candidate)) [risk_verdict] =
      Inr (DecisionApproved, ''ALL_RULES_PASSED'', Some (candidate_bounds risk_candidate))"
    by (simp add: decide_def risk_verdict_def bind_r_def)
  moreover have "pd_sizing risk_draft = \<lparr>si_kind = SizingStrategyBudgetBPS, si_value_bps = 10000\<rparr>"
    by (simp add: risk_draft_def)
  moreover have "rpo_id risk_checked_policy = 1" "rpo_version risk_checked_policy = 1" "rpo_hash risk_checked_policy = 1"
    by (simp_all add: risk_checked_policy_def risk_policy_of_def)
  moreover have "ab_valid_until (candidate_bounds risk_candidate) = 90" by (simp add: candidate_bounds_def)
  ultimately show ?thesis
    using risk_decision_new unfolding risk_decision_spec_def by (simp add: buildDecision_def risk_eval_fields bind_r_def del: One_nat_def)
qed

section \<open>The next checkpoint\<close>

definition risk_start :: portfolio_checkpoint where
  "risk_start = risk_genesis\<lparr>pck_snapshot_checksum := 1, pck_checksum := 1,
     pck_raw := canonicalCheckpoint (risk_genesis\<lparr>pck_snapshot_checksum := 1\<rparr>)\<rparr>"

definition risk_reserved_spec :: capital_reservation_spec where
  "risk_reserved_spec = \<lparr>crs_schema = ''capital-reservation/v1'', crs_id = 1, crs_portfolio = 3, crs_revision = 2, crs_candidate = 1,
     crs_strategy_allocation = 1, crs_amount = inr_money 35000, crs_created_at = 20, crs_expires_at = 90\<rparr>"

definition risk_reserved :: capital_reservation where
  "risk_reserved = projr (NewCapitalReservation risk_reserved_spec)"

definition risk_next_snapshot :: portfolio_snapshot where
  "risk_next_snapshot = \<lparr>psn_id = 1, psn_spec = risk_state 2 20 35000 risk_exposures,
     psn_raw = canonicalSnapshot (risk_state 2 20 35000 risk_exposures)\<rparr>"

definition risk_next_of :: "digest \<Rightarrow> digest \<Rightarrow> string \<Rightarrow> portfolio_checkpoint" where
  "risk_next_of snapshot_checksum checksum raw = \<lparr>pck_snapshot = risk_next_snapshot, pck_snapshot_checksum = snapshot_checksum,
     pck_parent_snapshot = 1, pck_parent_checksum = 1, pck_trigger = 1, pck_proposal = 1, pck_decision = 1, pck_reservation = 1,
     pck_checksum = checksum, pck_raw = raw\<rparr>"

definition risk_next :: portfolio_checkpoint where
  "risk_next = risk_next_of 1 1 (canonicalCheckpoint (risk_next_of 1 0 []))"

lemma risk_start_fields [simp]: "pck_snapshot risk_start = risk_snapshot" "pck_checksum risk_start = 1"
  by (simp_all add: risk_start_def risk_genesis_def)

lemma risk_checksums [simp]: "NewStateChecksum_port sample_sha (canonicalSnapshot s) = Inr 1"
  "NewStateChecksum_port sample_sha (canonicalCheckpoint c) = Inr 1" "NewStateChecksum_port sample_sha (canonicalDecision d) = Inr 1"
  "NewStateChecksum_port sample_sha (join ''|'' [digest_string x, digest_string y, digest_string z]) = Inr 1"
proof -
  have "digest_string x \<noteq> []" by simp
  then show "NewStateChecksum_port sample_sha (join ''|'' [digest_string x, digest_string y, digest_string z]) = Inr 1"
    by (cases "digest_string x") (simp_all add: NewStateChecksum_port_def)
qed (simp_all add: NewStateChecksum_port_def canonicalSnapshot_def canonicalCheckpoint_def canonicalDecision_def)

lemma risk_reservation_new: "NewCapitalReservation risk_reserved_spec = Inr risk_reserved" "cr_spec risk_reserved = risk_reserved_spec"
proof -
  have trim: "trim_space ''capital-reservation/v1'' = ''capital-reservation/v1''" by code_simp
  then have "\<exists>r. NewCapitalReservation risk_reserved_spec = Inr r \<and> cr_spec r = risk_reserved_spec"
    by (simp add: NewCapitalReservation_def risk_reserved_spec_def Let_def)
  then show "NewCapitalReservation risk_reserved_spec = Inr risk_reserved" "cr_spec risk_reserved = risk_reserved_spec"
    by (auto simp: risk_reserved_def)
qed

lemma risk_capital_reserved:
  "reserve_capital ((risk_state 1 10 0 [])\<lparr>pss_revision := 2, pss_generated_at := 20, pss_as_of := 20\<rparr>) risk_candidate (inr_money 35000) =
     Inr (risk_state 2 20 35000 risk_exposures)"
proof -
  have sub: "CheckedMoneySubtract (inr_money a) (inr_money 35000) = Inr (inr_money (a - 35000))" if "0 \<le> a" "a \<le> 100000" for a
    using that by (simp add: CheckedMoneySubtract_def i64_defs inr_money_def [symmetric] bind_r_def)
  have capital: "NewCapitalState (inr_money 100000) (inr_money 65000) (inr_money 35000) (inr_money 0) =
      Inr \<lparr>cap_total = inr_money 100000, cap_available = inr_money 65000, cap_reserved = inr_money 35000, cap_deployed = inr_money 0\<rparr>"
    by (simp add: NewCapitalState_def i64_defs bind_r_def)
  have allocation: "NewStrategyAllocation (risk_allocation 35000) = Inr (risk_allocation 35000)"
    by (simp add: NewStrategyAllocation_def risk_allocation_def i64_defs bind_r_def)
  have fields: "sa_id (risk_allocation 0) = 1" "sa_remaining (risk_allocation 0) = inr_money 50000" "sa_reserved (risk_allocation 0) = inr_money 0"
    "sa_state (risk_allocation 0) = StrategyAllocationEnabled"
    by (simp_all add: risk_allocation_def)
  have moved: "(risk_allocation 0)\<lparr>sa_remaining := inr_money 15000, sa_reserved := inr_money 35000\<rparr> = risk_allocation 35000"
    "(risk_allocation 0)\<lparr>sa_remaining := inr_money 15000, sa_reserved := inr_money 35000, sa_state := StrategyAllocationEnabled\<rparr> =
     risk_allocation 35000" "(risk_allocation 35000)\<lparr>sa_state := StrategyAllocationEnabled\<rparr> = risk_allocation 35000"
    by (simp_all add: risk_allocation_def)
  have reserve: "reserve_allocation 1 (inr_money 35000) [risk_allocation 0] = Inr ([risk_allocation 35000], True)"
    using sub [of 50000] allocation
    by (simp add: fields moved CheckedMoneyAdd_def i64_defs bind_r_def del: One_nat_def)
  have merge: "mergeExposures [] risk_exposures = risk_exposures"
    by (simp add: mergeExposures_def risk_exposures_def same_subject_def risk_exposure_def Let_def)
  let ?s = "(risk_state 1 10 0 [])\<lparr>pss_revision := 2, pss_generated_at := 20, pss_as_of := 20\<rparr>"
  have s: "pss_capital ?s = \<lparr>cap_total = inr_money 100000, cap_available = inr_money 100000, cap_reserved = inr_money 0, cap_deployed = inr_money 0\<rparr>"
    "pss_allocations ?s = [risk_allocation 0]" "pss_exposures ?s = []"
    by (simp_all add: risk_state_def)
  have result: "?s\<lparr>pss_capital := \<lparr>cap_total = inr_money 100000, cap_available = inr_money 65000, cap_reserved = inr_money 35000,
      cap_deployed = inr_money 0\<rparr>, pss_allocations := [risk_allocation 35000], pss_exposures := risk_exposures\<rparr> =
     risk_state 2 20 35000 risk_exposures"
    by (simp add: risk_state_def)
  show ?thesis
    unfolding reserve_capital_def s
    using sub [of 100000] capital reserve merge result
    by (simp add: CheckedMoneyAdd_def i64_defs bind_r_def del: One_nat_def)
qed

lemma risk_next_built: "nextCheckpoint sample_sha 20 risk_start risk_candidate risk_decided 1 = Inr (Some risk_reserved, risk_next)"
proof -
  have d: "ds_approved (prd_spec risk_decided) = Some (candidate_bounds risk_candidate)" "prd_id risk_decided = 1"
    "ds_violations (prd_spec risk_decided) = []" "ds_proposal (prd_spec risk_decided) = risk_proposal"
    "prd_raw risk_decided = canonicalDecision risk_decision_spec"
    by (simp_all add: risk_decided_def risk_decision_fields)
  have b: "ab_maximum_capital (candidate_bounds risk_candidate) = inr_money 35000" "ab_valid_until (candidate_bounds risk_candidate) = 90"
    by (simp_all add: candidate_bounds_def)
  have id: "NewCapitalReservationID sample_sha [digest_string 1, digest_string 1, digest_string 1, dec_int (int 2)] = Inr 1"
  proof -
    have "length (dec_int (int 2)) \<le> 4096" by (simp add: marshal_lengths)
    then show ?thesis using solid_parts(1) [of 2] by (simp add: NewCapitalReservationID_def validParts_def)
  qed
  have spec: "\<lparr>crs_schema = ''capital-reservation/v1'', crs_id = 1, crs_portfolio = 3, crs_revision = 2, crs_candidate = 1,
     crs_strategy_allocation = 1, crs_amount = inr_money 35000, crs_created_at = 20, crs_expires_at = 90\<rparr> = risk_reserved_spec"
    by (simp add: risk_reserved_spec_def)
  have reserve: "reserve_decision sample_sha 20 risk_candidate risk_decided 1
      ((risk_state 1 10 0 [])\<lparr>pss_revision := 2, pss_generated_at := 20, pss_as_of := 20\<rparr>) =
      Inr (Some risk_reserved, risk_state 2 20 35000 risk_exposures)"
    unfolding reserve_decision_def d
    using risk_capital_reserved id risk_reservation_new(1)
    by (simp add: b bind_r_def or_zero_def spec del: One_nat_def of_nat_numeral)
  have effects: "applyControlEffects sample_sha 20 risk_decided (risk_state 2 20 35000 risk_exposures) = Inr (risk_state 2 20 35000 risk_exposures)"
    by (simp add: applyControlEffects_def d switched_def bind_r_def Let_def)
  have source: "(risk_state 2 20 35000 risk_exposures)\<lparr>pss_source_checksum := 1\<rparr> = risk_state 2 20 35000 risk_exposures"
    by (simp add: risk_state_def)
  have snapshot: "NewPortfolioSnapshot sample_sha (risk_state 2 20 35000 risk_exposures) = Inr risk_next_snapshot"
    using risk_state_new [OF _ _ _ _ risk_raw(2) risk_exposures_normal] by (simp add: risk_next_snapshot_def)
  have same: "(risk_next_of 0 0 [])\<lparr>pck_snapshot_checksum := 1\<rparr> = risk_next_of 1 0 []"
    "(risk_next_of 1 0 [])\<lparr>pck_checksum := 1, pck_raw := r\<rparr> = risk_next_of 1 1 r" for r
    by (simp_all add: risk_next_of_def)
  have n: "pck_snapshot (risk_next_of a c r) = risk_next_snapshot" "pck_snapshot_checksum (risk_next_of a c r) = a"
    "pck_checksum (risk_next_of a c r) = c" "pck_parent_snapshot (risk_next_of a c r) = 1" "pck_parent_checksum (risk_next_of a c r) = 1"
    "pck_trigger (risk_next_of a c r) = 1" "pck_proposal (risk_next_of a c r) = 1" "pck_decision (risk_next_of a c r) = 1"
    "psn_id risk_next_snapshot = 1" "psn_spec risk_next_snapshot = risk_state 2 20 35000 risk_exposures"
    "psn_raw risk_next_snapshot = canonicalSnapshot (risk_state 2 20 35000 risk_exposures)" for a c r
    by (simp_all add: risk_next_of_def risk_next_snapshot_def)
  have checkpoint: "NewPortfolioCheckpoint sample_sha (risk_next_of 0 0 []) = Inr risk_next"
    unfolding NewPortfolioCheckpoint_def Let_def n risk_checksums or_zero_def
    by (simp add: same n risk_next_def del: One_nat_def)
  have fold: "\<lparr>pck_snapshot = risk_next_snapshot, pck_snapshot_checksum = 0, pck_parent_snapshot = 1, pck_parent_checksum = 1,
     pck_trigger = 1, pck_proposal = 1, pck_decision = 1, pck_reservation = 1, pck_checksum = 0, pck_raw = []\<rparr> = risk_next_of 0 0 []"
    by (simp add: risk_next_of_def)
  have "crs_id (cr_spec risk_reserved) = 1" using risk_reservation_new(2) by (simp add: risk_reserved_spec_def)
  moreover have "wrap_u64 (1 + 1) = 2" by (simp add: wrap_u64_def)
  ultimately show ?thesis
    unfolding nextCheckpoint_def Let_def
    using reserve effects snapshot checkpoint
    by (simp add: d bind_r_def source fold or_zero_def del: One_nat_def join.simps)
qed

section \<open>The call\<close>

definition risk_loaded :: loaded where
  "risk_loaded = \<lparr>ld_proposal = risk_proposal, ld_checkpoint = risk_start, ld_configuration = 1,
     ld_allocation_policy = risk_allocation_policy, ld_policy = risk_checked_policy,
     ld_master = \<lparr>im_version = ''m1'', im_instruments = [(11, risk_instrument)]\<rparr>, ld_trigger = 1\<rparr>"

lemma risk_loaded_fields [simp]: "ld_proposal risk_loaded = risk_proposal" "ld_checkpoint risk_loaded = risk_start"
  "ld_configuration risk_loaded = 1" "ld_allocation_policy risk_loaded = risk_allocation_policy" "ld_policy risk_loaded = risk_checked_policy"
  "ld_master risk_loaded = \<lparr>im_version = ''m1'', im_instruments = [(11, risk_instrument)]\<rparr>" "ld_trigger risk_loaded = 1"
  by (simp_all add: risk_loaded_def)

lemma risk_request_fields [simp]: "prq_portfolio risk_request = 3" "prq_proposal risk_request = 1" "prq_revision risk_request = 1"
  "prq_policy risk_request = 1" "prq_master risk_request = ''m1''" "prq_time risk_request = 20"
  by (simp_all add: risk_request_def)

lemma risk_alive_fields [simp]: "ren_entry risk_alive = False" "ren_checkpoint risk_alive = False" "ren_committed risk_alive = False"
  "ren_current risk_alive = False" "ren_select risk_alive = Acquired" "ren_allocated risk_alive = None" "ren_rule risk_alive i = False"
  "ren_ruled risk_alive i = None" "ren_built risk_alive = None" "ren_publish risk_alive = (False, False)"
  by (simp_all add: risk_alive_def)

lemma risk_started: "NewPortfolioCheckpoint sample_sha risk_genesis = Inr risk_start"
proof -
  have n: "pck_snapshot risk_genesis = risk_snapshot" "pck_snapshot_checksum risk_genesis = 0" "pck_checksum risk_genesis = 0"
    "pck_parent_snapshot risk_genesis = 0" "pck_parent_checksum risk_genesis = 0" "pck_trigger risk_genesis = 0"
    "pck_proposal risk_genesis = 0" "pck_decision risk_genesis = 0" "pck_reservation risk_genesis = 0"
    "psn_raw risk_snapshot = canonicalSnapshot (risk_state 1 10 0 [])"
    by (simp_all add: risk_genesis_def risk_snapshot_eq)
  show ?thesis
    unfolding NewPortfolioCheckpoint_def Let_def n risk_checksums or_zero_def
    by (simp add: n risk_start_def del: One_nat_def)
qed

lemma risk_store_opened:
  "InitializePortfolio sample_sha (False, False) risk_genesis (NewStoreWithLimits_risk DefaultLimits_risk) =
     (install_checkpoint (NewStoreWithLimits_risk DefaultLimits_risk) risk_start, Inr risk_registration.RegistrationCommitted)"
  "risk_opened = install_checkpoint (NewStoreWithLimits_risk DefaultLimits_risk) risk_start"
proof -
  show "InitializePortfolio sample_sha (False, False) risk_genesis (NewStoreWithLimits_risk DefaultLimits_risk) =
     (install_checkpoint (NewStoreWithLimits_risk DefaultLimits_risk) risk_start, Inr risk_registration.RegistrationCommitted)"
    by (simp add: InitializePortfolio_def risk_started Let_def NewStoreWithLimits_risk_def DefaultLimits_risk_def size_of_def)
  then show "risk_opened = install_checkpoint (NewStoreWithLimits_risk DefaultLimits_risk) risk_start" by (simp add: risk_opened_def)
qed

lemma risk_opened_fields: "rst_current risk_opened = [(3, 1)]" "risk_checkpoint risk_opened 3 1 = Some risk_start"
  "rst_publications risk_opened = []" "rst_limits risk_opened = DefaultLimits_risk" "rst_fail_before_commit risk_opened = False"
  by (simp_all add: risk_store_opened(2) install_checkpoint_def NewStoreWithLimits_risk_def risk_checkpoint_def get_or_def
      DefaultLimits_risk_def put_def)

lemma risk_load: "load_inputs sample_sha risk_deps risk_alive risk_request risk_opened = Inr risk_loaded"
proof -
  have deps: "rdp_proposal risk_deps i = Inr risk_proposal" "rdp_configuration risk_deps i = Inr (1, 1)"
    "rdp_allocation_policy risk_deps i = Inr risk_allocation_policy" "rdp_policy risk_deps i = Inr risk_checked_policy"
    "rdp_master risk_deps m = Inr \<lparr>im_version = ''m1'', im_instruments = [(11, risk_instrument)]\<rparr>" for i m
    by (simp_all add: risk_deps_def risk_checked_policy_def)
  have checkpoint: "PortfolioCheckpoint False 3 1 risk_opened = Inr risk_start"
    by (simp add: PortfolioCheckpoint_def risk_opened_fields del: One_nat_def)
  have trigger: "NewDecisionTriggerID sample_sha (trigger_parts risk_request risk_proposal risk_start 1 risk_allocation_policy risk_checked_policy
      \<lparr>im_version = ''m1'', im_instruments = [(11, risk_instrument)]\<rparr>) = Inr 1"
  proof -
    have "risk_part ''portfolio-risk-runner/v1''" "risk_part ''m1''" "risk_part (rfc3339_nano 20)" "risk_part (dec_int (int 1))"
      "risk_part (digest_string d)" for d
      using solid_parts(1) [of 1] by (simp_all add: risk_part_def sample_times dec_int_def dec_nat.simps digit_char_def del: of_nat_1)
    then show ?thesis
      by (simp add: NewDecisionTriggerID_def risk_identity_def validParts_risk_def trigger_parts_def del: of_nat_1 One_nat_def)
  qed
  show ?thesis
    using trigger checkpoint
    by (simp add: load_inputs_def deps attempt_def risk_loaded_def Let_def risk_metadata_def risk_allocation_def del: One_nat_def)
qed

definition risk_publication_of :: "digest \<Rightarrow> string \<Rightarrow> decision_publication" where
  "risk_publication_of checksum raw = \<lparr>dpb_trigger = 1, dpb_portfolio = 3, dpb_expected_snapshot = 1, dpb_expected_revision = 1,
     dpb_expected_checkpoint = 1, dpb_candidate = risk_candidate, dpb_evaluation = risk_eval, dpb_decision = risk_decided,
     dpb_reservation = Some risk_reserved, dpb_next = risk_next, dpb_checksum = checksum, dpb_raw = raw\<rparr>"

definition risk_published :: decision_publication where
  "risk_published = risk_publication_of 1 (canonicalPublication_risk (risk_publication_of 0 []))"

lemma risk_publication_new:
  "NewPortfolioDecisionPublication sample_sha (risk_publication_of 0 []) = Inr risk_published"
  "NewPortfolioDecisionPublication sample_sha risk_published = Inr risk_published"
proof -
  have n: "pck_snapshot risk_next = risk_next_snapshot" "pck_trigger risk_next = 1" "pck_proposal risk_next = 1" "pck_decision risk_next = 1"
    "pck_parent_snapshot risk_next = 1" "pck_parent_checksum risk_next = 1" "pck_reservation risk_next = 1"
    "psn_id risk_next_snapshot = 1" "psn_spec risk_next_snapshot = risk_state 2 20 35000 risk_exposures"
    by (simp_all add: risk_next_def risk_next_of_def risk_next_snapshot_def)
  have d: "prd_id risk_decided = 1" "prd_spec risk_decided = risk_decision_spec" by (simp_all add: risk_decided_def)
  have r: "crs_revision (cr_spec risk_reserved) = 2" "crs_id (cr_spec risk_reserved) = 1"
    by (simp_all add: risk_reservation_new(2) risk_reserved_spec_def)
  have f: "dpb_trigger (risk_publication_of c w) = 1" "dpb_portfolio (risk_publication_of c w) = 3"
    "dpb_expected_snapshot (risk_publication_of c w) = 1" "dpb_expected_revision (risk_publication_of c w) = 1"
    "dpb_expected_checkpoint (risk_publication_of c w) = 1" "dpb_candidate (risk_publication_of c w) = risk_candidate"
    "dpb_evaluation (risk_publication_of c w) = risk_eval" "dpb_decision (risk_publication_of c w) = risk_decided"
    "dpb_reservation (risk_publication_of c w) = Some risk_reserved" "dpb_next (risk_publication_of c w) = risk_next"
    "dpb_checksum (risk_publication_of c w) = c" for c w
    by (simp_all add: risk_publication_of_def)
  have wrap: "wrap_u64 (1 + 1) = 2" "wrap_u64 2 = 2" by (simp_all add: wrap_u64_def)
  have ok: "\<not> publication_fields_invalid (risk_publication_of c w)" for c w
    by (simp add: publication_fields_invalid_def f n d risk_eval_fields risk_decision_fields wrap Let_def del: One_nat_def)
  have raw: "canonicalPublication_risk (risk_publication_of c w) = canonicalPublication_risk (risk_publication_of 0 [])" for c w
    by (simp add: canonicalPublication_risk_def f)
  have checksum: "NewStateChecksum_port sample_sha (canonicalPublication_risk p) = Inr 1" for p
    by (simp add: NewStateChecksum_port_def canonicalPublication_risk_def)
  have set: "(risk_publication_of c w)\<lparr>dpb_checksum := 1, dpb_raw := v\<rparr> = risk_publication_of 1 v" for c w v
    by (simp add: risk_publication_of_def)
  have new: "NewPortfolioDecisionPublication sample_sha (risk_publication_of c w) = Inr risk_published" if "c = 0 \<or> c = 1" for c w
    unfolding NewPortfolioDecisionPublication_def Let_def raw [of c w] checksum or_zero_def
    using ok [of c w] that
    by (auto simp: f n r wrap risk_published_def set simp del: One_nat_def)
  show "NewPortfolioDecisionPublication sample_sha (risk_publication_of 0 []) = Inr risk_published" by (simp add: new)
  show "NewPortfolioDecisionPublication sample_sha risk_published = Inr risk_published"
    using new [of 1 "canonicalPublication_risk (risk_publication_of 0 [])"] by (simp only: risk_published_def [symmetric]) simp
qed

lemma risk_prepared:
  "prepare_decision sample_sha risk_deps risk_alive risk_request ((start_receipt risk_request)\<lparr>prr_trigger := 1\<rparr>) risk_loaded =
     Inr risk_published"
proof -
  have input: "\<lparr>ain_proposal = risk_proposal, ain_snapshot = risk_snapshot, ain_policy = risk_allocation_policy,
      ain_master = \<lparr>im_version = ''m1'', im_instruments = [(11, risk_instrument)]\<rparr>, ain_time = 20\<rparr> = risk_input"
    by (simp add: risk_input_def)
  have deps: "rdp_allocate risk_deps = Evaluate sample_sha" "rdp_rule risk_deps = Rule_Evaluate"
    "rdp_rules risk_deps = [''KILL_SWITCH'' \<mapsto> risk_judge]"
    by (simp_all add: risk_deps_def risk_judge_def)
  have policy: "rpo_rules risk_checked_policy = [risk_configured]" "rpo_id risk_checked_policy = 1" "rpo_version risk_checked_policy = 1"
    by (simp_all add: risk_checked_policy_def risk_policy_of_def risk_configured_def)
  have resolve: "Resolve [''KILL_SWITCH'' \<mapsto> risk_judge] risk_configured = Inr risk_judge"
    by (simp add: Resolve_def risk_configured_def risk_rule_def risk_judge_def newProductionRule_def)
  have rule_input: "rule_input_for risk_request risk_loaded risk_candidate (risk_allocation 0) risk_configured = risk_rule_input"
    by (simp add: rule_input_for_def policy risk_rule_input_def) (simp add: risk_state_def)
  have allocation: "allocationFor risk_candidate risk_snapshot = Some (risk_allocation 0)"
    by (simp add: allocationFor_def) (simp add: risk_allocation_def)
  have verdict: "rrs_rule risk_verdict = rrd_id (rrc_descriptor risk_configured)"
    "rrs_version risk_verdict = rrd_version (rrc_descriptor risk_configured)" "rrs_hash risk_verdict = rrc_hash risk_configured"
    "rrs_at risk_verdict = 20" "rrs_status risk_verdict = RulePass"
    by (simp_all add: risk_verdict_def risk_configured_def risk_rule_def newProductionRule_def)
  let ?receipt = "(start_receipt risk_request)\<lparr>prr_trigger := 1\<rparr>"
  have allocated: "run_allocator risk_deps risk_alive risk_request ?receipt risk_loaded = Inr risk_candidate"
    by (simp add: run_allocator_def deps input risk_evaluated)
  have judged: "run_rules (run_rule sample_sha risk_deps risk_alive risk_request ?receipt risk_loaded risk_candidate) 0 [risk_configured] =
      Inr [risk_verdict]"
    by (simp add: run_rule_def deps resolve allocation rule_input risk_rule_input_new attempt_def risk_judged risk_verdict_new verdict Let_def
        del: fun_upd_apply)
  have fold: "\<lparr>dpb_trigger = 1, dpb_portfolio = 3, dpb_expected_snapshot = 1, dpb_expected_revision = 1,
     dpb_expected_checkpoint = 1, dpb_candidate = risk_candidate, dpb_evaluation = risk_eval, dpb_decision = risk_decided,
     dpb_reservation = Some risk_reserved, dpb_next = risk_next, dpb_checksum = 0, dpb_raw = []\<rparr> = risk_publication_of 0 []"
    by (simp add: risk_publication_of_def)
  show ?thesis
    by (simp add: prepare_decision_def allocated judged policy technical_errors_def verdict attempt_def Let_def risk_built_evaluation
        risk_built_decision risk_next_built fold risk_publication_new(1) del: One_nat_def run_rules.simps)
qed

definition risk_done :: risk_store where
  "risk_done = commit_decision risk_opened risk_published"

definition risk_receipt :: runner_receipt where
  "risk_receipt = \<lparr>prr_outcome = OutcomeApproved, prr_trigger = 1, prr_proposal = 1, prr_portfolio = 3, prr_expected = 1,
     prr_committed = 2, prr_decision = 1, prr_snapshot = 1, prr_reservation = 1, prr_checksum = 1\<rparr>"

lemma risk_published_fields: "dpb_trigger risk_published = 1" "dpb_portfolio risk_published = 3" "dpb_expected_snapshot risk_published = 1"
  "dpb_expected_revision risk_published = 1" "dpb_expected_checkpoint risk_published = 1" "dpb_decision risk_published = risk_decided"
  "dpb_reservation risk_published = Some risk_reserved" "dpb_next risk_published = risk_next" "dpb_checksum risk_published = 1"
  by (simp_all add: risk_published_def risk_publication_of_def)

lemma risk_next_fields: "pck_snapshot risk_next = risk_next_snapshot" "pck_trigger risk_next = 1" "pck_parent_snapshot risk_next = 1"
  "pck_parent_checksum risk_next = 1" "psn_id risk_next_snapshot = 1" "psn_spec risk_next_snapshot = risk_state 2 20 35000 risk_exposures"
  by (simp_all add: risk_next_def risk_next_of_def risk_next_snapshot_def)

lemma risk_called:
  "EvaluateProposal sample_sha risk_deps risk_alive risk_request (risk_opened, risk_idle) = ((risk_done, risk_idle), risk_receipt, None)"
proof -
  have admit: "admit_decision risk_opened risk_published = Inr ()"
    by (simp add: admit_decision_def risk_opened_fields risk_published_fields risk_next_fields DefaultLimits_risk_def size_of_def Let_def
        del: One_nat_def)
  have receipt: "decision_receipt risk_published = \<lparr>rtr_status = RuntimePublicationCommitted, rtr_trigger = 1, rtr_decision = 1,
      rtr_snapshot = 1, rtr_revision = 2, rtr_reservation = 1, rtr_checksum = 1\<rparr>"
    by (simp add: decision_receipt_def risk_published_fields risk_next_fields risk_decided_def risk_reservation_new(2) risk_reserved_spec_def)
  have publish: "PublishPortfolioDecision sample_sha (False, False) risk_published risk_opened =
      (risk_done, Inr (decision_receipt risk_published))"
    by (simp add: PublishPortfolioDecision_def risk_publication_new(2) risk_opened_fields admit risk_done_def Let_def)
  have outcome: "outcomeForDecision (ds_outcome (prd_spec risk_decided)) = OutcomeApproved"
    by (simp add: risk_decided_def risk_decision_fields outcomeForDecision_def)
  have guard: "reserve_portfolio 3 1 risk_idle = (risk_idle\<lparr>rns_running := [(3, 1)]\<rparr>, NoOutcome)"
    by (simp add: reserve_portfolio_def risk_idle_def put_def)
  have free: "release_portfolio 3 (risk_idle\<lparr>rns_running := [(3, 1)]\<rparr>) = risk_idle"
    by (simp add: release_portfolio_def risk_idle_def)
  have current: "CurrentPortfolioCheckpoint False 3 risk_opened = Inr (Some risk_start)"
    by (simp add: CurrentPortfolioCheckpoint_def risk_opened_fields del: One_nat_def)
  have fresh: "CommittedPublication_risk False 1 risk_opened = Inl (RiskStorage ErrNotFound_risk)"
    by (simp add: CommittedPublication_risk_def risk_opened_fields)
  have same: "same_checkpoint risk_request risk_start (Some risk_start)" by (simp add: same_checkpoint_def)
  have published: "publish_decision sample_sha risk_alive ((start_receipt risk_request)\<lparr>prr_trigger := 1\<rparr>) risk_published risk_opened =
      (risk_done, risk_receipt, None)"
    by (simp add: publish_decision_def publish receipt risk_published_fields outcome receiptFromPublication_def start_receipt_def risk_receipt_def)
  show ?thesis
    by (simp add: EvaluateProposal_def risk_load fresh current same guard free risk_prepared published Let_def del: One_nat_def)
qed
end
