(* ===== verification/Spec2Isabelle.thy ===== *)
theory Spec2Isabelle
  imports Claims_Execution Risk_Decided
begin

text \<open>
  Verification of the execution and accounting core of TradeEdge.
\<close>

end
